(* ===== verification/Prelude.thy ===== *)
theory Prelude
  imports Complex_Main "HOL-Library.Char_ord" "HOL-Library.List_Lexorder" "HOL-Library.Word" "HOL-Library.Multiset"
begin

text \<open>
  Prelude of the CEE development: what the components share.
  \<^item> Go maps with string keys, as association lists kept in key order (\<open>gomap\<close>): lookup is
    \<open>map_of\<close>, the update \<open>gput\<close>, the overlay of one map on another \<open>gmerge\<close>, the keys in sorted
    order \<open>gkeys\<close>. Go's own iteration order is unspecified; where the code iterates without
    sorting, the components take the order as a parameter.
  \<^item> the package \<open>strings\<close> of the Go standard library as far as the code uses it;
  \<^item> results: \<open>Ok\<close> a value, \<open>Err\<close> a returned error, \<open>Panic\<close> a Go run-time panic that unwinds.
  The collection \<open>gomap_simps\<close> holds the rewrite rules for lookups.
\<close>

named_theorems gomap_simps

section \<open>Results\<close>

datatype ('e, 'a) res = Ok 'a | Err 'e | Panic string

fun res_bind :: "('e, 'a) res \<Rightarrow> ('a \<Rightarrow> ('e, 'b) res) \<Rightarrow> ('e, 'b) res" where
  "res_bind (Ok x) f = f x"
| "res_bind (Err e) f = Err e"
| "res_bind (Panic p) f = Panic p"

fun is_ok :: "('e, 'a) res \<Rightarrow> bool" where
  "is_ok (Ok _) = True"
| "is_ok _ = False"

lemma is_ok_iff: "is_ok r \<longleftrightarrow> (\<exists>x. r = Ok x)"
  by (cases r) auto

lemma res_bind_Ok_iff: "res_bind r f = Ok y \<longleftrightarrow> (\<exists>x. r = Ok x \<and> f x = Ok y)"
  by (cases r) auto

text \<open>A loop whose body may fail: every element in order, the first failure ends it.\<close>

fun map_res :: "('a \<Rightarrow> ('e, 'b) res) \<Rightarrow> 'a list \<Rightarrow> ('e, 'b list) res" where
  "map_res f [] = Ok []"
| "map_res f (x # xs) = res_bind (f x) (\<lambda>y. res_bind (map_res f xs) (\<lambda>ys. Ok (y # ys)))"

lemma map_res_Ok_iff:
  "map_res f xs = Ok ys \<longleftrightarrow> list_all2 (\<lambda>x y. f x = Ok y) xs ys"
  by (induction xs arbitrary: ys) (auto simp: res_bind_Ok_iff list_all2_Cons1)

lemma map_res_is_ok: "is_ok (map_res f xs) \<longleftrightarrow> (\<forall>x \<in> set xs. is_ok (f x))"
proof (induction xs)
  case (Cons x xs)
  then show ?case by (cases "f x"; cases "map_res f xs") auto
qed simp

section \<open>Go maps with string keys\<close>

type_synonym 'v gomap = "(string \<times> 'v) list"

fun gput :: "string \<Rightarrow> 'v \<Rightarrow> 'v gomap \<Rightarrow> 'v gomap" where
  "gput k v [] = [(k, v)]"
| "gput k v ((k', v') # m) =
     (if k = k' then (k, v) # m
      else if k < k' then (k, v) # (k', v') # m
      else (k', v') # gput k v m)"

definition gdel :: "string \<Rightarrow> 'v gomap \<Rightarrow> 'v gomap" where
  "gdel k m = filter (\<lambda>(k', _). k' \<noteq> k) m"

fun gmerge :: "'v gomap \<Rightarrow> 'v gomap \<Rightarrow> 'v gomap" where
  "gmerge base [] = base"
| "gmerge base ((k, v) # overlay) = gput k v (gmerge base overlay)"

definition gkeys :: "'v gomap \<Rightarrow> string list" where
  "gkeys m = map fst m"

text \<open>The representation invariant: keys strictly ascending, hence distinct.\<close>

definition gwf :: "'v gomap \<Rightarrow> bool" where
  "gwf m \<longleftrightarrow> sorted_wrt (<) (gkeys m)"

lemma gkeys_simps [simp]: "gkeys [] = []" "gkeys (x # m) = fst x # gkeys m"
  by (simp_all add: gkeys_def)

lemma set_gkeys: "set (gkeys m) = dom (map_of m)"
  by (simp add: gkeys_def dom_map_of_conv_image_fst)

lemma map_of_gput [simp, gomap_simps]: "map_of (gput k v m) = (map_of m)(k \<mapsto> v)"
  by (induction k v m rule: gput.induct) (auto simp: fun_eq_iff)

lemma map_of_gmerge [simp, gomap_simps]: "map_of (gmerge base overlay) = map_of base ++ map_of overlay"
  by (induction base overlay rule: gmerge.induct) (auto simp: fun_eq_iff map_add_def)

lemma map_of_gdel [simp, gomap_simps]: "map_of (gdel k m) = (map_of m)(k := None)"
  by (induction m) (auto simp: gdel_def fun_eq_iff)

lemma set_gkeys_gput [simp]: "set (gkeys (gput k v m)) = insert k (set (gkeys m))"
  by (simp add: set_gkeys)

lemma gwf_Nil [simp]: "gwf []"
  by (simp add: gwf_def)

lemma gwf_Cons: "gwf ((k, v) # m) \<longleftrightarrow> (\<forall>k' \<in> set (gkeys m). k < k') \<and> gwf m"
  by (auto simp: gwf_def)

lemma gwf_gput [simp]: "gwf m \<Longrightarrow> gwf (gput k v m)"
  by (induction k v m rule: gput.induct) (auto simp: gwf_Cons)

lemma gwf_gmerge [simp]: "gwf base \<Longrightarrow> gwf (gmerge base overlay)"
  by (induction base overlay rule: gmerge.induct) auto

lemma gwf_gdel [simp]: "gwf m \<Longrightarrow> gwf (gdel k m)"
proof (induction m)
  case (Cons x m)
  have "set (gkeys (gdel k m)) \<subseteq> set (gkeys m)"
    by (auto simp: gdel_def gkeys_def)
  with Cons show ?case
    by (cases x) (auto simp: gdel_def gwf_Cons)
qed (simp add: gdel_def)

lemma gwf_distinct: "gwf m \<Longrightarrow> distinct (gkeys m)"
  by (simp add: gwf_def strict_sorted_iff)

text \<open>Two maps in canonical form that agree on every lookup are the same list.\<close>

lemma map_of_head_least:
  assumes "gwf ((k, v) # m)" and "map_of ((k, v) # m) j \<noteq> None"
  shows "k \<le> j"
proof -
  have "j = k \<or> j \<in> set (gkeys m)"
    using assms(2) by (auto simp: set_gkeys split: if_splits)
  with assms(1) show ?thesis by (auto simp: gwf_Cons)
qed

lemma gomap_eqI: "gwf m \<Longrightarrow> gwf n \<Longrightarrow> map_of m = map_of n \<Longrightarrow> m = n"
proof (induction m arbitrary: n)
  case Nil
  then show ?case by simp
next
  case (Cons x m)
  obtain k v where x: "x = (k, v)" by force
  have "map_of n k = Some v"
    using Cons.prems(3) x by (metis map_of_Cons_code(2))
  then obtain l w n' where n: "n = (l, w) # n'"
    by (cases n) auto
  have eq: "map_of ((k, v) # m) = map_of ((l, w) # n')"
    using Cons.prems(3) by (simp only: x n)
  have "map_of ((k, v) # m) l \<noteq> None"
    by (simp only: eq) simp
  moreover have "map_of ((l, w) # n') k \<noteq> None"
    by (simp only: eq [symmetric]) simp
  ultimately have kl: "l = k"
    using map_of_head_least [of k v m l] map_of_head_least [of l w n' k] Cons.prems(1,2) x n
    by (metis order_antisym)
  have vw: "w = v"
    using fun_cong [OF eq, of k] kl by simp
  have "map_of m = map_of n'"
  proof
    fix j
    show "map_of m j = map_of n' j"
    proof (cases "j = k")
      case True
      have "k \<notin> set (gkeys m)" "k \<notin> set (gkeys n')"
        using Cons.prems(1,2) x n kl by (auto simp: gwf_Cons)
      with True show ?thesis by (simp add: set_gkeys domIff)
    next
      case False
      with fun_cong [OF eq, of j] kl show ?thesis by simp
    qed
  qed
  with Cons x n kl vw show ?case by (auto simp: gwf_Cons)
qed

lemma map_of_filter_key:
  "map_of (filter (\<lambda>(k, _). P k) m) k = (if P k then map_of m k else None)"
  by (induction m) auto

section \<open>Strings\<close>

text \<open>\<open>strings.Join\<close>, \<open>strings.HasPrefix\<close>, \<open>strings.HasSuffix\<close> and their trimming companions.\<close>

fun str_join :: "string list \<Rightarrow> string \<Rightarrow> string" where
  "str_join [] sep = []"
| "str_join [x] sep = x"
| "str_join (x # y # xs) sep = x @ sep @ str_join (y # xs) sep"

definition has_prefix :: "string \<Rightarrow> string \<Rightarrow> bool" where
  "has_prefix s p \<longleftrightarrow> take (length p) s = p"

definition has_suffix :: "string \<Rightarrow> string \<Rightarrow> bool" where
  "has_suffix s p \<longleftrightarrow> length p \<le> length s \<and> drop (length s - length p) s = p"

definition trim_prefix :: "string \<Rightarrow> string \<Rightarrow> string" where
  "trim_prefix s p = (if has_prefix s p then drop (length p) s else s)"

definition trim_suffix :: "string \<Rightarrow> string \<Rightarrow> string" where
  "trim_suffix s p = (if has_suffix s p then take (length s - length p) s else s)"

lemma has_prefix_iff: "has_prefix s p \<longleftrightarrow> (\<exists>r. s = p @ r)"
  unfolding has_prefix_def by (metis append_eq_conv_conj append_take_drop_id)

lemma has_suffix_append [simp]: "has_suffix (r @ p) p"
  by (simp add: has_suffix_def)

lemma has_suffix_iff: "has_suffix s p \<longleftrightarrow> (\<exists>r. s = r @ p)"
  unfolding has_suffix_def by (metis append_take_drop_id has_suffix_append has_suffix_def)

lemma trim_suffix_append [simp]: "trim_suffix (r @ p) p = r"
  by (simp add: trim_suffix_def)

lemma trim_prefix_append [simp]: "trim_prefix (p @ r) p = r"
  by (simp add: trim_prefix_def has_prefix_iff)

text \<open>\<open>strings.TrimSpace\<close> on ASCII white space, \<open>strings.TrimRight\<close> with a one-character cutset.\<close>

definition is_space :: "char \<Rightarrow> bool" where
  "is_space c \<longleftrightarrow> c \<in> {CHR '' '', CHR 0x09, CHR 0x0A, CHR 0x0B, CHR 0x0C, CHR 0x0D}"

definition trim_left_by :: "(char \<Rightarrow> bool) \<Rightarrow> string \<Rightarrow> string" where
  "trim_left_by P s = dropWhile P s"

definition trim_right_by :: "(char \<Rightarrow> bool) \<Rightarrow> string \<Rightarrow> string" where
  "trim_right_by P s = rev (dropWhile P (rev s))"

definition trim_space :: "string \<Rightarrow> string" where
  "trim_space s = trim_right_by is_space (trim_left_by is_space s)"

text \<open>Decimal numerals, as \<open>%d\<close> prints them.\<close>

fun digits_of :: "nat \<Rightarrow> string" where
  "digits_of n = (if n < 10 then [char_of (48 + n)] else digits_of (n div 10) @ [char_of (48 + n mod 10)])"

declare digits_of.simps [simp del]

definition show_int :: "int \<Rightarrow> string" where
  "show_int i = (if i < 0 then ''-'' @ digits_of (nat (- i)) else digits_of (nat i))"

text \<open>
  \<open>%q\<close> (\<open>strconv.Quote\<close>): double quotes around the text, with quote, backslash and control
  characters escaped. Bytes from 128 on are passed through, as printable UTF-8 text is.
\<close>

definition hex_digit :: "nat \<Rightarrow> char" where
  "hex_digit n = (if n < 10 then char_of (48 + n) else char_of (87 + n))"

definition quote_char :: "char \<Rightarrow> string" where
  "quote_char c =
     (let n = of_char c :: nat; bs = CHR 0x5C in
      if n = 34 \<or> n = 92 then [bs, c]
      else if n = 7 then [bs, CHR ''a''] else if n = 8 then [bs, CHR ''b'']
      else if n = 12 then [bs, CHR ''f''] else if n = 10 then [bs, CHR ''n'']
      else if n = 13 then [bs, CHR ''r''] else if n = 9 then [bs, CHR ''t'']
      else if n = 11 then [bs, CHR ''v'']
      else if n < 32 \<or> n = 127 then [bs, CHR ''x'', hex_digit (n div 16), hex_digit (n mod 16)]
      else [c])"

definition quoted :: "string \<Rightarrow> string" where
  "quoted s = [CHR 0x22] @ concat (map quote_char s) @ [CHR 0x22]"

section \<open>Lists\<close>

text \<open>\<open>slices\<close> of the last elements, and membership of what a fold keeps.\<close>

lemma list_all2_set1: "list_all2 P xs ys \<Longrightarrow> x \<in> set xs \<Longrightarrow> \<exists>y \<in> set ys. P x y"
  by (induction rule: list_all2_induct) auto

lemma list_all2_set2: "list_all2 P xs ys \<Longrightarrow> y \<in> set ys \<Longrightarrow> \<exists>x \<in> set xs. P x y"
  by (induction rule: list_all2_induct) auto

text \<open>
  Writing the slots of an array of length \<open>n\<close> in any order that is a permutation of its
  indices gives the same array.
\<close>

lemma fold_list_update_other:
  "i \<notin> set is \<Longrightarrow> fold (\<lambda>j xs. xs[j := f j]) is xs ! i = xs ! i"
  by (induction "is" arbitrary: xs) auto

lemma length_fold_list_update [simp]: "length (fold (\<lambda>j xs. xs[j := f j]) is xs) = length xs"
  by (induction "is" arbitrary: xs) auto

lemma fold_list_update_nth:
  "distinct is \<Longrightarrow> i \<in> set is \<Longrightarrow> i < length xs \<Longrightarrow> fold (\<lambda>j xs. xs[j := f j]) is xs ! i = f i"
  by (induction "is" arbitrary: xs) (auto simp: fold_list_update_other)

lemma fold_list_update_perm:
  assumes "distinct is" and "set is = {..<length xs}"
  shows "fold (\<lambda>j xs. xs[j := f j]) is xs = map f [0..<length xs]"
  by (rule nth_equalityI) (use assms in \<open>auto simp: fold_list_update_nth\<close>)

end
