(* ===== verification/GoValue.thy ===== *)
theory GoValue
  imports Prelude
begin

text \<open>
  Go values of type \<open>any\<close> as the engine's contexts hold them.
  \<^item> \<open>float64\<close>: NaN, the infinities and finite values (rationals); IEEE comparison, and the
    conversion of an integer, rounded to 53 bits, half to even. Signed zeros are not distinguished.
  \<^item> \<open>gval\<close>: nil, bool, string, the numeric types the code tells apart, \<open>[]string\<close>, \<open>[]any\<close>
    and \<open>map[string]any\<close>. An object is an association list in key order (\<open>gval_wf\<close>).
  \<^item> \<open>deep_equal\<close>: \<open>reflect.DeepEqual\<close>; \<open>go_eq\<close>: the operator \<open>==\<close> on interface values, which
    panics on two values of one uncomparable type; \<open>fmt_v\<close>: the verb \<open>%v\<close>.
\<close>

section \<open>Floating point\<close>

datatype float64 = NaN | Inf bool | Fin rat

text \<open>The Boolean of \<open>Inf\<close> is the sign: true for the negative infinity.\<close>

fun f64_lt :: "float64 \<Rightarrow> float64 \<Rightarrow> bool" where
  "f64_lt (Fin x) (Fin y) = (x < y)"
| "f64_lt (Fin _) (Inf neg) = (\<not> neg)"
| "f64_lt (Inf neg) (Fin _) = neg"
| "f64_lt (Inf n1) (Inf n2) = (n1 \<and> \<not> n2)"
| "f64_lt _ _ = False"

fun f64_eq :: "float64 \<Rightarrow> float64 \<Rightarrow> bool" where
  "f64_eq (Fin x) (Fin y) = (x = y)"
| "f64_eq (Inf n1) (Inf n2) = (n1 = n2)"
| "f64_eq _ _ = False"

definition f64_le :: "float64 \<Rightarrow> float64 \<Rightarrow> bool" where
  "f64_le x y \<longleftrightarrow> f64_lt x y \<or> f64_eq x y"

lemma f64_eq_iff: "f64_eq x y \<longleftrightarrow> x = y \<and> x \<noteq> NaN"
  by (cases x; cases y) auto

lemma f64_trichotomy:
  "x \<noteq> NaN \<Longrightarrow> y \<noteq> NaN \<Longrightarrow> f64_lt x y \<or> f64_eq x y \<or> f64_lt y x"
  by (cases x; cases y) auto

lemma f64_lt_not_sym: "f64_lt x y \<Longrightarrow> \<not> f64_lt y x \<and> \<not> f64_eq x y"
  by (cases x; cases y) auto

text \<open>
  \<open>float64(n)\<close> for an integer: exact up to 53 bits, otherwise the low bits are rounded away.
  The exponent range is never exceeded by a 64-bit integer.
\<close>

fun excess_bits :: "nat \<Rightarrow> nat" where
  "excess_bits n = (if n < 2 ^ 53 then 0 else Suc (excess_bits (n div 2)))"

declare excess_bits.simps [simp del]

definition round_half_even :: "nat \<Rightarrow> nat \<Rightarrow> nat" where
  "round_half_even n d =
     (let q = n div d; r = n mod d in
      if 2 * r < d then q else if d < 2 * r then Suc q else if even q then q else Suc q)"

definition round53 :: "int \<Rightarrow> int" where
  "round53 i =
     (let n = nat \<bar>i\<bar>; k = excess_bits n in sgn i * int (round_half_even n (2 ^ k) * 2 ^ k))"

definition f64_of_int :: "int \<Rightarrow> float64" where
  "f64_of_int i = Fin (of_int (round53 i))"

lemma round53_small: "\<bar>i\<bar> < 2 ^ 53 \<Longrightarrow> round53 i = i"
  by (simp add: round53_def excess_bits.simps [of "nat \<bar>i\<bar>"] round_half_even_def nat_less_iff
      sgn_mult_abs)

lemma f64_of_int_small: "\<bar>i\<bar> < 2 ^ 53 \<Longrightarrow> f64_of_int i = Fin (of_int i)"
  by (simp add: f64_of_int_def round53_small)

section \<open>Values\<close>

datatype gval =
    GNil
  | GBool bool
  | GStr string
  | GFloat float64
  | GFloat32 float64
  | GInt "64 word"
  | GInt64 "64 word"
  | GStrs "string list"
  | GArr "gval list"
  | GObj "(string \<times> gval) list"

text \<open>A workflow context, an action's output, a parameter block: \<open>map[string]any\<close>.\<close>

type_synonym ctx = "gval gomap"

fun gval_wf :: "gval \<Rightarrow> bool" and gvals_wf :: "gval list \<Rightarrow> bool"
  and gfields_wf :: "(string \<times> gval) list \<Rightarrow> bool" where
  "gval_wf (GArr xs) = gvals_wf xs"
| "gval_wf (GObj m) = (gwf m \<and> gfields_wf m)"
| "gval_wf _ = True"
| "gvals_wf [] = True"
| "gvals_wf (x # xs) = (gval_wf x \<and> gvals_wf xs)"
| "gfields_wf [] = True"
| "gfields_wf ((k, v) # m) = (gval_wf v \<and> gfields_wf m)"

text \<open>
  \<open>reflect.DeepEqual\<close>: same dynamic type and equal contents; NaN differs from itself. The
  shortcut DeepEqual takes for two references to one map or slice is not modelled: it shows
  only for a NaN inside.
\<close>

fun deep_equal :: "gval \<Rightarrow> gval \<Rightarrow> bool" and deep_equals :: "gval list \<Rightarrow> gval list \<Rightarrow> bool"
  and deep_equal_fields :: "(string \<times> gval) list \<Rightarrow> (string \<times> gval) list \<Rightarrow> bool" where
  "deep_equal GNil y = (y = GNil)"
| "deep_equal (GBool a) y = (y = GBool a)"
| "deep_equal (GStr a) y = (y = GStr a)"
| "deep_equal (GFloat a) y = (case y of GFloat b \<Rightarrow> f64_eq a b | _ \<Rightarrow> False)"
| "deep_equal (GFloat32 a) y = (case y of GFloat32 b \<Rightarrow> f64_eq a b | _ \<Rightarrow> False)"
| "deep_equal (GInt a) y = (y = GInt a)"
| "deep_equal (GInt64 a) y = (y = GInt64 a)"
| "deep_equal (GStrs a) y = (y = GStrs a)"
| "deep_equal (GArr a) y = (case y of GArr b \<Rightarrow> deep_equals a b | _ \<Rightarrow> False)"
| "deep_equal (GObj a) y = (case y of GObj b \<Rightarrow> deep_equal_fields a b | _ \<Rightarrow> False)"
| "deep_equals [] ys = (ys = [])"
| "deep_equals (x # xs) ys = (case ys of [] \<Rightarrow> False | y # ys' \<Rightarrow> deep_equal x y \<and> deep_equals xs ys')"
| "deep_equal_fields [] n = (n = [])"
| "deep_equal_fields ((k, v) # m) n =
     (case n of [] \<Rightarrow> False
      | (l, w) # n' \<Rightarrow> k = l \<and> deep_equal v w \<and> deep_equal_fields m n')"

fun nan_free :: "gval \<Rightarrow> bool" and nan_frees :: "gval list \<Rightarrow> bool"
  and nan_free_fields :: "(string \<times> gval) list \<Rightarrow> bool" where
  "nan_free (GFloat x) = (x \<noteq> NaN)"
| "nan_free (GFloat32 x) = (x \<noteq> NaN)"
| "nan_free (GArr xs) = nan_frees xs"
| "nan_free (GObj m) = nan_free_fields m"
| "nan_free _ = True"
| "nan_frees [] = True"
| "nan_frees (x # xs) = (nan_free x \<and> nan_frees xs)"
| "nan_free_fields [] = True"
| "nan_free_fields ((k, v) # m) = (nan_free v \<and> nan_free_fields m)"

lemma deep_equal_eq:
  "deep_equal a b \<Longrightarrow> a = b" "deep_equals as bs \<Longrightarrow> as = bs" "deep_equal_fields ms ns \<Longrightarrow> ms = ns"
  by (induction a b and as bs and ms ns rule: deep_equal_deep_equals_deep_equal_fields.induct)
    (auto simp: f64_eq_iff split: gval.splits list.splits)

lemma deep_equal_refl:
  "nan_free a \<Longrightarrow> deep_equal a a" "nan_frees as \<Longrightarrow> deep_equals as as"
  "nan_free_fields ms \<Longrightarrow> deep_equal_fields ms ms"
  by (induction a and as and ms rule: nan_free_nan_frees_nan_free_fields.induct)
    (auto simp: f64_eq_iff)

lemma deep_equal_iff: "nan_free a \<Longrightarrow> deep_equal a b \<longleftrightarrow> a = b"
  using deep_equal_eq(1) deep_equal_refl(1) by blast

text \<open>
  \<open>a == b\<close> on two interface values: false when the dynamic types differ; a run-time panic when
  they agree on a slice or map type, which Go cannot compare. \<open>None\<close> is the panic.
\<close>

definition go_eq :: "gval \<Rightarrow> gval \<Rightarrow> bool option" where
  "go_eq a b =
     (case (a, b) of
        (GStrs _, GStrs _) \<Rightarrow> None
      | (GArr _, GArr _) \<Rightarrow> None
      | (GObj _, GObj _) \<Rightarrow> None
      | _ \<Rightarrow> Some (deep_equal a b))"

definition uncomparable_pair :: "gval \<Rightarrow> gval \<Rightarrow> bool" where
  "uncomparable_pair a b \<longleftrightarrow>
     (case (a, b) of (GStrs _, GStrs _) \<Rightarrow> True | (GArr _, GArr _) \<Rightarrow> True
       | (GObj _, GObj _) \<Rightarrow> True | _ \<Rightarrow> False)"

lemma go_eq_None_iff: "go_eq a b = None \<longleftrightarrow> uncomparable_pair a b"
  by (cases a; cases b) (simp_all add: uncomparable_pair_def go_eq_def)

section \<open>Formatting with \<open>%v\<close>\<close>

text \<open>
  \<open>%v\<close> of a float is the shortest decimal that reads back as the same float, in exponent form
  below 1e-4 and from 1e6 on. \<open>round_bits p\<close> rounds a positive rational to a p-bit float of
  unbounded exponent.
\<close>

definition pow2 :: "int \<Rightarrow> rat" where
  "pow2 k = (if 0 \<le> k then 2 ^ nat k else 1 / 2 ^ nat (- k))"

definition pow10 :: "int \<Rightarrow> rat" where
  "pow10 k = (if 0 \<le> k then 10 ^ nat k else 1 / 10 ^ nat (- k))"

definition round_rat :: "rat \<Rightarrow> int" where
  "round_rat q =
     (let f = \<lfloor>q\<rfloor>; r = q - of_int f in
      if r < 1 / 2 then f else if 1 / 2 < r then f + 1 else if even f then f else f + 1)"

fun bits_of :: "nat \<Rightarrow> nat" where
  "bits_of n = (if n = 0 then 0 else Suc (bits_of (n div 2)))"

declare bits_of.simps [simp del]

definition ilog2 :: "rat \<Rightarrow> int" where
  "ilog2 q =
     (let (a, b) = quotient_of q; k = int (bits_of (nat a)) - int (bits_of (nat b)) in
      if pow2 k \<le> q then k else k - 1)"

definition round_bits :: "nat \<Rightarrow> rat \<Rightarrow> rat" where
  "round_bits p q =
     (let e = ilog2 q - int p + 1 in of_int (round_rat (q / pow2 e)) * pow2 e)"

fun ilog10_from :: "nat \<Rightarrow> int \<Rightarrow> rat \<Rightarrow> int" where
  "ilog10_from 0 k q = k"
| "ilog10_from (Suc n) k q = (if pow10 k \<le> q then k else ilog10_from n (k - 1) q)"

definition ilog10 :: "rat \<Rightarrow> int" where
  "ilog10 q = ilog10_from 640 (int (length (digits_of (nat \<lfloor>q\<rfloor>))) - 1) q"

text \<open>The shortest digits: the first digit count whose nearest decimal rounds back.\<close>

fun shortest_from :: "nat \<Rightarrow> nat \<Rightarrow> nat \<Rightarrow> rat \<Rightarrow> int \<times> int" where
  "shortest_from 0 n p q = (let e = ilog10 q - int n + 1 in (round_rat (q / pow10 e), e))"
| "shortest_from (Suc fuel) n p q =
     (let e = ilog10 q - int n + 1; d = round_rat (q / pow10 e) in
      if round_bits p (of_int d * pow10 e) = q then (d, e) else shortest_from fuel (Suc n) p q)"

definition fmt_exp :: "int \<Rightarrow> string" where
  "fmt_exp x =
     (let ds = digits_of (nat \<bar>x\<bar>) in
      ''e'' @ (if x < 0 then ''-'' else ''+'') @ (if length ds < 2 then ''0'' @ ds else ds))"

definition fmt_pos_rat :: "nat \<Rightarrow> rat \<Rightarrow> string" where
  "fmt_pos_rat p q =
     (let (d, e) = shortest_from 16 1 p q; ds = digits_of (nat d);
          x = e + int (length ds) - 1 in
      if x < -4 \<or> 6 \<le> x then
        take 1 ds @ (if length ds > 1 then ''.'' @ drop 1 ds else []) @ fmt_exp x
      else if 0 \<le> e then ds @ replicate (nat e) (CHR ''0'')
      else if 0 \<le> x then take (nat x + 1) ds @ ''.'' @ drop (nat x + 1) ds
      else ''0.'' @ replicate (nat (- x) - 1) (CHR ''0'') @ ds)"

fun fmt_float :: "nat \<Rightarrow> float64 \<Rightarrow> string" where
  "fmt_float p NaN = ''NaN''"
| "fmt_float p (Inf neg) = (if neg then ''-Inf'' else ''+Inf'')"
| "fmt_float p (Fin q) =
     (if q = 0 then ''0'' else if q < 0 then ''-'' @ fmt_pos_rat p (- q) else fmt_pos_rat p q)"

fun fmt_v :: "gval \<Rightarrow> string" and fmt_vs :: "gval list \<Rightarrow> string list"
  and fmt_fields :: "(string \<times> gval) list \<Rightarrow> string list" where
  "fmt_v GNil = ''<nil>''"
| "fmt_v (GBool b) = (if b then ''true'' else ''false'')"
| "fmt_v (GStr s) = s"
| "fmt_v (GFloat x) = fmt_float 53 x"
| "fmt_v (GFloat32 x) = fmt_float 24 x"
| "fmt_v (GInt w) = show_int (sint w)"
| "fmt_v (GInt64 w) = show_int (sint w)"
| "fmt_v (GStrs xs) = ''['' @ str_join xs '' '' @ '']''"
| "fmt_v (GArr xs) = ''['' @ str_join (fmt_vs xs) '' '' @ '']''"
| "fmt_v (GObj m) = ''map['' @ str_join (fmt_fields m) '' '' @ '']''"
| "fmt_vs [] = []"
| "fmt_vs (x # xs) = fmt_v x # fmt_vs xs"
| "fmt_fields [] = []"
| "fmt_fields ((k, v) # m) = (k @ '':'' @ fmt_v v) # fmt_fields m"

end
