(* ===== verification/Entities.thy ===== *)
theory Entities
  imports GoValue
begin

text \<open>
  The package \<open>entities\<close>: the fixed shapes the components exchange, one record per struct. A field
  keeps its Go name after a short prefix for its struct, because record fields share one name space.
\<close>

record intent_node =
  node_NodeID :: string
  node_DomainID :: string
  node_Examples :: "string list"
  node_EntryWorkflowRef :: string
  node_Metadata :: ctx

record match_result =
  match_Matched :: bool
  match_NodeRef :: string
  match_Confidence :: float64
  match_EntryWorkflowRef :: string

definition ModelDerivedKey :: string where
  "ModelDerivedKey = ''cee.model_derived''"

record extraction_request =
  exreq_RawText :: string
  exreq_SchemaRef :: string
  exreq_DomainID :: string

record extraction_result =
  exres_Success :: bool
  exres_StructuredPayload :: ctx
  exres_ValidationErrors :: "string list"
  exres_ModelDerived :: "string list"

record probe_request =
  preq_ProbeRef :: string
  preq_DomainID :: string
  preq_StepContext :: ctx

record probe_result =
  pres_Healthy :: bool
  pres_DetectedFailureMode :: string

record workflow_result =
  wr_Output :: ctx
  wr_StatePointer :: string
  wr_Trace :: "string list"

text \<open>The zero value the code returns beside an error.\<close>

definition empty_result :: workflow_result where
  "empty_result = \<lparr>wr_Output = [], wr_StatePointer = [], wr_Trace = []\<rparr>"

text \<open>
  \<open>existingProvenance\<close> and \<open>provenanceOf\<close>, the reading of the reserved key shared by the
  extractor and by the action that refuses guesses: the model-derived field names in a context.
\<close>

definition strings_in :: "gval list \<Rightarrow> string list" where
  "strings_in xs = concat (map (\<lambda>x. case x of GStr s \<Rightarrow> [s] | _ \<Rightarrow> []) xs)"

definition provenanceOf :: "ctx \<Rightarrow> string list" where
  "provenanceOf c =
     (case map_of c ModelDerivedKey of
        Some (GStrs v) \<Rightarrow> v
      | Some (GArr v) \<Rightarrow> strings_in v
      | _ \<Rightarrow> [])"

lemma strings_in_simps [simp]:
  "strings_in [] = []"
  "strings_in (GStr s # xs) = s # strings_in xs"
  by (simp_all add: strings_in_def)

lemma set_strings_in: "set (strings_in xs) = {s. GStr s \<in> set xs}"
  by (induction xs) (auto simp: strings_in_def split: gval.splits)

end
