(* ===== verification/SandboxM.thy ===== *)
theory SandboxM
  imports Entities
begin

text \<open>
  The package \<open>sandbox\<close> and the interface \<open>execution.Prober\<close>. A prober answers a request with a
  result and possibly an error, and may read or change the world \<open>'w\<close> around the engine. A domain's
  probe functions are Go code outside the repository: parameters of the model.
\<close>

type_synonym 'w prober = "probe_request \<Rightarrow> 'w \<Rightarrow> (probe_result \<times> string option) \<times> 'w"

text \<open>A registered probe: healthy, failure mode, error.\<close>

type_synonym 'w probe = "ctx \<Rightarrow> 'w \<Rightarrow> (bool \<times> string \<times> string option) \<times> 'w"

record 'w sandbox =
  sb_probes :: "string \<rightharpoonup> 'w probe"

definition NewSandbox :: "'w sandbox" where
  "NewSandbox = \<lparr>sb_probes = Map.empty\<rparr>"

definition RegisterProbe :: "'w sandbox \<Rightarrow> string \<Rightarrow> 'w probe \<Rightarrow> 'w sandbox" where
  "RegisterProbe s probeRef probe = s\<lparr>sb_probes := (sb_probes s)(probeRef \<mapsto> probe)\<rparr>"

definition sandbox_Probe :: "'w sandbox \<Rightarrow> 'w prober" where
  "sandbox_Probe s req w =
     (case sb_probes s (preq_ProbeRef req) of
        None \<Rightarrow> ((\<lparr>pres_Healthy = False,
                   pres_DetectedFailureMode = ''no probe registered for '' @ quoted (preq_ProbeRef req)\<rparr>, None), w)
      | Some probe \<Rightarrow>
          (case probe (preq_StepContext req) w of
             ((healthy, failureMode, err), w') \<Rightarrow>
               (case err of
                  Some e \<Rightarrow> ((\<lparr>pres_Healthy = False, pres_DetectedFailureMode = e\<rparr>, None), w')
                | None \<Rightarrow>
                    ((\<lparr>pres_Healthy = healthy,
                       pres_DetectedFailureMode =
                         (if \<not> healthy \<and> failureMode = [] then ''probe reported unhealthy'' else failureMode)\<rparr>,
                      None), w'))))"

text \<open>
  The verdict the engine draws from a prober's answer: an error is a refusal whose reason is the
  error's text; otherwise the result decides and its failure mode is the reason.
\<close>

definition probe_verdict :: "probe_result \<times> string option \<Rightarrow> bool \<times> string" where
  "probe_verdict a =
     (case a of (r, err) \<Rightarrow>
        (err = None \<and> pres_Healthy r, case err of Some e \<Rightarrow> e | None \<Rightarrow> pres_DetectedFailureMode r))"

text \<open>
  One failure path: a prober that folds every outcome into its result never returns an error, so
  its result alone is the verdict.
\<close>

locale folding_prober =
  fixes prober :: "'w prober"
  assumes no_error: "snd (fst (prober req w)) = None"
begin

lemma verdict_is_result:
  "prober req w = ((r, e), w') \<Longrightarrow> probe_verdict (r, e) = (pres_Healthy r, pres_DetectedFailureMode r)"
  using no_error [of req w] by (simp add: probe_verdict_def)

end

lemma sandbox_Probe_no_error: "snd (fst (sandbox_Probe s req w)) = None"
  by (simp add: sandbox_Probe_def split: option.splits prod.splits)

interpretation sandbox: folding_prober "sandbox_Probe s" for s
  by unfold_locales (rule sandbox_Probe_no_error)

text \<open>
  A refusal says why, provided no registered probe returns an error with an empty text
  (\<open>probes_explain\<close>): a probe that merely reports unhealthy is given a reason.
\<close>

definition probes_explain :: "'w sandbox \<Rightarrow> bool" where
  "probes_explain s \<longleftrightarrow>
     (\<forall>ref p c w. sb_probes s ref = Some p \<longrightarrow> snd (snd (fst (p c w))) \<noteq> Some [])"

lemma probes_explain_New [simp]: "probes_explain NewSandbox"
  by (simp add: probes_explain_def NewSandbox_def)

lemma probes_explain_Register:
  "probes_explain s \<Longrightarrow> (\<And>c w. snd (snd (fst (p c w))) \<noteq> Some []) \<Longrightarrow> probes_explain (RegisterProbe s ref p)"
  by (auto simp: probes_explain_def RegisterProbe_def)

lemma sandbox_Probe_says_why:
  assumes "probes_explain s" and "\<not> pres_Healthy (fst (fst (sandbox_Probe s req w)))"
  shows "pres_DetectedFailureMode (fst (fst (sandbox_Probe s req w))) \<noteq> []"
proof (cases "sb_probes s (preq_ProbeRef req)")
  case None
  then show ?thesis by (simp add: sandbox_Probe_def)
next
  case (Some p)
  obtain h m e w' where p: "p (preq_StepContext req) w = ((h, m, e), w')"
    by (metis prod.collapse)
  moreover have "e \<noteq> Some []"
    using assms(1) Some p unfolding probes_explain_def by (metis fst_conv snd_conv)
  ultimately show ?thesis
    using assms(2) Some by (auto simp: sandbox_Probe_def split: option.splits if_splits)
qed

lemma sandbox_Probe_unregistered:
  "sb_probes s (preq_ProbeRef req) = None \<Longrightarrow> \<not> pres_Healthy (fst (fst (sandbox_Probe s req w)))"
  by (simp add: sandbox_Probe_def)

end
