(* ===== verification/ExecTypes.thy ===== *)
theory ExecTypes
  imports SandboxM
begin

text \<open>
  The data of the package \<open>execution\<close>: steps, workflows, policies, the errors with their texts,
  the engine with its registration operations, and the state a run threads through.
  \<^item> An action is Go code given from outside (a hook) or built by the standard library. It maps a
    context and the world \<open>'w\<close> to an outcome: an output map, an error, the \<open>Suspended\<close> signal, or
    a panic. Actions do not write to the context map they are handed.
  \<^item> \<open>rt\<close> is what a run changes: the world, the store's state \<open>'s\<close>, and the calls made to the
    observer, in order.
  \<^item> \<open>host\<close> is what the Go runtime decides: the order in which the goroutines of a parallel step
    run, whose call of the shared observer comes next while they run, the order in which a map is
    iterated, and the random bytes.
\<close>

section \<open>Errors\<close>

record compensation_failure =
  cf_StepID :: string
  cf_CompensateStep :: string
  cf_Reason :: string

record branch_failure =
  bf_Branch :: string
  bf_Reason :: string

datatype exec_error =
    CircuitBreakerTripped string string "string list" "compensation_failure list"
  | StepLimitExceeded string int "string list"
  | DepthLimitExceeded string int
  | NoSuspensionSupport string string
  | NestedSuspensionUnsupported string string
  | NoBranches string string
  | ConflictingBranchWrites string string string gval string gval
  | BranchesFailed string nat "branch_failure list"
  | BranchPanicked string string string
  | NotAuthorized string string string string
  | PlainError string

definition compensation_failure_String :: "compensation_failure \<Rightarrow> string" where
  "compensation_failure_String f =
     cf_StepID f @ '' (via '' @ cf_CompensateStep f @ ''): '' @ cf_Reason f"

definition compensationSummary :: "string list \<Rightarrow> compensation_failure list \<Rightarrow> string" where
  "compensationSummary undone failures =
     (let parts =
        (if undone \<noteq> [] then [''undone: '' @ str_join undone '', ''] else []) @
        (if failures \<noteq> [] then
           [''COULD NOT UNDO: '' @ str_join (map compensation_failure_String failures) ''; ''] else [])
      in if parts = [] then [] else '' ['' @ str_join parts '' | '' @ '']'')"

definition branch_failure_String :: "branch_failure \<Rightarrow> string" where
  "branch_failure_String f = bf_Branch f @ '': '' @ bf_Reason f"

definition BranchesFailed_Error :: "string \<Rightarrow> nat \<Rightarrow> branch_failure list \<Rightarrow> string" where
  "BranchesFailed_Error stepID tot failures =
     show_int (int (length failures)) @ '' of '' @ show_int (int tot) @
     '' branches of parallel step '' @ quoted stepID @ '' failed: '' @
     str_join (map branch_failure_String failures) ''; ''"

definition NotAuthorized_Error :: "string \<Rightarrow> string \<Rightarrow> string \<Rightarrow> string \<Rightarrow> string" where
  "NotAuthorized_Error audience identity workflowID reason =
     (let who = (if identity = [] then ''an unidentified caller'' else identity);
          msg = who @ '' may not resume '' @ quoted workflowID @
                '' (audience '' @ quoted audience @ '')''
      in if reason \<noteq> [] then msg @ '': '' @ reason else msg)"

definition ConflictingBranchWrites_Error ::
  "string \<Rightarrow> string \<Rightarrow> string \<Rightarrow> gval \<Rightarrow> string \<Rightarrow> gval \<Rightarrow> string" where
  "ConflictingBranchWrites_Error stepID fld b1 v1 b2 v2 =
     ''parallel step '' @ quoted stepID @ '' cannot join: branches '' @ quoted b1 @ '' and '' @
     quoted b2 @ '' both wrote '' @ quoted fld @ '', as '' @ fmt_v v1 @ '' and '' @ fmt_v v2 @
     ''; which one wins would depend on nothing the workflow states, so have them write different fields''"

fun error_text :: "exec_error \<Rightarrow> string" where
  "error_text (CircuitBreakerTripped stepID reason undone failures) =
     ''circuit breaker tripped at step '' @ quoted stepID @ '': '' @ reason @
     compensationSummary undone failures"
| "error_text (StepLimitExceeded workflowID n recent) =
     ''workflow '' @ quoted workflowID @ '' exceeded the '' @ show_int n @
     '' step limit (likely an on_success cycle); most recent steps: '' @ fmt_v (GStrs recent)"
| "error_text (DepthLimitExceeded workflowID n) =
     ''workflow '' @ quoted workflowID @ '' exceeded the '' @ show_int n @
     '' sub-workflow nesting limit (likely a sub_workflow_ref cycle)''"
| "error_text (NoSuspensionSupport workflowID stepID) =
     ''step '' @ quoted stepID @ '' in workflow '' @ quoted workflowID @
     '' suspended but no Store is configured; call Engine.SetStore first''"
| "error_text (NestedSuspensionUnsupported workflowID stepID) =
     ''step '' @ quoted stepID @ '' suspended inside sub-workflow '' @ quoted workflowID @
     ''; suspension is only supported at the top level''"
| "error_text (NoBranches workflowID stepID) =
     ''step '' @ quoted stepID @ '' in workflow '' @ quoted workflowID @
     '' is parallel but declares no branches''"
| "error_text (ConflictingBranchWrites stepID fld b1 v1 b2 v2) =
     ConflictingBranchWrites_Error stepID fld b1 v1 b2 v2"
| "error_text (BranchesFailed stepID tot failures) = BranchesFailed_Error stepID tot failures"
| "error_text (BranchPanicked stepID branch v) =
     ''branch '' @ quoted branch @ '' of parallel step '' @ quoted stepID @ '' panicked: '' @ v"
| "error_text (NotAuthorized audience identity workflowID reason) =
     NotAuthorized_Error audience identity workflowID reason"
| "error_text (PlainError s) = s"

text \<open>The structural errors, which no circuit breaker may absorb.\<close>

fun bypassesBreaker :: "exec_error \<Rightarrow> bool" where
  "bypassesBreaker (StepLimitExceeded _ _ _) = True"
| "bypassesBreaker (DepthLimitExceeded _ _) = True"
| "bypassesBreaker (NestedSuspensionUnsupported _ _) = True"
| "bypassesBreaker (NoSuspensionSupport _ _) = True"
| "bypassesBreaker (NoBranches _ _) = True"
| "bypassesBreaker (ConflictingBranchWrites _ _ _ _ _ _) = True"
| "bypassesBreaker (BranchPanicked _ _ _) = True"
| "bypassesBreaker _ = False"

section \<open>Steps and workflows\<close>

datatype action_outcome =
    Output ctx
  | Fails string
  | Suspends string string
  | Panics string

text \<open>\<open>Suspends\<close> carries the reason and the audience (\<open>Suspend\<close> leaves the audience empty).\<close>

type_synonym 'w action = "ctx \<Rightarrow> 'w \<Rightarrow> action_outcome \<times> 'w"

definition Suspend :: "string \<Rightarrow> action_outcome" where
  "Suspend reason = Suspends reason []"

definition SuspendFor :: "string \<Rightarrow> string \<Rightarrow> action_outcome" where
  "SuspendFor reason audience = Suspends reason audience"

record 'w leaf_step =
  leaf_StepID :: string
  leaf_Run :: "'w action"
  leaf_SandboxProbeRef :: string
  leaf_CircuitBreakerPolicyRef :: string
  leaf_OnSuccess :: string
  leaf_CompensateStepRef :: string

record composite_step =
  comp_StepID :: string
  comp_SubWorkflowRef :: string
  comp_CircuitBreakerPolicyRef :: string
  comp_OnSuccess :: string

record parallel_step =
  par_StepID :: string
  par_Branches :: "string list"
  par_CircuitBreakerPolicyRef :: string
  par_OnSuccess :: string

datatype 'w step = LeafStep "'w leaf_step" | CompositeStep composite_step | ParallelStep parallel_step

fun step_ID :: "'w step \<Rightarrow> string" where
  "step_ID (LeafStep s) = leaf_StepID s"
| "step_ID (CompositeStep s) = comp_StepID s"
| "step_ID (ParallelStep s) = par_StepID s"

fun circuitBreakerPolicyRef :: "'w step \<Rightarrow> string" where
  "circuitBreakerPolicyRef (LeafStep s) = leaf_CircuitBreakerPolicyRef s"
| "circuitBreakerPolicyRef (CompositeStep s) = comp_CircuitBreakerPolicyRef s"
| "circuitBreakerPolicyRef (ParallelStep s) = par_CircuitBreakerPolicyRef s"

record circuit_breaker_policy =
  pol_PolicyID :: string
  pol_FallbackStepRef :: string

record 'w workflow =
  wf_WorkflowID :: string
  wf_DomainID :: string
  wf_EntryStepID :: string
  wf_Steps :: "string \<rightharpoonup> 'w step"

record completed =
  done_stepID :: string
  done_compensateStep :: string

section \<open>Suspended state, the store and the authorizer\<close>

record state =
  st_Pointer :: string
  st_WorkflowID :: string
  st_StepID :: string
  st_Reason :: string
  st_Audience :: string
  st_Ctx :: ctx
  st_Trace :: "string list"

text \<open>The interface \<open>Store\<close>, over its own state \<open>'s\<close>: an error text, or the value.\<close>

record 's store =
  store_Save :: "state \<Rightarrow> 's \<Rightarrow> string option \<times> 's"
  store_Load :: "string \<Rightarrow> 's \<Rightarrow> string + state"
  store_Consume :: "string \<Rightarrow> 's \<Rightarrow> (string + state) \<times> 's"
  store_Release :: "string \<Rightarrow> 's \<Rightarrow> string option \<times> 's"

record resume_attempt =
  att_Audience :: string
  att_Identity :: string
  att_WorkflowID :: string
  att_StepID :: string
  att_Reason :: string

type_synonym 'w authorizer = "resume_attempt \<Rightarrow> 'w \<Rightarrow> (bool \<times> string \<times> string option) \<times> 'w"

section \<open>The engine\<close>

datatype event =
    ObserveStep string string
  | ObserveSandboxProbe string string
  | ObserveCircuitBreaker string string
  | ObserveProbeOutcome string string bool
  | ObserveSuspension string string

text \<open>Which of the optional observer interfaces the configured observer implements.\<close>

record observer =
  obs_ProbeOutcome :: bool
  obs_Suspension :: bool

record ('w, 's) engine =
  eng_sandbox :: "'w prober option"
  eng_observer :: "observer option"
  eng_workflows :: "string \<rightharpoonup> 'w workflow"
  eng_policies :: "string \<rightharpoonup> circuit_breaker_policy"
  eng_store :: "'s store option"
  eng_authorizer :: "'w authorizer option"
  eng_maxSteps :: int
  eng_maxDepth :: int

definition DefaultMaxSteps :: int where "DefaultMaxSteps = 10000"

definition DefaultMaxDepth :: int where "DefaultMaxDepth = 64"

definition NewEngine :: "'w prober option \<Rightarrow> ('w, 's) engine" where
  "NewEngine sb =
     \<lparr>eng_sandbox = sb, eng_observer = None, eng_workflows = Map.empty, eng_policies = Map.empty,
      eng_store = None, eng_authorizer = None,
      eng_maxSteps = DefaultMaxSteps, eng_maxDepth = DefaultMaxDepth\<rparr>"

definition SetStore :: "'s store option \<Rightarrow> ('w, 's) engine \<Rightarrow> ('w, 's) engine" where
  "SetStore s e = e\<lparr>eng_store := s\<rparr>"

definition SetLimits :: "int \<Rightarrow> int \<Rightarrow> ('w, 's) engine \<Rightarrow> ('w, 's) engine" where
  "SetLimits maxSteps maxDepth e =
     (let e1 = (if maxSteps > 0 then e\<lparr>eng_maxSteps := maxSteps\<rparr> else e)
      in if maxDepth > 0 then e1\<lparr>eng_maxDepth := maxDepth\<rparr> else e1)"

definition SetObserver :: "observer option \<Rightarrow> ('w, 's) engine \<Rightarrow> ('w, 's) engine" where
  "SetObserver o' e = e\<lparr>eng_observer := o'\<rparr>"

definition SetAuthorizer :: "'w authorizer option \<Rightarrow> ('w, 's) engine \<Rightarrow> ('w, 's) engine" where
  "SetAuthorizer a e = e\<lparr>eng_authorizer := a\<rparr>"

definition RegisterWorkflow :: "'w workflow \<Rightarrow> ('w, 's) engine \<Rightarrow> ('w, 's) engine" where
  "RegisterWorkflow w e = e\<lparr>eng_workflows := (eng_workflows e)(wf_WorkflowID w \<mapsto> w)\<rparr>"

definition RegisterPolicy :: "circuit_breaker_policy \<Rightarrow> ('w, 's) engine \<Rightarrow> ('w, 's) engine" where
  "RegisterPolicy p e = e\<lparr>eng_policies := (eng_policies e)(pol_PolicyID p \<mapsto> p)\<rparr>"

text \<open>
  Both ceilings of an engine are positive whatever the sequence of calls: they can be tuned, not
  switched off.
\<close>

definition limits_positive :: "('w, 's) engine \<Rightarrow> bool" where
  "limits_positive e \<longleftrightarrow> 0 < eng_maxSteps e \<and> 0 < eng_maxDepth e"

lemma limits_positive_New [simp]: "limits_positive (NewEngine sb)"
  by (simp add: limits_positive_def NewEngine_def DefaultMaxSteps_def DefaultMaxDepth_def)

lemma limits_positive_SetLimits [simp]: "limits_positive e \<Longrightarrow> limits_positive (SetLimits s d e)"
  by (simp add: limits_positive_def SetLimits_def)

lemma limits_positive_others [simp]:
  "limits_positive (SetStore st e) = limits_positive e"
  "limits_positive (SetObserver ob e) = limits_positive e"
  "limits_positive (SetAuthorizer au e) = limits_positive e"
  "limits_positive (RegisterWorkflow w e) = limits_positive e"
  "limits_positive (RegisterPolicy p e) = limits_positive e"
  by (simp_all add: limits_positive_def SetStore_def SetObserver_def SetAuthorizer_def
      RegisterWorkflow_def RegisterPolicy_def)

section \<open>The state of a run and the host\<close>

record ('w, 's) rt =
  rt_world :: 'w
  rt_store :: 's
  rt_log :: "event list"

record 'w host =
  host_schedule :: "nat \<Rightarrow> nat list"
  host_turn :: "event list \<Rightarrow> event list \<Rightarrow> bool"
  host_range :: "ctx \<Rightarrow> ctx"
  host_rand :: "nat \<Rightarrow> 'w \<Rightarrow> (string + 8 word list) \<times> 'w"

text \<open>
  What Go guarantees of the host: every goroutine runs exactly once before \<open>wg.Wait\<close> returns, and
  iterating a map visits every entry once.
\<close>

definition host_ok :: "'w host \<Rightarrow> bool" where
  "host_ok h \<longleftrightarrow>
     (\<forall>n. distinct (host_schedule h n) \<and> set (host_schedule h n) = {..<n}) \<and>
     (\<forall>m. mset (host_range h m) = mset m)"

text \<open>Random bytes, when the system has them, are not none at all.\<close>

definition telling_host :: "'w host \<Rightarrow> bool" where
  "telling_host h \<longleftrightarrow> (\<forall>w buf w'. host_rand h 16 w = (Inr buf, w') \<longrightarrow> buf \<noteq> [])"

definition in_order_host :: "(nat \<Rightarrow> 'w \<Rightarrow> (string + 8 word list) \<times> 'w) \<Rightarrow> 'w host" where
  "in_order_host rand = \<lparr>host_schedule = (\<lambda>n. [0..<n]), host_turn = (\<lambda>_ _. True), host_range = (\<lambda>m. m), host_rand = rand\<rparr>"

lemma host_ok_in_order [simp]: "host_ok (in_order_host rand)"
  by (auto simp: host_ok_def in_order_host_def)

fun accepts :: "observer \<Rightarrow> event \<Rightarrow> bool" where
  "accepts ob (ObserveProbeOutcome _ _ _) = obs_ProbeOutcome ob"
| "accepts ob (ObserveSuspension _ _) = obs_Suspension ob"
| "accepts ob _ = True"

definition observe :: "('w, 's) engine \<Rightarrow> event \<Rightarrow> ('w, 's) rt \<Rightarrow> ('w, 's) rt" where
  "observe e ev rt =
     (case eng_observer e of
        None \<Rightarrow> rt
      | Some ob \<Rightarrow> if accepts ob ev then rt\<lparr>rt_log := rt_log rt @ [ev]\<rparr> else rt)"

lemma observe_frame [simp]:
  "rt_world (observe e ev rt) = rt_world rt" "rt_store (observe e ev rt) = rt_store rt"
  by (simp_all add: observe_def split: option.splits)

text \<open>
  Goroutines that run at the same time share the observer, so their calls interleave: \<open>weave\<close> merges
  two sequences of calls, asking \<open>turn\<close> which goes next; every interleaving is a \<open>weave\<close> for some
  \<open>turn\<close>. \<open>weave_log\<close> does so with the last calls of a log: those after the first \<open>mine\<close> are
  another goroutine's than those between \<open>before\<close> and \<open>mine\<close>.
\<close>

fun weave :: "(event list \<Rightarrow> event list \<Rightarrow> bool) \<Rightarrow> event list \<Rightarrow> event list \<Rightarrow> event list" where
  "weave turn [] ys = ys"
| "weave turn (x # xs) [] = x # xs"
| "weave turn (x # xs) (y # ys) =
     (if turn (x # xs) (y # ys) then x # weave turn xs (y # ys) else y # weave turn (x # xs) ys)"

definition weave_log :: "'w host \<Rightarrow> nat \<Rightarrow> nat \<Rightarrow> ('w, 's) rt \<Rightarrow> ('w, 's) rt" where
  "weave_log h before mine rt =
     rt\<lparr>rt_log := take before (rt_log rt) @
       weave (host_turn h) (drop before (take mine (rt_log rt))) (drop mine (rt_log rt))\<rparr>"

lemma weave_Nil [simp]: "weave turn xs [] = xs"
  by (cases xs) simp_all

lemma weave_shuffles: "weave turn xs ys \<in> shuffles xs ys"
  by (induction turn xs ys rule: weave.induct) auto

text \<open>Conversely every interleaving is one the host may choose.\<close>

lemma weave_cong:
  "(\<And>us vs. length us + length vs \<le> length xs + length ys \<Longrightarrow> turn us vs = turn' us vs) \<Longrightarrow>
   weave turn xs ys = weave turn' xs ys"
  by (induction turn xs ys rule: weave.induct) auto

lemma every_interleaving: "zs \<in> shuffles xs ys \<Longrightarrow> \<exists>turn. zs = weave turn xs ys"
proof (induction xs ys arbitrary: zs rule: shuffles.induct)
  case (3 x xs y ys)
  let ?now = "\<lambda>b turn us vs. if length us + length vs = length (x # xs) + length (y # ys) then b else turn us vs"
  have left: "weave (?now b turn) xs (y # ys) = weave turn xs (y # ys)" for b turn by (rule weave_cong) simp
  have right: "weave (?now b turn) (x # xs) ys = weave turn (x # xs) ys" for b turn by (rule weave_cong) simp
  from "3.prems" consider zs' where "zs = x # zs'" "zs' \<in> shuffles xs (y # ys)"
    | zs' where "zs = y # zs'" "zs' \<in> shuffles (x # xs) ys" by auto
  then show ?case
  proof cases
    case 1
    with "3.IH"(1) obtain turn where "zs' = weave turn xs (y # ys)" by blast
    with 1 left [of True turn] show ?thesis by (intro exI [of _ "?now True turn"]) simp
  next
    case 2
    with "3.IH"(2) obtain turn where "zs' = weave turn (x # xs) ys" by blast
    with 2 right [of False turn] show ?thesis by (intro exI [of _ "?now False turn"]) simp
  qed
qed (auto intro: exI [of _ "\<lambda>_ _. True"])

lemma weave_log_frame [simp]:
  "rt_world (weave_log h n m rt) = rt_world rt" "rt_store (weave_log h n m rt) = rt_store rt"
  by (simp_all add: weave_log_def)

lemma mset_weave [simp]: "mset (weave turn xs ys) = mset xs + mset ys"
  using mset_shuffles [OF weave_shuffles] .

lemma weave_log_append [simp]:
  "rt_log rt = l @ xs @ ys \<Longrightarrow>
   rt_log (weave_log h (length l) (length l + length xs) rt) = l @ weave (host_turn h) xs ys"
  by (simp add: weave_log_def)

section \<open>Failure handling and small helpers\<close>

definition FailureReasonKey :: string where "FailureReasonKey = ''cee.failure_reason''"

definition FailedStepKey :: string where "FailedStepKey = ''cee.failed_step''"

definition ResumedByKey :: string where "ResumedByKey = ''cee.resumed_by''"

definition onFailure ::
  "('w, 's) engine \<Rightarrow> 'w step \<Rightarrow> string \<Rightarrow> ctx \<Rightarrow> (exec_error, string \<times> ctx) res" where
  "onFailure e step reason c =
     (let ref = circuitBreakerPolicyRef step in
      case (if ref \<noteq> [] then eng_policies e ref else None) of
        Some policy \<Rightarrow>
          if pol_FallbackStepRef policy \<noteq> [] then
            Ok (pol_FallbackStepRef policy,
                gmerge c [(FailureReasonKey, GStr reason), (FailedStepKey, GStr (step_ID step))])
          else Err (CircuitBreakerTripped (step_ID step) reason [] [])
      | None \<Rightarrow> Err (CircuitBreakerTripped (step_ID step) reason [] []))"

definition tail :: "string list \<Rightarrow> nat \<Rightarrow> string list" where
  "tail s n = (if length s \<le> n then s else drop (length s - n) s)"

lemma length_tail: "length (tail s n) = min (length s) n"
  by (simp add: tail_def)

lemma tail_suffix: "\<exists>pre. s = pre @ tail s n"
  by (metis append_Nil append_take_drop_id tail_def)

lemma onFailure_cases:
  "(\<exists>next c'. onFailure e s reason c = Ok (next, c') \<and> next \<noteq> [] \<and>
      map_of c' = (map_of c)(FailureReasonKey \<mapsto> GStr reason, FailedStepKey \<mapsto> GStr (step_ID s))) \<or>
   onFailure e s reason c = Err (CircuitBreakerTripped (step_ID s) reason [] [])"
  by (auto simp: onFailure_def Let_def FailureReasonKey_def FailedStepKey_def fun_eq_iff
      split: option.splits)

lemma onFailure_gwf: "onFailure e s reason c = Ok (next, c') \<Longrightarrow> gwf c \<Longrightarrow> gwf c'"
  by (auto simp: onFailure_def Let_def simp del: gmerge.simps split: option.splits if_splits)

end
