(* ===== verification/Compensate.thy ===== *)
theory Compensate
  imports ExecTypes
begin

text \<open>
  Compensation (\<open>execution/compensate.go\<close>): when a run is abandoned, the completed steps that
  declared a compensation are undone, the last one first.
\<close>

text \<open>
  The body of the loop of \<open>unwind\<close>, over the completed steps already reversed: the steps undone, the
  failures, the context and the world after. \<open>Panic\<close> is a compensation action that panics.
\<close>

definition compensation_failed :: "completed \<Rightarrow> string \<Rightarrow> compensation_failure" where
  "compensation_failed entry reason =
     \<lparr>cf_StepID = done_stepID entry, cf_CompensateStep = done_compensateStep entry, cf_Reason = reason\<rparr>"

fun unwind_rev :: "'w workflow \<Rightarrow> completed list \<Rightarrow> ctx \<Rightarrow> string list \<Rightarrow> compensation_failure list \<Rightarrow> 'w \<Rightarrow>
    (exec_error, string list \<times> compensation_failure list) res \<times> 'w" where
  "unwind_rev flow [] c undone failures w = (Ok (undone, failures), w)"
| "unwind_rev flow (entry # rest) c undone failures w =
     (case wf_Steps flow (done_compensateStep entry) of
        None \<Rightarrow>
          unwind_rev flow rest c undone
            (failures @ [compensation_failed entry
              (''workflow '' @ quoted (wf_WorkflowID flow) @ '' has no step '' @ quoted (done_compensateStep entry))]) w
      | Some (LeafStep leaf) \<Rightarrow>
          (case leaf_Run leaf c w of
             (Output out, w') \<Rightarrow> unwind_rev flow rest (gmerge c out) (undone @ [done_stepID entry]) failures w'
           | (Fails msg, w') \<Rightarrow>
               unwind_rev flow rest c undone (failures @ [compensation_failed entry msg]) w'
           | (Suspends reason audience, w') \<Rightarrow>
               unwind_rev flow rest c undone
                 (failures @ [compensation_failed entry (''workflow suspended: '' @ reason)]) w'
           | (Panics p, w') \<Rightarrow> (Panic p, w'))
      | Some _ \<Rightarrow>
          unwind_rev flow rest c undone
            (failures @ [compensation_failed entry ''a compensation must be a leaf step'']) w)"

definition unwind :: "'w workflow \<Rightarrow> completed list \<Rightarrow> ctx \<Rightarrow> 'w \<Rightarrow>
    (exec_error, string list \<times> compensation_failure list) res \<times> 'w" where
  "unwind flow dn c w = unwind_rev flow (rev dn) c [] [] w"

definition abandon :: "'w workflow \<Rightarrow> completed list \<Rightarrow> ctx \<Rightarrow> exec_error \<Rightarrow> ('w, 's) rt \<Rightarrow>
    (exec_error, workflow_result) res \<times> ('w, 's) rt" where
  "abandon flow dn c cause rt =
     (case cause of
        CircuitBreakerTripped stepID reason _ _ \<Rightarrow>
          if dn = [] then (Err cause, rt)
          else
            (case unwind flow dn c (rt_world rt) of
               (Ok (undone, failures), w) \<Rightarrow>
                 (Err (CircuitBreakerTripped stepID reason undone failures), rt\<lparr>rt_world := w\<rparr>)
             | (Err e, w) \<Rightarrow> (Err e, rt\<lparr>rt_world := w\<rparr>)
             | (Panic p, w) \<Rightarrow> (Panic p, rt\<lparr>rt_world := w\<rparr>))
      | _ \<Rightarrow> (Err cause, rt))"

section \<open>What unwinding guarantees\<close>

lemma unwind_rev_no_Err: "fst (unwind_rev flow es c un fs w) \<noteq> Err e"
  by (induction flow es c un fs w rule: unwind_rev.induct)
    (auto split: option.splits step.splits prod.splits action_outcome.splits)

text \<open>
  Every entry ends up exactly once, in order, either among the undone or among the failures:
  \<open>shuffle_of es us fs\<close> says the two lists split \<open>es\<close>.
\<close>

fun shuffle_of :: "completed list \<Rightarrow> string list \<Rightarrow> compensation_failure list \<Rightarrow> bool" where
  "shuffle_of [] us fs = (us = [] \<and> fs = [])"
| "shuffle_of (e # es) us fs =
     ((case us of u # us' \<Rightarrow> u = done_stepID e \<and> shuffle_of es us' fs | [] \<Rightarrow> False) \<or>
      (case fs of f # fs' \<Rightarrow> cf_StepID f = done_stepID e \<and> cf_CompensateStep f = done_compensateStep e \<and>
          shuffle_of es us fs' | [] \<Rightarrow> False))"

lemma unwind_rev_shuffle:
  "unwind_rev flow es c un fs w = (Ok (un', fs'), w') \<Longrightarrow>
   \<exists>us gs. un' = un @ us \<and> fs' = fs @ gs \<and> shuffle_of es us gs"
proof (induction flow es c un fs w arbitrary: un' fs' w' rule: unwind_rev.induct)
  case (1 flow c un fs w)
  then show ?case by auto
next
  case (2 flow entry rest c un fs w)
  let ?failed = "\<lambda>r. compensation_failed entry r"
  have fail: ?case
    if "\<exists>us gs. un' = un @ us \<and> fs' = (fs @ [?failed r]) @ gs \<and> shuffle_of rest us gs" for r
  proof -
    from that obtain us gs where "un' = un @ us" "fs' = fs @ ?failed r # gs" "shuffle_of rest us gs"
      by auto
    then show ?thesis
      by (intro exI [of _ us] exI [of _ "?failed r # gs"]) (simp add: compensation_failed_def)
  qed
  have good: ?case
    if "\<exists>us gs. un' = (un @ [done_stepID entry]) @ us \<and> fs' = fs @ gs \<and> shuffle_of rest us gs"
  proof -
    from that obtain us gs where "un' = un @ done_stepID entry # us" "fs' = fs @ gs" "shuffle_of rest us gs"
      by auto
    then show ?thesis
      by (intro exI [of _ "done_stepID entry # us"] exI [of _ gs]) simp
  qed
  show ?case
  proof (cases "wf_Steps flow (done_compensateStep entry)")
    case None
    then show ?thesis using "2.IH"(1) "2.prems" by (intro fail) simp
  next
    case (Some s)
    show ?thesis
    proof (cases s)
      case (LeafStep leaf)
      obtain oc w1 where run: "leaf_Run leaf c w = (oc, w1)" by force
      show ?thesis
      proof (cases oc)
        case (Output out)
        then show ?thesis using "2.IH"(2) "2.prems" Some LeafStep run by (intro good) simp
      next
        case (Fails msg)
        then show ?thesis using "2.IH"(3) "2.prems" Some LeafStep run by (intro fail [of msg]) simp
      next
        case (Suspends r a)
        then show ?thesis using "2.IH"(4) "2.prems" Some LeafStep run
          by (intro fail [of "''workflow suspended: '' @ r"]) simp
      next
        case (Panics p)
        then show ?thesis using "2.prems" Some LeafStep run by simp
      qed
    next
      case (CompositeStep x)
      then show ?thesis using "2.IH"(5) "2.prems" Some
        by (intro fail [of "''a compensation must be a leaf step''"]) simp
    next
      case (ParallelStep x)
      then show ?thesis using "2.IH"(6) "2.prems" Some
        by (intro fail [of "''a compensation must be a leaf step''"]) simp
    qed
  qed
qed

lemma shuffle_of_length: "shuffle_of es us fs \<Longrightarrow> length us + length fs = length es"
  by (induction es us fs rule: shuffle_of.induct) (auto split: list.splits)

lemma shuffle_of_mset:
  "shuffle_of es us fs \<Longrightarrow> mset us + mset (map cf_StepID fs) = mset (map done_stepID es)"
  by (induction es us fs rule: shuffle_of.induct) (auto split: list.splits)

lemma shuffle_of_all_undone: "shuffle_of es us [] \<Longrightarrow> us = map done_stepID es"
  by (induction es us "[] :: compensation_failure list" rule: shuffle_of.induct) (auto split: list.splits)

text \<open>
  When every compensation is a leaf whose action succeeds, unwinding is the fold of the actions over
  the completed steps from the last to the first, each seeing what the later ones wrote.
\<close>

fun undo_in_order :: "'w workflow \<Rightarrow> completed list \<Rightarrow> ctx \<Rightarrow> 'w \<Rightarrow> ctx \<times> 'w" where
  "undo_in_order flow [] c w = (c, w)"
| "undo_in_order flow (e # es) c w =
     (case wf_Steps flow (done_compensateStep e) of
        Some (LeafStep leaf) \<Rightarrow>
          (case leaf_Run leaf c w of (Output out, w') \<Rightarrow> undo_in_order flow es (gmerge c out) w' | (_, w') \<Rightarrow> (c, w'))
      | _ \<Rightarrow> (c, w))"

lemma unwind_rev_world_eq:
  "unwind_rev flow es c un [] w = (Ok (un', []), w') \<Longrightarrow> snd (undo_in_order flow es c w) = w'"
proof (induction es arbitrary: c un w)
  case Nil
  then show ?case by simp
next
  case (Cons e es)
  have ne: False if "unwind_rev flow es c un [f] v = (Ok (un', []), w')" for c un f v
    using unwind_rev_shuffle [OF that] by auto
  show ?case
    using Cons ne by (auto split: option.splits step.splits prod.splits action_outcome.splits)
qed

end
