(* ===== verification/Parallel.thy ===== *)
theory Parallel
  imports ExecTypes
begin

text \<open>
  The join of a parallel step (\<open>execution/parallel.go\<close>): what each branch wrote, the refusal of
  conflicting writes, the failures in declaration order. The fan-out itself is in \<open>Engine\<close>.
\<close>

definition sameValue :: "gval \<Rightarrow> gval \<Rightarrow> bool" where
  "sameValue a b = deep_equal a b"

definition cloneContext :: "ctx \<Rightarrow> ctx" where
  "cloneContext c = gmerge [] c"

text \<open>What a branch changed against the context it was given.\<close>

definition branchDelta :: "ctx \<Rightarrow> ctx \<Rightarrow> ctx" where
  "branchDelta before after =
     filter (\<lambda>(fld, v). case map_of before fld of None \<Rightarrow> True | Some previous \<Rightarrow> \<not> sameValue previous v) after"

lemma branchDelta_lookup:
  assumes "gwf after"
  shows "map_of (branchDelta before after) k =
    (case map_of after k of
       None \<Rightarrow> None
     | Some v \<Rightarrow> (case map_of before k of
           None \<Rightarrow> Some v | Some p \<Rightarrow> if sameValue p v then None else Some v))"
  using assms
proof (induction after)
  case (Cons x after)
  obtain j v where x: "x = (j, v)" by force
  have j: "map_of after j = None"
    using Cons.prems x by (auto simp: gwf_Cons set_gkeys domIff)
  from Cons.prems x have "gwf after" by (simp add: gwf_Cons)
  from Cons.IH [OF this] j x show ?case
    by (auto simp: branchDelta_def split: option.splits)
qed (simp add: branchDelta_def)

lemma gwf_filter: "gwf m \<Longrightarrow> gwf (filter P m)"
  by (induction m) (auto simp: gwf_def gkeys_def)

lemma gwf_branchDelta [simp]: "gwf after \<Longrightarrow> gwf (branchDelta before after)"
  unfolding branchDelta_def by (rule gwf_filter)

lemma gwf_cloneContext [simp]: "gwf (cloneContext c)"
  by (simp add: cloneContext_def)

lemma map_of_cloneContext [simp]: "map_of (cloneContext c) = map_of c"
  by (simp add: cloneContext_def)

lemma cloneContext_id: "gwf c \<Longrightarrow> cloneContext c = c"
  by (intro gomap_eqI) auto

section \<open>The join\<close>

record join_state =
  js_joined :: ctx
  js_wroteBy :: "string gomap"
  js_wroteValue :: ctx

text \<open>The inner loop: one branch's fields, in the order the map iteration visits them.\<close>

fun join_fields :: "string \<Rightarrow> string \<Rightarrow> (string \<times> gval) list \<Rightarrow> join_state \<Rightarrow> (exec_error, join_state) res" where
  "join_fields stepID branch [] js = Ok js"
| "join_fields stepID branch ((fld, v) # rest) js =
     (case (map_of (js_wroteBy js) fld, map_of (js_wroteValue js) fld) of
        (Some owner, Some w) \<Rightarrow>
          if \<not> sameValue w v then Err (ConflictingBranchWrites stepID fld owner w branch v)
          else join_fields stepID branch rest
            \<lparr>js_joined = gput fld v (js_joined js), js_wroteBy = gput fld branch (js_wroteBy js),
             js_wroteValue = gput fld v (js_wroteValue js)\<rparr>
      | _ \<Rightarrow> join_fields stepID branch rest
            \<lparr>js_joined = gput fld v (js_joined js), js_wroteBy = gput fld branch (js_wroteBy js),
             js_wroteValue = gput fld v (js_wroteValue js)\<rparr>)"

text \<open>The outer loop, over the branches with their outputs in declaration order.\<close>

fun join_branches :: "(ctx \<Rightarrow> ctx) \<Rightarrow> string \<Rightarrow> ctx \<Rightarrow> (string \<times> ctx) list \<Rightarrow> join_state \<Rightarrow> (exec_error, join_state) res" where
  "join_branches iter stepID c [] js = Ok js"
| "join_branches iter stepID c ((branch, out) # rest) js =
     res_bind (join_fields stepID branch (iter (branchDelta c out)) js)
       (join_branches iter stepID c rest)"

definition empty_join :: join_state where
  "empty_join = \<lparr>js_joined = [], js_wroteBy = [], js_wroteValue = []\<rparr>"

text \<open>
  After \<open>wg.Wait\<close>: the first structural error wins, then all business failures together, then the
  join. A branch's outcome is never a panic here: the goroutine's recover has turned it into an error.
\<close>

fun first_bypass :: "(exec_error, workflow_result) res list \<Rightarrow> exec_error option" where
  "first_bypass [] = None"
| "first_bypass (Err e # os) = (if bypassesBreaker e then Some e else first_bypass os)"
| "first_bypass (_ # os) = first_bypass os"

fun branch_failures :: "string list \<Rightarrow> (exec_error, workflow_result) res list \<Rightarrow> branch_failure list" where
  "branch_failures (b # bs) (Err e # os) = \<lparr>bf_Branch = b, bf_Reason = error_text e\<rparr> # branch_failures bs os"
| "branch_failures (b # bs) (_ # os) = branch_failures bs os"
| "branch_failures _ _ = []"

fun branch_results :: "string list \<Rightarrow> (exec_error, workflow_result) res list \<Rightarrow> (string \<times> workflow_result) list" where
  "branch_results (b # bs) (Ok r # os) = (b, r) # branch_results bs os"
| "branch_results (b # bs) (_ # os) = branch_results bs os"
| "branch_results _ _ = []"

definition join_outcomes :: "'w host \<Rightarrow> parallel_step \<Rightarrow> ctx \<Rightarrow> (exec_error, workflow_result) res list \<Rightarrow>
    (exec_error, ctx \<times> string list) res" where
  "join_outcomes h s c outcomes =
     (case first_bypass outcomes of
        Some e \<Rightarrow> Err e
      | None \<Rightarrow>
          (let failures = branch_failures (par_Branches s) outcomes in
           if failures \<noteq> [] then Err (BranchesFailed (par_StepID s) (length (par_Branches s)) failures)
           else
             (let results = branch_results (par_Branches s) outcomes in
              res_bind (join_branches (host_range h) (par_StepID s) c
                          (map (\<lambda>(b, r). (b, wr_Output r)) results) empty_join)
                (\<lambda>js. Ok (gmerge c (js_joined js), concat (map (\<lambda>(_, r). wr_Trace r) results))))))"

section \<open>What the join guarantees\<close>

text \<open>
  The joined map is what the branches wrote, and they agree: \<open>js_ok\<close> ties the three maps of the
  loop to the writes already visited.
\<close>

definition js_ok :: "join_state \<Rightarrow> (string \<times> gval) list \<Rightarrow> bool" where
  "js_ok js ws \<longleftrightarrow>
     js_wroteValue js = js_joined js \<and>
     (\<forall>fld. map_of (js_wroteBy js) fld = None \<longleftrightarrow> map_of (js_joined js) fld = None) \<and>
     (\<forall>fld v. map_of (js_joined js) fld = Some v \<longleftrightarrow> (fld, v) \<in> set ws)"

lemma js_ok_value: "js_ok js ws \<Longrightarrow> js_wroteValue js = js_joined js"
  and js_ok_owner: "js_ok js ws \<Longrightarrow> map_of (js_wroteBy js) fld = None \<longleftrightarrow> map_of (js_joined js) fld = None"
  and js_ok_lookup: "js_ok js ws \<Longrightarrow> map_of (js_joined js) fld = Some v \<longleftrightarrow> (fld, v) \<in> set ws"
  by (simp_all add: js_ok_def)

lemma js_ok_put:
  assumes "js_ok js ws" and "\<And>w. map_of (js_joined js) fld = Some w \<Longrightarrow> w = v"
  shows "js_ok \<lparr>js_joined = gput fld v (js_joined js), js_wroteBy = gput fld b (js_wroteBy js),
               js_wroteValue = gput fld v (js_wroteValue js)\<rparr> (ws @ [(fld, v)])"
proof -
  have "w = v" if "(fld, w) \<in> set ws" for w
    using assms that js_ok_lookup by blast
  then show ?thesis
    using js_ok_value [OF assms(1)] js_ok_owner [OF assms(1)] js_ok_lookup [OF assms(1)]
    by (auto simp: js_ok_def)
qed

lemma js_ok_empty [simp]: "js_ok empty_join []"
  by (simp add: js_ok_def empty_join_def)

lemma join_fields_ok:
  "join_fields sid b fs js = Ok js' \<Longrightarrow> js_ok js ws \<Longrightarrow> js_ok js' (ws @ fs)"
proof (induction fs arbitrary: js ws)
  case Nil
  then show ?case by simp
next
  case (Cons x rest)
  obtain fld v where x: "x = (fld, v)" by force
  let ?js' = "\<lparr>js_joined = gput fld v (js_joined js), js_wroteBy = gput fld b (js_wroteBy js),
             js_wroteValue = gput fld v (js_wroteValue js)\<rparr>"
  have agree: "w = v" if "map_of (js_joined js) fld = Some w" for w
  proof -
    have "map_of (js_wroteBy js) fld \<noteq> None" and "map_of (js_wroteValue js) fld = Some w"
      using that js_ok_owner [OF Cons.prems(2), of fld] js_ok_value [OF Cons.prems(2)] by auto
    then have "sameValue w v" using Cons.prems(1) x by (auto split: if_splits)
    then show ?thesis using deep_equal_eq(1) by (auto simp: sameValue_def)
  qed
  have "join_fields sid b rest ?js' = Ok js'"
    using Cons.prems(1) x by (auto split: option.splits if_splits)
  from Cons.IH [OF this js_ok_put [OF Cons.prems(2) agree]] x show ?case by simp
qed

fun writes_of :: "(ctx \<Rightarrow> ctx) \<Rightarrow> ctx \<Rightarrow> (string \<times> ctx) list \<Rightarrow> (string \<times> gval) list" where
  "writes_of iter c [] = []"
| "writes_of iter c ((b, out) # rest) = iter (branchDelta c out) @ writes_of iter c rest"

lemma join_branches_ok:
  assumes "join_branches iter sid c bs js = Ok js'" and "js_ok js ws"
  shows "js_ok js' (ws @ writes_of iter c bs)"
  using assms
proof (induction iter sid c bs js arbitrary: ws rule: join_branches.induct)
  case (2 iter sid c b out rest js)
  then obtain js1 where j1: "join_fields sid b (iter (branchDelta c out)) js = Ok js1"
    and j2: "join_branches iter sid c rest js1 = Ok js'"
    by (auto simp: res_bind_Ok_iff)
  from "2.IH" [OF j2 join_fields_ok [OF j1 "2.prems"(2)]] show ?case by simp
qed simp

lemma set_writes_of:
  assumes "\<And>m. set (iter m) = set m"
  shows "set (writes_of iter c bs) = (\<Union>(b, out) \<in> set bs. set (branchDelta c out))"
  by (induction bs) (auto simp: assms)

text \<open>Two branches whose writes to a field differ are refused, wherever they stand.\<close>

lemma join_ok_consistent:
  assumes "join_branches iter sid c bs empty_join = Ok js'" and "\<And>m. set (iter m) = set m"
    and "(b1, o1) \<in> set bs" "(b2, o2) \<in> set bs"
    and "(f, v1) \<in> set (branchDelta c o1)" "(f, v2) \<in> set (branchDelta c o2)"
  shows "v1 = v2"
proof -
  have ok: "js_ok js' (writes_of iter c bs)"
    using join_branches_ok [OF assms(1) js_ok_empty] by simp
  have "(f, v1) \<in> set (writes_of iter c bs)" "(f, v2) \<in> set (writes_of iter c bs)"
    using assms(3-6) by (auto simp: set_writes_of [OF assms(2)])
  with js_ok_lookup [OF ok] show ?thesis by (metis option.inject)
qed

lemma join_fields_Err:
  "join_fields sid b fs js = Err e \<Longrightarrow>
   \<exists>f ow v1 v2. e = ConflictingBranchWrites sid f ow v1 b v2 \<and> \<not> sameValue v1 v2"
  by (induction sid b fs js rule: join_fields.induct) (auto split: option.splits if_splits)

lemma join_branches_Err:
  "join_branches iter sid c bs js = Err e \<Longrightarrow>
   \<exists>f ow v1 b v2. e = ConflictingBranchWrites sid f ow v1 b v2 \<and> \<not> sameValue v1 v2"
proof (induction iter sid c bs js rule: join_branches.induct)
  case (2 iter sid c b out rest js)
  then show ?case
    by (cases "join_fields sid b (iter (branchDelta c out)) js") (auto dest: join_fields_Err)
qed simp

lemma join_fields_no_Panic: "join_fields sid b fs js \<noteq> Panic p"
  by (induction sid b fs js rule: join_fields.induct) (auto split: option.splits)

lemma join_branches_no_Panic: "join_branches iter sid c bs js \<noteq> Panic p"
proof (induction iter sid c bs js rule: join_branches.induct)
  case (2 iter sid c b out rest js)
  then show ?case
    using join_fields_no_Panic by (cases "join_fields sid b (iter (branchDelta c out)) js") auto
qed simp

text \<open>Conversely, writes that agree are joined.\<close>

definition writes_agree :: "(string \<times> gval) list \<Rightarrow> bool" where
  "writes_agree ws \<longleftrightarrow> (\<forall>f v w. (f, v) \<in> set ws \<longrightarrow> (f, w) \<in> set ws \<longrightarrow> sameValue v w)"

lemma join_fields_succeeds:
  "js_ok js ws \<Longrightarrow> writes_agree (ws @ fs) \<Longrightarrow> \<exists>js'. join_fields sid b fs js = Ok js'"
proof (induction fs arbitrary: js ws)
  case Nil
  then show ?case by simp
next
  case (Cons x rest)
  obtain fld v where x: "x = (fld, v)" by force
  let ?js' = "\<lparr>js_joined = gput fld v (js_joined js), js_wroteBy = gput fld b (js_wroteBy js),
             js_wroteValue = gput fld v (js_wroteValue js)\<rparr>"
  have same: "sameValue w v" if "map_of (js_wroteValue js) fld = Some w" for w
  proof -
    from that have "(fld, w) \<in> set ws"
      using js_ok_value [OF Cons.prems(1)] js_ok_lookup [OF Cons.prems(1)] by simp
    with Cons.prems(2) x show ?thesis by (auto simp: writes_agree_def)
  qed
  then have step: "join_fields sid b (x # rest) js = join_fields sid b rest ?js'"
    and one: "join_fields sid b [x] js = Ok ?js'"
    using x by (auto split: option.splits)
  have "writes_agree ((ws @ [x]) @ rest)" using Cons.prems(2) by simp
  from Cons.IH [OF join_fields_ok [OF one Cons.prems(1)] this] step show ?case by simp
qed

lemma join_branches_succeeds:
  assumes "js_ok js ws" and "writes_agree (ws @ writes_of iter c bs)"
  shows "\<exists>js'. join_branches iter sid c bs js = Ok js'"
  using assms
proof (induction iter sid c bs js arbitrary: ws rule: join_branches.induct)
  case (2 iter sid c b out rest js)
  let ?d = "iter (branchDelta c out)"
  have "writes_agree (ws @ ?d)" and rest: "writes_agree ((ws @ ?d) @ writes_of iter c rest)"
    using "2.prems"(2) by (auto simp: writes_agree_def)
  from join_fields_succeeds [OF "2.prems"(1) this(1)]
  obtain js1 where j1: "join_fields sid b ?d js = Ok js1" by blast
  from "2.IH" [OF join_fields_ok [OF j1 "2.prems"(1)] rest] j1 show ?case by simp
qed simp

end
