(* ===== verification/Engine.thy ===== *)
theory Engine
  imports Compensate Parallel
begin

text \<open>
  The execution loop (\<open>execution/engine.go\<close>: \<open>run\<close>, \<open>runFrom\<close>, \<open>suspend\<close>; \<open>execution/parallel.go\<close>:
  \<open>runParallel\<close>). One pass of the loop is one of the \<open>exec_\<close> functions, which gives the next cursor or
  ends the run; \<open>run_loop\<close> iterates it under the step ceiling and \<open>runFrom\<close> nests it under the depth
  ceiling. The runner of sub-workflows is an argument \<open>sub\<close> of the pass, tied by \<open>runFrom\<close>.
\<close>

section \<open>One pass of the loop\<close>

record cursor =
  cur_step :: string
  cur_ctx :: ctx
  cur_done :: "completed list"
  cur_trace :: "string list"

type_synonym outcome = "(exec_error, workflow_result) res"

datatype progress = Next cursor | Halt outcome

type_synonym ('w, 's) runner = "string \<Rightarrow> ctx \<Rightarrow> ('w, 's) rt \<Rightarrow> outcome \<times> ('w, 's) rt"

text \<open>The failure path every step kind shares: tell the observer, then fall back or abandon.\<close>

definition divert :: "('w, 's) engine \<Rightarrow> 'w workflow \<Rightarrow> 'w step \<Rightarrow> string \<Rightarrow> cursor \<Rightarrow> ('w, 's) rt \<Rightarrow>
    progress \<times> ('w, 's) rt" where
  "divert e flow s reason cur rt =
     (let rt1 = observe e (ObserveCircuitBreaker (wf_WorkflowID flow) (step_ID s)) rt in
      case onFailure e s reason (cur_ctx cur) of
        Ok (next, c) \<Rightarrow> (Next (cur\<lparr>cur_step := next, cur_ctx := c\<rparr>), rt1)
      | Err breakErr \<Rightarrow> (case abandon flow (cur_done cur) (cur_ctx cur) breakErr rt1 of (r, rt2) \<Rightarrow> (Halt r, rt2))
      | Panic p \<Rightarrow> (Halt (Panic p), rt1))"

text \<open>A sub-workflow's error either bypasses the breaker or is diverted.\<close>

definition exec_composite :: "('w, 's) runner \<Rightarrow> ('w, 's) engine \<Rightarrow> 'w workflow \<Rightarrow> composite_step \<Rightarrow>
    cursor \<Rightarrow> ('w, 's) rt \<Rightarrow> progress \<times> ('w, 's) rt" where
  "exec_composite sub e flow s cur rt =
     (case sub (comp_SubWorkflowRef s) (cur_ctx cur) rt of
        (Err err, rt1) \<Rightarrow>
          if bypassesBreaker err then (Halt (Err err), rt1)
          else divert e flow (CompositeStep s) (error_text err) cur rt1
      | (Panic p, rt1) \<Rightarrow> (Halt (Panic p), rt1)
      | (Ok r, rt1) \<Rightarrow>
          (Next (cur\<lparr>cur_step := comp_OnSuccess s, cur_ctx := gmerge (cur_ctx cur) (wr_Output r),
                     cur_trace := cur_trace cur @ wr_Trace r\<rparr>), rt1))"

text \<open>
  The fan-out: each goroutine runs on its own copy of the context and writes its own slot of
  \<open>outcomes\<close>; a panic is recovered. What the goroutines do to the world happens one goroutine after
  the other, in the order the host schedules them; their calls of the observer, which they share,
  interleave as the host decides (\<open>before\<close> is the length of the log when the step started).
\<close>

definition recovered :: "string \<Rightarrow> string \<Rightarrow> outcome \<Rightarrow> outcome" where
  "recovered stepID branch r = (case r of Panic p \<Rightarrow> Err (BranchPanicked stepID branch p) | _ \<Rightarrow> r)"

fun run_branches :: "('w, 's) runner \<Rightarrow> 'w host \<Rightarrow> nat \<Rightarrow> parallel_step \<Rightarrow> ctx \<Rightarrow> nat list \<Rightarrow> outcome list \<Rightarrow> ('w, 's) rt \<Rightarrow>
    outcome list \<times> ('w, 's) rt" where
  "run_branches sub h before s c [] outcomes rt = (outcomes, rt)"
| "run_branches sub h before s c (i # is) outcomes rt =
     (let ref = par_Branches s ! i in
      case sub ref (cloneContext c) rt of (r, rt1) \<Rightarrow>
        run_branches sub h before s c is (outcomes[i := recovered (par_StepID s) ref r])
          (weave_log h before (length (rt_log rt)) rt1))"

definition runParallel :: "('w, 's) runner \<Rightarrow> 'w host \<Rightarrow> 'w workflow \<Rightarrow> parallel_step \<Rightarrow> ctx \<Rightarrow> ('w, 's) rt \<Rightarrow>
    (exec_error, ctx \<times> string list) res \<times> ('w, 's) rt" where
  "runParallel sub h flow s c rt =
     (if par_Branches s = [] then (Err (NoBranches (wf_WorkflowID flow) (par_StepID s)), rt)
      else
        (let n = length (par_Branches s) in
         case run_branches sub h (length (rt_log rt)) s c (host_schedule h n) (replicate n (Ok empty_result)) rt of
           (outcomes, rt1) \<Rightarrow> (join_outcomes h s c outcomes, rt1)))"

definition exec_parallel :: "('w, 's) runner \<Rightarrow> 'w host \<Rightarrow> ('w, 's) engine \<Rightarrow> 'w workflow \<Rightarrow> parallel_step \<Rightarrow>
    cursor \<Rightarrow> ('w, 's) rt \<Rightarrow> progress \<times> ('w, 's) rt" where
  "exec_parallel sub h e flow s cur rt =
     (case runParallel sub h flow s (cur_ctx cur) rt of
        (Err err, rt1) \<Rightarrow>
          if bypassesBreaker err then (Halt (Err err), rt1)
          else divert e flow (ParallelStep s) (error_text err) cur rt1
      | (Panic p, rt1) \<Rightarrow> (Halt (Panic p), rt1)
      | (Ok (joined, branchTrace), rt1) \<Rightarrow>
          (Next (cur\<lparr>cur_step := par_OnSuccess s, cur_ctx := joined,
                     cur_trace := cur_trace cur @ branchTrace\<rparr>), rt1))"

text \<open>Suspension: a fresh random pointer, the state saved under it, the run parked.\<close>

definition hex_encode :: "8 word list \<Rightarrow> string" where
  "hex_encode bs = concat (map (\<lambda>b. [hex_digit (unat b div 16), hex_digit (unat b mod 16)]) bs)"

definition newPointer :: "'w host \<Rightarrow> 'w \<Rightarrow> (string + string) \<times> 'w" where
  "newPointer h w =
     (case host_rand h 16 w of
        (Inl err, w1) \<Rightarrow> (Inl (''could not generate a resume pointer: '' @ err), w1)
      | (Inr buf, w1) \<Rightarrow> (Inr (hex_encode buf), w1))"

definition suspend :: "'w host \<Rightarrow> ('w, 's) engine \<Rightarrow> 'w workflow \<Rightarrow> string \<Rightarrow> string \<Rightarrow> string \<Rightarrow> ctx \<Rightarrow>
    string list \<Rightarrow> int \<Rightarrow> ('w, 's) rt \<Rightarrow> outcome \<times> ('w, 's) rt" where
  "suspend h e flow stepID reason audience c trace depth rt =
     (if depth > 0 then (Err (NestedSuspensionUnsupported (wf_WorkflowID flow) stepID), rt)
      else case eng_store e of
        None \<Rightarrow> (Err (NoSuspensionSupport (wf_WorkflowID flow) stepID), rt)
      | Some store \<Rightarrow>
          (case newPointer h (rt_world rt) of
             (Inl err, w1) \<Rightarrow> (Err (PlainError err), rt\<lparr>rt_world := w1\<rparr>)
           | (Inr pointer, w1) \<Rightarrow>
               (let st = \<lparr>st_Pointer = pointer, st_WorkflowID = wf_WorkflowID flow, st_StepID = stepID,
                          st_Reason = reason, st_Audience = audience, st_Ctx = c, st_Trace = trace\<rparr> in
                case store_Save store st (rt_store rt) of
                  (Some err, s1) \<Rightarrow>
                    (Err (PlainError (''could not save suspended workflow: '' @ err)),
                     rt\<lparr>rt_world := w1, rt_store := s1\<rparr>)
                | (None, s1) \<Rightarrow>
                    (Ok \<lparr>wr_Output = c, wr_StatePointer = pointer, wr_Trace = trace\<rparr>,
                     observe e (ObserveSuspension (wf_WorkflowID flow) stepID)
                       (rt\<lparr>rt_world := w1, rt_store := s1\<rparr>)))))"

text \<open>The second half of a leaf: the action has passed its probe, or declared none.\<close>

definition run_action :: "'w host \<Rightarrow> ('w, 's) engine \<Rightarrow> 'w workflow \<Rightarrow> 'w leaf_step \<Rightarrow> int \<Rightarrow> cursor \<Rightarrow>
    ('w, 's) rt \<Rightarrow> progress \<times> ('w, 's) rt" where
  "run_action h e flow s depth cur rt =
     (let rt1 = observe e (ObserveStep (wf_WorkflowID flow) (leaf_StepID s)) rt in
      case leaf_Run s (cur_ctx cur) (rt_world rt1) of
        (Output out, w) \<Rightarrow>
          (Next (cur\<lparr>cur_step := leaf_OnSuccess s, cur_ctx := gmerge (cur_ctx cur) out,
                     cur_done := (if leaf_CompensateStepRef s \<noteq> [] then
                       cur_done cur @ [\<lparr>done_stepID = leaf_StepID s, done_compensateStep = leaf_CompensateStepRef s\<rparr>]
                       else cur_done cur)\<rparr>), rt1\<lparr>rt_world := w\<rparr>)
      | (Suspends reason audience, w) \<Rightarrow>
          (case suspend h e flow (leaf_StepID s) reason audience (cur_ctx cur) (cur_trace cur) depth
                  (rt1\<lparr>rt_world := w\<rparr>) of (r, rt2) \<Rightarrow> (Halt r, rt2))
      | (Fails msg, w) \<Rightarrow> divert e flow (LeafStep s) msg cur (rt1\<lparr>rt_world := w\<rparr>)
      | (Panics p, w) \<Rightarrow> (Halt (Panic p), rt1\<lparr>rt_world := w\<rparr>))"

text \<open>A leaf: probe first when it declares one, and only a healthy verdict lets the action run.\<close>

definition exec_leaf :: "'w host \<Rightarrow> ('w, 's) engine \<Rightarrow> 'w workflow \<Rightarrow> 'w leaf_step \<Rightarrow> int \<Rightarrow> cursor \<Rightarrow>
    ('w, 's) rt \<Rightarrow> progress \<times> ('w, 's) rt" where
  "exec_leaf h e flow s depth cur rt =
     (if leaf_SandboxProbeRef s = [] then run_action h e flow s depth cur rt
      else case eng_sandbox e of
        None \<Rightarrow>
          (Halt (Err (PlainError (''step '' @ quoted (leaf_StepID s) @ '' declares sandbox_probe_ref '' @
             quoted (leaf_SandboxProbeRef s) @ '' but no sandbox is configured''))), rt)
      | Some sb \<Rightarrow>
          (let rt1 = observe e (ObserveSandboxProbe (wf_WorkflowID flow) (leaf_StepID s)) rt in
           case sb \<lparr>preq_ProbeRef = leaf_SandboxProbeRef s, preq_DomainID = wf_DomainID flow,
                    preq_StepContext = cur_ctx cur\<rparr> (rt_world rt1) of
             (answer, w) \<Rightarrow>
               (let (healthy, reason) = probe_verdict answer;
                    rt2 = observe e (ObserveProbeOutcome (wf_WorkflowID flow) (leaf_StepID s) healthy)
                            (rt1\<lparr>rt_world := w\<rparr>)
                in if \<not> healthy then divert e flow (LeafStep s) reason cur rt2
                   else run_action h e flow s depth cur rt2)))"

fun exec_step :: "('w, 's) runner \<Rightarrow> 'w host \<Rightarrow> ('w, 's) engine \<Rightarrow> 'w workflow \<Rightarrow> int \<Rightarrow> 'w step \<Rightarrow> cursor \<Rightarrow>
    ('w, 's) rt \<Rightarrow> progress \<times> ('w, 's) rt" where
  "exec_step sub h e flow depth (CompositeStep s) cur rt = exec_composite sub e flow s cur rt"
| "exec_step sub h e flow depth (ParallelStep s) cur rt = exec_parallel sub h e flow s cur rt"
| "exec_step sub h e flow depth (LeafStep s) cur rt = exec_leaf h e flow s depth cur rt"

section \<open>The loop and the nesting\<close>

definition missing_step :: "string \<Rightarrow> string \<Rightarrow> exec_error" where
  "missing_step workflowRef stepID =
     PlainError (''workflow '' @ quoted workflowRef @ '' has no step '' @ quoted stepID)"

definition unknown_workflow :: "string \<Rightarrow> exec_error" where
  "unknown_workflow workflowRef = PlainError (''no workflow registered for '' @ quoted workflowRef)"

function run_loop :: "('w, 's) runner \<Rightarrow> 'w host \<Rightarrow> ('w, 's) engine \<Rightarrow> 'w workflow \<Rightarrow> string \<Rightarrow> int \<Rightarrow> int \<Rightarrow>
    cursor \<Rightarrow> ('w, 's) rt \<Rightarrow> outcome \<times> ('w, 's) rt" where
  "run_loop sub h e flow workflowRef depth steps cur rt =
     (if cur_step cur = [] then
        (Ok \<lparr>wr_Output = cur_ctx cur, wr_StatePointer = [], wr_Trace = cur_trace cur\<rparr>, rt)
      else if steps + 1 > eng_maxSteps e then
        (Err (StepLimitExceeded workflowRef (eng_maxSteps e) (tail (cur_trace cur) 10)), rt)
      else case wf_Steps flow (cur_step cur) of
        None \<Rightarrow> (Err (missing_step workflowRef (cur_step cur)), rt)
      | Some s \<Rightarrow>
          (case exec_step sub h e flow depth s (cur\<lparr>cur_trace := cur_trace cur @ [step_ID s]\<rparr>) rt of
             (Next cur', rt') \<Rightarrow> run_loop sub h e flow workflowRef depth (steps + 1) cur' rt'
           | (Halt r, rt') \<Rightarrow> (r, rt')))"
  by pat_completeness auto
termination
  by (relation "measure (\<lambda>(sub, h, e, flow, workflowRef, depth, steps, cur, rt). nat (eng_maxSteps e - steps))") auto

declare run_loop.simps [simp del]

definition start_cursor :: "string \<Rightarrow> ctx \<Rightarrow> cursor" where
  "start_cursor stepID c = \<lparr>cur_step = stepID, cur_ctx = c, cur_done = [], cur_trace = []\<rparr>"

function runFrom :: "'w host \<Rightarrow> ('w, 's) engine \<Rightarrow> int \<Rightarrow> string \<Rightarrow> string \<Rightarrow> ctx \<Rightarrow> ('w, 's) rt \<Rightarrow>
    outcome \<times> ('w, 's) rt" where
  "runFrom h e depth workflowRef startStepID c rt =
     (if depth > eng_maxDepth e then (Err (DepthLimitExceeded workflowRef (eng_maxDepth e)), rt)
      else case eng_workflows e workflowRef of
        None \<Rightarrow> (Err (unknown_workflow workflowRef), rt)
      | Some flow \<Rightarrow>
          run_loop (\<lambda>ref c' rt'. runFrom h e (depth + 1) ref [] c' rt') h e flow workflowRef depth 0
            (start_cursor (if startStepID = [] then wf_EntryStepID flow else startStepID) c) rt)"
  by pat_completeness auto
termination
  by (relation "measure (\<lambda>(h, e, depth, workflowRef, startStepID, c, rt). nat (eng_maxDepth e + 1 - depth))") auto

declare runFrom.simps [simp del]

definition run_at :: "'w host \<Rightarrow> ('w, 's) engine \<Rightarrow> int \<Rightarrow> ('w, 's) runner" where
  "run_at h e depth workflowRef c rt = runFrom h e depth workflowRef [] c rt"

definition Run :: "'w host \<Rightarrow> ('w, 's) engine \<Rightarrow> ('w, 's) runner" where
  "Run h e workflowRef c rt = run_at h e 0 workflowRef c rt"

end
