(* ===== verification/EngineFacts.thy ===== *)
theory EngineFacts
  imports Engine
begin

text \<open>
  Reasoning about runs: the unfolding rules of the loop, an invariant rule for it, and the locale
  \<open>rt_relation\<close>, which lifts a relation kept by every primitive effect of a run to whole runs.
\<close>

section \<open>Rules for the loop\<close>

lemma run_loop_done:
  "cur_step cur = [] \<Longrightarrow> run_loop sub h e flow ref depth steps cur rt =
     (Ok \<lparr>wr_Output = cur_ctx cur, wr_StatePointer = [], wr_Trace = cur_trace cur\<rparr>, rt)"
  by (simp add: run_loop.simps)

lemma run_loop_limit:
  "cur_step cur \<noteq> [] \<Longrightarrow> eng_maxSteps e < steps + 1 \<Longrightarrow> run_loop sub h e flow ref depth steps cur rt =
     (Err (StepLimitExceeded ref (eng_maxSteps e) (tail (cur_trace cur) 10)), rt)"
  by (simp add: run_loop.simps)

lemma run_loop_missing:
  "cur_step cur \<noteq> [] \<Longrightarrow> \<not> eng_maxSteps e < steps + 1 \<Longrightarrow> wf_Steps flow (cur_step cur) = None \<Longrightarrow>
   run_loop sub h e flow ref depth steps cur rt = (Err (missing_step ref (cur_step cur)), rt)"
  by (simp add: run_loop.simps)

abbreviation visit :: "cursor \<Rightarrow> 'w step \<Rightarrow> cursor" where
  "visit cur s \<equiv> cur\<lparr>cur_trace := cur_trace cur @ [step_ID s]\<rparr>"

lemma run_loop_next:
  "cur_step cur \<noteq> [] \<Longrightarrow> \<not> eng_maxSteps e < steps + 1 \<Longrightarrow> wf_Steps flow (cur_step cur) = Some s \<Longrightarrow>
   exec_step sub h e flow depth s (visit cur s) rt = (Next cur', rt') \<Longrightarrow>
   run_loop sub h e flow ref depth steps cur rt = run_loop sub h e flow ref depth (steps + 1) cur' rt'"
  by (subst run_loop.simps) simp

lemma run_loop_halt:
  "cur_step cur \<noteq> [] \<Longrightarrow> \<not> eng_maxSteps e < steps + 1 \<Longrightarrow> wf_Steps flow (cur_step cur) = Some s \<Longrightarrow>
   exec_step sub h e flow depth s (visit cur s) rt = (Halt r, rt') \<Longrightarrow>
   run_loop sub h e flow ref depth steps cur rt = (r, rt')"
  by (subst run_loop.simps) simp

text \<open>An invariant \<open>I\<close> of the loop head and a postcondition \<open>Q\<close> of every way out.\<close>

lemma run_loop_rule [consumes 1, case_names exit ceiling missing continue halt]:
  assumes "I steps cur rt"
    and exit: "\<And>steps cur rt. I steps cur rt \<Longrightarrow> cur_step cur = [] \<Longrightarrow>
      Q (Ok \<lparr>wr_Output = cur_ctx cur, wr_StatePointer = [], wr_Trace = cur_trace cur\<rparr>) rt"
    and ceiling: "\<And>steps cur rt. I steps cur rt \<Longrightarrow> cur_step cur \<noteq> [] \<Longrightarrow> eng_maxSteps e < steps + 1 \<Longrightarrow>
      Q (Err (StepLimitExceeded ref (eng_maxSteps e) (tail (cur_trace cur) 10))) rt"
    and missing: "\<And>steps cur rt. I steps cur rt \<Longrightarrow> cur_step cur \<noteq> [] \<Longrightarrow>
      wf_Steps flow (cur_step cur) = None \<Longrightarrow> Q (Err (missing_step ref (cur_step cur))) rt"
    and continue: "\<And>steps cur rt s cur' rt'. I steps cur rt \<Longrightarrow> cur_step cur \<noteq> [] \<Longrightarrow>
      steps + 1 \<le> eng_maxSteps e \<Longrightarrow> wf_Steps flow (cur_step cur) = Some s \<Longrightarrow>
      exec_step sub h e flow depth s (visit cur s) rt = (Next cur', rt') \<Longrightarrow> I (steps + 1) cur' rt'"
    and halt: "\<And>steps cur rt s r rt'. I steps cur rt \<Longrightarrow> cur_step cur \<noteq> [] \<Longrightarrow>
      steps + 1 \<le> eng_maxSteps e \<Longrightarrow> wf_Steps flow (cur_step cur) = Some s \<Longrightarrow>
      exec_step sub h e flow depth s (visit cur s) rt = (Halt r, rt') \<Longrightarrow> Q r rt'"
  shows "case run_loop sub h e flow ref depth steps cur rt of (r, rt') \<Rightarrow> Q r rt'"
  using assms(1)
proof (induction "nat (eng_maxSteps e - steps)" arbitrary: steps cur rt rule: less_induct)
  case less
  show ?case
  proof (cases "cur_step cur = []")
    case True
    then show ?thesis using exit [OF less.prems] by (simp add: run_loop_done)
  next
    case step: False
    show ?thesis
    proof (cases "eng_maxSteps e < steps + 1")
      case True
      then show ?thesis using ceiling [OF less.prems step] step by (simp add: run_loop_limit)
    next
      case below: False
      show ?thesis
      proof (cases "wf_Steps flow (cur_step cur)")
        case None
        then show ?thesis using missing [OF less.prems step] step below by (simp add: run_loop_missing)
      next
        case (Some s)
        obtain pr rt' where pr: "exec_step sub h e flow depth s (visit cur s) rt = (pr, rt')" by force
        show ?thesis
        proof (cases pr)
          case (Next cur')
          have "I (steps + 1) cur' rt'"
            using continue [OF less.prems step _ Some] below pr Next by simp
          moreover have "nat (eng_maxSteps e - (steps + 1)) < nat (eng_maxSteps e - steps)"
            using below by simp
          ultimately show ?thesis
            using less.hyps step below Some pr Next by (simp add: run_loop_next)
        next
          case (Halt r)
          then show ?thesis using halt [OF less.prems step _ Some] step below Some pr
            by (simp add: run_loop_halt)
        qed
      qed
    qed
  qed
qed

text \<open>The nesting of runs: induction on the distance to the depth ceiling.\<close>

lemma runFrom_rule [consumes 1, case_names too_deep unknown run]:
  assumes "runFrom h e depth ref start c rt = (r, rt')"
    and too_deep: "\<And>depth ref start c rt. eng_maxDepth e < depth \<Longrightarrow>
      Q depth ref start c rt (Err (DepthLimitExceeded ref (eng_maxDepth e))) rt"
    and unknown: "\<And>depth ref start c rt. eng_workflows e ref = None \<Longrightarrow>
      Q depth ref start c rt (Err (unknown_workflow ref)) rt"
    and run: "\<And>depth ref start c rt flow r rt'. depth \<le> eng_maxDepth e \<Longrightarrow> eng_workflows e ref = Some flow \<Longrightarrow>
      (\<And>ref c rt r rt'. runFrom h e (depth + 1) ref [] c rt = (r, rt') \<Longrightarrow> Q (depth + 1) ref [] c rt r rt') \<Longrightarrow>
      run_loop (\<lambda>ref c' rt'. runFrom h e (depth + 1) ref [] c' rt') h e flow ref depth 0
        (start_cursor (if start = [] then wf_EntryStepID flow else start) c) rt = (r, rt') \<Longrightarrow>
      Q depth ref start c rt r rt'"
  shows "Q depth ref start c rt r rt'"
  using assms(1)
proof (induction "nat (eng_maxDepth e + 1 - depth)" arbitrary: depth ref start c rt r rt' rule: less_induct)
  case less
  show ?case
  proof (cases "depth > eng_maxDepth e")
    case True
    with less.prems show ?thesis by (auto simp: runFrom.simps [of h e depth] intro: too_deep)
  next
    case within: False
    show ?thesis
    proof (cases "eng_workflows e ref")
      case None
      with less.prems within show ?thesis by (auto simp: runFrom.simps [of h e depth] intro: unknown)
    next
      case (Some flow)
      have IH: "Q (depth + 1) ref [] c rt r rt'" if "runFrom h e (depth + 1) ref [] c rt = (r, rt')" for ref c rt r rt'
        using within that by (intro less.hyps) auto
      show ?thesis
        by (rule run [OF _ Some IH]) (use less.prems within Some in \<open>auto simp: runFrom.simps [of h e depth]\<close>)
    qed
  qed
qed

lemma hex_encode_Nil [simp]: "hex_encode bs = [] \<longleftrightarrow> bs = []"
  by (cases bs) (simp_all add: hex_encode_def)

section \<open>Relations kept by every step\<close>

text \<open>
  A preorder on states that the failure path and the leaves at depth \<open>d0\<close> and below keep, and that
  does not notice how the observer calls of goroutines interleave, is kept by every run that starts there.
\<close>

locale step_relation =
  fixes h :: "'w host" and e :: "('w, 's) engine" and d0 :: int and R :: "('w, 's) rt \<Rightarrow> ('w, 's) rt \<Rightarrow> bool"
  assumes step_refl: "R rt rt"
    and step_trans: "R rt1 rt2 \<Longrightarrow> R rt2 rt3 \<Longrightarrow> R rt1 rt3"
    and step_divert: "eng_workflows e ref = Some flow \<Longrightarrow> divert e flow s reason cur rt = (pr, rt') \<Longrightarrow> R rt rt'"
    and step_leaf: "d0 \<le> depth \<Longrightarrow> eng_workflows e ref = Some flow \<Longrightarrow> wf_Steps flow sid = Some (LeafStep leaf) \<Longrightarrow>
      exec_leaf h e flow leaf depth cur rt = (pr, rt') \<Longrightarrow> R rt rt'"
    and step_weave: "R rt0 rt1 \<Longrightarrow> R rt1 rt2 \<Longrightarrow>
      R rt0 (weave_log h (length (rt_log rt0)) (length (rt_log rt1)) rt2)"
begin

text \<open>A runner of sub-workflows keeps the relation when each of its runs does.\<close>

definition runner_R :: "('w, 's) runner \<Rightarrow> bool" where
  "runner_R sub \<longleftrightarrow> (\<forall>ref c rt r rt'. sub ref c rt = (r, rt') \<longrightarrow> R rt rt')"

lemma runner_R_D: "sub ref c rt = (r, rt') \<Longrightarrow> runner_R sub \<Longrightarrow> R rt rt'"
  by (auto simp: runner_R_def)

lemma exec_composite_R:
  assumes "eng_workflows e ref = Some flow" and "runner_R sub"
  shows "exec_composite sub e flow s cur rt = (pr, rt') \<Longrightarrow> R rt rt'"
  using assms(2) by (auto simp: exec_composite_def split: prod.splits res.splits if_splits
      dest!: step_divert [OF assms(1)] runner_R_D intro: step_trans)

lemma run_branches_R:
  "runner_R sub \<Longrightarrow> R rt0 rt \<Longrightarrow> run_branches sub h (length (rt_log rt0)) s c is os rt = (os', rt') \<Longrightarrow> R rt0 rt'"
proof (induction "is" arbitrary: os rt)
  case (Cons i "is")
  obtain r rt1 where r: "sub (par_Branches s ! i) (cloneContext c) rt = (r, rt1)" by force
  have "R rt0 (weave_log h (length (rt_log rt0)) (length (rt_log rt)) rt1)"
    by (rule step_weave [OF Cons.prems(2) runner_R_D [OF r Cons.prems(1)]])
  from Cons.IH [OF Cons.prems(1) this] Cons.prems(3) r show ?case by (simp add: Let_def)
qed simp

lemma runParallel_R:
  "runner_R sub \<Longrightarrow> runParallel sub h flow s c rt = (r, rt') \<Longrightarrow> R rt rt'"
  by (auto simp: runParallel_def Let_def step_refl split: if_splits prod.splits dest: run_branches_R [OF _ step_refl])

lemma exec_parallel_R:
  assumes "eng_workflows e ref = Some flow" and "runner_R sub"
  shows "exec_parallel sub h e flow s cur rt = (pr, rt') \<Longrightarrow> R rt rt'"
  by (auto simp: exec_parallel_def split: prod.splits res.splits if_splits
      dest!: step_divert [OF assms(1)] runParallel_R [OF assms(2)] intro: step_trans)

lemma exec_step_R:
  assumes "runner_R sub" and "d0 \<le> depth" and "eng_workflows e ref = Some flow" and "wf_Steps flow sid = Some s"
    and "exec_step sub h e flow depth s cur rt = (pr, rt')"
  shows "R rt rt'"
  using assms(4,5)
  by (cases s) (auto dest: exec_composite_R [OF assms(3,1)] exec_parallel_R [OF assms(3,1)] step_leaf [OF assms(2,3)])

lemma run_loop_R:
  assumes "runner_R sub" and "d0 \<le> depth" and "eng_workflows e ref = Some flow"
    and "run_loop sub h e flow ref depth steps cur rt = (r, rt')"
  shows "R rt rt'"
proof -
  have "case run_loop sub h e flow ref depth steps cur rt of (r, rt') \<Rightarrow> R rt rt'"
    by (rule run_loop_rule [where I = "\<lambda>_ _ rt1. R rt rt1" and Q = "\<lambda>_ rt1. R rt rt1"])
      (use exec_step_R [OF assms(1-3)] step_trans step_refl in blast)+
  with assms(4) show ?thesis by simp
qed

theorem runFrom_R: "runFrom h e depth ref start c rt = (r, rt') \<Longrightarrow> d0 \<le> depth \<Longrightarrow> R rt rt'"
proof (induction rule: runFrom_rule)
  case (run depth ref start c rt flow r rt')
  have "runner_R (\<lambda>ref c' rt'. runFrom h e (depth + 1) ref [] c' rt')"
    unfolding runner_R_def using run.IH run.prems by force
  from run_loop_R [OF this run.prems run.hyps(2) run.hyps(3)] show ?case .
qed (rule step_refl)+

lemma Run_R: "Run h e ref c rt = (r, rt') \<Longrightarrow> d0 \<le> 0 \<Longrightarrow> R rt rt'"
  by (auto simp: Run_def run_at_def dest: runFrom_R)

end

section \<open>Relations kept by every effect\<close>

text \<open>Stronger, and easier to check: every single effect of a run keeps the relation.\<close>

locale rt_relation =
  fixes h :: "'w host" and e :: "('w, 's) engine" and d0 :: int and R :: "('w, 's) rt \<Rightarrow> ('w, 's) rt \<Rightarrow> bool"
  assumes R_refl: "R rt rt"
    and R_trans: "R rt1 rt2 \<Longrightarrow> R rt2 rt3 \<Longrightarrow> R rt1 rt3"
    and R_observe: "R rt (observe e ev rt)"
    and R_world: "R rt (rt\<lparr>rt_world := w\<rparr>)"
    and R_save: "eng_store e = Some store \<Longrightarrow> d0 \<le> 0 \<Longrightarrow> newPointer h w = (Inr (st_Pointer st), w1) \<Longrightarrow>
      R rt (rt\<lparr>rt_store := snd (store_Save store st (rt_store rt))\<rparr>)"
    and R_weave: "R rt0 rt1 \<Longrightarrow> R rt1 rt2 \<Longrightarrow>
      R rt0 (weave_log h (length (rt_log rt0)) (length (rt_log rt1)) rt2)"
begin

lemma R_observe_after: "R rt1 rt2 \<Longrightarrow> R rt1 (observe e ev rt2)"
  by (rule R_trans [OF _ R_observe])

lemma R_world_after: "R rt1 rt2 \<Longrightarrow> R rt1 (rt2\<lparr>rt_world := w\<rparr>)"
  by (rule R_trans [OF _ R_world])

lemma R_observe_before: "R (observe e ev rt1) rt2 \<Longrightarrow> R rt1 rt2"
  by (rule R_trans [OF R_observe])

lemma R_world_before: "R (rt1\<lparr>rt_world := w\<rparr>) rt2 \<Longrightarrow> R rt1 rt2"
  by (rule R_trans [OF R_world])

lemmas R_intros = R_refl R_observe_after R_world_after
lemmas R_dests = R_observe_before R_world_before

lemma abandon_R: "abandon flow dn c cause rt = (r, rt') \<Longrightarrow> R rt rt'"
  by (cases cause) (auto simp: abandon_def R_refl R_world split: if_splits prod.splits res.splits)

lemma divert_R: "divert e flow s reason cur rt = (pr, rt') \<Longrightarrow> R rt rt'"
  by (auto simp: divert_def Let_def R_observe split: res.splits prod.splits
      dest!: abandon_R intro: R_trans [OF R_observe])

lemma suspend_R:
  assumes "suspend h e flow sid reason aud c trace depth rt = (r, rt')" and "d0 \<le> depth"
  shows "R rt rt'"
proof -
  have saved: "R rt (rt\<lparr>rt_world := w1, rt_store := s1\<rparr>)"
    if st: "eng_store e = Some store" and sv: "store_Save store x (rt_store rt) = (err, s1)"
      and p: "newPointer h (rt_world rt) = (Inr (st_Pointer x), w1)" and d: "depth \<le> 0"
    for store x err w1 s1
    using R_trans [OF R_world [of rt w1] R_save [OF st _ p, of "rt\<lparr>rt_world := w1\<rparr>"]] sv assms(2) d by simp
  show ?thesis
    using assms(1) by (auto simp: suspend_def Let_def intro: R_intros saved R_observe_after [OF saved]
        split: if_splits option.splits prod.splits sum.splits)
qed

lemma run_action_R: "run_action h e flow s depth cur rt = (pr, rt') \<Longrightarrow> d0 \<le> depth \<Longrightarrow> R rt rt'"
  by (auto simp: run_action_def Let_def split: prod.splits action_outcome.splits
      dest!: divert_R suspend_R R_dests intro: R_intros)

lemma exec_leaf_R: "exec_leaf h e flow s depth cur rt = (pr, rt') \<Longrightarrow> d0 \<le> depth \<Longrightarrow> R rt rt'"
  by (auto simp: exec_leaf_def Let_def split: if_splits option.splits prod.splits
      dest!: divert_R run_action_R R_dests intro: R_intros)

end

sublocale rt_relation \<subseteq> step_relation h e d0 R
  by unfold_locales (auto intro: R_refl R_trans divert_R exec_leaf_R R_weave)

section \<open>What a run leaves alone\<close>

text \<open>The log only grows.\<close>

interpretation log_grows: rt_relation h e 0 "\<lambda>rt rt'. \<exists>l. rt_log rt' = rt_log rt @ l" for h e
  by unfold_locales (auto simp: observe_def weave_log_append split: option.splits)

text \<open>A sub-workflow or a branch never parks anything: only a run at depth 0 writes to the store.\<close>

interpretation nested: rt_relation h e 1 "\<lambda>rt rt'. rt_store rt' = rt_store rt" for h e
  by unfold_locales simp_all

section \<open>Contexts stay in canonical form\<close>

fun outcome_gwf :: "outcome \<Rightarrow> bool" where
  "outcome_gwf (Ok r) = gwf (wr_Output r)"
| "outcome_gwf _ = True"

fun progress_gwf :: "progress \<Rightarrow> bool" where
  "progress_gwf (Next cur) = gwf (cur_ctx cur)"
| "progress_gwf (Halt r) = outcome_gwf r"

lemma outcome_gwf_not_Ok: "(\<And>x. r \<noteq> Ok x) \<Longrightarrow> outcome_gwf r"
  by (cases r) auto

lemma abandon_not_Ok: "fst (abandon flow dn c cause rt) \<noteq> Ok x"
  by (cases cause) (auto simp: abandon_def split: prod.splits res.splits)

lemma divert_gwf: "gwf (cur_ctx cur) \<Longrightarrow> progress_gwf (fst (divert e flow s reason cur rt))"
  by (auto simp: divert_def Let_def split_beta abandon_not_Ok split: res.splits
      dest: onFailure_gwf intro!: outcome_gwf_not_Ok)

lemma suspend_gwf: "gwf c \<Longrightarrow> outcome_gwf (fst (suspend h e flow sid reason aud c tr depth rt))"
  by (auto simp: suspend_def Let_def split: option.splits prod.splits sum.splits)

lemma run_action_gwf: "gwf (cur_ctx cur) \<Longrightarrow> progress_gwf (fst (run_action h e flow s depth cur rt))"
  using divert_gwf suspend_gwf
  by (auto simp: run_action_def Let_def split_beta split: action_outcome.splits prod.splits)

lemma exec_step_gwf:
  assumes "gwf (cur_ctx cur)"
  shows "progress_gwf (fst (exec_step sub h e flow depth s cur rt))"
proof (cases s)
  case (LeafStep l)
  then show ?thesis using run_action_gwf [OF assms] divert_gwf [OF assms]
    by (auto simp: exec_leaf_def Let_def split_beta split: option.splits)
next
  case (CompositeStep x)
  then show ?thesis using assms divert_gwf [OF assms]
    by (auto simp: exec_composite_def split: res.splits prod.splits)
next
  case (ParallelStep p)
  have "gwf j" if "join_outcomes h p (cur_ctx cur) os = Ok (j, t)" for os j t
    using that assms by (auto simp: join_outcomes_def Let_def res_bind_Ok_iff split: option.splits if_splits)
  then show ?thesis using ParallelStep divert_gwf [OF assms]
    by (auto simp: exec_parallel_def runParallel_def Let_def split: res.splits prod.splits if_splits)
qed

lemma runFrom_gwf:
  assumes "gwf c" and "runFrom h e depth ref start c rt = (r, rt')"
  shows "outcome_gwf r"
proof -
  have "case run_loop sub h e flow ref depth 0 (start_cursor sid c) rt of (r, rt') \<Rightarrow> outcome_gwf r"
    for sub flow ref depth sid
  proof (rule run_loop_rule [where I = "\<lambda>_ cur _. gwf (cur_ctx cur)" and Q = "\<lambda>r _. outcome_gwf r"])
    fix steps :: int and cur s pr rt1 rt2
    show "gwf (cur_ctx cur')" if "gwf (cur_ctx cur)"
      and "exec_step sub h e flow depth s (visit cur s) rt1 = (Next cur', rt2)" for cur'
      using exec_step_gwf [of "visit cur s" sub h e flow depth s rt1] that by simp
    show "outcome_gwf r" if "gwf (cur_ctx cur)"
      and "exec_step sub h e flow depth s (visit cur s) rt1 = (Halt r, rt2)" for r
      using exec_step_gwf [of "visit cur s" sub h e flow depth s rt1] that by simp
  qed (simp_all add: assms(1) start_cursor_def)
  then have "outcome_gwf (fst (run_loop sub h e flow ref depth 0 (start_cursor sid c) rt))" for sub flow ref depth sid
    by (simp add: split_beta)
  then have "outcome_gwf (fst (runFrom h e depth ref start c rt))"
    by (simp add: runFrom.simps [of h e depth] split: option.split)
  with assms(2) show ?thesis by simp
qed

end
