(* ===== verification/Simulation.thy ===== *)
theory Simulation
  imports EngineFacts
begin

text \<open>
  Two runs side by side. \<open>run_simulation\<close> lifts a relation \<open>S\<close> between the states of two runs, kept
  by every primitive effect, to whole runs: their outcomes are the same, but for which conflict a
  failed join reports. Two uses: an observer never changes a run, and neither the schedule of the
  branches nor the order of map iteration does, when actions and probes depend on the context alone.
\<close>

section \<open>The same outcome\<close>

fun is_conflict :: "(exec_error, 'a) res \<Rightarrow> bool" where
  "is_conflict (Err (ConflictingBranchWrites _ _ _ _ _ _)) = True"
| "is_conflict _ = False"

text \<open>Equal outcomes, or, when \<open>lax\<close>, two joins that failed on a conflict each.\<close>

definition same_outcome :: "bool \<Rightarrow> (exec_error, 'a) res \<Rightarrow> (exec_error, 'a) res \<Rightarrow> bool" where
  "same_outcome lax r1 r2 \<longleftrightarrow> r1 = r2 \<or> lax \<and> is_conflict r1 \<and> is_conflict r2"

lemma same_outcome_refl [simp]: "same_outcome lax r r"
  by (simp add: same_outcome_def)

lemma is_conflict_cases:
  "is_conflict r \<Longrightarrow> \<exists>sid f b1 v1 b2 v2. r = Err (ConflictingBranchWrites sid f b1 v1 b2 v2)"
  by (cases r rule: is_conflict.cases) auto

lemma same_outcome_bypass:
  "same_outcome lax (Err e1) r2 \<Longrightarrow> \<not> bypassesBreaker e1 \<Longrightarrow> r2 = Err e1"
  by (auto simp: same_outcome_def dest!: is_conflict_cases)

lemma same_outcome_Ok: "same_outcome lax (Ok x) r2 \<Longrightarrow> r2 = Ok x"
  by (auto simp: same_outcome_def)

lemma same_outcome_Panic: "same_outcome lax (Panic p) r2 \<Longrightarrow> r2 = Panic p"
  by (auto simp: same_outcome_def)

lemma same_outcome_Err:
  "same_outcome lax (Err e1) r2 \<Longrightarrow> bypassesBreaker e1 \<Longrightarrow>
   \<exists>e2. r2 = Err e2 \<and> bypassesBreaker e2 \<and> same_outcome lax (Err e1 :: (exec_error, 'b) res) (Err e2)"
  by (auto simp: same_outcome_def dest!: is_conflict_cases)

fun same_progress :: "bool \<Rightarrow> progress \<Rightarrow> progress \<Rightarrow> bool" where
  "same_progress lax (Next c1) (Next c2) = (c1 = c2)"
| "same_progress lax (Halt r1) (Halt r2) = same_outcome lax r1 r2"
| "same_progress lax _ _ = False"

definition runner_sim :: "bool \<Rightarrow> (('w, 's) rt \<Rightarrow> ('w, 's) rt \<Rightarrow> bool) \<Rightarrow> ('w, 's) runner \<Rightarrow> ('w, 's) runner \<Rightarrow> bool" where
  "runner_sim lax S sub1 sub2 \<longleftrightarrow>
     (\<forall>ref c rt1 rt2. S rt1 rt2 \<longrightarrow>
        same_outcome lax (fst (sub1 ref c rt1)) (fst (sub2 ref c rt2)) \<and>
        S (snd (sub1 ref c rt1)) (snd (sub2 ref c rt2))) \<and>
     (\<forall>ref c rt. gwf c \<longrightarrow> outcome_gwf (fst (sub1 ref c rt)) \<and> outcome_gwf (fst (sub2 ref c rt)))"

lemma runner_sim_D:
  assumes "runner_sim lax S sub1 sub2" and "S rt1 rt2"
  shows "same_outcome lax (fst (sub1 ref c rt1)) (fst (sub2 ref c rt2))"
    and "S (snd (sub1 ref c rt1)) (snd (sub2 ref c rt2))"
  using assms by (simp_all add: runner_sim_def)

lemma runner_sim_gwf:
  assumes "runner_sim lax S sub1 sub2" and "gwf c"
  shows "outcome_gwf (fst (sub1 ref c rt))" and "outcome_gwf (fst (sub2 ref c rt))"
  using assms by (simp_all add: runner_sim_def)

definition leaf_in :: "('w, 's) engine \<Rightarrow> 'w leaf_step \<Rightarrow> bool" where
  "leaf_in e s \<longleftrightarrow>
     (\<exists>ref flow sid. eng_workflows e ref = Some flow \<and> wf_Steps flow sid = Some (LeafStep s))"

section \<open>The simulation\<close>

locale run_simulation =
  fixes lax :: bool and h1 h2 :: "'w host" and e1 e2 :: "('w, 's) engine" and S :: "('w, 's) rt \<Rightarrow> ('w, 's) rt \<Rightarrow> bool"
  assumes same_workflows: "eng_workflows e2 = eng_workflows e1"
    and same_policies: "eng_policies e2 = eng_policies e1"
    and same_maxSteps: "eng_maxSteps e2 = eng_maxSteps e1"
    and same_maxDepth: "eng_maxDepth e2 = eng_maxDepth e1"
    and sim_observe: "S rt1 rt2 \<Longrightarrow> S (observe e1 ev rt1) (observe e2 ev rt2)"
    and sim_action_outcome: "S rt1 rt2 \<Longrightarrow> leaf_in e1 s \<Longrightarrow>
      fst (leaf_Run s c (rt_world rt1)) = fst (leaf_Run s c (rt_world rt2))"
    and sim_action_world: "S rt1 rt2 \<Longrightarrow> leaf_in e1 s \<Longrightarrow>
      S (rt1\<lparr>rt_world := snd (leaf_Run s c (rt_world rt1))\<rparr>)
        (rt2\<lparr>rt_world := snd (leaf_Run s c (rt_world rt2))\<rparr>)"
    and sim_sandbox: "eng_sandbox e1 = None \<longleftrightarrow> eng_sandbox e2 = None"
    and sim_probe_answer: "S rt1 rt2 \<Longrightarrow> eng_sandbox e1 = Some p1 \<Longrightarrow> eng_sandbox e2 = Some p2 \<Longrightarrow>
      fst (p1 req (rt_world rt1)) = fst (p2 req (rt_world rt2))"
    and sim_probe_world: "S rt1 rt2 \<Longrightarrow> eng_sandbox e1 = Some p1 \<Longrightarrow> eng_sandbox e2 = Some p2 \<Longrightarrow>
      S (rt1\<lparr>rt_world := snd (p1 req (rt_world rt1))\<rparr>) (rt2\<lparr>rt_world := snd (p2 req (rt_world rt2))\<rparr>)"
    and sim_suspend_outcome: "S rt1 rt2 \<Longrightarrow>
      fst (suspend h1 e1 flow sid reason aud c tr depth rt1) = fst (suspend h2 e2 flow sid reason aud c tr depth rt2)"
    and sim_suspend_state: "S rt1 rt2 \<Longrightarrow>
      S (snd (suspend h1 e1 flow sid reason aud c tr depth rt1)) (snd (suspend h2 e2 flow sid reason aud c tr depth rt2))"
    and sim_parallel_outcome: "runner_sim lax S sub1 sub2 \<Longrightarrow> S rt1 rt2 \<Longrightarrow>
      same_outcome lax (fst (runParallel sub1 h1 flow ps c rt1)) (fst (runParallel sub2 h2 flow ps c rt2))"
    and sim_parallel_state: "runner_sim lax S sub1 sub2 \<Longrightarrow> S rt1 rt2 \<Longrightarrow>
      S (snd (runParallel sub1 h1 flow ps c rt1)) (snd (runParallel sub2 h2 flow ps c rt2))"
begin

lemma onFailure_same: "onFailure e2 s reason c = onFailure e1 s reason c"
  by (simp add: onFailure_def same_policies cong: if_cong)

lemma unwind_rev_sim:
  assumes "S rt1 rt2" and "eng_workflows e1 ref = Some flow"
  shows "fst (unwind_rev flow es c un fs (rt_world rt1)) = fst (unwind_rev flow es c un fs (rt_world rt2)) \<and>
    S (rt1\<lparr>rt_world := snd (unwind_rev flow es c un fs (rt_world rt1))\<rparr>)
      (rt2\<lparr>rt_world := snd (unwind_rev flow es c un fs (rt_world rt2))\<rparr>)"
  using assms(1)
proof (induction es arbitrary: c un fs rt1 rt2)
  case Nil
  then show ?case by simp
next
  case (Cons en es)
  show ?case
  proof (cases "wf_Steps flow (done_compensateStep en)")
    case None
    then show ?thesis using Cons by simp
  next
    case (Some s)
    show ?thesis
    proof (cases s)
      case (LeafStep leaf)
      have l: "leaf_in e1 leaf" using assms(2) Some LeafStep by (auto simp: leaf_in_def)
      obtain o1 w1 where r1: "leaf_Run leaf c (rt_world rt1) = (o1, w1)" by force
      obtain o2 w2 where r2: "leaf_Run leaf c (rt_world rt2) = (o2, w2)" by force
      have o: "o2 = o1" and S': "S (rt1\<lparr>rt_world := w1\<rparr>) (rt2\<lparr>rt_world := w2\<rparr>)"
        using sim_action_outcome [OF Cons.prems l, of c] sim_action_world [OF Cons.prems l, of c] r1 r2 by auto
      show ?thesis
        using Cons.IH [OF S'] S' Some LeafStep r1 r2 o by (cases o1) auto
    qed (use Cons Some in auto)
  qed
qed

lemma abandon_sim:
  assumes "S rt1 rt2" and "eng_workflows e1 ref = Some flow"
  shows "fst (abandon flow dn c cause rt1) = fst (abandon flow dn c cause rt2) \<and>
    S (snd (abandon flow dn c cause rt1)) (snd (abandon flow dn c cause rt2))"
proof (cases cause)
  case (CircuitBreakerTripped sid reason un fs)
  note u = unwind_rev_sim [OF assms, of "rev dn" c "[]" "[]"]
  obtain a1 w1 where r1: "unwind_rev flow (rev dn) c [] [] (rt_world rt1) = (a1, w1)" by force
  obtain a2 w2 where r2: "unwind_rev flow (rev dn) c [] [] (rt_world rt2) = (a2, w2)" by force
  from u r1 r2 have "a2 = a1" "S (rt1\<lparr>rt_world := w1\<rparr>) (rt2\<lparr>rt_world := w2\<rparr>)" by auto
  with r1 r2 CircuitBreakerTripped assms(1) show ?thesis
    by (cases a1) (auto simp: abandon_def unwind_def)
qed (use assms(1) in \<open>simp_all add: abandon_def\<close>)

lemma divert_sim:
  assumes "S rt1 rt2" and "eng_workflows e1 ref = Some flow"
  shows "same_progress lax (fst (divert e1 flow s reason cur rt1)) (fst (divert e2 flow s reason cur rt2)) \<and>
    S (snd (divert e1 flow s reason cur rt1)) (snd (divert e2 flow s reason cur rt2))"
proof -
  let ?ev = "ObserveCircuitBreaker (wf_WorkflowID flow) (step_ID s)"
  have o: "S (observe e1 ?ev rt1) (observe e2 ?ev rt2)" by (rule sim_observe [OF assms(1)])
  show ?thesis
  proof (cases "onFailure e1 s reason (cur_ctx cur)")
    case (Ok x)
    with o show ?thesis by (cases x) (auto simp: divert_def Let_def onFailure_same)
  next
    case (Err err)
    from abandon_sim [OF o assms(2), of "cur_done cur" "cur_ctx cur" err] Err show ?thesis
      by (simp add: divert_def Let_def onFailure_same split_beta)
  next
    case (Panic p)
    with o show ?thesis by (auto simp: divert_def Let_def onFailure_same)
  qed
qed

lemma run_action_sim:
  assumes "S rt1 rt2" and "eng_workflows e1 ref = Some flow" and "leaf_in e1 s"
  shows "same_progress lax (fst (run_action h1 e1 flow s depth cur rt1)) (fst (run_action h2 e2 flow s depth cur rt2)) \<and>
    S (snd (run_action h1 e1 flow s depth cur rt1)) (snd (run_action h2 e2 flow s depth cur rt2))"
proof -
  let ?ev = "ObserveStep (wf_WorkflowID flow) (leaf_StepID s)"
  let ?r1 = "observe e1 ?ev rt1" and ?r2 = "observe e2 ?ev rt2"
  have o: "S ?r1 ?r2" by (rule sim_observe [OF assms(1)])
  obtain o1 w1 where r1: "leaf_Run s (cur_ctx cur) (rt_world ?r1) = (o1, w1)" by force
  obtain o2 w2 where r2: "leaf_Run s (cur_ctx cur) (rt_world ?r2) = (o2, w2)" by force
  have oo: "o2 = o1" and S': "S (?r1\<lparr>rt_world := w1\<rparr>) (?r2\<lparr>rt_world := w2\<rparr>)"
    using sim_action_outcome [OF o assms(3), of "cur_ctx cur"]
      sim_action_world [OF o assms(3), of "cur_ctx cur"] r1 r2 by auto
  show ?thesis
  proof (cases o1)
    case (Fails msg)
    then show ?thesis using divert_sim [OF S' assms(2)] r1 r2 oo by (simp add: run_action_def Let_def)
  next
    case (Suspends reason aud)
    then show ?thesis
      using sim_suspend_outcome [OF S', of flow "leaf_StepID s" reason aud "cur_ctx cur" "cur_trace cur" depth]
        sim_suspend_state [OF S', of flow "leaf_StepID s" reason aud "cur_ctx cur" "cur_trace cur" depth] r1 r2 oo
      by (simp add: run_action_def Let_def split_beta)
  qed (use r1 r2 oo S' in \<open>simp_all add: run_action_def Let_def\<close>)
qed

lemma exec_leaf_sim:
  assumes "S rt1 rt2" and "eng_workflows e1 ref = Some flow" and "leaf_in e1 s"
  shows "same_progress lax (fst (exec_leaf h1 e1 flow s depth cur rt1)) (fst (exec_leaf h2 e2 flow s depth cur rt2)) \<and>
    S (snd (exec_leaf h1 e1 flow s depth cur rt1)) (snd (exec_leaf h2 e2 flow s depth cur rt2))"
proof (cases "leaf_SandboxProbeRef s = []")
  case True
  then show ?thesis using run_action_sim [OF assms] by (simp add: exec_leaf_def)
next
  case probed: False
  show ?thesis
  proof (cases "eng_sandbox e1")
    case None
    then have "eng_sandbox e2 = None" using sim_sandbox by simp
    with None probed assms(1) show ?thesis by (simp add: exec_leaf_def)
  next
    case (Some p1)
    then obtain p2 where p2: "eng_sandbox e2 = Some p2" using sim_sandbox by fastforce
    let ?ev = "ObserveSandboxProbe (wf_WorkflowID flow) (leaf_StepID s)"
    let ?r1 = "observe e1 ?ev rt1" and ?r2 = "observe e2 ?ev rt2"
    let ?req = "\<lparr>preq_ProbeRef = leaf_SandboxProbeRef s, preq_DomainID = wf_DomainID flow,
                 preq_StepContext = cur_ctx cur\<rparr>"
    have o: "S ?r1 ?r2" by (rule sim_observe [OF assms(1)])
    obtain a1 w1 where q1: "p1 ?req (rt_world ?r1) = (a1, w1)" by (metis surj_pair)
    obtain a2 w2 where q2: "p2 ?req (rt_world ?r2) = (a2, w2)" by (metis surj_pair)
    have aa: "a2 = a1" and S': "S (?r1\<lparr>rt_world := w1\<rparr>) (?r2\<lparr>rt_world := w2\<rparr>)"
      using sim_probe_answer [OF o Some p2, of ?req] sim_probe_world [OF o Some p2, of ?req] q1 q2 by auto
    obtain healthy reason where v: "probe_verdict a1 = (healthy, reason)" by force
    let ?ev2 = "ObserveProbeOutcome (wf_WorkflowID flow) (leaf_StepID s) healthy"
    have S2: "S (observe e1 ?ev2 (?r1\<lparr>rt_world := w1\<rparr>)) (observe e2 ?ev2 (?r2\<lparr>rt_world := w2\<rparr>))"
      by (rule sim_observe [OF S'])
    show ?thesis
      using divert_sim [OF S2 assms(2), of "LeafStep s" reason cur]
        run_action_sim [OF S2 assms(2,3), of depth cur] probed Some p2 q1 q2 aa v
      by (cases healthy) (simp_all add: exec_leaf_def Let_def)
  qed
qed

lemma exec_composite_sim:
  assumes "S rt1 rt2" and "eng_workflows e1 ref = Some flow" and "runner_sim lax S sub1 sub2"
  shows "same_progress lax (fst (exec_composite sub1 e1 flow s cur rt1)) (fst (exec_composite sub2 e2 flow s cur rt2)) \<and>
    S (snd (exec_composite sub1 e1 flow s cur rt1)) (snd (exec_composite sub2 e2 flow s cur rt2))"
proof -
  obtain o1 r1 where s1: "sub1 (comp_SubWorkflowRef s) (cur_ctx cur) rt1 = (o1, r1)" by force
  obtain o2 r2 where s2: "sub2 (comp_SubWorkflowRef s) (cur_ctx cur) rt2 = (o2, r2)" by force
  have so: "same_outcome lax o1 o2" and S': "S r1 r2"
    using runner_sim_D [OF assms(3,1), of "comp_SubWorkflowRef s" "cur_ctx cur"] s1 s2 by simp_all
  show ?thesis
  proof (cases o1)
    case (Ok x)
    with so s1 s2 S' show ?thesis by (auto simp: exec_composite_def dest: same_outcome_Ok)
  next
    case (Panic p)
    with so s1 s2 S' show ?thesis by (auto simp: exec_composite_def dest: same_outcome_Panic)
  next
    case (Err err)
    show ?thesis
    proof (cases "bypassesBreaker err")
      case True
      with so Err obtain err2 where "o2 = Err err2" "bypassesBreaker err2"
        "same_outcome lax (Err err :: outcome) (Err err2)"
        using same_outcome_Err by blast
      with True Err s1 s2 S' show ?thesis by (simp add: exec_composite_def)
    next
      case False
      with so Err have "o2 = Err err" using same_outcome_bypass by blast
      with False Err s1 s2 divert_sim [OF S' assms(2)] show ?thesis by (simp add: exec_composite_def)
    qed
  qed
qed

lemma exec_parallel_sim:
  assumes "S rt1 rt2" and "eng_workflows e1 ref = Some flow" and "runner_sim lax S sub1 sub2"
  shows "same_progress lax (fst (exec_parallel sub1 h1 e1 flow s cur rt1)) (fst (exec_parallel sub2 h2 e2 flow s cur rt2)) \<and>
    S (snd (exec_parallel sub1 h1 e1 flow s cur rt1)) (snd (exec_parallel sub2 h2 e2 flow s cur rt2))"
proof -
  obtain o1 r1 where s1: "runParallel sub1 h1 flow s (cur_ctx cur) rt1 = (o1, r1)" by force
  obtain o2 r2 where s2: "runParallel sub2 h2 flow s (cur_ctx cur) rt2 = (o2, r2)" by force
  have so: "same_outcome lax o1 o2" and S': "S r1 r2"
    using sim_parallel_outcome [OF assms(3,1), of flow s "cur_ctx cur"]
      sim_parallel_state [OF assms(3,1), of flow s "cur_ctx cur"] s1 s2 by auto
  show ?thesis
  proof (cases o1)
    case (Ok x)
    with so s1 s2 S' show ?thesis by (cases x) (auto simp: exec_parallel_def dest: same_outcome_Ok)
  next
    case (Panic p)
    with so s1 s2 S' show ?thesis by (auto simp: exec_parallel_def dest: same_outcome_Panic)
  next
    case (Err err)
    show ?thesis
    proof (cases "bypassesBreaker err")
      case True
      with so Err obtain err2 where "o2 = Err err2" "bypassesBreaker err2"
        "same_outcome lax (Err err :: outcome) (Err err2)"
        using same_outcome_Err by blast
      with True Err s1 s2 S' show ?thesis by (simp add: exec_parallel_def)
    next
      case False
      with so Err have "o2 = Err err" using same_outcome_bypass by blast
      with False Err s1 s2 divert_sim [OF S' assms(2)] show ?thesis by (simp add: exec_parallel_def)
    qed
  qed
qed

lemma exec_step_sim:
  assumes "S rt1 rt2" and "eng_workflows e1 ref = Some flow" and "runner_sim lax S sub1 sub2"
    and "wf_Steps flow sid = Some s"
  shows "same_progress lax (fst (exec_step sub1 h1 e1 flow depth s cur rt1)) (fst (exec_step sub2 h2 e2 flow depth s cur rt2)) \<and>
    S (snd (exec_step sub1 h1 e1 flow depth s cur rt1)) (snd (exec_step sub2 h2 e2 flow depth s cur rt2))"
proof (cases s)
  case (LeafStep l)
  with assms(2,4) have "leaf_in e1 l" by (auto simp: leaf_in_def)
  with exec_leaf_sim [OF assms(1,2)] LeafStep show ?thesis by simp
qed (use exec_composite_sim [OF assms(1-3)] exec_parallel_sim [OF assms(1-3)] in auto)

lemma run_loop_sim:
  assumes "S rt1 rt2" and "eng_workflows e1 ref = Some flow" and "runner_sim lax S sub1 sub2"
  shows "same_outcome lax (fst (run_loop sub1 h1 e1 flow ref' depth steps cur rt1))
                      (fst (run_loop sub2 h2 e2 flow ref' depth steps cur rt2)) \<and>
    S (snd (run_loop sub1 h1 e1 flow ref' depth steps cur rt1)) (snd (run_loop sub2 h2 e2 flow ref' depth steps cur rt2))"
  using assms(1)
proof (induction "nat (eng_maxSteps e1 - steps)" arbitrary: steps cur rt1 rt2 rule: less_induct)
  case less
  consider (exit) "cur_step cur = []" | (ceiling) "cur_step cur \<noteq> []" "eng_maxSteps e1 < steps + 1"
    | (missing) "cur_step cur \<noteq> []" "\<not> eng_maxSteps e1 < steps + 1" "wf_Steps flow (cur_step cur) = None"
    | (step) s where "cur_step cur \<noteq> []" "\<not> eng_maxSteps e1 < steps + 1" "wf_Steps flow (cur_step cur) = Some s"
    by fastforce
  then show ?case
  proof cases
    case exit
    with less.prems show ?thesis by (simp add: run_loop_done)
  next
    case ceiling
    with less.prems show ?thesis by (simp add: run_loop_limit same_maxSteps)
  next
    case missing
    with less.prems show ?thesis by (simp add: run_loop_missing same_maxSteps)
  next
    case (step s)
    obtain p1 r1 where s1: "exec_step sub1 h1 e1 flow depth s (visit cur s) rt1 = (p1, r1)" by force
    obtain p2 r2 where s2: "exec_step sub2 h2 e2 flow depth s (visit cur s) rt2 = (p2, r2)" by force
    have sp: "same_progress lax p1 p2" and S': "S r1 r2"
      using exec_step_sim [OF less.prems assms(2,3) step(3), of depth "visit cur s"] s1 s2 by auto
    show ?thesis
    proof (cases p1)
      case (Next c1)
      then have p2: "p2 = Next c1" using sp by (cases p2) auto
      have "nat (eng_maxSteps e1 - (steps + 1)) < nat (eng_maxSteps e1 - steps)" using step(2) by simp
      from less.hyps [OF this S', of c1] show ?thesis
        using step s1 s2 Next p2 by (simp add: run_loop_next [where s = s] same_maxSteps)
    next
      case (Halt o1)
      then obtain o2 where "p2 = Halt o2" "same_outcome lax o1 o2" using sp by (cases p2) auto
      with step s1 s2 Halt S' show ?thesis by (simp add: run_loop_halt [where s = s] same_maxSteps)
    qed
  qed
qed

theorem runFrom_sim:
  "S rt1 rt2 \<Longrightarrow>
   same_outcome lax (fst (runFrom h1 e1 depth ref start c rt1)) (fst (runFrom h2 e2 depth ref start c rt2)) \<and>
   S (snd (runFrom h1 e1 depth ref start c rt1)) (snd (runFrom h2 e2 depth ref start c rt2))"
proof (induction "nat (eng_maxDepth e1 + 1 - depth)" arbitrary: depth ref start c rt1 rt2 rule: less_induct)
  case less
  show ?case
  proof (cases "depth > eng_maxDepth e1 \<or> eng_workflows e1 ref = None")
    case True
    with less.prems show ?thesis
      by (auto simp: runFrom.simps [of h1 e1 depth] runFrom.simps [of h2 e2 depth] same_maxDepth same_workflows)
  next
    case False
    then obtain flow where within: "depth \<le> eng_maxDepth e1" and flow: "eng_workflows e1 ref = Some flow" by auto
    let ?sub1 = "\<lambda>ref c' rt'. runFrom h1 e1 (depth + 1) ref [] c' rt'"
    let ?sub2 = "\<lambda>ref c' rt'. runFrom h2 e2 (depth + 1) ref [] c' rt'"
    have "runner_sim lax S ?sub1 ?sub2"
    proof -
      have g: "outcome_gwf (fst (runFrom h e d ref [] c rt))" if "gwf c" for h :: "'w host" and e :: "('w, 's) engine" and d ref c rt
        using runFrom_gwf [OF that] by (metis prod.collapse)
      show ?thesis
        unfolding runner_sim_def using within g by (auto intro!: less.hyps)
    qed
    from run_loop_sim [OF less.prems flow this] within flow show ?thesis
      by (simp add: runFrom.simps [of h1 e1 depth] runFrom.simps [of h2 e2 depth] same_maxDepth same_workflows)
  qed
qed

end

end
