(* ===== verification/Store.thy ===== *)
theory Store
  imports ExecTypes
begin

text \<open>
  Stores of suspended runs (\<open>execution/suspend.go\<close>): the contract the engine relies on, as a locale,
  the consequences every store inherits, and \<open>MemoryStore\<close>, which meets it. The mutex makes each
  operation atomic, so any concurrent use is some sequence of operations; \<open>store_run\<close> is one.
\<close>

datatype store_op = OpSave state | OpLoad string | OpConsume string | OpRelease string

text \<open>One call: whether it succeeded (a nil error), and the store after it.\<close>

fun store_call :: "'s store \<Rightarrow> store_op \<Rightarrow> 's \<Rightarrow> bool \<times> 's" where
  "store_call S (OpSave x) s = (fst (store_Save S x s) = None, snd (store_Save S x s))"
| "store_call S (OpLoad p) s = (\<not> isl (store_Load S p s), s)"
| "store_call S (OpConsume p) s = (\<not> isl (fst (store_Consume S p s)), snd (store_Consume S p s))"
| "store_call S (OpRelease p) s = (fst (store_Release S p s) = None, snd (store_Release S p s))"

fun store_run :: "'s store \<Rightarrow> store_op list \<Rightarrow> 's \<Rightarrow> (store_op \<times> bool) list \<times> 's" where
  "store_run S [] s = ([], s)"
| "store_run S (op # ops) s =
     (case store_call S op s of (ok, s1) \<Rightarrow>
      case store_run S ops s1 of (rs, s2) \<Rightarrow> ((op, ok) # rs, s2))"

definition claims_of :: "string \<Rightarrow> (store_op \<times> bool) list \<Rightarrow> nat" where
  "claims_of p rs = length (filter (\<lambda>r. r = (OpConsume p, True)) rs)"

definition saves_of :: "string \<Rightarrow> (store_op \<times> bool) list \<Rightarrow> nat" where
  "saves_of p rs = length (filter (\<lambda>(op, ok). ok \<and> (\<exists>x. op = OpSave x \<and> st_Pointer x = p)) rs)"

text \<open>
  The contract. \<open>pending s p\<close> is the state parked under \<open>p\<close>; \<open>norm\<close> is what saving does to a state
  (the identity in memory, a JSON round trip on disk).
\<close>

locale store_contract =
  fixes S :: "'s store"
    and pending :: "'s \<Rightarrow> string \<Rightarrow> state option"
    and inv :: "'s \<Rightarrow> bool"
    and norm :: "state \<Rightarrow> state"
  assumes load_some: "inv s \<Longrightarrow> pending s p = Some x \<Longrightarrow> store_Load S p s = Inr x"
    and load_none: "inv s \<Longrightarrow> pending s p = None \<Longrightarrow> isl (store_Load S p s)"
    and consume_some: "inv s \<Longrightarrow> pending s p = Some x \<Longrightarrow> fst (store_Consume S p s) = Inr x"
    and consume_none: "inv s \<Longrightarrow> pending s p = None \<Longrightarrow> isl (fst (store_Consume S p s))"
    and consume_pending: "inv s \<Longrightarrow> pending (snd (store_Consume S p s)) = (pending s)(p := None)"
    and release_pending: "inv s \<Longrightarrow> pending (snd (store_Release S p s)) = pending s"
    and save_pending: "inv s \<Longrightarrow> pending (snd (store_Save S x s)) =
      (if fst (store_Save S x s) = None then (pending s)(st_Pointer x \<mapsto> norm x) else pending s)"
    and consume_inv: "inv s \<Longrightarrow> inv (snd (store_Consume S p s))"
    and release_inv: "inv s \<Longrightarrow> inv (snd (store_Release S p s))"
    and save_inv: "inv s \<Longrightarrow> inv (snd (store_Save S x s))"
begin

lemma load_iff: "inv s \<Longrightarrow> store_Load S p s = Inr x \<longleftrightarrow> pending s p = Some x"
  using load_some [of s p] load_none [of s p] by (cases "pending s p") auto

lemma consume_iff: "inv s \<Longrightarrow> fst (store_Consume S p s) = Inr x \<longleftrightarrow> pending s p = Some x"
  using consume_some [of s p] consume_none [of s p] by (cases "pending s p") auto

lemma consume_success: "inv s \<Longrightarrow> isl (fst (store_Consume S p s)) \<longleftrightarrow> pending s p = None"
  using consume_some [of s p] consume_none [of s p] by (cases "pending s p") auto

lemma save_then_load:
  "inv s \<Longrightarrow> fst (store_Save S x s) = None \<Longrightarrow>
   store_Load S (st_Pointer x) (snd (store_Save S x s)) = Inr (norm x)"
  by (simp add: load_iff save_inv save_pending)

lemma call_inv: "inv s \<Longrightarrow> inv (snd (store_call S op s))"
  by (cases op) (simp_all add: consume_inv release_inv save_inv)

text \<open>What one call does to what is parked under \<open>p\<close>, and whether it claims or parks it.\<close>

lemma call_balance:
  assumes "inv s" and "store_call S op s = (ok, s1)"
  shows "claims_of p [(op, ok)] + (if pending s1 p = None then 0 else 1) \<le>
         saves_of p [(op, ok)] + (if pending s p = None then 0 else 1)"
  using assms
  by (cases op) (auto simp: claims_of_def saves_of_def consume_success consume_pending
      release_pending save_pending split: if_splits)

lemma claims_of_Cons: "claims_of p (r # rs) = claims_of p [r] + claims_of p rs"
  by (simp add: claims_of_def)

lemma saves_of_Cons: "saves_of p (r # rs) = saves_of p [r] + saves_of p rs"
  by (simp add: saves_of_def)

text \<open>A pointer is claimed at most once for each time it was parked.\<close>

lemma claims_le_saves:
  "inv s \<Longrightarrow> store_run S ops s = (rs, s') \<Longrightarrow>
   claims_of p rs + (if pending s' p = None then 0 else 1) \<le>
   saves_of p rs + (if pending s p = None then 0 else 1)"
proof (induction ops arbitrary: s rs)
  case Nil
  then show ?case by (simp add: claims_of_def saves_of_def)
next
  case (Cons op ops)
  obtain ok s1 where c: "store_call S op s = (ok, s1)" by force
  obtain rs1 where r: "store_run S ops s1 = (rs1, s')" and rs: "rs = (op, ok) # rs1"
    using Cons.prems(2) c by (auto split: prod.splits)
  have "inv s1" using call_inv [OF Cons.prems(1), of op] c by simp
  from Cons.IH [OF this r] call_balance [OF Cons.prems(1) c, of p] show ?case
    unfolding rs claims_of_Cons [of p "(op, ok)" rs1] saves_of_Cons [of p "(op, ok)" rs1] by linarith
qed

end

section \<open>\<open>MemoryStore\<close>\<close>

type_synonym memory_store = "state gomap"

definition NewMemoryStore :: memory_store where
  "NewMemoryStore = []"

definition memory_missing :: "string \<Rightarrow> string" where
  "memory_missing pointer = ''no suspended workflow for pointer '' @ quoted pointer"

definition memory_Save :: "state \<Rightarrow> memory_store \<Rightarrow> string option \<times> memory_store" where
  "memory_Save s m = (None, gput (st_Pointer s) s m)"

definition memory_Load :: "string \<Rightarrow> memory_store \<Rightarrow> string + state" where
  "memory_Load pointer m =
     (case map_of m pointer of None \<Rightarrow> Inl (memory_missing pointer) | Some s \<Rightarrow> Inr s)"

definition memory_Delete :: "string \<Rightarrow> memory_store \<Rightarrow> string option \<times> memory_store" where
  "memory_Delete pointer m =
     (case map_of m pointer of
        None \<Rightarrow> (Some (memory_missing pointer), m)
      | Some _ \<Rightarrow> (None, gdel pointer m))"

definition memory_Consume :: "string \<Rightarrow> memory_store \<Rightarrow> (string + state) \<times> memory_store" where
  "memory_Consume pointer m =
     (case map_of m pointer of
        None \<Rightarrow> (Inl (memory_missing pointer), m)
      | Some s \<Rightarrow> (Inr s, gdel pointer m))"

definition memory_Release :: "string \<Rightarrow> memory_store \<Rightarrow> string option \<times> memory_store" where
  "memory_Release _ m = (None, m)"

text \<open>\<open>Pending\<close> lists the states in the order Go's map iteration happens to take: \<open>order\<close>.\<close>

definition memory_Pending :: "(memory_store \<Rightarrow> memory_store) \<Rightarrow> memory_store \<Rightarrow> state list" where
  "memory_Pending order m = map snd (order m)"

definition MemoryStore :: "memory_store store" where
  "MemoryStore =
     \<lparr>store_Save = memory_Save, store_Load = memory_Load,
      store_Consume = memory_Consume, store_Release = memory_Release\<rparr>"

lemmas memory_defs = MemoryStore_def memory_Save_def memory_Load_def memory_Consume_def memory_Release_def

interpretation memory: store_contract MemoryStore map_of "\<lambda>_. True" "\<lambda>x. x"
  by unfold_locales (auto simp: memory_defs split: option.splits)

lemma memory_Delete_ok_iff: "fst (memory_Delete p m) = None \<longleftrightarrow> p \<in> dom (map_of m)"
  by (auto simp: memory_Delete_def split: option.splits)

lemma memory_Pending_exact:
  assumes "mset (order m) = mset m"
  shows "set (memory_Pending order m) = snd ` set m"
  using mset_eq_setD [OF assms] by (simp add: memory_Pending_def)

end
