(* ===== verification/Samples.thy ===== *)
theory Samples
  imports Engine Store
begin

text \<open>
  Small concrete engines that the witnesses of the development run: a journal for the world, a store
  in memory, leaves that write one field and note that they ran.
\<close>

type_synonym journal = "string list"

definition sample_rand :: "nat \<Rightarrow> journal \<Rightarrow> (string + 8 word list) \<times> journal" where
  "sample_rand n w = (Inr (replicate n 0), w)"

definition sample_host :: "journal host" where
  "sample_host = in_order_host sample_rand"

definition reversed_host :: "journal host" where
  "reversed_host = \<lparr>host_schedule = (\<lambda>n. rev [0..<n]), host_turn = (\<lambda>xs ys. False), host_range = rev, host_rand = sample_rand\<rparr>"

lemma sample_hosts_ok [simp]: "host_ok sample_host" "host_ok reversed_host"
  by (auto simp: sample_host_def reversed_host_def host_ok_def in_order_host_def)

text \<open>Actions: write a field, fail, suspend; each notes its name in the journal.\<close>

definition writes :: "string \<Rightarrow> string \<Rightarrow> journal action" where
  "writes f v c w = (Output [(f, GStr v)], w @ [f])"

definition fails :: "string \<Rightarrow> journal action" where
  "fails msg c w = (Fails msg, w)"

definition suspends :: "string \<Rightarrow> string \<Rightarrow> journal action" where
  "suspends reason audience c w = (Suspends reason audience, w)"

definition sample_leaf :: "string \<Rightarrow> journal action \<Rightarrow> string \<Rightarrow> journal leaf_step" where
  "sample_leaf sid run next =
     \<lparr>leaf_StepID = sid, leaf_Run = run, leaf_SandboxProbeRef = [], leaf_CircuitBreakerPolicyRef = [],
      leaf_OnSuccess = next, leaf_CompensateStepRef = []\<rparr>"

definition sample_flow :: "string \<Rightarrow> string \<Rightarrow> journal step list \<Rightarrow> journal workflow" where
  "sample_flow ref entry steps =
     \<lparr>wf_WorkflowID = ref, wf_DomainID = ''demo'', wf_EntryStepID = entry,
      wf_Steps = map_of (map (\<lambda>s. (step_ID s, s)) steps)\<rparr>"

definition sample_engine :: "journal workflow list \<Rightarrow> (journal, memory_store) engine" where
  "sample_engine flows = fold RegisterWorkflow flows (NewEngine None)"

definition sample_rt :: "(journal, memory_store) rt" where
  "sample_rt = \<lparr>rt_world = [], rt_store = [], rt_log = []\<rparr>"

lemmas sample_defs = sample_leaf_def sample_flow_def sample_engine_def sample_rt_def
  sample_host_def reversed_host_def in_order_host_def sample_rand_def
  writes_def fails_def suspends_def NewEngine_def RegisterWorkflow_def RegisterPolicy_def SetStore_def
  SetObserver_def SetAuthorizer_def DefaultMaxSteps_def DefaultMaxDepth_def

text \<open>A fan-out over two workflows that write a field each.\<close>

definition fan_engine :: "(journal, memory_store) engine" where
  "fan_engine = sample_engine
     [sample_flow ''left'' ''l'' [LeafStep (sample_leaf ''l'' (writes ''x'' ''1'') [])],
      sample_flow ''right'' ''r'' [LeafStep (sample_leaf ''r'' (writes ''y'' ''2'') [])],
      sample_flow ''main'' ''fan'' [ParallelStep
        \<lparr>par_StepID = ''fan'', par_Branches = [''left'', ''right''], par_CircuitBreakerPolicyRef = [],
         par_OnSuccess = []\<rparr>]]"

text \<open>A chain of two writes; a saga whose second step fails; a run that asks and then goes on.\<close>

definition pipe_leaves :: "journal leaf_step list" where
  "pipe_leaves = [sample_leaf ''a'' (writes ''x'' ''1'') ''b'', sample_leaf ''b'' (writes ''y'' ''2'') []]"

definition pipe_flow :: "journal workflow" where
  "pipe_flow = sample_flow ''pipe'' ''a'' (map LeafStep pipe_leaves)"

definition reserve :: "journal leaf_step" where
  "reserve = (sample_leaf ''reserve'' (writes ''held'' ''yes'') ''pay'')\<lparr>leaf_CompensateStepRef := ''release''\<rparr>"

definition pay :: "journal leaf_step" where
  "pay = sample_leaf ''pay'' (fails ''declined'') []"

definition saga_flow :: "journal workflow" where
  "saga_flow = sample_flow ''saga'' ''reserve''
     [LeafStep reserve, LeafStep pay, LeafStep (sample_leaf ''release'' (writes ''held'' ''no'') [])]"

definition ask :: "journal leaf_step" where
  "ask = sample_leaf ''ask'' (suspends ''needs sign-off'' ''finance'') ''b''"

definition ask_flow :: "journal workflow" where
  "ask_flow = sample_flow ''asks'' ''a''
     [LeafStep (sample_leaf ''a'' (writes ''x'' ''1'') ''ask''), LeafStep ask,
      LeafStep (sample_leaf ''b'' (writes ''y'' ''2'') [])]"

definition last_ask_flow :: "journal workflow" where
  "last_ask_flow = sample_flow ''asks last'' ''a''
     [LeafStep (sample_leaf ''a'' (writes ''x'' ''1'') ''ask''), LeafStep (ask\<lparr>leaf_OnSuccess := []\<rparr>)]"

text \<open>Finance may resume; nobody else.\<close>

definition finance_only :: "journal authorizer" where
  "finance_only att w = ((att_Identity att = ''fin'', ''not finance'', None), w)"

definition ask_engine :: "(journal, memory_store) engine" where
  "ask_engine = SetStore (Some MemoryStore) (SetAuthorizer (Some finance_only)
     (sample_engine [pipe_flow, saga_flow, ask_flow]))"

definition sample_pointer :: string where
  "sample_pointer = replicate 32 (CHR ''0'')"

definition ask_state :: state where
  "ask_state = \<lparr>st_Pointer = sample_pointer, st_WorkflowID = ''asks'', st_StepID = ''ask'',
     st_Reason = ''needs sign-off'', st_Audience = ''finance'', st_Ctx = [(''x'', GStr ''1'')],
     st_Trace = [''a'', ''ask'']\<rparr>"

definition ask_rt :: "(journal, memory_store) rt" where
  "ask_rt = \<lparr>rt_world = [''x''], rt_store = [(sample_pointer, ask_state)], rt_log = []\<rparr>"

text \<open>A step that always succeeds and leads to itself; a workflow that nests itself.\<close>

definition loop_flow :: "journal workflow" where
  "loop_flow = sample_flow ''loop'' ''a'' [LeafStep (sample_leaf ''a'' (writes ''x'' ''1'') ''a'')]"

definition nest_flow :: "journal workflow" where
  "nest_flow = sample_flow ''nest'' ''n'' [CompositeStep
     \<lparr>comp_StepID = ''n'', comp_SubWorkflowRef = ''nest'', comp_CircuitBreakerPolicyRef = ''p'', comp_OnSuccess = []\<rparr>]"

definition runaway_engine :: "(journal, memory_store) engine" where
  "runaway_engine = RegisterPolicy \<lparr>pol_PolicyID = ''p'', pol_FallbackStepRef = ''n''\<rparr>
     (sample_engine [loop_flow, nest_flow])"

text \<open>A step behind a probe that always passes, watched by an observer of everything.\<close>

definition passing :: "journal prober" where
  "passing req w = ((\<lparr>pres_Healthy = True, pres_DetectedFailureMode = []\<rparr>, None), w @ [preq_ProbeRef req])"

definition probed_flow :: "journal workflow" where
  "probed_flow = sample_flow ''probed'' ''a''
     [LeafStep ((sample_leaf ''a'' (writes ''x'' ''1'') [])\<lparr>leaf_SandboxProbeRef := ''check''\<rparr>)]"

definition probed_engine :: "(journal, memory_store) engine" where
  "probed_engine = RegisterWorkflow probed_flow
     (SetObserver (Some \<lparr>obs_ProbeOutcome = True, obs_Suspension = True\<rparr>) (NewEngine (Some passing)))"

text \<open>A host with other randomness; a run parked at its last step.\<close>

definition lucky_host :: "journal host" where
  "lucky_host = sample_host\<lparr>host_rand := (\<lambda>n w. (Inr (replicate n 1), w))\<rparr>"

definition last_engine :: "(journal, memory_store) engine" where
  "last_engine = SetStore (Some MemoryStore) (sample_engine [last_ask_flow])"

definition last_state :: state where
  "last_state = \<lparr>st_Pointer = ''p0'', st_WorkflowID = ''asks last'', st_StepID = ''ask'',
     st_Reason = ''needs sign-off'', st_Audience = [], st_Ctx = [(''x'', GStr ''1'')],
     st_Trace = [''a'', ''ask'']\<rparr>"

definition last_rt :: "(journal, memory_store) rt" where
  "last_rt = \<lparr>rt_world = [''x''], rt_store = [(''p0'', last_state)], rt_log = []\<rparr>"

lemmas sample_flow_defs = fan_engine_def pipe_leaves_def pipe_flow_def reserve_def pay_def saga_flow_def ask_def
  ask_flow_def last_ask_flow_def finance_only_def ask_engine_def sample_pointer_def ask_state_def ask_rt_def
  loop_flow_def nest_flow_def runaway_engine_def passing_def probed_flow_def probed_engine_def

lemma sample_limits [simp]:
  "limits_positive fan_engine" "limits_positive ask_engine" "limits_positive runaway_engine" "limits_positive probed_engine"
  by (simp_all add: fan_engine_def ask_engine_def runaway_engine_def probed_engine_def sample_engine_def)

end
