(* ===== verification/Determinism.thy ===== *)
theory Determinism
  imports Simulation Samples
begin

text \<open>
  Two uses of \<open>run_simulation\<close>. Observers do not change a run: the same engine with another
  observer gives the same outcome, the same store and the same world. The host does not change a run
  either: for actions and probes that look at the context alone, neither the order in which the
  branches of a parallel step run nor the order in which maps are iterated changes the outcome,
  except for which of several conflicts a failed join names.
\<close>

section \<open>Branches, slot by slot\<close>

text \<open>Every slot holds what its branch returned, whatever the schedule.\<close>

lemma run_branches_length: "length (fst (run_branches sub h before s c is os rt)) = length os"
  by (induction sub h before s c "is" os rt rule: run_branches.induct) (auto simp: Let_def split: prod.splits)

lemma run_branches_untouched:
  "i \<notin> set is \<Longrightarrow> fst (run_branches sub h before s c is os rt) ! i = os ! i"
  by (induction sub h before s c "is" os rt rule: run_branches.induct) (auto simp: Let_def split: prod.splits)

lemma run_branches_slot:
  "distinct is \<Longrightarrow> i \<in> set is \<Longrightarrow> i < length os \<Longrightarrow>
   \<exists>rt'. fst (run_branches sub h before s c is os rt) ! i =
     recovered (par_StepID s) (par_Branches s ! i) (fst (sub (par_Branches s ! i) (cloneContext c) rt'))"
proof (induction sub h before s c "is" os rt rule: run_branches.induct)
  case (2 sub h before s c j "is" outcomes rt)
  obtain r rt1 where r: "sub (par_Branches s ! j) (cloneContext c) rt = (r, rt1)" by force
  show ?case
  proof (cases "i = j")
    case True
    then have "fst (run_branches sub h before s c (j # is) outcomes rt) ! i =
        recovered (par_StepID s) (par_Branches s ! i) (fst (sub (par_Branches s ! i) (cloneContext c) rt))"
      using "2.prems" r by (simp add: Let_def run_branches_untouched)
    then show ?thesis by blast
  next
    case False
    with "2.prems" have "distinct is" "i \<in> set is"
      "i < length (outcomes[j := recovered (par_StepID s) (par_Branches s ! j) r])" by auto
    from "2.IH" [OF refl r [symmetric] this] r show ?thesis by (simp add: Let_def)
  qed
qed simp

lemma recovered_same:
  "same_outcome lax r1 r2 \<Longrightarrow> same_outcome lax (recovered sid b r1) (recovered sid b r2)"
  by (auto simp: same_outcome_def recovered_def dest!: is_conflict_cases)

section \<open>The join of related outcomes\<close>

lemma first_bypass_same:
  assumes "list_all2 (same_outcome lax) os1 os2"
  shows "(first_bypass os1 = None \<and> first_bypass os2 = None \<and> os2 = os1) \<or>
    (\<exists>e1 e2. first_bypass os1 = Some e1 \<and> first_bypass os2 = Some e2 \<and>
       same_outcome lax (Err e1 :: (exec_error, 'b) res) (Err e2))"
  using assms
proof (induction rule: list_all2_induct)
  case Nil
  then show ?case by simp
next
  case (Cons r1 os1 r2 os2)
  show ?case
  proof (cases r1)
    case (Err e1)
    show ?thesis
    proof (cases "bypassesBreaker e1")
      case True
      with Cons(1) Err obtain e2 where "r2 = Err e2" "bypassesBreaker e2"
        "same_outcome lax (Err e1 :: (exec_error, 'b) res) (Err e2)"
        using same_outcome_Err by blast
      with True Err show ?thesis by simp
    next
      case False
      with Cons(1) Err have "r2 = r1" using same_outcome_bypass by blast
      with False Err Cons.IH show ?thesis by auto
    qed
  qed (use Cons in \<open>auto dest: same_outcome_Ok same_outcome_Panic\<close>)
qed

text \<open>
  One branch's fields are distinct, so the inner loop succeeds exactly when each agrees with what
  an earlier branch wrote there. The order in which the fields come does not matter.
\<close>

definition js_inv :: "join_state \<Rightarrow> bool" where
  "js_inv js \<longleftrightarrow> js_wroteValue js = js_joined js \<and> dom (map_of (js_wroteBy js)) = dom (map_of (js_joined js)) \<and>
     gwf (js_joined js)"

definition fits :: "join_state \<Rightarrow> (string \<times> gval) list \<Rightarrow> bool" where
  "fits js fs \<longleftrightarrow> (\<forall>x \<in> set fs. \<forall>w. map_of (js_joined js) (fst x) = Some w \<longrightarrow> sameValue w (snd x))"

lemma js_inv_empty: "js_inv empty_join"
  by (simp add: js_inv_def empty_join_def)

lemma fits_Cons:
  assumes "f \<notin> fst ` set fs"
  shows "fits js ((f, v) # fs) \<longleftrightarrow> (\<forall>w. map_of (js_joined js) f = Some w \<longrightarrow> sameValue w v) \<and>
    fits (js\<lparr>js_joined := gput f v (js_joined js)\<rparr>) fs"
proof -
  have "fst x \<noteq> f" if "x \<in> set fs" for x using assms that by auto
  then show ?thesis by (simp add: fits_def)
qed

lemma join_fields_exact:
  assumes "distinct (map fst fs)" and "js_inv js"
  shows "if fits js fs
    then \<exists>js'. join_fields sid b fs js = Ok js' \<and> js_inv js' \<and> map_of (js_joined js') = map_of (js_joined js) ++ map_of fs
    else is_conflict (join_fields sid b fs js)"
  using assms
proof (induction fs arbitrary: js)
  case Nil
  then show ?case by (simp add: fits_def)
next
  case (Cons x fs)
  obtain f v where x: "x = (f, v)" by force
  let ?js = "\<lparr>js_joined = gput f v (js_joined js), js_wroteBy = gput f b (js_wroteBy js),
             js_wroteValue = gput f v (js_wroteValue js)\<rparr>"
  have fresh: "f \<notin> fst ` set fs" and dist: "distinct (map fst fs)" using Cons.prems(1) x by auto
  have inv: "js_inv ?js" using Cons.prems(2) by (simp add: js_inv_def)
  have dom: "map_of (js_wroteBy js) f = None \<longleftrightarrow> map_of (js_joined js) f = None"
    using Cons.prems(2) unfolding js_inv_def by (metis domIff)
  have wv: "js_wroteValue js = js_joined js" using Cons.prems(2) by (simp add: js_inv_def)
  have fits: "fits js (x # fs) \<longleftrightarrow>
      (\<forall>w. map_of (js_joined js) f = Some w \<longrightarrow> sameValue w v) \<and> fits ?js fs"
    unfolding x fits_Cons [OF fresh] by (simp add: fits_def)
  have upd: "(map_of (js_joined js))(f \<mapsto> v) ++ map_of fs = map_of (js_joined js) ++ map_of (x # fs)"
    using fresh by (simp add: x map_add_upd_left dom_map_of_conv_image_fst)
  show ?case
  proof (cases "\<forall>w. map_of (js_joined js) f = Some w \<longrightarrow> sameValue w v")
    case True
    then have step: "join_fields sid b (x # fs) js = join_fields sid b fs ?js"
      using dom by (auto simp: x wv split: option.splits)
    from Cons.IH [OF dist inv] True show ?thesis
      unfolding step fits upd [symmetric] by (auto simp: fun_upd_def split: if_splits)
  next
    case False
    then obtain w where w: "map_of (js_joined js) f = Some w" "\<not> sameValue w v" by auto
    moreover from dom w obtain ow where "map_of (js_wroteBy js) f = Some ow" by auto
    ultimately show ?thesis by (auto simp: fits_def x wv)
  qed
qed

lemma is_conflict_bind: "is_conflict r \<Longrightarrow> is_conflict (res_bind r f)"
  by (cases r rule: is_conflict.cases) auto

lemma map_of_mset:
  assumes "mset xs = mset ys" and "distinct (map fst xs)"
  shows "distinct (map fst ys)" "map_of xs = map_of ys"
proof -
  have "mset (map fst xs) = mset (map fst ys)" using assms(1) by simp
  with assms(2) show d: "distinct (map fst ys)" by (metis mset_eq_imp_distinct_iff)
  show "map_of xs = map_of ys"
    by (rule iffD2 [OF map_of_inject_set [OF assms(2) d] mset_eq_setD [OF assms(1)]])
qed

lemma join_branches_order:
  assumes i1: "\<And>m. mset (iter1 m) = mset m" and i2: "\<And>m. mset (iter2 m) = mset m"
    and wf: "\<forall>x \<in> set bs. gwf (snd x)"
    and js: "js_inv js1" "js_inv js2" "js_joined js1 = js_joined js2"
  shows "(\<exists>js1' js2'. join_branches iter1 sid c bs js1 = Ok js1' \<and> join_branches iter2 sid c bs js2 = Ok js2' \<and>
      js_joined js1' = js_joined js2') \<or>
    is_conflict (join_branches iter1 sid c bs js1) \<and> is_conflict (join_branches iter2 sid c bs js2)"
  using wf js
proof (induction bs arbitrary: js1 js2)
  case Nil
  then show ?case by simp
next
  case (Cons x bs)
  obtain b out where x: "x = (b, out)" by force
  let ?d = "branchDelta c out"
  have "gwf ?d" using Cons.prems(1) x by simp
  then have d: "distinct (map fst ?d)" using gwf_distinct by (simp add: gkeys_def)
  have d1: "distinct (map fst (iter1 ?d))" "map_of (iter1 ?d) = map_of ?d"
    using map_of_mset [OF i1 [symmetric] d] by simp_all
  have d2: "distinct (map fst (iter2 ?d))" "map_of (iter2 ?d) = map_of ?d"
    using map_of_mset [OF i2 [symmetric] d] by simp_all
  have fits: "fits js1 (iter1 ?d) \<longleftrightarrow> fits js2 (iter2 ?d)"
    unfolding fits_def using Cons.prems(4) mset_eq_setD [OF i1] mset_eq_setD [OF i2] by simp
  note e1 = join_fields_exact [OF d1(1) Cons.prems(2), of sid b]
  note e2 = join_fields_exact [OF d2(1) Cons.prems(3), of sid b]
  show ?case
  proof (cases "fits js1 (iter1 ?d)")
    case True
    with e1 e2 fits obtain k1 k2 where k: "join_fields sid b (iter1 ?d) js1 = Ok k1" "js_inv k1"
        "join_fields sid b (iter2 ?d) js2 = Ok k2" "js_inv k2"
      and "map_of (js_joined k1) = map_of (js_joined js1) ++ map_of ?d"
        "map_of (js_joined k2) = map_of (js_joined js2) ++ map_of ?d"
      unfolding d1(2) d2(2) by auto
    then have "js_joined k1 = js_joined k2"
      using Cons.prems(4) by (intro gomap_eqI) (auto simp: js_inv_def)
    from Cons.IH [OF _ k(2,4) this] Cons.prems(1) k show ?thesis by (auto simp: x)
  next
    case False
    with e1 e2 fits show ?thesis by (simp add: x is_conflict_bind)
  qed
qed

lemma branch_results_wf:
  "(b, r) \<in> set (branch_results bs os) \<Longrightarrow> \<forall>oc \<in> set os. outcome_gwf oc \<Longrightarrow> gwf (wr_Output r)"
  by (induction bs os rule: branch_results.induct) auto

lemma join_outcomes_same:
  assumes os: "list_all2 (same_outcome True) os1 os2" and gwf: "\<forall>oc \<in> set os1. outcome_gwf oc"
    and h: "host_ok h1" "host_ok h2"
  shows "same_outcome True (join_outcomes h1 s c os1) (join_outcomes h2 s c os2)"
  using first_bypass_same [OF os, where 'b = "ctx \<times> string list"]
proof (elim disjE exE conjE)
  fix e1 e2 assume "first_bypass os1 = Some e1" "first_bypass os2 = Some e2"
    "same_outcome True (Err e1 :: (exec_error, ctx \<times> string list) res) (Err e2)"
  then show ?thesis by (simp add: join_outcomes_def)
next
  assume nb: "first_bypass os1 = None" "first_bypass os2 = None" and eq: "os2 = os1"
  let ?bs = "map (\<lambda>(b, r). (b, wr_Output r)) (branch_results (par_Branches s) os1)"
  have i: "\<And>m. mset (host_range h1 m) = mset m" "\<And>m. mset (host_range h2 m) = mset m"
    using h by (simp_all add: host_ok_def)
  have wf: "\<forall>x \<in> set ?bs. gwf (snd x)"
    using gwf branch_results_wf by auto
  from join_branches_order [of "host_range h1" "host_range h2" ?bs, OF i wf js_inv_empty js_inv_empty refl,
      where sid = "par_StepID s" and c = c] nb eq
  show ?thesis
    by (auto simp: join_outcomes_def Let_def same_outcome_def is_conflict_bind)
qed

section \<open>Fan-out\<close>

definition same_effects :: "('w, 's) rt \<Rightarrow> ('w, 's) rt \<Rightarrow> bool" where
  "same_effects rt1 rt2 \<longleftrightarrow> rt_world rt1 = rt_world rt2 \<and> rt_store rt1 = rt_store rt2"

text \<open>On the same schedule, strictly related branches give the same slots and related states.\<close>

lemma run_branches_sim:
  assumes sub: "runner_sim False S sub1 sub2"
    and weave: "\<And>rt1 rt2 n1 m1 n2 m2. S rt1 rt2 \<Longrightarrow> S (weave_log h n1 m1 rt1) (weave_log h n2 m2 rt2)"
  shows "S rt1 rt2 \<Longrightarrow> fst (run_branches sub1 h n1 s c is os rt1) = fst (run_branches sub2 h n2 s c is os rt2) \<and>
    S (snd (run_branches sub1 h n1 s c is os rt1)) (snd (run_branches sub2 h n2 s c is os rt2))"
proof (induction "is" arbitrary: os rt1 rt2)
  case (Cons i "is")
  obtain r1 q1 where a1: "sub1 (par_Branches s ! i) (cloneContext c) rt1 = (r1, q1)" by force
  obtain r2 q2 where a2: "sub2 (par_Branches s ! i) (cloneContext c) rt2 = (r2, q2)" by force
  from runner_sim_D [OF sub Cons.prems, of "par_Branches s ! i" "cloneContext c"] a1 a2
  have "r2 = r1" "S q1 q2" by (simp_all add: same_outcome_def)
  with Cons.IH [OF weave [OF \<open>S q1 q2\<close>]] a1 a2 show ?case by (simp add: Let_def)
qed simp

lemma runParallel_sim:
  assumes "runner_sim False S sub1 sub2"
    and "\<And>rt1 rt2 n1 m1 n2 m2. S rt1 rt2 \<Longrightarrow> S (weave_log h n1 m1 rt1) (weave_log h n2 m2 rt2)" and "S rt1 rt2"
  shows "same_outcome False (fst (runParallel sub1 h flow ps c rt1)) (fst (runParallel sub2 h flow ps c rt2)) \<and>
    S (snd (runParallel sub1 h flow ps c rt1)) (snd (runParallel sub2 h flow ps c rt2))"
  using run_branches_sim [OF assms, where ?n1.0 = "length (rt_log rt1)" and ?n2.0 = "length (rt_log rt2)"] assms(3)
  by (simp add: runParallel_def Let_def split_beta)

text \<open>On any two schedules, branches that look at nothing but their context give related slots.\<close>

lemma run_branches_any_order:
  fixes s :: parallel_step
  assumes sub: "runner_sim True (\<lambda>_ _. True) sub1 sub2" and h: "host_ok h1" "host_ok h2"
  defines "n \<equiv> length (par_Branches s)"
  shows "list_all2 (same_outcome True)
      (fst (run_branches sub1 h1 before1 s c (host_schedule h1 n) (replicate n (Ok empty_result)) rt1))
      (fst (run_branches sub2 h2 before2 s c (host_schedule h2 n) (replicate n (Ok empty_result)) rt2)) \<and>
    (\<forall>oc \<in> set (fst (run_branches sub1 h1 before1 s c (host_schedule h1 n) (replicate n (Ok empty_result)) rt1)).
      outcome_gwf oc)"
    (is "list_all2 _ ?os1 ?os2 \<and> _")
proof -
  have len: "length ?os1 = n" "length ?os2 = n" by (simp_all add: run_branches_length)
  have slot1: "\<exists>rt. ?os1 ! i = recovered (par_StepID s) (par_Branches s ! i)
      (fst (sub1 (par_Branches s ! i) (cloneContext c) rt))" if "i < n" for i
    using h(1) that by (intro run_branches_slot) (auto simp: host_ok_def)
  have slot2: "\<exists>rt. ?os2 ! i = recovered (par_StepID s) (par_Branches s ! i)
      (fst (sub2 (par_Branches s ! i) (cloneContext c) rt))" if "i < n" for i
    using h(2) that by (intro run_branches_slot) (auto simp: host_ok_def)
  have "same_outcome True (?os1 ! i) (?os2 ! i)" if i: "i < n" for i
  proof -
    obtain q1 q2 where "?os1 ! i = recovered (par_StepID s) (par_Branches s ! i)
        (fst (sub1 (par_Branches s ! i) (cloneContext c) q1))"
      and "?os2 ! i = recovered (par_StepID s) (par_Branches s ! i)
        (fst (sub2 (par_Branches s ! i) (cloneContext c) q2))"
      using slot1 [OF i] slot2 [OF i] by blast
    moreover have "same_outcome True (fst (sub1 (par_Branches s ! i) (cloneContext c) q1))
        (fst (sub2 (par_Branches s ! i) (cloneContext c) q2))"
      by (rule runner_sim_D [OF sub]) simp
    ultimately show ?thesis by (simp add: recovered_same)
  qed
  moreover have "outcome_gwf (?os1 ! i)" if i: "i < n" for i
  proof -
    obtain q1 where "?os1 ! i = recovered (par_StepID s) (par_Branches s ! i)
        (fst (sub1 (par_Branches s ! i) (cloneContext c) q1))"
      using slot1 [OF i] by blast
    moreover have "outcome_gwf (recovered sid b r)" if "outcome_gwf r" for sid b r
      using that by (cases r) (simp_all add: recovered_def)
    ultimately show ?thesis
      using runner_sim_gwf(1) [OF sub, of "cloneContext c" "par_Branches s ! i" q1] by simp
  qed
  ultimately show ?thesis
    using len by (auto simp: list_all2_conv_all_nth in_set_conv_nth)
qed

lemma runParallel_any_order:
  assumes "runner_sim True (\<lambda>_ _. True) sub1 sub2" and "host_ok h1" "host_ok h2"
  shows "same_outcome True (fst (runParallel sub1 h1 flow ps c rt1)) (fst (runParallel sub2 h2 flow ps c rt2))"
  using run_branches_any_order [OF assms, where s = ps and c = c and ?rt1.0 = rt1 and ?rt2.0 = rt2] join_outcomes_same [OF _ _ assms(2,3)]
  by (auto simp: runParallel_def Let_def split_beta)

section \<open>Observers do not change a run\<close>

interpretation unobserved: run_simulation False h h e "SetObserver ob e" same_effects for h e ob
proof unfold_locales
  show "eng_sandbox e = None \<longleftrightarrow> eng_sandbox (SetObserver ob e) = None" by (simp add: SetObserver_def)
  show "same_effects (snd (runParallel sub1 h flow ps c rt1)) (snd (runParallel sub2 h flow ps c rt2))"
    if "runner_sim False same_effects sub1 sub2" "same_effects rt1 rt2" for sub1 sub2 flow ps c rt1 rt2
    using runParallel_sim [OF that(1) _ that(2)] by (simp add: same_effects_def)
  show "same_outcome False (fst (runParallel sub1 h flow ps c rt1)) (fst (runParallel sub2 h flow ps c rt2))"
    if "runner_sim False same_effects sub1 sub2" "same_effects rt1 rt2" for sub1 sub2 flow ps c rt1 rt2
    using runParallel_sim [OF that(1) _ that(2)] by (simp add: same_effects_def)
qed (auto simp: SetObserver_def same_effects_def suspend_def Let_def
    split: option.splits prod.splits sum.splits)

text \<open>
  Telemetry is read-only: configuring another observer, or none, changes neither what a run
  returns nor what it does to the store and to the world.
\<close>

theorem observer_does_not_change_a_run:
  "fst (Run h (SetObserver ob e) ref c rt) = fst (Run h e ref c rt) \<and>
   rt_world (snd (Run h (SetObserver ob e) ref c rt)) = rt_world (snd (Run h e ref c rt)) \<and>
   rt_store (snd (Run h (SetObserver ob e) ref c rt)) = rt_store (snd (Run h e ref c rt))"
  using unobserved.runFrom_sim [of rt rt h e 0 ref "[]" c ob]
  by (simp add: Run_def run_at_def same_outcome_def same_effects_def)

section \<open>The host does not change a run\<close>

text \<open>The actions and probes of an engine look at the context alone.\<close>

definition world_free :: "('w, 's) engine \<Rightarrow> bool" where
  "world_free e \<longleftrightarrow>
     (\<forall>s c w1 w2. leaf_in e s \<longrightarrow> fst (leaf_Run s c w1) = fst (leaf_Run s c w2)) \<and>
     (\<forall>p req w1 w2. eng_sandbox e = Some p \<longrightarrow> fst (p req w1) = fst (p req w2))"

lemma world_free_simulation:
  assumes "host_ok h1" "host_ok h2" and "world_free e" and "eng_store e = None"
  shows "run_simulation True h1 h2 e e (\<lambda>_ _. True)"
proof
  fix s :: "'a leaf_step" and c and rt1 rt2 :: "('a, 'b) rt"
  assume "leaf_in e s"
  with assms(3) show "fst (leaf_Run s c (rt_world rt1)) = fst (leaf_Run s c (rt_world rt2))"
    unfolding world_free_def by blast
next
  fix p1 p2 req and rt1 rt2 :: "('a, 'b) rt"
  assume "eng_sandbox e = Some p1" "eng_sandbox e = Some p2"
  with assms(3) show "fst (p1 req (rt_world rt1)) = fst (p2 req (rt_world rt2))"
    unfolding world_free_def by fastforce
next
  fix sub1 sub2 :: "('a, 'b) runner" and rt1 rt2 :: "('a, 'b) rt" and flow :: "'a workflow" and ps c
  assume "runner_sim True (\<lambda>_ _. True) sub1 sub2"
  then show "same_outcome True (fst (runParallel sub1 h1 flow ps c rt1)) (fst (runParallel sub2 h2 flow ps c rt2))"
    by (rule runParallel_any_order [OF _ assms(1,2)])
qed (use assms(4) in \<open>simp_all add: suspend_def\<close>)

text \<open>
  C2. Determinism: on an engine without a store whose actions and probes look at the context alone,
  two runs of a workflow on the same context return the same outcome, however their branches are
  scheduled and maps are iterated and from whatever state they start; only which of several
  conflicting writes a failed join names may differ.
\<close>

theorem run_is_deterministic:
  assumes "host_ok h1" "host_ok h2" and "world_free e" and "eng_store e = None"
  shows "same_outcome True (fst (Run h1 e ref c rt1)) (fst (Run h2 e ref c rt2))"
  using run_simulation.runFrom_sim [OF world_free_simulation [OF assms]]
  by (simp add: Run_def run_at_def)

lemma run_is_deterministic_witness:
  "same_outcome True (fst (Run sample_host fan_engine ''main'' [] sample_rt))
     (fst (Run reversed_host fan_engine ''main'' [] (sample_rt\<lparr>rt_world := [''z'']\<rparr>)))"
proof -
  have "world_free fan_engine"
    by (auto simp: world_free_def leaf_in_def fan_engine_def sample_defs split: if_splits)
  moreover have "eng_store fan_engine = None" by code_simp
  ultimately show ?thesis by (intro run_is_deterministic) simp_all
qed

end
