(* ===== verification/ProbeSafety.thy ===== *)
theory ProbeSafety
  imports EngineFacts Samples
begin

text \<open>
  The sandbox gate over whole runs, fan-outs included: each start of the action of a leaf that declares
  a probe has a healthy verdict of that probe of its own before it, however the observer calls of
  concurrent branches interleave.
\<close>

section \<open>Registered workflows\<close>

text \<open>Steps are filed under their own IDs, workflows under theirs, as \<open>RegisterWorkflow\<close> and the
  manifest loader do.\<close>

definition workflow_wf :: "'w workflow \<Rightarrow> bool" where
  "workflow_wf flow \<longleftrightarrow> (\<forall>k s. wf_Steps flow k = Some s \<longrightarrow> step_ID s = k)"

definition engine_wf :: "('w, 's) engine \<Rightarrow> bool" where
  "engine_wf e \<longleftrightarrow>
     (\<forall>ref flow. eng_workflows e ref = Some flow \<longrightarrow> wf_WorkflowID flow = ref \<and> workflow_wf flow)"

lemma engine_wf_New [simp]: "engine_wf (NewEngine sb)"
  by (simp add: engine_wf_def NewEngine_def)

lemma engine_wf_Register [simp]: "engine_wf e \<Longrightarrow> workflow_wf flow \<Longrightarrow> engine_wf (RegisterWorkflow flow e)"
  by (simp add: engine_wf_def RegisterWorkflow_def)

lemma engine_wf_others [simp]:
  "engine_wf (SetStore st e) = engine_wf e" "engine_wf (SetLimits s d e) = engine_wf e"
  "engine_wf (SetObserver ob e) = engine_wf e" "engine_wf (SetAuthorizer au e) = engine_wf e"
  "engine_wf (RegisterPolicy p e) = engine_wf e"
  by (simp_all add: engine_wf_def SetStore_def SetLimits_def SetObserver_def SetAuthorizer_def
      RegisterPolicy_def Let_def)

definition probed :: "('w, 's) engine \<Rightarrow> string \<Rightarrow> string \<Rightarrow> bool" where
  "probed e w sid =
     (case eng_workflows e w of
        None \<Rightarrow> False
      | Some flow \<Rightarrow> (case wf_Steps flow sid of
            Some (LeafStep l) \<Rightarrow> leaf_SandboxProbeRef l \<noteq> []
          | _ \<Rightarrow> False))"

section \<open>Gated logs\<close>

text \<open>
  How often a log shows a step's action start, and its probe pass. A log is gated when at no moment
  more actions of a probing step have started than its probe has passed, and none is missing at the
  end. Interleaving the calls of goroutines keeps this, which is why it is stated by counting.
\<close>

definition starts :: "event list \<Rightarrow> string \<Rightarrow> string \<Rightarrow> nat" where
  "starts l w sid = count_list l (ObserveStep w sid)"

definition passes :: "event list \<Rightarrow> string \<Rightarrow> string \<Rightarrow> nat" where
  "passes l w sid = count_list l (ObserveProbeOutcome w sid True)"

definition gated :: "('w, 's) engine \<Rightarrow> event list \<Rightarrow> bool" where
  "gated e l \<longleftrightarrow> (\<forall>w sid. probed e w sid \<longrightarrow>
     starts l w sid = passes l w sid \<and> (\<forall>n. starts (take n l) w sid \<le> passes (take n l) w sid))"

fun quiet :: "event \<Rightarrow> bool" where
  "quiet (ObserveStep _ _) = False"
| "quiet _ = True"

lemma starts_simps [simp]:
  "starts [] w sid = 0" "starts (ev # l) w sid = (if ev = ObserveStep w sid then 1 else 0) + starts l w sid"
  "starts (l @ l') w sid = starts l w sid + starts l' w sid"
  "passes [] w sid = 0" "passes (ev # l) w sid = (if ev = ObserveProbeOutcome w sid True then 1 else 0) + passes l w sid"
  "passes (l @ l') w sid = passes l w sid + passes l' w sid"
  by (simp_all add: starts_def passes_def)

lemma starts_mset: "mset l = mset l' \<Longrightarrow> starts l w sid = starts l' w sid \<and> passes l w sid = passes l' w sid"
  by (simp add: starts_def passes_def count_list_eq_length_filter) (metis mset_filter size_mset)

lemma gated_append: "gated e l1 \<Longrightarrow> gated e l2 \<Longrightarrow> gated e (l1 @ l2)"
  by (auto simp: gated_def intro: add_mono)

text \<open>What has been seen of an interleaving is an interleaving of what has been seen of each part.\<close>

lemma take_shuffles: "zs \<in> shuffles xs ys \<Longrightarrow> \<exists>i j. take n zs \<in> shuffles (take i xs) (take j ys)"
proof (induction xs ys arbitrary: zs n rule: shuffles.induct)
  case (3 x xs y ys)
  show ?case
  proof (cases n)
    case 0
    then show ?thesis by (intro exI [of _ 0]) simp
  next
    case (Suc m)
    from "3.prems" consider zs' where "zs = x # zs'" "zs' \<in> shuffles xs (y # ys)"
      | zs' where "zs = y # zs'" "zs' \<in> shuffles (x # xs) ys" by auto
    then show ?thesis
    proof cases
      case 1
      with "3.IH"(1) obtain i j where "take m zs' \<in> shuffles (take i xs) (take j (y # ys))" by blast
      with 1 Suc have "take n zs \<in> shuffles (take (Suc i) (x # xs)) (take j (y # ys))"
        by (simp add: Cons_in_shuffles_leftI)
      then show ?thesis by blast
    next
      case 2
      with "3.IH"(2) obtain i j where "take m zs' \<in> shuffles (take i (x # xs)) (take j ys)" by blast
      with 2 Suc have "take n zs \<in> shuffles (take i (x # xs)) (take (Suc j) (y # ys))"
        by (simp add: Cons_in_shuffles_rightI)
      then show ?thesis by blast
    qed
  qed
qed (auto intro: exI [of _ n])

lemma gated_weave:
  assumes "gated e xs" and "gated e ys"
  shows "gated e (weave turn xs ys)"
  unfolding gated_def
proof (intro allI impI)
  fix w sid assume p: "probed e w sid"
  have whole: "starts (weave turn xs ys) w sid = passes (weave turn xs ys) w sid"
    using starts_mset [of "weave turn xs ys" "xs @ ys" w sid] assms p by (simp add: gated_def)
  have "starts (take n (weave turn xs ys)) w sid \<le> passes (take n (weave turn xs ys)) w sid" for n
  proof -
    obtain i j where "take n (weave turn xs ys) \<in> shuffles (take i xs) (take j ys)"
      using take_shuffles [OF weave_shuffles] by blast
    from mset_shuffles [OF this] have "mset (take n (weave turn xs ys)) = mset (take i xs @ take j ys)" by simp
    from starts_mset [OF this, of w sid] assms p show ?thesis by (simp add: gated_def add_mono)
  qed
  with whole show "starts (weave turn xs ys) w sid = passes (weave turn xs ys) w sid \<and>
      (\<forall>n. starts (take n (weave turn xs ys)) w sid \<le> passes (take n (weave turn xs ys)) w sid)" by blast
qed

text \<open>What the failure path, a suspension and the beginning of a probe say is neither.\<close>

fun aside :: "event \<Rightarrow> bool" where
  "aside (ObserveStep _ _) = False"
| "aside (ObserveProbeOutcome _ _ _) = False"
| "aside _ = True"

lemma starts_aside: "list_all aside l \<Longrightarrow> starts l w sid = 0 \<and> passes l w sid = 0"
  by (induction l) auto

lemma gated_aside: "list_all aside l \<Longrightarrow> gated e l"
proof -
  assume "list_all aside l"
  then have "list_all aside (take n l)" for n by (auto simp: list_all_iff dest: in_set_takeD)
  with starts_aside show ?thesis unfolding gated_def by (metis le_refl take_all_iff)
qed

section \<open>Every leaf is gated\<close>

definition sees_probes :: "('w, 's) engine \<Rightarrow> bool" where
  "sees_probes e \<longleftrightarrow> (case eng_observer e of None \<Rightarrow> False | Some ob \<Rightarrow> obs_ProbeOutcome ob)"

lemma abandon_log: "abandon flow dn c cause rt = (r, rt') \<Longrightarrow> rt_log rt' = rt_log rt"
  by (cases cause) (auto simp: abandon_def split: if_splits prod.splits res.splits)

lemma observe_log: "aside ev \<Longrightarrow> \<exists>l. rt_log (observe e ev rt) = rt_log rt @ l \<and> list_all aside l"
  by (cases "\<exists>ob. eng_observer e = Some ob \<and> accepts ob ev")
    (auto simp: observe_def split: option.splits)

lemma divert_log:
  assumes "divert e flow s reason cur rt = (pr, rt')"
  shows "\<exists>l. rt_log rt' = rt_log rt @ l \<and> list_all aside l"
  using assms observe_log [of "ObserveCircuitBreaker (wf_WorkflowID flow) (step_ID s)" e rt]
  by (auto simp: divert_def Let_def split: res.splits prod.splits dest!: abandon_log)

lemma suspend_log:
  assumes "suspend h e flow sid reason aud c tr depth rt = (r, rt')"
  shows "\<exists>l. rt_log rt' = rt_log rt @ l \<and> list_all aside l"
proof -
  have "\<exists>l. rt_log (observe e (ObserveSuspension (wf_WorkflowID flow) sid) (rt\<lparr>rt_world := w, rt_store := s\<rparr>)) =
      rt_log rt @ l \<and> list_all aside l" for w s
    using observe_log [of "ObserveSuspension (wf_WorkflowID flow) sid" e "rt\<lparr>rt_world := w, rt_store := s\<rparr>"] by simp
  with assms show ?thesis
    by (auto simp: suspend_def Let_def split: if_splits option.splits prod.splits sum.splits)
qed

lemma run_action_log:
  assumes "run_action h e flow s depth cur rt = (pr, rt')" and "sees_probes e"
  shows "\<exists>l. rt_log rt' = rt_log rt @ ObserveStep (wf_WorkflowID flow) (leaf_StepID s) # l \<and> list_all aside l"
proof -
  obtain ob where "eng_observer e = Some ob" using assms(2) by (auto simp: sees_probes_def split: option.splits)
  then have ob: "observe e (ObserveStep (wf_WorkflowID flow) (leaf_StepID s)) rt =
      rt\<lparr>rt_log := rt_log rt @ [ObserveStep (wf_WorkflowID flow) (leaf_StepID s)]\<rparr>"
    by (simp add: observe_def)
  show ?thesis
    using assms(1) unfolding run_action_def Let_def ob
    by (auto split: prod.splits action_outcome.splits dest!: divert_log suspend_log)
qed

text \<open>The log of one leaf: its probe's beginning and outcome, if it declares one, then its action.\<close>

lemma gated_leaf:
  assumes "list_all aside l1" and "list_all aside l2" and "probed e w sid \<Longrightarrow> healthy"
  shows "gated e (l1 @ (if probed e w sid then [ObserveProbeOutcome w sid healthy] else []) @ ObserveStep w sid # l2)"
proof -
  have two: "gated e (if probed e w sid then [ObserveProbeOutcome w sid healthy, ObserveStep w sid] else [ObserveStep w sid])"
    using assms(3) by (auto simp: gated_def take_Cons split: nat.split)
  have "gated e (l1 @ (if probed e w sid then [ObserveProbeOutcome w sid healthy, ObserveStep w sid] else [ObserveStep w sid]) @ l2)"
    by (intro gated_append gated_aside [OF assms(1)] gated_aside [OF assms(2)] two)
  then show ?thesis by (simp split: if_splits)
qed

lemma exec_leaf_gated:
  assumes "exec_leaf h e flow s depth cur rt = (pr, rt')" and "sees_probes e"
    and reg: "eng_workflows e (wf_WorkflowID flow) = Some flow" "wf_Steps flow (leaf_StepID s) = Some (LeafStep s)"
  shows "\<exists>l. rt_log rt' = rt_log rt @ l \<and> gated e l"
proof -
  let ?w = "wf_WorkflowID flow" and ?sid = "leaf_StepID s"
  obtain ob where ob: "eng_observer e = Some ob" "obs_ProbeOutcome ob"
    using assms(2) by (auto simp: sees_probes_def split: option.splits)
  have p: "probed e ?w ?sid \<longleftrightarrow> leaf_SandboxProbeRef s \<noteq> []" using reg by (simp add: probed_def)
  show ?thesis
  proof (cases "leaf_SandboxProbeRef s = []")
    case True
    then have "run_action h e flow s depth cur rt = (pr, rt')" using assms(1) by (simp add: exec_leaf_def)
    from run_action_log [OF this assms(2)] obtain l where "rt_log rt' = rt_log rt @ ObserveStep ?w ?sid # l" "list_all aside l"
      by blast
    with gated_leaf [of "[]" l e ?w ?sid] p True show ?thesis by auto
  next
    case declares: False
    show ?thesis
    proof (cases "eng_sandbox e")
      case None
      with assms(1) declares show ?thesis using gated_aside [of "[]"] by (simp add: exec_leaf_def)
    next
      case (Some sb)
      define rt1 where "rt1 = observe e (ObserveSandboxProbe ?w ?sid) rt"
      obtain a w where a: "sb \<lparr>preq_ProbeRef = leaf_SandboxProbeRef s, preq_DomainID = wf_DomainID flow,
          preq_StepContext = cur_ctx cur\<rparr> (rt_world rt1) = (a, w)" by (metis surj_pair)
      obtain healthy reason where v: "probe_verdict a = (healthy, reason)" by force
      define rt2 where "rt2 = observe e (ObserveProbeOutcome ?w ?sid healthy) (rt1\<lparr>rt_world := w\<rparr>)"
      have log2: "rt_log rt2 = rt_log rt @ [ObserveSandboxProbe ?w ?sid, ObserveProbeOutcome ?w ?sid healthy]"
        using ob by (simp add: rt2_def rt1_def observe_def)
      have ex: "(if \<not> healthy then divert e flow (LeafStep s) reason cur rt2
          else run_action h e flow s depth cur rt2) = (pr, rt')"
        using assms(1) declares Some a v by (cases healthy) (simp_all add: exec_leaf_def Let_def rt1_def rt2_def)
      show ?thesis
      proof (cases healthy)
        case True
        then have "run_action h e flow s depth cur rt2 = (pr, rt')" using ex by simp
        from run_action_log [OF this assms(2)] obtain l
          where "rt_log rt' = rt_log rt2 @ ObserveStep ?w ?sid # l" "list_all aside l" by blast
        with log2 True p declares gated_leaf [of "[ObserveSandboxProbe ?w ?sid]" l e ?w ?sid True]
        show ?thesis by auto
      next
        case False
        with ex divert_log obtain l where "rt_log rt' = rt_log rt2 @ l" "list_all aside l" by force
        moreover have "gated e [ObserveSandboxProbe ?w ?sid, ObserveProbeOutcome ?w ?sid False]"
          by (auto simp: gated_def take_Cons split: nat.split)
        ultimately show ?thesis using log2 False
            gated_append [OF _ gated_aside, of e "[ObserveSandboxProbe ?w ?sid, ObserveProbeOutcome ?w ?sid False]" l] by simp
      qed
    qed
  qed
qed

interpretation gate: step_relation h e d0
  "\<lambda>rt rt'. engine_wf e \<and> sees_probes e \<longrightarrow> (\<exists>l. rt_log rt' = rt_log rt @ l \<and> gated e l)" for h e d0
proof unfold_locales
  fix rt1 rt2 rt3 :: "('a, 'b) rt"
  assume "engine_wf e \<and> sees_probes e \<longrightarrow> (\<exists>l. rt_log rt2 = rt_log rt1 @ l \<and> gated e l)"
    and "engine_wf e \<and> sees_probes e \<longrightarrow> (\<exists>l. rt_log rt3 = rt_log rt2 @ l \<and> gated e l)"
  then show "engine_wf e \<and> sees_probes e \<longrightarrow> (\<exists>l. rt_log rt3 = rt_log rt1 @ l \<and> gated e l)"
    using gated_append by fastforce
next
  fix ref flow s reason cur pr and rt rt' :: "('a, 'b) rt"
  assume "eng_workflows e ref = Some flow" "divert e flow s reason cur rt = (pr, rt')"
  then show "engine_wf e \<and> sees_probes e \<longrightarrow> (\<exists>l. rt_log rt' = rt_log rt @ l \<and> gated e l)"
    using divert_log gated_aside by metis
next
  fix depth ref flow sid leaf cur pr and rt rt' :: "('a, 'b) rt"
  assume a: "eng_workflows e ref = Some flow" "wf_Steps flow sid = Some (LeafStep leaf)"
    "exec_leaf h e flow leaf depth cur rt = (pr, rt')"
  show "engine_wf e \<and> sees_probes e \<longrightarrow> (\<exists>l. rt_log rt' = rt_log rt @ l \<and> gated e l)"
  proof
    assume e: "engine_wf e \<and> sees_probes e"
    with a(1,2) have "wf_WorkflowID flow = ref" "leaf_StepID leaf = sid"
      unfolding engine_wf_def workflow_wf_def by fastforce+
    with a e show "\<exists>l. rt_log rt' = rt_log rt @ l \<and> gated e l"
      by (intro exec_leaf_gated) auto
  qed
next
  fix rt0 rt1 rt2 :: "('a, 'b) rt"
  assume "engine_wf e \<and> sees_probes e \<longrightarrow> (\<exists>l. rt_log rt1 = rt_log rt0 @ l \<and> gated e l)"
    and "engine_wf e \<and> sees_probes e \<longrightarrow> (\<exists>l. rt_log rt2 = rt_log rt1 @ l \<and> gated e l)"
  then show "engine_wf e \<and> sees_probes e \<longrightarrow>
      (\<exists>l. rt_log (weave_log h (length (rt_log rt0)) (length (rt_log rt1)) rt2) = rt_log rt0 @ l \<and> gated e l)"
    using gated_weave by fastforce
qed (auto intro: gated_aside)


text \<open>A fan-out in which the other branch's call comes between the probe's verdict and the start it admits.\<close>

definition between_host :: "journal host" where
  "between_host = sample_host\<lparr>host_turn := (\<lambda>xs ys. 1 < length xs)\<rparr>"

definition probed_fan :: "(journal, memory_store) engine" where
  "probed_fan =
     RegisterWorkflow (sample_flow ''main'' ''fan'' [ParallelStep \<lparr>par_StepID = ''fan'', par_Branches = [''probed'', ''plain''],
       par_CircuitBreakerPolicyRef = [], par_OnSuccess = []\<rparr>])
     (RegisterWorkflow (sample_flow ''plain'' ''b'' [LeafStep (sample_leaf ''b'' (writes ''y'' ''2'') [])]) probed_engine)"

definition probed_fan_log :: "event list" where
  "probed_fan_log = [ObserveSandboxProbe ''probed'' ''a'', ObserveProbeOutcome ''probed'' ''a'' True, ObserveStep ''plain'' ''b'',
     ObserveStep ''probed'' ''a'']"


end
