(* ===== verification/Resume.thy ===== *)
theory Resume
  imports Engine Store
begin

text \<open>
  Resuming a suspended run (\<open>execution/authorize.go\<close>, \<open>Resume\<close> and \<open>ResumeAs\<close> of
  \<open>execution/engine.go\<close>): validate without claiming, authorize, claim, run on, release.
\<close>

definition unconfigured_reason :: string where
  "unconfigured_reason =
     ''this suspension declares an audience but no Authorizer is configured; call Engine.SetAuthorizer''"

definition authorize :: "('w, 's) engine \<Rightarrow> state \<Rightarrow> string \<Rightarrow> 'w \<Rightarrow> exec_error option \<times> 'w" where
  "authorize e st identity w =
     (if st_Audience st = [] then (None, w)
      else
        (let attempt = \<lparr>att_Audience = st_Audience st, att_Identity = identity,
                        att_WorkflowID = st_WorkflowID st, att_StepID = st_StepID st,
                        att_Reason = st_Reason st\<rparr>;
             denied = NotAuthorized (st_Audience st) identity (st_WorkflowID st)
         in case eng_authorizer e of
              None \<Rightarrow> (Some (denied unconfigured_reason), w)
            | Some authorizer \<Rightarrow>
                (case authorizer attempt w of
                   ((ok, reason, Some err), w1) \<Rightarrow>
                     (Some (denied (''authorization check failed: '' @ err)), w1)
                 | ((ok, reason, None), w1) \<Rightarrow>
                     (if \<not> ok then Some (denied reason) else None, w1))))"

text \<open>
  \<open>ResumeAs\<close> returns a result and an error side by side: the one case with both is a finished run
  whose claim could not be released. \<open>Panicked\<close> is a panic of the resumed run.
\<close>

datatype 'a returned = Returns 'a | Panicked string

type_synonym resume_result = "(workflow_result \<times> exec_error option) returned"

definition refused :: "exec_error \<Rightarrow> resume_result" where
  "refused err = Returns (empty_result, Some err)"

text \<open>Everything before the claim: the leaf to continue from, or the error to return.\<close>

definition check_resume :: "('w, 's) engine \<Rightarrow> 's store \<Rightarrow> string \<Rightarrow> string \<Rightarrow> ('w, 's) rt \<Rightarrow>
    (exec_error + 'w leaf_step) \<times> ('w, 's) rt" where
  "check_resume e store pointer identity rt =
     (case store_Load store pointer (rt_store rt) of
        Inl err \<Rightarrow> (Inl (PlainError err), rt)
      | Inr st \<Rightarrow>
          (case eng_workflows e (st_WorkflowID st) of
             None \<Rightarrow> (Inl (PlainError (''suspended workflow '' @ quoted (st_WorkflowID st) @
                        '' is no longer registered'')), rt)
           | Some flow \<Rightarrow>
               (case wf_Steps flow (st_StepID st) of
                  None \<Rightarrow> (Inl (PlainError (''workflow '' @ quoted (st_WorkflowID st) @
                        '' no longer has the suspended step '' @ quoted (st_StepID st))), rt)
                | Some (LeafStep leaf) \<Rightarrow>
                    (case authorize e st identity (rt_world rt) of
                       (Some err, w) \<Rightarrow> (Inl err, rt\<lparr>rt_world := w\<rparr>)
                     | (None, w) \<Rightarrow> (Inr leaf, rt\<lparr>rt_world := w\<rparr>))
                | Some _ \<Rightarrow> (Inl (PlainError (''suspended step '' @ quoted (st_StepID st) @
                        '' is no longer a leaf step'')), rt))))"

definition resume_ctx :: "state \<Rightarrow> ctx \<Rightarrow> string \<Rightarrow> ctx" where
  "resume_ctx claimed resolution identity =
     (let c = gmerge (st_Ctx claimed) resolution
      in if identity \<noteq> [] then gput ResumedByKey (GStr identity) c else c)"

text \<open>After the claim: run on from the leaf's successor, then release, then join the traces.\<close>

definition continue_claimed :: "'w host \<Rightarrow> ('w, 's) engine \<Rightarrow> 's store \<Rightarrow> string \<Rightarrow> string \<Rightarrow> ctx \<Rightarrow>
    'w leaf_step \<Rightarrow> state \<Rightarrow> ('w, 's) rt \<Rightarrow> resume_result \<times> ('w, 's) rt" where
  "continue_claimed h e store pointer identity resolution leaf claimed rt =
     (case runFrom h e 0 (st_WorkflowID claimed) (leaf_OnSuccess leaf)
             (resume_ctx claimed resolution identity) rt of
        (Panic p, rt1) \<Rightarrow> (Panicked p, rt1)
      | (Ok r, rt1) \<Rightarrow>
          (case store_Release store pointer (rt_store rt1) of
             (Some releaseErr, s1) \<Rightarrow>
               (Returns (r, Some (PlainError (''run finished but its claim could not be released: '' @ releaseErr))),
                rt1\<lparr>rt_store := s1\<rparr>)
           | (None, s1) \<Rightarrow>
               (Returns (r\<lparr>wr_Trace := st_Trace claimed @ wr_Trace r\<rparr>, None), rt1\<lparr>rt_store := s1\<rparr>))
      | (Err err, rt1) \<Rightarrow>
          (case store_Release store pointer (rt_store rt1) of
             (_, s1) \<Rightarrow>
               (Returns (empty_result\<lparr>wr_Trace := st_Trace claimed\<rparr>, Some err), rt1\<lparr>rt_store := s1\<rparr>)))"

definition ResumeAs :: "'w host \<Rightarrow> ('w, 's) engine \<Rightarrow> string \<Rightarrow> string \<Rightarrow> ctx \<Rightarrow> ('w, 's) rt \<Rightarrow>
    resume_result \<times> ('w, 's) rt" where
  "ResumeAs h e pointer identity resolution rt =
     (case eng_store e of
        None \<Rightarrow> (refused (PlainError ''no Store is configured; call Engine.SetStore first''), rt)
      | Some store \<Rightarrow>
          (case check_resume e store pointer identity rt of
             (Inl err, rt1) \<Rightarrow> (refused err, rt1)
           | (Inr leaf, rt1) \<Rightarrow>
               (case store_Consume store pointer (rt_store rt1) of
                  (Inl err, s1) \<Rightarrow>
                    (refused (PlainError (''could not claim resume pointer: '' @ err)), rt1\<lparr>rt_store := s1\<rparr>)
                | (Inr claimed, s1) \<Rightarrow>
                    continue_claimed h e store pointer identity resolution leaf claimed
                      (rt1\<lparr>rt_store := s1\<rparr>))))"

definition Resume :: "'w host \<Rightarrow> ('w, 's) engine \<Rightarrow> string \<Rightarrow> ctx \<Rightarrow> ('w, 's) rt \<Rightarrow>
    resume_result \<times> ('w, 's) rt" where
  "Resume h e pointer resolution rt = ResumeAs h e pointer [] resolution rt"

end
