(* ===== verification/Pipelines.thy ===== *)
theory Pipelines
  imports EngineFacts Resume Samples
begin

text \<open>
  What a run computes, on chains of leaves: a reference semantics in which the actions are folded
  over the context, and the engine's loop refining it in the three ways a chain can end: at the end
  of the workflow, at a step that fails with no fallback (the saga), at a step that suspends.
\<close>

section \<open>The reference semantics\<close>

fun fold_actions :: "'w leaf_step list \<Rightarrow> ctx \<Rightarrow> 'w \<Rightarrow> (ctx \<times> 'w) option" where
  "fold_actions [] c w = Some (c, w)"
| "fold_actions (l # ls) c w =
     (case leaf_Run l c w of (Output out, w') \<Rightarrow> fold_actions ls (gmerge c out) w' | _ \<Rightarrow> None)"

fun chained :: "'w workflow \<Rightarrow> string \<Rightarrow> 'w leaf_step list \<Rightarrow> string \<Rightarrow> bool" where
  "chained flow sid [] goal \<longleftrightarrow> sid = goal"
| "chained flow sid (l # ls) goal \<longleftrightarrow>
     sid \<noteq> [] \<and> wf_Steps flow sid = Some (LeafStep l) \<and> leaf_SandboxProbeRef l = [] \<and>
     chained flow (leaf_OnSuccess l) ls goal"

definition completed_by :: "'w leaf_step list \<Rightarrow> completed list" where
  "completed_by ls =
     map (\<lambda>l. \<lparr>done_stepID = leaf_StepID l, done_compensateStep = leaf_CompensateStepRef l\<rparr>)
       (filter (\<lambda>l. leaf_CompensateStepRef l \<noteq> []) ls)"

lemma completed_by_Cons:
  "completed_by (l # ls) = completed_by [l] @ completed_by ls"
  by (simp add: completed_by_def)

text \<open>The loop follows the chain: same context, same world, the completed steps noted in order.\<close>

lemma run_loop_chain:
  assumes "chained flow (cur_step cur) ls goal" and "fold_actions ls (cur_ctx cur) (rt_world rt) = Some (c', w')"
    and "steps + int (length ls) \<le> eng_maxSteps e"
  shows "\<exists>rt'. rt_world rt' = w' \<and> rt_store rt' = rt_store rt \<and>
    run_loop sub h e flow ref depth steps cur rt =
    run_loop sub h e flow ref depth (steps + int (length ls))
      (cur\<lparr>cur_step := goal, cur_ctx := c', cur_done := cur_done cur @ completed_by ls,
           cur_trace := cur_trace cur @ map leaf_StepID ls\<rparr>) rt'"
  using assms
proof (induction ls arbitrary: cur steps rt)
  case Nil
  then show ?case by (cases cur) (auto simp: completed_by_def intro!: exI [of _ rt])
next
  case (Cons l ls)
  let ?cur = "visit cur (LeafStep l)" and ?rt = "observe e (ObserveStep (wf_WorkflowID flow) (leaf_StepID l)) rt"
  obtain oc w1 where "leaf_Run l (cur_ctx cur) (rt_world rt) = (oc, w1)" by force
  with Cons.prems(2) obtain out where r: "leaf_Run l (cur_ctx cur) (rt_world rt) = (Output out, w1)"
    by (cases oc) auto
  let ?next = "?cur\<lparr>cur_step := leaf_OnSuccess l, cur_ctx := gmerge (cur_ctx cur) out,
      cur_done := cur_done cur @ completed_by [l]\<rparr>"
  have step: "exec_step sub h e flow depth (LeafStep l) ?cur rt = (Next ?next, ?rt\<lparr>rt_world := w1\<rparr>)"
    using Cons.prems(1) r by (simp add: exec_leaf_def run_action_def Let_def completed_by_def)
  have loop: "run_loop sub h e flow ref depth steps cur rt =
      run_loop sub h e flow ref depth (steps + 1) ?next (?rt\<lparr>rt_world := w1\<rparr>)"
    using Cons.prems by (intro run_loop_next [where s = "LeafStep l", OF _ _ _ step]) auto
  have ch: "chained flow (cur_step ?next) ls goal" using Cons.prems(1) by simp
  have fo: "fold_actions ls (cur_ctx ?next) (rt_world (?rt\<lparr>rt_world := w1\<rparr>)) = Some (c', w')"
    using Cons.prems(2) r by simp
  have st: "steps + 1 + int (length ls) \<le> eng_maxSteps e" using Cons.prems(3) by simp
  from Cons.IH [OF ch fo st] obtain rt' where "rt_world rt' = w'" "rt_store rt' = rt_store rt" and
    "run_loop sub h e flow ref depth (steps + 1) ?next (?rt\<lparr>rt_world := w1\<rparr>) =
      run_loop sub h e flow ref depth (steps + 1 + int (length ls))
      (?next\<lparr>cur_step := goal, cur_ctx := c', cur_done := cur_done ?next @ completed_by ls,
           cur_trace := cur_trace ?next @ map leaf_StepID ls\<rparr>) rt'"
    by auto
  moreover have "steps + 1 + int (length ls) = steps + int (length (l # ls))" by simp
  ultimately show ?case unfolding loop completed_by_Cons [of l ls]
    by (intro exI [of _ rt']) simp
qed

text \<open>The state of the loop when the chain has been followed from the entry step.\<close>

definition after_chain :: "string \<Rightarrow> ctx \<Rightarrow> 'w leaf_step list \<Rightarrow> cursor" where
  "after_chain goal c ls =
     \<lparr>cur_step = goal, cur_ctx = c, cur_done = completed_by ls, cur_trace = map leaf_StepID ls\<rparr>"

lemma runFrom_chain:
  assumes "eng_workflows e ref = Some flow" and "depth \<le> eng_maxDepth e"
    and "chained flow (if start = [] then wf_EntryStepID flow else start) ls goal"
    and "fold_actions ls c (rt_world rt) = Some (c', w')" and "int (length ls) \<le> eng_maxSteps e"
  shows "\<exists>rt'. rt_world rt' = w' \<and> rt_store rt' = rt_store rt \<and>
    runFrom h e depth ref start c rt =
    run_loop (\<lambda>ref c' rt'. runFrom h e (depth + 1) ref [] c' rt') h e flow ref depth (int (length ls))
      (after_chain goal c' ls) rt'"
  using run_loop_chain [where cur = "start_cursor (if start = [] then wf_EntryStepID flow else start) c"
      and steps = 0 and rt = rt and flow = flow and ls = ls and goal = goal and c' = c' and w' = w' and e = e] assms
  by (simp add: runFrom.simps [of h e depth] start_cursor_def after_chain_def)

text \<open>A step that ends the run at the end of a chain.\<close>

lemma run_chain_halt:
  assumes "eng_workflows e ref = Some flow" and "limits_positive e"
    and "chained flow (wf_EntryStepID flow) ls goal" and "goal \<noteq> []" and "wf_Steps flow goal = Some s"
    and "fold_actions ls c (rt_world rt) = Some (c1, w1)" and "int (length ls) < eng_maxSteps e"
    and step: "\<And>sub rt1. rt_world rt1 = w1 \<Longrightarrow> rt_store rt1 = rt_store rt \<Longrightarrow>
      \<exists>rt2. exec_step sub h e flow 0 s (visit (after_chain goal c1 ls) s) rt1 = (Halt r, rt2) \<and> P rt2"
  shows "\<exists>rt2. Run h e ref c rt = (r, rt2) \<and> P rt2"
proof -
  have "0 \<le> eng_maxDepth e" using assms(2) by (simp add: limits_positive_def)
  from runFrom_chain [OF assms(1) this, of "[]" ls goal c rt c1 w1 h] assms(3,6,7)
  obtain rt1 where rt1: "rt_world rt1 = w1" "rt_store rt1 = rt_store rt" and run: "Run h e ref c rt =
    run_loop (\<lambda>ref c' rt'. runFrom h e 1 ref [] c' rt') h e flow ref 0 (int (length ls)) (after_chain goal c1 ls) rt1"
    by (auto simp: Run_def run_at_def)
  from step [OF rt1] obtain rt2 where st: "exec_step (\<lambda>ref c' rt'. runFrom h e 1 ref [] c' rt') h e flow 0 s
      (visit (after_chain goal c1 ls) s) rt1 = (Halt r, rt2)" "P rt2" by blast
  have "Run h e ref c rt = (r, rt2)"
    unfolding run by (rule run_loop_halt [OF _ _ _ st(1)]) (use assms(4,5,7) in \<open>simp_all add: after_chain_def\<close>)
  with st(2) show ?thesis by blast
qed

section \<open>A pipeline that completes\<close>

text \<open>
  C10. A chain of steps that all succeed computes the fold of their actions over the context: that is
  its output, its trace is the steps in order, nothing is parked, and the world is what the actions
  made of it.
\<close>

theorem pipeline_run:
  assumes "eng_workflows e ref = Some flow" and "limits_positive e"
    and "chained flow (wf_EntryStepID flow) ls []"
    and "fold_actions ls c (rt_world rt) = Some (c', w')" and "int (length ls) \<le> eng_maxSteps e"
  shows "fst (Run h e ref c rt) = Ok \<lparr>wr_Output = c', wr_StatePointer = [], wr_Trace = map leaf_StepID ls\<rparr> \<and>
    rt_world (snd (Run h e ref c rt)) = w' \<and> rt_store (snd (Run h e ref c rt)) = rt_store rt"
proof -
  have "0 \<le> eng_maxDepth e" using assms(2) by (simp add: limits_positive_def)
  from runFrom_chain [OF assms(1) this, of "[]" ls "[]" c rt c' w' h] assms(3-5) show ?thesis
    by (auto simp: Run_def run_at_def run_loop_done after_chain_def)
qed

lemma pipeline_run_witness: "fst (Run sample_host ask_engine ''pipe'' [] sample_rt) =
  Ok \<lparr>wr_Output = [(''x'', GStr ''1''), (''y'', GStr ''2'')], wr_StatePointer = [], wr_Trace = [''a'', ''b'']\<rparr>"
proof -
  have "eng_workflows ask_engine ''pipe'' = Some pipe_flow" "chained pipe_flow (wf_EntryStepID pipe_flow) pipe_leaves []"
    "int (length pipe_leaves) \<le> eng_maxSteps ask_engine" "map leaf_StepID pipe_leaves = [''a'', ''b'']"
    "fold_actions pipe_leaves [] (rt_world sample_rt) = Some ([(''x'', GStr ''1''), (''y'', GStr ''2'')], [''x'', ''y''])"
    by (simp_all add: sample_flow_defs sample_defs)
  then show ?thesis
    using pipeline_run [of ask_engine "''pipe''" pipe_flow pipe_leaves "[]" sample_rt _ _ sample_host] by simp
qed

section \<open>A saga\<close>

text \<open>A leaf that fails: its own error, or a refusal that its probe reported; no fallback is declared.\<close>

definition no_fallback :: "('w, 's) engine \<Rightarrow> 'w step \<Rightarrow> bool" where
  "no_fallback e s \<longleftrightarrow>
     circuitBreakerPolicyRef s = [] \<or>
     (case eng_policies e (circuitBreakerPolicyRef s) of None \<Rightarrow> True | Some p \<Rightarrow> pol_FallbackStepRef p = [])"

lemma no_fallback_onFailure:
  "no_fallback e s \<Longrightarrow> onFailure e s reason c = Err (CircuitBreakerTripped (step_ID s) reason [] [])"
  by (auto simp: no_fallback_def onFailure_def Let_def split: option.splits)

lemma unwind_Nil [simp]: "unwind flow [] c w = (Ok ([], []), w)"
  by (simp add: unwind_def)

lemma abandon_tripped:
  "abandon flow dn c (CircuitBreakerTripped sid reason [] []) rt =
     (case unwind flow dn c (rt_world rt) of
        (Ok (undone, failures), w) \<Rightarrow> (Err (CircuitBreakerTripped sid reason undone failures), rt\<lparr>rt_world := w\<rparr>)
      | (Err e, w) \<Rightarrow> (Err e, rt\<lparr>rt_world := w\<rparr>)
      | (Panic p, w) \<Rightarrow> (Panic p, rt\<lparr>rt_world := w\<rparr>))"
  by (auto simp: abandon_def)

text \<open>
  What a saga is about, said of any workflow: \<open>admit\<close> is the world in which the action of a leaf
  starts, if its probe lets it start; \<open>just_done\<close> what a visited step leaves to be undone, which is a
  leaf that declares a compensation and whose action succeeded; \<open>breaks\<close> the four ways in which a step
  can fail: its probe refuses, its action fails, its sub-workflow fails, its fan-out fails.
\<close>

definition admit :: "('w, 's) engine \<Rightarrow> 'w workflow \<Rightarrow> 'w leaf_step \<Rightarrow> ctx \<Rightarrow> 'w \<Rightarrow> 'w option" where
  "admit e flow l c w =
     (if leaf_SandboxProbeRef l = [] then Some w
      else case eng_sandbox e of
        None \<Rightarrow> None
      | Some sb \<Rightarrow>
          (case sb \<lparr>preq_ProbeRef = leaf_SandboxProbeRef l, preq_DomainID = wf_DomainID flow, preq_StepContext = c\<rparr> w of
             (answer, w') \<Rightarrow> if fst (probe_verdict answer) then Some w' else None))"

fun just_done :: "('w, 's) engine \<Rightarrow> 'w workflow \<Rightarrow> 'w step \<Rightarrow> ctx \<Rightarrow> 'w \<Rightarrow> completed list" where
  "just_done e flow (LeafStep l) c w =
     (case admit e flow l c w of
        Some w' \<Rightarrow> (case leaf_Run l c w' of (Output out, w'') \<Rightarrow> completed_by [l] | _ \<Rightarrow> [])
      | None \<Rightarrow> [])"
| "just_done e flow s c w = []"

inductive breaks :: "('w, 's) runner \<Rightarrow> 'w host \<Rightarrow> ('w, 's) engine \<Rightarrow> 'w workflow \<Rightarrow> 'w step \<Rightarrow> ctx \<Rightarrow>
    ('w, 's) rt \<Rightarrow> string \<Rightarrow> 'w \<Rightarrow> 's \<Rightarrow> bool" for sub h e flow where
  refused: "leaf_SandboxProbeRef l \<noteq> [] \<Longrightarrow> eng_sandbox e = Some sb \<Longrightarrow>
    sb \<lparr>preq_ProbeRef = leaf_SandboxProbeRef l, preq_DomainID = wf_DomainID flow, preq_StepContext = c\<rparr> (rt_world rt) =
      (answer, w) \<Longrightarrow> probe_verdict answer = (False, reason) \<Longrightarrow>
    breaks sub h e flow (LeafStep l) c rt reason w (rt_store rt)"
| failing: "admit e flow l c (rt_world rt) = Some w \<Longrightarrow> leaf_Run l c w = (Fails reason, w') \<Longrightarrow>
    breaks sub h e flow (LeafStep l) c rt reason w' (rt_store rt)"
| failing_below: "sub (comp_SubWorkflowRef cs) c rt = (Err err, rt') \<Longrightarrow> \<not> bypassesBreaker err \<Longrightarrow>
    breaks sub h e flow (CompositeStep cs) c rt (error_text err) (rt_world rt') (rt_store rt')"
| failing_aside: "runParallel sub h flow ps c rt = (Err err, rt') \<Longrightarrow> \<not> bypassesBreaker err \<Longrightarrow>
    breaks sub h e flow (ParallelStep ps) c rt (error_text err) (rt_world rt') (rt_store rt')"

text \<open>
  The loop from where it starts: \<open>reaches \<dots> n dn cur rt\<close> says that \<open>n\<close> steps of any kind, fallbacks
  included, lead to the cursor \<open>cur\<close>, and that \<open>dn\<close> are the steps done on the way that can be undone.
\<close>

inductive reaches :: "('w, 's) runner \<Rightarrow> 'w host \<Rightarrow> ('w, 's) engine \<Rightarrow> 'w workflow \<Rightarrow> int \<Rightarrow> string \<Rightarrow> ctx \<Rightarrow> ('w, 's) rt \<Rightarrow>
    int \<Rightarrow> completed list \<Rightarrow> cursor \<Rightarrow> ('w, 's) rt \<Rightarrow> bool" for sub h e flow depth start c rt0 where
  entry: "reaches sub h e flow depth start c rt0 0 [] (start_cursor start c) rt0"
| moves_on: "reaches sub h e flow depth start c rt0 n dn cur rt \<Longrightarrow>
    cur_step cur \<noteq> [] \<Longrightarrow> n < eng_maxSteps e \<Longrightarrow> wf_Steps flow (cur_step cur) = Some s \<Longrightarrow>
    exec_step sub h e flow depth s (visit cur s) rt = (Next cur', rt') \<Longrightarrow>
    reaches sub h e flow depth start c rt0 (n + 1) (dn @ just_done e flow s (cur_ctx cur) (rt_world rt)) cur' rt'"

lemma divert_done: "divert e flow s reason cur rt = (Next cur', rt') \<Longrightarrow> cur_done cur' = cur_done cur"
  by (auto simp: divert_def Let_def split: res.splits prod.splits)

lemma run_action_done:
  "run_action h e flow l depth cur rt = (Next cur', rt') \<Longrightarrow>
   cur_done cur' = cur_done cur @
     (case leaf_Run l (cur_ctx cur) (rt_world rt) of (Output out, w) \<Rightarrow> completed_by [l] | _ \<Rightarrow> [])"
  by (auto simp: run_action_def Let_def completed_by_def dest: divert_done split: prod.splits action_outcome.splits)

lemma exec_leaf_done:
  assumes "exec_leaf h e flow l depth cur rt = (Next cur', rt')"
  shows "cur_done cur' = cur_done cur @ just_done e flow (LeafStep l) (cur_ctx cur) (rt_world rt)"
proof (cases "leaf_SandboxProbeRef l = []")
  case True
  with assms show ?thesis by (auto simp: exec_leaf_def admit_def dest: run_action_done)
next
  case False
  with assms obtain sb where sb: "eng_sandbox e = Some sb" by (auto simp: exec_leaf_def split: option.splits)
  obtain answer w where a: "sb \<lparr>preq_ProbeRef = leaf_SandboxProbeRef l, preq_DomainID = wf_DomainID flow,
      preq_StepContext = cur_ctx cur\<rparr> (rt_world rt) = (answer, w)" by (metis surj_pair)
  show ?thesis
    using assms False sb a
    by (auto simp: exec_leaf_def admit_def Let_def split: prod.splits if_splits dest: run_action_done divert_done)
qed

lemma exec_step_done:
  "exec_step sub h e flow depth s cur rt = (Next cur', rt') \<Longrightarrow>
   cur_done cur' = cur_done cur @ just_done e flow s (cur_ctx cur) (rt_world rt)"
  by (cases s) (auto simp: exec_composite_def exec_parallel_def dest: exec_leaf_done divert_done
      split: prod.splits res.splits if_splits)

lemma reaches_loop:
  "reaches sub h e flow depth start c rt0 n dn cur rt \<Longrightarrow>
   cur_done cur = dn \<and>
   run_loop sub h e flow ref depth 0 (start_cursor start c) rt0 = run_loop sub h e flow ref depth n cur rt"
proof (induction rule: reaches.induct)
  case (moves_on n dn cur rt s cur' rt')
  then show ?case using exec_step_done [OF moves_on.hyps(5)] by (simp add: run_loop_next)
qed (simp add: start_cursor_def)

lemma divert_abandons:
  assumes "no_fallback e s" and "unwind flow (cur_done cur) (cur_ctx cur) (rt_world rt) = (u, w)"
  shows "\<exists>rt'. divert e flow s reason cur rt =
      (Halt (case u of Ok (undone, failures) \<Rightarrow> Err (CircuitBreakerTripped (step_ID s) reason undone failures)
         | Err x \<Rightarrow> Err x | Panic p \<Rightarrow> Panic p), rt') \<and> rt_world rt' = w \<and> rt_store rt' = rt_store rt"
  using assms(2) no_fallback_onFailure [OF assms(1)]
  by (auto simp: divert_def Let_def abandon_tripped split: res.split prod.split)

lemma breaks_abandons:
  assumes "breaks sub h e flow s (cur_ctx cur) rt reason w st" and "no_fallback e s"
    and "unwind flow (cur_done cur) (cur_ctx cur) w = (u, w')"
  shows "\<exists>rt'. exec_step sub h e flow depth s (visit cur s) rt =
      (Halt (case u of Ok (undone, failures) \<Rightarrow> Err (CircuitBreakerTripped (step_ID s) reason undone failures)
         | Err x \<Rightarrow> Err x | Panic p \<Rightarrow> Panic p), rt') \<and> rt_world rt' = w' \<and> rt_store rt' = st"
  using assms(1)
proof cases
  case (refused l sb answer)
  then show ?thesis
    using divert_abandons [OF assms(2), of flow "visit cur s" "observe e (ObserveProbeOutcome (wf_WorkflowID flow) (leaf_StepID l) False)
        (observe e (ObserveSandboxProbe (wf_WorkflowID flow) (leaf_StepID l)) rt\<lparr>rt_world := w\<rparr>)" u w' reason] assms(3)
    by (auto simp: exec_leaf_def Let_def)
next
  case (failing l v)
  have "\<exists>rt1. exec_leaf h e flow l depth (visit cur s) rt = run_action h e flow l depth (visit cur s) rt1 \<and>
      rt_world rt1 = v \<and> rt_store rt1 = rt_store rt"
    using failing(3)
    by (auto simp: exec_leaf_def admit_def Let_def split: if_splits option.splits prod.splits intro!: exI conjI [OF refl])
  then obtain rt1 where rt1: "rt_world rt1 = v" "rt_store rt1 = rt_store rt"
    "exec_leaf h e flow l depth (visit cur s) rt = run_action h e flow l depth (visit cur s) rt1" by blast
  have "run_action h e flow l depth (visit cur s) rt1 = divert e flow s reason (visit cur s)
      (observe e (ObserveStep (wf_WorkflowID flow) (leaf_StepID l)) rt1\<lparr>rt_world := w\<rparr>)"
    using failing rt1 by (simp add: run_action_def Let_def)
  with divert_abandons [OF assms(2), of flow "visit cur s"
      "observe e (ObserveStep (wf_WorkflowID flow) (leaf_StepID l)) rt1\<lparr>rt_world := w\<rparr>" u w' reason] assms(3) failing rt1
  show ?thesis by auto
next
  case (failing_below cs err rt')
  then show ?thesis using divert_abandons [OF assms(2), of flow "visit cur s" rt' u w' reason] assms(3)
    by (auto simp: exec_composite_def)
next
  case (failing_aside ps err rt')
  then show ?thesis using divert_abandons [OF assms(2), of flow "visit cur s" rt' u w' reason] assms(3)
    by (auto simp: exec_parallel_def)
qed

text \<open>
  C3. The saga. Let a run of a workflow, at whatever depth and from whatever step, get over steps of any
  kind and any fallbacks to a step that fails (its probe refuses it, its action fails, or its
  sub-workflow or fan-out fails with an error the breaker handles) and has no fallback. Then the leaves
  of this workflow completed since this run of it started are undone, if they declare a compensation,
  the last one first, on the context the failing step saw: the run ends in the breaker's error for that
  step with that reason, and what the error lists as undone and as failed to undo, together, are
  exactly those leaves. If none failed to undo, all were undone in that order, each compensation seeing what
  the ones before it wrote. If a compensation panics, the run panics. Steps completed before a
  suspension, or inside sub-workflows and branches, are not among those undone.
\<close>

theorem saga_run:
  assumes "eng_workflows e ref = Some flow" and "depth \<le> eng_maxDepth e"
    and "reaches (\<lambda>ref c' rt'. runFrom h e (depth + 1) ref [] c' rt') h e flow depth
      (if start = [] then wf_EntryStepID flow else start) c rt0 n dn cur rt"
    and "cur_step cur \<noteq> []" and "n < eng_maxSteps e" and "wf_Steps flow (cur_step cur) = Some s"
    and "breaks (\<lambda>ref c' rt'. runFrom h e (depth + 1) ref [] c' rt') h e flow s (cur_ctx cur) rt reason w1 st"
    and "no_fallback e s"
    and "unwind flow dn (cur_ctx cur) w1 = (u, w2)"
  shows "rt_world (snd (runFrom h e depth ref start c rt0)) = w2 \<and> rt_store (snd (runFrom h e depth ref start c rt0)) = st \<and>
    ((\<exists>p. u = Panic p \<and> fst (runFrom h e depth ref start c rt0) = Panic p) \<or>
     (\<exists>undone failures. u = Ok (undone, failures) \<and>
       fst (runFrom h e depth ref start c rt0) = Err (CircuitBreakerTripped (step_ID s) reason undone failures) \<and>
       shuffle_of (rev dn) undone failures \<and>
       (failures = [] \<longrightarrow> undone = map done_stepID (rev dn) \<and> w2 = snd (undo_in_order flow (rev dn) (cur_ctx cur) w1))))"
proof -
  let ?sub = "\<lambda>ref c' rt'. runFrom h e (depth + 1) ref [] c' rt'"
  note at = reaches_loop [OF assms(3), of ref]
  from breaks_abandons [OF assms(7,8), of u w2 depth] at assms(9) obtain rt' where
    ex: "exec_step ?sub h e flow depth s (visit cur s) rt =
      (Halt (case u of Ok (undone, failures) \<Rightarrow> Err (CircuitBreakerTripped (step_ID s) reason undone failures)
         | Err x \<Rightarrow> Err x | Panic p \<Rightarrow> Panic p), rt')" and rt': "rt_world rt' = w2" "rt_store rt' = st" by auto
  have run: "runFrom h e depth ref start c rt0 =
      (case u of Ok (undone, failures) \<Rightarrow> Err (CircuitBreakerTripped (step_ID s) reason undone failures)
         | Err x \<Rightarrow> Err x | Panic p \<Rightarrow> Panic p, rt')"
    using at run_loop_halt [OF assms(4) _ assms(6) ex] assms(1,2,5)
    by (simp add: runFrom.simps [of h e depth ref start])
  have rev: "unwind_rev flow (rev dn) (cur_ctx cur) [] [] w1 = (u, w2)" using assms(9) by (simp add: unwind_def)
  show ?thesis
  proof (cases u)
    case (Ok r)
    obtain undone failures where r: "r = (undone, failures)" by force
    have sh: "shuffle_of (rev dn) undone failures"
      using unwind_rev_shuffle [OF rev [unfolded Ok r]] by simp
    moreover have "failures = [] \<longrightarrow> w2 = snd (undo_in_order flow (rev dn) (cur_ctx cur) w1)"
      using unwind_rev_world_eq rev Ok r by fastforce
    ultimately show ?thesis using run rt' Ok r by (auto dest: shuffle_of_all_undone)
  next
    case (Err x)
    then show ?thesis using unwind_rev_no_Err [of flow "rev dn" "cur_ctx cur" "[]" "[]" w1 x] rev by simp
  next
    case (Panic p)
    then show ?thesis using run rt' by simp
  qed
qed

lemma saga_run_witness: "fst (Run sample_host ask_engine ''saga'' [] sample_rt) =
    Err (CircuitBreakerTripped ''pay'' ''declined'' [''reserve''] []) \<and>
  rt_world (snd (Run sample_host ask_engine ''saga'' [] sample_rt)) = [''held'', ''held'']"
proof -
  let ?sub = "\<lambda>ref c' rt'. runFrom sample_host ask_engine (0 + 1) ref [] c' rt'"
  let ?c = "[(''held'', GStr ''yes'')]"
  let ?rt = "sample_rt\<lparr>rt_world := [''held'']\<rparr>"
  let ?cur = "\<lparr>cur_step = ''pay'', cur_ctx = ?c, cur_done = completed_by [reserve], cur_trace = [''reserve'']\<rparr>"
  have flow: "eng_workflows ask_engine ''saga'' = Some saga_flow" "0 \<le> eng_maxDepth ask_engine"
    "1 < eng_maxSteps ask_engine" "wf_Steps saga_flow ''reserve'' = Some (LeafStep reserve)"
    "wf_Steps saga_flow ''pay'' = Some (LeafStep pay)" "no_fallback ask_engine (LeafStep pay)"
    "wf_EntryStepID saga_flow = ''reserve''" "eng_observer ask_engine = None" "step_ID (LeafStep pay) = ''pay''"
    by (simp_all add: sample_flow_defs sample_defs no_fallback_def)
  have done1: "just_done ask_engine saga_flow (LeafStep reserve) [] [] = completed_by [reserve]"
    by (simp add: admit_def sample_flow_defs sample_defs)
  have "exec_step ?sub sample_host ask_engine saga_flow 0 (LeafStep reserve)
      (visit (start_cursor ''reserve'' []) (LeafStep reserve)) sample_rt = (Next ?cur, ?rt)"
    by (simp add: exec_leaf_def run_action_def start_cursor_def observe_def flow(8) completed_by_def
        reserve_def sample_leaf_def writes_def sample_rt_def)
  with reaches.moves_on [OF reaches.entry, of "''reserve''" "[]" ask_engine saga_flow "LeafStep reserve" ?sub sample_host 0
      sample_rt ?cur ?rt] flow
  have at: "reaches ?sub sample_host ask_engine saga_flow 0 (if [] = [] then wf_EntryStepID saga_flow else []) [] sample_rt
      1 (completed_by [reserve]) ?cur ?rt"
    using done1 by (simp add: start_cursor_def sample_rt_def)
  have br: "breaks ?sub sample_host ask_engine saga_flow (LeafStep pay) (cur_ctx ?cur) ?rt ''declined'' [''held''] []"
    using breaks.failing [of ask_engine saga_flow pay ?c ?rt "[''held'']" "''declined''" "[''held'']" ?sub sample_host]
    by (simp add: admit_def pay_def sample_leaf_def fails_def sample_rt_def)
  have undo: "unwind saga_flow (completed_by [reserve]) (cur_ctx ?cur) [''held''] = (Ok ([''reserve''], []), [''held'', ''held''])"
    by (simp add: unwind_def completed_by_def sample_flow_defs sample_defs)
  from saga_run [OF flow(1,2) at _ _ _ br flow(6) undo] flow show ?thesis
    by (simp add: Run_def run_at_def)
qed

section \<open>Suspension and resumption\<close>

text \<open>The state a suspension parks.\<close>

definition parked :: "'w workflow \<Rightarrow> 'w leaf_step \<Rightarrow> string \<Rightarrow> string \<Rightarrow> string \<Rightarrow> ctx \<Rightarrow> string list \<Rightarrow> state" where
  "parked flow l pointer reason audience c trace =
     \<lparr>st_Pointer = pointer, st_WorkflowID = wf_WorkflowID flow, st_StepID = leaf_StepID l,
      st_Reason = reason, st_Audience = audience, st_Ctx = c, st_Trace = trace\<rparr>"

lemma suspend_saves:
  assumes "eng_store e = Some S" and "newPointer h w = (Inr pointer, w')"
    and "store_Save S (parked flow l pointer reason audience c tr) s = (None, s')"
    and "rt_world rt = w" and "rt_store rt = s"
  shows "\<exists>rt'. suspend h e flow (leaf_StepID l) reason audience c tr 0 rt =
    (Ok \<lparr>wr_Output = c, wr_StatePointer = pointer, wr_Trace = tr\<rparr>, rt') \<and> rt_world rt' = w' \<and> rt_store rt' = s'"
  using assms by (simp add: suspend_def parked_def Let_def)

text \<open>
  Suspension: when a step of a chain suspends, the run returns the context so far and the fresh
  pointer, and what the store is given under that pointer is the workflow, the step, the reason, the
  audience, that context and the steps taken, the suspended one included.
\<close>

theorem suspended_run:
  assumes "eng_workflows e ref = Some flow" and "limits_positive e"
    and "chained flow (wf_EntryStepID flow) ls (leaf_StepID l)" and "leaf_StepID l \<noteq> []"
    and "wf_Steps flow (leaf_StepID l) = Some (LeafStep l)" and "leaf_SandboxProbeRef l = []"
    and "fold_actions ls c (rt_world rt) = Some (c1, w1)" and "int (length ls) < eng_maxSteps e"
    and "leaf_Run l c1 w1 = (Suspends reason audience, w2)"
    and "eng_store e = Some S" and "newPointer h w2 = (Inr pointer, w3)"
    and "store_Save S (parked flow l pointer reason audience c1 (map leaf_StepID (ls @ [l]))) (rt_store rt) = (None, s')"
  shows "fst (Run h e ref c rt) = Ok \<lparr>wr_Output = c1, wr_StatePointer = pointer, wr_Trace = map leaf_StepID (ls @ [l])\<rparr> \<and>
    rt_world (snd (Run h e ref c rt)) = w3 \<and> rt_store (snd (Run h e ref c rt)) = s'"
proof -
  let ?r = "Ok \<lparr>wr_Output = c1, wr_StatePointer = pointer, wr_Trace = map leaf_StepID (ls @ [l])\<rparr> :: outcome"
  have step: "\<exists>rt2. exec_step sub h e flow 0 (LeafStep l) (visit (after_chain (leaf_StepID l) c1 ls) (LeafStep l)) rt1 =
      (Halt ?r, rt2) \<and> rt_world rt2 = w3 \<and> rt_store rt2 = s'"
    if "rt_world rt1 = w1" "rt_store rt1 = rt_store rt" for sub rt1
  proof -
    let ?rt = "observe e (ObserveStep (wf_WorkflowID flow) (leaf_StepID l)) rt1\<lparr>rt_world := w2\<rparr>"
    have "rt_world ?rt = w2" "rt_store ?rt = rt_store rt" using that by simp_all
    from suspend_saves [OF assms(10-12) this] obtain rt2 where
      "suspend h e flow (leaf_StepID l) reason audience c1 (map leaf_StepID (ls @ [l])) 0 ?rt = (?r, rt2)"
      "rt_world rt2 = w3" "rt_store rt2 = s'" by blast
    then show ?thesis
      using that assms(6,9) by (simp add: exec_leaf_def run_action_def Let_def after_chain_def)
  qed
  from run_chain_halt [OF assms(1-5,7,8) step] show ?thesis by auto
qed

lemma suspended_run_witness: "fst (Run sample_host ask_engine ''asks'' [] sample_rt) =
    Ok \<lparr>wr_Output = [(''x'', GStr ''1'')], wr_StatePointer = sample_pointer, wr_Trace = [''a'', ''ask'']\<rparr> \<and>
  rt_store (snd (Run sample_host ask_engine ''asks'' [] sample_rt)) = [(sample_pointer, ask_state)]"
proof -
  let ?a = "sample_leaf ''a'' (writes ''x'' ''1'') ''ask''"
  have chain: "eng_workflows ask_engine ''asks'' = Some ask_flow"
    "chained ask_flow (wf_EntryStepID ask_flow) [?a] (leaf_StepID ask)"
    "leaf_StepID ask \<noteq> []" "wf_Steps ask_flow (leaf_StepID ask) = Some (LeafStep ask)"
    "leaf_SandboxProbeRef ask = []"
    "fold_actions [?a] [] (rt_world sample_rt) = Some ([(''x'', GStr ''1'')], [''x''])"
    "int (length [?a]) < eng_maxSteps ask_engine"
    "leaf_Run ask [(''x'', GStr ''1'')] [''x''] = (Suspends ''needs sign-off'' ''finance'', [''x''])"
    "eng_store ask_engine = Some MemoryStore"
    by (simp_all add: sample_flow_defs sample_defs)
  have ptr: "newPointer sample_host [''x''] = (Inr sample_pointer, [''x''])"
    by code_simp
  have st: "parked ask_flow ask sample_pointer ''needs sign-off'' ''finance'' [(''x'', GStr ''1'')]
      (map leaf_StepID ([?a] @ [ask])) = ask_state"
    by (simp add: parked_def sample_flow_defs sample_defs)
  have sv: "store_Save MemoryStore (parked ask_flow ask sample_pointer ''needs sign-off'' ''finance'' [(''x'', GStr ''1'')]
      (map leaf_StepID ([?a] @ [ask]))) (rt_store sample_rt) = (None, [(sample_pointer, ask_state)])"
    unfolding st by (simp add: memory_defs ask_state_def sample_rt_def)
  have "map leaf_StepID ([?a] @ [ask]) = [''a'', ''ask'']" by (simp add: ask_def sample_leaf_def)
  then show ?thesis
    using suspended_run [OF chain(1) sample_limits(2) chain(2-9) ptr sv] by simp
qed

end
