(* ===== verification/ResumeFacts.thy ===== *)
theory ResumeFacts
  imports Pipelines Samples
begin

text \<open>
  What \<open>ResumeAs\<close> guarantees, for any store that meets the contract: the locale \<open>resumable\<close> puts an
  engine on such a store, its lemmas say when a resumption is admitted, that a refused one leaves
  the store alone, and that an admitted one uses the pointer up. Interpreted on \<open>MemoryStore\<close>.
\<close>

section \<open>Authorization\<close>

lemma authorize_frame: "authorize e st identity w = (err, w') \<Longrightarrow> st_Audience st = [] \<Longrightarrow> err = None \<and> w' = w"
  by (simp add: authorize_def)

lemma authorize_error:
  "authorize e st identity w = (Some err, w') \<Longrightarrow>
   \<exists>reason. err = NotAuthorized (st_Audience st) identity (st_WorkflowID st) reason"
  by (auto simp: authorize_def Let_def split: if_splits option.splits prod.splits)

lemma authorize_admits:
  "authorize e st identity w = (None, w') \<longleftrightarrow>
     (st_Audience st = [] \<and> w' = w) \<or>
     (st_Audience st \<noteq> [] \<and> (\<exists>authorizer reason. eng_authorizer e = Some authorizer \<and>
        authorizer \<lparr>att_Audience = st_Audience st, att_Identity = identity, att_WorkflowID = st_WorkflowID st,
                    att_StepID = st_StepID st, att_Reason = st_Reason st\<rparr> w = ((True, reason, None), w')))"
  by (auto simp: authorize_def Let_def split: option.splits prod.splits)

section \<open>The locale\<close>

lemma check_resume_frame: "check_resume e S p identity rt = (x, rt') \<Longrightarrow> rt_store rt' = rt_store rt"
  by (auto simp: check_resume_def split: sum.splits option.splits step.splits prod.splits)

locale resumable = store_contract S pending inv norm
  for S :: "'s store" and pending inv norm +
  fixes e :: "('w, 's) engine"
  assumes store_set: "eng_store e = Some S"
begin

text \<open>A resumption is admitted exactly when all of this holds.\<close>

lemma check_resume_iff:
  "inv (rt_store rt) \<Longrightarrow> check_resume e S p identity rt = (Inr leaf, rt') \<longleftrightarrow>
     (\<exists>x flow w. pending (rt_store rt) p = Some x \<and> eng_workflows e (st_WorkflowID x) = Some flow \<and>
        wf_Steps flow (st_StepID x) = Some (LeafStep leaf) \<and>
        authorize e x identity (rt_world rt) = (None, w) \<and> rt' = rt\<lparr>rt_world := w\<rparr>)"
  by (cases "store_Load S p (rt_store rt)")
    (auto simp: check_resume_def load_iff [symmetric] split: option.splits step.splits prod.splits)

lemma refusal_keeps_the_store:
  "check_resume e S p identity rt = (Inl err, rt1) \<Longrightarrow>
   ResumeAs h e p identity resolution rt = (refused err, rt1) \<and> rt_store rt1 = rt_store rt"
  using check_resume_frame by (auto simp: ResumeAs_def store_set)

text \<open>An admitted one claims what is parked and runs on with the pointer used up.\<close>

lemma resume_claims:
  assumes "inv (rt_store rt)" and "check_resume e S p identity rt = (Inr leaf, rt1)"
  shows "\<exists>x s1. pending (rt_store rt) p = Some x \<and> inv s1 \<and> pending s1 = (pending (rt_store rt))(p := None) \<and>
    ResumeAs h e p identity resolution rt =
      continue_claimed h e S p identity resolution leaf x (rt1\<lparr>rt_store := s1\<rparr>)"
proof -
  have frame: "rt_store rt1 = rt_store rt" using check_resume_frame [OF assms(2)] .
  obtain x where x: "pending (rt_store rt) p = Some x" using check_resume_iff [OF assms(1)] assms(2) by blast
  obtain s1 where c: "store_Consume S p (rt_store rt) = (Inr x, s1)"
    using consume_some [OF assms(1) x] by (metis prod.collapse)
  have "pending s1 = (pending (rt_store rt))(p := None)" "inv s1"
    using consume_pending [OF assms(1), of p] consume_inv [OF assms(1), of p] c by simp_all
  with x c assms(2) frame show ?thesis by (auto simp: ResumeAs_def store_set)
qed

lemma newPointer_kept:
  "inv s \<Longrightarrow> newPointer h w = (Inr (st_Pointer st), w1) \<Longrightarrow> (\<And>w. fst (newPointer h w) \<noteq> Inr p) \<Longrightarrow>
   pending (snd (store_Save S st s)) p = pending s p"
  by (metis fst_conv fun_upd_other save_pending)

end

text \<open>
  A run keeps the store's invariant, and parks nothing under a pointer that the host's randomness
  never yields.
\<close>

sublocale resumable \<subseteq> parks: rt_relation h e d0
  "\<lambda>rt rt'. inv (rt_store rt) \<longrightarrow> inv (rt_store rt') \<and>
     (\<forall>p. (\<forall>w. fst (newPointer h w) \<noteq> Inr p) \<longrightarrow> pending (rt_store rt') p = pending (rt_store rt) p)" for h d0
proof unfold_locales
  fix store w and st :: state and w1 and rt :: "('w, 's) rt"
  assume st: "eng_store e = Some store" and np: "newPointer h w = (Inr (st_Pointer st), w1)"
  then show "inv (rt_store rt) \<longrightarrow> inv (rt_store (rt\<lparr>rt_store := snd (store_Save store st (rt_store rt))\<rparr>)) \<and>
     (\<forall>p. (\<forall>w. fst (newPointer h w) \<noteq> Inr p) \<longrightarrow>
        pending (rt_store (rt\<lparr>rt_store := snd (store_Save store st (rt_store rt))\<rparr>)) p = pending (rt_store rt) p)"
    using newPointer_kept [OF _ np] save_inv store_set by simp
qed auto

context resumable
begin

lemma continue_claimed_parks:
  assumes "continue_claimed h e S q identity resolution leaf x rt = (res, rt')" and "inv (rt_store rt)"
  shows "inv (rt_store rt') \<and>
    ((\<forall>w. fst (newPointer h w) \<noteq> Inr p) \<longrightarrow> pending (rt_store rt') p = pending (rt_store rt) p)"
proof -
  obtain o1 rt1 where r: "runFrom h e 0 (st_WorkflowID x) (leaf_OnSuccess leaf)
      (resume_ctx x resolution identity) rt = (o1, rt1)" by force
  have 1: "inv (rt_store rt1)"
    "(\<forall>w. fst (newPointer h w) \<noteq> Inr p) \<longrightarrow> pending (rt_store rt1) p = pending (rt_store rt) p"
    using parks.runFrom_R [OF r, of 0] assms(2) by simp_all
  have 2: "inv (snd (store_Release S q (rt_store rt1)))"
    "pending (snd (store_Release S q (rt_store rt1))) = pending (rt_store rt1)"
    using 1 release_inv release_pending by simp_all
  obtain er s1 where rel: "store_Release S q (rt_store rt1) = (er, s1)" by force
  show ?thesis
    using assms(1) r 1 2 rel by (cases o1; cases er) (auto simp: continue_claimed_def)
qed

lemma resume_uses_the_pointer_up:
  assumes "inv (rt_store rt)" and "\<And>w. fst (newPointer h w) \<noteq> Inr p"
    and "check_resume e S p identity rt = (Inr leaf, rt1)"
  shows "pending (rt_store (snd (ResumeAs h e p identity resolution rt))) p = None \<and>
    inv (rt_store (snd (ResumeAs h e p identity resolution rt)))"
proof -
  from resume_claims [OF assms(1,3)] obtain x s1 where s1: "inv s1" "pending s1 = (pending (rt_store rt))(p := None)"
    and c: "ResumeAs h e p identity resolution rt =
      continue_claimed h e S p identity resolution leaf x (rt1\<lparr>rt_store := s1\<rparr>)" by blast
  obtain res rt' where "continue_claimed h e S p identity resolution leaf x (rt1\<lparr>rt_store := s1\<rparr>) = (res, rt')" by force
  from continue_claimed_parks [OF this, of p] s1 c this assms(2) show ?thesis by simp
qed

lemma resume_unknown:
  "inv (rt_store rt) \<Longrightarrow> pending (rt_store rt) p = None \<Longrightarrow>
   \<exists>msg. ResumeAs h e p identity resolution rt = (refused (PlainError msg), rt)"
  using load_none [of "rt_store rt" p]
  by (auto simp: ResumeAs_def store_set check_resume_def isl_def)

end

interpretation memory_engine: resumable MemoryStore map_of "\<lambda>_. True" "\<lambda>x. x" "SetStore (Some MemoryStore) e" for e
  by unfold_locales (simp add: SetStore_def)

section \<open>On the store in memory\<close>

lemma SetStore_same: "eng_store e = Some S \<Longrightarrow> SetStore (Some S) e = e"
  by (simp add: SetStore_def)

text \<open>Whether the configured authorizer lets the identity resume what is parked.\<close>

definition allows :: "('w, 's) engine \<Rightarrow> state \<Rightarrow> string \<Rightarrow> 'w \<Rightarrow> bool" where
  "allows e st identity w =
     (case eng_authorizer e of
        None \<Rightarrow> False
      | Some authorizer \<Rightarrow>
          (case fst (authorizer \<lparr>att_Audience = st_Audience st, att_Identity = identity,
               att_WorkflowID = st_WorkflowID st, att_StepID = st_StepID st, att_Reason = st_Reason st\<rparr> w) of
             (ok, reason, err) \<Rightarrow> ok \<and> err = None))"

lemma authorize_denies:
  "st_Audience st \<noteq> [] \<Longrightarrow> \<not> allows e st identity w \<Longrightarrow>
   \<exists>reason w'. authorize e st identity w = (Some (NotAuthorized (st_Audience st) identity (st_WorkflowID st) reason), w')"
  by (auto simp: allows_def authorize_def Let_def split: option.splits prod.splits)

text \<open>
  C5. Authority: a run parked for an audience cannot be resumed by an identity the authorizer does
  not let through: when there is no authorizer, when it says no, and when it fails to answer, the
  attempt returns \<open>NotAuthorized\<close> naming the audience and the identity, nothing of the run executes
  and the parked state is still there for someone who may.
\<close>

theorem only_the_authorized_resume:
  assumes "eng_store e = Some MemoryStore" and "map_of (rt_store rt) p = Some x"
    and "eng_workflows e (st_WorkflowID x) = Some flow" and "wf_Steps flow (st_StepID x) = Some (LeafStep l)"
    and "st_Audience x \<noteq> []" and "\<not> allows e x identity (rt_world rt)"
  shows "\<exists>reason w. ResumeAs h e p identity resolution rt =
    (refused (NotAuthorized (st_Audience x) identity (st_WorkflowID x) reason), rt\<lparr>rt_world := w\<rparr>)"
proof -
  obtain reason w where "authorize e x identity (rt_world rt) =
      (Some (NotAuthorized (st_Audience x) identity (st_WorkflowID x) reason), w)"
    using authorize_denies [OF assms(5,6)] by blast
  moreover have "store_Load MemoryStore p (rt_store rt) = Inr x"
    using assms(2) memory.load_iff by simp
  ultimately show ?thesis
    using assms(1,3,4) by (auto simp: ResumeAs_def check_resume_def)
qed

lemma ask_parked:
  "eng_store ask_engine = Some MemoryStore" "map_of (rt_store ask_rt) sample_pointer = Some ask_state"
  "eng_workflows ask_engine (st_WorkflowID ask_state) = Some ask_flow"
  "wf_Steps ask_flow (st_StepID ask_state) = Some (LeafStep ask)" "st_Audience ask_state \<noteq> []"
  by (simp_all add: sample_flow_defs sample_defs)

lemma only_the_authorized_resume_witness: "\<exists>reason w. ResumeAs sample_host ask_engine sample_pointer ''eve'' [] ask_rt =
  (refused (NotAuthorized (st_Audience ask_state) ''eve'' (st_WorkflowID ask_state) reason), ask_rt\<lparr>rt_world := w\<rparr>)"
proof -
  have "\<not> allows ask_engine ask_state ''eve'' (rt_world ask_rt)"
    by (simp add: allows_def sample_flow_defs sample_defs)
  then show ?thesis by (rule only_the_authorized_resume [OF ask_parked])
qed

text \<open>
  Single use: once a resumption has been admitted, a later attempt on the same pointer, by anyone
  and with any resolution, is refused as unknown and changes nothing, provided the randomness of new
  pointers never repeats this one.
\<close>

theorem pointer_is_single_use:
  assumes "eng_store e = Some MemoryStore" and "\<And>w. fst (newPointer h w) \<noteq> Inr p"
    and "check_resume e MemoryStore p identity rt = (Inr leaf, rt1)"
  shows "ResumeAs h e p identity2 resolution2 (snd (ResumeAs h e p identity resolution rt)) =
    (refused (PlainError (memory_missing p)), snd (ResumeAs h e p identity resolution rt))"
proof -
  have "map_of (rt_store (snd (ResumeAs h e p identity resolution rt))) p = None"
    using memory_engine.resume_uses_the_pointer_up [where e = e and rt = rt and h = h and p = p and
        identity = identity and leaf = leaf and ?rt1.0 = rt1 and resolution = resolution] assms
    by (simp add: SetStore_same)
  then show ?thesis
    using assms(1) by (simp add: ResumeAs_def check_resume_def memory_defs)
qed

lemma pointer_is_single_use_witness: "ResumeAs lucky_host ask_engine sample_pointer ''fin'' [] (snd (ResumeAs lucky_host ask_engine sample_pointer ''fin'' [] ask_rt)) =
   (refused (PlainError (memory_missing sample_pointer)), snd (ResumeAs lucky_host ask_engine sample_pointer ''fin'' [] ask_rt))"
proof -
  have "hex_encode (replicate 16 1) = concat (replicate 16 ''01'')" by code_simp
  then have "newPointer lucky_host w = (Inr (concat (replicate 16 ''01'')), w)" for w
    by (simp add: lucky_host_def newPointer_def)
  moreover have "concat (replicate 16 ''01'') \<noteq> sample_pointer" by code_simp
  ultimately have "fst (newPointer lucky_host w) \<noteq> Inr sample_pointer" for w by simp
  moreover have "check_resume ask_engine MemoryStore sample_pointer ''fin'' ask_rt = (Inr ask, ask_rt)"
    by (simp add: check_resume_def authorize_def memory_defs sample_flow_defs sample_defs)
  ultimately show ?thesis by (intro pointer_is_single_use [OF ask_parked(1)])
qed

text \<open>
  C6. Resumption: an admitted resumption of a run parked in a store in memory picks the run up at the
  successor of the step it was parked at; a run parked at a last step, which has no successor, starts
  again from its entry step. If the steps from there form a chain of leaves without probes that all
  succeed, the result is the fold of their actions over the parked context overlaid with the
  resolution and stamped with the identity, the trace continues the parked trace, and nothing but
  the pointer's entry has left the store.
\<close>

theorem resumed_run:
  assumes "eng_store e = Some MemoryStore" and "limits_positive e"
    and "map_of (rt_store rt) p = Some x"
    and "eng_workflows e (st_WorkflowID x) = Some flow" and "wf_Steps flow (st_StepID x) = Some (LeafStep l)"
    and "authorize e x identity (rt_world rt) = (None, w1)"
    and "chained flow (if leaf_OnSuccess l = [] then wf_EntryStepID flow else leaf_OnSuccess l) ls []"
    and "int (length ls) \<le> eng_maxSteps e"
    and "fold_actions ls (resume_ctx x resolution identity) w1 = Some (c2, w2)"
  shows "fst (ResumeAs h e p identity resolution rt) =
      Returns (\<lparr>wr_Output = c2, wr_StatePointer = [], wr_Trace = st_Trace x @ map leaf_StepID ls\<rparr>, None) \<and>
    rt_world (snd (ResumeAs h e p identity resolution rt)) = w2 \<and>
    rt_store (snd (ResumeAs h e p identity resolution rt)) = gdel p (rt_store rt)"
proof -
  let ?rt = "rt\<lparr>rt_world := w1, rt_store := gdel p (rt_store rt)\<rparr>"
  have claim: "ResumeAs h e p identity resolution rt = continue_claimed h e MemoryStore p identity resolution l x ?rt"
    using assms(1,3-6) by (simp add: ResumeAs_def check_resume_def memory_defs)
  have "0 \<le> eng_maxDepth e" using assms(2) by (simp add: limits_positive_def)
  from runFrom_chain [OF assms(4) this, of "leaf_OnSuccess l" ls "[]" _ ?rt c2 w2 h] assms(7-9)
  obtain rt' where "rt_world rt' = w2" "rt_store rt' = gdel p (rt_store rt)"
    "runFrom h e 0 (st_WorkflowID x) (leaf_OnSuccess l) (resume_ctx x resolution identity) ?rt =
      (Ok \<lparr>wr_Output = c2, wr_StatePointer = [], wr_Trace = map leaf_StepID ls\<rparr>, rt')"
    by (auto simp: run_loop_done after_chain_def)
  then show ?thesis
    by (simp add: claim continue_claimed_def MemoryStore_def memory_Release_def)
qed

lemma resumed_run_witness: "fst (ResumeAs sample_host ask_engine sample_pointer ''fin'' [(''ok'', GBool True)] ask_rt) =
  Returns (\<lparr>wr_Output = [(''cee.resumed_by'', GStr ''fin''), (''ok'', GBool True), (''x'', GStr ''1''), (''y'', GStr ''2'')],
     wr_StatePointer = [], wr_Trace = [''a'', ''ask'', ''b'']\<rparr>, None)"
proof -
  let ?b = "sample_leaf ''b'' (writes ''y'' ''2'') []"
  have "authorize ask_engine ask_state ''fin'' (rt_world ask_rt) = (None, [''x''])"
    "chained ask_flow (if leaf_OnSuccess ask = [] then wf_EntryStepID ask_flow else leaf_OnSuccess ask) [?b] []"
    "int (length [?b]) \<le> eng_maxSteps ask_engine"
    "fold_actions [?b] (resume_ctx ask_state [(''ok'', GBool True)] ''fin'') [''x''] =
      Some ([(''cee.resumed_by'', GStr ''fin''), (''ok'', GBool True), (''x'', GStr ''1''), (''y'', GStr ''2'')], [''x'', ''y''])"
    by (simp_all add: authorize_def resume_ctx_def ResumedByKey_def sample_flow_defs sample_defs)
  from resumed_run [OF ask_parked(1) sample_limits(2) ask_parked(2-4) this, of sample_host]
  show ?thesis by (simp add: ask_state_def sample_leaf_def)
qed

text \<open>The context a resumed run starts from: the resolution overlays the parked context, and an identity
  is recorded over both.\<close>

lemma map_of_resume_ctx:
  "map_of (resume_ctx x resolution identity) =
     (let c = map_of (st_Ctx x) ++ map_of resolution
      in if identity \<noteq> [] then c(ResumedByKey \<mapsto> GStr identity) else c)"
  by (simp add: resume_ctx_def Let_def)

text \<open>
  Resuming a run parked at its last step: such a step has no successor to continue from, and the
  resumption is the whole workflow run again from its entry step, on the parked context with the
  resolution, instead of the end of the run.
\<close>

theorem resuming_a_last_step_restarts:
  assumes "eng_store e = Some MemoryStore" and "map_of (rt_store rt) p = Some x"
    and "eng_workflows e (st_WorkflowID x) = Some flow" and "wf_Steps flow (st_StepID x) = Some (LeafStep l)"
    and "authorize e x identity (rt_world rt) = (None, w1)" and "leaf_OnSuccess l = []"
    and "Run h e (st_WorkflowID x) (resume_ctx x resolution identity)
           (rt\<lparr>rt_world := w1, rt_store := gdel p (rt_store rt)\<rparr>) = (Ok r, rt2)"
  shows "ResumeAs h e p identity resolution rt = (Returns (r\<lparr>wr_Trace := st_Trace x @ wr_Trace r\<rparr>, None), rt2)"
  using assms by (simp add: ResumeAs_def check_resume_def memory_defs continue_claimed_def Run_def run_at_def)

lemma resuming_a_last_step_restarts_witness: "fst (ResumeAs sample_host last_engine ''p0'' [] [] last_rt) =
  Returns (\<lparr>wr_Output = [(''x'', GStr ''1'')], wr_StatePointer = sample_pointer,
     wr_Trace = [''a'', ''ask'', ''a'', ''ask'']\<rparr>, None)"
proof -
  let ?l = "ask\<lparr>leaf_OnSuccess := []\<rparr>"
  have pre: "eng_store last_engine = Some MemoryStore" "map_of (rt_store last_rt) ''p0'' = Some last_state"
    "eng_workflows last_engine (st_WorkflowID last_state) = Some last_ask_flow"
    "wf_Steps last_ask_flow (st_StepID last_state) = Some (LeafStep ?l)"
    "authorize last_engine last_state [] (rt_world last_rt) = (None, [''x''])" "leaf_OnSuccess ?l = []"
    by (simp_all add: authorize_def last_rt_def last_state_def last_engine_def sample_flow_defs sample_defs)
  have run: "Run sample_host last_engine (st_WorkflowID last_state) (resume_ctx last_state [] [])
      (last_rt\<lparr>rt_world := [''x''], rt_store := gdel ''p0'' (rt_store last_rt)\<rparr>) =
    (Ok \<lparr>wr_Output = [(''x'', GStr ''1'')], wr_StatePointer = sample_pointer, wr_Trace = [''a'', ''ask'']\<rparr>,
     \<lparr>rt_world = [''x'', ''x''], rt_store = [(sample_pointer, last_state\<lparr>st_Pointer := sample_pointer, st_Audience := ''finance''\<rparr>)], rt_log = []\<rparr>)"
    by code_simp
  have "st_Trace last_state = [''a'', ''ask'']" by (simp add: last_state_def)
  then show ?thesis
    using resuming_a_last_step_restarts [OF pre run] by simp
qed

text \<open>
  C4. At most one claim for each time a run is parked: in any sequence of store operations, the
  concurrent callers' interleaved in any way, the successful claims of a pointer are at most its
  successful saves, plus one if it was parked at the start.
\<close>

theorem claims_never_exceed_saves:
  assumes "store_run MemoryStore ops s = (rs, s')"
  shows "claims_of p rs + (if map_of s' p = None then 0 else 1) \<le>
    saves_of p rs + (if map_of s p = None then 0 else 1)"
  using memory.claims_le_saves [OF TrueI assms] .

lemma claims_never_exceed_saves_witness: "claims_of ''p0'' [(OpConsume ''p0'', True), (OpConsume ''p0'', False)] + 0 \<le> saves_of ''p0'' [(OpConsume ''p0'', True), (OpConsume ''p0'', False)] + (1::nat)"
proof -
  have "store_run MemoryStore [OpConsume ''p0'', OpConsume ''p0''] (rt_store last_rt) =
    ([(OpConsume ''p0'', True), (OpConsume ''p0'', False)], [])" by code_simp
  from claims_never_exceed_saves [OF this, of "''p0''"] show ?thesis by (simp add: last_rt_def)
qed

end
