(* ===== verification/Clean.thy ===== *)
theory Clean
  imports Runaway
begin

text \<open>
  Runs that cannot go wrong structurally. An engine whose steps and workflows can be ranked, each step
  above the steps it may lead to and each workflow above the workflows it nests, with ranks below
  the ceilings, never reports a runaway; an engine all of whose references resolve never reports a
  missing step or workflow. The validator's checks provide both (theory \<open>Validated\<close>).
\<close>

section \<open>Outcomes kept free of some errors\<close>

text \<open>
  \<open>bad\<close> is a set of errors closed under what a run does with the errors of its parts. The errors
  that start in a run itself are looked at one by one.
\<close>

locale error_free =
  fixes e :: "('w, 's) engine" and bad :: "exec_error \<Rightarrow> bool"
  assumes tripped: "\<not> bad (CircuitBreakerTripped sid reason un fs)"
    and structural: "\<not> bad (NestedSuspensionUnsupported w sid)" "\<not> bad (NoSuspensionSupport w sid)"
      "\<not> bad (NoBranches w sid)" "\<not> bad (ConflictingBranchWrites sid f b1 v1 b2 v2)" "\<not> bad (BranchPanicked sid b p)"
    and joined: "\<not> bad (BranchesFailed sid n bfs)"
    and unsaved: "\<not> bad (PlainError (''could not save suspended workflow: '' @ err))"
    and no_random: "\<not> bad (PlainError (''could not generate a resume pointer: '' @ err))"
    and no_sandbox: "\<not> bad (PlainError (''step '' @ msg))"
begin

definition clean :: "outcome \<Rightarrow> bool" where
  "clean r \<longleftrightarrow> (case r of Err err \<Rightarrow> \<not> bad err | _ \<Rightarrow> True)"

lemma clean_simps [simp]: "clean (Ok x)" "clean (Panic p)" "clean (Err err) \<longleftrightarrow> \<not> bad err"
  by (simp_all add: clean_def)

definition clean_progress :: "progress \<Rightarrow> bool" where
  "clean_progress p \<longleftrightarrow> (case p of Halt r \<Rightarrow> clean r | _ \<Rightarrow> True)"

lemma clean_progress_simps [simp]: "clean_progress (Next c)" "clean_progress (Halt r) \<longleftrightarrow> clean r"
  by (simp_all add: clean_progress_def)

lemma abandon_clean: "clean (fst (abandon flow dn c (CircuitBreakerTripped sid reason un fs) rt))"
proof -
  obtain r w where u: "unwind flow dn c (rt_world rt) = (r, w)" by force
  moreover have "r \<noteq> Err err" for err
    using unwind_rev_no_Err [of flow "rev dn" c "[]" "[]" "rt_world rt" err] u by (simp add: unwind_def)
  ultimately show ?thesis by (cases r) (auto simp: abandon_def tripped)
qed

lemma divert_clean: "clean_progress (fst (divert e flow s reason cur rt))"
  using onFailure_cases [of e s reason "cur_ctx cur"] abandon_clean
  by (auto simp: divert_def Let_def split_beta)

lemma suspend_clean: "clean (fst (suspend h e flow sid reason aud c tr depth rt))"
  by (auto simp: suspend_def newPointer_def Let_def structural unsaved no_random
      simp del: append.simps split: option.splits prod.splits sum.splits)

lemma run_action_clean: "clean_progress (fst (run_action h e flow s depth cur rt))"
  using divert_clean suspend_clean
  by (auto simp: run_action_def Let_def split_beta split: action_outcome.splits prod.splits)

lemma exec_leaf_clean: "clean_progress (fst (exec_leaf h e flow s depth cur rt))"
  using divert_clean run_action_clean
  by (auto simp: exec_leaf_def Let_def split_beta no_sandbox simp del: append.simps split: option.splits)

lemma exec_composite_clean:
  assumes "\<And>c rt. clean (fst (sub (comp_SubWorkflowRef s) c rt))"
  shows "clean_progress (fst (exec_composite sub e flow s cur rt))"
proof -
  obtain r rt1 where r: "sub (comp_SubWorkflowRef s) (cur_ctx cur) rt = (r, rt1)" by force
  then have "clean r" using assms [of "cur_ctx cur" rt] by simp
  with r show ?thesis by (cases r) (auto simp: exec_composite_def divert_clean)
qed

lemma run_branches_clean:
  assumes "\<And>b c rt. b \<in> set (par_Branches s) \<Longrightarrow> clean (fst (sub b c rt))"
    and "set is \<subseteq> {..<length (par_Branches s)}"
  shows "list_all clean os \<Longrightarrow> list_all clean (fst (run_branches sub h before s c is os rt))"
  using assms(2)
proof (induction "is" arbitrary: os rt)
  case (Cons i "is")
  obtain r rt1 where r: "sub (par_Branches s ! i) (cloneContext c) rt = (r, rt1)" by force
  have "par_Branches s ! i \<in> set (par_Branches s)" using Cons.prems(2) by simp
  then have "clean r" using assms(1) [of _ "cloneContext c" rt] r by (metis fst_conv)
  then have "clean (recovered (par_StepID s) (par_Branches s ! i) r)"
    by (cases r) (simp_all add: recovered_def structural)
  with Cons.prems(1) have "list_all clean (os[i := recovered (par_StepID s) (par_Branches s ! i) r])"
    by (auto simp: list_all_iff dest: set_update_subset_insert [THEN subsetD])
  from Cons.IH [OF this] Cons.prems(2) r show ?case by (simp add: Let_def)
qed simp

lemma first_bypass_in: "first_bypass os = Some err \<Longrightarrow> Err err \<in> set os"
  by (induction os rule: first_bypass.induct) (auto split: if_splits)

lemma join_clean: "list_all clean os \<Longrightarrow> join_outcomes h s c os = Err err \<Longrightarrow> \<not> bad err"
proof -
  assume os: "list_all clean os" and j: "join_outcomes h s c os = Err err"
  show ?thesis
  proof (cases "first_bypass os")
    case (Some err')
    with j have "err' = err" by (simp add: join_outcomes_def)
    with first_bypass_in [OF Some] os show ?thesis by (auto simp: list_all_iff)
  next
    case None
    show ?thesis
    proof (cases "branch_failures (par_Branches s) os = []")
      case False
      with None j have "err = BranchesFailed (par_StepID s) (length (par_Branches s)) (branch_failures (par_Branches s) os)"
        by (simp add: join_outcomes_def Let_def)
      then show ?thesis by (simp add: joined)
    next
      case True
      let ?j = "join_branches (host_range h) (par_StepID s) c
          (map (\<lambda>(b, r). (b, wr_Output r)) (branch_results (par_Branches s) os)) empty_join"
      from True None j have "?j = Err err" by (cases ?j) (simp_all add: join_outcomes_def Let_def)
      from join_branches_Err [OF this] show ?thesis using structural by blast
    qed
  qed
qed

lemma exec_parallel_clean:
  assumes "\<And>b c rt. b \<in> set (par_Branches s) \<Longrightarrow> clean (fst (sub b c rt))" and "host_ok h"
  shows "clean_progress (fst (exec_parallel sub h e flow s cur rt))"
proof -
  let ?n = "length (par_Branches s)"
  have is_: "set (host_schedule h ?n) \<subseteq> {..<?n}" using assms(2) by (simp add: host_ok_def)
  have "list_all clean (replicate ?n (Ok empty_result))" by (simp add: list_all_length)
  from run_branches_clean [of s sub, OF assms(1) is_ this]
  have os: "list_all clean (fst (run_branches sub h (length (rt_log rt)) s (cur_ctx cur) (host_schedule h ?n) (replicate ?n (Ok empty_result)) rt))" .
  obtain r rt1 where r: "runParallel sub h flow s (cur_ctx cur) rt = (r, rt1)" by force
  have err: "\<not> bad err" if "r = Err err" for err
    using r that join_clean [OF os] structural
    by (auto simp: runParallel_def Let_def split_beta split: if_splits)
  show ?thesis
    using r err by (cases r) (auto simp: exec_parallel_def divert_clean)
qed

lemma exec_step_clean:
  assumes "\<And>b c rt. b \<in> nested_in s \<Longrightarrow> clean (fst (sub b c rt))" and "host_ok h"
  shows "clean_progress (fst (exec_step sub h e flow depth s cur rt))"
  using assms exec_leaf_clean exec_composite_clean exec_parallel_clean by (cases s) auto

text \<open>The loop, for any property \<open>ok\<close> of the step counter and the current step that its steps hand on.\<close>

lemma run_loop_clean:
  assumes start: "cur_step cur \<noteq> [] \<longrightarrow> ok steps (cur_step cur)"
    and limit: "\<And>steps sid recent. ok steps sid \<Longrightarrow> eng_maxSteps e < steps + 1 \<Longrightarrow>
      \<not> bad (StepLimitExceeded ref (eng_maxSteps e) recent)"
    and missing: "\<And>steps sid. ok steps sid \<Longrightarrow> wf_Steps flow sid = None \<Longrightarrow> \<not> bad (missing_step ref sid)"
    and step: "\<And>steps sid s nxt. ok steps sid \<Longrightarrow> wf_Steps flow sid = Some s \<Longrightarrow> nxt \<in> nexts e s \<Longrightarrow> ok (steps + 1) nxt"
    and sub: "\<And>steps sid s b c rt. ok steps sid \<Longrightarrow> wf_Steps flow sid = Some s \<Longrightarrow> b \<in> nested_in s \<Longrightarrow>
      clean (fst (sub b c rt))"
    and h: "host_ok h"
  shows "clean (fst (run_loop sub h e flow ref depth steps cur rt))"
proof -
  have "case run_loop sub h e flow ref depth steps cur rt of (r, rt') \<Rightarrow> clean r"
  proof (rule run_loop_rule [where I = "\<lambda>steps cur _. cur_step cur \<noteq> [] \<longrightarrow> ok steps (cur_step cur)" and Q = "\<lambda>r _. clean r"])
    fix steps :: int and cur :: cursor and s rt1 rt2
    assume ok: "cur_step cur \<noteq> [] \<longrightarrow> ok steps (cur_step cur)" "cur_step cur \<noteq> []"
      and s: "wf_Steps flow (cur_step cur) = Some s"
    show "cur_step cur' \<noteq> [] \<longrightarrow> ok (steps + 1) (cur_step cur')"
      if "exec_step sub h e flow depth s (visit cur s) rt1 = (Next cur', rt2)" for cur'
      using exec_step_next [OF that] step [OF _ s] ok by blast
    have "clean_progress (fst (exec_step sub h e flow depth s (visit cur s) rt1))"
      using ok by (intro exec_step_clean h sub [OF _ s]) auto
    then show "clean r" if "exec_step sub h e flow depth s (visit cur s) rt1 = (Halt r, rt2)" for r
      using that by simp
  qed (use start limit missing in auto)
  then show ?thesis by (simp add: split_beta)
qed

end

section \<open>No runaway\<close>

fun is_runaway :: "exec_error \<Rightarrow> bool" where
  "is_runaway (StepLimitExceeded _ _ _) = True"
| "is_runaway (DepthLimitExceeded _ _) = True"
| "is_runaway _ = False"

interpretation runaway: error_free e is_runaway for e
  by unfold_locales simp_all

text \<open>Steps ranked within each workflow, workflows ranked by nesting, all below the ceilings.\<close>

definition ranked :: "('w, 's) engine \<Rightarrow> (string \<Rightarrow> string \<Rightarrow> nat) \<Rightarrow> (string \<Rightarrow> nat) \<Rightarrow> bool" where
  "ranked e step_rank flow_rank \<longleftrightarrow>
     (\<forall>ref flow sid s. eng_workflows e ref = Some flow \<longrightarrow> wf_Steps flow sid = Some s \<longrightarrow>
        (\<forall>nxt \<in> nexts e s. step_rank ref nxt < step_rank ref sid) \<and>
        (\<forall>sub \<in> nested_in s. flow_rank sub < flow_rank ref)) \<and>
     (\<forall>ref flow sid. eng_workflows e ref = Some flow \<longrightarrow> int (step_rank ref sid) < eng_maxSteps e) \<and>
     (\<forall>ref. int (flow_rank ref) \<le> eng_maxDepth e)"

lemma ranked_runFrom:
  assumes "ranked e step_rank flow_rank" and "host_ok h"
  shows "depth + int (flow_rank ref) \<le> eng_maxDepth e \<Longrightarrow> runaway.clean (fst (runFrom h e depth ref start c rt))"
proof (induction "flow_rank ref" arbitrary: depth ref start c rt rule: less_induct)
  case less
  show ?case
  proof (cases "eng_workflows e ref")
    case None
    then show ?thesis using less.prems by (simp add: runFrom.simps [of h e depth] unknown_workflow_def)
  next
    case (Some flow)
    let ?sub = "\<lambda>ref c' rt'. runFrom h e (depth + 1) ref [] c' rt'"
    let ?cur = "start_cursor (if start = [] then wf_EntryStepID flow else start) c"
    have step: "(\<forall>nxt \<in> nexts e s. step_rank ref nxt < step_rank ref sid) \<and> (\<forall>sub \<in> nested_in s. flow_rank sub < flow_rank ref)"
      if "wf_Steps flow sid = Some s" for sid s
      using assms(1) Some that unfolding ranked_def by blast
    have below: "int (step_rank ref sid) < eng_maxSteps e" for sid
      using assms(1) Some unfolding ranked_def by blast
    have "runaway.clean (fst (run_loop ?sub h e flow ref depth 0 ?cur rt))"
    proof (rule runaway.run_loop_clean [where ok = "\<lambda>steps sid. steps + int (step_rank ref sid) < eng_maxSteps e"])
      show "runaway.clean (fst (?sub b c rt))"
        if "steps + int (step_rank ref sid) < eng_maxSteps e" "wf_Steps flow sid = Some s" "b \<in> nested_in s" for steps sid s b c rt
      proof -
        have lt: "flow_rank b < flow_rank ref" using step [OF that(2)] that(3) by blast
        then have "depth + 1 + int (flow_rank b) \<le> eng_maxDepth e" using less.prems by linarith
        from less.hyps [OF lt this] show ?thesis .
      qed
      show "steps + 1 + int (step_rank ref nxt) < eng_maxSteps e"
        if "steps + int (step_rank ref sid) < eng_maxSteps e" "wf_Steps flow sid = Some s" "nxt \<in> nexts e s" for steps sid s nxt
        using step [OF that(2)] that(1,3) by fastforce
      show "\<not> is_runaway (StepLimitExceeded ref (eng_maxSteps e) recent)"
        if "steps + int (step_rank ref sid) < eng_maxSteps e" "eng_maxSteps e < steps + 1" for steps sid recent
        using that by linarith
    qed (use below assms(2) in \<open>simp_all add: missing_step_def\<close>)
    then show ?thesis
      using Some less.prems by (simp add: runFrom.simps [of h e depth])
  qed
qed

section \<open>No dangling reference\<close>

definition is_dangling :: "exec_error \<Rightarrow> bool" where
  "is_dangling err \<longleftrightarrow> (\<exists>w sid. err = missing_step w sid) \<or> (\<exists>w. err = unknown_workflow w)"

interpretation dangling: error_free e is_dangling for e
  by unfold_locales (auto simp: is_dangling_def missing_step_def unknown_workflow_def)

definition resolved :: "('w, 's) engine \<Rightarrow> bool" where
  "resolved e \<longleftrightarrow>
     (\<forall>ref flow. eng_workflows e ref = Some flow \<longrightarrow>
        wf_Steps flow (wf_EntryStepID flow) \<noteq> None \<and>
        (\<forall>sid s. wf_Steps flow sid = Some s \<longrightarrow>
           (\<forall>nxt \<in> nexts e s. wf_Steps flow nxt \<noteq> None) \<and>
           (\<forall>sub \<in> nested_in s. eng_workflows e sub \<noteq> None)))"

lemma resolved_runFrom:
  assumes "resolved e" and "host_ok h"
  shows "eng_workflows e ref = Some flow \<Longrightarrow> start = [] \<or> wf_Steps flow start \<noteq> None \<Longrightarrow>
    dangling.clean (fst (runFrom h e depth ref start c rt))"
proof (induction "nat (eng_maxDepth e + 1 - depth)" arbitrary: depth ref flow start c rt rule: less_induct)
  case less
  show ?case
  proof (cases "eng_maxDepth e < depth")
    case True
    then show ?thesis
      by (simp add: runFrom.simps [of h e depth] is_dangling_def missing_step_def unknown_workflow_def)
  next
    case False
    let ?sub = "\<lambda>ref c' rt'. runFrom h e (depth + 1) ref [] c' rt'"
    let ?cur = "start_cursor (if start = [] then wf_EntryStepID flow else start) c"
    have entry: "wf_Steps flow (wf_EntryStepID flow) \<noteq> None"
      using assms(1) less.prems(1) unfolding resolved_def by blast
    have step: "(\<forall>nxt \<in> nexts e s. wf_Steps flow nxt \<noteq> None) \<and> (\<forall>sub \<in> nested_in s. eng_workflows e sub \<noteq> None)"
      if "wf_Steps flow sid = Some s" for sid s
      using assms(1) less.prems(1) that unfolding resolved_def by blast
    have "dangling.clean (fst (run_loop ?sub h e flow ref depth 0 ?cur rt))"
    proof (rule dangling.run_loop_clean [where ok = "\<lambda>_ sid. wf_Steps flow sid \<noteq> None"])
      show "dangling.clean (fst (?sub b c rt))"
        if "wf_Steps flow sid = Some s" "b \<in> nested_in s" for sid s b c rt
      proof -
        from step [OF that(1)] that(2) obtain flow' where "eng_workflows e b = Some flow'" by blast
        then show ?thesis using False by (intro less.hyps [of "depth + 1" b flow']) auto
      qed
      show "cur_step ?cur \<noteq> [] \<longrightarrow> wf_Steps flow (cur_step ?cur) \<noteq> None"
        using entry less.prems(2) by (auto simp: start_cursor_def)
      show "\<not> is_dangling (StepLimitExceeded ref (eng_maxSteps e) recent)" for recent
        by (simp add: is_dangling_def missing_step_def unknown_workflow_def)
    qed (use step assms(2) in auto)
    then show ?thesis using False less.prems(1) by (simp add: runFrom.simps [of h e depth])
  qed
qed

end
