(* ===== verification/Stdlib.thy ===== *)
theory Stdlib
  imports Determinism ProbeSafety
begin

text \<open>
  The standard actions (\<open>stdlib/stdlib.go\<close>). A factory turns the parameters of a step into an action
  or refuses them; the actions read the context alone. Comparison follows Go: numbers of any type
  compare as \<open>float64\<close>, everything else with \<open>==\<close>, which panics on two slices or two maps.
\<close>

type_synonym 'w factory = "ctx \<Rightarrow> string + 'w action"

type_synonym 'w library = "string \<rightharpoonup> 'w factory"

section \<open>Comparison\<close>

definition toFloat :: "gval \<Rightarrow> float64 option" where
  "toFloat v =
     (case v of
        GFloat x \<Rightarrow> Some x
      | GFloat32 x \<Rightarrow> Some x
      | GInt n \<Rightarrow> Some (f64_of_int (sint n))
      | GInt64 n \<Rightarrow> Some (f64_of_int (sint n))
      | _ \<Rightarrow> None)"

text \<open>\<open>None\<close> is the run-time panic of \<open>a == b\<close>.\<close>

definition equals :: "gval \<Rightarrow> gval \<Rightarrow> bool option" where
  "equals a b =
     (case (toFloat a, toFloat b) of
        (Some x, Some y) \<Rightarrow> Some (f64_eq x y)
      | _ \<Rightarrow> go_eq a b)"

definition uncomparable_text :: "gval \<Rightarrow> string" where
  "uncomparable_text a =
     ''runtime error: comparing uncomparable type '' @
     (case a of GStrs _ \<Rightarrow> ''[]string'' | GArr _ \<Rightarrow> ''[]interface {}'' | _ \<Rightarrow> ''map[string]interface {}'')"

definition equals_res :: "gval \<Rightarrow> gval \<Rightarrow> (string, bool) res" where
  "equals_res a b = (case equals a b of Some r \<Rightarrow> Ok r | None \<Rightarrow> Panic (uncomparable_text a))"

text \<open>The loop of \<open>in\<close>: the first equal item decides.\<close>

fun equals_any :: "gval \<Rightarrow> gval list \<Rightarrow> (string, bool) res" where
  "equals_any got [] = Ok False"
| "equals_any got (item # rest) =
     res_bind (equals_res got item) (\<lambda>eq. if eq then Ok True else equals_any got rest)"

definition compare :: "gval \<Rightarrow> string \<Rightarrow> gval \<Rightarrow> (string, bool) res" where
  "compare got op want =
     (if op = ''eq'' then equals_res got want
      else if op = ''neq'' then res_bind (equals_res got want) (\<lambda>r. Ok (\<not> r))
      else if op = ''in'' then
        (case want of
           GArr items \<Rightarrow> equals_any got items
         | _ \<Rightarrow> Err ''op 'in' requires 'value' to be an array'')
      else if op \<in> {''gt'', ''gte'', ''lt'', ''lte''} then
        (case (toFloat got, toFloat want) of
           (Some g, Some w) \<Rightarrow>
             Ok (if op = ''gt'' then f64_lt w g
                 else if op = ''gte'' then f64_le w g
                 else if op = ''lt'' then f64_lt g w
                 else f64_le g w)
         | _ \<Rightarrow> Err (''op '' @ quoted op @ '' requires numeric operands, got '' @ fmt_v got @ '' and '' @ fmt_v want))
      else Err (''unknown op '' @ quoted op))"

definition validOps :: "string list" where
  "validOps = [''eq'', ''neq'', ''gt'', ''gte'', ''lte'', ''lt'', ''in'']"

section \<open>Parameters\<close>

text \<open>\<open>params[k].(string)\<close>, required non-empty; and \<open>ctx[k]\<close>, which is nil when absent.\<close>

definition nonempty_param :: "ctx \<Rightarrow> string \<Rightarrow> string option" where
  "nonempty_param params k =
     (case map_of params k of Some (GStr s) \<Rightarrow> if s = [] then None else Some s | _ \<Rightarrow> None)"

definition ctx_get :: "ctx \<Rightarrow> string \<Rightarrow> gval" where
  "ctx_get c k = (case map_of c k of Some v \<Rightarrow> v | None \<Rightarrow> GNil)"

definition comparisonParams :: "string \<Rightarrow> ctx \<Rightarrow> string + (string \<times> string \<times> gval)" where
  "comparisonParams action params =
     (case nonempty_param params ''field'' of
        None \<Rightarrow> Inl (action @ '' requires a non-empty 'field' string'')
      | Some fld \<Rightarrow>
          (case map_of params ''op'' of
             Some (GStr op) \<Rightarrow>
               (if op \<notin> set validOps then Inl (action @ '' requires 'op' to be one of eq/neq/gt/gte/lt/lte/in'')
                else (case map_of params ''value'' of
                   None \<Rightarrow> Inl (action @ '' requires a 'value'' @ [CHR 0x27])
                 | Some want \<Rightarrow> Inr (fld, op, want)))
           | _ \<Rightarrow> Inl (action @ '' requires 'op' to be one of eq/neq/gt/gte/lt/lte/in'')))"

section \<open>The actions\<close>

definition suspendFactory :: "'w factory" where
  "suspendFactory params =
     (case nonempty_param params ''reason'' of
        None \<Rightarrow> Inl ''std.suspend requires a non-empty 'reason' string''
      | Some reason \<Rightarrow>
          (let audience = (case map_of params ''audience'' of Some (GStr s) \<Rightarrow> s | _ \<Rightarrow> [])
           in Inr (\<lambda>c w. (if audience = [] then Suspend reason else SuspendFor reason audience, w))))"

definition setFactory :: "'w factory" where
  "setFactory params =
     (case map_of params ''fields'' of
        None \<Rightarrow> Inl ''std.set requires a 'fields' object''
      | Some (GObj given) \<Rightarrow> Inr (\<lambda>c w. (Output (gmerge [] given), w))
      | Some _ \<Rightarrow> Inl ''std.set 'fields' must be an object'')"

definition requirement_not_met :: "string \<Rightarrow> gval \<Rightarrow> string \<Rightarrow> gval \<Rightarrow> string" where
  "requirement_not_met fld got op want =
     ''requirement not met: field '' @ quoted fld @ '' ('' @ fmt_v got @ '') '' @ op @ '' '' @ fmt_v want"

definition requireFactory :: "'w factory" where
  "requireFactory params =
     (case comparisonParams ''std.require'' params of
        Inl err \<Rightarrow> Inl err
      | Inr (fld, op, want) \<Rightarrow>
          Inr (\<lambda>c w.
            (case compare (ctx_get c fld) op want of
               Ok True \<Rightarrow> Output []
             | Ok False \<Rightarrow> Fails (requirement_not_met fld (ctx_get c fld) op want)
             | Err err \<Rightarrow> Fails err
             | Panic p \<Rightarrow> Panics p, w)))"

definition ruleCheckFactory :: "'w factory" where
  "ruleCheckFactory params =
     (case comparisonParams ''std.rule_check'' params of
        Inl err \<Rightarrow> Inl err
      | Inr (fld, op, want) \<Rightarrow>
          (case nonempty_param params ''result_field'' of
             None \<Rightarrow> Inl ''std.rule_check requires a non-empty 'result_field' string''
           | Some resultField \<Rightarrow>
               Inr (\<lambda>c w.
                 (case compare (ctx_get c fld) op want of
                    Ok r \<Rightarrow> Output [(resultField, GBool r)]
                  | Err err \<Rightarrow> Fails err
                  | Panic p \<Rightarrow> Panics p, w))))"

fun nonempty_names :: "gval list \<Rightarrow> string list option" where
  "nonempty_names [] = Some []"
| "nonempty_names (v # vs) =
     (case v of
        GStr s \<Rightarrow> if s = [] then None else map_option (Cons s) (nonempty_names vs)
      | _ \<Rightarrow> None)"

definition requireVerifiedFactory :: "'w factory" where
  "requireVerifiedFactory params =
     (case map_of params ''fields'' of
        None \<Rightarrow> Inl ''std.require_verified requires a 'fields' array''
      | Some (GArr items) \<Rightarrow>
          (if items = [] then Inl ''std.require_verified 'fields' must be a non-empty array''
           else case nonempty_names items of
             None \<Rightarrow> Inl ''std.require_verified 'fields' must contain non-empty strings''
           | Some names \<Rightarrow>
               Inr (\<lambda>c w.
                 (let guessed = filter (\<lambda>f. f \<in> set (provenanceOf c)) names in
                  if guessed \<noteq> [] then
                    Fails (''refusing to act on model-derived '' @ str_join guessed '', '' @
                           '': extracted values are not verified facts'')
                  else Output [], w)))
      | Some _ \<Rightarrow> Inl ''std.require_verified 'fields' must be a non-empty array'')"

definition Default :: "'w library" where
  "Default =
     [''std.set'' \<mapsto> setFactory,
      ''std.require'' \<mapsto> requireFactory,
      ''std.rule_check'' \<mapsto> ruleCheckFactory,
      ''std.suspend'' \<mapsto> suspendFactory,
      ''std.require_verified'' \<mapsto> requireVerifiedFactory]"

section \<open>What comparison does\<close>

lemma toFloat_comparable: "toFloat a = Some x \<Longrightarrow> \<not> uncomparable_pair a b"
  by (cases a) (auto simp: toFloat_def uncomparable_pair_def)

lemma equals_None_iff: "equals a b = None \<longleftrightarrow> uncomparable_pair a b"
proof (cases "toFloat a")
  case None
  then show ?thesis by (simp add: equals_def go_eq_None_iff)
next
  case (Some x)
  then have "\<not> uncomparable_pair a b" by (rule toFloat_comparable)
  with Some show ?thesis by (simp add: equals_def go_eq_None_iff [symmetric] split: option.splits)
qed

lemma deep_equal_sym: "deep_equal a b = deep_equal b a"
  using deep_equal_eq(1) by blast

lemma uncomparable_sym: "uncomparable_pair a b = uncomparable_pair b a"
  by (cases a; cases b) (auto simp: uncomparable_pair_def)

lemma go_eq_Some: "\<not> uncomparable_pair a b \<Longrightarrow> go_eq a b = Some (deep_equal a b)"
  by (cases a; cases b) (auto simp: uncomparable_pair_def go_eq_def)

lemma equals_sym: "equals a b = equals b a"
proof (cases "uncomparable_pair a b")
  case True
  with uncomparable_sym equals_None_iff show ?thesis by metis
next
  case False
  then have "go_eq a b = go_eq b a"
    using uncomparable_sym [of a b] by (simp add: go_eq_Some deep_equal_sym [of a b])
  then show ?thesis
    by (auto simp: equals_def f64_eq_iff split: option.splits)
qed

lemma equals_refl: "nan_free a \<Longrightarrow> \<not> uncomparable_pair a a \<Longrightarrow> equals a a = Some True"
  by (auto simp: equals_def go_eq_Some deep_equal_refl toFloat_def f64_eq_iff f64_of_int_def split: option.splits gval.splits)

lemma compare_simps:
  "compare got ''eq'' want = equals_res got want"
  "compare got ''neq'' want = res_bind (equals_res got want) (\<lambda>r. Ok (\<not> r))"
  "compare got ''in'' (GArr items) = equals_any got items"
  by (simp_all add: compare_def)

text \<open>
  On numbers, of whatever Go types, neither being NaN, exactly one of \<open>lt\<close>, \<open>eq\<close>, \<open>gt\<close> holds, \<open>lte\<close> and \<open>gte\<close> are the negations of \<open>gt\<close> and \<open>lt\<close>, and \<open>neq\<close>
  is the negation of \<open>eq\<close>.
\<close>

theorem comparison_of_numbers:
  assumes "toFloat a = Some x" and "toFloat b = Some y" and "x \<noteq> NaN" and "y \<noteq> NaN"
  shows "\<exists>lt eq gt. compare a ''lt'' b = Ok lt \<and> compare a ''eq'' b = Ok eq \<and> compare a ''gt'' b = Ok gt \<and>
    compare a ''lte'' b = Ok (\<not> gt) \<and> compare a ''gte'' b = Ok (\<not> lt) \<and> compare a ''neq'' b = Ok (\<not> eq) \<and>
    [lt, eq, gt] \<in> {[True, False, False], [False, True, False], [False, False, True]}"
proof -
  have tri: "f64_lt x y \<or> f64_eq x y \<or> f64_lt y x" using f64_trichotomy [OF assms(3,4)] .
  have ex: "f64_lt x y \<Longrightarrow> \<not> f64_lt y x \<and> \<not> f64_eq x y" "f64_lt y x \<Longrightarrow> \<not> f64_lt x y \<and> \<not> f64_eq y x"
    using f64_lt_not_sym by blast+
  have sym: "f64_eq y x = f64_eq x y" by (auto simp: f64_eq_iff)
  have c: "compare a ''lt'' b = Ok (f64_lt x y)" "compare a ''eq'' b = Ok (f64_eq x y)"
    "compare a ''gt'' b = Ok (f64_lt y x)" "compare a ''lte'' b = Ok (\<not> f64_lt y x)"
    "compare a ''gte'' b = Ok (\<not> f64_lt x y)" "compare a ''neq'' b = Ok (\<not> f64_eq x y)"
    using assms(1,2) tri ex sym
    by (auto simp: compare_def equals_res_def equals_def f64_le_def)
  show ?thesis
    by (intro exI [of _ "f64_lt x y"] exI [of _ "f64_eq x y"] exI [of _ "f64_lt y x"]) (use c tri ex sym in auto)
qed

lemma comparison_of_numbers_witness:
  "\<exists>lt eq gt. compare (GInt 3) ''lt'' (GFloat (Fin (7 / 2))) = Ok lt \<and> compare (GInt 3) ''eq'' (GFloat (Fin (7 / 2))) = Ok eq \<and>
    compare (GInt 3) ''gt'' (GFloat (Fin (7 / 2))) = Ok gt \<and> compare (GInt 3) ''lte'' (GFloat (Fin (7 / 2))) = Ok (\<not> gt) \<and>
    compare (GInt 3) ''gte'' (GFloat (Fin (7 / 2))) = Ok (\<not> lt) \<and> compare (GInt 3) ''neq'' (GFloat (Fin (7 / 2))) = Ok (\<not> eq) \<and>
    [lt, eq, gt] \<in> {[True, False, False], [False, True, False], [False, False, True]}"
proof -
  have "toFloat (GInt 3) = Some (Fin 3)" "toFloat (GFloat (Fin (7 / 2))) = Some (Fin (7 / 2))"
    by (simp_all add: toFloat_def f64_of_int_small)
  then show ?thesis by (rule comparison_of_numbers) simp_all
qed

lemma equals_res_panics: "(\<exists>p. equals_res a b = Panic p) \<longleftrightarrow> uncomparable_pair a b"
  by (auto simp: equals_res_def equals_None_iff [symmetric] split: option.splits)

lemma equals_any_spec:
  "(\<forall>item \<in> set items. \<not> uncomparable_pair got item) \<Longrightarrow>
   equals_any got items = Ok (\<exists>item \<in> set items. equals got item = Some True)"
proof (induction items)
  case (Cons item rest)
  then obtain r where "equals got item = Some r" by (metis equals_None_iff list.set_intros(1) not_None_eq)
  with Cons show ?case by (cases r) (simp_all add: equals_res_def)
qed simp

lemma compare_panics_iff:
  "(\<exists>p. compare a ''eq'' b = Panic p) \<longleftrightarrow> uncomparable_pair a b"
  by (simp add: compare_simps equals_res_panics)

section \<open>What the actions do\<close>

text \<open>Every action of the library leaves the world alone and looks at the context only.\<close>

definition context_only :: "'w action \<Rightarrow> bool" where
  "context_only act \<longleftrightarrow> (\<forall>c w1 w2. fst (act c w1) = fst (act c w2)) \<and> (\<forall>c w. snd (act c w) = w)"

lemma Default_cases:
  "Default ref = Some f \<Longrightarrow>
   f = setFactory \<or> f = requireFactory \<or> f = ruleCheckFactory \<or> f = suspendFactory \<or> f = requireVerifiedFactory"
  by (simp add: Default_def split: if_splits)

lemma factory_context_only:
  "setFactory p = Inr act \<Longrightarrow> context_only act"
  "requireFactory p = Inr act \<Longrightarrow> context_only act"
  "ruleCheckFactory p = Inr act \<Longrightarrow> context_only act"
  "suspendFactory p = Inr act \<Longrightarrow> context_only act"
  "requireVerifiedFactory p = Inr act \<Longrightarrow> context_only act"
  by (auto simp: context_only_def setFactory_def requireFactory_def ruleCheckFactory_def suspendFactory_def
      requireVerifiedFactory_def Let_def split: option.splits gval.splits sum.splits prod.splits if_splits)

lemma Default_context_only: "Default ref = Some f \<Longrightarrow> f p = Inr act \<Longrightarrow> context_only act"
  using Default_cases factory_context_only by metis

text \<open>
  Guesses are refused: \<open>std.require_verified\<close> with a list of field names succeeds, changing nothing,
  exactly when no listed field is among the context's model-derived ones, and otherwise fails,
  naming the offending fields in the order of the list.
\<close>

theorem require_verified_refuses_guesses:
  assumes "map_of params ''fields'' = Some (GArr items)" and "items \<noteq> []" and "nonempty_names items = Some names"
  shows "\<exists>act. requireVerifiedFactory params = Inr act \<and>
    (\<forall>c w. act c w =
      (if \<exists>f \<in> set names. f \<in> set (provenanceOf c) then
         Fails (''refusing to act on model-derived '' @
           str_join (filter (\<lambda>f. f \<in> set (provenanceOf c)) names) '', '' @
           '': extracted values are not verified facts'')
       else Output [], w))"
  using assms by (auto simp: requireVerifiedFactory_def Let_def filter_empty_conv)

lemma require_verified_refuses_guesses_witness:
  "\<exists>act :: journal action. requireVerifiedFactory [(''fields'', GArr [GStr ''amount''])] = Inr act \<and>
    (\<forall>c w. act c w =
      (if \<exists>f \<in> set [''amount'']. f \<in> set (provenanceOf c) then
         Fails (''refusing to act on model-derived '' @
           str_join (filter (\<lambda>f. f \<in> set (provenanceOf c)) [''amount'']) '', '' @
           '': extracted values are not verified facts'')
       else Output [], w))"
  by (rule require_verified_refuses_guesses [of _ "[GStr ''amount'']"]) simp_all

text \<open>
  A step that requires or checks \<open>eq\<close> panics, instead of failing, exactly when the field and the
  value are two slices of one type or two maps: the whole engine call unwinds, and no circuit breaker
  or fallback sees it.
\<close>

theorem require_eq_panics_on_slices:
  assumes "comparisonParams ''std.require'' params = Inr (fld, ''eq'', want)"
  shows "\<exists>act. requireFactory params = Inr act \<and>
    (\<forall>c w. (\<exists>p. fst (act c w) = Panics p) \<longleftrightarrow> uncomparable_pair (ctx_get c fld) want)"
proof -
  have "(\<exists>p. (case compare (ctx_get c fld) ''eq'' want of
        Ok True \<Rightarrow> Output [] | Ok False \<Rightarrow> Fails (requirement_not_met fld (ctx_get c fld) ''eq'' want)
      | Err err \<Rightarrow> Fails err | Panic p \<Rightarrow> Panics p) = Panics p) \<longleftrightarrow>
    (\<exists>p. compare (ctx_get c fld) ''eq'' want = Panic p)" for c
    by (auto split: res.splits bool.splits)
  with assms show ?thesis
    by (simp add: requireFactory_def compare_panics_iff)
qed

lemma require_eq_panics_on_slices_witness:
  "\<exists>act :: journal action. requireFactory [(''field'', GStr ''tags''), (''op'', GStr ''eq''), (''value'', GArr [])] = Inr act \<and>
    (\<forall>c w. (\<exists>p. fst (act c w) = Panics p) \<longleftrightarrow> uncomparable_pair (ctx_get c ''tags'') (GArr []))"
  by (rule require_eq_panics_on_slices)
    (simp add: comparisonParams_def nonempty_param_def validOps_def)

section \<open>Declarative engines\<close>

text \<open>An engine all of whose leaves are standard actions, with neither sandbox nor store.\<close>

definition declarative :: "('w, 's) engine \<Rightarrow> bool" where
  "declarative e \<longleftrightarrow>
     (\<forall>s. leaf_in e s \<longrightarrow> (\<exists>ref f params. Default ref = Some f \<and> f params = Inr (leaf_Run s))) \<and>
     eng_sandbox e = None \<and> eng_store e = None"

lemma declarative_leaf:
  "declarative e \<Longrightarrow> eng_workflows e ref = Some flow \<Longrightarrow> wf_Steps flow sid = Some (LeafStep l) \<Longrightarrow>
   leaf_Run l c w = (oc, w') \<Longrightarrow> w' = w"
  unfolding declarative_def leaf_in_def using Default_context_only context_only_def by (metis snd_conv)

lemma declarative_unwind:
  assumes "declarative e" and "eng_workflows e ref = Some flow"
  shows "snd (unwind_rev flow es c un fs w) = w"
proof (induction es arbitrary: c un fs)
  case (Cons en es)
  show ?case
    using Cons by (auto split: option.splits step.splits prod.splits action_outcome.splits
        dest: declarative_leaf [OF assms])
qed simp

lemma declarative_divert:
  assumes "declarative e" and "eng_workflows e ref = Some flow" and "divert e flow s reason cur rt = (pr, rt')"
  shows "rt_world rt' = rt_world rt \<and> rt_store rt' = rt_store rt"
proof -
  have "rt_world rt2 = rt_world rt1 \<and> rt_store rt2 = rt_store rt1"
    if "abandon flow dn c cause rt1 = (r, rt2)" for dn c cause r and rt1 rt2 :: "('a, 'b) rt"
    using that declarative_unwind [OF assms(1,2), of "rev dn" c "[]" "[]" "rt_world rt1"]
    by (cases cause) (auto simp: abandon_def unwind_def split: if_splits prod.splits res.splits)
  then show ?thesis
    using assms(3) by (fastforce simp: divert_def Let_def split: res.splits prod.splits)
qed

lemma declarative_exec_leaf:
  assumes "declarative e" and "eng_workflows e ref = Some flow" and "wf_Steps flow sid = Some (LeafStep l)"
    and "exec_leaf h e flow l depth cur rt = (pr, rt')"
  shows "rt_world rt' = rt_world rt \<and> rt_store rt' = rt_store rt"
proof (cases "leaf_SandboxProbeRef l = []")
  case True
  have st: "eng_store e = None" using assms(1) by (simp add: declarative_def)
  from True assms(4) show ?thesis
    by (auto simp: exec_leaf_def run_action_def Let_def suspend_def st
        split: prod.splits action_outcome.splits if_splits
        dest!: declarative_leaf [OF assms(1-3)] declarative_divert [OF assms(1,2)])
next
  case False
  with assms(1,4) show ?thesis by (simp add: declarative_def exec_leaf_def)
qed

interpretation pure: step_relation h e d0
  "\<lambda>rt rt'. declarative e \<longrightarrow> rt_world rt' = rt_world rt \<and> rt_store rt' = rt_store rt" for h e d0
  by unfold_locales (auto dest: declarative_divert declarative_exec_leaf)

text \<open>
  A purely declarative workflow touches nothing: on an engine whose leaves are all standard
  actions, with no sandbox and no store, a run changes neither the world nor the store, whatever it
  returns, compensations included.
\<close>

theorem declarative_runs_touch_nothing:
  assumes "declarative e"
  shows "rt_world (snd (Run h e ref c rt)) = rt_world rt \<and> rt_store (snd (Run h e ref c rt)) = rt_store rt"
proof -
  obtain r rt' where "Run h e ref c rt = (r, rt')" by force
  from pure.Run_R [OF this, of 0] assms this show ?thesis by simp
qed

lemma declarative_runs_touch_nothing_witness:
  "rt_world (snd (Run sample_host (NewEngine None :: (journal, memory_store) engine) ''x'' [] sample_rt)) = rt_world sample_rt \<and>
   rt_store (snd (Run sample_host (NewEngine None :: (journal, memory_store) engine) ''x'' [] sample_rt)) = rt_store sample_rt"
  by (rule declarative_runs_touch_nothing) (simp add: declarative_def leaf_in_def NewEngine_def)

end
