(* ===== verification/Manifest.thy ===== *)
theory Manifest
  imports Stdlib
begin

text \<open>
  Manifests (\<open>manifest/manifest.go\<close>): the declared form of a domain, and \<open>Load\<close>, which turns it into
  workflows the engine can run or refuses it. \<open>Load\<close> starts from what \<open>json.Unmarshal\<close> made of the
  bytes: the decoded \<open>File\<close>, or its error text.
\<close>

section \<open>The declared form\<close>

record intent_spec =
  ispec_NodeID :: string
  ispec_Examples :: "string list"
  ispec_EntryWorkflowRef :: string
  ispec_DeprecatedEntryStepRef :: string

record policy_spec =
  pspec_PolicyID :: string
  pspec_FallbackStepRef :: string

record step_spec =
  sspec_StepID :: string
  sspec_Type :: string
  sspec_ActionRef :: string
  sspec_With :: ctx
  sspec_SandboxProbeRef :: string
  sspec_CircuitBreakerPolicyRef :: string
  sspec_OnSuccess :: string
  sspec_SubWorkflowRef :: string
  sspec_Branches :: "string list"
  sspec_CompensateWith :: string

record workflow_spec =
  wspec_WorkflowID :: string
  wspec_EntryStepID :: string
  wspec_Steps :: "step_spec list"

record manifest_file =
  file_Name :: string
  file_Intents :: "intent_spec list"
  file_Policies :: "policy_spec list"
  file_Workflows :: "workflow_spec list"

definition entryWorkflow :: "intent_spec \<Rightarrow> string" where
  "entryWorkflow s =
     (if ispec_EntryWorkflowRef s \<noteq> [] then ispec_EntryWorkflowRef s else ispec_DeprecatedEntryStepRef s)"

definition conflictingEntry :: "intent_spec \<Rightarrow> bool" where
  "conflictingEntry s \<longleftrightarrow>
     ispec_EntryWorkflowRef s \<noteq> [] \<and> ispec_DeprecatedEntryStepRef s \<noteq> [] \<and>
     ispec_EntryWorkflowRef s \<noteq> ispec_DeprecatedEntryStepRef s"

type_synonym 'w hooks = "string \<rightharpoonup> 'w action"

text \<open>\<open>registry.Domain\<close>: what a manifest loads to.\<close>

record 'w domain =
  dom_Name :: string
  dom_Intents :: "intent_node list"
  dom_Workflows :: "'w workflow list"
  dom_Policies :: "circuit_breaker_policy list"

section \<open>Loading\<close>

definition at_step :: "string \<Rightarrow> string \<Rightarrow> string \<Rightarrow> string" where
  "at_step domainName workflowID stepID =
     ''manifest: domain '' @ quoted domainName @ '' workflow '' @ quoted workflowID @ '' step '' @ quoted stepID"

definition resolveAction :: "string \<Rightarrow> string \<Rightarrow> step_spec \<Rightarrow> 'w hooks \<Rightarrow> 'w library \<Rightarrow> (string, 'w action) res" where
  "resolveAction domainName workflowID spec hooks std =
     (case std (sspec_ActionRef spec) of
        Some factory \<Rightarrow>
          (case factory (sspec_With spec) of
             Inl err \<Rightarrow> Err (at_step domainName workflowID (sspec_StepID spec) @ '' action '' @
                          quoted (sspec_ActionRef spec) @ '': '' @ err)
           | Inr act \<Rightarrow> Ok act)
      | None \<Rightarrow>
          (case hooks (sspec_ActionRef spec) of
             Some act \<Rightarrow> Ok act
           | None \<Rightarrow> Err (at_step domainName workflowID (sspec_StepID spec) @
               '' references unregistered action_ref '' @ quoted (sspec_ActionRef spec) @
               '' (not in the standard library or the provided hooks)'')))"

text \<open>The loop over the branches, \<open>seen\<close> holding the ones before.\<close>

fun check_branches :: "string \<Rightarrow> string list \<Rightarrow> string list \<Rightarrow> (string, unit) res" where
  "check_branches loc seen [] = Ok ()"
| "check_branches loc seen (branch # rest) =
     (if branch = [] then Err (loc @ '' lists an empty branch'')
      else if branch \<in> set seen then
        Err (loc @ '' lists branch '' @ quoted branch @
             '' twice; running one workflow twice in parallel joins it against itself'')
      else check_branches loc (branch # seen) rest)"

definition want_types :: string where
  "want_types = ''(want '' @ quoted ''leaf'' @ '', '' @ quoted ''composite'' @ '' or '' @ quoted ''parallel'' @ '')''"

definition buildStep :: "string \<Rightarrow> string \<Rightarrow> step_spec \<Rightarrow> 'w hooks \<Rightarrow> 'w library \<Rightarrow> (string, 'w step) res" where
  "buildStep domainName workflowID spec hooks std =
     (let loc = at_step domainName workflowID (sspec_StepID spec) in
      if sspec_Type spec = ''leaf'' then
        res_bind (resolveAction domainName workflowID spec hooks std)
          (\<lambda>act. Ok (LeafStep
             \<lparr>leaf_StepID = sspec_StepID spec, leaf_Run = act, leaf_SandboxProbeRef = sspec_SandboxProbeRef spec,
              leaf_CircuitBreakerPolicyRef = sspec_CircuitBreakerPolicyRef spec,
              leaf_OnSuccess = sspec_OnSuccess spec, leaf_CompensateStepRef = sspec_CompensateWith spec\<rparr>))
      else if sspec_Type spec = ''composite'' then
        (if sspec_SubWorkflowRef spec = [] then Err (loc @ '' is composite but has no sub_workflow_ref'')
         else Ok (CompositeStep
           \<lparr>comp_StepID = sspec_StepID spec, comp_SubWorkflowRef = sspec_SubWorkflowRef spec,
            comp_CircuitBreakerPolicyRef = sspec_CircuitBreakerPolicyRef spec,
            comp_OnSuccess = sspec_OnSuccess spec\<rparr>))
      else if sspec_Type spec = ''parallel'' then
        (if sspec_Branches spec = [] then Err (loc @ '' is parallel but has no branches'')
         else res_bind (check_branches loc [] (sspec_Branches spec))
           (\<lambda>_. Ok (ParallelStep
             \<lparr>par_StepID = sspec_StepID spec, par_Branches = sspec_Branches spec,
              par_CircuitBreakerPolicyRef = sspec_CircuitBreakerPolicyRef spec,
              par_OnSuccess = sspec_OnSuccess spec\<rparr>)))
      else Err (loc @ '' has unknown type '' @ quoted (sspec_Type spec) @ '' '' @ want_types))"

fun build_steps :: "string \<Rightarrow> string \<Rightarrow> 'w hooks \<Rightarrow> 'w library \<Rightarrow> step_spec list \<Rightarrow> (string \<rightharpoonup> 'w step) \<Rightarrow>
    (string, string \<rightharpoonup> 'w step) res" where
  "build_steps d w hooks std [] steps = Ok steps"
| "build_steps d w hooks std (spec # specs) steps =
     res_bind (buildStep d w spec hooks std)
       (\<lambda>s. build_steps d w hooks std specs (steps(sspec_StepID spec \<mapsto> s)))"

definition load_workflow :: "string \<Rightarrow> 'w hooks \<Rightarrow> 'w library \<Rightarrow> workflow_spec \<Rightarrow> (string, 'w workflow) res" where
  "load_workflow d hooks std ws =
     res_bind (build_steps d (wspec_WorkflowID ws) hooks std (wspec_Steps ws) Map.empty)
       (\<lambda>steps. Ok \<lparr>wf_WorkflowID = wspec_WorkflowID ws, wf_DomainID = [],
                    wf_EntryStepID = wspec_EntryStepID ws, wf_Steps = steps\<rparr>)"

definition load_intent :: "string \<Rightarrow> intent_spec \<Rightarrow> (string, intent_node) res" where
  "load_intent d intent =
     (if conflictingEntry intent then
        Err (''manifest: domain '' @ quoted d @ '' intent '' @ quoted (ispec_NodeID intent) @
             '' sets both entry_workflow_ref ('' @ quoted (ispec_EntryWorkflowRef intent) @
             '') and the deprecated entry_step_ref ('' @ quoted (ispec_DeprecatedEntryStepRef intent) @
             '') to different values; keep one'')
      else Ok \<lparr>node_NodeID = ispec_NodeID intent, node_DomainID = d, node_Examples = ispec_Examples intent,
               node_EntryWorkflowRef = entryWorkflow intent, node_Metadata = []\<rparr>)"

definition load_policy :: "policy_spec \<Rightarrow> circuit_breaker_policy" where
  "load_policy p = \<lparr>pol_PolicyID = pspec_PolicyID p, pol_FallbackStepRef = pspec_FallbackStepRef p\<rparr>"

definition load_file :: "manifest_file \<Rightarrow> 'w hooks \<Rightarrow> 'w library \<Rightarrow> (string, 'w domain) res" where
  "load_file f hooks std =
     (if file_Name f = [] then Err ''manifest: missing domain name''
      else
        res_bind (map_res (load_intent (file_Name f)) (file_Intents f)) (\<lambda>intents.
        res_bind (map_res (load_workflow (file_Name f) hooks std) (file_Workflows f)) (\<lambda>flows.
          Ok \<lparr>dom_Name = file_Name f, dom_Intents = intents, dom_Workflows = flows,
              dom_Policies = map load_policy (file_Policies f)\<rparr>)))"

definition Load :: "(string + manifest_file) \<Rightarrow> 'w hooks \<Rightarrow> 'w library \<Rightarrow> (string, 'w domain) res" where
  "Load decoded hooks std =
     (case decoded of
        Inl err \<Rightarrow> Err (''manifest: invalid JSON: '' @ err)
      | Inr f \<Rightarrow> load_file f hooks std)"

section \<open>What loading gives\<close>

lemma buildStep_ID: "buildStep d w spec hooks std = Ok s \<Longrightarrow> step_ID s = sspec_StepID spec"
  by (auto simp: buildStep_def Let_def res_bind_Ok_iff split: if_splits)

lemma build_steps_from:
  "build_steps d w hooks std specs m = Ok m' \<Longrightarrow> m' k = Some s \<Longrightarrow>
   m k = Some s \<or> (\<exists>spec \<in> set specs. sspec_StepID spec = k \<and> buildStep d w spec hooks std = Ok s)"
proof (induction specs arbitrary: m)
  case (Cons spec specs)
  from Cons.prems(1) obtain t where t: "buildStep d w spec hooks std = Ok t"
    and rest: "build_steps d w hooks std specs (m(sspec_StepID spec \<mapsto> t)) = Ok m'"
    by (auto simp: res_bind_Ok_iff)
  from Cons.IH [OF rest Cons.prems(2)] t show ?case
    by (metis fun_upd_apply list.set_intros option.inject)
qed simp

lemma build_steps_dom:
  "build_steps d w hooks std specs m = Ok m' \<Longrightarrow> dom m' = dom m \<union> sspec_StepID ` set specs"
proof (induction specs arbitrary: m)
  case (Cons spec specs)
  from Cons.prems obtain t where "build_steps d w hooks std specs (m(sspec_StepID spec \<mapsto> t)) = Ok m'"
    by (auto simp: res_bind_Ok_iff)
  from Cons.IH [OF this] show ?case unfolding dom_fun_upd by simp
qed simp

lemma build_steps_ok:
  "is_ok (build_steps d w hooks std specs m) \<longleftrightarrow> (\<forall>spec \<in> set specs. is_ok (buildStep d w spec hooks std))"
proof (induction specs arbitrary: m)
  case (Cons spec specs)
  then show ?case by (cases "buildStep d w spec hooks std") auto
qed simp

lemma build_steps_filed:
  "build_steps d w hooks std specs m = Ok m' \<Longrightarrow> (\<And>k s. m k = Some s \<Longrightarrow> step_ID s = k) \<Longrightarrow>
   m' k = Some s \<Longrightarrow> step_ID s = k"
proof (induction specs arbitrary: m)
  case (Cons spec specs)
  from Cons.prems(1) obtain t where t: "buildStep d w spec hooks std = Ok t"
    and rest: "build_steps d w hooks std specs (m(sspec_StepID spec \<mapsto> t)) = Ok m'"
    by (auto simp: res_bind_Ok_iff)
  show ?case
    by (rule Cons.IH [OF rest _ Cons.prems(3)]) (use buildStep_ID [OF t] Cons.prems(2) in \<open>auto split: if_splits\<close>)
qed auto

lemma load_workflow_wf: "load_workflow d hooks std ws = Ok flow \<Longrightarrow> workflow_wf flow"
  unfolding load_workflow_def workflow_wf_def
  by (auto simp: res_bind_Ok_iff dest: build_steps_filed)

lemma load_workflow_ID: "load_workflow d hooks std ws = Ok flow \<Longrightarrow> wf_WorkflowID flow = wspec_WorkflowID ws"
  by (auto simp: load_workflow_def res_bind_Ok_iff)

lemma load_file_workflows:
  "load_file f hooks std = Ok dmn \<Longrightarrow>
   list_all2 (\<lambda>ws flow. load_workflow (file_Name f) hooks std ws = Ok flow) (file_Workflows f) (dom_Workflows dmn)"
  by (auto simp: load_file_def res_bind_Ok_iff map_res_Ok_iff split: if_splits)

end
