(* ===== verification/Graph.thy ===== *)
theory Graph
  imports Prelude
begin

text \<open>
  The graph search of the validator (\<open>findCycle\<close> and the closure \<open>walk\<close> of \<open>manifest/validate.go\<close>).
  The recursion of both is bounded by the number of nodes not yet visited: it is given as fuel, and
  enough fuel is proved to be enough, so that running out is not an outcome. \<open>findCycle\<close> finds a cycle
  exactly when there is one, and what it returns is one; \<open>walk\<close> marks what is reachable.
\<close>

type_synonym edges = "string \<Rightarrow> string list"

definition edge_rel :: "edges \<Rightarrow> (string \<times> string) set" where
  "edge_rel E = {(x, y). y \<in> set (E x)}"

section \<open>\<open>findCycle\<close>\<close>

datatype mark = OnStack | Done

text \<open>The map \<open>state\<close> (absent is unvisited) and the slice \<open>path\<close>.\<close>

record dfs =
  dfs_state :: "string \<rightharpoonup> mark"
  dfs_path :: "string list"

text \<open>
  \<open>visit\<close> and the loop over the successors inside it. \<open>None\<close> is out of fuel; the inner option is the
  cycle found.
\<close>

function visit :: "nat \<Rightarrow> edges \<Rightarrow> string \<Rightarrow> dfs \<Rightarrow> (string list option \<times> dfs) option"
  and visit_succs :: "nat \<Rightarrow> edges \<Rightarrow> string list \<Rightarrow> dfs \<Rightarrow> (string list option \<times> dfs) option" where
  "visit 0 E node st = None"
| "visit (Suc n) E node st =
     (case visit_succs n E (E node) (st\<lparr>dfs_state := (dfs_state st)(node \<mapsto> OnStack), dfs_path := dfs_path st @ [node]\<rparr>) of
        Some (None, st1) \<Rightarrow>
          Some (None, st1\<lparr>dfs_path := butlast (dfs_path st1), dfs_state := (dfs_state st1)(node \<mapsto> Done)\<rparr>)
      | r \<Rightarrow> r)"
| "visit_succs n E [] st = Some (None, st)"
| "visit_succs n E (succ # rest) st =
     (case dfs_state st succ of
        Some OnStack \<Rightarrow>
          (case dropWhile (\<lambda>m. m \<noteq> succ) (dfs_path st) of
             [] \<Rightarrow> visit_succs n E rest st
           | from_succ \<Rightarrow> Some (Some (from_succ @ [succ]), st))
      | Some Done \<Rightarrow> visit_succs n E rest st
      | None \<Rightarrow>
          (case visit n E succ st of
             Some (None, st1) \<Rightarrow> visit_succs n E rest st1
           | r \<Rightarrow> r))"
  by pat_completeness auto
termination
  by (relation "inv_image (less_than <*lex*> less_than)
    (case_sum (\<lambda>(n, E, node, st). (n, 0)) (\<lambda>(n, E, xs, st). (n, Suc (length xs))))") auto

fun visit_all :: "nat \<Rightarrow> edges \<Rightarrow> string list \<Rightarrow> dfs \<Rightarrow> (string list option \<times> dfs) option" where
  "visit_all n E [] st = Some (None, st)"
| "visit_all n E (node # rest) st =
     (case dfs_state st node of
        None \<Rightarrow>
          (case visit n E node (st\<lparr>dfs_path := []\<rparr>) of
             Some (None, st1) \<Rightarrow> visit_all n E rest st1
           | r \<Rightarrow> r)
      | Some _ \<Rightarrow> visit_all n E rest st)"

definition findCycle :: "string list \<Rightarrow> edges \<Rightarrow> string list option" where
  "findCycle nodes E =
     (case visit_all (Suc (length nodes)) E nodes \<lparr>dfs_state = Map.empty, dfs_path = []\<rparr> of
        Some (r, _) \<Rightarrow> r
      | None \<Rightarrow> None)"

section \<open>What the search keeps\<close>

definition finished :: "dfs \<Rightarrow> string set" where
  "finished st = {x. dfs_state st x = Some Done}"

definition stacked :: "dfs \<Rightarrow> string set" where
  "stacked st = {x. dfs_state st x = Some OnStack}"

text \<open>Finished nodes: closed under the edges, and on no cycle.\<close>

definition settled :: "edges \<Rightarrow> string set \<Rightarrow> bool" where
  "settled E D \<longleftrightarrow> (\<forall>x \<in> D. set (E x) \<subseteq> D \<and> (x, x) \<notin> (edge_rel E)\<^sup>+)"

lemma settled_reach: "(x, y) \<in> (edge_rel E)\<^sup>* \<Longrightarrow> settled E D \<Longrightarrow> x \<in> D \<Longrightarrow> y \<in> D"
  by (induction rule: rtrancl_induct) (auto simp: settled_def edge_rel_def)

lemma settled_insert:
  assumes "settled E D" and "x \<notin> D" and "set (E x) \<subseteq> D"
  shows "settled E (insert x D)"
proof -
  have "(x, x) \<notin> (edge_rel E)\<^sup>+"
  proof
    assume "(x, x) \<in> (edge_rel E)\<^sup>+"
    then obtain y where "(x, y) \<in> edge_rel E" "(y, x) \<in> (edge_rel E)\<^sup>*" by (meson tranclD)
    with assms settled_reach show False by (auto simp: edge_rel_def)
  qed
  with assms show ?thesis by (auto simp: settled_def)
qed

definition stack_ok :: "dfs \<Rightarrow> bool" where
  "stack_ok st \<longleftrightarrow> distinct (dfs_path st) \<and> set (dfs_path st) = stacked st"

lemma stacked_finished: "x \<in> stacked st \<Longrightarrow> x \<notin> finished st"
  by (simp add: stacked_def finished_def)

lemma visit_no_cycle:
  "visit n E node st = Some (None, st') \<Longrightarrow> settled E (finished st) \<Longrightarrow> stack_ok st \<Longrightarrow> dfs_state st node = None \<Longrightarrow>
     settled E (finished st') \<and> finished st \<subseteq> finished st' \<and> node \<in> finished st' \<and>
     dfs_path st' = dfs_path st \<and> stacked st' = stacked st"
  "visit_succs n E xs st = Some (None, st') \<Longrightarrow> settled E (finished st) \<Longrightarrow> stack_ok st \<Longrightarrow>
     settled E (finished st') \<and> finished st \<subseteq> finished st' \<and> set xs \<subseteq> finished st' \<and>
     dfs_path st' = dfs_path st \<and> stacked st' = stacked st"
proof (induction n E node st and n E xs st arbitrary: st' and st' rule: visit_visit_succs.induct)
  case (1 E node st)
  then show ?case by simp
next
  case (2 n E node st)
  let ?st = "st\<lparr>dfs_state := (dfs_state st)(node \<mapsto> OnStack), dfs_path := dfs_path st @ [node]\<rparr>"
  from "2.prems"(1) obtain st1 where v: "visit_succs n E (E node) ?st = Some (None, st1)"
    and st': "st' = st1\<lparr>dfs_path := butlast (dfs_path st1), dfs_state := (dfs_state st1)(node \<mapsto> Done)\<rparr>"
    by (auto split: option.splits)
  have f: "finished ?st = finished st" using "2.prems"(4) by (auto simp: finished_def)
  have ns: "node \<notin> set (dfs_path st)" using "2.prems"(3,4) by (auto simp: stack_ok_def stacked_def)
  have s: "stacked ?st = insert node (stacked st)" by (auto simp: stacked_def)
  have "stack_ok ?st" using "2.prems"(3) ns s by (simp add: stack_ok_def)
  from "2.IH" [OF v] "2.prems"(2) f this have IH: "settled E (finished st1)" "finished st \<subseteq> finished st1"
    "set (E node) \<subseteq> finished st1" "dfs_path st1 = dfs_path st @ [node]" "stacked st1 = insert node (stacked st)"
    using s by auto
  have "node \<notin> finished st1" using IH(5) stacked_finished by blast
  have "finished st' = insert node (finished st1)" by (auto simp: st' finished_def)
  moreover have "stacked st' = stacked st1 - {node}" by (auto simp: st' stacked_def)
  moreover have "node \<notin> stacked st" using "2.prems"(4) by (simp add: stacked_def)
  ultimately show ?case
    using IH settled_insert [OF IH(1) \<open>node \<notin> finished st1\<close> IH(3)] by (auto simp: st')
next
  case (3 n E st)
  then show ?case by simp
next
  case (4 n E succ rest st)
  show ?case
  proof (cases "dfs_state st succ")
    case None
    with "4.prems"(1) obtain st1 where v: "visit n E succ st = Some (None, st1)"
      and rest: "visit_succs n E rest st1 = Some (None, st')" by (auto split: option.splits)
    from "4.IH"(1) [OF None v "4.prems"(2,3) None] have IH: "settled E (finished st1)"
      "finished st \<subseteq> finished st1" "succ \<in> finished st1" "dfs_path st1 = dfs_path st" "stacked st1 = stacked st"
      by auto
    then have "stack_ok st1" using "4.prems"(3) by (simp add: stack_ok_def)
    from "4.IH"(2) [OF None v refl refl rest IH(1) this] IH show ?thesis by auto
  next
    case (Some m)
    show ?thesis
    proof (cases m)
      case OnStack
      with Some "4.prems"(3) have "succ \<in> set (dfs_path st)" by (auto simp: stack_ok_def stacked_def)
      then have "dropWhile (\<lambda>m. m \<noteq> succ) (dfs_path st) \<noteq> []" by (simp add: dropWhile_eq_Nil_conv)
      with Some OnStack "4.prems"(1) show ?thesis by (auto split: list.splits)
    next
      case Done
      with Some "4.prems"(1) have "visit_succs n E rest st = Some (None, st')" by simp
      from "4.IH"(4) [OF Some Done this "4.prems"(2,3)] Some Done show ?thesis by (auto simp: finished_def)
    qed
  qed
qed

section \<open>What it returns is a cycle\<close>

fun chain :: "edges \<Rightarrow> string list \<Rightarrow> bool" where
  "chain E (x # y # xs) = (y \<in> set (E x) \<and> chain E (y # xs))"
| "chain E _ = True"

definition is_cycle :: "edges \<Rightarrow> string list \<Rightarrow> bool" where
  "is_cycle E c \<longleftrightarrow> 2 \<le> length c \<and> hd c = last c \<and> chain E c"

lemma chain_append: "chain E (xs @ [y]) \<longleftrightarrow> chain E xs \<and> (xs \<noteq> [] \<longrightarrow> y \<in> set (E (last xs)))"
  by (induction E xs rule: chain.induct) auto

lemma chain_dropWhile: "chain E xs \<Longrightarrow> chain E (dropWhile P xs)"
proof (induction E xs rule: chain.induct)
  case (1 E x y xs)
  then show ?case by auto
qed auto

lemma visit_path:
  "visit n E node st = Some (None, st') \<Longrightarrow> dfs_path st' = dfs_path st"
  "visit_succs n E xs st = Some (None, st') \<Longrightarrow> dfs_path st' = dfs_path st"
proof (induction n E node st and n E xs st arbitrary: st' and st' rule: visit_visit_succs.induct)
  case (2 n E node st)
  let ?st = "st\<lparr>dfs_state := (dfs_state st)(node \<mapsto> OnStack), dfs_path := dfs_path st @ [node]\<rparr>"
  from "2.prems" obtain st1 where "visit_succs n E (E node) ?st = Some (None, st1)"
    and "dfs_path st' = butlast (dfs_path st1)" by (auto split: option.splits)
  with "2.IH" show ?case by simp
next
  case (4 n E succ rest st)
  show ?case
  proof (cases "dfs_state st succ")
    case None
    with "4.prems" obtain st1 where v: "visit n E succ st = Some (None, st1)"
      and rest: "visit_succs n E rest st1 = Some (None, st')" by (auto split: option.splits)
    from "4.IH"(1) [OF None v] "4.IH"(2) [OF None v refl refl rest] show ?thesis by simp
  next
    case (Some m)
    show ?thesis
    proof (cases m)
      case Done
      with Some "4.prems" "4.IH"(4) [OF Some Done] show ?thesis by simp
    next
      case OnStack
      show ?thesis
      proof (cases "dropWhile (\<lambda>m. m \<noteq> succ) (dfs_path st)")
        case Nil
        with Some OnStack "4.prems" "4.IH"(3) [OF Some OnStack Nil] show ?thesis by simp
      next
        case (Cons h t)
        with Some OnStack "4.prems" show ?thesis by simp
      qed
    qed
  qed
qed auto

lemma visit_cycle:
  "visit n E node st = Some (Some c, st') \<Longrightarrow> chain E (dfs_path st @ [node]) \<Longrightarrow> is_cycle E c"
  "visit_succs n E xs st = Some (Some c, st') \<Longrightarrow> chain E (dfs_path st) \<Longrightarrow> dfs_path st \<noteq> [] \<Longrightarrow>
     set xs \<subseteq> set (E (last (dfs_path st))) \<Longrightarrow> is_cycle E c"
proof (induction n E node st and n E xs st arbitrary: st' and st' rule: visit_visit_succs.induct)
  case (2 n E node st)
  let ?st = "st\<lparr>dfs_state := (dfs_state st)(node \<mapsto> OnStack), dfs_path := dfs_path st @ [node]\<rparr>"
  from "2.prems"(1) have "visit_succs n E (E node) ?st = Some (Some c, st')" by (auto split: option.splits)
  from "2.IH" [OF this] "2.prems"(2) show ?case by simp
next
  case (4 n E succ rest st)
  show ?case
  proof (cases "dfs_state st succ")
    case None
    with "4.prems"(1) consider st1 where "visit n E succ st = Some (None, st1)" "visit_succs n E rest st1 = Some (Some c, st')"
      | "visit n E succ st = Some (Some c, st')" by (auto split: option.splits)
    then show ?thesis
    proof cases
      case 1
      from "4.IH"(2) [OF None 1(1) refl refl 1(2)] visit_path(1) [OF 1(1)] "4.prems"(2-4) show ?thesis by simp
    next
      case 2
      from "4.IH"(1) [OF None 2] "4.prems"(2-4) show ?thesis by (simp add: chain_append)
    qed
  next
    case (Some m)
    show ?thesis
    proof (cases m)
      case Done
      with Some "4.prems"(1) have "visit_succs n E rest st = Some (Some c, st')" by simp
      from "4.IH"(4) [OF Some Done this] "4.prems"(2-4) show ?thesis by simp
    next
      case OnStack
      show ?thesis
      proof (cases "dropWhile (\<lambda>m. m \<noteq> succ) (dfs_path st)")
        case Nil
        with Some OnStack "4.prems"(1) have "visit_succs n E rest st = Some (Some c, st')" by simp
        from "4.IH"(3) [OF Some OnStack Nil this] "4.prems"(2-4) show ?thesis by simp
      next
        case (Cons h t)
        with Some OnStack "4.prems"(1) have c: "c = (h # t) @ [succ]" by simp
        have h: "h = succ" using hd_dropWhile [of "\<lambda>m. m \<noteq> succ" "dfs_path st"] Cons by simp
        have "last (h # t) = last (dfs_path st)"
          using Cons by (metis dropWhile_eq_Nil_conv last_append list.distinct(1) takeWhile_dropWhile_id)
        moreover have "chain E (h # t)" using chain_dropWhile [OF "4.prems"(2)] Cons by metis
        ultimately have "chain E c" unfolding c chain_append using "4.prems"(4) by auto
        then show ?thesis by (simp add: c h is_cycle_def)
      qed
    qed
  qed
qed auto

lemma is_cycle_trancl: "is_cycle E c \<Longrightarrow> (hd c, hd c) \<in> (edge_rel E)\<^sup>+"
proof -
  have "(x, last (y # xs)) \<in> (edge_rel E)\<^sup>+" if "chain E (x # y # xs)" for x y xs
    using that
  proof (induction xs arbitrary: x y)
    case Nil
    then show ?case by (auto simp: edge_rel_def)
  next
    case (Cons z xs)
    then have "(x, y) \<in> edge_rel E" "(y, last (z # xs)) \<in> (edge_rel E)\<^sup>+" by (auto simp: edge_rel_def)
    then show ?case by (simp add: trancl_into_trancl2)
  qed
  note path = this
  assume c: "is_cycle E c"
  then obtain x y xs where xs: "c = x # y # xs"
    by (cases c; cases "tl c") (auto simp: is_cycle_def)
  with c have "last (y # xs) = x" by (simp add: is_cycle_def)
  with path [of x y xs] c xs show ?thesis unfolding is_cycle_def by (simp only: list.sel)
qed

section \<open>The fuel is enough\<close>

definition white :: "string set \<Rightarrow> dfs \<Rightarrow> string set" where
  "white U st = {x \<in> U. dfs_state st x = None}"

lemma visit_mono:
  "visit n E node st = Some (r, st') \<Longrightarrow> dfs_state st x \<noteq> None \<Longrightarrow> dfs_state st' x \<noteq> None"
  "visit_succs n E xs st = Some (r, st') \<Longrightarrow> dfs_state st x \<noteq> None \<Longrightarrow> dfs_state st' x \<noteq> None"
proof (induction n E node st and n E xs st arbitrary: r st' and r st' rule: visit_visit_succs.induct)
  case (2 n E node st)
  let ?st = "st\<lparr>dfs_state := (dfs_state st)(node \<mapsto> OnStack), dfs_path := dfs_path st @ [node]\<rparr>"
  from "2.prems"(1) obtain q st1 where v: "visit_succs n E (E node) ?st = Some (q, st1)"
    and "dfs_state st' = dfs_state st1 \<or> dfs_state st' = (dfs_state st1)(node \<mapsto> Done)"
    by (cases "visit_succs n E (E node) ?st") (auto split: option.splits prod.splits)
  with "2.IH" [OF v] "2.prems"(2) show ?case by (auto split: if_splits)
next
  case (4 n E succ rest st)
  show ?case
  proof (cases "dfs_state st succ")
    case None
    show ?thesis
    proof (cases "visit n E succ st")
      case none: None
      with None "4.prems"(1) show ?thesis by simp
    next
      case (Some a)
      obtain q st1 where a: "a = (q, st1)" by force
      with Some "4.IH"(1) [OF None] "4.prems"(2) have "dfs_state st1 x \<noteq> None" by blast
      with "4.IH"(2) [OF None, of a q st1] Some None a "4.prems"(1) show ?thesis by (cases q) auto
    qed
  next
    case (Some m)
    show ?thesis
    proof (cases m)
      case Done
      with Some "4.prems"(1) have "visit_succs n E rest st = Some (r, st')" by simp
      from "4.IH"(4) [OF Some Done this "4.prems"(2)] show ?thesis .
    next
      case OnStack
      with Some "4.IH"(3) [OF Some OnStack] "4.prems" show ?thesis by (auto split: list.splits)
    qed
  qed
qed auto

lemma visit_fuel:
  assumes "finite U"
  shows "\<forall>x \<in> U. set (E x) \<subseteq> U \<Longrightarrow> node \<in> U \<Longrightarrow> dfs_state st node = None \<Longrightarrow> card (white U st) \<le> n \<Longrightarrow> visit n E node st \<noteq> None"
    and "\<forall>x \<in> U. set (E x) \<subseteq> U \<Longrightarrow> set xs \<subseteq> U \<Longrightarrow> card (white U st) \<le> n \<Longrightarrow> visit_succs n E xs st \<noteq> None"
proof (induction n E node st and n E xs st rule: visit_visit_succs.induct)
  case (1 E node st)
  then have "node \<in> white U st" by (simp add: white_def)
  moreover have "finite (white U st)" using assms(1) by (simp add: white_def)
  ultimately show ?case using "1.prems"(4) by auto
next
  case (2 n E node st)
  let ?st = "st\<lparr>dfs_state := (dfs_state st)(node \<mapsto> OnStack), dfs_path := dfs_path st @ [node]\<rparr>"
  have "white U ?st = white U st - {node}" by (auto simp: white_def)
  moreover have "node \<in> white U st" using "2.prems" by (simp add: white_def)
  moreover have "finite (white U st)" using assms(1) by (simp add: white_def)
  ultimately have "card (white U ?st) \<le> n" using "2.prems"(4) by simp
  then have "visit_succs n E (E node) ?st \<noteq> None"
    by (intro "2.IH") (use "2.prems"(1,2) in simp_all)
  then show ?case by (auto split: option.splits)
next
  case (4 n E succ rest st)
  show ?case
  proof (cases "dfs_state st succ")
    case None
    from "4.IH"(1) [OF None] "4.prems" None obtain r st1 where v: "visit n E succ st = Some (r, st1)" by auto
    have "white U st1 \<subseteq> white U st" using visit_mono(1) [OF v] by (fastforce simp: white_def)
    then have "card (white U st1) \<le> n"
      using "4.prems"(3) card_mono [of "white U st" "white U st1"] assms(1) by (simp add: white_def)
    with "4.IH"(2) [OF None v] None v "4.prems"(1,2) show ?thesis by (cases r) auto
  next
    case (Some m)
    show ?thesis
    proof (cases m)
      case Done
      with Some "4.prems" "4.IH"(4) [OF Some Done] show ?thesis by simp
    next
      case OnStack
      show ?thesis
      proof (cases "dropWhile (\<lambda>m. m \<noteq> succ) (dfs_path st)")
        case Nil
        with Some OnStack "4.prems" "4.IH"(3) [OF Some OnStack Nil] show ?thesis by (simp del: dropWhile_eq_Nil_conv)
      next
        case (Cons h t)
        with Some OnStack show ?thesis by simp
      qed
    qed
  qed
qed auto

section \<open>\<open>findCycle\<close> is right\<close>

lemma visit_all_no_cycle:
  "visit_all n E nodes st = Some (None, st') \<Longrightarrow> settled E (finished st) \<Longrightarrow> stacked st = {} \<Longrightarrow>
   settled E (finished st') \<and> finished st \<subseteq> finished st' \<and> set nodes \<subseteq> finished st'"
proof (induction nodes arbitrary: st)
  case (Cons node nodes)
  show ?case
  proof (cases "dfs_state st node")
    case None
    with Cons.prems(1) obtain st1 where v: "visit n E node (st\<lparr>dfs_path := []\<rparr>) = Some (None, st1)"
      and rest: "visit_all n E nodes st1 = Some (None, st')" by (auto split: option.splits)
    have same: "finished (st\<lparr>dfs_path := []\<rparr>) = finished st" "stacked (st\<lparr>dfs_path := []\<rparr>) = stacked st"
      by (simp_all add: finished_def stacked_def)
    have "stack_ok (st\<lparr>dfs_path := []\<rparr>)" using Cons.prems(3) same by (simp add: stack_ok_def)
    from visit_no_cycle(1) [OF v _ this] Cons.prems(2,3) None same
    have "settled E (finished st1)" "finished st \<subseteq> finished st1" "node \<in> finished st1" "stacked st1 = {}" by auto
    with Cons.IH [OF rest] show ?thesis by auto
  next
    case (Some m)
    with Cons.prems(3) have "m = Done" by (cases m) (auto simp: stacked_def)
    then have "node \<in> finished st" using Some by (simp add: finished_def)
    with Cons Some show ?thesis by auto
  qed
qed simp

lemma visit_all_cycle: "visit_all n E nodes st = Some (Some c, st') \<Longrightarrow> is_cycle E c"
proof (induction nodes arbitrary: st)
  case (Cons node nodes)
  then show ?case using visit_cycle(1) [of n E node "st\<lparr>dfs_path := []\<rparr>" c st']
    by (auto split: option.splits)
qed simp

lemma visit_all_fuel:
  "finite U \<Longrightarrow> \<forall>x \<in> U. set (E x) \<subseteq> U \<Longrightarrow> set nodes \<subseteq> U \<Longrightarrow> card U \<le> n \<Longrightarrow> visit_all n E nodes st \<noteq> None"
proof (induction nodes arbitrary: st)
  case (Cons node nodes)
  show ?case
  proof (cases "dfs_state st node")
    case None
    have "card (white U (st\<lparr>dfs_path := []\<rparr>)) \<le> n"
      using Cons.prems(1,4) card_mono [of U "white U (st\<lparr>dfs_path := []\<rparr>)"] by (auto simp: white_def)
    then have "visit n E node (st\<lparr>dfs_path := []\<rparr>) \<noteq> None"
      using visit_fuel(1) [OF Cons.prems(1,2)] Cons.prems(3) None by simp
    with Cons None show ?thesis by (auto split: option.splits)
  qed (use Cons in auto)
qed simp

lemma findCycle_spec:
  assumes "\<forall>x \<in> set nodes. set (E x) \<subseteq> set nodes"
  shows "case findCycle nodes E of
      None \<Rightarrow> \<forall>x \<in> set nodes. (x, x) \<notin> (edge_rel E)\<^sup>+
    | Some c \<Rightarrow> is_cycle E c"
proof -
  let ?st = "\<lparr>dfs_state = Map.empty, dfs_path = []\<rparr>"
  have "card (set nodes) \<le> Suc (length nodes)" using card_length le_SucI by blast
  with visit_all_fuel [of "set nodes" E nodes] assms
  have "visit_all (Suc (length nodes)) E nodes ?st \<noteq> None" by simp
  then obtain r st' where v: "visit_all (Suc (length nodes)) E nodes ?st = Some (r, st')" by fastforce
  have fs: "finished ?st = {}" "stacked ?st = {}" by (simp_all add: finished_def stacked_def)
  then have "settled E (finished ?st)" by (simp add: settled_def)
  with v visit_all_no_cycle [of _ E nodes ?st st'] visit_all_cycle fs show ?thesis
    by (cases r) (auto simp: findCycle_def settled_def)
qed

lemma findCycle_None_iff:
  assumes "\<forall>x \<in> set nodes. set (E x) \<subseteq> set nodes" and "\<And>x. x \<notin> set nodes \<Longrightarrow> E x = []"
  shows "findCycle nodes E = None \<longleftrightarrow> (\<forall>x. (x, x) \<notin> (edge_rel E)\<^sup>+)"
proof (cases "findCycle nodes E")
  case None
  have "x \<in> set nodes" if "(x, x) \<in> (edge_rel E)\<^sup>+" for x
  proof (rule ccontr)
    assume "x \<notin> set nodes"
    then have "E x = []" by (rule assms(2))
    with tranclD [OF that] show False by (auto simp: edge_rel_def)
  qed
  with None findCycle_spec [OF assms(1)] show ?thesis by auto
next
  case (Some c)
  with findCycle_spec [OF assms(1)] have "is_cycle E c" by simp
  then have "(hd c, hd c) \<in> (edge_rel E)\<^sup>+" by (rule is_cycle_trancl)
  then show ?thesis using Some by auto
qed

section \<open>\<open>walk\<close>\<close>

text \<open>The closure \<open>walk\<close> of \<open>validateStepGraph\<close>, with the set \<open>reached\<close>.\<close>

function walk :: "nat \<Rightarrow> edges \<Rightarrow> string \<Rightarrow> string set \<Rightarrow> string set option"
  and walk_succs :: "nat \<Rightarrow> edges \<Rightarrow> string list \<Rightarrow> string set \<Rightarrow> string set option" where
  "walk n E node R =
     (if node \<in> R then Some R
      else case n of 0 \<Rightarrow> None | Suc m \<Rightarrow> walk_succs m E (E node) (insert node R))"
| "walk_succs n E [] R = Some R"
| "walk_succs n E (succ # rest) R =
     (case walk n E succ R of None \<Rightarrow> None | Some R' \<Rightarrow> walk_succs n E rest R')"
  by pat_completeness auto
termination
  by (relation "inv_image (less_than <*lex*> less_than)
    (case_sum (\<lambda>(n, E, node, R). (n, 0)) (\<lambda>(n, E, xs, R). (n, Suc (length xs))))") auto

declare walk.simps [simp del]

definition reachable :: "nat \<Rightarrow> edges \<Rightarrow> string \<Rightarrow> string set" where
  "reachable n E entry = (case walk n E entry {} of Some R \<Rightarrow> R | None \<Rightarrow> {})"

lemma walk_spec:
  "walk n E node R = Some R' \<Longrightarrow>
     R \<subseteq> R' \<and> node \<in> R' \<and> R' \<subseteq> R \<union> (edge_rel E)\<^sup>* `` {node} \<and> (\<forall>x \<in> R' - R. set (E x) \<subseteq> R')"
  "walk_succs n E xs R = Some R' \<Longrightarrow>
     R \<subseteq> R' \<and> set xs \<subseteq> R' \<and> R' \<subseteq> R \<union> (edge_rel E)\<^sup>* `` set xs \<and> (\<forall>x \<in> R' - R. set (E x) \<subseteq> R')"
proof (induction n E node R and n E xs R arbitrary: R' and R' rule: walk_walk_succs.induct)
  case (1 n E node R)
  show ?case
  proof (cases "node \<in> R")
    case True
    with "1.prems" show ?thesis by (auto simp: walk.simps [of n])
  next
    case False
    with "1.prems" obtain m where n: "n = Suc m" and w: "walk_succs m E (E node) (insert node R) = Some R'"
      by (cases n) (auto simp: walk.simps)
    have "(edge_rel E)\<^sup>* `` set (E node) \<subseteq> (edge_rel E)\<^sup>* `` {node}"
      by (auto simp: edge_rel_def intro: converse_rtrancl_into_rtrancl)
    moreover have "node \<in> (edge_rel E)\<^sup>* `` {node}" by simp
    ultimately show ?thesis using "1.IH" [OF False n w] by blast
  qed
next
  case (3 n E succ rest R)
  then obtain R1 where w: "walk n E succ R = Some R1" and r: "walk_succs n E rest R1 = Some R'"
    by (auto split: option.splits)
  note IH1 = "3.IH"(1) [OF w] and IH2 = "3.IH"(2) [OF w r]
  have "(edge_rel E)\<^sup>* `` {succ} \<union> (edge_rel E)\<^sup>* `` set rest = (edge_rel E)\<^sup>* `` set (succ # rest)" by auto
  with IH1 IH2 have "R' \<subseteq> R \<union> (edge_rel E)\<^sup>* `` set (succ # rest)" by blast
  moreover have "set (E x) \<subseteq> R'" if "x \<in> R' - R" for x
    using that IH1 IH2 by (cases "x \<in> R1") blast+
  ultimately show ?case using IH1 IH2 by auto
qed simp

lemma walk_fuel:
  assumes "finite U"
  shows "\<forall>x \<in> U. set (E x) \<subseteq> U \<Longrightarrow> node \<in> U \<Longrightarrow> card (U - R) \<le> n \<Longrightarrow> walk n E node R \<noteq> None"
    and "\<forall>x \<in> U. set (E x) \<subseteq> U \<Longrightarrow> set xs \<subseteq> U \<Longrightarrow> card (U - R) \<le> n \<Longrightarrow> walk_succs n E xs R \<noteq> None"
proof (induction n E node R and n E xs R rule: walk_walk_succs.induct)
  case (1 n E node R)
  show ?case
  proof (cases "node \<in> R")
    case True
    then show ?thesis by (simp add: walk.simps [of n])
  next
    case False
    have "U - insert node R = U - R - {node}" and "node \<in> U - R" using "1.prems"(2) False by auto
    then have "card (U - insert node R) < card (U - R)"
      using assms card_Diff1_less [of "U - R" node] by simp
    moreover from this obtain m where n: "n = Suc m" using "1.prems"(3) by (cases n) auto
    ultimately have "walk_succs m E (E node) (insert node R) \<noteq> None"
      using "1.prems" by (intro "1.IH" [OF False n]) auto
    with False n show ?thesis by (simp add: walk.simps)
  qed
next
  case (3 n E succ rest R)
  from 3 obtain R1 where w: "walk n E succ R = Some R1" by auto
  then have "card (U - R1) \<le> card (U - R)"
    using walk_spec(1) [OF w] assms by (intro card_mono) auto
  with "3.IH"(2) [OF w] "3.prems" w show ?case by auto
qed simp

lemma reachable_correct:
  assumes "finite U" and "\<forall>x \<in> U. set (E x) \<subseteq> U" and "entry \<in> U" and "card U \<le> n"
  shows "reachable n E entry = (edge_rel E)\<^sup>* `` {entry}"
proof -
  obtain R where w: "walk n E entry {} = Some R"
    using walk_fuel(1) [OF assms(1,2,3), of "{}" n] assms(4) by auto
  note spec = walk_spec(1) [OF w]
  have "y \<in> R" if "(entry, y) \<in> (edge_rel E)\<^sup>*" for y
    using that spec by (induction rule: rtrancl_induct) (auto simp: edge_rel_def)
  with spec w show ?thesis by (auto simp: reachable_def)
qed

end
