(* ===== verification/Validate.thy ===== *)
theory Validate
  imports Manifest Graph
begin

text \<open>
  The static checks (\<open>manifest/validate.go\<close>): \<open>Validate\<close> reports errors and warnings of a decoded
  manifest. Each check is the list of the issues it appends to the report.
\<close>

section \<open>Reports\<close>

datatype severity = Error | Warning

text \<open>Errors sort before warnings.\<close>

instantiation severity :: linorder
begin

fun less_eq_severity :: "severity \<Rightarrow> severity \<Rightarrow> bool" where
  "less_eq_severity Error s = True"
| "less_eq_severity Warning s = (s = Warning)"

definition less_severity :: "severity \<Rightarrow> severity \<Rightarrow> bool" where
  "less_severity s t \<longleftrightarrow> s \<le> t \<and> \<not> t \<le> s"

instance
proof
  fix x y z :: severity
  show "x < y \<longleftrightarrow> x \<le> y \<and> \<not> y \<le> x" by (simp add: less_severity_def)
  show "x \<le> x" by (cases x) auto
  show "x \<le> y \<Longrightarrow> y \<le> z \<Longrightarrow> x \<le> z" by (cases x; cases y; cases z) auto
  show "x \<le> y \<Longrightarrow> y \<le> x \<Longrightarrow> x = y" by (cases x; cases y) auto
  show "x \<le> y \<or> y \<le> x" by (cases x; cases y) auto
qed

end

record issue =
  issue_Severity :: severity
  issue_Message :: string

type_synonym report = "issue list"

definition errf :: "string \<Rightarrow> issue" where
  "errf msg = \<lparr>issue_Severity = Error, issue_Message = msg\<rparr>"

definition warnf :: "string \<Rightarrow> issue" where
  "warnf msg = \<lparr>issue_Severity = Warning, issue_Message = msg\<rparr>"

definition report_OK :: "report \<Rightarrow> bool" where
  "report_OK r \<longleftrightarrow> (\<forall>i \<in> set r. issue_Severity i \<noteq> Error)"

lemma report_OK_simps [simp]:
  "report_OK []" "report_OK (r1 @ r2) \<longleftrightarrow> report_OK r1 \<and> report_OK r2"
  "\<not> report_OK (errf m # r)" "report_OK (warnf m # r) \<longleftrightarrow> report_OK r"
  by (auto simp: report_OK_def errf_def warnf_def)

lemma report_OK_concat [simp]: "report_OK (concat rs) \<longleftrightarrow> (\<forall>r \<in> set rs. report_OK r)"
  by (auto simp: report_OK_def)

definition severity_text :: "severity \<Rightarrow> string" where
  "severity_text s = (case s of Error \<Rightarrow> ''error'' | Warning \<Rightarrow> ''warning'')"

definition report_String :: "report \<Rightarrow> string" where
  "report_String r =
     (if r = [] then ''ok: no issues''
      else trim_right_by (\<lambda>c. c = CHR 0x0A)
        (concat (map (\<lambda>i. ''['' @ severity_text (issue_Severity i) @ ''] '' @ issue_Message i @ [CHR 0x0A])
           (sort_key issue_Severity r))))"

section \<open>One step\<close>

definition in_step :: "string \<Rightarrow> string \<Rightarrow> string" where
  "in_step workflowID stepID = ''workflow '' @ quoted workflowID @ '' step '' @ quoted stepID"

definition check_on_success :: "string \<Rightarrow> step_spec \<Rightarrow> string set \<Rightarrow> report" where
  "check_on_success loc s stepIDs =
     (if sspec_OnSuccess s \<noteq> [] \<and> sspec_OnSuccess s \<notin> stepIDs then
        [errf (loc @ '': on_success '' @ quoted (sspec_OnSuccess s) @ '' is not a step in this workflow'')] else [])"

definition check_compensation :: "string \<Rightarrow> step_spec \<Rightarrow> string set \<Rightarrow> report" where
  "check_compensation loc s stepIDs =
     (if sspec_CompensateWith s = [] then []
      else
        (if sspec_CompensateWith s \<notin> stepIDs then
           [errf (loc @ '': compensate_with '' @ quoted (sspec_CompensateWith s) @ '' is not a step in this workflow'')] else []) @
        (if sspec_CompensateWith s = sspec_StepID s then [errf (loc @ '': compensate_with points at itself'')] else []) @
        (if sspec_Type s = ''composite'' \<or> sspec_Type s = ''parallel'' then
           [errf (loc @ '': only a leaf step can declare compensate_with'')] else []))"

definition check_policy :: "string \<Rightarrow> step_spec \<Rightarrow> string set \<Rightarrow> (string \<rightharpoonup> string) \<Rightarrow> report" where
  "check_policy loc s stepIDs policyFallbacks =
     (if sspec_CircuitBreakerPolicyRef s = [] then []
      else case policyFallbacks (sspec_CircuitBreakerPolicyRef s) of
        None \<Rightarrow> [errf (loc @ '': circuit_breaker_policy_ref '' @ quoted (sspec_CircuitBreakerPolicyRef s) @
                  '' is not a declared policy'')]
      | Some fallback \<Rightarrow>
          (if fallback \<noteq> [] \<and> fallback \<notin> stepIDs then
             [errf (loc @ '': policy '' @ quoted (sspec_CircuitBreakerPolicyRef s) @ '' falls back to step '' @
                quoted fallback @ '', which does not exist in this workflow'')] else []))"

definition check_leaf :: "string \<Rightarrow> step_spec \<Rightarrow> 'w library \<Rightarrow> report" where
  "check_leaf loc s std =
     (if sspec_ActionRef s = [] then [errf (loc @ '': leaf step has no action_ref'')]
      else case std (sspec_ActionRef s) of
        Some factory \<Rightarrow>
          (case factory (sspec_With s) of
             Inl err \<Rightarrow> [errf (loc @ '': action '' @ quoted (sspec_ActionRef s) @ '' misconfigured: '' @ err)]
           | Inr _ \<Rightarrow> [])
      | None \<Rightarrow> [warnf (loc @ '': action_ref '' @ quoted (sspec_ActionRef s) @
          '' is not a standard action; its existence is verified against Go hooks at load time'')])"

definition check_composite :: "string \<Rightarrow> step_spec \<Rightarrow> string set \<Rightarrow> report" where
  "check_composite loc s workflowIDs =
     (if sspec_SubWorkflowRef s = [] then [errf (loc @ '': composite step has no sub_workflow_ref'')]
      else if sspec_SubWorkflowRef s \<notin> workflowIDs then
        [errf (loc @ '': sub_workflow_ref '' @ quoted (sspec_SubWorkflowRef s) @ '' does not match any workflow_id'')]
      else [])"

fun branch_issues :: "string \<Rightarrow> string set \<Rightarrow> string list \<Rightarrow> string list \<Rightarrow> report" where
  "branch_issues loc workflowIDs seen [] = []"
| "branch_issues loc workflowIDs seen (branch # rest) =
     (if branch = [] then [errf (loc @ '': branches contains an empty workflow_id'')]
      else if branch \<notin> workflowIDs then
        [errf (loc @ '': branch '' @ quoted branch @ '' does not match any workflow_id'')]
      else if branch \<in> set seen then
        [errf (loc @ '': branch '' @ quoted branch @
           '' is listed twice; running one workflow twice in parallel joins it against itself'')]
      else []) @ branch_issues loc workflowIDs (branch # seen) rest"

definition check_parallel :: "string \<Rightarrow> step_spec \<Rightarrow> string set \<Rightarrow> report" where
  "check_parallel loc s workflowIDs =
     (if sspec_Branches s = [] then [errf (loc @ '': parallel step has no branches'')]
      else branch_issues loc workflowIDs [] (sspec_Branches s) @
        (if length (sspec_Branches s) = 1 then
           [warnf (loc @ '': a parallel step with one branch is a composite step spelled the long way'')] else []))"

definition validateStep :: "string \<Rightarrow> step_spec \<Rightarrow> string set \<Rightarrow> string set \<Rightarrow> (string \<rightharpoonup> string) \<Rightarrow> 'w library \<Rightarrow> report" where
  "validateStep workflowID s stepIDs workflowIDs policyFallbacks std =
     (let loc = in_step workflowID (sspec_StepID s) in
      check_on_success loc s stepIDs @ check_compensation loc s stepIDs @ check_policy loc s stepIDs policyFallbacks @
      (if sspec_Type s = ''leaf'' then check_leaf loc s std
       else if sspec_Type s = ''composite'' then check_composite loc s workflowIDs
       else if sspec_Type s = ''parallel'' then check_parallel loc s workflowIDs
       else [errf (loc @ '': unknown type '' @ quoted (sspec_Type s) @ '' '' @ want_types)]))"

section \<open>One workflow\<close>

fun step_id_issues :: "string \<Rightarrow> string set \<Rightarrow> step_spec list \<Rightarrow> report" where
  "step_id_issues workflowID seen [] = []"
| "step_id_issues workflowID seen (s # rest) =
     (if sspec_StepID s = [] then
        errf (''workflow '' @ quoted workflowID @ '' has a step with no step_id'') # step_id_issues workflowID seen rest
      else
        (if sspec_StepID s \<in> seen then
           [errf (''workflow '' @ quoted workflowID @ '' has duplicate step_id '' @ quoted (sspec_StepID s))] else []) @
        step_id_issues workflowID (insert (sspec_StepID s) seen) rest)"

definition step_ids :: "workflow_spec \<Rightarrow> string list" where
  "step_ids ws = filter (\<lambda>i. i \<noteq> []) (map sspec_StepID (wspec_Steps ws))"

text \<open>The edges of the two graphs: on success alone, and with the fallbacks.\<close>

definition success_edges :: "workflow_spec \<Rightarrow> edges" where
  "success_edges ws i =
     concat (map (\<lambda>s. if sspec_StepID s = i \<and> i \<noteq> [] \<and> sspec_OnSuccess s \<noteq> [] \<and> sspec_OnSuccess s \<in> set (step_ids ws)
        then [sspec_OnSuccess s] else []) (wspec_Steps ws))"

definition all_edges :: "workflow_spec \<Rightarrow> (string \<rightharpoonup> string) \<Rightarrow> edges" where
  "all_edges ws policyFallbacks i =
     concat (map (\<lambda>s. if sspec_StepID s = i \<and> i \<noteq> [] then
        (if sspec_OnSuccess s \<noteq> [] \<and> sspec_OnSuccess s \<in> set (step_ids ws) then [sspec_OnSuccess s] else []) @
        (case policyFallbacks (sspec_CircuitBreakerPolicyRef s) of
           Some fallback \<Rightarrow> if fallback \<in> set (step_ids ws) then [fallback] else []
         | None \<Rightarrow> []) else []) (wspec_Steps ws))"

definition arrow_join :: "string list \<Rightarrow> string" where
  "arrow_join cycle = str_join cycle '' -> ''"

definition validateStepGraph :: "workflow_spec \<Rightarrow> (string \<rightharpoonup> string) \<Rightarrow> report" where
  "validateStepGraph ws policyFallbacks =
     (let order = step_ids ws; w = quoted (wspec_WorkflowID ws);
          reached = reachable (length order) (all_edges ws policyFallbacks) (wspec_EntryStepID ws) in
      (case findCycle order (success_edges ws) of
         Some cycle \<Rightarrow> [errf (''workflow '' @ w @ '' has an on_success cycle: '' @ arrow_join cycle @
           '' -- Engine.Run would spin until it hits the step limit'')]
       | None \<Rightarrow>
           (case findCycle order (all_edges ws policyFallbacks) of
              Some cycle \<Rightarrow> [warnf (''workflow '' @ w @ '' can loop through a circuit breaker fallback: '' @ arrow_join cycle @
                '' -- only spins if the steps keep failing, but it will not terminate on its own if they do'')]
            | None \<Rightarrow> [])) @
      map (\<lambda>i. warnf (''workflow '' @ w @ '' step '' @ quoted i @ '' is unreachable from entry_step_id '' @
             quoted (wspec_EntryStepID ws))) (filter (\<lambda>i. i \<notin> reached) order))"

definition validateWorkflow :: "workflow_spec \<Rightarrow> string set \<Rightarrow> (string \<rightharpoonup> string) \<Rightarrow> 'w library \<Rightarrow> report" where
  "validateWorkflow ws workflowIDs policyFallbacks std =
     (let w = wspec_WorkflowID ws; stepIDs = set (step_ids ws) in
      (if w = [] then [errf ''a workflow is missing workflow_id''] else []) @
      step_id_issues w {} (wspec_Steps ws) @
      (if wspec_EntryStepID ws = [] then [errf (''workflow '' @ quoted w @ '' has no entry_step_id'')]
       else if wspec_EntryStepID ws \<notin> stepIDs then
         [errf (''workflow '' @ quoted w @ '' entry_step_id '' @ quoted (wspec_EntryStepID ws) @ '' is not one of its steps'')]
       else validateStepGraph ws policyFallbacks) @
      concat (map (\<lambda>s. validateStep w s stepIDs workflowIDs policyFallbacks std) (wspec_Steps ws)))"

section \<open>The manifest\<close>

definition policy_issue :: "policy_spec \<Rightarrow> report" where
  "policy_issue p =
     (if pspec_PolicyID p = [] then [errf ''a policy is missing policy_id'']
      else if pspec_FallbackStepRef p = [] then
        [errf (''policy '' @ quoted (pspec_PolicyID p) @ '' has no fallback_step_ref'')]
      else [])"

definition policy_issues :: "policy_spec list \<Rightarrow> report" where
  "policy_issues ps = concat (map policy_issue ps)"

definition policy_fallbacks :: "policy_spec list \<Rightarrow> string \<rightharpoonup> string" where
  "policy_fallbacks ps =
     fold (\<lambda>p m. if pspec_PolicyID p = [] then m else m(pspec_PolicyID p \<mapsto> pspec_FallbackStepRef p)) ps Map.empty"

text \<open>The edges between workflows: every known workflow a composite or a parallel step nests.\<close>

definition nested_refs :: "step_spec \<Rightarrow> string list" where
  "nested_refs s =
     (if sspec_Type s = ''composite'' \<and> sspec_SubWorkflowRef s \<noteq> [] then [sspec_SubWorkflowRef s] else []) @
     (if sspec_Type s = ''parallel'' then filter (\<lambda>b. b \<noteq> []) (sspec_Branches s) else [])"

definition sub_edges :: "workflow_spec list \<Rightarrow> edges" where
  "sub_edges wss i =
     concat (map (\<lambda>ws. if wspec_WorkflowID ws = i then
        filter (\<lambda>r. r \<in> wspec_WorkflowID ` set wss) (concat (map nested_refs (wspec_Steps ws))) else []) wss)"

definition validateSubWorkflowAcyclic :: "workflow_spec list \<Rightarrow> report" where
  "validateSubWorkflowAcyclic wss =
     (case findCycle (map wspec_WorkflowID wss) (sub_edges wss) of
        Some cycle \<Rightarrow> [errf (''sub-workflow cycle: '' @ arrow_join cycle @
          '' -- Engine.Run would recurse until the process dies of stack overflow'')]
      | None \<Rightarrow> [])"

definition intent_issues :: "string set \<Rightarrow> intent_spec \<Rightarrow> report" where
  "intent_issues workflowIDs intent =
     (let node = quoted (ispec_NodeID intent); entry = entryWorkflow intent in
      (if ispec_NodeID intent = [] then [errf ''an intent is missing node_id'']
       else if CHR ''.'' \<notin> set (ispec_NodeID intent) then
         [warnf (''intent node_id '' @ node @ '' has no domain prefix (convention: <domain>.<name>)'')] else []) @
      (if conflictingEntry intent then
         [errf (''intent '' @ node @ '' sets both entry_workflow_ref ('' @ quoted (ispec_EntryWorkflowRef intent) @
            '') and the deprecated entry_step_ref ('' @ quoted (ispec_DeprecatedEntryStepRef intent) @
            '') to different values; keep one'')]
       else if ispec_DeprecatedEntryStepRef intent \<noteq> [] then
         [warnf (''intent '' @ node @ '' uses entry_step_ref, which is deprecated and will be removed; rename it to entry_workflow_ref (the value is a workflow_id, which is what the old name got wrong)'')]
       else []) @
      (if entry = [] then [errf (''intent '' @ node @ '' has no entry_workflow_ref'')]
       else if entry \<notin> workflowIDs then
         [errf (''intent '' @ node @ '' entry_workflow_ref '' @ quoted entry @ '' does not match any workflow_id'')]
       else []))"

definition validate_file :: "manifest_file \<Rightarrow> 'w library \<Rightarrow> report" where
  "validate_file f std =
     (let workflowIDs = wspec_WorkflowID ` set (file_Workflows f);
          fallbacks = policy_fallbacks (file_Policies f) in
      (if file_Name f = [] then [errf ''missing domain name''] else []) @
      policy_issues (file_Policies f) @
      concat (map (\<lambda>ws. validateWorkflow ws workflowIDs fallbacks std) (file_Workflows f)) @
      validateSubWorkflowAcyclic (file_Workflows f) @
      concat (map (intent_issues workflowIDs) (file_Intents f)))"

definition Validate :: "(string + manifest_file) \<Rightarrow> 'w library \<Rightarrow> report" where
  "Validate decoded std =
     (case decoded of
        Inl err \<Rightarrow> [errf (''invalid JSON: '' @ err)]
      | Inr f \<Rightarrow> validate_file f std)"

end
