(* ===== verification/Floats.thy ===== *)
theory Floats
  imports GoValue
begin

text \<open>
  The arithmetic on \<open>float64\<close> the router and the scorecard use: the exact result of an operation
  rounded to 53 bits, half to even, with gradual underflow and overflow to infinity. Executable, on
  rationals. No fused multiply-add, as on amd64; signed zeros are not distinguished, and no division
  by zero is reached by the code.
\<close>

definition round64 :: "rat \<Rightarrow> float64" where
  "round64 q =
     (if q = 0 then Fin 0
      else
        (let a = \<bar>q\<bar>; e = max (ilog2 a - 52) (- 1074); m = of_int (round_rat (a / pow2 e)) * pow2 e in
         if pow2 1024 \<le> m then Inf (q < 0)
         else Fin (if q < 0 then - m else m)))"

fun f64_neg :: "float64 \<Rightarrow> float64" where
  "f64_neg NaN = NaN"
| "f64_neg (Inf s) = Inf (\<not> s)"
| "f64_neg (Fin x) = Fin (- x)"

fun f64_add :: "float64 \<Rightarrow> float64 \<Rightarrow> float64" where
  "f64_add (Fin x) (Fin y) = round64 (x + y)"
| "f64_add (Inf s) (Inf t) = (if s = t then Inf s else NaN)"
| "f64_add (Inf s) (Fin _) = Inf s"
| "f64_add (Fin _) (Inf s) = Inf s"
| "f64_add _ _ = NaN"

definition f64_sub :: "float64 \<Rightarrow> float64 \<Rightarrow> float64" where
  "f64_sub x y = f64_add x (f64_neg y)"

fun f64_mul :: "float64 \<Rightarrow> float64 \<Rightarrow> float64" where
  "f64_mul (Fin x) (Fin y) = round64 (x * y)"
| "f64_mul (Inf s) (Inf t) = Inf (s \<noteq> t)"
| "f64_mul (Inf s) (Fin x) = (if x = 0 then NaN else Inf (s \<noteq> (x < 0)))"
| "f64_mul (Fin x) (Inf s) = (if x = 0 then NaN else Inf (s \<noteq> (x < 0)))"
| "f64_mul _ _ = NaN"

fun f64_div :: "float64 \<Rightarrow> float64 \<Rightarrow> float64" where
  "f64_div (Fin x) (Fin y) = (if y = 0 then (if x = 0 then NaN else Inf (x < 0)) else round64 (x / y))"
| "f64_div (Inf s) (Inf t) = NaN"
| "f64_div (Inf s) (Fin x) = Inf (s \<noteq> (x < 0))"
| "f64_div (Fin x) (Inf s) = Fin 0"
| "f64_div _ _ = NaN"

text \<open>The integer square root, and from it the correctly rounded one.\<close>

fun isqrt :: "nat \<Rightarrow> nat" where
  "isqrt n =
     (if n = 0 then 0
      else (let r = 2 * isqrt (n div 4) in if (r + 1) * (r + 1) \<le> n then r + 1 else r))"

declare isqrt.simps [simp del]

lemma isqrt_correct: "isqrt n * isqrt n \<le> n \<and> n < (isqrt n + 1) * (isqrt n + 1)"
proof (induction n rule: isqrt.induct)
  case (1 n)
  show ?case
  proof (cases "n = 0")
    case True
    then show ?thesis by (simp add: isqrt.simps [of 0])
  next
    case False
    define q where "q = isqrt (n div 4)"
    have IH: "q * q \<le> n div 4" "n div 4 < (q + 1) * (q + 1)" using 1 [OF False] by (simp_all add: q_def)
    from IH(1) have lo: "(2 * q) * (2 * q) \<le> n" by (simp add: algebra_simps)
    from IH(2) have "n < 4 * ((q + 1) * (q + 1))" by linarith
    then have hi: "n < (2 * q + 2) * (2 * q + 2)" by (simp add: algebra_simps)
    show ?thesis
      using lo hi False by (simp add: isqrt.simps [of n] Let_def q_def [symmetric])
  qed
qed

definition f64_sqrt :: "float64 \<Rightarrow> float64" where
  "f64_sqrt x =
     (case x of
        NaN \<Rightarrow> NaN
      | Inf s \<Rightarrow> if s then NaN else Inf False
      | Fin q \<Rightarrow>
          if q < 0 then NaN
          else if q = 0 then Fin 0
          else
            (let e = ilog2 q div 2 - 52; s = q / pow2 (2 * e); m = isqrt (nat \<lfloor>s\<rfloor>);
                 half = of_nat (2 * m + 1) / 2 in
             Fin (of_nat (if half * half < s then m + 1 else m) * pow2 e)))"

lemma round64_not_NaN [simp]: "round64 q \<noteq> NaN"
  by (simp add: round64_def Let_def)

definition f64_of_nat :: "nat \<Rightarrow> float64" where
  "f64_of_nat n = f64_of_int (int n)"

lemma f64_of_nat_small: "n < 2 ^ 53 \<Longrightarrow> f64_of_nat n = Fin (of_nat n)"
  by (simp add: f64_of_nat_def f64_of_int_small)

lemma excess_bits_le: "0 < n \<Longrightarrow> 2 ^ excess_bits n \<le> n"
proof (induction n rule: excess_bits.induct)
  case (1 n)
  show ?case
  proof (cases "n < 2 ^ 53")
    case False
    then have "0 < n div 2" by simp
    from "1.IH" [OF False this] have "2 * 2 ^ excess_bits (n div 2) \<le> n" by linarith
    then show ?thesis using False by (simp add: excess_bits.simps [of n])
  qed (use 1 in \<open>simp add: excess_bits.simps [of n]\<close>)
qed

text \<open>A positive integer stays positive as a float, so dividing by it is exact up to one rounding.\<close>

lemma f64_of_nat_pos: "0 < n \<Longrightarrow> \<exists>q. f64_of_nat n = Fin q \<and> q \<noteq> 0"
proof -
  assume n: "0 < n"
  let ?k = "excess_bits n"
  have "1 \<le> n div 2 ^ ?k" using excess_bits_le [OF n] by (simp add: Suc_leI div_greater_zero_iff)
  also have "\<dots> \<le> round_half_even n (2 ^ ?k)" by (simp add: round_half_even_def Let_def)
  finally have "round53 (int n) \<noteq> 0" using n by (simp add: round53_def Let_def)
  then show ?thesis by (simp add: f64_of_nat_def f64_of_int_def)
qed

lemma f64_div_nats_not_NaN: "0 < n \<Longrightarrow> f64_div (f64_of_nat m) (f64_of_nat n) \<noteq> NaN"
  using f64_of_nat_pos [of n] by (auto simp: f64_of_nat_def [of m] f64_of_int_def)

section \<open>Order\<close>

lemma f64_lt_trans: "f64_lt x y \<Longrightarrow> f64_lt y z \<Longrightarrow> f64_lt x z"
  by (cases x; cases y; cases z) auto

lemma f64_lt_irrefl [simp]: "\<not> f64_lt x x"
  by (cases x) auto

lemma f64_not_lt: "x \<noteq> NaN \<Longrightarrow> y \<noteq> NaN \<Longrightarrow> \<not> f64_lt x y \<Longrightarrow> f64_le y x"
  by (cases x; cases y) (auto simp: f64_le_def)

lemma f64_le_trans: "f64_le x y \<Longrightarrow> f64_le y z \<Longrightarrow> f64_le x z"
  by (cases x; cases y; cases z) (auto simp: f64_le_def)

lemma f64_le_lt_trans: "f64_le x y \<Longrightarrow> f64_lt y z \<Longrightarrow> f64_lt x z"
  by (cases x; cases y; cases z) (auto simp: f64_le_def)

lemma f64_le_refl: "x \<noteq> NaN \<Longrightarrow> f64_le x x"
  by (cases x) (auto simp: f64_le_def)

end
