(* ===== verification/Router.thy ===== *)
theory Router
  imports Entities Floats Utf8
begin

text \<open>
  The intent router (\<open>intentrouter/router.go\<close>). A query is matched to the example it shares most with:
  by Jaccard similarity of word sets, or by cosine similarity of vectors from an external vectorizer
  whose answers are cached. The Unicode tables beyond ASCII are a parameter (\<open>unicode\<close>): which code
  points are letters or numbers, and their lower case.
\<close>

section \<open>Tokens\<close>

record unicode =
  uni_alnum :: "nat \<Rightarrow> bool"
  uni_lower :: "nat \<Rightarrow> nat"

definition rune_alnum :: "unicode \<Rightarrow> nat \<Rightarrow> bool" where
  "rune_alnum u r \<longleftrightarrow>
     (if r < 128 then 48 \<le> r \<and> r \<le> 57 \<or> 65 \<le> r \<and> r \<le> 90 \<or> 97 \<le> r \<and> r \<le> 122 else uni_alnum u r)"

definition rune_lower :: "unicode \<Rightarrow> nat \<Rightarrow> nat" where
  "rune_lower u r = (if r < 128 then (if 65 \<le> r \<and> r \<le> 90 then r + 32 else r) else uni_lower u r)"

text \<open>\<open>FindAllString\<close> of the pattern: the maximal runs of letters and numbers.\<close>

fun word_runs :: "(nat \<Rightarrow> bool) \<Rightarrow> nat list \<Rightarrow> nat list \<Rightarrow> nat list list" where
  "word_runs P cur [] = (if cur = [] then [] else [cur])"
| "word_runs P cur (r # rs) =
     (if P r then word_runs P (cur @ [r]) rs
      else if cur = [] then word_runs P [] rs
      else cur # word_runs P [] rs)"

definition tokenize :: "unicode \<Rightarrow> string \<Rightarrow> nat list set" where
  "tokenize u text = set (word_runs (rune_alnum u) [] (map (rune_lower u) (runes (map of_char text))))"

lemma finite_tokenize [simp]: "finite (tokenize u text)"
  by (simp add: tokenize_def)

definition jaccard :: "'a set \<Rightarrow> 'a set \<Rightarrow> float64" where
  "jaccard a b =
     (if card a = 0 \<or> card b = 0 then Fin 0
      else
        (let intersection = card (a \<inter> b); union = card a + card b - intersection
         in f64_div (f64_of_nat intersection) (f64_of_nat union)))"

text \<open>The loop of \<open>cosine\<close> over the two vectors at once.\<close>

fun cosine_sums :: "float64 list \<Rightarrow> float64 list \<Rightarrow> float64 \<times> float64 \<times> float64 \<Rightarrow> float64 \<times> float64 \<times> float64" where
  "cosine_sums (x # xs) (y # ys) (d, na, nb) =
     cosine_sums xs ys (f64_add d (f64_mul x y), f64_add na (f64_mul x x), f64_add nb (f64_mul y y))"
| "cosine_sums _ _ acc = acc"

definition cosine :: "float64 list \<Rightarrow> float64 list \<Rightarrow> float64" where
  "cosine a b =
     (if length a \<noteq> length b \<or> a = [] then Fin 0
      else case cosine_sums a b (Fin 0, Fin 0, Fin 0) of
        (d, na, nb) \<Rightarrow>
          if f64_eq na (Fin 0) \<or> f64_eq nb (Fin 0) then Fin 0
          else f64_div d (f64_mul (f64_sqrt na) (f64_sqrt nb)))"

section \<open>The router\<close>

text \<open>The vectorizer is a service outside the repository. \<open>rtr_log\<close> is what the observer is told.\<close>

type_synonym 'w vectorizer = "string \<Rightarrow> 'w \<Rightarrow> (string + float64 list) \<times> 'w"

record 'w router =
  rtr_threshold :: float64
  rtr_nodes :: "string \<Rightarrow> intent_node list"
  rtr_cache :: "string \<rightharpoonup> float64 list"
  rtr_vectorizer :: "'w vectorizer option"
  rtr_observer :: bool
  rtr_log :: "(string \<times> bool) list"

definition NewRouter :: "float64 \<Rightarrow> 'w router" where
  "NewRouter threshold =
     \<lparr>rtr_threshold = threshold, rtr_nodes = (\<lambda>_. []), rtr_cache = Map.empty, rtr_vectorizer = None,
      rtr_observer = False, rtr_log = []\<rparr>"

definition SetVectorizer :: "'w vectorizer option \<Rightarrow> 'w router \<Rightarrow> 'w router" where
  "SetVectorizer v r = r\<lparr>rtr_vectorizer := v\<rparr>"

definition router_SetObserver :: "bool \<Rightarrow> 'w router \<Rightarrow> 'w router" where
  "router_SetObserver ob r = r\<lparr>rtr_observer := ob\<rparr>"

definition RegisterNode :: "intent_node \<Rightarrow> 'w router \<Rightarrow> 'w router" where
  "RegisterNode node r =
     r\<lparr>rtr_nodes := (rtr_nodes r)(node_DomainID node := rtr_nodes r (node_DomainID node) @ [node])\<rparr>"

type_synonym best = "intent_node option \<times> float64"

definition challenge :: "intent_node \<Rightarrow> float64 \<Rightarrow> best \<Rightarrow> best" where
  "challenge node score b = (if f64_lt (snd b) score then (Some node, score) else b)"

definition router_result :: "'w router \<Rightarrow> best \<Rightarrow> match_result" where
  "router_result r b =
     (case b of
        (Some node, score) \<Rightarrow>
          if f64_le (rtr_threshold r) score then
            \<lparr>match_Matched = True, match_NodeRef = node_NodeID node, match_Confidence = score,
             match_EntryWorkflowRef = node_EntryWorkflowRef node\<rparr>
          else \<lparr>match_Matched = False, match_NodeRef = [], match_Confidence = score, match_EntryWorkflowRef = []\<rparr>
      | (None, score) \<Rightarrow>
          \<lparr>match_Matched = False, match_NodeRef = [], match_Confidence = score, match_EntryWorkflowRef = []\<rparr>)"

text \<open>The candidates in the order of the two loops: every example of every node.\<close>

definition candidates :: "intent_node list \<Rightarrow> (intent_node \<times> string) list" where
  "candidates nodes = concat (map (\<lambda>node. map (Pair node) (node_Examples node)) nodes)"

definition matchLexical :: "unicode \<Rightarrow> 'w router \<Rightarrow> string \<Rightarrow> string \<Rightarrow> match_result" where
  "matchLexical u r domainID rawText =
     (let queryTokens = tokenize u rawText in
      router_result r
        (fold (\<lambda>(node, example). challenge node (jaccard queryTokens (tokenize u example)))
          (candidates (rtr_nodes r domainID)) (None, Fin 0)))"

definition vectorFor :: "'w vectorizer \<Rightarrow> string \<Rightarrow> 'w router \<Rightarrow> 'w \<Rightarrow> (string + float64 list) \<times> 'w router \<times> 'w" where
  "vectorFor vec text r w =
     (case rtr_cache r text of
        Some v \<Rightarrow> (Inr v, r, w)
      | None \<Rightarrow>
          (case vec text w of
             (Inl err, w1) \<Rightarrow> (Inl err, r, w1)
           | (Inr v, w1) \<Rightarrow> (Inr v, r\<lparr>rtr_cache := (rtr_cache r)(text \<mapsto> v)\<rparr>, w1)))"

fun semantic_best :: "'w vectorizer \<Rightarrow> float64 list \<Rightarrow> (intent_node \<times> string) list \<Rightarrow> best \<Rightarrow> 'w router \<Rightarrow> 'w \<Rightarrow>
    best option \<times> 'w router \<times> 'w" where
  "semantic_best vec q [] b r w = (Some b, r, w)"
| "semantic_best vec q ((node, example) # rest) b r w =
     (case vectorFor vec example r w of
        (Inl err, r1, w1) \<Rightarrow> (None, r1, w1)
      | (Inr v, r1, w1) \<Rightarrow> semantic_best vec q rest (challenge node (cosine q v) b) r1 w1)"

text \<open>\<open>None\<close> is \<open>ok = false\<close>: some text could not be vectorized.\<close>

definition matchSemantic :: "'w vectorizer \<Rightarrow> string \<Rightarrow> string \<Rightarrow> 'w router \<Rightarrow> 'w \<Rightarrow> match_result option \<times> 'w router \<times> 'w" where
  "matchSemantic vec domainID rawText r w =
     (case vectorFor vec rawText r w of
        (Inl err, r1, w1) \<Rightarrow> (None, r1, w1)
      | (Inr q, r1, w1) \<Rightarrow>
          (case semantic_best vec q (candidates (rtr_nodes r1 domainID)) (None, Fin 0) r1 w1 of
             (None, r2, w2) \<Rightarrow> (None, r2, w2)
           | (Some b, r2, w2) \<Rightarrow> (Some (router_result r2 b), r2, w2)))"

definition router_match :: "unicode \<Rightarrow> string \<Rightarrow> string \<Rightarrow> 'w router \<Rightarrow> 'w \<Rightarrow> match_result \<times> 'w router \<times> 'w" where
  "router_match u domainID rawText r w =
     (case rtr_vectorizer r of
        None \<Rightarrow> (matchLexical u r domainID rawText, r, w)
      | Some vec \<Rightarrow>
          (case matchSemantic vec domainID rawText r w of
             (Some m, r1, w1) \<Rightarrow> (m, r1, w1)
           | (None, r1, w1) \<Rightarrow> (matchLexical u r1 domainID rawText, r1, w1)))"

definition Match :: "unicode \<Rightarrow> string \<Rightarrow> string \<Rightarrow> 'w router \<Rightarrow> 'w \<Rightarrow> match_result \<times> 'w router \<times> 'w" where
  "Match u domainID rawText r w =
     (case router_match u domainID rawText r w of
        (m, r1, w1) \<Rightarrow>
          (m, if rtr_observer r1 then r1\<lparr>rtr_log := rtr_log r1 @ [(domainID, match_Matched m)]\<rparr> else r1, w1))"

section \<open>The best candidate wins\<close>

text \<open>Folding challenges over scored candidates: the first of the highest positive scores.\<close>

definition contest :: "(intent_node \<times> float64) list \<Rightarrow> best \<Rightarrow> best" where
  "contest cs b = fold (\<lambda>(node, score). challenge node score) cs b"

lemma contest_max:
  "contest cs b = (n, s) \<Longrightarrow> snd b \<noteq> NaN \<Longrightarrow> \<forall>(m, t) \<in> set cs. t \<noteq> NaN \<Longrightarrow>
   s \<noteq> NaN \<and> f64_le (snd b) s \<and> (\<forall>(m, t) \<in> set cs. f64_le t s) \<and>
   ((n, s) = b \<or> (\<exists>m pre post. n = Some m \<and> cs = pre @ (m, s) # post \<and> f64_lt (snd b) s \<and>
      (\<forall>(m', t) \<in> set pre. f64_lt t s)))"
proof (induction cs arbitrary: b)
  case Nil
  then show ?case by (auto simp: contest_def f64_le_refl)
next
  case (Cons x cs)
  obtain m t where x: "x = (m, t)" by force
  let ?b = "challenge m t b"
  have t: "t \<noteq> NaN" using Cons.prems(3) x by auto
  have b': "snd ?b \<noteq> NaN" using t Cons.prems(2) by (simp add: challenge_def)
  have r: "contest cs ?b = (n, s)" using Cons.prems(1) x by (simp add: contest_def)
  from Cons.IH [OF r b'] Cons.prems(3)
  have IH: "s \<noteq> NaN" "f64_le (snd ?b) s" "\<forall>(m, t) \<in> set cs. f64_le t s"
    and src: "(n, s) = ?b \<or> (\<exists>m pre post. n = Some m \<and> cs = pre @ (m, s) # post \<and> f64_lt (snd ?b) s \<and>
      (\<forall>(m', t) \<in> set pre. f64_lt t s))" by auto
  have le: "f64_le (snd b) (snd ?b)" "f64_le t (snd ?b)"
    using f64_le_refl [OF t] f64_le_refl [OF Cons.prems(2)] f64_not_lt [OF Cons.prems(2) t]
    by (auto simp: challenge_def f64_le_def)
  have "(n, s) = b \<or> (\<exists>m' pre post. n = Some m' \<and> x # cs = pre @ (m', s) # post \<and> f64_lt (snd b) s \<and>
      (\<forall>(m'', t') \<in> set pre. f64_lt t' s))"
    using src
  proof (elim disjE exE conjE)
    assume "(n, s) = ?b"
    then show ?thesis
      by (cases "f64_lt (snd b) t") (force simp: challenge_def x intro: exI [of _ "[]"])+
  next
    fix m' pre post assume a: "n = Some m'" "cs = pre @ (m', s) # post" "f64_lt (snd ?b) s" "\<forall>(m', t) \<in> set pre. f64_lt t s"
    then have "f64_lt t s" "f64_lt (snd b) s" using le f64_le_lt_trans by blast+
    with a x have "n = Some m' \<and> x # cs = (x # pre) @ (m', s) # post \<and> f64_lt (snd b) s \<and>
      (\<forall>(m'', t') \<in> set (x # pre). f64_lt t' s)" by simp
    then show ?thesis by blast
  qed
  moreover have "f64_le (snd b) s" "f64_le t s" using f64_le_trans le IH(2) by blast+
  ultimately show ?case using IH by (simp add: x)
qed

lemma jaccard_not_NaN: "jaccard a b \<noteq> NaN"
proof (cases "card a = 0 \<or> card b = 0")
  case False
  then have "finite a" "finite b" using card.infinite by metis+
  then have "card (a \<inter> b) \<le> card a" by (intro card_mono) auto
  then have "0 < card a + card b - card (a \<inter> b)" using False by linarith
  with False f64_div_nats_not_NaN show ?thesis by (simp add: jaccard_def Let_def)
qed (simp add: jaccard_def)

lemma jaccard_sym: "jaccard a b = jaccard b a"
  by (simp add: jaccard_def Let_def Int_commute add.commute disj_commute)

definition similarity :: "unicode \<Rightarrow> string \<Rightarrow> intent_node \<times> string \<Rightarrow> float64" where
  "similarity u rawText c = jaccard (tokenize u rawText) (tokenize u (snd c))"

lemma matchLexical_contest:
  "matchLexical u r domainID rawText =
     router_result r (contest (map (\<lambda>c. (fst c, jaccard (tokenize u rawText) (tokenize u (snd c))))
       (candidates (rtr_nodes r domainID))) (None, Fin 0))"
  by (simp add: matchLexical_def contest_def fold_map o_def case_prod_unfold Let_def)

text \<open>
  C16. Routing without a vectorizer picks the first best example: a match is a registered node of the
  domain with an example whose similarity to the query is positive and reaches the threshold, no
  example of the domain scores higher and none before it scores as high; and a query is left
  unmatched only when no example of the domain has a positive similarity that reaches the threshold.
\<close>

theorem lexical_match_is_first_best:
  "let m = matchLexical u r domainID rawText; cs = candidates (rtr_nodes r domainID); score = similarity u in
    if match_Matched m then
      \<exists>pre c post. cs = pre @ c # post \<and> match_NodeRef m = node_NodeID (fst c) \<and>
        match_EntryWorkflowRef m = node_EntryWorkflowRef (fst c) \<and> match_Confidence m = score rawText c \<and>
        f64_lt (Fin 0) (score rawText c) \<and> f64_le (rtr_threshold r) (score rawText c) \<and>
        (\<forall>c' \<in> set cs. f64_le (score rawText c') (score rawText c)) \<and>
        (\<forall>c' \<in> set pre. f64_lt (score rawText c') (score rawText c))
    else \<forall>c \<in> set cs. \<not> (f64_lt (Fin 0) (score rawText c) \<and> f64_le (rtr_threshold r) (score rawText c))"
proof -
  let ?cs = "candidates (rtr_nodes r domainID)" and ?f = "similarity u rawText"
  let ?scored = "map (\<lambda>c. (fst c, ?f c)) ?cs"
  obtain n s where b: "contest ?scored (None, Fin 0) = (n, s)" by force
  have nan: "\<forall>(m, t) \<in> set ?scored. t \<noteq> NaN" by (auto simp: similarity_def jaccard_not_NaN)
  have best: "f64_le (Fin 0) s" "\<forall>c \<in> set ?cs. f64_le (?f c) s"
    and src: "(n, s) = (None, Fin 0) \<or> (\<exists>m pre post. n = Some m \<and> ?scored = pre @ (m, s) # post \<and> f64_lt (Fin 0) s \<and>
      (\<forall>(m', t) \<in> set pre. f64_lt t s))"
    using contest_max [OF b _ nan] by auto
  have res: "matchLexical u r domainID rawText = router_result r (n, s)"
    unfolding matchLexical_contest using b by (simp add: similarity_def)
  show ?thesis
    using src
  proof (elim disjE exE conjE)
    assume "(n, s) = (None, Fin 0)"
    then show ?thesis using best(2) f64_le_lt_trans f64_lt_irrefl by (fastforce simp: res router_result_def Let_def)
  next
    fix m pre post
    assume a: "n = Some m" "?scored = pre @ (m, s) # post" "f64_lt (Fin 0) s" "\<forall>(m', t) \<in> set pre. f64_lt t s"
    then obtain cpre c cpost where cs: "?cs = cpre @ c # cpost" "pre = map (\<lambda>c. (fst c, ?f c)) cpre"
      "m = fst c" "s = ?f c" by (auto simp: map_eq_append_conv Cons_eq_map_conv map_eq_Cons_conv)
    show ?thesis
    proof (cases "f64_le (rtr_threshold r) s")
      case True
      have "\<forall>c' \<in> set cpre. f64_lt (?f c') (?f c)" using a(4) cs(2,4) by auto
      let ?m = "matchLexical u r domainID rawText"
      have m: "match_Matched ?m" "match_NodeRef ?m = node_NodeID (fst c)" "match_Confidence ?m = ?f c"
        "match_EntryWorkflowRef ?m = node_EntryWorkflowRef (fst c)"
        using True a(1) cs(3,4) by (simp_all add: res router_result_def)
      have "\<forall>c' \<in> set cpre. f64_lt (?f c') (?f c)" using a(4) cs(2,4) by auto
      with m True a(3) best(2) cs(1,4) show ?thesis unfolding Let_def if_P [OF m(1)] by blast
    next
      case False
      then have "\<not> f64_le (rtr_threshold r) (?f c')" if "c' \<in> set ?cs" for c'
        using best(2) that f64_le_trans by blast
      with False a(1) show ?thesis by (simp add: res router_result_def Let_def)
    qed
  qed
qed

definition sample_node :: "string \<Rightarrow> intent_node" where
  "sample_node d = \<lparr>node_NodeID = d @ ''.pay'', node_DomainID = d, node_Examples = [''pay''],
     node_EntryWorkflowRef = ''pay'', node_Metadata = []\<rparr>"

definition ascii_only :: unicode where
  "ascii_only = \<lparr>uni_alnum = (\<lambda>_. False), uni_lower = (\<lambda>r. r)\<rparr>"

definition sample_router :: "unit router" where
  "sample_router = RegisterNode (sample_node ''shop'') (NewRouter (Fin (1 / 2)))"

lemma sample_tokens:
  "tokenize ascii_only ''Pay'' = {[112, 97, 121]}" "tokenize ascii_only ''pay'' = {[112, 97, 121]}"
  by (simp_all add: tokenize_def ascii_only_def runes.simps decode_rune_def rune_alnum_def rune_lower_def)

lemma round64_1: "round64 1 = Fin 1"
  by (simp add: round64_def ilog2_def bits_of.simps round_rat_def pow2_def)

lemma sample_router_facts:
  "rtr_nodes sample_router ''shop'' = [sample_node ''shop'']"
  "candidates [sample_node ''shop''] = [(sample_node ''shop'', ''pay'')]"
  "rtr_threshold sample_router = Fin (1 / 2)"
  "similarity ascii_only ''Pay'' (sample_node ''shop'', ''pay'') = Fin 1"
  by (simp_all add: sample_router_def RegisterNode_def NewRouter_def sample_node_def candidates_def
      similarity_def sample_tokens jaccard_def f64_of_nat_small round64_1)

lemma sample_route:
  "match_Matched (matchLexical ascii_only sample_router ''shop'' ''Pay'')"
  using sample_router_facts
  by (simp add: matchLexical_def router_result_def challenge_def f64_le_def similarity_def)

lemma lexical_match_is_first_best_witness:
  "match_NodeRef (matchLexical ascii_only sample_router ''shop'' ''Pay'') = ''shop.pay'' \<and>
   match_Confidence (matchLexical ascii_only sample_router ''shop'' ''Pay'') = Fin 1"
  using lexical_match_is_first_best [of ascii_only sample_router "''shop''" "''Pay''"] sample_route
  by (auto simp: Let_def sample_router_facts Cons_eq_append_conv simp del: split_paired_Ex)
    (simp add: sample_node_def)

lemma vectorFor_nodes:
  "vectorFor vec t (r\<lparr>rtr_nodes := f\<rparr>) w =
     (case vectorFor vec t r w of (x, r1, w1) \<Rightarrow> (x, r1\<lparr>rtr_nodes := f\<rparr>, w1))"
  by (simp add: vectorFor_def split: option.split prod.split sum.split)

lemma vectorFor_frame:
  "rtr_nodes (fst (snd (vectorFor vec t r w))) = rtr_nodes r"
  "rtr_threshold (fst (snd (vectorFor vec t r w))) = rtr_threshold r"
  by (simp_all add: vectorFor_def split: option.split prod.split sum.split)

lemma semantic_best_nodes:
  "semantic_best vec q cs b (r\<lparr>rtr_nodes := f\<rparr>) w =
     (case semantic_best vec q cs b r w of (x, r1, w1) \<Rightarrow> (x, r1\<lparr>rtr_nodes := f\<rparr>, w1))"
  by (induction vec q cs b r w rule: semantic_best.induct)
    (simp_all add: vectorFor_nodes split: prod.split sum.split)

lemma semantic_best_frame: "rtr_nodes (fst (snd (semantic_best vec q cs b r w))) = rtr_nodes r"
proof (induction vec q cs b r w rule: semantic_best.induct)
  case (2 vec q node example rest b r w)
  obtain x r1 w1 where v: "vectorFor vec example r w = (x, r1, w1)" by (metis surj_pair)
  then have "rtr_nodes r1 = rtr_nodes r" using vectorFor_frame(1) [of vec example r w] by simp
  with v 2 show ?case by (cases x) auto
qed simp

lemma router_result_nodes: "router_result (r\<lparr>rtr_nodes := f\<rparr>) b = router_result r b"
  by (simp add: router_result_def split: prod.split option.split)

lemma matchLexical_nodes:
  "f domainID = rtr_nodes r domainID \<Longrightarrow> matchLexical u (r\<lparr>rtr_nodes := f\<rparr>) domainID t = matchLexical u r domainID t"
  by (simp add: matchLexical_def router_result_nodes Let_def)

lemma matchSemantic_nodes:
  assumes "f domainID = rtr_nodes r domainID"
  shows "matchSemantic vec domainID t (r\<lparr>rtr_nodes := f\<rparr>) w =
    (case matchSemantic vec domainID t r w of (x, r1, w1) \<Rightarrow> (x, r1\<lparr>rtr_nodes := f\<rparr>, w1))"
proof -
  obtain x r1 w1 where v: "vectorFor vec t r w = (x, r1, w1)" by (metis surj_pair)
  then have "rtr_nodes r1 = rtr_nodes r" using vectorFor_frame(1) [of vec t r w] by simp
  with v assms show ?thesis
    by (simp add: matchSemantic_def vectorFor_nodes semantic_best_nodes router_result_nodes
        split: sum.split prod.split option.split)
qed

lemma matchSemantic_frame: "rtr_nodes (fst (snd (matchSemantic vec domainID t r w))) = rtr_nodes r"
proof -
  obtain x r1 w1 where v: "vectorFor vec t r w = (x, r1, w1)" by (metis surj_pair)
  then have 1: "rtr_nodes r1 = rtr_nodes r" using vectorFor_frame(1) [of vec t r w] by simp
  show ?thesis
  proof (cases x)
    case (Inl err)
    with v 1 show ?thesis by (simp add: matchSemantic_def)
  next
    case (Inr q)
    obtain y r2 w2 where s: "semantic_best vec q (candidates (rtr_nodes r domainID)) (None, Fin 0) r1 w1 = (y, r2, w2)"
      by (metis surj_pair)
    then have "rtr_nodes r2 = rtr_nodes r"
      using semantic_best_frame [of vec q "candidates (rtr_nodes r domainID)" "(None, Fin 0)" r1 w1] 1 by simp
    with v Inr s 1 show ?thesis by (cases y) (simp_all add: matchSemantic_def)
  qed
qed

section \<open>A match names a registered node\<close>

lemma challenge_source: "fst (challenge node sc b) = Some n \<Longrightarrow> fst b = Some n \<or> n = node"
  by (simp add: challenge_def split: if_splits)

lemma fold_challenge_source:
  "fst (fold (\<lambda>(node, example). challenge node (f example)) cs b) = Some n \<Longrightarrow> fst b = Some n \<or> n \<in> fst ` set cs"
proof (induction cs arbitrary: b)
  case (Cons x cs)
  obtain node example where x: "x = (node, example)" by force
  from Cons.IH [of "challenge node (f example) b"] Cons.prems challenge_source [of node "f example" b n]
  show ?case by (auto simp: x)
qed simp

lemma semantic_best_source:
  "semantic_best vec q cs b r w = (Some b', r', w') \<Longrightarrow> fst b' = Some n \<Longrightarrow> fst b = Some n \<or> n \<in> fst ` set cs"
proof (induction vec q cs b r w rule: semantic_best.induct)
  case (2 vec q node example rest b r w)
  from 2(2) obtain v r1 w1 where v: "vectorFor vec example r w = (Inr v, r1, w1)"
    and s: "semantic_best vec q rest (challenge node (cosine q v) b) r1 w1 = (Some b', r', w')"
    by (auto split: prod.splits sum.splits)
  from 2(1) [OF v [symmetric] refl refl s 2(3)] challenge_source [of node "cosine q v" b n]
  show ?case by auto
qed simp

lemma router_result_source:
  "match_Matched (router_result r b) \<Longrightarrow> \<exists>n. fst b = Some n \<and> match_EntryWorkflowRef (router_result r b) = node_EntryWorkflowRef n"
  by (auto simp: router_result_def split: prod.splits option.splits if_splits)

lemma candidates_nodes: "fst ` set (candidates nodes) \<subseteq> set nodes"
  by (auto simp: candidates_def)

lemma matchLexical_source:
  assumes "match_Matched (matchLexical u r domainID t)"
  shows "match_EntryWorkflowRef (matchLexical u r domainID t) \<in> node_EntryWorkflowRef ` set (rtr_nodes r domainID)"
proof -
  let ?b = "fold (\<lambda>(node, example). challenge node (jaccard (tokenize u t) (tokenize u example)))
    (candidates (rtr_nodes r domainID)) (None, Fin 0)"
  have m: "matchLexical u r domainID t = router_result r ?b" by (simp add: matchLexical_def Let_def)
  with router_result_source [of r ?b] assms obtain n where n: "fst ?b = Some n"
    "match_EntryWorkflowRef (matchLexical u r domainID t) = node_EntryWorkflowRef n" by auto
  from fold_challenge_source [OF n(1)] candidates_nodes n(2) show ?thesis by auto
qed

lemma matchSemantic_source:
  assumes "matchSemantic vec domainID t r w = (Some m, r', w')" and "match_Matched m"
  shows "match_EntryWorkflowRef m \<in> node_EntryWorkflowRef ` set (rtr_nodes r domainID)"
proof -
  obtain q r1 w1 b where v: "vectorFor vec t r w = (Inr q, r1, w1)"
    and s: "semantic_best vec q (candidates (rtr_nodes r1 domainID)) (None, Fin 0) r1 w1 = (Some b, r', w')"
    and m: "m = router_result r' b"
    using assms(1) by (auto simp: matchSemantic_def split: prod.splits sum.splits option.splits)
  from router_result_source [of r' b] assms(2) m obtain n where n: "fst b = Some n"
    "match_EntryWorkflowRef m = node_EntryWorkflowRef n" by auto
  have "rtr_nodes r1 = rtr_nodes r" using vectorFor_frame(1) [of vec t r w] v by simp
  with semantic_best_source [OF s n(1)] candidates_nodes n(2) show ?thesis by auto
qed

lemma Match_source:
  assumes "match_Matched (fst (Match u domainID t r w))"
  shows "match_EntryWorkflowRef (fst (Match u domainID t r w)) \<in> node_EntryWorkflowRef ` set (rtr_nodes r domainID)"
proof -
  have m: "fst (Match u domainID t r w) = fst (router_match u domainID t r w)" by (simp add: Match_def split_beta)
  show ?thesis
  proof (cases "rtr_vectorizer r")
    case None
    with assms m show ?thesis by (simp add: router_match_def matchLexical_source)
  next
    case (Some vec)
    obtain x r1 w1 where s: "matchSemantic vec domainID t r w = (x, r1, w1)" by (metis surj_pair)
    have "rtr_nodes r1 = rtr_nodes r" using matchSemantic_frame [of vec domainID t r w] s by simp
    with Some s assms m show ?thesis
      by (cases x) (auto simp: router_match_def dest: matchLexical_source matchSemantic_source)
  qed
qed

text \<open>
  Domains are isolated: registering a node in one domain leaves every match in another as it was,
  vectorizer or not.
\<close>

theorem registration_is_domain_local:
  assumes "node_DomainID node \<noteq> domainID"
  shows "fst (Match u domainID rawText (RegisterNode node r) w) = fst (Match u domainID rawText r w)"
proof -
  define f where "f = (rtr_nodes r)(node_DomainID node := rtr_nodes r (node_DomainID node) @ [node])"
  have reg: "RegisterNode node r = r\<lparr>rtr_nodes := f\<rparr>" by (simp add: RegisterNode_def f_def)
  have f: "f domainID = rtr_nodes r domainID" using assms by (simp add: f_def)
  have "fst (router_match u domainID rawText (r\<lparr>rtr_nodes := f\<rparr>) w) = fst (router_match u domainID rawText r w)"
  proof (cases "rtr_vectorizer r")
    case None
    with f show ?thesis by (simp add: router_match_def matchLexical_nodes)
  next
    case (Some vec)
    obtain x r1 w1 where m: "matchSemantic vec domainID rawText r w = (x, r1, w1)" by (metis surj_pair)
    then have "f domainID = rtr_nodes r1 domainID"
      using matchSemantic_frame [of vec domainID rawText r w] f by simp
    with Some m f show ?thesis
      by (simp add: router_match_def matchSemantic_nodes matchLexical_nodes split: option.split)
  qed
  then show ?thesis by (simp add: Match_def reg split_beta)
qed

lemma registration_is_domain_local_witness:
  "fst (Match ascii_only ''shop'' ''pay'' (RegisterNode (sample_node ''bank'') (NewRouter (Fin (1 / 2)))) ()) =
   fst (Match ascii_only ''shop'' ''pay'' (NewRouter (Fin (1 / 2))) ())"
  by (rule registration_is_domain_local) (simp add: sample_node_def)

end
