(* ===== verification/Registry.thy ===== *)
theory Registry
  imports Manifest Router "HOL-Library.AList"
begin

text \<open>
  The registry (\<open>registry/registry.go\<close>): a domain's intents go to the router, its workflows and
  policies to the engine, in one call. A workflow's domain is the name it is registered under,
  written through the pointer the engine and the kept domain share. The order in which \<open>Domains\<close>
  iterates the map is the argument \<open>range_order\<close>.
\<close>

record ('w, 's) registry =
  reg_router :: "'w router"
  reg_engine :: "('w, 's) engine"
  reg_domains :: "(string \<times> 'w domain) list"

definition NewRegistry :: "'w router \<Rightarrow> ('w, 's) engine \<Rightarrow> ('w, 's) registry" where
  "NewRegistry r e = \<lparr>reg_router = r, reg_engine = e, reg_domains = []\<rparr>"

definition claim_workflow :: "string \<Rightarrow> 'w workflow \<Rightarrow> 'w workflow" where
  "claim_workflow name flow = flow\<lparr>wf_DomainID := name\<rparr>"

definition RegisterDomain :: "'w domain \<Rightarrow> ('w, 's) registry \<Rightarrow> ('w, 's) registry" where
  "RegisterDomain d r =
     (let flows = map (claim_workflow (dom_Name d)) (dom_Workflows d) in
      \<lparr>reg_router = fold RegisterNode (dom_Intents d) (reg_router r),
       reg_engine = fold RegisterPolicy (dom_Policies d) (fold RegisterWorkflow flows (reg_engine r)),
       reg_domains = AList.update (dom_Name d) (d\<lparr>dom_Workflows := flows\<rparr>) (reg_domains r)\<rparr>)"

definition Domains :: "(string list \<Rightarrow> string list) \<Rightarrow> ('w, 's) registry \<Rightarrow> string list" where
  "Domains range_order r = range_order (map fst (reg_domains r))"

section \<open>What registering gives\<close>

lemma fold_RegisterWorkflow:
  "eng_workflows (fold RegisterWorkflow flows e) = eng_workflows e ++ map_of (rev (map (\<lambda>w. (wf_WorkflowID w, w)) flows))"
  "eng_policies (fold RegisterWorkflow flows e) = eng_policies e"
  "eng_maxSteps (fold RegisterWorkflow flows e) = eng_maxSteps e"
  "eng_maxDepth (fold RegisterWorkflow flows e) = eng_maxDepth e"
  by (induction flows arbitrary: e) (simp_all add: RegisterWorkflow_def map_add_upd_left map_of_append)

lemma fold_RegisterPolicy:
  "eng_policies (fold RegisterPolicy ps e) = eng_policies e ++ map_of (rev (map (\<lambda>p. (pol_PolicyID p, p)) ps))"
  "eng_workflows (fold RegisterPolicy ps e) = eng_workflows e"
  "eng_maxSteps (fold RegisterPolicy ps e) = eng_maxSteps e"
  "eng_maxDepth (fold RegisterPolicy ps e) = eng_maxDepth e"
  by (induction ps arbitrary: e) (simp_all add: RegisterPolicy_def map_of_append)

lemma fold_RegisterNode:
  "rtr_nodes (fold RegisterNode ns r) d = rtr_nodes r d @ filter (\<lambda>n. node_DomainID n = d) ns"
  "rtr_threshold (fold RegisterNode ns r) = rtr_threshold r"
  "rtr_vectorizer (fold RegisterNode ns r) = rtr_vectorizer r"
  by (induction ns arbitrary: r) (simp_all add: RegisterNode_def)

lemma RegisterDomain_engine:
  "eng_workflows (reg_engine (RegisterDomain d r)) = eng_workflows (reg_engine r) ++
     map_of (rev (map (\<lambda>w. (wf_WorkflowID w, claim_workflow (dom_Name d) w)) (dom_Workflows d)))"
  "eng_policies (reg_engine (RegisterDomain d r)) = eng_policies (reg_engine r) ++
     map_of (rev (map (\<lambda>p. (pol_PolicyID p, p)) (dom_Policies d)))"
  "eng_maxSteps (reg_engine (RegisterDomain d r)) = eng_maxSteps (reg_engine r)"
  "eng_maxDepth (reg_engine (RegisterDomain d r)) = eng_maxDepth (reg_engine r)"
  by (simp_all add: RegisterDomain_def fold_RegisterWorkflow fold_RegisterPolicy Let_def o_def claim_workflow_def)

lemma RegisterDomain_router:
  "rtr_nodes (reg_router (RegisterDomain d r)) q =
     rtr_nodes (reg_router r) q @ filter (\<lambda>n. node_DomainID n = q) (dom_Intents d)"
  by (simp add: RegisterDomain_def fold_RegisterNode Let_def)

end
