(* ===== verification/Validated.thy ===== *)
theory Validated
  imports Clean Validate Registry
begin

text \<open>
  What the validator's verdict is worth. A manifest it accepts loads; the engine serving the loaded
  domain never meets a reference that leads nowhere; and, when in addition no fallback loops back and
  the manifest fits the ceilings, it never reports a runaway.
\<close>

section \<open>What an accepted manifest satisfies\<close>

lemma branch_issues_OK:
  "report_OK (branch_issues loc wids seen bs) \<Longrightarrow>
   (\<forall>b \<in> set bs. b \<noteq> [] \<and> b \<in> wids) \<and> distinct bs \<and> set bs \<inter> set seen = {}"
proof (induction bs arbitrary: seen)
  case (Cons b bs)
  from Cons.prems have "report_OK (branch_issues loc wids (b # seen) bs)" "b \<noteq> []" "b \<in> wids" "b \<notin> set seen"
    by (auto split: if_splits)
  with Cons.IH [of "b # seen"] show ?case by auto
qed simp

lemma check_branches_ok:
  "is_ok (check_branches loc seen bs) \<longleftrightarrow> [] \<notin> set bs \<and> distinct bs \<and> set bs \<inter> set seen = {}"
  by (induction bs arbitrary: seen) auto

definition step_ok :: "step_spec \<Rightarrow> string set \<Rightarrow> string set \<Rightarrow> (string \<rightharpoonup> string) \<Rightarrow> 'w library \<Rightarrow> bool" where
  "step_ok s sids wids fallbacks std \<longleftrightarrow>
     (sspec_OnSuccess s = [] \<or> sspec_OnSuccess s \<in> sids) \<and>
     (sspec_CircuitBreakerPolicyRef s = [] \<or>
        (\<exists>fb. fallbacks (sspec_CircuitBreakerPolicyRef s) = Some fb \<and> (fb = [] \<or> fb \<in> sids))) \<and>
     (sspec_CompensateWith s = [] \<or> sspec_CompensateWith s \<in> sids - {sspec_StepID s} \<and> sspec_Type s = ''leaf'') \<and>
     (sspec_Type s = ''leaf'' \<and> sspec_ActionRef s \<noteq> [] \<and>
        (\<forall>factory. std (sspec_ActionRef s) = Some factory \<longrightarrow> (\<exists>act. factory (sspec_With s) = Inr act)) \<or>
      sspec_Type s = ''composite'' \<and> sspec_SubWorkflowRef s \<noteq> [] \<and> sspec_SubWorkflowRef s \<in> wids \<or>
      sspec_Type s = ''parallel'' \<and> sspec_Branches s \<noteq> [] \<and> [] \<notin> set (sspec_Branches s) \<and>
        set (sspec_Branches s) \<subseteq> wids \<and> distinct (sspec_Branches s))"

lemma check_compensation_OK:
  "report_OK (check_compensation loc s sids) \<Longrightarrow>
   sspec_CompensateWith s = [] \<or> sspec_CompensateWith s \<in> sids - {sspec_StepID s} \<and>
     sspec_Type s \<noteq> ''composite'' \<and> sspec_Type s \<noteq> ''parallel''"
  by (auto simp: check_compensation_def split: if_splits)

lemma check_policy_OK:
  "report_OK (check_policy loc s sids fallbacks) \<Longrightarrow>
   sspec_CircuitBreakerPolicyRef s = [] \<or>
     (\<exists>fb. fallbacks (sspec_CircuitBreakerPolicyRef s) = Some fb \<and> (fb = [] \<or> fb \<in> sids))"
  by (auto simp: check_policy_def split: if_splits option.splits)

lemma check_leaf_OK:
  "report_OK (check_leaf loc s std) \<Longrightarrow> sspec_ActionRef s \<noteq> [] \<and>
     (\<forall>factory. std (sspec_ActionRef s) = Some factory \<longrightarrow> (\<exists>act. factory (sspec_With s) = Inr act))"
  by (auto simp: check_leaf_def split: if_splits option.splits sum.splits)

lemma check_composite_OK:
  "report_OK (check_composite loc s wids) \<Longrightarrow> sspec_SubWorkflowRef s \<noteq> [] \<and> sspec_SubWorkflowRef s \<in> wids"
  by (auto simp: check_composite_def split: if_splits)

lemma check_parallel_OK:
  "report_OK (check_parallel loc s wids) \<Longrightarrow>
     sspec_Branches s \<noteq> [] \<and> [] \<notin> set (sspec_Branches s) \<and> set (sspec_Branches s) \<subseteq> wids \<and> distinct (sspec_Branches s)"
  using branch_issues_OK [of loc wids "[]" "sspec_Branches s"]
  by (auto simp: check_parallel_def split: if_splits)

lemma validateStep_OK:
  assumes "report_OK (validateStep w s sids wids fallbacks std)"
  shows "step_ok s sids wids fallbacks std"
proof -
  let ?loc = "in_step w (sspec_StepID s)"
  have parts: "report_OK (check_on_success ?loc s sids)" "report_OK (check_compensation ?loc s sids)"
    "report_OK (check_policy ?loc s sids fallbacks)"
    "sspec_Type s = ''leaf'' \<Longrightarrow> report_OK (check_leaf ?loc s std)"
    "sspec_Type s = ''composite'' \<Longrightarrow> report_OK (check_composite ?loc s wids)"
    "sspec_Type s = ''parallel'' \<Longrightarrow> report_OK (check_parallel ?loc s wids)"
    and kind: "sspec_Type s = ''leaf'' \<or> sspec_Type s = ''composite'' \<or> sspec_Type s = ''parallel''"
    using assms by (auto simp: validateStep_def Let_def split: if_splits)
  have on: "sspec_OnSuccess s = [] \<or> sspec_OnSuccess s \<in> sids"
    using parts(1) by (auto simp: check_on_success_def split: if_splits)
  note comp = check_compensation_OK [OF parts(2)] and pol = check_policy_OK [OF parts(3)]
  from kind show ?thesis
  proof (elim disjE)
    assume "sspec_Type s = ''leaf''"
    with on comp pol check_leaf_OK [OF parts(4)] show ?thesis by (simp add: step_ok_def)
  next
    assume "sspec_Type s = ''composite''"
    with on comp pol check_composite_OK [OF parts(5)] show ?thesis by (simp add: step_ok_def)
  next
    assume "sspec_Type s = ''parallel''"
    with on comp pol check_parallel_OK [OF parts(6)] show ?thesis by (simp add: step_ok_def)
  qed
qed

lemma step_id_issues_OK:
  "report_OK (step_id_issues w seen specs) \<Longrightarrow>
   [] \<notin> sspec_StepID ` set specs \<and> distinct (map sspec_StepID specs) \<and> sspec_StepID ` set specs \<inter> seen = {}"
proof (induction specs arbitrary: seen)
  case (Cons s specs)
  from Cons.prems have "sspec_StepID s \<noteq> []" "sspec_StepID s \<notin> seen"
    "report_OK (step_id_issues w (insert (sspec_StepID s) seen) specs)" by (auto split: if_splits)
  with Cons.IH show ?case by fastforce
qed simp

definition workflow_ok :: "workflow_spec \<Rightarrow> string set \<Rightarrow> (string \<rightharpoonup> string) \<Rightarrow> 'w library \<Rightarrow> bool" where
  "workflow_ok ws wids fallbacks std \<longleftrightarrow>
     [] \<notin> sspec_StepID ` set (wspec_Steps ws) \<and> distinct (map sspec_StepID (wspec_Steps ws)) \<and>
     wspec_EntryStepID ws \<in> set (step_ids ws) \<and>
     findCycle (step_ids ws) (success_edges ws) = None \<and>
     (\<forall>s \<in> set (wspec_Steps ws). step_ok s (set (step_ids ws)) wids fallbacks std)"

lemma validateWorkflow_OK:
  assumes "report_OK (validateWorkflow ws wids fallbacks std)"
  shows "workflow_ok ws wids fallbacks std"
proof -
  let ?steps = "concat (map (\<lambda>s. validateStep (wspec_WorkflowID ws) s (set (step_ids ws)) wids fallbacks std) (wspec_Steps ws))"
  have parts: "report_OK (step_id_issues (wspec_WorkflowID ws) {} (wspec_Steps ws))" "report_OK ?steps"
    "wspec_EntryStepID ws \<in> set (step_ids ws)" "report_OK (validateStepGraph ws fallbacks)"
    using assms unfolding validateWorkflow_def Let_def report_OK_simps by (auto split: if_splits)
  have "findCycle (step_ids ws) (success_edges ws) = None"
    using parts(4) unfolding validateStepGraph_def Let_def report_OK_simps by (auto split: option.splits)
  with parts step_id_issues_OK [OF parts(1)] validateStep_OK show ?thesis
    by (simp add: workflow_ok_def) blast
qed

definition file_ok :: "manifest_file \<Rightarrow> 'w library \<Rightarrow> bool" where
  "file_ok f std \<longleftrightarrow>
     file_Name f \<noteq> [] \<and>
     (\<forall>p \<in> set (file_Policies f). pspec_PolicyID p \<noteq> [] \<and> pspec_FallbackStepRef p \<noteq> []) \<and>
     (\<forall>ws \<in> set (file_Workflows f).
        workflow_ok ws (wspec_WorkflowID ` set (file_Workflows f)) (policy_fallbacks (file_Policies f)) std) \<and>
     findCycle (map wspec_WorkflowID (file_Workflows f)) (sub_edges (file_Workflows f)) = None \<and>
     (\<forall>i \<in> set (file_Intents f). \<not> conflictingEntry i \<and> entryWorkflow i \<in> wspec_WorkflowID ` set (file_Workflows f))"

lemma policy_issue_OK: "report_OK (policy_issue p) \<Longrightarrow> pspec_PolicyID p \<noteq> [] \<and> pspec_FallbackStepRef p \<noteq> []"
  by (auto simp: policy_issue_def split: if_splits)

lemma policy_issues_OK:
  "report_OK (policy_issues ps) \<Longrightarrow> \<forall>p \<in> set ps. pspec_PolicyID p \<noteq> [] \<and> pspec_FallbackStepRef p \<noteq> []"
  using policy_issue_OK by (simp add: policy_issues_def)

lemma validate_file_OK:
  assumes "report_OK (validate_file f std)"
  shows "file_ok f std"
proof -
  let ?wids = "wspec_WorkflowID ` set (file_Workflows f)" and ?fb = "policy_fallbacks (file_Policies f)"
  have parts: "file_Name f \<noteq> []" "report_OK (policy_issues (file_Policies f))"
    "\<forall>ws \<in> set (file_Workflows f). report_OK (validateWorkflow ws ?wids ?fb std)"
    "report_OK (validateSubWorkflowAcyclic (file_Workflows f))"
    "\<forall>i \<in> set (file_Intents f). report_OK (intent_issues ?wids i)"
    using assms unfolding validate_file_def Let_def report_OK_simps by (auto split: if_splits)
  have "\<forall>p \<in> set (file_Policies f). pspec_PolicyID p \<noteq> [] \<and> pspec_FallbackStepRef p \<noteq> []"
    using parts(2) by (rule policy_issues_OK)
  moreover have "findCycle (map wspec_WorkflowID (file_Workflows f)) (sub_edges (file_Workflows f)) = None"
    using parts(4) by (auto simp: validateSubWorkflowAcyclic_def split: option.splits)
  moreover have "\<not> conflictingEntry i \<and> entryWorkflow i \<in> ?wids" if "i \<in> set (file_Intents f)" for i
    using parts(5) that unfolding intent_issues_def Let_def by (auto split: if_splits)
  ultimately show ?thesis using parts(1,3) validateWorkflow_OK unfolding file_ok_def by blast
qed

section \<open>Accepted manifests load\<close>

text \<open>Every action a manifest names exists: in the library or among the hooks.\<close>

definition actions_known :: "manifest_file \<Rightarrow> 'w hooks \<Rightarrow> 'w library \<Rightarrow> bool" where
  "actions_known f hooks std \<longleftrightarrow>
     (\<forall>ws \<in> set (file_Workflows f). \<forall>s \<in> set (wspec_Steps ws).
        sspec_Type s = ''leaf'' \<longrightarrow> std (sspec_ActionRef s) = None \<longrightarrow> hooks (sspec_ActionRef s) \<noteq> None)"

lemma buildStep_ok:
  assumes "step_ok s sids wids fallbacks std"
    and "sspec_Type s = ''leaf'' \<longrightarrow> std (sspec_ActionRef s) = None \<longrightarrow> hooks (sspec_ActionRef s) \<noteq> None"
  shows "is_ok (buildStep d w s hooks std)"
proof -
  have "sspec_Type s = ''leaf'' \<or> sspec_Type s = ''composite'' \<or> sspec_Type s = ''parallel''"
    using assms(1) unfolding step_ok_def by blast
  then show ?thesis
  proof (elim disjE)
    assume t: "sspec_Type s = ''leaf''"
    then have "\<forall>factory. std (sspec_ActionRef s) = Some factory \<longrightarrow> (\<exists>act. factory (sspec_With s) = Inr act)"
      using assms(1) by (simp add: step_ok_def)
    with t assms(2) show ?thesis
      by (cases "std (sspec_ActionRef s)") (auto simp: buildStep_def resolveAction_def Let_def)
  next
    assume t: "sspec_Type s = ''composite''"
    then show ?thesis using assms(1) by (simp add: buildStep_def step_ok_def Let_def)
  next
    assume t: "sspec_Type s = ''parallel''"
    then have "is_ok (check_branches loc [] (sspec_Branches s))" "sspec_Branches s \<noteq> []" for loc
      using assms(1) by (simp_all add: check_branches_ok step_ok_def)
    then obtain u where "check_branches (at_step d w (sspec_StepID s)) [] (sspec_Branches s) = Ok u"
      unfolding is_ok_iff by blast
    with t \<open>sspec_Branches s \<noteq> []\<close> show ?thesis by (simp add: buildStep_def Let_def)
  qed
qed

lemma load_file_ok:
  assumes "file_ok f std" and "actions_known f hooks std"
  shows "is_ok (load_file f hooks std)"
proof -
  have "is_ok (load_workflow (file_Name f) hooks std ws)" if ws: "ws \<in> set (file_Workflows f)" for ws
  proof -
    have "is_ok (buildStep (file_Name f) (wspec_WorkflowID ws) s hooks std)" if "s \<in> set (wspec_Steps ws)" for s
      using assms ws that unfolding file_ok_def workflow_ok_def actions_known_def by (blast intro: buildStep_ok)
    then have "is_ok (build_steps (file_Name f) (wspec_WorkflowID ws) hooks std (wspec_Steps ws) Map.empty)"
      by (simp add: build_steps_ok)
    then show ?thesis
      by (cases "build_steps (file_Name f) (wspec_WorkflowID ws) hooks std (wspec_Steps ws) Map.empty")
        (simp_all add: load_workflow_def)
  qed
  then have flows: "is_ok (map_res (load_workflow (file_Name f) hooks std) (file_Workflows f))"
    by (simp add: map_res_is_ok)
  have "is_ok (map_res (load_intent (file_Name f)) (file_Intents f))"
    using assms(1) by (simp add: map_res_is_ok file_ok_def load_intent_def)
  with flows assms(1) show ?thesis
    by (cases "map_res (load_intent (file_Name f)) (file_Intents f)";
        cases "map_res (load_workflow (file_Name f) hooks std) (file_Workflows f)")
      (simp_all add: load_file_def file_ok_def)
qed

section \<open>What the engine serving it knows\<close>

text \<open>\<open>serves f hooks std d e\<close>: \<open>f\<close> is accepted and loads to \<open>d\<close>, and \<open>e\<close> knows \<open>d\<close> and nothing else.\<close>

definition serves :: "manifest_file \<Rightarrow> 'w hooks \<Rightarrow> 'w library \<Rightarrow> 'w domain \<Rightarrow> ('w, 's) engine \<Rightarrow> bool" where
  "serves f hooks std d e \<longleftrightarrow>
     file_ok f std \<and> load_file f hooks std = Ok d \<and>
     eng_workflows e = map_of (rev (map (\<lambda>w. (wf_WorkflowID w, claim_workflow (dom_Name d) w)) (dom_Workflows d))) \<and>
     eng_policies e = map_of (rev (map (\<lambda>p. (pol_PolicyID p, p)) (dom_Policies d)))"

lemma servesI:
  assumes "report_OK (validate_file f std)" and "load_file f hooks std = Ok d"
    and "eng_workflows e0 = Map.empty" and "eng_policies e0 = Map.empty"
  shows "serves f hooks std d (reg_engine (RegisterDomain d (NewRegistry r e0)))"
  using assms validate_file_OK by (simp add: serves_def RegisterDomain_engine NewRegistry_def)

lemma policy_fallbacks_map:
  "\<forall>p \<in> set ps. pspec_PolicyID p \<noteq> [] \<Longrightarrow>
   policy_fallbacks ps ref =
     map_option pol_FallbackStepRef (map_of (rev (map (\<lambda>p. (pol_PolicyID p, p)) (map load_policy ps))) ref)"
  by (induction ps rule: rev_induct) (simp_all add: policy_fallbacks_def load_policy_def)

lemma serves_fallback:
  assumes "serves f hooks std d e"
  shows "fallback_of e s =
    (case policy_fallbacks (file_Policies f) (circuitBreakerPolicyRef s) of Some fb \<Rightarrow> fb | None \<Rightarrow> [])"
proof -
  have ids: "\<forall>p \<in> set (file_Policies f). pspec_PolicyID p \<noteq> []"
    using assms by (simp add: serves_def file_ok_def)
  have "dom_Policies d = map load_policy (file_Policies f)"
    using assms by (auto simp: serves_def load_file_def res_bind_Ok_iff split: if_splits)
  then have pols: "policy_fallbacks (file_Policies f) ref = map_option pol_FallbackStepRef (eng_policies e ref)" for ref
    using assms policy_fallbacks_map [OF ids] by (simp add: serves_def)
  have "eng_policies e [] = None"
    using assms ids \<open>dom_Policies d = _\<close>
    by (auto simp: serves_def load_policy_def map_of_eq_None_iff)
  then show ?thesis by (simp add: fallback_of_def pols Let_def split: option.split)
qed

lemma serves_loaded:
  assumes "serves f hooks std d e"
  shows "list_all2 (\<lambda>ws flow. load_workflow (file_Name f) hooks std ws = Ok flow) (file_Workflows f) (dom_Workflows d)"
  by (rule load_file_workflows) (use assms in \<open>simp add: serves_def\<close>)

lemma load_file_intents:
  "load_file f hooks std = Ok d \<Longrightarrow>
   list_all2 (\<lambda>i n. load_intent (file_Name f) i = Ok n) (file_Intents f) (dom_Intents d)"
  by (auto simp: load_file_def res_bind_Ok_iff map_res_Ok_iff split: if_splits)

lemma serves_flow:
  assumes "serves f hooks std d e" and "eng_workflows e ref = Some flow"
  obtains ws where "ws \<in> set (file_Workflows f)" and "wspec_WorkflowID ws = ref"
    and "wf_EntryStepID flow = wspec_EntryStepID ws"
    and "build_steps (file_Name f) ref hooks std (wspec_Steps ws) Map.empty = Ok (wf_Steps flow)"
proof -
  have "(ref, flow) \<in> set (map (\<lambda>w. (wf_WorkflowID w, claim_workflow (dom_Name d) w)) (dom_Workflows d))"
    using assms map_of_SomeD unfolding serves_def by fastforce
  then obtain flow0 where flow0: "flow0 \<in> set (dom_Workflows d)" "ref = wf_WorkflowID flow0"
    "flow = claim_workflow (dom_Name d) flow0" by auto
  with list_all2_set2 [OF serves_loaded [OF assms(1)]] obtain ws where ws: "ws \<in> set (file_Workflows f)" "load_workflow (file_Name f) hooks std ws = Ok flow0"
    by blast
  show thesis
  proof (rule that [OF ws(1)])
    show id: "wspec_WorkflowID ws = ref" using load_workflow_ID [OF ws(2)] flow0(2) by simp
    show "wf_EntryStepID flow = wspec_EntryStepID ws"
      using ws(2) flow0(3) by (auto simp: load_workflow_def res_bind_Ok_iff claim_workflow_def)
    show "build_steps (file_Name f) ref hooks std (wspec_Steps ws) Map.empty = Ok (wf_Steps flow)"
      using ws(2) flow0(3) id by (auto simp: load_workflow_def res_bind_Ok_iff claim_workflow_def)
  qed
qed

lemma serves_known:
  assumes "serves f hooks std d e"
  shows "eng_workflows e ref \<noteq> None \<longleftrightarrow> ref \<in> wspec_WorkflowID ` set (file_Workflows f)"
proof -
  have "map wspec_WorkflowID (file_Workflows f) = map wf_WorkflowID (dom_Workflows d)"
    using serves_loaded [OF assms] by (induction rule: list_all2_induct) (auto dest: load_workflow_ID)
  then have "wspec_WorkflowID ` set (file_Workflows f) = wf_WorkflowID ` set (dom_Workflows d)"
    by (metis list.set_map)
  moreover have "dom (eng_workflows e) = wf_WorkflowID ` set (dom_Workflows d)"
    using assms by (simp add: serves_def dom_map_of_conv_image_fst image_image)
  ultimately show ?thesis by auto
qed

text \<open>Where a loaded step may lead stays within the two graphs the validator searched.\<close>

lemma built_step:
  assumes "buildStep d w spec hooks std = Ok s"
  shows "on_success_of s = sspec_OnSuccess spec" and "circuitBreakerPolicyRef s = sspec_CircuitBreakerPolicyRef spec"
    and "nested_in s - {[]} \<subseteq> set (nested_refs spec)"
    and "step_ok spec sids wids fallbacks std \<Longrightarrow> nested_in s \<subseteq> wids - {[]}"
proof -
  have "(\<exists>act. s = LeafStep
             \<lparr>leaf_StepID = sspec_StepID spec, leaf_Run = act, leaf_SandboxProbeRef = sspec_SandboxProbeRef spec,
              leaf_CircuitBreakerPolicyRef = sspec_CircuitBreakerPolicyRef spec,
              leaf_OnSuccess = sspec_OnSuccess spec, leaf_CompensateStepRef = sspec_CompensateWith spec\<rparr>) \<and>
           sspec_Type spec = ''leaf'' \<or>
        s = CompositeStep
           \<lparr>comp_StepID = sspec_StepID spec, comp_SubWorkflowRef = sspec_SubWorkflowRef spec,
            comp_CircuitBreakerPolicyRef = sspec_CircuitBreakerPolicyRef spec,
            comp_OnSuccess = sspec_OnSuccess spec\<rparr> \<and> sspec_Type spec = ''composite'' \<or>
        s = ParallelStep
             \<lparr>par_StepID = sspec_StepID spec, par_Branches = sspec_Branches spec,
              par_CircuitBreakerPolicyRef = sspec_CircuitBreakerPolicyRef spec,
              par_OnSuccess = sspec_OnSuccess spec\<rparr> \<and> sspec_Type spec = ''parallel''"
    using assms by (auto simp: buildStep_def Let_def res_bind_Ok_iff split: if_splits)
  then show "on_success_of s = sspec_OnSuccess spec"
    and "circuitBreakerPolicyRef s = sspec_CircuitBreakerPolicyRef spec"
    and "nested_in s - {[]} \<subseteq> set (nested_refs spec)"
    and "step_ok spec sids wids fallbacks std \<Longrightarrow> nested_in s \<subseteq> wids - {[]}"
    by (auto simp: nested_refs_def step_ok_def)
qed

lemma serves_step:
  assumes sv: "serves f hooks std d e" and ws: "ws \<in> set (file_Workflows f)"
    and built: "build_steps (file_Name f) (wspec_WorkflowID ws) hooks std (wspec_Steps ws) Map.empty = Ok steps"
    and at: "steps sid = Some s"
  shows "nexts e s \<subseteq> set (all_edges ws (policy_fallbacks (file_Policies f)) sid)"
    and "nested_in s \<subseteq> set (sub_edges (file_Workflows f) (wspec_WorkflowID ws))"
proof -
  let ?fb = "policy_fallbacks (file_Policies f)" and ?wids = "wspec_WorkflowID ` set (file_Workflows f)"
  from build_steps_from [OF built at] obtain spec where spec: "spec \<in> set (wspec_Steps ws)" "sspec_StepID spec = sid"
    and b: "buildStep (file_Name f) (wspec_WorkflowID ws) spec hooks std = Ok s" by auto
  have ok: "step_ok spec (set (step_ids ws)) ?wids ?fb std" and "sid \<noteq> []"
    using sv ws spec unfolding serves_def file_ok_def workflow_ok_def by force+
  have "sspec_OnSuccess spec \<in> set (all_edges ws ?fb sid)" if "sspec_OnSuccess spec \<noteq> []"
    using that ok spec \<open>sid \<noteq> []\<close> by (fastforce simp: all_edges_def step_ok_def)
  moreover have "fallback_of e s \<in> set (all_edges ws ?fb sid)" if ne: "fallback_of e s \<noteq> []"
  proof -
    obtain fb where fb: "?fb (sspec_CircuitBreakerPolicyRef spec) = Some fb" "fallback_of e s = fb"
      using ne serves_fallback [OF sv, of s] built_step(2) [OF b] by (auto split: option.splits)
    have "sspec_CircuitBreakerPolicyRef spec \<noteq> []"
      using ne built_step(2) [OF b] by (auto simp: fallback_of_def Let_def)
    with ok fb ne have "fb \<in> set (step_ids ws)" by (auto simp: step_ok_def)
    with spec fb \<open>sid \<noteq> []\<close> show ?thesis by (force simp: all_edges_def)
  qed
  ultimately show "nexts e s \<subseteq> set (all_edges ws ?fb sid)"
    using built_step(1) [OF b] by (auto simp: nexts_def)
  have "nested_in s \<subseteq> ?wids - {[]}" using built_step(4) [OF b ok] .
  moreover have "nested_in s - {[]} \<subseteq> set (nested_refs spec)" using built_step(3) [OF b] .
  ultimately show "nested_in s \<subseteq> set (sub_edges (file_Workflows f) (wspec_WorkflowID ws))"
    using spec(1) ws unfolding sub_edges_def by fastforce
qed

section \<open>Ranks from an acyclic graph\<close>

text \<open>A node's rank is the number of nodes it leads to: it falls along every edge of an acyclic graph.\<close>

definition rank :: "edges \<Rightarrow> string \<Rightarrow> nat" where
  "rank E x = card ((edge_rel E)\<^sup>+ `` {x})"

lemma reached_within:
  assumes "\<forall>x \<in> U. set (E x) \<subseteq> U" and "\<forall>x. x \<notin> U \<longrightarrow> E x = []"
  shows "(edge_rel E)\<^sup>+ `` {x} \<subseteq> U"
proof -
  have "y \<in> U" if "(x, y) \<in> (edge_rel E)\<^sup>+" for y
    using that by (induction rule: trancl_induct) (use assms in \<open>force simp: edge_rel_def\<close>)+
  then show ?thesis by auto
qed

lemma rank_falls:
  assumes "finite ((edge_rel E)\<^sup>+ `` {x})" and "\<forall>z. (z, z) \<notin> (edge_rel E)\<^sup>+" and "y \<in> set (E x)"
  shows "rank E y < rank E x"
proof -
  have e: "(x, y) \<in> (edge_rel E)\<^sup>+" using assms(3) by (auto simp: edge_rel_def)
  then have "(edge_rel E)\<^sup>+ `` {y} \<subset> (edge_rel E)\<^sup>+ `` {x}"
    using assms(2) by (blast intro: trancl_trans)
  then show ?thesis unfolding rank_def using assms(1) by (rule psubset_card_mono [rotated])
qed

lemma rank_bound:
  assumes "\<forall>x \<in> set nodes. set (E x) \<subseteq> set nodes" and "\<forall>x. x \<notin> set nodes \<longrightarrow> E x = []"
    and "\<forall>z. (z, z) \<notin> (edge_rel E)\<^sup>+"
  shows "rank E x = 0 \<or> rank E x < length nodes"
proof (cases "x \<in> set nodes")
  case True
  have "(edge_rel E)\<^sup>+ `` {x} \<subseteq> set nodes - {x}"
    using reached_within [OF assms(1,2)] assms(3) by blast
  then have "rank E x \<le> card (set nodes - {x})" unfolding rank_def by (intro card_mono) auto
  also have "\<dots> < card (set nodes)" using True by (intro card_Diff1_less) auto
  also have "\<dots> \<le> length nodes" by (rule card_length)
  finally show ?thesis by simp
next
  case False
  then have "(edge_rel E)\<^sup>+ `` {x} = {}" using assms(2) by (auto simp: edge_rel_def dest: tranclD)
  then show ?thesis by (simp add: rank_def)
qed

lemma graph_ranks:
  assumes "findCycle nodes E = None"
    and "\<forall>x \<in> set nodes. set (E x) \<subseteq> set nodes" and "\<forall>x. x \<notin> set nodes \<longrightarrow> E x = []"
  shows "y \<in> set (E x) \<Longrightarrow> rank E y < rank E x" and "rank E x = 0 \<or> rank E x < length nodes"
proof -
  have acyclic: "\<forall>z. (z, z) \<notin> (edge_rel E)\<^sup>+" using findCycle_None_iff [of nodes E] assms by blast
  show "rank E x = 0 \<or> rank E x < length nodes" using rank_bound [OF assms(2,3) acyclic] .
  have "finite ((edge_rel E)\<^sup>+ `` {x})"
    using reached_within [OF assms(2,3)] finite_subset finite_set by metis
  then show "y \<in> set (E x) \<Longrightarrow> rank E y < rank E x" using rank_falls acyclic by blast
qed

lemma search_exact:
  assumes "\<forall>x \<in> set nodes. set (E x) \<subseteq> set nodes" and "\<forall>x. x \<notin> set nodes \<longrightarrow> E x = []"
  shows "case findCycle nodes E of None \<Rightarrow> acyclic (edge_rel E) | Some c \<Rightarrow> is_cycle E c"
  using findCycle_spec [OF assms(1)] findCycle_None_iff [OF assms(1)] assms(2)
  by (auto simp: acyclic_def split: option.splits)

lemma success_edges_within:
  "\<forall>x \<in> set (step_ids ws). set (success_edges ws x) \<subseteq> set (step_ids ws)"
  "\<forall>x. x \<notin> set (step_ids ws) \<longrightarrow> success_edges ws x = []"
  by (auto simp: success_edges_def step_ids_def split: if_splits)

lemma all_edges_within:
  "\<forall>x \<in> set (step_ids ws). set (all_edges ws fb x) \<subseteq> set (step_ids ws)"
  "\<forall>x. x \<notin> set (step_ids ws) \<longrightarrow> all_edges ws fb x = []"
  by (auto simp: all_edges_def step_ids_def split: if_splits option.splits)

lemma sub_edges_within:
  "\<forall>x \<in> set (map wspec_WorkflowID wss). set (sub_edges wss x) \<subseteq> set (map wspec_WorkflowID wss)"
  "\<forall>x. x \<notin> set (map wspec_WorkflowID wss) \<longrightarrow> sub_edges wss x = []"
  by (auto simp: sub_edges_def split: if_splits)

section \<open>Serving an accepted manifest\<close>

text \<open>No circuit breaker of the manifest leads back to a step it may already have run.\<close>

definition no_fallback_loop :: "manifest_file \<Rightarrow> bool" where
  "no_fallback_loop f \<longleftrightarrow>
     (\<forall>ws \<in> set (file_Workflows f). findCycle (step_ids ws) (all_edges ws (policy_fallbacks (file_Policies f))) = None)"

definition within_limits :: "manifest_file \<Rightarrow> ('w, 's) engine \<Rightarrow> bool" where
  "within_limits f e \<longleftrightarrow>
     limits_positive e \<and>
     (\<forall>ws \<in> set (file_Workflows f). int (length (wspec_Steps ws)) \<le> eng_maxSteps e) \<and>
     int (length (file_Workflows f)) \<le> eng_maxDepth e + 1"

lemma length_step_ids: "length (step_ids ws) \<le> length (wspec_Steps ws)"
  using length_filter_le [of _ "map sspec_StepID (wspec_Steps ws)"] by (simp add: step_ids_def)

lemma serves_resolved:
  assumes sv: "serves f hooks std d e"
  shows "resolved e"
  unfolding resolved_def
proof (intro allI impI conjI ballI)
  fix ref flow assume fl: "eng_workflows e ref = Some flow"
  from serves_flow [OF sv fl] obtain ws where ws: "ws \<in> set (file_Workflows f)" "wspec_WorkflowID ws = ref"
    and entry: "wf_EntryStepID flow = wspec_EntryStepID ws"
    and built: "build_steps (file_Name f) ref hooks std (wspec_Steps ws) Map.empty = Ok (wf_Steps flow)" .
  have "dom (wf_Steps flow) = sspec_StepID ` set (wspec_Steps ws)" using build_steps_dom [OF built] by simp
  then have ids: "wf_Steps flow sid \<noteq> None" if "sid \<in> set (step_ids ws)" for sid
    using that by (auto simp: step_ids_def)
  have "wspec_EntryStepID ws \<in> set (step_ids ws)"
    using sv ws(1) unfolding serves_def file_ok_def workflow_ok_def by blast
  then show "wf_Steps flow (wf_EntryStepID flow) \<noteq> None" using entry ids by simp
  fix sid s assume s: "wf_Steps flow sid = Some s"
  note step = serves_step [OF sv ws(1) built [folded ws(2)] s]
  show "wf_Steps flow nxt \<noteq> None" if "nxt \<in> nexts e s" for nxt
  proof -
    have "nxt \<in> set (all_edges ws (policy_fallbacks (file_Policies f)) sid)" using step(1) that by blast
    then have "nxt \<in> set (step_ids ws)" by (auto simp: all_edges_def split: if_splits option.splits)
    then show ?thesis by (rule ids)
  qed
  show "eng_workflows e sub \<noteq> None" if "sub \<in> nested_in s" for sub
  proof -
    have "sub \<in> set (sub_edges (file_Workflows f) (wspec_WorkflowID ws))" using step(2) that by blast
    then have "sub \<in> wspec_WorkflowID ` set (file_Workflows f)" by (auto simp: sub_edges_def split: if_splits)
    then show ?thesis using serves_known [OF sv] by simp
  qed
qed

lemma serves_ranked:
  assumes sv: "serves f hooks std d e" and loop: "no_fallback_loop f" and lim: "within_limits f e"
  obtains step_rank flow_rank where "ranked e step_rank flow_rank"
proof -
  let ?fb = "policy_fallbacks (file_Policies f)" and ?sub = "sub_edges (file_Workflows f)"
  define spec_of where "spec_of ref =
    (SOME ws. ws \<in> set (file_Workflows f) \<and> wspec_WorkflowID ws = ref \<and>
      (\<forall>flow. eng_workflows e ref = Some flow \<longrightarrow>
        build_steps (file_Name f) ref hooks std (wspec_Steps ws) Map.empty = Ok (wf_Steps flow)))" for ref
  have spec: "spec_of ref \<in> set (file_Workflows f) \<and> wspec_WorkflowID (spec_of ref) = ref \<and>
      build_steps (file_Name f) ref hooks std (wspec_Steps (spec_of ref)) Map.empty = Ok (wf_Steps flow)"
    if fl: "eng_workflows e ref = Some flow" for ref flow
  proof -
    from serves_flow [OF sv fl] obtain ws where "ws \<in> set (file_Workflows f)" "wspec_WorkflowID ws = ref"
      "build_steps (file_Name f) ref hooks std (wspec_Steps ws) Map.empty = Ok (wf_Steps flow)" .
    then show ?thesis
      unfolding spec_of_def using fl by (rule_tac someI2 [where a = ws]) auto
  qed
  have flows: "y \<in> set (?sub x) \<Longrightarrow> rank ?sub y < rank ?sub x"
    "rank ?sub x = 0 \<or> rank ?sub x < length (map wspec_WorkflowID (file_Workflows f))" for x y
    using graph_ranks [OF _ sub_edges_within] sv unfolding serves_def file_ok_def by blast+
  have steps: "y \<in> set (all_edges ws ?fb x) \<Longrightarrow> rank (all_edges ws ?fb) y < rank (all_edges ws ?fb) x"
    "rank (all_edges ws ?fb) x = 0 \<or> rank (all_edges ws ?fb) x < length (step_ids ws)"
    if "ws \<in> set (file_Workflows f)" for ws x y
    using graph_ranks [OF _ all_edges_within] loop that unfolding no_fallback_loop_def by blast+
  have "ranked e (\<lambda>ref. rank (all_edges (spec_of ref) ?fb)) (rank ?sub)"
    unfolding ranked_def
  proof (intro conjI allI impI ballI)
    fix ref flow sid s nxt
    assume fl: "eng_workflows e ref = Some flow" and s: "wf_Steps flow sid = Some s"
    note sp = spec [OF fl]
    note step = serves_step [OF sv conjunct1 [OF sp], unfolded conjunct1 [OF conjunct2 [OF sp]], OF conjunct2 [OF conjunct2 [OF sp]] s]
    show "rank (all_edges (spec_of ref) ?fb) nxt < rank (all_edges (spec_of ref) ?fb) sid" if "nxt \<in> nexts e s"
      using steps(1) [OF conjunct1 [OF sp]] step(1) that by blast
    show "rank ?sub nxt < rank ?sub ref" if "nxt \<in> nested_in s"
      using flows(1) step(2) that by blast
  next
    fix ref flow sid assume fl: "eng_workflows e ref = Some flow"
    have ws: "spec_of ref \<in> set (file_Workflows f)" using spec [OF fl] by blast
    then have "int (length (step_ids (spec_of ref))) \<le> eng_maxSteps e"
      using lim length_step_ids [of "spec_of ref"] unfolding within_limits_def by fastforce
    with steps(2) [OF ws, of sid] lim show "int (rank (all_edges (spec_of ref) ?fb) sid) < eng_maxSteps e"
      by (auto simp: within_limits_def limits_positive_def)
  next
    fix ref show "int (rank ?sub ref) \<le> eng_maxDepth e"
      using flows(2) [of ref] lim by (auto simp: within_limits_def limits_positive_def)
  qed
  then show thesis by (rule that)
qed

section \<open>The properties\<close>

text \<open>A sample: one workflow of two steps, the second falling back to the first's guard.\<close>

definition sample_manifest :: manifest_file where
  "sample_manifest =
     \<lparr>file_Name = ''shop'',
      file_Intents = [\<lparr>ispec_NodeID = ''shop.pay'', ispec_Examples = [''pay''], ispec_EntryWorkflowRef = ''pay'',
        ispec_DeprecatedEntryStepRef = []\<rparr>],
      file_Policies = [\<lparr>pspec_PolicyID = ''guard'', pspec_FallbackStepRef = ''refund''\<rparr>],
      file_Workflows =
        [\<lparr>wspec_WorkflowID = ''pay'', wspec_EntryStepID = ''charge'', wspec_Steps =
          [\<lparr>sspec_StepID = ''charge'', sspec_Type = ''leaf'', sspec_ActionRef = ''act'', sspec_With = [],
            sspec_SandboxProbeRef = [], sspec_CircuitBreakerPolicyRef = ''guard'', sspec_OnSuccess = [],
            sspec_SubWorkflowRef = [], sspec_Branches = [], sspec_CompensateWith = ''refund''\<rparr>,
           \<lparr>sspec_StepID = ''refund'', sspec_Type = ''leaf'', sspec_ActionRef = ''act'', sspec_With = [],
            sspec_SandboxProbeRef = [], sspec_CircuitBreakerPolicyRef = [], sspec_OnSuccess = [],
            sspec_SubWorkflowRef = [], sspec_Branches = [], sspec_CompensateWith = []\<rparr>]\<rparr>]\<rparr>"

definition sample_hooks :: "journal hooks" where
  "sample_hooks = [''act'' \<mapsto> fails ''no card'']"

lemma sample_manifest_OK: "report_OK (validate_file sample_manifest (Map.empty :: journal library))"
  by code_simp

lemma sample_manifest_known: "actions_known sample_manifest sample_hooks Map.empty"
  by (simp add: actions_known_def sample_manifest_def sample_hooks_def)

lemma sample_manifest_no_loop: "no_fallback_loop sample_manifest"
  by code_simp

text \<open>
  C15. The validator's cycle search is exact on each of its three graphs, on success, with fallbacks and
  between workflows: it finds nothing exactly when the graph has no cycle, and what it reports is one.
\<close>

theorem cycle_search_is_exact:
  "(case findCycle (step_ids ws) (success_edges ws) of
      None \<Rightarrow> acyclic (edge_rel (success_edges ws)) | Some c \<Rightarrow> is_cycle (success_edges ws) c) \<and>
   (case findCycle (step_ids ws) (all_edges ws fallbacks) of
      None \<Rightarrow> acyclic (edge_rel (all_edges ws fallbacks)) | Some c \<Rightarrow> is_cycle (all_edges ws fallbacks) c) \<and>
   (case findCycle (map wspec_WorkflowID wss) (sub_edges wss) of
      None \<Rightarrow> acyclic (edge_rel (sub_edges wss)) | Some c \<Rightarrow> is_cycle (sub_edges wss) c)"
  by (intro conjI search_exact success_edges_within all_edges_within sub_edges_within)

text \<open>
  C13. A manifest the validator accepts loads, provided the actions it does not find in the standard
  library are among the hooks.
\<close>

theorem accepted_manifests_load:
  assumes "report_OK (Validate decoded std)"
    and "\<And>f. decoded = Inr f \<Longrightarrow> actions_known f hooks std"
  shows "is_ok (Load decoded hooks std)"
proof (cases decoded)
  case (Inl err)
  with assms(1) show ?thesis by (simp add: Validate_def)
next
  case (Inr f)
  with assms show ?thesis by (simp add: Validate_def Load_def load_file_ok validate_file_OK)
qed

lemma accepted_manifests_load_witness: "is_ok (Load (Inr sample_manifest) sample_hooks Map.empty)"
  using accepted_manifests_load [of "Inr sample_manifest" Map.empty sample_hooks]
    sample_manifest_OK sample_manifest_known by (simp add: Validate_def)

definition sample_domain :: "journal domain" where
  "sample_domain =
     (case load_file sample_manifest sample_hooks Map.empty of
        Ok d \<Rightarrow> d
      | _ \<Rightarrow> \<lparr>dom_Name = [], dom_Intents = [], dom_Workflows = [], dom_Policies = []\<rparr>)"

lemma sample_manifest_loads: "load_file sample_manifest sample_hooks Map.empty = Ok sample_domain"
  using load_file_ok [OF validate_file_OK [OF sample_manifest_OK] sample_manifest_known]
  by (auto simp: is_ok_iff sample_domain_def)

lemma sample_domain_facts:
  "dom_Name sample_domain = ''shop''" "wf_WorkflowID ` set (dom_Workflows sample_domain) = {''pay''}"
  "dom_Intents sample_domain = [sample_node ''shop'']"
  by code_simp+

definition sample_registry :: "(journal, memory_store) registry" where
  "sample_registry = RegisterDomain sample_domain (NewRegistry (NewRouter (Fin (1 / 2))) (NewEngine None))"

lemma sample_engine_empty:
  "eng_workflows (NewEngine None) = Map.empty" "eng_policies (NewEngine None) = Map.empty"
  by (simp_all add: NewEngine_def)

lemma sample_manifest_within: "within_limits sample_manifest (NewEngine None)"
  by (simp add: within_limits_def sample_manifest_def) (simp add: NewEngine_def DefaultMaxSteps_def DefaultMaxDepth_def)

lemma sample_host_ok: "host_ok sample_host"
  by (simp add: sample_host_def)

text \<open>
  C12. Serving an accepted manifest never meets a dangling reference. Take any workflow of the manifest
  and any run of it, or of a workflow that one of its steps names as sub-workflow or branch, at any
  depth, as the engine makes it from whatever context, world and store: it does not end because a step
  or a workflow is missing, whatever actions, probes and schedule do. The runs nested in a run
  are such runs, so none of them meets a dangling reference either, also where the breaker of an outer step
  would have swallowed the error.
\<close>

theorem accepted_manifests_never_dangle:
  assumes "report_OK (validate_file f std)" and "load_file f hooks std = Ok d"
    and "eng_workflows e0 = Map.empty" and "eng_policies e0 = Map.empty" and "host_ok h"
    and "ref \<in> wf_WorkflowID ` set (dom_Workflows d)"
    and "target = ref \<or>
      (\<exists>flow sid s. eng_workflows (reg_engine (RegisterDomain d (NewRegistry r e0))) ref = Some flow \<and>
        wf_Steps flow sid = Some s \<and> target \<in> nested_in s)"
  shows "fst (runFrom h (reg_engine (RegisterDomain d (NewRegistry r e0))) depth target [] c rt) \<noteq> Err (missing_step w sid) \<and>
    fst (runFrom h (reg_engine (RegisterDomain d (NewRegistry r e0))) depth target [] c rt) \<noteq> Err (unknown_workflow w)"
proof -
  let ?e = "reg_engine (RegisterDomain d (NewRegistry r e0))"
  have sv: "serves f hooks std d ?e" using assms(1-4) by (intro servesI)
  then have "dom (eng_workflows ?e) = wf_WorkflowID ` set (dom_Workflows d)"
    by (simp add: serves_def dom_map_of_conv_image_fst image_image)
  with assms(6) have "eng_workflows ?e ref \<noteq> None" by blast
  then have "eng_workflows ?e target \<noteq> None"
    using assms(7) serves_resolved [OF sv] unfolding resolved_def by blast
  then obtain flow' where "eng_workflows ?e target = Some flow'" by blast
  then have "dangling.clean (fst (runFrom h ?e depth target [] c rt))"
    using resolved_runFrom [OF serves_resolved [OF sv] assms(5)] by blast
  then show "fst (runFrom h ?e depth target [] c rt) \<noteq> Err (missing_step w sid) \<and>
      fst (runFrom h ?e depth target [] c rt) \<noteq> Err (unknown_workflow w)"
    by (auto simp: dangling.clean_def is_dangling_def split: res.splits)
qed

definition checkout_manifest :: manifest_file where
  "checkout_manifest = sample_manifest\<lparr>file_Workflows :=
     \<lparr>wspec_WorkflowID = ''checkout'', wspec_EntryStepID = ''settle'', wspec_Steps =
       [\<lparr>sspec_StepID = ''settle'', sspec_Type = ''composite'', sspec_ActionRef = [], sspec_With = [],
         sspec_SandboxProbeRef = [], sspec_CircuitBreakerPolicyRef = [], sspec_OnSuccess = [],
         sspec_SubWorkflowRef = ''pay'', sspec_Branches = [], sspec_CompensateWith = []\<rparr>]\<rparr> # file_Workflows sample_manifest\<rparr>"

definition checkout_domain :: "journal domain" where
  "checkout_domain =
     (case load_file checkout_manifest sample_hooks Map.empty of
        Ok d \<Rightarrow> d
      | _ \<Rightarrow> \<lparr>dom_Name = [], dom_Intents = [], dom_Workflows = [], dom_Policies = []\<rparr>)"

lemma checkout_manifest_OK: "report_OK (validate_file checkout_manifest (Map.empty :: journal library))"
  by code_simp

lemma checkout_manifest_loads: "load_file checkout_manifest sample_hooks Map.empty = Ok checkout_domain"
proof -
  have "actions_known checkout_manifest sample_hooks Map.empty"
    by (simp add: actions_known_def checkout_manifest_def sample_manifest_def sample_hooks_def)
  from load_file_ok [OF validate_file_OK [OF checkout_manifest_OK] this] show ?thesis
    by (auto simp: is_ok_iff checkout_domain_def)
qed

lemma checkout_nests:
  "wf_WorkflowID ` set (dom_Workflows checkout_domain) = {''checkout'', ''pay''}"
  "(case eng_workflows (reg_engine (RegisterDomain checkout_domain (NewRegistry (NewRouter (Fin (1 / 2)))
      (NewEngine None :: (journal, memory_store) engine)))) ''checkout'' of
     Some flow \<Rightarrow> (case wf_Steps flow ''settle'' of Some s \<Rightarrow> ''pay'' \<in> nested_in s | None \<Rightarrow> False) | None \<Rightarrow> False)"
  by code_simp+

lemma accepted_manifests_never_dangle_witness:
  "fst (runFrom sample_host (reg_engine (RegisterDomain checkout_domain (NewRegistry (NewRouter (Fin (1 / 2)))
     (NewEngine None)))) 1 ''pay'' [] [] sample_rt) \<noteq> Err (missing_step ''pay'' ''refund'')"
  by (rule conjunct1 [OF accepted_manifests_never_dangle [OF checkout_manifest_OK checkout_manifest_loads
        sample_engine_empty sample_host_ok, where ref = "''checkout''"]])
    (use checkout_nests in \<open>auto split: option.splits\<close>)

text \<open>
  C11. Serving an accepted manifest never runs away: when no fallback loops back and the manifest is no
  larger than the ceilings, no run of it reports the step limit or the nesting limit, whatever fails.
\<close>

theorem accepted_manifests_never_run_away:
  assumes "report_OK (validate_file f std)" and "load_file f hooks std = Ok d"
    and "eng_workflows e0 = Map.empty" and "eng_policies e0 = Map.empty" and "host_ok h"
    and "no_fallback_loop f" and "within_limits f e0"
  shows "fst (Run h (reg_engine (RegisterDomain d (NewRegistry r e0))) ref c rt) \<noteq> Err (StepLimitExceeded w n recent) \<and>
    fst (Run h (reg_engine (RegisterDomain d (NewRegistry r e0))) ref c rt) \<noteq> Err (DepthLimitExceeded w n)"
proof -
  let ?e = "reg_engine (RegisterDomain d (NewRegistry r e0))"
  have sv: "serves f hooks std d ?e" using assms by (intro servesI)
  have lim: "within_limits f ?e"
    using assms(7) by (simp add: within_limits_def limits_positive_def RegisterDomain_engine NewRegistry_def)
  obtain step_rank flow_rank where rk: "ranked ?e step_rank flow_rank"
    using serves_ranked [OF sv assms(6) lim] .
  then have "0 + int (flow_rank ref) \<le> eng_maxDepth ?e" by (simp add: ranked_def)
  then have "runaway.clean (fst (Run h ?e ref c rt))"
    unfolding Run_def run_at_def using ranked_runFrom [OF rk assms(5)] by blast
  then show "fst (Run h ?e ref c rt) \<noteq> Err (StepLimitExceeded w n recent) \<and>
    fst (Run h ?e ref c rt) \<noteq> Err (DepthLimitExceeded w n)"
    by (auto simp: runaway.clean_def split: res.splits)
qed

lemma accepted_manifests_never_run_away_witness:
  "fst (Run sample_host (reg_engine sample_registry) ''pay'' [] sample_rt) \<noteq> Err (StepLimitExceeded ''pay'' 10000 [])"
  unfolding sample_registry_def
  by (rule conjunct1 [OF accepted_manifests_never_run_away [OF sample_manifest_OK sample_manifest_loads]])
    (simp_all add: sample_engine_empty sample_host_ok sample_manifest_no_loop sample_manifest_within)

text \<open>
  C14. Routing and serving compose. Register the domain of a manifest that the validator accepts with a
  fresh registry (an engine and a router that hold nothing of the domain yet). When the router
  matches a request in that domain, the workflow it names is one that the manifest defines, the
  engine has it under that name, and running it, from whatever context, world and store, does not
  end because that workflow or one of its steps is missing.
\<close>

theorem routed_requests_run:
  assumes "report_OK (validate_file f std)" and "load_file f hooks std = Ok d"
    and "eng_workflows e0 = Map.empty" and "eng_policies e0 = Map.empty" and "host_ok h"
    and "rtr_nodes r0 (dom_Name d) = []"
    and "reg = RegisterDomain d (NewRegistry r0 e0)"
    and "fst (Match u (dom_Name d) rawText (reg_router reg) w) = m" and "match_Matched m"
  shows "(\<exists>flow \<in> set (dom_Workflows d). wf_WorkflowID flow = match_EntryWorkflowRef m \<and>
      eng_workflows (reg_engine reg) (match_EntryWorkflowRef m) = Some (claim_workflow (dom_Name d) flow)) \<and>
    fst (Run h (reg_engine reg) (match_EntryWorkflowRef m) c rt) \<noteq> Err (unknown_workflow x) \<and>
    fst (Run h (reg_engine reg) (match_EntryWorkflowRef m) c rt) \<noteq> Err (missing_step x sid)"
proof -
  have sv: "serves f hooks std d (reg_engine reg)" unfolding assms(7) using assms(1-4) by (intro servesI)
  have "rtr_nodes (reg_router reg) (dom_Name d) = filter (\<lambda>n. node_DomainID n = dom_Name d) (dom_Intents d)"
    using assms(6,7) by (simp add: RegisterDomain_router NewRegistry_def)
  then have "match_EntryWorkflowRef m \<in> node_EntryWorkflowRef ` set (dom_Intents d)"
    using Match_source [of u "dom_Name d" rawText "reg_router reg" w] assms(8,9) by auto
  then obtain n where n: "n \<in> set (dom_Intents d)" "match_EntryWorkflowRef m = node_EntryWorkflowRef n" by blast
  with list_all2_set2 [OF load_file_intents [OF assms(2)]] obtain i where i: "i \<in> set (file_Intents f)"
    "load_intent (file_Name f) i = Ok n" by blast
  then have "entryWorkflow i = match_EntryWorkflowRef m" using n(2) by (auto simp: load_intent_def split: if_splits)
  moreover have "entryWorkflow i \<in> wspec_WorkflowID ` set (file_Workflows f)"
    using sv i(1) unfolding serves_def file_ok_def by blast
  ultimately have "match_EntryWorkflowRef m \<in> wspec_WorkflowID ` set (file_Workflows f)" by simp
  then obtain flow where flow: "eng_workflows (reg_engine reg) (match_EntryWorkflowRef m) = Some flow"
    using serves_known [OF sv, of "match_EntryWorkflowRef m"] by auto
  have "dangling.clean (fst (Run h (reg_engine reg) (match_EntryWorkflowRef m) c rt))"
    unfolding Run_def run_at_def using resolved_runFrom [OF serves_resolved [OF sv] assms(5) flow] by blast
  then have "fst (Run h (reg_engine reg) (match_EntryWorkflowRef m) c rt) \<noteq> Err (unknown_workflow x) \<and>
      fst (Run h (reg_engine reg) (match_EntryWorkflowRef m) c rt) \<noteq> Err (missing_step x sid)"
    by (auto simp: dangling.clean_def is_dangling_def split: res.splits)
  moreover have "(match_EntryWorkflowRef m, flow) \<in> set (map (\<lambda>w. (wf_WorkflowID w, claim_workflow (dom_Name d) w)) (dom_Workflows d))"
    using sv flow map_of_SomeD unfolding serves_def by fastforce
  ultimately show ?thesis using flow by auto
qed

lemma sample_registry_match:
  "fst (Match ascii_only ''shop'' ''Pay'' (reg_router sample_registry) w) =
     \<lparr>match_Matched = True, match_NodeRef = ''shop.pay'', match_Confidence = Fin 1, match_EntryWorkflowRef = ''pay''\<rparr>"
proof -
  have nodes: "rtr_nodes (reg_router sample_registry) ''shop'' = [sample_node ''shop'']"
    and frame: "rtr_vectorizer (reg_router sample_registry) = None"
      "rtr_threshold (reg_router sample_registry) = Fin (1 / 2)" "rtr_observer (reg_router sample_registry) = False"
    by (simp_all add: sample_registry_def RegisterDomain_def sample_domain_facts NewRegistry_def NewRouter_def
        RegisterNode_def sample_node_def Let_def)
  from sample_router_facts(2,4) show ?thesis
    by (simp add: Match_def router_match_def matchLexical_def nodes frame challenge_def similarity_def
        router_result_def f64_le_def) (simp add: sample_node_def)
qed

lemma routed_requests_run_witness:
  "(\<exists>flow \<in> set (dom_Workflows sample_domain). wf_WorkflowID flow = ''pay'') \<and>
   fst (Run sample_host (reg_engine sample_registry) ''pay'' [] sample_rt) \<noteq> Err (unknown_workflow ''pay'')"
proof -
  have "match_EntryWorkflowRef (fst (Match ascii_only ''shop'' ''Pay'' (reg_router sample_registry) [])) = ''pay''"
    and "match_Matched (fst (Match ascii_only ''shop'' ''Pay'' (reg_router sample_registry) []))"
    by (simp_all add: sample_registry_match)
  with routed_requests_run [OF sample_manifest_OK sample_manifest_loads sample_engine_empty sample_host_ok _
      sample_registry_def refl, where u = ascii_only and rawText = "''Pay''" and c = "[]" and rt = sample_rt
      and x = "''pay''" and w = "[]"]
  show ?thesis by (auto simp: sample_domain_facts NewRouter_def)
qed

end
