(* ===== verification/Injector.thy ===== *)
theory Injector
  imports Stdlib Samples
begin

text \<open>
  The extractor (\<open>llminjector/injector.go\<close>): a model behind an \<open>Extractor\<close> turns text into fields, the
  injector checks them against a schema and records which fields came from the model, and \<open>ContextFrom\<close>
  carries that record into the run's context. The extractor and the observer are parameters over the
  world \<open>'w\<close>; the order in which a schema's map is iterated is the argument \<open>range_schema\<close>.
\<close>

section \<open>Schemas and extraction\<close>

datatype field_type = FieldString | FieldFloat64 | FieldBool | OtherField int

text \<open>\<open>OtherField\<close> is any other value of the integer type: the \<open>default\<close> of the switch.\<close>

type_synonym schema = "field_type gomap"

type_synonym 'w extractor = "string \<Rightarrow> 'w \<Rightarrow> (string + ctx) \<times> 'w"

record 'w registration =
  rn_schema :: schema
  rn_extractor :: "'w extractor"

text \<open>The observer; \<open>io_result\<close> is there when it also is a \<open>ResultObserver\<close>.\<close>

record 'w injector_observer =
  io_extraction :: "string \<Rightarrow> 'w \<Rightarrow> 'w"
  io_result :: "(extraction_request \<Rightarrow> extraction_result \<Rightarrow> 'w \<Rightarrow> 'w) option"

record 'w injector =
  inj_registrations :: "string \<rightharpoonup> 'w registration"
  inj_observer :: "'w injector_observer option"

definition NewInjector :: "'w injector" where
  "NewInjector = \<lparr>inj_registrations = Map.empty, inj_observer = None\<rparr>"

definition injector_SetObserver :: "'w injector_observer option \<Rightarrow> 'w injector \<Rightarrow> 'w injector" where
  "injector_SetObserver ob ij = ij\<lparr>inj_observer := ob\<rparr>"

definition RegisterSchema :: "string \<Rightarrow> schema \<Rightarrow> 'w extractor \<Rightarrow> 'w injector \<Rightarrow> 'w injector" where
  "RegisterSchema ref schema ex ij =
     ij\<lparr>inj_registrations := (inj_registrations ij)(ref \<mapsto> \<lparr>rn_schema = schema, rn_extractor = ex\<rparr>)\<rparr>"

definition matchesType :: "gval \<Rightarrow> field_type \<Rightarrow> bool" where
  "matchesType v t =
     (case (t, v) of
        (FieldString, GStr _) \<Rightarrow> True
      | (FieldFloat64, GFloat _) \<Rightarrow> True
      | (FieldBool, GBool _) \<Rightarrow> True
      | _ \<Rightarrow> False)"

definition failed_extraction :: "string list \<Rightarrow> extraction_result" where
  "failed_extraction errs =
     \<lparr>exres_Success = False, exres_StructuredPayload = [], exres_ValidationErrors = errs, exres_ModelDerived = []\<rparr>"

text \<open>The loop over the schema, with the errors and the checked fields so far.\<close>

fun check_fields :: "ctx \<Rightarrow> (string \<times> field_type) list \<Rightarrow> string list \<times> ctx \<Rightarrow> string list \<times> ctx" where
  "check_fields payload [] acc = acc"
| "check_fields payload ((fld, t) # rest) (errs, clean) =
     check_fields payload rest
       (case map_of payload fld of
          None \<Rightarrow> (errs @ [''missing field '' @ quoted fld], clean)
        | Some v \<Rightarrow>
            if \<not> matchesType v t then (errs @ [''field '' @ quoted fld @ '' has the wrong type''], clean)
            else (errs, gput fld v clean))"

definition inj_extract :: "(schema \<Rightarrow> schema) \<Rightarrow> 'w injector \<Rightarrow> extraction_request \<Rightarrow> 'w \<Rightarrow> extraction_result \<times> 'w" where
  "inj_extract range_schema ij req w =
     (case inj_registrations ij (exreq_SchemaRef req) of
        None \<Rightarrow> (failed_extraction [''no schema registered for '' @ quoted (exreq_SchemaRef req)], w)
      | Some reg \<Rightarrow>
          (let w1 = (case inj_observer ij of None \<Rightarrow> w | Some ob \<Rightarrow> io_extraction ob (exreq_SchemaRef req) w) in
           case rn_extractor reg (exreq_RawText req) w1 of
             (Inl err, w2) \<Rightarrow> (failed_extraction [err], w2)
           | (Inr payload, w2) \<Rightarrow>
               (case check_fields payload (range_schema (rn_schema reg)) ([], []) of
                  (errs, clean) \<Rightarrow>
                    if errs \<noteq> [] then (failed_extraction errs, w2)
                    else (\<lparr>exres_Success = True, exres_StructuredPayload = clean, exres_ValidationErrors = [],
                           exres_ModelDerived = sort (gkeys clean)\<rparr>, w2))))"

definition Extract :: "(schema \<Rightarrow> schema) \<Rightarrow> 'w injector \<Rightarrow> extraction_request \<Rightarrow> 'w \<Rightarrow> extraction_result \<times> 'w" where
  "Extract range_schema ij req w =
     (case inj_extract range_schema ij req w of
        (result, w1) \<Rightarrow>
          (result,
           case inj_observer ij of
             None \<Rightarrow> w1
           | Some ob \<Rightarrow> (case io_result ob of None \<Rightarrow> w1 | Some f \<Rightarrow> f req result w1)))"

definition existingProvenance :: "ctx \<Rightarrow> string list" where
  "existingProvenance c =
     (case map_of c ModelDerivedKey of
        Some (GStrs v) \<Rightarrow> v
      | Some (GArr v) \<Rightarrow> concat (map (\<lambda>item. case item of GStr s \<Rightarrow> [s] | _ \<Rightarrow> []) v)
      | _ \<Rightarrow> [])"

definition ContextFrom :: "ctx \<Rightarrow> extraction_result \<Rightarrow> ctx" where
  "ContextFrom base result =
     (let c = gmerge base (exres_StructuredPayload result);
          derived = remdups (existingProvenance base @ exres_ModelDerived result) in
      if derived = [] then c else gput ModelDerivedKey (GStrs (sort derived)) c)"

text \<open>The reader in this package and the one in \<open>stdlib\<close> agree.\<close>

lemma existingProvenance_eq [simp]: "existingProvenance = provenanceOf"
  unfolding existingProvenance_def provenanceOf_def strings_in_def ..

section \<open>The schema decides\<close>

definition field_ok :: "ctx \<Rightarrow> string \<times> field_type \<Rightarrow> bool" where
  "field_ok payload f \<longleftrightarrow> (\<exists>v. map_of payload (fst f) = Some v \<and> matchesType v (snd f))"

lemma check_fields_errs:
  "fst (check_fields payload fs (errs, clean)) = [] \<longleftrightarrow> errs = [] \<and> (\<forall>f \<in> set fs. field_ok payload f)"
proof (induction fs arbitrary: errs clean)
  case (Cons f fs)
  obtain fld t where f: "f = (fld, t)" by force
  show ?case by (simp add: f Cons.IH field_ok_def split: option.split)
qed simp

lemma check_fields_lookup:
  "map_of (snd (check_fields payload fs (errs, clean))) k =
     (if \<exists>t. (k, t) \<in> set fs \<and> field_ok payload (k, t) then map_of payload k else map_of clean k)"
proof (induction fs arbitrary: errs clean)
  case (Cons f fs)
  obtain fld t where f: "f = (fld, t)" by force
  show ?case by (auto simp: f Cons.IH field_ok_def split: option.split)
qed simp

lemma check_fields_wf: "gwf clean \<Longrightarrow> gwf (snd (check_fields payload fs (errs, clean)))"
proof (induction fs arbitrary: errs clean)
  case (Cons f fs)
  obtain fld t where f: "f = (fld, t)" by force
  show ?case using Cons by (auto simp: f split: option.split)
qed simp

definition checked :: "ctx \<Rightarrow> schema \<Rightarrow> ctx" where
  "checked payload schema = snd (check_fields payload schema ([], []))"

lemma checked_lookup:
  "distinct (gkeys schema) \<Longrightarrow> \<forall>f \<in> set schema. field_ok payload f \<Longrightarrow>
   map_of (checked payload schema) k = (if k \<in> set (gkeys schema) then map_of payload k else None)"
  by (auto simp: checked_def check_fields_lookup gkeys_def image_iff)

lemma checked_gwf [simp]: "gwf (checked payload schema)"
  by (simp add: checked_def check_fields_wf)

text \<open>With the schema's fields in any order the verdict and the checked fields are the same.\<close>

lemma checked_order:
  assumes "mset fs = mset schema" and "distinct (gkeys schema)" and "\<forall>f \<in> set schema. field_ok payload f"
  shows "checked payload fs = checked payload schema"
proof (rule gomap_eqI)
  have set: "set fs = set schema" using assms(1) by (rule mset_eq_setD)
  have "mset (gkeys fs) = mset (gkeys schema)" using assms(1) by (simp add: gkeys_def)
  with assms(2) have "distinct (gkeys fs)" "set (gkeys fs) = set (gkeys schema)"
    using mset_eq_imp_distinct_iff mset_eq_setD by blast+
  with assms(2,3) set show "map_of (checked payload fs) = map_of (checked payload schema)"
    by (simp add: checked_lookup fun_eq_iff)
qed simp_all

lemma Extract_result:
  assumes "inj_registrations ij (exreq_SchemaRef req) = Some reg"
    and "rn_extractor reg (exreq_RawText req)
      (case inj_observer ij of None \<Rightarrow> w | Some ob \<Rightarrow> io_extraction ob (exreq_SchemaRef req) w) = (Inr payload, w2)"
    and "mset (range_schema (rn_schema reg)) = mset (rn_schema reg)" and "gwf (rn_schema reg)"
  shows "if \<forall>f \<in> set (rn_schema reg). field_ok payload f then
      fst (Extract range_schema ij req w) =
        \<lparr>exres_Success = True, exres_StructuredPayload = checked payload (rn_schema reg),
         exres_ValidationErrors = [], exres_ModelDerived = sort (gkeys (checked payload (rn_schema reg)))\<rparr>
    else \<exists>errs. errs \<noteq> [] \<and> fst (Extract range_schema ij req w) = failed_extraction errs"
proof -
  let ?fs = "range_schema (rn_schema reg)"
  obtain errs clean where c: "check_fields payload ?fs ([], []) = (errs, clean)" by force
  have set: "set ?fs = set (rn_schema reg)" using assms(3) by (rule mset_eq_setD)
  have res: "fst (Extract range_schema ij req w) =
      (if errs \<noteq> [] then failed_extraction errs
       else \<lparr>exres_Success = True, exres_StructuredPayload = clean, exres_ValidationErrors = [],
             exres_ModelDerived = sort (gkeys clean)\<rparr>)"
    using assms(1,2) c by (simp add: Extract_def inj_extract_def Let_def)
  have ok: "errs = [] \<longleftrightarrow> (\<forall>f \<in> set (rn_schema reg). field_ok payload f)"
    using check_fields_errs [of payload ?fs "[]" "[]"] c set by simp
  have "clean = checked payload (rn_schema reg)" if "errs = []"
    using checked_order [OF assms(3) gwf_distinct [OF assms(4)], of payload] ok that c
    unfolding checked_def by simp
  with res ok show ?thesis by auto
qed

section \<open>Provenance\<close>

lemma provenanceOf_put [simp]: "provenanceOf (gput ModelDerivedKey (GStrs names) c) = names"
  by (simp add: provenanceOf_def)

lemma provenance_ContextFrom:
  assumes "exres_ModelDerived r \<noteq> [] \<or> provenanceOf base \<noteq> []"
  shows "set (provenanceOf (ContextFrom base r)) = set (provenanceOf base) \<union> set (exres_ModelDerived r)"
  using assms by (auto simp: ContextFrom_def Let_def)

lemma nonempty_names_mem: "nonempty_names vs = Some names \<Longrightarrow> GStr s \<in> set vs \<Longrightarrow> s \<in> set names"
  by (induction vs arbitrary: names) (auto split: gval.splits if_splits)

lemma ContextFrom_lookup:
  "k \<noteq> ModelDerivedKey \<Longrightarrow>
   map_of (ContextFrom base r) k = (map_of base ++ map_of (exres_StructuredPayload r)) k"
  by (auto simp: ContextFrom_def Let_def)

section \<open>The properties\<close>

text \<open>
  C17. The schema decides: an extraction succeeds exactly when the model's answer has every declared
  field with its declared type. It then yields those fields, with those values, and no other, and
  records each of them as model-derived, in order; otherwise it yields no field at all, and an error.
\<close>

theorem extraction_obeys_the_schema:
  assumes "inj_registrations ij (exreq_SchemaRef req) = Some reg"
    and "rn_extractor reg (exreq_RawText req)
      (case inj_observer ij of None \<Rightarrow> w | Some ob \<Rightarrow> io_extraction ob (exreq_SchemaRef req) w) = (Inr payload, w2)"
    and "mset (range_schema (rn_schema reg)) = mset (rn_schema reg)" and "gwf (rn_schema reg)"
    and "fst (Extract range_schema ij req w) = r"
  shows "if \<forall>(fld, t) \<in> set (rn_schema reg). \<exists>v. map_of payload fld = Some v \<and> matchesType v t then
      exres_Success r \<and> exres_ValidationErrors r = [] \<and>
      map_of (exres_StructuredPayload r) = map_of payload |` set (gkeys (rn_schema reg)) \<and>
      sorted (exres_ModelDerived r) \<and> distinct (exres_ModelDerived r) \<and>
      set (exres_ModelDerived r) = set (gkeys (rn_schema reg))
    else \<not> exres_Success r \<and> exres_StructuredPayload r = [] \<and> exres_ModelDerived r = [] \<and> exres_ValidationErrors r \<noteq> []"
proof -
  let ?schema = "rn_schema reg" and ?c = "checked payload (rn_schema reg)"
  have ok: "(\<forall>(fld, t) \<in> set ?schema. \<exists>v. map_of payload fld = Some v \<and> matchesType v t) \<longleftrightarrow>
      (\<forall>f \<in> set ?schema. field_ok payload f)" by (auto simp: field_ok_def)
  show ?thesis
  proof (cases "\<forall>f \<in> set ?schema. field_ok payload f")
    case True
    have look: "map_of ?c = map_of payload |` set (gkeys ?schema)"
      using checked_lookup [OF gwf_distinct [OF assms(4)] True] by (auto simp: restrict_map_def fun_eq_iff)
    have "set (gkeys ?c) = set (gkeys ?schema)"
      unfolding set_gkeys [of ?c] look using True by (auto simp: field_ok_def gkeys_def)
    with True look show ?thesis
      unfolding ok using Extract_result [OF assms(1,2), of range_schema, OF assms(3,4)] assms(5) gwf_distinct [of ?c] by auto
  next
    case False
    then obtain errs where "errs \<noteq> []" "r = failed_extraction errs"
      using Extract_result [OF assms(1,2), of range_schema, OF assms(3,4)] assms(5) unfolding if_not_P [OF False] by blast
    with False show ?thesis unfolding ok by (simp add: failed_extraction_def)
  qed
qed

text \<open>A sample: a model that reads an amount off the text.\<close>

definition sample_injector :: "journal injector" where
  "sample_injector = RegisterSchema ''bill'' [(''amount'', FieldFloat64)]
     (\<lambda>t w. (Inr [(''amount'', GFloat (Fin 12)), (''note'', GStr t)], w)) NewInjector"

definition sample_request :: extraction_request where
  "sample_request = \<lparr>exreq_RawText = ''twelve'', exreq_SchemaRef = ''bill'', exreq_DomainID = ''shop''\<rparr>"

lemmas sample_injector_defs = sample_injector_def sample_request_def RegisterSchema_def NewInjector_def

lemma sample_extraction: "exres_ModelDerived (fst (Extract id sample_injector sample_request [])) = [''amount'']"
  by (simp add: sample_injector_defs Extract_def inj_extract_def matchesType_def)

lemma extraction_obeys_the_schema_witness:
  "exres_Success (fst (Extract id sample_injector sample_request [])) \<and>
   map_of (exres_StructuredPayload (fst (Extract id sample_injector sample_request []))) ''note'' = None"
  using extraction_obeys_the_schema [of sample_injector sample_request
      "\<lparr>rn_schema = [(''amount'', FieldFloat64)],
        rn_extractor = (\<lambda>t w. (Inr [(''amount'', GFloat (Fin 12)), (''note'', GStr t)], w))\<rparr>"
      "[]" "[(''amount'', GFloat (Fin 12)), (''note'', GStr ''twelve'')]" "[]" id, OF _ _ _ _ refl]
  by (simp add: sample_injector_defs matchesType_def gwf_def)

text \<open>
  C18. A guess is never acted on: whatever the model answered, a field it supplied, now or in an earlier
  extraction kept in the context, makes a \<open>std.require_verified\<close> step naming that field fail.
\<close>

theorem guesses_stay_guesses:
  assumes "requireVerifiedFactory params = Inr act"
    and "map_of params ''fields'' = Some (GArr items)" and "GStr fld \<in> set items"
    and "fld \<in> set (provenanceOf base) \<union> set (exres_ModelDerived (fst (Extract range_schema ij req w)))"
  shows "\<exists>msg. fst (act (ContextFrom base (fst (Extract range_schema ij req w))) w') = Fails msg"
proof -
  let ?r = "fst (Extract range_schema ij req w)"
  obtain names where names: "nonempty_names items = Some names"
    using assms(1,2) by (auto simp: requireVerifiedFactory_def split: if_splits option.splits)
  have "fld \<in> set names" using nonempty_names_mem [OF names] assms(3) by simp
  moreover have "fld \<in> set (provenanceOf (ContextFrom base ?r))"
    using assms(4) provenance_ContextFrom [of ?r base] by fastforce
  moreover have "act = (\<lambda>c w.
      (let guessed = filter (\<lambda>f. f \<in> set (provenanceOf c)) names in
       if guessed \<noteq> [] then
         Fails (''refusing to act on model-derived '' @ str_join guessed '', '' @
                '': extracted values are not verified facts'')
       else Output [], w))"
    using assms(1,2) names by (auto simp: requireVerifiedFactory_def split: if_splits)
  ultimately show ?thesis by (auto simp: Let_def filter_empty_conv)
qed

lemma guesses_stay_guesses_witness:
  "\<exists>act. requireVerifiedFactory [(''fields'', GArr [GStr ''amount''])] = Inr act \<and>
     (\<exists>msg. fst (act (ContextFrom [] (fst (Extract id sample_injector sample_request []))) ([] :: journal)) = Fails msg)"
proof -
  obtain act :: "journal action" where "requireVerifiedFactory [(''fields'', GArr [GStr ''amount''])] = Inr act"
    by (simp add: requireVerifiedFactory_def)
  then show ?thesis
    using guesses_stay_guesses [of _ act "[GStr ''amount'']" "''amount''" "[]" id sample_injector sample_request]
    by (auto simp: sample_extraction)
qed

end
