(* ===== verification/Json.thy ===== *)
theory Json
  imports GoValue Utf8
begin

text \<open>
  \<open>encoding/json\<close> on the values a context holds: \<open>json_marshal\<close> is \<open>json.Marshal\<close>, \<open>None\<close> when it
  returns an error, which only NaN and the infinities cause. A nil slice or map is not told apart
  from an empty one.
\<close>

section \<open>Marshalling\<close>

definition hex4 :: "nat \<Rightarrow> string" where
  "hex4 n = CHR 0x5C # ''u'' @
     [hex_digit (n div 4096 mod 16), hex_digit (n div 256 mod 16), hex_digit (n div 16 mod 16), hex_digit (n mod 16)]"

definition json_ascii :: "nat \<Rightarrow> string" where
  "json_ascii b =
     (if b = 0x22 \<or> b = 0x5C then [CHR 0x5C, char_of b]
      else if b = 0x08 then [CHR 0x5C, CHR ''b'']
      else if b = 0x0C then [CHR 0x5C, CHR ''f'']
      else if b = 0x0A then [CHR 0x5C, CHR ''n'']
      else if b = 0x0D then [CHR 0x5C, CHR ''r'']
      else if b = 0x09 then [CHR 0x5C, CHR ''t'']
      else if b < 0x20 \<or> b = 0x3C \<or> b = 0x3E \<or> b = 0x26 then hex4 b
      else [char_of b])"

function json_escape :: "nat list \<Rightarrow> string" where
  "json_escape bs =
     (if bs = [] then []
      else if hd bs < 0x80 then json_ascii (hd bs) @ json_escape (tl bs)
      else
        (let (r, n) = decode_rune bs in
         (if n = 1 then hex4 0xFFFD
          else if r = 0x2028 \<or> r = 0x2029 then hex4 r
          else map char_of (take n bs)) @ json_escape (drop n bs)))"
  by pat_completeness auto
termination
  by (relation "measure length") (use decode_rune_size' in \<open>auto simp: neq_Nil_conv\<close>, metis decode_rune_size' diff_less length_Cons zero_less_Suc)

declare json_escape.simps [simp del]

definition json_string :: "string \<Rightarrow> string" where
  "json_string s = [CHR 0x22] @ json_escape (map of_char s) @ [CHR 0x22]"

definition json_exp :: "int \<Rightarrow> string" where
  "json_exp x = ''e'' @ (if x < 0 then ''-'' else ''+'') @ digits_of (nat \<bar>x\<bar>)"

definition json_pos_rat :: "nat \<Rightarrow> rat \<Rightarrow> string" where
  "json_pos_rat p q =
     (let (d, e) = shortest_from 16 1 p q; ds = digits_of (nat d); x = e + int (length ds) - 1 in
      if q < round_bits p (pow10 (- 6)) \<or> round_bits p (pow10 21) \<le> q then
        take 1 ds @ (if length ds > 1 then ''.'' @ drop 1 ds else []) @ json_exp x
      else if 0 \<le> e then ds @ replicate (nat e) (CHR ''0'')
      else if 0 \<le> x then take (nat x + 1) ds @ ''.'' @ drop (nat x + 1) ds
      else ''0.'' @ replicate (nat (- x) - 1) (CHR ''0'') @ ds)"

fun json_float :: "nat \<Rightarrow> float64 \<Rightarrow> string option" where
  "json_float p (Fin q) =
     Some (if q = 0 then ''0'' else if q < 0 then ''-'' @ json_pos_rat p (- q) else json_pos_rat p q)"
| "json_float p _ = None"

definition json_list :: "string \<Rightarrow> string \<Rightarrow> string list option \<Rightarrow> string option" where
  "json_list l r xs = map_option (\<lambda>ss. l @ str_join ss '','' @ r) xs"

fun json_marshal :: "gval \<Rightarrow> string option" and json_marshals :: "gval list \<Rightarrow> string list option"
  and json_members :: "(string \<times> gval) list \<Rightarrow> string list option" where
  "json_marshal GNil = Some ''null''"
| "json_marshal (GBool b) = Some (if b then ''true'' else ''false'')"
| "json_marshal (GStr s) = Some (json_string s)"
| "json_marshal (GFloat x) = json_float 53 x"
| "json_marshal (GFloat32 x) = json_float 24 x"
| "json_marshal (GInt w) = Some (show_int (sint w))"
| "json_marshal (GInt64 w) = Some (show_int (sint w))"
| "json_marshal (GStrs xs) = json_list ''['' '']'' (Some (map json_string xs))"
| "json_marshal (GArr xs) = json_list ''['' '']'' (json_marshals xs)"
| "json_marshal (GObj m) = json_list ''{'' ''}'' (json_members m)"
| "json_marshals [] = Some []"
| "json_marshals (x # xs) =
     (case json_marshal x of None \<Rightarrow> None | Some s \<Rightarrow> map_option (Cons s) (json_marshals xs))"
| "json_members [] = Some []"
| "json_members ((k, v) # m) =
     (case json_marshal v of None \<Rightarrow> None
      | Some s \<Rightarrow> map_option (Cons (json_string k @ '':'' @ s)) (json_members m))"

text \<open>Marshalling fails exactly on a float that is not a number or not finite, at any depth.\<close>

fun finite_floats :: "gval \<Rightarrow> bool" and all_finite :: "gval list \<Rightarrow> bool"
  and members_finite :: "(string \<times> gval) list \<Rightarrow> bool" where
  "finite_floats (GFloat x) = (\<exists>q. x = Fin q)"
| "finite_floats (GFloat32 x) = (\<exists>q. x = Fin q)"
| "finite_floats (GArr xs) = all_finite xs"
| "finite_floats (GObj m) = members_finite m"
| "finite_floats _ = True"
| "all_finite [] = True"
| "all_finite (x # xs) = (finite_floats x \<and> all_finite xs)"
| "members_finite [] = True"
| "members_finite ((k, v) # m) = (finite_floats v \<and> members_finite m)"

lemma json_float_None: "json_float p x = None \<longleftrightarrow> (\<nexists>q. x = Fin q)"
  by (cases x) auto

lemma json_marshal_None:
  "json_marshal v = None \<longleftrightarrow> \<not> finite_floats v"
  "json_marshals vs = None \<longleftrightarrow> \<not> all_finite vs"
  "json_members m = None \<longleftrightarrow> \<not> members_finite m"
  by (induction v and vs and m rule: json_marshal_json_marshals_json_members.induct)
    (auto simp: json_list_def json_float_None split: option.splits)

end
