(* ===== verification/Replay.thy ===== *)
theory Replay
  imports Injector Json
begin

text \<open>
  Recording and replaying (\<open>replay/replay.go\<close>): a recorder notes every probe verdict and every
  extraction of a run, a player answers from the recording instead, and \<open>Compare\<close> lists how the
  outcome differs. Recorder and player are objects behind pointers: their states are parts of the
  world of the replayed program (\<open>lab\<close>), beside what lies outside it.
\<close>

section \<open>Recordings\<close>

record probe_record =
  pv_ProbeRef :: string
  pv_DomainID :: string
  pv_Healthy :: bool
  pv_DetectedFailureMode :: string
  pv_Err :: string

record extraction_record =
  er_SchemaRef :: string
  er_DomainID :: string
  er_RawText :: string
  er_Success :: bool
  er_Payload :: ctx
  er_ModelDerived :: "string list"
  er_ValidationErrors :: "string list"

record recording =
  rec_WorkflowID :: string
  rec_Input :: ctx
  rec_Probes :: "probe_record list"
  rec_Extractions :: "extraction_record list"
  rec_Trace :: "string list"
  rec_Output :: ctx
  rec_Suspended :: bool
  rec_Failed :: bool
  rec_Error :: string
  rec_RecordedAt :: int

text \<open>The recorder's notes; what it wraps is an argument, nil being \<open>None\<close>.\<close>

record recorder =
  rcd_verdicts :: "probe_record list"
  rcd_extractions :: "extraction_record list"

text \<open>The player's queues (an absent key is an empty queue) and what it could not answer.\<close>

record player =
  pl_byRef :: "string \<Rightarrow> probe_record list"
  pl_extractions :: "string \<Rightarrow> extraction_record list"
  pl_unmatched :: "string list"

record 'w lab =
  lab_outside :: 'w
  lab_recorder :: recorder
  lab_player :: player

section \<open>Recording\<close>

definition NewRecorder :: recorder where
  "NewRecorder = \<lparr>rcd_verdicts = [], rcd_extractions = []\<rparr>"

definition probe_note :: "probe_request \<Rightarrow> probe_result \<times> string option \<Rightarrow> probe_record" where
  "probe_note req answer =
     \<lparr>pv_ProbeRef = preq_ProbeRef req, pv_DomainID = preq_DomainID req,
      pv_Healthy = pres_Healthy (fst answer), pv_DetectedFailureMode = pres_DetectedFailureMode (fst answer),
      pv_Err = (case snd answer of Some e \<Rightarrow> e | None \<Rightarrow> [])\<rparr>"

definition recorder_Probe :: "'w prober option \<Rightarrow> 'w lab prober" where
  "recorder_Probe inner req l =
     (case inner of
        None \<Rightarrow> ((\<lparr>pres_Healthy = False, pres_DetectedFailureMode = []\<rparr>,
                  Some (''replay: no sandbox configured, but '' @ quoted (preq_ProbeRef req) @ '' was probed'')), l)
      | Some prober \<Rightarrow>
          (case prober req (lab_outside l) of
             (answer, w) \<Rightarrow>
               (answer,
                l\<lparr>lab_outside := w,
                  lab_recorder := (lab_recorder l)\<lparr>rcd_verdicts := rcd_verdicts (lab_recorder l) @ [probe_note req answer]\<rparr>\<rparr>)))"

definition ObserveExtractionResult :: "extraction_request \<Rightarrow> extraction_result \<Rightarrow> recorder \<Rightarrow> recorder" where
  "ObserveExtractionResult req result r =
     r\<lparr>rcd_extractions := rcd_extractions r @
        [\<lparr>er_SchemaRef = exreq_SchemaRef req, er_DomainID = exreq_DomainID req, er_RawText = exreq_RawText req,
          er_Success = exres_Success result, er_Payload = exres_StructuredPayload result,
          er_ModelDerived = exres_ModelDerived result, er_ValidationErrors = exres_ValidationErrors result\<rparr>]\<rparr>"

text \<open>The recorder as the observer of an injector; its \<open>ObserveExtraction\<close> does nothing.\<close>

definition recorder_observer :: "'w lab injector_observer" where
  "recorder_observer =
     \<lparr>io_extraction = (\<lambda>_ l. l),
      io_result = Some (\<lambda>req result l. l\<lparr>lab_recorder := ObserveExtractionResult req result (lab_recorder l)\<rparr>)\<rparr>"

definition Finish :: "recorder \<Rightarrow> string \<Rightarrow> ctx \<Rightarrow> workflow_result \<Rightarrow> string option \<Rightarrow> int \<Rightarrow> recording" where
  "Finish r workflowID input result runErr now =
     \<lparr>rec_WorkflowID = workflowID, rec_Input = input, rec_Probes = rcd_verdicts r,
      rec_Extractions = rcd_extractions r, rec_Trace = wr_Trace result, rec_Output = wr_Output result,
      rec_Suspended = (wr_StatePointer result \<noteq> []), rec_Failed = (runErr \<noteq> None),
      rec_Error = (case runErr of Some e \<Rightarrow> e | None \<Rightarrow> []), rec_RecordedAt = now\<rparr>"

section \<open>Replaying\<close>

definition probes_for :: "string \<Rightarrow> probe_record list \<Rightarrow> probe_record list" where
  "probes_for ref vs = filter (\<lambda>v. pv_ProbeRef v = ref) vs"

definition NewPlayer :: "recording \<Rightarrow> player" where
  "NewPlayer r =
     \<lparr>pl_byRef = (\<lambda>ref. probes_for ref (rec_Probes r)),
      pl_extractions = (\<lambda>ref. filter (\<lambda>x. er_SchemaRef x = ref) (rec_Extractions r)), pl_unmatched = []\<rparr>"

definition player_Probe :: "'w prober option \<Rightarrow> 'w lab prober" where
  "player_Probe fallback req l =
     (let p = lab_player l; ref = preq_ProbeRef req in
      case pl_byRef p ref of
        v # rest \<Rightarrow>
          ((\<lparr>pres_Healthy = pv_Healthy v, pres_DetectedFailureMode = pv_DetectedFailureMode v\<rparr>,
            if pv_Err v \<noteq> [] then Some (pv_Err v) else None),
           if rest \<noteq> [] then l\<lparr>lab_player := p\<lparr>pl_byRef := (pl_byRef p)(ref := rest)\<rparr>\<rparr> else l)
      | [] \<Rightarrow>
          (let l1 = l\<lparr>lab_player := p\<lparr>pl_unmatched := pl_unmatched p @ [ref]\<rparr>\<rparr> in
           case fallback of
             Some prober \<Rightarrow> (case prober req (lab_outside l1) of (answer, w) \<Rightarrow> (answer, l1\<lparr>lab_outside := w\<rparr>))
           | None \<Rightarrow>
               ((\<lparr>pres_Healthy = False,
                  pres_DetectedFailureMode = ''replay: the recording holds no verdict for probe '' @ quoted ref\<rparr>, None), l1)))"

definition Unmatched :: "player \<Rightarrow> string list" where
  "Unmatched p = pl_unmatched p"

definition ExtractorFor :: "string \<Rightarrow> 'w lab extractor" where
  "ExtractorFor schemaRef rawText l =
     (let p = lab_player l in
      case pl_extractions p schemaRef of
        [] \<Rightarrow> (Inl (''replay: the recording holds no extraction for schema '' @ quoted schemaRef),
               l\<lparr>lab_player := p\<lparr>pl_unmatched := pl_unmatched p @ [''extraction:'' @ schemaRef]\<rparr>\<rparr>)
      | x # rest \<Rightarrow>
          (if \<not> er_Success x then
             Inl (case er_ValidationErrors x of [] \<Rightarrow> ''extraction failed'' | reason # _ \<Rightarrow> reason)
           else Inr (er_Payload x),
           if rest \<noteq> [] then l\<lparr>lab_player := p\<lparr>pl_extractions := (pl_extractions p)(schemaRef := rest)\<rparr>\<rparr> else l))"

text \<open>The two values a run returns: the zero result beside an error.\<close>

definition result_of :: "outcome \<Rightarrow> workflow_result" where
  "result_of r = (case r of Ok x \<Rightarrow> x | _ \<Rightarrow> empty_result)"

definition error_of :: "outcome \<Rightarrow> string option" where
  "error_of r = (case r of Err e \<Rightarrow> Some (error_text e) | _ \<Rightarrow> None)"

section \<open>Comparing\<close>

record difference =
  diff_Field :: string
  diff_Before :: gval
  diff_After :: gval

definition difference_String :: "difference \<Rightarrow> string" where
  "difference_String d = diff_Field d @ '': '' @ fmt_v (diff_Before d) @ '' -> '' @ fmt_v (diff_After d)"

definition joinTrace :: "string list \<Rightarrow> string" where
  "joinTrace steps =
     (let out = str_join steps '' -> '' in if out = [] then ''(empty)'' else out)"

definition replay_sameValue :: "gval \<Rightarrow> gval \<Rightarrow> bool" where
  "replay_sameValue a b =
     (case (json_marshal a, json_marshal b) of
        (Some ja, Some jb) \<Rightarrow> ja = jb
      | _ \<Rightarrow> fmt_v a = fmt_v b)"

definition field_difference :: "ctx \<Rightarrow> ctx \<Rightarrow> string \<Rightarrow> difference list" where
  "field_difference before after key =
     (case (map_of before key, map_of after key) of
        (Some b, None) \<Rightarrow> [\<lparr>diff_Field = ''output.'' @ key, diff_Before = b, diff_After = GNil\<rparr>]
      | (None, Some a) \<Rightarrow> [\<lparr>diff_Field = ''output.'' @ key, diff_Before = GNil, diff_After = a\<rparr>]
      | (Some b, Some a) \<Rightarrow>
          if \<not> replay_sameValue b a then [\<lparr>diff_Field = ''output.'' @ key, diff_Before = b, diff_After = a\<rparr>] else []
      | (None, None) \<Rightarrow> [])"

definition Compare :: "recording \<Rightarrow> workflow_result \<Rightarrow> string option \<Rightarrow> difference list" where
  "Compare r result runErr =
     (let b = joinTrace (rec_Trace r); a = joinTrace (wr_Trace result) in
      if b \<noteq> a then [\<lparr>diff_Field = ''trace'', diff_Before = GStr b, diff_After = GStr a\<rparr>] else []) @
     (let b = rec_Suspended r; a = (wr_StatePointer result \<noteq> []) in
      if b \<noteq> a then [\<lparr>diff_Field = ''suspended'', diff_Before = GBool b, diff_After = GBool a\<rparr>] else []) @
     (let failed = (runErr \<noteq> None) in
      if rec_Failed r \<noteq> failed then
        [\<lparr>diff_Field = ''failed'', diff_Before = GBool (rec_Failed r), diff_After = GBool failed\<rparr>]
      else case runErr of
        Some e \<Rightarrow>
          if rec_Error r \<noteq> e then [\<lparr>diff_Field = ''error'', diff_Before = GStr (rec_Error r), diff_After = GStr e\<rparr>] else []
      | None \<Rightarrow> []) @
     concat (map (field_difference (rec_Output r) (wr_Output result))
       (sort (gkeys (rec_Output r) @ filter (\<lambda>k. k \<notin> set (gkeys (rec_Output r))) (gkeys (wr_Output result)))))"

end
