(* ===== verification/Lockstep.thy ===== *)
theory Lockstep
  imports Simulation
begin

text \<open>
  Two runs in lockstep for as long as a guard holds of the first. Unlike \<open>run_simulation\<close>, the two
  may differ once the guard is lost, which nothing later restores: the guard is read off the end of
  the first run and pulled back through it. Used for replaying: the guard says that what the run has
  recorded so far is the beginning of the finished recording. Outcomes are compared up to the
  resume pointer, which is random.
\<close>

section \<open>Outcomes that look alike\<close>

definition alike_result :: "workflow_result \<Rightarrow> workflow_result \<Rightarrow> bool" where
  "alike_result a b \<longleftrightarrow>
     wr_Output b = wr_Output a \<and> wr_Trace b = wr_Trace a \<and> (wr_StatePointer b = [] \<longleftrightarrow> wr_StatePointer a = [])"

fun alike :: "outcome \<Rightarrow> outcome \<Rightarrow> bool" where
  "alike (Ok a) r = (\<exists>b. r = Ok b \<and> alike_result a b)"
| "alike (Err e) r = (r = Err e)"
| "alike (Panic p) r = (r = Panic p)"

lemma alike_refl [simp]: "alike r r"
  by (cases r) (auto simp: alike_result_def)

fun alike_progress :: "progress \<Rightarrow> progress \<Rightarrow> bool" where
  "alike_progress (Next c) p = (p = Next c)"
| "alike_progress (Halt r) p = (\<exists>r'. p = Halt r' \<and> alike r r')"

lemma alike_progress_refl [simp]: "alike_progress p p"
  by (cases p) auto

lemma first_bypass_alike: "list_all2 alike os1 os2 \<Longrightarrow> first_bypass os2 = first_bypass os1"
proof (induction rule: list_all2_induct)
  case (Cons r1 os1 r2 os2)
  then show ?case by (cases r1) auto
qed simp

lemma branch_failures_alike: "list_all2 alike os1 os2 \<Longrightarrow> branch_failures bs os2 = branch_failures bs os1"
proof (induction arbitrary: bs rule: list_all2_induct)
  case (Cons r1 os1 r2 os2)
  then show ?case by (cases r1; cases bs) auto
qed simp

lemma branch_results_alike:
  "list_all2 alike os1 os2 \<Longrightarrow>
   map (\<lambda>(b, r). (b, wr_Output r)) (branch_results bs os2) = map (\<lambda>(b, r). (b, wr_Output r)) (branch_results bs os1) \<and>
   map (\<lambda>(b, r). wr_Trace r) (branch_results bs os2) = map (\<lambda>(b, r). wr_Trace r) (branch_results bs os1)"
proof (induction arbitrary: bs rule: list_all2_induct)
  case (Cons r1 os1 r2 os2)
  then show ?case by (cases r1; cases bs) (auto simp: alike_result_def)
qed simp

lemma join_outcomes_alike: "list_all2 alike os1 os2 \<Longrightarrow> join_outcomes h s c os2 = join_outcomes h s c os1"
  using first_bypass_alike [of os1 os2] branch_failures_alike [of os1 os2] branch_results_alike [of os1 os2]
  by (simp add: join_outcomes_def Let_def split: option.split)

lemma recovered_alike: "alike r1 r2 \<Longrightarrow> alike (recovered sid b r1) (recovered sid b r2)"
  by (cases r1) (auto simp: recovered_def)

section \<open>The lockstep\<close>

locale lockstep =
  fixes h :: "'w host" and e1 e2 :: "('w, 's) engine" and G :: "('w, 's) rt \<Rightarrow> bool"
    and S :: "('w, 's) rt \<Rightarrow> ('w, 's) rt \<Rightarrow> bool"
  assumes same_workflows: "eng_workflows e2 = eng_workflows e1"
    and same_policies: "eng_policies e2 = eng_policies e1"
    and same_maxSteps: "eng_maxSteps e2 = eng_maxSteps e1"
    and same_maxDepth: "eng_maxDepth e2 = eng_maxDepth e1"
    and same_sandbox: "eng_sandbox e2 = None \<longleftrightarrow> eng_sandbox e1 = None"
    and back_observe: "G (observe e1 ev rt) \<Longrightarrow> G rt"
    and back_weave: "G (weave_log h n m rt) \<Longrightarrow> G rt"
    and back_action: "leaf_in e1 s \<Longrightarrow> leaf_Run s c (rt_world rt) = (oc, w) \<Longrightarrow> G (rt\<lparr>rt_world := w\<rparr>) \<Longrightarrow> G rt"
    and back_probe: "eng_sandbox e1 = Some p \<Longrightarrow> p req (rt_world rt) = (a, w) \<Longrightarrow> G (rt\<lparr>rt_world := w\<rparr>) \<Longrightarrow> G rt"
    and back_suspend: "suspend h e1 flow sid reason aud c tr depth rt = (r, rt') \<Longrightarrow> G rt' \<Longrightarrow> G rt"
    and both_observe: "S rt1 rt2 \<Longrightarrow> S (observe e1 ev rt1) (observe e2 ev rt2)"
    and both_weave: "S base1 base2 \<Longrightarrow> S mine1 mine2 \<Longrightarrow> S rt1 rt2 \<Longrightarrow>
      S (weave_log h (length (rt_log base1)) (length (rt_log mine1)) rt1)
        (weave_log h (length (rt_log base2)) (length (rt_log mine2)) rt2)"
    and both_action: "S rt1 rt2 \<Longrightarrow> leaf_in e1 s \<Longrightarrow> leaf_Run s c (rt_world rt1) = (o1, w1) \<Longrightarrow>
      leaf_Run s c (rt_world rt2) = (o2, w2) \<Longrightarrow> o2 = o1 \<and> S (rt1\<lparr>rt_world := w1\<rparr>) (rt2\<lparr>rt_world := w2\<rparr>)"
    and both_probe: "S rt1 rt2 \<Longrightarrow> eng_sandbox e1 = Some p1 \<Longrightarrow> eng_sandbox e2 = Some p2 \<Longrightarrow>
      p1 req (rt_world rt1) = (a1, w1) \<Longrightarrow> p2 req (rt_world rt2) = (a2, w2) \<Longrightarrow> G (rt1\<lparr>rt_world := w1\<rparr>) \<Longrightarrow>
      probe_verdict a2 = probe_verdict a1 \<and> S (rt1\<lparr>rt_world := w1\<rparr>) (rt2\<lparr>rt_world := w2\<rparr>)"
    and both_suspend: "S rt1 rt2 \<Longrightarrow> suspend h e1 flow sid reason aud c tr depth rt1 = (r1, rt1') \<Longrightarrow>
      suspend h e2 flow sid reason aud c tr depth rt2 = (r2, rt2') \<Longrightarrow> alike r1 r2 \<and> S rt1' rt2'"
begin

lemma onFailure_both: "onFailure e2 s reason c = onFailure e1 s reason c"
  by (simp add: onFailure_def same_policies cong: if_cong)

text \<open>The guard pulled back through the first run.\<close>

lemma unwind_back:
  "eng_workflows e1 ref = Some flow \<Longrightarrow> unwind_rev flow es c un fs (rt_world rt) = (r, w) \<Longrightarrow>
   G (rt\<lparr>rt_world := w\<rparr>) \<Longrightarrow> G rt"
proof (induction es arbitrary: c un fs rt)
  case (Cons en es)
  show ?case
  proof (cases "wf_Steps flow (done_compensateStep en)")
    case None
    with Cons show ?thesis by (cases r) auto
  next
    case (Some s)
    show ?thesis
    proof (cases s)
      case (LeafStep leaf)
      have l: "leaf_in e1 leaf" using Cons.prems(1) Some LeafStep by (auto simp: leaf_in_def)
      obtain o1 w1 where r1: "leaf_Run leaf c (rt_world rt) = (o1, w1)" by force
      let ?rt = "rt\<lparr>rt_world := w1\<rparr>"
      have "\<exists>c' un' fs'. unwind_rev flow es c' un' fs' (rt_world ?rt) = (r, w) \<or> w = w1"
        using Cons.prems(2) Some LeafStep r1 by (cases o1) auto
      then have "G ?rt" using Cons.IH [OF Cons.prems(1), of _ _ _ ?rt] Cons.prems(3) by auto
      then show ?thesis by (rule back_action [OF l r1])
    qed (use Cons Some in auto)
  qed
qed auto

lemma abandon_back:
  assumes "eng_workflows e1 ref = Some flow" and "abandon flow dn c cause rt = (r, rt')" and "G rt'"
  shows "G rt"
proof (cases cause)
  case (CircuitBreakerTripped sid reason un fs)
  obtain a w where u: "unwind_rev flow (rev dn) c [] [] (rt_world rt) = (a, w)" by force
  then have "G (rt\<lparr>rt_world := w\<rparr>) \<or> G rt"
    using assms(2,3) CircuitBreakerTripped by (cases a) (auto simp: abandon_def unwind_def split: if_splits)
  with unwind_back [OF assms(1) u] show ?thesis by blast
qed (use assms in \<open>simp_all add: abandon_def\<close>)

lemma divert_back:
  assumes "eng_workflows e1 ref = Some flow" and "divert e1 flow s reason cur rt = (pr, rt')" and "G rt'"
  shows "G rt"
  using assms(2,3)
  by (auto simp: divert_def Let_def split: res.splits prod.splits dest: abandon_back [OF assms(1)] back_observe)

lemma run_action_back:
  assumes "eng_workflows e1 ref = Some flow" and "leaf_in e1 s"
    and "run_action h e1 flow s depth cur rt = (pr, rt')" and "G rt'"
  shows "G rt"
proof -
  let ?rt = "observe e1 (ObserveStep (wf_WorkflowID flow) (leaf_StepID s)) rt"
  obtain oc w where r: "leaf_Run s (cur_ctx cur) (rt_world ?rt) = (oc, w)" by force
  have "G (?rt\<lparr>rt_world := w\<rparr>)"
    using assms(3,4) r divert_back [OF assms(1)] back_suspend
    by (cases oc) (auto simp: run_action_def Let_def split: prod.splits)
  then show ?thesis using back_action [OF assms(2) r] back_observe by blast
qed

lemma exec_leaf_back:
  assumes "eng_workflows e1 ref = Some flow" and "leaf_in e1 s"
    and "exec_leaf h e1 flow s depth cur rt = (pr, rt')" and "G rt'"
  shows "G rt"
proof (cases "leaf_SandboxProbeRef s = [] \<or> eng_sandbox e1 = None")
  case True
  then show ?thesis
    using assms(3,4) run_action_back [OF assms(1,2)] by (auto simp: exec_leaf_def split: if_splits)
next
  case False
  then obtain p where p: "eng_sandbox e1 = Some p" "leaf_SandboxProbeRef s \<noteq> []" by auto
  let ?rt = "observe e1 (ObserveSandboxProbe (wf_WorkflowID flow) (leaf_StepID s)) rt"
  let ?req = "\<lparr>preq_ProbeRef = leaf_SandboxProbeRef s, preq_DomainID = wf_DomainID flow, preq_StepContext = cur_ctx cur\<rparr>"
  obtain a w where q: "p ?req (rt_world ?rt) = (a, w)" by (metis surj_pair)
  obtain healthy reason where v: "probe_verdict a = (healthy, reason)" by force
  have "G (observe e1 (ObserveProbeOutcome (wf_WorkflowID flow) (leaf_StepID s) healthy) (?rt\<lparr>rt_world := w\<rparr>))"
    using assms(3,4) p q v divert_back [OF assms(1)] run_action_back [OF assms(1,2)]
    by (cases healthy) (auto simp: exec_leaf_def Let_def)
  then show ?thesis using back_probe [OF p(1) q] back_observe by blast
qed

end

sublocale lockstep \<subseteq> pulled: step_relation h e1 d0 "\<lambda>rt rt'. G rt' \<longrightarrow> G rt" for d0
proof unfold_locales
  show "G rt' \<longrightarrow> G rt" if "eng_workflows e1 ref = Some flow" "divert e1 flow s reason cur rt = (pr, rt')"
    for ref flow s reason cur rt pr rt' using divert_back that by blast
  show "G rt' \<longrightarrow> G rt" if "eng_workflows e1 ref = Some flow" "wf_Steps flow sid = Some (LeafStep leaf)"
    "exec_leaf h e1 flow leaf depth cur rt = (pr, rt')" for depth ref flow sid leaf cur rt pr rt'
    using exec_leaf_back [OF that(1) _ that(3)] that(1,2) by (auto simp: leaf_in_def)
qed (auto dest: back_weave)

context lockstep
begin

text \<open>The two runs side by side, under the guard at the end of the first.\<close>

lemma unwind_both:
  assumes "eng_workflows e1 ref = Some flow"
  shows "S rt1 rt2 \<Longrightarrow> unwind_rev flow es c un fs (rt_world rt1) = (r1, w1) \<Longrightarrow>
    unwind_rev flow es c un fs (rt_world rt2) = (r2, w2) \<Longrightarrow> r2 = r1 \<and> S (rt1\<lparr>rt_world := w1\<rparr>) (rt2\<lparr>rt_world := w2\<rparr>)"
proof (induction es arbitrary: c un fs rt1 rt2)
  case Nil
  then have "rt1\<lparr>rt_world := w1\<rparr> = rt1" "rt2\<lparr>rt_world := w2\<rparr> = rt2" by auto
  with Nil show ?case by auto
next
  case (Cons en es)
  show ?case
  proof (cases "wf_Steps flow (done_compensateStep en)")
    case None
    from Cons.IH [OF Cons.prems(1)] Cons.prems None show ?thesis by simp
  next
    case (Some s)
    show ?thesis
    proof (cases s)
      case (LeafStep leaf)
      have l: "leaf_in e1 leaf" using assms Some LeafStep by (auto simp: leaf_in_def)
      obtain o1 v1 where a1: "leaf_Run leaf c (rt_world rt1) = (o1, v1)" by force
      obtain o2 v2 where a2: "leaf_Run leaf c (rt_world rt2) = (o2, v2)" by force
      from both_action [OF Cons.prems(1) l a1 a2]
      have o: "o2 = o1" and S': "S (rt1\<lparr>rt_world := v1\<rparr>) (rt2\<lparr>rt_world := v2\<rparr>)" by auto
      show ?thesis using Cons.IH [OF S'] S' Cons.prems(2,3) Some LeafStep a1 a2 o by (cases o1) auto
    qed (use Cons.IH [OF Cons.prems(1)] Cons.prems Some in auto)
  qed
qed

lemma abandon_both:
  assumes "S rt1 rt2" and "eng_workflows e1 ref = Some flow"
    and "abandon flow dn c cause rt1 = (r1, rt1')" and "abandon flow dn c cause rt2 = (r2, rt2')"
  shows "r2 = r1 \<and> S rt1' rt2'"
proof (cases cause)
  case (CircuitBreakerTripped sid reason un fs)
  obtain a1 w1 where u1: "unwind_rev flow (rev dn) c [] [] (rt_world rt1) = (a1, w1)" by force
  obtain a2 w2 where u2: "unwind_rev flow (rev dn) c [] [] (rt_world rt2) = (a2, w2)" by force
  from unwind_both [OF assms(2,1) u1 u2] assms(1,3,4) CircuitBreakerTripped u1 u2 show ?thesis
    by (cases a1) (auto simp: abandon_def unwind_def split: if_splits)
qed (use assms in \<open>auto simp: abandon_def\<close>)

lemma divert_both:
  assumes "S rt1 rt2" and "eng_workflows e1 ref = Some flow"
    and "divert e1 flow s reason cur rt1 = (p1, rt1')" and "divert e2 flow s reason cur rt2 = (p2, rt2')"
  shows "p2 = p1 \<and> S rt1' rt2'"
proof -
  let ?ev = "ObserveCircuitBreaker (wf_WorkflowID flow) (step_ID s)"
  have o: "S (observe e1 ?ev rt1) (observe e2 ?ev rt2)" by (rule both_observe [OF assms(1)])
  show ?thesis
  proof (cases "onFailure e1 s reason (cur_ctx cur)")
    case (Err err)
    obtain q1 t1 where a1: "abandon flow (cur_done cur) (cur_ctx cur) err (observe e1 ?ev rt1) = (q1, t1)" by force
    obtain q2 t2 where a2: "abandon flow (cur_done cur) (cur_ctx cur) err (observe e2 ?ev rt2) = (q2, t2)" by force
    from abandon_both [OF o assms(2) a1 a2] Err a1 a2 assms(3,4) show ?thesis
      by (simp add: divert_def Let_def onFailure_both)
  qed (use o assms(3,4) in \<open>auto simp: divert_def Let_def onFailure_both split: prod.splits\<close>)
qed

lemma run_action_both:
  assumes "S rt1 rt2" and "eng_workflows e1 ref = Some flow" and "leaf_in e1 s"
    and "run_action h e1 flow s depth cur rt1 = (p1, rt1')" and "run_action h e2 flow s depth cur rt2 = (p2, rt2')"
  shows "alike_progress p1 p2 \<and> S rt1' rt2'"
proof -
  let ?ev = "ObserveStep (wf_WorkflowID flow) (leaf_StepID s)"
  let ?r1 = "observe e1 ?ev rt1" and ?r2 = "observe e2 ?ev rt2"
  obtain o1 w1 where a1: "leaf_Run s (cur_ctx cur) (rt_world ?r1) = (o1, w1)" by force
  obtain o2 w2 where a2: "leaf_Run s (cur_ctx cur) (rt_world ?r2) = (o2, w2)" by force
  from both_action [OF both_observe [OF assms(1)] assms(3) a1 a2]
  have o: "o2 = o1" and S': "S (?r1\<lparr>rt_world := w1\<rparr>) (?r2\<lparr>rt_world := w2\<rparr>)" by auto
  show ?thesis
  proof (cases o1)
    case (Fails msg)
    from divert_both [OF S' assms(2)] Fails a1 a2 o assms(4,5) show ?thesis
      by (fastforce simp: run_action_def Let_def)
  next
    case (Suspends reason aud)
    obtain x1 t1 where s1: "suspend h e1 flow (leaf_StepID s) reason aud (cur_ctx cur) (cur_trace cur) depth
      (?r1\<lparr>rt_world := w1\<rparr>) = (x1, t1)" by force
    obtain x2 t2 where s2: "suspend h e2 flow (leaf_StepID s) reason aud (cur_ctx cur) (cur_trace cur) depth
      (?r2\<lparr>rt_world := w2\<rparr>) = (x2, t2)" by force
    from both_suspend [OF S' s1 s2] Suspends a1 a2 o s1 s2 assms(4,5) show ?thesis
      by (auto simp: run_action_def Let_def)
  qed (use a1 a2 o S' assms(4,5) in \<open>auto simp: run_action_def Let_def\<close>)
qed

lemma exec_leaf_both:
  assumes "S rt1 rt2" and "eng_workflows e1 ref = Some flow" and "leaf_in e1 s"
    and "exec_leaf h e1 flow s depth cur rt1 = (p1, rt1')" and "exec_leaf h e2 flow s depth cur rt2 = (p2, rt2')"
    and "G rt1'"
  shows "alike_progress p1 p2 \<and> S rt1' rt2'"
proof (cases "leaf_SandboxProbeRef s = [] \<or> eng_sandbox e1 = None")
  case True
  then have "leaf_SandboxProbeRef s = [] \<or> eng_sandbox e1 = None \<and> eng_sandbox e2 = None" using same_sandbox by blast
  then show ?thesis
    using assms(1,4,5) run_action_both [OF assms(1-3)] by (auto simp: exec_leaf_def split: if_splits)
next
  case False
  then obtain q1 q2 where q: "eng_sandbox e1 = Some q1" "eng_sandbox e2 = Some q2" "leaf_SandboxProbeRef s \<noteq> []"
    using same_sandbox by fastforce
  let ?ev = "ObserveSandboxProbe (wf_WorkflowID flow) (leaf_StepID s)"
  let ?r1 = "observe e1 ?ev rt1" and ?r2 = "observe e2 ?ev rt2"
  let ?req = "\<lparr>preq_ProbeRef = leaf_SandboxProbeRef s, preq_DomainID = wf_DomainID flow, preq_StepContext = cur_ctx cur\<rparr>"
  obtain a1 w1 where b1: "q1 ?req (rt_world ?r1) = (a1, w1)" by (metis surj_pair)
  obtain a2 w2 where b2: "q2 ?req (rt_world ?r2) = (a2, w2)" by (metis surj_pair)
  obtain healthy reason where v: "probe_verdict a1 = (healthy, reason)" by force
  let ?ev2 = "ObserveProbeOutcome (wf_WorkflowID flow) (leaf_StepID s) healthy"
  have "G (observe e1 ?ev2 (?r1\<lparr>rt_world := w1\<rparr>))"
    using assms(4,6) q b1 v divert_back [OF assms(2)] run_action_back [OF assms(2,3)]
    by (cases healthy) (auto simp: exec_leaf_def Let_def)
  then have "G (?r1\<lparr>rt_world := w1\<rparr>)" by (rule back_observe)
  from both_probe [OF both_observe [OF assms(1)] q(1,2) b1 b2 this]
  have v2: "probe_verdict a2 = (healthy, reason)" and "S (?r1\<lparr>rt_world := w1\<rparr>) (?r2\<lparr>rt_world := w2\<rparr>)"
    using v by auto
  then have S': "S (observe e1 ?ev2 (?r1\<lparr>rt_world := w1\<rparr>)) (observe e2 ?ev2 (?r2\<lparr>rt_world := w2\<rparr>))"
    by (intro both_observe)
  show ?thesis
  proof (cases healthy)
    case True
    from run_action_both [OF S' assms(2,3)] assms(4,5) q b1 b2 v v2 True show ?thesis
      by (simp add: exec_leaf_def Let_def)
  next
    case False
    from divert_both [OF S' assms(2)] assms(4,5) q b1 b2 v v2 False show ?thesis
      by (fastforce simp: exec_leaf_def Let_def)
  qed
qed

definition runner_both :: "('w, 's) runner \<Rightarrow> ('w, 's) runner \<Rightarrow> bool" where
  "runner_both sub1 sub2 \<longleftrightarrow>
     (\<forall>ref c rt1 rt2 r1 rt1' r2 rt2'. S rt1 rt2 \<longrightarrow> sub1 ref c rt1 = (r1, rt1') \<longrightarrow> sub2 ref c rt2 = (r2, rt2') \<longrightarrow>
        G rt1' \<longrightarrow> alike r1 r2 \<and> S rt1' rt2') \<and>
     (\<forall>ref c rt r rt'. sub1 ref c rt = (r, rt') \<longrightarrow> G rt' \<longrightarrow> G rt)"

lemma runner_both_D:
  assumes "runner_both sub1 sub2" and "S rt1 rt2" and "sub1 ref c rt1 = (r1, rt1')" and "sub2 ref c rt2 = (r2, rt2')"
    and "G rt1'"
  shows "alike r1 r2" and "S rt1' rt2'"
  using assms unfolding runner_both_def by blast+

lemma runner_both_back: "runner_both sub1 sub2 \<Longrightarrow> pulled.runner_R sub1"
  unfolding runner_both_def pulled.runner_R_def by blast

lemma exec_composite_both:
  assumes "S rt1 rt2" and "eng_workflows e1 ref = Some flow" and "runner_both sub1 sub2"
    and "exec_composite sub1 e1 flow s cur rt1 = (p1, rt1')" and "exec_composite sub2 e2 flow s cur rt2 = (p2, rt2')"
    and "G rt1'"
  shows "alike_progress p1 p2 \<and> S rt1' rt2'"
proof -
  obtain r1 t1 where s1: "sub1 (comp_SubWorkflowRef s) (cur_ctx cur) rt1 = (r1, t1)" by force
  obtain r2 t2 where s2: "sub2 (comp_SubWorkflowRef s) (cur_ctx cur) rt2 = (r2, t2)" by force
  have "G t1"
    using assms(4,6) s1 divert_back [OF assms(2)] by (cases r1) (auto simp: exec_composite_def split: if_splits)
  from runner_both_D [OF assms(3,1) s1 s2 this] have al: "alike r1 r2" and S': "S t1 t2" by auto
  show ?thesis
  proof (cases r1)
    case (Ok a)
    with al s1 s2 S' assms(4,5) show ?thesis by (auto simp: exec_composite_def alike_result_def)
  next
    case (Err err)
    with al have r2: "r2 = Err err" by simp
    show ?thesis
    proof (cases "bypassesBreaker err")
      case False
      from divert_both [OF S' assms(2)] Err r2 False s1 s2 assms(4,5) show ?thesis
        by (fastforce simp: exec_composite_def)
    qed (use Err r2 s1 s2 S' assms(4,5) in \<open>auto simp: exec_composite_def\<close>)
  next
    case (Panic p)
    with al s1 s2 S' assms(4,5) show ?thesis by (auto simp: exec_composite_def)
  qed
qed

text \<open>The guard pulled back through the branches still to run.\<close>

lemma run_branches_back:
  "runner_both sub1 sub2 \<Longrightarrow> run_branches sub1 h n s c is os rt = (os', rt') \<Longrightarrow> G rt' \<Longrightarrow> G rt"
proof (induction "is" arbitrary: os rt)
  case (Cons i "is")
  obtain r t where r: "sub1 (par_Branches s ! i) (cloneContext c) rt = (r, t)" by force
  have "G (weave_log h n (length (rt_log rt)) t)" using Cons.IH [OF Cons.prems(1) _ Cons.prems(3)] Cons.prems(2) r
    by (simp add: Let_def)
  then have "G t" by (rule back_weave)
  with r Cons.prems(1) show ?case unfolding runner_both_def by blast
qed simp

lemma run_branches_both:
  assumes "runner_both sub1 sub2" and base: "S p1 p2"
  shows "S rt1 rt2 \<Longrightarrow> list_all2 alike os1 os2 \<Longrightarrow> run_branches sub1 h (length (rt_log p1)) s c is os1 rt1 = (os1', rt1') \<Longrightarrow>
    run_branches sub2 h (length (rt_log p2)) s c is os2 rt2 = (os2', rt2') \<Longrightarrow> G rt1' \<Longrightarrow> list_all2 alike os1' os2' \<and> S rt1' rt2'"
proof (induction "is" arbitrary: os1 os2 rt1 rt2)
  case (Cons i js)
  let ?ref = "par_Branches s ! i"
  obtain r1 t1 where s1: "sub1 ?ref (cloneContext c) rt1 = (r1, t1)" by force
  obtain r2 t2 where s2: "sub2 ?ref (cloneContext c) rt2 = (r2, t2)" by force
  let ?t1 = "weave_log h (length (rt_log p1)) (length (rt_log rt1)) t1"
    and ?t2 = "weave_log h (length (rt_log p2)) (length (rt_log rt2)) t2"
  have rest1: "run_branches sub1 h (length (rt_log p1)) s c js (os1[i := recovered (par_StepID s) ?ref r1]) ?t1 = (os1', rt1')"
    and rest2: "run_branches sub2 h (length (rt_log p2)) s c js (os2[i := recovered (par_StepID s) ?ref r2]) ?t2 = (os2', rt2')"
    using Cons.prems(3,4) s1 s2 by (simp_all add: Let_def)
  have "G t1" by (rule back_weave [OF run_branches_back [OF assms(1) rest1 Cons.prems(5)]])
  from runner_both_D [OF assms(1) Cons.prems(1) s1 s2 this] have al: "alike r1 r2" and S': "S t1 t2" by auto
  from Cons.prems(2) recovered_alike [OF al]
  have "list_all2 alike (os1[i := recovered (par_StepID s) ?ref r1]) (os2[i := recovered (par_StepID s) ?ref r2])"
    by (rule list_all2_update_cong)
  from Cons.IH [OF both_weave [OF base Cons.prems(1) S'] this rest1 rest2 Cons.prems(5)] show ?case .
qed simp

lemma exec_parallel_both:
  assumes "S rt1 rt2" and "eng_workflows e1 ref = Some flow" and "runner_both sub1 sub2"
    and "exec_parallel sub1 h e1 flow s cur rt1 = (p1, rt1')" and "exec_parallel sub2 h e2 flow s cur rt2 = (p2, rt2')"
    and "G rt1'"
  shows "alike_progress p1 p2 \<and> S rt1' rt2'"
proof -
  obtain r1 t1 where s1: "runParallel sub1 h flow s (cur_ctx cur) rt1 = (r1, t1)" by force
  obtain r2 t2 where s2: "runParallel sub2 h flow s (cur_ctx cur) rt2 = (r2, t2)" by force
  have g: "G t1"
    using assms(4,6) s1 divert_back [OF assms(2)] by (cases r1) (auto simp: exec_parallel_def split: if_splits)
  have both: "r2 = r1 \<and> S t1 t2"
  proof (cases "par_Branches s = []")
    case True
    with s1 s2 assms(1) show ?thesis by (auto simp: runParallel_def)
  next
    case False
    let ?n = "length (par_Branches s)" and ?os = "replicate (length (par_Branches s)) (Ok empty_result)"
    obtain os1 u1 where b1: "run_branches sub1 h (length (rt_log rt1)) s (cur_ctx cur) (host_schedule h ?n) ?os rt1 = (os1, u1)" by force
    obtain os2 u2 where b2: "run_branches sub2 h (length (rt_log rt2)) s (cur_ctx cur) (host_schedule h ?n) ?os rt2 = (os2, u2)" by force
    have "list_all2 alike ?os ?os" by (simp add: list_all2_conv_all_nth)
    with run_branches_both [OF assms(3,1,1) _ b1 b2] g s1 s2 b1 b2 False
    have "list_all2 alike os1 os2 \<and> S u1 u2" by (simp add: runParallel_def Let_def)
    with s1 s2 b1 b2 False join_outcomes_alike show ?thesis by (auto simp: runParallel_def Let_def)
  qed
  show ?thesis
  proof (cases r1)
    case (Err err)
    show ?thesis
    proof (cases "bypassesBreaker err")
      case False
      from divert_both [of t1 t2, OF _ assms(2)] both Err False s1 s2 assms(4,5) show ?thesis
        by (fastforce simp: exec_parallel_def)
    qed (use Err both s1 s2 assms(4,5) in \<open>auto simp: exec_parallel_def\<close>)
  qed (use both s1 s2 assms(4,5) in \<open>auto simp: exec_parallel_def split: prod.splits\<close>)
qed

lemma exec_step_both:
  assumes "S rt1 rt2" and "eng_workflows e1 ref = Some flow" and "runner_both sub1 sub2" and "wf_Steps flow sid = Some s"
    and "exec_step sub1 h e1 flow depth s cur rt1 = (p1, rt1')" and "exec_step sub2 h e2 flow depth s cur rt2 = (p2, rt2')"
    and "G rt1'"
  shows "alike_progress p1 p2 \<and> S rt1' rt2'"
proof (cases s)
  case (LeafStep l)
  with assms(2,4) have "leaf_in e1 l" by (auto simp: leaf_in_def)
  with exec_leaf_both [OF assms(1,2)] assms(5-) LeafStep show ?thesis by auto
qed (use exec_composite_both [OF assms(1-3)] exec_parallel_both [OF assms(1-3)] assms(5-) in auto)

lemma run_loop_both:
  assumes "eng_workflows e1 ref = Some flow" and "runner_both sub1 sub2"
  shows "S rt1 rt2 \<Longrightarrow> run_loop sub1 h e1 flow ref depth steps cur rt1 = (r1, rt1') \<Longrightarrow>
    run_loop sub2 h e2 flow ref depth steps cur rt2 = (r2, rt2') \<Longrightarrow> G rt1' \<Longrightarrow> alike r1 r2 \<and> S rt1' rt2'"
proof (induction "nat (eng_maxSteps e1 - steps)" arbitrary: steps cur rt1 rt2 rule: less_induct)
  case less
  consider (exit) "cur_step cur = []" | (ceiling) "cur_step cur \<noteq> []" "eng_maxSteps e1 < steps + 1"
    | (missing) "cur_step cur \<noteq> []" "\<not> eng_maxSteps e1 < steps + 1" "wf_Steps flow (cur_step cur) = None"
    | (step) s where "cur_step cur \<noteq> []" "\<not> eng_maxSteps e1 < steps + 1" "wf_Steps flow (cur_step cur) = Some s"
    by fastforce
  then show ?case
  proof cases
    case exit
    with less.prems show ?thesis by (auto simp: run_loop_done)
  next
    case ceiling
    with less.prems show ?thesis by (auto simp: run_loop_limit same_maxSteps)
  next
    case missing
    with less.prems show ?thesis by (auto simp: run_loop_missing same_maxSteps)
  next
    case (step s)
    obtain p1 t1 where s1: "exec_step sub1 h e1 flow depth s (visit cur s) rt1 = (p1, t1)" by force
    obtain p2 t2 where s2: "exec_step sub2 h e2 flow depth s (visit cur s) rt2 = (p2, t2)" by force
    have "G t1"
    proof (cases p1)
      case (Next c1)
      with less.prems(2) step s1 have "run_loop sub1 h e1 flow ref depth (steps + 1) c1 t1 = (r1, rt1')"
        by (simp add: run_loop_next [where s = s])
      from pulled.run_loop_R [where ?d0.0 = depth, OF runner_both_back [OF assms(2)] order_refl assms(1) this] less.prems(4)
      show ?thesis by blast
    next
      case (Halt o1)
      with less.prems step s1 show ?thesis by (simp add: run_loop_halt [where s = s])
    qed
    from exec_step_both [OF less.prems(1) assms step(3) s1 s2 this]
    have al: "alike_progress p1 p2" and S': "S t1 t2" by auto
    show ?thesis
    proof (cases p1)
      case (Next c1)
      have "nat (eng_maxSteps e1 - (steps + 1)) < nat (eng_maxSteps e1 - steps)" using step(2) by simp
      from less.hyps [OF this S', of c1] less.prems(2-4) step s1 s2 Next al show ?thesis
        by (simp add: run_loop_next [where s = s] same_maxSteps)
    next
      case (Halt o1)
      with al obtain o2 where "p2 = Halt o2" "alike o1 o2" by auto
      with step s1 s2 Halt S' less.prems(2,3) show ?thesis
        by (simp add: run_loop_halt [where s = s] same_maxSteps)
    qed
  qed
qed

theorem runFrom_both:
  "S rt1 rt2 \<Longrightarrow> runFrom h e1 depth ref start c rt1 = (r1, rt1') \<Longrightarrow> runFrom h e2 depth ref start c rt2 = (r2, rt2') \<Longrightarrow>
   G rt1' \<Longrightarrow> alike r1 r2 \<and> S rt1' rt2'"
proof (induction "nat (eng_maxDepth e1 + 1 - depth)" arbitrary: depth ref start c rt1 rt2 r1 rt1' r2 rt2' rule: less_induct)
  case less
  show ?case
  proof (cases "depth > eng_maxDepth e1 \<or> eng_workflows e1 ref = None")
    case True
    then have "runFrom h e2 depth ref start c rt = (fst (runFrom h e1 depth ref start c rt), rt)"
      "snd (runFrom h e1 depth ref start c rt) = rt" for rt
      by (cases "depth > eng_maxDepth e1"; simp add: runFrom.simps [of h e1 depth] runFrom.simps [of h e2 depth]
          same_maxDepth same_workflows)+
    moreover have "fst (runFrom h e1 depth ref start c rt2) = fst (runFrom h e1 depth ref start c rt1)"
      using True by (cases "depth > eng_maxDepth e1"; simp add: runFrom.simps [of h e1 depth])
    ultimately show ?thesis using less.prems by (metis alike_refl fst_conv snd_conv)
  next
    case False
    then obtain flow where within: "depth \<le> eng_maxDepth e1" and flow: "eng_workflows e1 ref = Some flow" by auto
    let ?sub1 = "\<lambda>ref c' rt'. runFrom h e1 (depth + 1) ref [] c' rt'"
    let ?sub2 = "\<lambda>ref c' rt'. runFrom h e2 (depth + 1) ref [] c' rt'"
    have "runner_both ?sub1 ?sub2"
      unfolding runner_both_def
    proof (intro conjI allI impI)
      fix ref c rt r rt' assume "runFrom h e1 (depth + 1) ref [] c rt = (r, rt')" "G rt'"
      then show "G rt" using pulled.runFrom_R [where ?d0.0 = "depth + 1"] by blast
    qed (use within less.hyps [of "depth + 1"] in auto)
    from run_loop_both [OF flow this less.prems(1)] less.prems(2-4) within flow show ?thesis
      by (simp add: runFrom.simps [of h e1 depth] runFrom.simps [of h e2 depth] same_maxDepth same_workflows)
  qed
qed

end

end
