(* ===== verification/ReplayFacts.thy ===== *)
theory ReplayFacts
  imports Replay Lockstep Samples "HOL-Library.Sublist"
begin

text \<open>
  What recording and replaying guarantee: playing a recording back reproduces the recorded run, an
  extraction is reproduced from the record of it, and \<open>Compare\<close> misses no change.
\<close>

section \<open>Comparing\<close>

lemma replay_sameValue_refl [simp]: "replay_sameValue v v"
  by (simp add: replay_sameValue_def split: option.split)

lemma field_difference_same [simp]: "field_difference c c k = []"
  by (simp add: field_difference_def split: option.split)

lemma field_difference_Nil:
  "field_difference a b k = [] \<longleftrightarrow>
   (case (map_of a k, map_of b k) of
      (None, None) \<Rightarrow> True | (Some v, Some w) \<Rightarrow> replay_sameValue v w | _ \<Rightarrow> False)"
  by (simp add: field_difference_def split: option.split)

lemma Compare_alike:
  assumes "alike r1 r2"
  shows "Compare (Finish rcd w c (result_of r1) (error_of r1) now) (result_of r2) (error_of r2) = []"
proof (cases r1)
  case (Ok a)
  with assms obtain b where "r2 = Ok b" "alike_result a b" by auto
  with Ok show ?thesis by (auto simp: Compare_def Finish_def result_of_def error_of_def alike_result_def Let_def)
qed (use assms in \<open>auto simp: Compare_def Finish_def result_of_def error_of_def Let_def\<close>)

section \<open>The lockstep of the recorded run and the replay\<close>

definition tape :: "('w lab, 's) rt \<Rightarrow> probe_record list" where
  "tape rt = rcd_verdicts (lab_recorder (rt_world rt))"

text \<open>The player's queues hold what is still to be answered.\<close>

definition fits :: "probe_record list \<Rightarrow> player \<Rightarrow> bool" where
  "fits vs p \<longleftrightarrow> (\<forall>ref. probes_for ref vs = [] \<or> pl_byRef p ref = probes_for ref vs)"

text \<open>An action that answers by the context alone and keeps its hands off recorder and player.\<close>

definition replayable :: "'w lab action \<Rightarrow> bool" where
  "replayable act \<longleftrightarrow>
     (\<forall>c l. \<forall>l'. fst (act c l') = fst (act c l)) \<and>
     (\<forall>c l. lab_recorder (snd (act c l)) = lab_recorder l \<and> lab_player (snd (act c l)) = lab_player l)"

text \<open>Random bytes are always there, and drawing them leaves recorder and player alone.\<close>

definition steady_host :: "'w lab host \<Rightarrow> bool" where
  "steady_host h \<longleftrightarrow>
     (\<forall>l. \<exists>bs l'. host_rand h 16 l = (Inr bs, l') \<and> bs \<noteq> [] \<and>
        lab_recorder l' = lab_recorder l \<and> lab_player l' = lab_player l)"

definition saves :: "('w, 's) engine \<Rightarrow> bool" where
  "saves e \<longleftrightarrow> (\<forall>store st s. eng_store e = Some store \<longrightarrow> fst (store_Save store st s) = None)"

definition explains :: "'w prober \<Rightarrow> bool" where
  "explains prober \<longleftrightarrow> (\<forall>req w. snd (fst (prober req w)) \<noteq> Some [])"

lemma suspend_ok:
  assumes "\<not> 0 < depth" and "eng_store e = Some store" and "host_rand h 16 (rt_world rt) = (Inr bs, l)"
    and "\<And>st s. fst (store_Save store st s) = None"
  shows "\<exists>s'. suspend h e flow sid reason aud c tr depth rt =
    (Ok \<lparr>wr_Output = c, wr_StatePointer = hex_encode bs, wr_Trace = tr\<rparr>,
     observe e (ObserveSuspension (wf_WorkflowID flow) sid) (rt\<lparr>rt_world := l, rt_store := s'\<rparr>))"
proof -
  let ?st = "\<lparr>st_Pointer = hex_encode bs, st_WorkflowID = wf_WorkflowID flow, st_StepID = sid,
    st_Reason = reason, st_Audience = aud, st_Ctx = c, st_Trace = tr\<rparr>"
  obtain s' where "store_Save store ?st (rt_store rt) = (None, s')" using assms(4) by (metis prod.collapse)
  with assms(1-3) show ?thesis by (intro exI [of _ s']) (simp add: suspend_def newPointer_def Let_def)
qed

lemma suspend_alike:
  fixes h :: "'w lab host"
  assumes "steady_host h" and "saves e1" and "eng_store e2 = eng_store e1"
    and ob: "eng_observer e2 = eng_observer e1" "rt_log rt2 = rt_log rt1"
    and s1: "suspend h e1 flow sid reason aud c tr depth rt1 = (r1, rt1')"
    and s2: "suspend h e2 flow sid reason aud c tr depth rt2 = (r2, rt2')"
  shows "alike r1 r2 \<and> lab_recorder (rt_world rt1') = lab_recorder (rt_world rt1) \<and>
    lab_player (rt_world rt2') = lab_player (rt_world rt2) \<and> rt_log rt2' = rt_log rt1'"
proof (cases "0 < depth")
  case True
  with s1 s2 ob show ?thesis by (auto simp: suspend_def)
next
  case depth: False
  show ?thesis
  proof (cases "eng_store e1")
    case None
    with depth s1 s2 assms(3) ob show ?thesis by (auto simp: suspend_def)
  next
    case (Some store)
    obtain b1 l1 where p1: "host_rand h 16 (rt_world rt1) = (Inr b1, l1)" "b1 \<noteq> []"
      "lab_recorder l1 = lab_recorder (rt_world rt1)"
      using assms(1) unfolding steady_host_def by meson
    obtain b2 l2 where p2: "host_rand h 16 (rt_world rt2) = (Inr b2, l2)" "b2 \<noteq> []"
      "lab_player l2 = lab_player (rt_world rt2)"
      using assms(1) unfolding steady_host_def by meson
    have save: "\<And>st s. fst (store_Save store st s) = None" using assms(2) Some unfolding saves_def by blast
    let ?ev = "ObserveSuspension (wf_WorkflowID flow) sid"
    obtain s1' where "r1 = Ok \<lparr>wr_Output = c, wr_StatePointer = hex_encode b1, wr_Trace = tr\<rparr>"
      "rt1' = observe e1 ?ev (rt1\<lparr>rt_world := l1, rt_store := s1'\<rparr>)"
      using suspend_ok [OF depth Some p1(1) save, of flow sid reason aud c tr] s1 by auto
    moreover obtain s2' where "r2 = Ok \<lparr>wr_Output = c, wr_StatePointer = hex_encode b2, wr_Trace = tr\<rparr>"
      "rt2' = observe e2 ?ev (rt2\<lparr>rt_world := l2, rt_store := s2'\<rparr>)"
      using suspend_ok [OF depth _ p2(1) save, of e2 flow sid reason aud c tr] Some assms(3) s2 by auto
    ultimately show ?thesis using p1 p2 ob by (simp add: alike_result_def observe_def split: option.split)
  qed
qed

lemma player_answers:
  assumes "fits (note # rest) p" and "pv_ProbeRef note = preq_ProbeRef req" and "lab_player l = p"
    and "player_Probe fallback req l = (a, l')"
  shows "a = (\<lparr>pres_Healthy = pv_Healthy note, pres_DetectedFailureMode = pv_DetectedFailureMode note\<rparr>,
      if pv_Err note \<noteq> [] then Some (pv_Err note) else None)"
    and "fits rest (lab_player l')" and "pl_unmatched (lab_player l') = pl_unmatched p"
proof -
  let ?ref = "preq_ProbeRef req"
  have q: "pl_byRef p ?ref = note # probes_for ?ref rest"
    using assms(1) [unfolded fits_def, rule_format, of ?ref] assms(2) by (simp add: probes_for_def)
  have other: "probes_for ref (note # rest) = probes_for ref rest" if "ref \<noteq> ?ref" for ref
    using that assms(2) by (simp add: probes_for_def)
  show "a = (\<lparr>pres_Healthy = pv_Healthy note, pres_DetectedFailureMode = pv_DetectedFailureMode note\<rparr>,
      if pv_Err note \<noteq> [] then Some (pv_Err note) else None)"
    and "pl_unmatched (lab_player l') = pl_unmatched p"
    using assms(3,4) q by (auto simp: player_Probe_def Let_def split: if_splits)
  have p': "pl_byRef (lab_player l') = (if probes_for ?ref rest \<noteq> [] then (pl_byRef p)(?ref := probes_for ?ref rest) else pl_byRef p)"
    using assms(3,4) q by (auto simp: player_Probe_def Let_def split: if_splits)
  show "fits rest (lab_player l')"
    unfolding fits_def
  proof
    fix ref
    show "probes_for ref rest = [] \<or> pl_byRef (lab_player l') ref = probes_for ref rest"
    proof (cases "ref = ?ref")
      case False
      then show ?thesis using assms(1) [unfolded fits_def, rule_format, of ref] other [OF False] by (simp add: p')
    qed (simp add: p')
  qed
qed

definition on_tape :: "probe_record list \<Rightarrow> ('w lab, 's) rt \<Rightarrow> bool" where
  "on_tape whole rt \<longleftrightarrow> prefix (tape rt) whole"

definition in_step_with :: "probe_record list \<Rightarrow> ('w lab, 's) rt \<Rightarrow> ('w lab, 's) rt \<Rightarrow> bool" where
  "in_step_with whole rt1 rt2 \<longleftrightarrow>
     prefix (tape rt1) whole \<and> fits (drop (length (tape rt1)) whole) (lab_player (rt_world rt2)) \<and>
     pl_unmatched (lab_player (rt_world rt2)) = [] \<and> rt_log rt2 = rt_log rt1"

lemma tape_observe [simp]: "tape (observe e ev rt) = tape rt" "tape (rt\<lparr>rt_log := l\<rparr>) = tape rt"
  by (simp_all add: tape_def)

text \<open>What a recording needs to be replayable: \<open>e\<close> probes through a recorder.\<close>

definition recordable :: "'w lab host \<Rightarrow> 'w prober \<Rightarrow> ('w lab, 's) engine \<Rightarrow> bool" where
  "recordable h prober e \<longleftrightarrow>
     eng_sandbox e = Some (recorder_Probe (Some prober)) \<and> explains prober \<and>
     (\<forall>s. leaf_in e s \<longrightarrow> replayable (leaf_Run s)) \<and> steady_host h \<and> saves e"

definition replaying :: "'w prober option \<Rightarrow> ('w lab, 's) engine \<Rightarrow> ('w lab, 's) engine" where
  "replaying fallback e = e\<lparr>eng_sandbox := map_option (\<lambda>_. player_Probe fallback) (eng_sandbox e)\<rparr>"

lemma action_keeps:
  assumes "recordable h prober e" and "leaf_in e s" and "leaf_Run s c l = (oc, l')"
  shows "lab_recorder l' = lab_recorder l" and "lab_player l' = lab_player l" and "fst (leaf_Run s c l'') = oc"
  using assms unfolding recordable_def replayable_def by (metis fst_conv snd_conv)+

lemma probe_notes:
  assumes "recordable h prober e" and "eng_sandbox e = Some p" and "p req l = (a, l')"
  shows "rcd_verdicts (lab_recorder l') = rcd_verdicts (lab_recorder l) @ [probe_note req a]" and "snd a \<noteq> Some []"
proof -
  obtain w where w: "prober req (lab_outside l) = (a, w)"
    and l': "l' = l\<lparr>lab_outside := w, lab_recorder := (lab_recorder l)
      \<lparr>rcd_verdicts := rcd_verdicts (lab_recorder l) @ [probe_note req a]\<rparr>\<rparr>"
    using assms by (auto simp: recordable_def recorder_Probe_def split: prod.splits)
  show "rcd_verdicts (lab_recorder l') = rcd_verdicts (lab_recorder l) @ [probe_note req a]" by (simp add: l')
  have "snd (fst (prober req (lab_outside l))) \<noteq> Some []" using assms(1) unfolding recordable_def explains_def by blast
  then show "snd a \<noteq> Some []" by (simp add: w)
qed

lemma probe_in_step:
  assumes rc: "recordable h prober e" and st: "in_step_with whole rt1 rt2"
    and p: "eng_sandbox e = Some p1" "p1 req (rt_world rt1) = (a1, w1)" and q: "player_Probe fallback req (rt_world rt2) = (a2, w2)"
    and g: "on_tape whole (rt1\<lparr>rt_world := w1\<rparr>)"
  shows "probe_verdict a2 = probe_verdict a1" and "in_step_with whole (rt1\<lparr>rt_world := w1\<rparr>) (rt2\<lparr>rt_world := w2\<rparr>)"
proof -
  let ?note = "probe_note req a1"
  note t = probe_notes [OF rc p]
  then have "prefix (tape rt1 @ [?note]) whole" using g by (simp add: on_tape_def tape_def)
  then obtain rest where whole: "whole = tape rt1 @ ?note # rest" by (auto simp: prefix_def)
  have ref: "pv_ProbeRef ?note = preq_ProbeRef req" by (simp add: probe_note_def)
  have fit: "fits (?note # rest) (lab_player (rt_world rt2))" using st whole by (simp add: in_step_with_def)
  note ans = player_answers [OF fit ref refl q]
  show "probe_verdict a2 = probe_verdict a1"
    using ans(1) t(2) by (cases a1) (auto simp: probe_verdict_def probe_note_def split: option.split)
  show "in_step_with whole (rt1\<lparr>rt_world := w1\<rparr>) (rt2\<lparr>rt_world := w2\<rparr>)"
    using ans(2,3) st t(1) whole by (simp add: in_step_with_def tape_def)
qed

text \<open>Stated so that it needs no hypothesis: off a recordable engine the guard is trivial, the relation empty.\<close>

interpretation replay: lockstep h e "replaying fallback e" "\<lambda>rt. recordable h prober e \<longrightarrow> on_tape whole rt"
  "\<lambda>rt1 rt2. recordable h prober e \<and> in_step_with whole rt1 rt2" for h e fallback prober whole
proof unfold_locales
  fix s c rt oc w
  assume "leaf_in e s" "leaf_Run s c (rt_world rt) = (oc, w)" "recordable h prober e \<longrightarrow> on_tape whole (rt\<lparr>rt_world := w\<rparr>)"
  then show "recordable h prober e \<longrightarrow> on_tape whole rt" using action_keeps(1) by (fastforce simp: on_tape_def tape_def)
next
  fix p req rt a w
  assume p: "eng_sandbox e = Some p" "p req (rt_world rt) = (a, w)"
    and g: "recordable h prober e \<longrightarrow> on_tape whole (rt\<lparr>rt_world := w\<rparr>)"
  show "recordable h prober e \<longrightarrow> on_tape whole rt"
  proof
    assume rc: "recordable h prober e"
    with g probe_notes(1) [OF rc p] have "prefix (tape rt @ [probe_note req a]) whole"
      by (simp add: on_tape_def tape_def)
    then show "on_tape whole rt" unfolding on_tape_def by (rule append_prefixD)
  qed
next
  fix flow sid reason aud c tr depth rt r rt'
  assume s: "suspend h e flow sid reason aud c tr depth rt = (r, rt')" "recordable h prober e \<longrightarrow> on_tape whole rt'"
  show "recordable h prober e \<longrightarrow> on_tape whole rt"
    using s suspend_alike [OF _ _ refl refl refl s(1) s(1)] by (auto simp: on_tape_def tape_def recordable_def)
next
  fix s c rt1 rt2 o1 w1 o2 w2
  assume st: "recordable h prober e \<and> in_step_with whole rt1 rt2" and l: "leaf_in e s"
    and r: "leaf_Run s c (rt_world rt1) = (o1, w1)" "leaf_Run s c (rt_world rt2) = (o2, w2)"
  note k1 = action_keeps [OF conjunct1 [OF st] l r(1)] and k2 = action_keeps [OF conjunct1 [OF st] l r(2)]
  have "o2 = o1" using k1(3) [of "rt_world rt2"] r(2) by simp
  with st k1(1) k2(2) show "o2 = o1 \<and> recordable h prober e \<and> in_step_with whole (rt1\<lparr>rt_world := w1\<rparr>) (rt2\<lparr>rt_world := w2\<rparr>)"
    by (simp add: in_step_with_def tape_def)
next
  fix rt1 rt2 p1 p2 req a1 w1 a2 w2
  assume "recordable h prober e \<and> in_step_with whole rt1 rt2" "eng_sandbox e = Some p1"
    "eng_sandbox (replaying fallback e) = Some p2" "p1 req (rt_world rt1) = (a1, w1)" "p2 req (rt_world rt2) = (a2, w2)"
    "recordable h prober e \<longrightarrow> on_tape whole (rt1\<lparr>rt_world := w1\<rparr>)"
  then show "probe_verdict a2 = probe_verdict a1 \<and>
      recordable h prober e \<and> in_step_with whole (rt1\<lparr>rt_world := w1\<rparr>) (rt2\<lparr>rt_world := w2\<rparr>)"
    using probe_in_step [of h prober e whole rt1 rt2 p1 req a1 w1 fallback a2 w2] by (simp add: replaying_def)
next
  fix rt1 rt2 flow sid reason aud c tr depth r1 rt1' r2 rt2'
  assume "recordable h prober e \<and> in_step_with whole rt1 rt2" "suspend h e flow sid reason aud c tr depth rt1 = (r1, rt1')"
    "suspend h (replaying fallback e) flow sid reason aud c tr depth rt2 = (r2, rt2')"
  then show "alike r1 r2 \<and> recordable h prober e \<and> in_step_with whole rt1' rt2'"
    using suspend_alike [where h = h and ?e1.0 = e and ?e2.0 = "replaying fallback e" and ?rt1.0 = rt1 and ?rt2.0 = rt2
        and ?r1.0 = r1 and ?r2.0 = r2 and rt1' = rt1' and rt2' = rt2']
    by (simp add: recordable_def in_step_with_def tape_def replaying_def)
next
  fix n m and rt :: "('a lab, 'b) rt"
  assume "recordable h prober e \<longrightarrow> on_tape whole (weave_log h n m rt)"
  then show "recordable h prober e \<longrightarrow> on_tape whole rt" by (simp add: on_tape_def tape_def)
next
  fix b1 b2 m1 m2 rt1 rt2 :: "('a lab, 'b) rt"
  assume "recordable h prober e \<and> in_step_with whole b1 b2" "recordable h prober e \<and> in_step_with whole m1 m2"
    "recordable h prober e \<and> in_step_with whole rt1 rt2"
  then show "recordable h prober e \<and> in_step_with whole (weave_log h (length (rt_log b1)) (length (rt_log m1)) rt1)
      (weave_log h (length (rt_log b2)) (length (rt_log m2)) rt2)"
    by (simp add: in_step_with_def tape_def) (simp add: weave_log_def)
qed (auto simp: replaying_def on_tape_def in_step_with_def observe_def split: option.splits if_splits)

text \<open>
  C19. A replay reproduces the recorded run. Run a workflow under a recorder, with actions that answer by
  their context alone, probes whose errors have a text, a store that saves and a source of randomness
  that does not fail, and play the finished recording back on the same schedule, map orders and turns,
  whatever the live probes would say by now. Then the outcome is alike (the same context, trace and
  error, parked or not), an observer sees the very same calls in the same order, so the same verdict of
  every probe, \<open>Compare\<close> finds nothing and the player was asked nothing it could not answer.
\<close>

theorem replay_reproduces_the_run:
  assumes rc: "recordable h prober e" and blank: "rcd_verdicts (lab_recorder (rt_world rt1)) = []"
    and run: "Run h e ref c rt1 = (r1, rt1')"
    and rcd: "rcd = Finish (lab_recorder (rt_world rt1')) ref c (result_of r1) (error_of r1) now"
    and player: "lab_player (rt_world rt2) = NewPlayer rcd" and fresh: "rt_log rt2 = rt_log rt1"
    and replay: "Run h (e\<lparr>eng_sandbox := Some (player_Probe fallback)\<rparr>) ref c rt2 = (r2, rt2')"
  shows "alike r1 r2 \<and> rt_log rt2' = rt_log rt1' \<and>
    Compare rcd (result_of r2) (error_of r2) = [] \<and> Unmatched (lab_player (rt_world rt2')) = []"
proof -
  let ?whole = "tape rt1'"
  have e2: "e\<lparr>eng_sandbox := Some (player_Probe fallback)\<rparr> = replaying fallback e"
    using rc by (simp add: recordable_def replaying_def)
  have "in_step_with ?whole rt1 rt2"
    using blank player rcd fresh by (simp add: in_step_with_def tape_def fits_def NewPlayer_def Finish_def)
  with replay.runFrom_both [of h prober e ?whole rt1 rt2 0 ref "[]" c r1 rt1' fallback r2 rt2'] rc run replay
  have "alike r1 r2" "in_step_with ?whole rt1' rt2'"
    unfolding e2 Run_def run_at_def by (auto simp: on_tape_def)
  then show ?thesis unfolding rcd by (simp add: Compare_alike in_step_with_def Unmatched_def)
qed

text \<open>A sample: one probed step under a recorder; the live probe would by now say no.\<close>

definition lab_host :: "journal lab host" where
  "lab_host = in_order_host (\<lambda>n l. (Inr (replicate n 7), l))"

definition lab_flow :: "journal lab workflow" where
  "lab_flow =
     \<lparr>wf_WorkflowID = ''probed'', wf_DomainID = [], wf_EntryStepID = ''a'', wf_Steps =
       [''a'' \<mapsto> LeafStep \<lparr>leaf_StepID = ''a'', leaf_Run = (\<lambda>c l. (Output [(''x'', GStr ''1'')], l)),
         leaf_SandboxProbeRef = ''disk'', leaf_CircuitBreakerPolicyRef = [], leaf_OnSuccess = [],
         leaf_CompensateStepRef = []\<rparr>]\<rparr>"

definition lab_prober :: "journal prober" where
  "lab_prober req j = ((\<lparr>pres_Healthy = (j = []), pres_DetectedFailureMode = ''full''\<rparr>, None), ''asked'' # j)"

definition lab_engine :: "(journal lab, memory_store) engine" where
  "lab_engine = RegisterWorkflow lab_flow (NewEngine (Some (recorder_Probe (Some lab_prober))))"

definition lab_rt :: "journal \<Rightarrow> player \<Rightarrow> (journal lab, memory_store) rt" where
  "lab_rt j p =
     \<lparr>rt_world = \<lparr>lab_outside = j, lab_recorder = NewRecorder, lab_player = p\<rparr>, rt_store = NewMemoryStore, rt_log = []\<rparr>"

definition no_player :: player where
  "no_player = \<lparr>pl_byRef = (\<lambda>_. []), pl_extractions = (\<lambda>_. []), pl_unmatched = []\<rparr>"

lemma lab_recordable: "recordable lab_host lab_prober lab_engine"
  by (auto simp: recordable_def lab_engine_def NewEngine_def RegisterWorkflow_def explains_def lab_prober_def
      leaf_in_def lab_flow_def replayable_def steady_host_def lab_host_def in_order_host_def saves_def
      split: if_splits)

definition lab_run :: "outcome \<times> (journal lab, memory_store) rt" where
  "lab_run = Run lab_host lab_engine ''probed'' [] (lab_rt [] no_player)"

definition lab_recording :: recording where
  "lab_recording = Finish (lab_recorder (rt_world (snd lab_run))) ''probed'' []
     (result_of (fst lab_run)) (error_of (fst lab_run)) 0"

lemma replay_reproduces_the_run_witness:
  "length (rec_Probes lab_recording) = 1 \<and>
   Compare lab_recording
     (result_of (fst (Run lab_host (lab_engine\<lparr>eng_sandbox := Some (player_Probe (Some lab_prober))\<rparr>) ''probed'' []
       (lab_rt [''busy''] (NewPlayer lab_recording)))))
     (error_of (fst (Run lab_host (lab_engine\<lparr>eng_sandbox := Some (player_Probe (Some lab_prober))\<rparr>) ''probed'' []
       (lab_rt [''busy''] (NewPlayer lab_recording))))) = []"
proof -
  have "length (rec_Probes lab_recording) = 1" by code_simp
  moreover have "rcd_verdicts (lab_recorder (rt_world (lab_rt [] no_player))) = []"
    and "lab_player (rt_world (lab_rt [''busy''] (NewPlayer lab_recording))) = NewPlayer lab_recording"
    and "rt_log (lab_rt [''busy''] (NewPlayer lab_recording)) = rt_log (lab_rt [] no_player)"
    by (simp_all add: lab_rt_def NewRecorder_def)
  ultimately show ?thesis
    using replay_reproduces_the_run [OF lab_recordable, where ?rt1.0 = "lab_rt [] no_player" and ref = "''probed''"
        and c = "[]" and rcd = lab_recording and now = 0 and fallback = "Some lab_prober"
        and ?rt2.0 = "lab_rt [''busy''] (NewPlayer lab_recording)"]
    unfolding lab_recording_def lab_run_def by (metis prod.collapse)
qed

section \<open>Extractions\<close>

lemma checked_again:
  assumes "gwf schema" and "\<forall>f \<in> set schema. field_ok payload f"
  shows "\<forall>f \<in> set schema. field_ok (checked payload schema) f"
    and "checked (checked payload schema) schema = checked payload schema"
proof -
  note look = checked_lookup [OF gwf_distinct [OF assms(1)] assms(2)]
  have mem: "fst f \<in> set (gkeys schema)" if "f \<in> set schema" for f
    using that by (auto simp: gkeys_def)
  show again: "\<forall>f \<in> set schema. field_ok (checked payload schema) f"
    using assms(2) mem by (simp add: field_ok_def look)
  have "map_of (checked (checked payload schema) schema) = map_of (checked payload schema)"
    using checked_lookup [OF gwf_distinct [OF assms(1)] again] look by (auto simp: fun_eq_iff)
  then show "checked (checked payload schema) schema = checked payload schema"
    by (intro gomap_eqI) simp_all
qed

text \<open>
  An extraction survives the recording: with the player's extractor in place of the model, under the
  same schema, a recorded success is returned unchanged, payload and provenance, and a recorded
  failure fails again, with the first of its reasons.
\<close>

theorem replayed_extraction:
  assumes reg: "inj_registrations ij (exreq_SchemaRef req) = Some \<lparr>rn_schema = schema, rn_extractor = model\<rparr>"
    and obs: "inj_observer ij = Some recorder_observer"
    and live: "Extract range1 ij req l = (r, l')"
    and steady: "\<And>t l. lab_recorder (snd (model t l)) = lab_recorder l"
    and blank: "rcd_extractions (lab_recorder l) = []"
    and "gwf schema" and "mset (range1 schema) = mset schema" and "mset (range2 schema) = mset schema"
    and player: "lab_player l2 = NewPlayer (Finish (lab_recorder l') w c res err now)"
    and ij2: "ij2 = RegisterSchema (exreq_SchemaRef req) schema (ExtractorFor (exreq_SchemaRef req)) NewInjector"
  shows "if exres_Success r then fst (Extract range2 ij2 req l2) = r
    else fst (Extract range2 ij2 req l2) = failed_extraction [hd (exres_ValidationErrors r)]"
proof -
  let ?ref = "exreq_SchemaRef req"
  obtain a l1 where m: "model (exreq_RawText req) l = (a, l1)" by force
  have l1: "lab_recorder l1 = lab_recorder l" using steady [of "exreq_RawText req" l] m by simp
  have w1: "(case inj_observer ij of None \<Rightarrow> l | Some ob \<Rightarrow> io_extraction ob ?ref l) = l"
    by (simp add: obs recorder_observer_def)
  have noted: "rcd_extractions (lab_recorder l') =
      [\<lparr>er_SchemaRef = ?ref, er_DomainID = exreq_DomainID req, er_RawText = exreq_RawText req,
        er_Success = exres_Success r, er_Payload = exres_StructuredPayload r,
        er_ModelDerived = exres_ModelDerived r, er_ValidationErrors = exres_ValidationErrors r\<rparr>]"
    using live reg obs m l1 blank
    by (auto simp: Extract_def inj_extract_def Let_def recorder_observer_def ObserveExtractionResult_def
        split: sum.splits prod.splits if_splits)
  have answer: "fst (ExtractorFor ?ref (exreq_RawText req) l2) =
      (if \<not> exres_Success r then
         Inl (case exres_ValidationErrors r of [] \<Rightarrow> ''extraction failed'' | reason # _ \<Rightarrow> reason)
       else Inr (exres_StructuredPayload r))"
    by (simp add: ExtractorFor_def player NewPlayer_def Finish_def noted Let_def)
  have reg2: "inj_registrations ij2 ?ref = Some \<lparr>rn_schema = schema, rn_extractor = ExtractorFor ?ref\<rparr>"
    and obs2: "inj_observer ij2 = None" by (simp_all add: ij2 RegisterSchema_def NewInjector_def)
  show ?thesis
  proof (cases "exres_Success r")
    case True
    obtain payload where p: "a = Inr payload"
      using True live reg obs m by (cases a) (auto simp: Extract_def inj_extract_def recorder_observer_def failed_extraction_def)
    note er = Extract_result [OF reg, of l payload l1 range1, unfolded registration.select_convs w1, OF _ assms(7,6)]
    have m': "model (exreq_RawText req) l = (Inr payload, l1)" using m p by simp
    have all: "\<forall>f \<in> set schema. field_ok payload f"
    proof (rule ccontr)
      assume n: "\<not> (\<forall>f \<in> set schema. field_ok payload f)"
      from er [OF m'] live True show False unfolding if_not_P [OF n] by (auto simp: failed_extraction_def)
    qed
    have r: "r = \<lparr>exres_Success = True, exres_StructuredPayload = checked payload schema,
      exres_ValidationErrors = [], exres_ModelDerived = sort (gkeys (checked payload schema))\<rparr>"
      using er [OF m'] live unfolding if_P [OF all] by simp
    obtain l3 where "ExtractorFor ?ref (exreq_RawText req) l2 = (Inr (checked payload schema), l3)"
      using answer True r by (cases "ExtractorFor ?ref (exreq_RawText req) l2") simp
    with Extract_result [OF reg2, of l2 "checked payload schema" l3 range2] obs2 assms(6,8)
      checked_again [OF assms(6) all] r True show ?thesis by simp
  next
    case False
    have "exres_ValidationErrors r \<noteq> []"
      using False live reg obs m
      by (auto simp: Extract_def inj_extract_def Let_def failed_extraction_def split: sum.splits prod.splits if_splits)
    then obtain reason rest where v: "exres_ValidationErrors r = reason # rest" by (cases "exres_ValidationErrors r") auto
    obtain l3 where "ExtractorFor ?ref (exreq_RawText req) l2 = (Inl reason, l3)"
      using answer False v by (cases "ExtractorFor ?ref (exreq_RawText req) l2") simp
    with reg2 obs2 False v show ?thesis by (simp add: Extract_def inj_extract_def)
  qed
qed

text \<open>A recorded extraction, and the player that answers from its recording.\<close>

definition bill_model :: "journal lab extractor" where
  "bill_model = (\<lambda>t l. (Inr [(''amount'', GFloat (Fin 12)), (''note'', GStr t)], l))"

definition recorded_injector :: "journal lab injector" where
  "recorded_injector = RegisterSchema ''bill'' [(''amount'', FieldFloat64)] bill_model
     (injector_SetObserver (Some recorder_observer) NewInjector)"

definition empty_lab :: "player \<Rightarrow> journal lab" where
  "empty_lab p = \<lparr>lab_outside = [], lab_recorder = NewRecorder, lab_player = p\<rparr>"

definition bill_recording :: recording where
  "bill_recording =
     Finish (lab_recorder (snd (Extract id recorded_injector sample_request (empty_lab no_player)))) ''w'' []
       \<lparr>wr_Output = [], wr_StatePointer = [], wr_Trace = []\<rparr> None 0"

lemma replayed_extraction_witness:
  "fst (Extract id (RegisterSchema ''bill'' [(''amount'', FieldFloat64)] (ExtractorFor ''bill'') NewInjector)
      sample_request (empty_lab (NewPlayer bill_recording))) =
   \<lparr>exres_Success = True, exres_StructuredPayload = [(''amount'', GFloat (Fin 12))],
    exres_ValidationErrors = [], exres_ModelDerived = [''amount'']\<rparr>"
proof -
  let ?r = "Extract id recorded_injector sample_request (empty_lab no_player)"
  have r: "fst ?r = \<lparr>exres_Success = True, exres_StructuredPayload = [(''amount'', GFloat (Fin 12))],
      exres_ValidationErrors = [], exres_ModelDerived = [''amount'']\<rparr>"
    by (simp add: recorded_injector_def bill_model_def injector_SetObserver_def sample_injector_defs
        Extract_def inj_extract_def recorder_observer_def matchesType_def)
  have reg: "inj_registrations recorded_injector (exreq_SchemaRef sample_request) =
      Some \<lparr>rn_schema = [(''amount'', FieldFloat64)], rn_extractor = bill_model\<rparr>"
    and obs: "inj_observer recorded_injector = Some recorder_observer"
    by (simp_all add: recorded_injector_def injector_SetObserver_def sample_injector_defs)
  have "if exres_Success (fst ?r) then fst (Extract id (RegisterSchema (exreq_SchemaRef sample_request)
        [(''amount'', FieldFloat64)] (ExtractorFor (exreq_SchemaRef sample_request)) NewInjector)
      sample_request (empty_lab (NewPlayer bill_recording))) = fst ?r
    else fst (Extract id (RegisterSchema (exreq_SchemaRef sample_request)
        [(''amount'', FieldFloat64)] (ExtractorFor (exreq_SchemaRef sample_request)) NewInjector)
      sample_request (empty_lab (NewPlayer bill_recording))) = failed_extraction [hd (exres_ValidationErrors (fst ?r))]"
    by (rule replayed_extraction [OF reg obs surjective_pairing])
      (simp_all add: bill_model_def empty_lab_def NewRecorder_def gwf_Cons bill_recording_def [unfolded empty_lab_def])
  then show ?thesis unfolding r by (simp add: sample_request_def)
qed

text \<open>
  \<open>Compare\<close> misses nothing: it is silent exactly when the traces read the same, both runs or neither
  were suspended, both or neither failed and with one error text, and every output field is present
  on both sides or neither, with values that marshal alike.
\<close>

theorem compare_misses_nothing:
  "Compare rcd result err = [] \<longleftrightarrow>
     joinTrace (rec_Trace rcd) = joinTrace (wr_Trace result) \<and>
     (rec_Suspended rcd \<longleftrightarrow> wr_StatePointer result \<noteq> []) \<and>
     (case err of None \<Rightarrow> \<not> rec_Failed rcd | Some e \<Rightarrow> rec_Failed rcd \<and> rec_Error rcd = e) \<and>
     (\<forall>k. case (map_of (rec_Output rcd) k, map_of (wr_Output result) k) of
        (None, None) \<Rightarrow> True | (Some b, Some a) \<Rightarrow> replay_sameValue b a | _ \<Rightarrow> False)"
proof -
  let ?o = "rec_Output rcd" and ?n = "wr_Output result"
  let ?keys = "sort (gkeys ?o @ filter (\<lambda>k. k \<notin> set (gkeys ?o)) (gkeys ?n))"
  have keys: "set ?keys = dom (map_of ?o) \<union> dom (map_of ?n)" by (auto simp: set_gkeys)
  have "concat (map (field_difference ?o ?n) ?keys) = [] \<longleftrightarrow> (\<forall>k \<in> set ?keys. field_difference ?o ?n k = [])"
    by simp
  also have "\<dots> \<longleftrightarrow> (\<forall>k. case (map_of ?o k, map_of ?n k) of
        (None, None) \<Rightarrow> True | (Some b, Some a) \<Rightarrow> replay_sameValue b a | _ \<Rightarrow> False)"
    unfolding keys field_difference_Nil by (force split: option.splits)
  finally show ?thesis
    unfolding Compare_def Let_def by (cases err; simp)
qed

end
