(* ===== verification/Filestore.thy ===== *)
theory Filestore
  imports Store Json Floats Engine
begin

text \<open>
  The store of suspended runs on disk (\<open>filestore/filestore.go\<close>): a directory with one file per parked
  run, and one per claim until the run is released. \<open>directory\<close> is that directory and what the
  operating system decides: which calls fail and how (\<open>d_fault\<close>), the random bytes, the names of
  temporary files, the clock. The directory's path has no \<open>Glob\<close> metacharacter. A file is what
  \<open>json.Unmarshal\<close> makes of its bytes: an error, if any, and the state it filled in.
\<close>

section \<open>What a value becomes on disk\<close>

function utf8_clean :: "nat list \<Rightarrow> nat list" where
  "utf8_clean bs =
     (if bs = [] then []
      else if hd bs < 0x80 then hd bs # utf8_clean (tl bs)
      else
        (let (r, n) = decode_rune bs in
         (if n = 1 then [0xEF, 0xBF, 0xBD] else take n bs) @ utf8_clean (drop n bs)))"
  by pat_completeness auto
termination
  by (relation "measure length")
    (use decode_rune_size' in \<open>auto simp: neq_Nil_conv\<close>, metis decode_rune_size' diff_less length_Cons zero_less_Suc)

declare utf8_clean.simps [simp del]

definition str_image :: "string \<Rightarrow> string" where
  "str_image s = map char_of (utf8_clean (map of_char s))"

text \<open>Marshalled and unmarshalled: numbers come back as \<open>float64\<close>, \<open>[]string\<close> as \<open>[]any\<close>.\<close>

definition float_image :: "float64 \<Rightarrow> float64" where
  "float_image x =
     (case x of
        Fin q \<Rightarrow>
          if q = 0 then Fin 0
          else (let (d, e) = shortest_from 16 1 24 \<bar>q\<bar> in round64 ((if q < 0 then - 1 else 1) * of_int d * pow10 e))
      | _ \<Rightarrow> x)"

fun json_image :: "gval \<Rightarrow> gval" and json_images :: "gval list \<Rightarrow> gval list"
  and members_image :: "(string \<times> gval) list \<Rightarrow> ctx \<Rightarrow> ctx" where
  "json_image GNil = GNil"
| "json_image (GBool b) = GBool b"
| "json_image (GStr s) = GStr (str_image s)"
| "json_image (GFloat x) = GFloat x"
| "json_image (GFloat32 x) = GFloat (float_image x)"
| "json_image (GInt w) = GFloat (f64_of_int (sint w))"
| "json_image (GInt64 w) = GFloat (f64_of_int (sint w))"
| "json_image (GStrs xs) = GArr (map (\<lambda>s. GStr (str_image s)) xs)"
| "json_image (GArr xs) = GArr (json_images xs)"
| "json_image (GObj m) = GObj (members_image m [])"
| "json_images [] = []"
| "json_images (x # xs) = json_image x # json_images xs"
| "members_image [] acc = acc"
| "members_image ((k, v) # m) acc = members_image m (gput (str_image k) (json_image v) acc)"

definition state_image :: "state \<Rightarrow> state" where
  "state_image x =
     \<lparr>st_Pointer = str_image (st_Pointer x), st_WorkflowID = str_image (st_WorkflowID x),
      st_StepID = str_image (st_StepID x), st_Reason = str_image (st_Reason x),
      st_Audience = str_image (st_Audience x), st_Ctx = members_image (st_Ctx x) [],
      st_Trace = map str_image (st_Trace x)\<rparr>"

text \<open>The first value \<open>json.Marshal\<close> refuses, in the order it visits them.\<close>

fun unsupported :: "gval \<Rightarrow> string option" and unsupporteds :: "gval list \<Rightarrow> string option"
  and member_unsupported :: "(string \<times> gval) list \<Rightarrow> string option" where
  "unsupported (GFloat x) = (case x of Fin _ \<Rightarrow> None | _ \<Rightarrow> Some (fmt_float 53 x))"
| "unsupported (GFloat32 x) = (case x of Fin _ \<Rightarrow> None | _ \<Rightarrow> Some (fmt_float 24 x))"
| "unsupported (GArr xs) = unsupporteds xs"
| "unsupported (GObj m) = member_unsupported m"
| "unsupported _ = None"
| "unsupporteds [] = None"
| "unsupporteds (x # xs) = (case unsupported x of Some e \<Rightarrow> Some e | None \<Rightarrow> unsupporteds xs)"
| "member_unsupported [] = None"
| "member_unsupported ((k, v) # m) = (case unsupported v of Some e \<Rightarrow> Some e | None \<Rightarrow> member_unsupported m)"

section \<open>The directory\<close>

datatype os_call =
    OsMkdirAll | OsCreateTemp | OsWrite | OsSync | OsClose | OsChmod | OsRename string string
  | OsReadFile string | OsRemove string | OsStat string | OsReadDir

datatype os_error = NotExist | OsFault string

record fs_file =
  f_decoded :: "string option \<times> state"
  f_ModTime :: int
  f_IsDir :: bool

record directory =
  d_path :: string
  d_files :: "fs_file gomap"
  d_fault :: "os_call \<Rightarrow> string option"
  d_rand :: "nat \<Rightarrow> string + 8 word list"
  d_draws :: nat
  d_temp :: "fs_file gomap \<Rightarrow> string"
  d_now :: int

definition os_ReadFile :: "string \<Rightarrow> directory \<Rightarrow> os_error + fs_file" where
  "os_ReadFile n d =
     (case d_fault d (OsReadFile n) of
        Some e \<Rightarrow> Inl (OsFault e)
      | None \<Rightarrow>
          (case map_of (d_files d) n of
             None \<Rightarrow> Inl NotExist
           | Some f \<Rightarrow> if f_IsDir f then Inl (OsFault (''read '' @ n @ '': is a directory'')) else Inr f))"

definition os_Rename :: "string \<Rightarrow> string \<Rightarrow> directory \<Rightarrow> os_error option \<times> directory" where
  "os_Rename a b d =
     (case d_fault d (OsRename a b) of
        Some e \<Rightarrow> (Some (OsFault e), d)
      | None \<Rightarrow>
          (case map_of (d_files d) a of
             None \<Rightarrow> (Some NotExist, d)
           | Some f \<Rightarrow>
               if (\<exists>g \<in> set_option (map_of (d_files d) b). f_IsDir g) then (Some (OsFault (''rename '' @ a @ '': file exists'')), d)
               else (None, d\<lparr>d_files := gput b f (gdel a (d_files d))\<rparr>)))"

definition os_Remove :: "string \<Rightarrow> directory \<Rightarrow> os_error option \<times> directory" where
  "os_Remove n d =
     (case d_fault d (OsRemove n) of
        Some e \<Rightarrow> (Some (OsFault e), d)
      | None \<Rightarrow>
          (case map_of (d_files d) n of
             None \<Rightarrow> (Some NotExist, d)
           | Some f \<Rightarrow> (None, d\<lparr>d_files := gdel n (d_files d)\<rparr>)))"

fun os_text :: "os_error \<Rightarrow> string" where
  "os_text NotExist = ''no such file or directory''"
| "os_text (OsFault e) = e"

definition zero_state :: state where
  "zero_state = \<lparr>st_Pointer = [], st_WorkflowID = [], st_StepID = [], st_Reason = [], st_Audience = [], st_Ctx = [], st_Trace = []\<rparr>"

section \<open>Pointers and names\<close>

definition pointer_rune :: "nat \<Rightarrow> bool" where
  "pointer_rune r \<longleftrightarrow>
     97 \<le> r \<and> r \<le> 122 \<or> 65 \<le> r \<and> r \<le> 90 \<or> 48 \<le> r \<and> r \<le> 57 \<or> r = 45 \<or> r = 95"

definition checkPointer :: "string \<Rightarrow> string option" where
  "checkPointer pointer =
     (if pointer = [] then Some ''filestore: empty resume pointer''
      else if length pointer > 128 then Some ''filestore: resume pointer is too long''
      else if list_all pointer_rune (runes (map of_char pointer)) then None
      else Some (''filestore: resume pointer '' @ quoted pointer @ '' contains an unsupported character''))"

definition claimExt :: string where "claimExt = ''.claimed''"

definition pointerFromClaim :: "string \<Rightarrow> string" where
  "pointerFromClaim name =
     (let trimmed = trim_suffix name claimExt; back = dropWhile (\<lambda>c. c \<noteq> CHR ''.'') (rev trimmed) in
      if back = [] then trimmed else rev (tl back))"

definition claimSuffix :: "directory \<Rightarrow> (string + string) \<times> directory" where
  "claimSuffix d =
     (case d_rand d (d_draws d) of
        Inl err \<Rightarrow> (Inl (''filestore: could not generate a claim suffix: '' @ err), d\<lparr>d_draws := d_draws d + 1\<rparr>)
      | Inr buf \<Rightarrow> (Inr (hex_encode buf), d\<lparr>d_draws := d_draws d + 1\<rparr>))"

definition claims_on :: "string \<Rightarrow> directory \<Rightarrow> string list" where
  "claims_on pointer d =
     filter (\<lambda>n. has_prefix n (pointer @ ''.'') \<and> has_suffix n claimExt \<and>
        length pointer + 1 + length claimExt \<le> length n) (gkeys (d_files d))"

definition all_claims :: "directory \<Rightarrow> string list" where
  "all_claims d = filter (\<lambda>n. has_suffix n claimExt) (gkeys (d_files d))"

section \<open>The operations\<close>

definition filestore_New :: "string \<Rightarrow> directory \<Rightarrow> string + directory" where
  "filestore_New dir d =
     (if dir = [] then Inl ''filestore: a directory is required''
      else case d_fault d OsMkdirAll of
        Some e \<Rightarrow> Inl (''filestore: could not create '' @ dir @ '': '' @ e)
      | None \<Rightarrow> Inr (d\<lparr>d_path := dir\<rparr>))"

text \<open>Saving, as the steps it takes on disk; a failed step ends the script.\<close>

datatype save_step = CreateTemp | WriteTemp | SyncTemp | CloseTemp | ChmodTemp | Commit

definition fault_or :: "os_call \<Rightarrow> directory \<Rightarrow> directory \<Rightarrow> os_error option \<times> directory" where
  "fault_or call d d' = (case d_fault d call of Some e \<Rightarrow> (Some (OsFault e), d) | None \<Rightarrow> (None, d'))"

fun save_do :: "string \<Rightarrow> state \<Rightarrow> save_step \<Rightarrow> directory \<Rightarrow> os_error option \<times> directory" where
  "save_do temp x CreateTemp d =
     fault_or OsCreateTemp d (d\<lparr>d_files := gput temp
       \<lparr>f_decoded = (Some ''unexpected end of JSON input'', zero_state), f_ModTime = d_now d, f_IsDir = False\<rparr> (d_files d)\<rparr>)"
| "save_do temp x WriteTemp d =
     fault_or OsWrite d (d\<lparr>d_files := gput temp
       \<lparr>f_decoded = (None, state_image x), f_ModTime = d_now d, f_IsDir = False\<rparr> (d_files d)\<rparr>)"
| "save_do temp x SyncTemp d = fault_or OsSync d d"
| "save_do temp x CloseTemp d = fault_or OsClose d d"
| "save_do temp x ChmodTemp d = fault_or OsChmod d d"
| "save_do temp x Commit d = os_Rename temp (st_Pointer x) d"

fun save_run :: "string \<Rightarrow> state \<Rightarrow> save_step list \<Rightarrow> directory \<Rightarrow> (save_step \<times> os_error) option \<times> directory" where
  "save_run temp x [] d = (None, d)"
| "save_run temp x (s # ss) d =
     (case save_do temp x s d of
        (Some e, d1) \<Rightarrow> (Some (s, e), d1)
      | (None, d1) \<Rightarrow> save_run temp x ss d1)"

definition save_script :: "save_step list" where
  "save_script = [CreateTemp, WriteTemp, SyncTemp, CloseTemp, ChmodTemp, Commit]"

fun save_failed :: "string \<Rightarrow> save_step \<times> os_error \<Rightarrow> string" where
  "save_failed p (CreateTemp, e) = ''filestore: could not create a temporary file: '' @ os_text e"
| "save_failed p (WriteTemp, e) = ''filestore: could not write state '' @ quoted p @ '': '' @ os_text e"
| "save_failed p (SyncTemp, e) = ''filestore: could not flush state '' @ quoted p @ '': '' @ os_text e"
| "save_failed p (CloseTemp, e) = ''filestore: could not close state '' @ quoted p @ '': '' @ os_text e"
| "save_failed p (ChmodTemp, e) = ''filestore: could not set permissions on state '' @ quoted p @ '': '' @ os_text e"
| "save_failed p (Commit, e) = ''filestore: could not commit state '' @ quoted p @ '': '' @ os_text e"

text \<open>The deferred \<open>Remove\<close> of the temporary file runs on every way out once it exists.\<close>

definition file_Save :: "state \<Rightarrow> directory \<Rightarrow> string option \<times> directory" where
  "file_Save x d =
     (case checkPointer (st_Pointer x) of
        Some e \<Rightarrow> (Some e, d)
      | None \<Rightarrow>
          (case member_unsupported (st_Ctx x) of
             Some v \<Rightarrow> (Some (''filestore: could not encode state '' @ quoted (st_Pointer x) @
                          '': json: unsupported value: '' @ v), d)
           | None \<Rightarrow>
               (let temp = d_temp d (d_files d) in
                case save_run temp x save_script d of
                  (Some (CreateTemp, e), d1) \<Rightarrow> (Some (save_failed (st_Pointer x) (CreateTemp, e)), d1)
                | (Some f, d1) \<Rightarrow> (Some (save_failed (st_Pointer x) f), snd (os_Remove temp d1))
                | (None, d1) \<Rightarrow> (None, snd (os_Remove temp d1)))))"

definition file_missing :: "string \<Rightarrow> string" where
  "file_missing pointer = ''no suspended workflow for pointer '' @ quoted pointer"

definition decoded_state :: "string \<Rightarrow> fs_file \<Rightarrow> string + state" where
  "decoded_state pointer f =
     (case f_decoded f of
        (Some e, _) \<Rightarrow> Inl (''filestore: state '' @ quoted pointer @ '' is corrupt: '' @ e)
      | (None, x) \<Rightarrow> Inr x)"

definition file_Load :: "string \<Rightarrow> directory \<Rightarrow> string + state" where
  "file_Load pointer d =
     (case checkPointer pointer of
        Some e \<Rightarrow> Inl e
      | None \<Rightarrow>
          (case os_ReadFile pointer d of
             Inl NotExist \<Rightarrow> Inl (file_missing pointer)
           | Inl (OsFault e) \<Rightarrow> Inl (''filestore: could not read state '' @ quoted pointer @ '': '' @ e)
           | Inr f \<Rightarrow> decoded_state pointer f))"

definition file_Delete :: "string \<Rightarrow> directory \<Rightarrow> string option \<times> directory" where
  "file_Delete pointer d =
     (case checkPointer pointer of
        Some e \<Rightarrow> (Some e, d)
      | None \<Rightarrow>
          (case os_Remove pointer d of
             (Some NotExist, d1) \<Rightarrow> (Some (file_missing pointer), d1)
           | (Some (OsFault e), d1) \<Rightarrow> (Some (''filestore: could not delete state '' @ quoted pointer @ '': '' @ e), d1)
           | (None, d1) \<Rightarrow> (None, d1)))"

definition file_Consume :: "string \<Rightarrow> directory \<Rightarrow> (string + state) \<times> directory" where
  "file_Consume pointer d =
     (case checkPointer pointer of
        Some e \<Rightarrow> (Inl e, d)
      | None \<Rightarrow>
          (case claimSuffix d of
             (Inl err, d1) \<Rightarrow> (Inl err, d1)
           | (Inr suffix, d1) \<Rightarrow>
               (let claim = pointer @ ''.'' @ suffix @ claimExt in
                case os_Rename pointer claim d1 of
                  (Some NotExist, d2) \<Rightarrow> (Inl (file_missing pointer), d2)
                | (Some (OsFault e), d2) \<Rightarrow> (Inl (''filestore: could not claim state '' @ quoted pointer @ '': '' @ e), d2)
                | (None, d2) \<Rightarrow>
                    (case os_ReadFile claim d2 of
                       Inl e \<Rightarrow> (Inl (''filestore: could not read claimed state '' @ quoted pointer @ '': '' @ os_text e), d2)
                     | Inr f \<Rightarrow> (decoded_state pointer f, d2)))))"

fun remove_claims :: "string \<Rightarrow> string list \<Rightarrow> directory \<Rightarrow> string option \<times> directory" where
  "remove_claims pointer [] d = (None, d)"
| "remove_claims pointer (claim # rest) d =
     (case os_Remove claim d of
        (Some (OsFault e), d1) \<Rightarrow> (Some (''filestore: could not release claim for '' @ quoted pointer @ '': '' @ e), d1)
      | (_, d1) \<Rightarrow> remove_claims pointer rest d1)"

definition file_Release :: "string \<Rightarrow> directory \<Rightarrow> string option \<times> directory" where
  "file_Release pointer d =
     (case checkPointer pointer of
        Some e \<Rightarrow> (Some e, d)
      | None \<Rightarrow> remove_claims pointer (claims_on pointer d) d)"

record orphan =
  orphan_Pointer :: string
  orphan_ClaimedAt :: int
  orphan_State :: state

definition orphan_of :: "int \<Rightarrow> directory \<Rightarrow> string \<Rightarrow> orphan list" where
  "orphan_of cutoff d claim =
     (case (d_fault d (OsStat claim), map_of (d_files d) claim) of
        (None, Some info) \<Rightarrow>
          if cutoff < f_ModTime info then []
          else [\<lparr>orphan_Pointer = pointerFromClaim claim, orphan_ClaimedAt = f_ModTime info,
                 orphan_State = (case os_ReadFile claim d of Inl _ \<Rightarrow> zero_state | Inr f \<Rightarrow> snd (f_decoded f))\<rparr>]
      | _ \<Rightarrow> [])"

definition Orphaned :: "int \<Rightarrow> directory \<Rightarrow> orphan list" where
  "Orphaned minAge d = concat (map (orphan_of (d_now d - minAge) d) (all_claims d))"

definition file_Pending :: "directory \<Rightarrow> string + state list" where
  "file_Pending d =
     (case d_fault d OsReadDir of
        Some e \<Rightarrow> Inl (''filestore: could not list '' @ d_path d @ '': '' @ e)
      | None \<Rightarrow>
          Inr (concat (map (\<lambda>(n, entry).
            if f_IsDir entry \<or> checkPointer n \<noteq> None then []
            else case os_ReadFile n d of
              Inl _ \<Rightarrow> []
            | Inr f \<Rightarrow> (case f_decoded f of (None, x) \<Rightarrow> [x] | (Some _, _) \<Rightarrow> [])) (d_files d))))"

definition file_store :: "directory store" where
  "file_store =
     \<lparr>store_Save = file_Save, store_Load = file_Load, store_Consume = file_Consume, store_Release = file_Release\<rparr>"

end
