(* ===== verification/FilestoreFacts.thy ===== *)
theory FilestoreFacts
  imports Filestore
begin

text \<open>
  What the store on disk guarantees: it meets the store's contract on a disk that can be read and
  renamed on, whatever else fails; a crash in the middle of a save never damages a parked run; a
  claim that is never released stays recoverable.
\<close>

section \<open>Pointers\<close>

text \<open>A byte from 128 on never decodes to an ASCII character: an overlong form is an error.\<close>

lemma rune2_big: "0xC2 \<le> b0 \<Longrightarrow> 0x80 \<le> (b0 - 0xC0) * 64 + (c :: nat)"
  by linarith

lemma rune3_big:
  assumes "0xE0 \<le> b0" and "continuation (if b0 = 0xE0 then 0xA0 else 0x80) h b1"
  shows "0x80 \<le> ((b0 - 0xE0) * 64 + (b1 - 0x80)) * 64 + (c :: nat)"
proof (cases "b0 = 0xE0")
  case True
  with assms have "0xA0 \<le> b1" by (simp add: continuation_def)
  then have "0x80 \<le> (b1 - 0x80) * 64" by linarith
  then show ?thesis by (simp only: add_mult_distrib)
next
  case False
  with assms have "\<exists>k. b0 = 0xE1 + k" by (intro le_Suc_ex) linarith
  then show ?thesis by auto
qed

lemma rune4_big:
  assumes "0xF0 \<le> b0" and "continuation (if b0 = 0xF0 then 0x90 else 0x80) h b1"
  shows "0x80 \<le> (((b0 - 0xF0) * 64 + (b1 - 0x80)) * 64 + c) * 64 + (c' :: nat)"
proof (cases "b0 = 0xF0")
  case True
  with assms have "0x90 \<le> b1" by (simp add: continuation_def)
  then have "0x80 \<le> (b1 - 0x80) * 64" by linarith
  then show ?thesis by (simp only: add_mult_distrib)
next
  case False
  with assms have "\<exists>k. b0 = 0xF1 + k" by (intro le_Suc_ex) linarith
  then show ?thesis by auto
qed

lemma case3_big:
  "(\<And>b1 b2. C b1 b2 \<Longrightarrow> 0x80 \<le> X b1 b2) \<Longrightarrow>
   0x80 \<le> fst (case r of b1 # b2 # _ \<Rightarrow> if C b1 b2 then (X b1 b2, n) else (0xFFFD :: nat, m) | _ \<Rightarrow> (0xFFFD, m))"
  by (simp split: list.split)

lemma case4_big:
  "(\<And>b1 b2 b3. C b1 b2 b3 \<Longrightarrow> 0x80 \<le> X b1 b2 b3) \<Longrightarrow>
   0x80 \<le> fst (case r of b1 # b2 # b3 # _ \<Rightarrow> if C b1 b2 b3 then (X b1 b2 b3, n) else (0xFFFD :: nat, m)
     | _ \<Rightarrow> (0xFFFD, m))"
  by (simp split: list.split)

lemma decode_rune_big:
  assumes b0: "0x80 \<le> b0"
  shows "0x80 \<le> fst (decode_rune (b0 # r))"
proof -
  consider (two) "0xC2 \<le> b0 \<and> b0 \<le> 0xDF" | (three) "0xE0 \<le> b0 \<and> b0 \<le> 0xEF"
    | (four) "0xF0 \<le> b0 \<and> b0 \<le> 0xF4"
    | (bad) "\<not> (0xC2 \<le> b0 \<and> b0 \<le> 0xDF)" "\<not> (0xE0 \<le> b0 \<and> b0 \<le> 0xEF)" "\<not> (0xF0 \<le> b0 \<and> b0 \<le> 0xF4)"
    by blast
  then show ?thesis
  proof cases
    case two
    then have "\<not> b0 < 0x80" by linarith
    with two show ?thesis
      unfolding decode_rune_def list.case if_not_P [OF \<open>\<not> b0 < 0x80\<close>] if_P [OF two]
      by (cases r) (auto simp: rune2_big)
  next
    case three
    then have n: "\<not> b0 < 0x80" "\<not> (0xC2 \<le> b0 \<and> b0 \<le> 0xDF)" and ge: "0xE0 \<le> b0" by linarith+
    show ?thesis
      unfolding decode_rune_def list.case if_not_P [OF n(1)] if_not_P [OF n(2)] if_P [OF three]
      by (rule case3_big) (elim conjE, rule rune3_big [OF ge])
  next
    case four
    then have n: "\<not> b0 < 0x80" "\<not> (0xC2 \<le> b0 \<and> b0 \<le> 0xDF)" "\<not> (0xE0 \<le> b0 \<and> b0 \<le> 0xEF)"
      and ge: "0xF0 \<le> b0" by linarith+
    show ?thesis
      unfolding decode_rune_def list.case if_not_P [OF n(1)] if_not_P [OF n(2)] if_not_P [OF n(3)] if_P [OF four]
      by (rule case4_big) (elim conjE, rule rune4_big [OF ge])
  next
    case bad
    with b0 show ?thesis
      unfolding decode_rune_def list.case by (simp only: if_False if_not_P linorder_not_less) simp
  qed
qed

lemma runes_ascii: "list_all (\<lambda>r. r < 0x80) (runes bs) \<Longrightarrow> runes bs = bs"
proof (induction bs rule: runes.induct)
  case (1 bs)
  show ?case
  proof (cases bs)
    case Nil
    then show ?thesis by (simp add: runes.simps)
  next
    case (Cons b r)
    from "1.prems" Cons have "fst (decode_rune bs) < 0x80" by (simp add: runes.simps [of "b # r"])
    with decode_rune_big [of b r] Cons have "b < 0x80" by fastforce
    then have "decode_rune (b # r) = (b, 1)" by (simp add: decode_rune_def)
    with 1 Cons show ?thesis by (simp add: runes.simps [of "b # r"])
  qed
qed

lemma runes_of_ascii: "list_all (\<lambda>r. r < 0x80) bs \<Longrightarrow> runes bs = bs"
proof (induction bs rule: runes.induct)
  case (1 bs)
  show ?case
  proof (cases bs)
    case Nil
    then show ?thesis by (simp add: runes.simps)
  next
    case (Cons b r)
    with "1.prems" have "decode_rune (b # r) = (b, 1)" by (simp add: decode_rune_def)
    with 1 Cons show ?thesis by (simp add: runes.simps [of "b # r"])
  qed
qed

definition pointer_char :: "char \<Rightarrow> bool" where
  "pointer_char c \<longleftrightarrow> pointer_rune (of_char c)"

lemma checkPointer_None:
  "checkPointer p = None \<longleftrightarrow> p \<noteq> [] \<and> length p \<le> 128 \<and> list_all pointer_char p"
proof -
  let ?bs = "map of_char p :: nat list"
  have small: "list_all pointer_rune rs \<Longrightarrow> list_all (\<lambda>r. r < 0x80) rs" for rs
    unfolding list_all_iff by (fastforce simp: pointer_rune_def)
  have eq: "list_all pointer_rune (runes ?bs) \<longleftrightarrow> list_all pointer_rune ?bs"
    using runes_ascii [of ?bs] runes_of_ascii [of ?bs] small [of ?bs] small [of "runes ?bs"] by metis
  have "list_all pointer_rune ?bs \<longleftrightarrow> list_all pointer_char p"
    by (simp add: list_all_iff pointer_char_def)
  with eq show ?thesis unfolding checkPointer_def by simp
qed

lemma dotted_not_pointer: "CHR ''.'' \<in> set n \<Longrightarrow> checkPointer n \<noteq> None"
proof
  assume "CHR ''.'' \<in> set n" "checkPointer n = None"
  then have "pointer_char (CHR ''.'')" by (auto simp: checkPointer_None list_all_iff)
  then show False by (simp add: pointer_char_def pointer_rune_def)
qed

lemma claim_not_pointer: "checkPointer (p @ ''.'' @ s @ claimExt) \<noteq> None"
  by (rule dotted_not_pointer) simp

lemma utf8_clean_ascii: "list_all (\<lambda>r. r < 0x80) bs \<Longrightarrow> utf8_clean bs = bs"
proof (induction bs)
  case (Cons b bs)
  then show ?case by (simp add: utf8_clean.simps [of "b # bs"])
qed (simp add: utf8_clean.simps)

lemma str_image_ascii: "list_all (\<lambda>c. of_char c < (0x80 :: nat)) s \<Longrightarrow> str_image s = s"
  using utf8_clean_ascii [of "map of_char s"] by (simp add: str_image_def list_all_iff o_def map_idI)

lemma pointer_image: "checkPointer p = None \<Longrightarrow> str_image p = p"
  by (rule str_image_ascii) (auto simp: checkPointer_None list_all_iff pointer_char_def pointer_rune_def)

section \<open>Saving\<close>

text \<open>\<open>same_but n d d'\<close>: nothing but the file \<open>n\<close> has changed.\<close>

definition plain :: "fs_file option \<Rightarrow> bool" where
  "plain f = (case f of None \<Rightarrow> True | Some f \<Rightarrow> \<not> f_IsDir f)"

definition same_but :: "string \<Rightarrow> directory \<Rightarrow> directory \<Rightarrow> bool" where
  "same_but n d d' \<longleftrightarrow>
     (\<forall>m. m \<noteq> n \<longrightarrow> map_of (d_files d') m = map_of (d_files d) m) \<and> d' = d\<lparr>d_files := d_files d'\<rparr> \<and>
     (plain (map_of (d_files d) n) \<longrightarrow> plain (map_of (d_files d') n))"

lemma plain_None [simp]: "plain None"
  by (simp add: plain_def)

lemma same_but_refl [simp]: "same_but n d d"
  by (simp add: same_but_def)

lemma same_but_trans: "same_but n d d1 \<Longrightarrow> same_but n d1 d2 \<Longrightarrow> same_but n d d2"
  unfolding same_but_def by (metis directory.select_convs directory.surjective directory.update_convs(2))

lemma same_but_lookup: "same_but n d d' \<Longrightarrow> m \<noteq> n \<Longrightarrow> map_of (d_files d') m = map_of (d_files d) m"
  by (simp add: same_but_def)

lemma save_do_same: "s \<noteq> Commit \<Longrightarrow> save_do temp x s d = (r, d') \<Longrightarrow> same_but temp d d'"
  by (cases s) (auto simp: fault_or_def same_but_def plain_def split: option.splits)

lemma os_Remove_same: "os_Remove n d = (r, d') \<Longrightarrow> same_but n d d'"
  by (auto simp: os_Remove_def same_but_def plain_def split: option.splits)

lemma save_run_same: "Commit \<notin> set ss \<Longrightarrow> save_run temp x ss d = (r, d') \<Longrightarrow> same_but temp d d'"
proof (induction ss arbitrary: d)
  case (Cons s ss)
  obtain e d1 where s: "save_do temp x s d = (e, d1)" by force
  with Cons.prems have one: "same_but temp d d1" by (auto dest: save_do_same [rotated])
  show ?case
  proof (cases e)
    case None
    with Cons s have "same_but temp d1 d'" by simp
    with one show ?thesis by (rule same_but_trans)
  next
    case (Some x)
    with Cons.prems s one show ?thesis by simp
  qed
qed simp

lemma save_run_append:
  "save_run temp x (ss @ ss') d =
     (case save_run temp x ss d of (None, d1) \<Rightarrow> save_run temp x ss' d1 | r \<Rightarrow> r)"
  by (induction ss arbitrary: d) (auto split: prod.splits option.splits)

definition save_body :: "save_step list" where
  "save_body = [CreateTemp, WriteTemp, SyncTemp, CloseTemp, ChmodTemp]"

lemma save_script_body: "save_script = save_body @ [Commit]"
  by (simp add: save_script_def save_body_def)

definition written :: "directory \<Rightarrow> state \<Rightarrow> fs_file" where
  "written d x = \<lparr>f_decoded = (None, state_image x), f_ModTime = d_now d, f_IsDir = False\<rparr>"

lemma save_body_written:
  "save_run temp x save_body d = (None, d1) \<Longrightarrow> map_of (d_files d1) temp = Some (written d x)"
  by (auto simp: save_body_def fault_or_def written_def split: option.splits)

text \<open>What a save leaves behind: the new state under its pointer, or nothing but the temporary file.\<close>

lemma file_Save_cases:
  assumes "file_Save x d = (r, d')"
  defines "temp \<equiv> d_temp d (d_files d)"
  obtains (failed) e where "r = Some e" and "same_but temp d d'"
  | (saved) d1 where "r = None" and "checkPointer (st_Pointer x) = None" and "same_but temp d d1"
      and "same_but temp (d1\<lparr>d_files := gput (st_Pointer x) (written d x) (gdel temp (d_files d1))\<rparr>) d'"
proof -
  obtain f d1 where run: "save_run temp x save_body d = (f, d1)" by force
  have same: "same_but temp d d1" by (rule save_run_same [OF _ run]) (simp add: save_body_def)
  have rm: "same_but temp e (snd (os_Remove temp e))" for e by (rule os_Remove_same [OF surjective_pairing])
  have script: "save_run temp x save_script d = (case f of None \<Rightarrow> save_run temp x [Commit] d1 | Some g \<Rightarrow> (Some g, d1))"
    by (simp add: save_script_body save_run_append run split: option.split)
  show ?thesis
  proof (cases "checkPointer (st_Pointer x) = None \<and> member_unsupported (st_Ctx x) = None")
    case False
    then consider e where "checkPointer (st_Pointer x) = Some e"
      | v where "checkPointer (st_Pointer x) = None" "member_unsupported (st_Ctx x) = Some v"
      by fastforce
    then have "r \<noteq> None \<and> d' = d" using assms(1) by cases (simp_all add: file_Save_def, blast+)
    with failed show ?thesis by auto
  next
    case ok: True
    show ?thesis
    proof (cases f)
      case (Some g)
      with script ok assms(1) have "r \<noteq> None \<and> (d' = d1 \<or> d' = snd (os_Remove temp d1))"
        by (cases g; cases "fst g") (auto simp: file_Save_def temp_def [symmetric] Let_def)
      with failed same rm same_but_trans show ?thesis by blast
    next
      case None
      then have w: "map_of (d_files d1) temp = Some (written d x)" using save_body_written run by simp
      obtain e d2 where ren: "os_Rename temp (st_Pointer x) d1 = (e, d2)" by force
      with script None ok assms(1) have d': "d' = snd (os_Remove temp d2)" and r: "r = None \<longleftrightarrow> e = None"
        by (auto simp: file_Save_def temp_def [symmetric] Let_def split: option.splits)
      show ?thesis
      proof (cases e)
        case (Some a)
        with ren have "d2 = d1" by (auto simp: os_Rename_def split: option.splits if_splits)
        with d' r Some failed same rm same_but_trans show ?thesis by blast
      next
        case None
        with ren w have "d2 = d1\<lparr>d_files := gput (st_Pointer x) (written d x) (gdel temp (d_files d1))\<rparr>"
          by (auto simp: os_Rename_def split: option.splits if_splits)
        with d' r None ok same rm saved show ?thesis by blast
      qed
    qed
  qed
qed

section \<open>The contract\<close>

text \<open>
  \<open>disk_ok\<close>: the system has random bytes, reads what is there, and renames a file to a claim; it names
  a temporary file as asked (\<open>.tmp-*\<close>); and no one made a directory inside the store's. Anything else
  may fail: creating, writing, flushing, closing, \<open>Chmod\<close>, the commit, removing, \<open>Stat\<close>.
\<close>

definition disk_ok :: "directory \<Rightarrow> bool" where
  "disk_ok d \<longleftrightarrow>
     (\<forall>n. d_fault d (OsReadFile n) = None) \<and>
     (\<forall>p s. d_fault d (OsRename p (p @ ''.'' @ s @ claimExt)) = None) \<and>
     (\<forall>i. \<not> isl (d_rand d i)) \<and>
     (\<forall>fs. has_prefix (d_temp d fs) ''.tmp-'') \<and>
     (\<forall>n. plain (map_of (d_files d) n))"

definition file_pending :: "directory \<Rightarrow> string \<Rightarrow> state option" where
  "file_pending d p =
     (case (checkPointer p, map_of (d_files d) p) of
        (None, Some f) \<Rightarrow> (case f_decoded f of (None, x) \<Rightarrow> Some x | _ \<Rightarrow> None)
      | _ \<Rightarrow> None)"

lemma same_but_pending: "same_but n d d' \<Longrightarrow> checkPointer n \<noteq> None \<Longrightarrow> file_pending d' = file_pending d"
proof
  fix p
  assume a: "same_but n d d'" "checkPointer n \<noteq> None"
  show "file_pending d' p = file_pending d p"
    using same_but_lookup [OF a(1), of p] a(2) by (cases "p = n") (auto simp: file_pending_def split: option.split)
qed

lemma same_but_ok: "same_but n d d' \<Longrightarrow> disk_ok d \<Longrightarrow> disk_ok d'"
  unfolding same_but_def disk_ok_def
  by (metis (no_types, lifting) directory.select_convs directory.surjective directory.update_convs(2))

lemma files_ok:
  "disk_ok d \<Longrightarrow> (\<And>n. plain (map_of m n)) \<Longrightarrow> disk_ok (d\<lparr>d_files := m\<rparr>)"
  by (simp add: disk_ok_def)

lemma temp_not_pointer: "disk_ok d \<Longrightarrow> checkPointer (d_temp d fs) \<noteq> None"
proof (rule dotted_not_pointer)
  assume "disk_ok d"
  then have "has_prefix (d_temp d fs) ''.tmp-''" by (simp add: disk_ok_def)
  then show "CHR ''.'' \<in> set (d_temp d fs)" by (auto simp: has_prefix_iff)
qed

lemma file_Save_contract:
  assumes "disk_ok d" and "file_Save x d = (r, d')"
  shows "file_pending d' = (if r = None then (file_pending d)(st_Pointer x \<mapsto> state_image x) else file_pending d)"
    and "disk_ok d'"
proof -
  let ?temp = "d_temp d (d_files d)"
  have temp: "checkPointer ?temp \<noteq> None" by (rule temp_not_pointer [OF assms(1)])
  have "file_pending d' = (if r = None then (file_pending d)(st_Pointer x \<mapsto> state_image x) else file_pending d) \<and> disk_ok d'"
    using assms(2)
  proof (cases rule: file_Save_cases)
    case (failed e)
    then show ?thesis using same_but_pending [OF failed(2) temp] same_but_ok [OF failed(2) assms(1)] by simp
  next
    case (saved d1)
    let ?d2 = "d1\<lparr>d_files := gput (st_Pointer x) (written d x) (gdel ?temp (d_files d1))\<rparr>"
    have ok1: "disk_ok d1" by (rule same_but_ok [OF saved(3) assms(1)])
    have "disk_ok ?d2"
      using ok1 by (intro files_ok) (auto simp: disk_ok_def plain_def written_def)
    moreover have "file_pending ?d2 = (file_pending d1)(st_Pointer x \<mapsto> state_image x)"
      using saved(2) temp by (auto simp: fun_eq_iff file_pending_def written_def split: option.split)
    ultimately show ?thesis
      using saved(1) same_but_pending [OF saved(3) temp] same_but_pending [OF saved(4) temp] same_but_ok [OF saved(4)]
      by simp
  qed
  then show "file_pending d' = (if r = None then (file_pending d)(st_Pointer x \<mapsto> state_image x) else file_pending d)"
    and "disk_ok d'" by blast+
qed

lemma file_Load_pending:
  assumes "disk_ok d"
  shows "file_pending d p = Some x \<Longrightarrow> file_Load p d = Inr x"
    and "file_pending d p = None \<Longrightarrow> isl (file_Load p d)"
proof -
  have rd: "d_fault d (OsReadFile p) = None" and pl: "plain (map_of (d_files d) p)"
    using assms by (auto simp: disk_ok_def)
  from rd pl show "file_pending d p = Some x \<Longrightarrow> file_Load p d = Inr x"
    by (auto simp: file_pending_def file_Load_def os_ReadFile_def plain_def decoded_state_def split: option.splits prod.splits)
  from rd pl show "file_pending d p = None \<Longrightarrow> isl (file_Load p d)"
    by (auto simp: file_pending_def file_Load_def os_ReadFile_def plain_def decoded_state_def split: option.splits prod.splits)
qed

text \<open>A claim: either no file of that name, or the file has moved to a name only claims have.\<close>

lemma file_Consume_cases:
  assumes "disk_ok d" and "checkPointer p = None" and "file_Consume p d = (r, d')"
  obtains (missing) "map_of (d_files d) p = None" and "r = Inl (file_missing p)" and "d' = d\<lparr>d_draws := d_draws d + 1\<rparr>"
  | (claimed) f buf where "map_of (d_files d) p = Some f" and "d_rand d (d_draws d) = Inr buf" and "r = decoded_state p f"
      and "d' = d\<lparr>d_draws := d_draws d + 1,
             d_files := gput (p @ ''.'' @ hex_encode buf @ claimExt) f (gdel p (d_files d))\<rparr>"
proof -
  have rd: "d_fault d (OsReadFile n) = None" and pl: "plain (map_of (d_files d) n)" for n
    using assms(1) by (auto simp: disk_ok_def)
  obtain buf where buf: "d_rand d (d_draws d) = Inr buf"
    using assms(1) unfolding disk_ok_def by (metis sum.collapse(2))
  let ?claim = "p @ ''.'' @ hex_encode buf @ claimExt"
  let ?d1 = "d\<lparr>d_draws := d_draws d + 1\<rparr>"
  have rn: "d_fault d (OsRename p ?claim) = None" using assms(1) by (simp add: disk_ok_def)
  have suffix: "claimSuffix d = (Inr (hex_encode buf), ?d1)" by (simp add: claimSuffix_def buf)
  show ?thesis
  proof (cases "map_of (d_files d) p")
    case None
    then have "os_Rename p ?claim ?d1 = (Some NotExist, ?d1)" using rn by (simp add: os_Rename_def)
    with assms(2,3) suffix None show ?thesis by (intro missing) (simp_all add: file_Consume_def Let_def)
  next
    case (Some f)
    let ?d2 = "?d1\<lparr>d_files := gput ?claim f (gdel p (d_files d))\<rparr>"
    have nodir: "\<not> (\<exists>g \<in> set_option (map_of (d_files ?d1) ?claim). f_IsDir g)"
      using pl [of ?claim] by (auto simp: plain_def)
    have "os_Rename p ?claim ?d1 = (None, ?d2)"
      unfolding os_Rename_def if_not_P [OF nodir] using Some rn by simp
    moreover have "os_ReadFile ?claim ?d2 = Inr f"
      using rd [of ?claim] pl [of p] Some by (simp add: os_ReadFile_def plain_def)
    ultimately show ?thesis
      using assms(2,3) suffix Some buf by (intro claimed) (auto simp: file_Consume_def Let_def)
  qed
qed

lemma remove_claims_pending:
  "\<forall>n \<in> set ns. checkPointer n \<noteq> None \<Longrightarrow> disk_ok d \<Longrightarrow> remove_claims p ns d = (r, d') \<Longrightarrow>
   file_pending d' = file_pending d \<and> disk_ok d'"
proof (induction ns arbitrary: d)
  case (Cons n ns)
  obtain e d1 where rm: "os_Remove n d = (e, d1)" by force
  have same: "same_but n d d1" by (rule os_Remove_same [OF rm])
  have one: "file_pending d1 = file_pending d" "disk_ok d1"
    using same_but_pending [OF same] same_but_ok [OF same] Cons.prems by auto
  have "d' = d1 \<or> remove_claims p ns d1 = (r, d')"
    using Cons.prems(3) rm by (auto split: option.splits os_error.splits)
  with Cons.IH [of d1] Cons.prems(1) one show ?case by auto
qed simp

lemma claims_on_dotted: "n \<in> set (claims_on p d) \<Longrightarrow> checkPointer n \<noteq> None"
  by (rule dotted_not_pointer) (auto simp: claims_on_def has_suffix_iff claimExt_def)

text \<open>Consuming and releasing, against the contract.\<close>

lemma pending_at: "checkPointer p = None \<Longrightarrow> map_of (d_files d) p = Some f \<Longrightarrow>
    file_pending d p = (case f_decoded f of (None, x) \<Rightarrow> Some x | _ \<Rightarrow> None)"
  by (simp add: file_pending_def)

lemma file_Consume_contract:
  assumes "disk_ok d" and "file_Consume p d = (r, d')"
  shows "file_pending d p = Some x \<Longrightarrow> r = Inr x" and "file_pending d p = None \<Longrightarrow> isl r"
    and "file_pending d' = (file_pending d)(p := None)" and "disk_ok d'"
proof -
  have "(\<forall>x. file_pending d p = Some x \<longrightarrow> r = Inr x) \<and> (file_pending d p = None \<longrightarrow> isl r) \<and>
        file_pending d' = (file_pending d)(p := None) \<and> disk_ok d'"
  proof (cases "checkPointer p")
    case (Some e)
    with assms(2) have "r = Inl e" "d' = d" by (simp_all add: file_Consume_def)
    with Some assms(1) show ?thesis by (auto simp: fun_eq_iff file_pending_def)
  next
    case ok: None
    from assms(1) ok assms(2) show ?thesis
    proof (cases rule: file_Consume_cases)
      case missing
      then show ?thesis using assms(1) by (auto simp: fun_eq_iff file_pending_def disk_ok_def split: option.split)
    next
      case (claimed f buf)
      let ?claim = "p @ ''.'' @ hex_encode buf @ claimExt"
      have "plain (map_of (d_files d) n)" for n using assms(1) by (simp add: disk_ok_def)
      moreover from this [of p] claimed(1) have "plain (Some f)" by simp
      ultimately have "disk_ok d'"
        using assms(1) unfolding claimed(4) by (simp add: disk_ok_def)
      moreover have "file_pending d' = (file_pending d)(p := None)"
        using claim_not_pointer [of p "hex_encode buf"] unfolding claimed(4)
        by (auto simp: fun_eq_iff file_pending_def split: option.split)
      moreover have "file_pending d p = Some y \<Longrightarrow> r = Inr y" "file_pending d p = None \<Longrightarrow> isl r" for y
        unfolding pending_at [OF ok claimed(1)] claimed(3)
        by (auto simp: decoded_state_def split: prod.splits option.splits)
      ultimately show ?thesis by blast
    qed
  qed
  then show "file_pending d p = Some x \<Longrightarrow> r = Inr x" and "file_pending d p = None \<Longrightarrow> isl r"
    and "file_pending d' = (file_pending d)(p := None)" and "disk_ok d'" by blast+
qed

lemma file_Release_contract:
  "disk_ok d \<Longrightarrow> file_Release p d = (r, d') \<Longrightarrow> file_pending d' = file_pending d \<and> disk_ok d'"
  using remove_claims_pending [of "claims_on p d" d p r d'] claims_on_dotted [of _ p d]
  by (auto simp: file_Release_def split: option.splits)

interpretation disk: store_contract file_store file_pending disk_ok state_image
proof unfold_locales
  fix d p x
  assume ok: "disk_ok d"
  show "file_pending d p = Some x \<Longrightarrow> store_Load file_store p d = Inr x"
    "file_pending d p = None \<Longrightarrow> isl (store_Load file_store p d)"
    using file_Load_pending [OF ok] by (simp_all add: file_store_def)
  show "file_pending d p = Some x \<Longrightarrow> fst (store_Consume file_store p d) = Inr x"
    "file_pending d p = None \<Longrightarrow> isl (fst (store_Consume file_store p d))"
    "file_pending (snd (store_Consume file_store p d)) = (file_pending d)(p := None)"
    "disk_ok (snd (store_Consume file_store p d))"
    using file_Consume_contract [OF ok surjective_pairing] by (simp_all add: file_store_def)
  show "file_pending (snd (store_Release file_store p d)) = file_pending d"
    "disk_ok (snd (store_Release file_store p d))"
    using file_Release_contract [OF ok surjective_pairing] by (simp_all add: file_store_def)
  show "file_pending (snd (store_Save file_store x d)) =
      (if fst (store_Save file_store x d) = None then (file_pending d)(st_Pointer x \<mapsto> state_image x) else file_pending d)"
    "disk_ok (snd (store_Save file_store x d))"
    using file_Save_contract [OF ok surjective_pairing] by (simp_all add: file_store_def)
qed

end
