(* ===== verification/Recovery.thy ===== *)
theory Recovery
  imports FilestoreFacts
begin

text \<open>
  The properties of the store on disk: one claim per save, saves that a crash cannot tear, states
  that come back as they were, and claims that survive until they are released.
\<close>

section \<open>Values JSON keeps\<close>

text \<open>
  Values that come back from disk as they went: what \<open>json.Unmarshal\<close> itself produces, in ASCII.
  Maps are in key order, as everywhere.
\<close>

definition ascii_text :: "string \<Rightarrow> bool" where
  "ascii_text s \<longleftrightarrow> list_all (\<lambda>c. of_char c < (0x80 :: nat)) s"

fun json_native :: "gval \<Rightarrow> bool" and json_natives :: "gval list \<Rightarrow> bool"
  and native_members :: "(string \<times> gval) list \<Rightarrow> bool" where
  "json_native GNil = True"
| "json_native (GBool b) = True"
| "json_native (GStr s) = ascii_text s"
| "json_native (GFloat x) = (case x of Fin _ \<Rightarrow> True | _ \<Rightarrow> False)"
| "json_native (GArr xs) = json_natives xs"
| "json_native (GObj m) = (gwf m \<and> native_members m)"
| "json_native _ = False"
| "json_natives [] = True"
| "json_natives (x # xs) = (json_native x \<and> json_natives xs)"
| "native_members [] = True"
| "native_members ((k, v) # m) = (ascii_text k \<and> json_native v \<and> native_members m)"

definition native_state :: "state \<Rightarrow> bool" where
  "native_state x \<longleftrightarrow>
     ascii_text (st_WorkflowID x) \<and> ascii_text (st_StepID x) \<and> ascii_text (st_Reason x) \<and>
     ascii_text (st_Audience x) \<and> gwf (st_Ctx x) \<and> native_members (st_Ctx x) \<and> list_all ascii_text (st_Trace x)"

lemma ascii_image [simp]: "ascii_text s \<Longrightarrow> str_image s = s"
  by (simp add: ascii_text_def str_image_ascii)

lemma members_image_append:
  "gwf acc \<Longrightarrow> gwf m \<Longrightarrow> (\<And>k. k \<in> set (gkeys m) \<Longrightarrow> str_image k = k) \<Longrightarrow>
   (\<And>k v. (k, v) \<in> set m \<Longrightarrow> json_image v = v) \<Longrightarrow>
   gwf (members_image m acc) \<and> map_of (members_image m acc) = map_of acc ++ map_of m"
proof (induction m arbitrary: acc)
  case (Cons x m)
  obtain k v where x: "x = (k, v)" by force
  have kv: "str_image k = k" "json_image v = v" using Cons.prems(3,4) x by auto
  have k: "map_of m k = None" using Cons.prems(2) x by (auto simp: gwf_Cons set_gkeys domIff)
  have "map_of (gput k v acc) ++ map_of m = map_of acc ++ map_of (x # m)"
    using k by (auto simp: fun_eq_iff x map_add_def split: option.split)
  moreover have "gwf (members_image m (gput k v acc)) \<and>
      map_of (members_image m (gput k v acc)) = map_of (gput k v acc) ++ map_of m"
    using Cons.prems by (intro Cons.IH) (auto simp: x gwf_Cons)
  ultimately show ?case by (simp only: x members_image.simps kv)
qed simp

lemma members_image_same:
  assumes "gwf m" and "\<And>k. k \<in> set (gkeys m) \<Longrightarrow> str_image k = k" and "\<And>k v. (k, v) \<in> set m \<Longrightarrow> json_image v = v"
  shows "members_image m [] = m"
  using members_image_append [of "[]" m] assms by (intro gomap_eqI) auto

lemma native_image:
  "json_native v \<Longrightarrow> json_image v = v"
  "json_natives vs \<Longrightarrow> json_images vs = vs"
  "native_members m \<Longrightarrow> (\<forall>k \<in> set (gkeys m). str_image k = k) \<and> (\<forall>(k, w) \<in> set m. json_image w = w)"
proof (induction v and vs and m rule: json_native_json_natives_native_members.induct)
  case (6 m)
  then show ?case by (auto intro!: members_image_same)
qed auto

lemma native_state_image:
  assumes "native_state x" and "checkPointer (st_Pointer x) = None"
  shows "state_image x = x"
proof -
  have "members_image (st_Ctx x) [] = st_Ctx x"
    using assms(1) native_image(3) [of "st_Ctx x"] by (intro members_image_same) (auto simp: native_state_def)
  moreover have "map str_image (st_Trace x) = st_Trace x"
    using assms(1) by (auto simp: native_state_def list_all_iff intro: map_idI)
  ultimately show ?thesis
    using assms by (simp add: state_image_def native_state_def pointer_image)
qed

section \<open>A sample disk\<close>

definition sample_disk :: directory where
  "sample_disk = \<lparr>d_path = ''/var/cee'', d_files = [], d_fault = (\<lambda>_. None), d_rand = (\<lambda>_. Inr [0xAB]),
     d_draws = 0, d_temp = (\<lambda>_. ''.tmp-7''), d_now = 1000\<rparr>"

definition parked :: state where
  "parked = \<lparr>st_Pointer = ''res-1'', st_WorkflowID = ''refund'', st_StepID = ''ask'', st_Reason = ''approval'',
     st_Audience = ''finance'', st_Ctx = [(''amount'', GFloat (Fin 12))], st_Trace = [''refund/ask'']\<rparr>"

definition parked_disk :: directory where
  "parked_disk = sample_disk\<lparr>d_files := [(''res-1'', written sample_disk parked)]\<rparr>"

lemma sample_disk_ok: "disk_ok sample_disk" "disk_ok parked_disk"
  by (simp_all add: disk_ok_def sample_disk_def parked_disk_def has_prefix_def plain_def written_def)

lemma parked_pointer: "checkPointer ''res-1'' = None"
  by (simp add: checkPointer_None pointer_char_def pointer_rune_def)

lemma parked_native: "native_state parked"
  by (simp add: native_state_def parked_def ascii_text_def gwf_Cons)

section \<open>Properties\<close>

text \<open>
  A run of the store in which the system's faults change from one operation to the next. \<open>at_rest d p\<close>:
  a run is parked under \<open>p\<close>, which is to say that the file of that name is there.
\<close>

fun faulty_run :: "((os_call \<Rightarrow> string option) \<times> store_op) list \<Rightarrow> directory \<Rightarrow> (store_op \<times> bool) list \<times> directory" where
  "faulty_run [] d = ([], d)"
| "faulty_run ((fault, op) # ops) d =
     (case store_call file_store op (d\<lparr>d_fault := fault\<rparr>) of (ok, d1) \<Rightarrow>
      case faulty_run ops d1 of (rs, d2) \<Rightarrow> ((op, ok) # rs, d2))"

definition at_rest :: "directory \<Rightarrow> string \<Rightarrow> bool" where
  "at_rest d p \<longleftrightarrow> checkPointer p = None \<and> map_of (d_files d) p \<noteq> None"

definition temp_names :: "directory \<Rightarrow> bool" where
  "temp_names d \<longleftrightarrow> (\<forall>fs. has_prefix (d_temp d fs) ''.tmp-'')"

lemma at_rest_fault [simp]: "at_rest (d\<lparr>d_fault := fault\<rparr>) p = at_rest d p" "temp_names (d\<lparr>d_fault := fault\<rparr>) = temp_names d"
  by (simp_all add: at_rest_def temp_names_def)

lemma temp_names_not_pointer: "temp_names d \<Longrightarrow> checkPointer (d_temp d fs) \<noteq> None"
proof (rule dotted_not_pointer)
  assume "temp_names d"
  then have "has_prefix (d_temp d fs) ''.tmp-''" by (simp add: temp_names_def)
  then show "CHR ''.'' \<in> set (d_temp d fs)" by (auto simp: has_prefix_iff)
qed

lemma same_but_at_rest:
  "same_but n d d' \<Longrightarrow> d_temp d' = d_temp d \<and> (checkPointer n \<noteq> None \<longrightarrow> at_rest d' p = at_rest d p)"
  unfolding same_but_def at_rest_def
  by (metis directory.select_convs(6) directory.surjective directory.update_convs(2))

lemma save_at_rest:
  assumes "temp_names d" and "file_Save x d = (r, d')"
  shows "d_temp d' = d_temp d \<and> (at_rest d' p \<longrightarrow> at_rest d p \<or> r = None \<and> st_Pointer x = p)"
  using assms(2)
proof (cases rule: file_Save_cases)
  case (failed e)
  with same_but_at_rest [OF failed(2), of p] temp_names_not_pointer [OF assms(1)] show ?thesis by auto
next
  case (saved d1)
  let ?temp = "d_temp d (d_files d)"
  let ?d2 = "d1\<lparr>d_files := gput (st_Pointer x) (written d x) (gdel ?temp (d_files d1))\<rparr>"
  have t: "checkPointer ?temp \<noteq> None" by (rule temp_names_not_pointer [OF assms(1)])
  have "at_rest ?d2 p \<longrightarrow> at_rest d1 p \<or> st_Pointer x = p" by (auto simp: at_rest_def split: if_splits)
  with same_but_at_rest [OF saved(3), of p] same_but_at_rest [OF saved(4), of p] t saved(1) show ?thesis by auto
qed

lemma consume_at_rest:
  assumes "file_Consume q d = (r, d')"
  shows "d_temp d' = d_temp d \<and> (at_rest d' p \<longrightarrow> at_rest d p) \<and> (\<not> isl r \<longrightarrow> at_rest d q \<and> \<not> at_rest d' q)"
proof (cases "checkPointer q")
  case (Some e)
  with assms show ?thesis by (auto simp: file_Consume_def)
next
  case q: None
  obtain sf d1 where sf: "claimSuffix d = (sf, d1)" by force
  then have d1: "d_temp d1 = d_temp d" "d_files d1 = d_files d" by (auto simp: claimSuffix_def split: sum.splits)
  show ?thesis
  proof (cases sf)
    case (Inl e)
    with assms q sf d1 show ?thesis by (auto simp: file_Consume_def at_rest_def)
  next
    case (Inr suffix)
    let ?claim = "q @ ''.'' @ suffix @ claimExt"
    obtain e d2 where ren: "os_Rename q ?claim d1 = (e, d2)" by force
    have d': "d' = d2" and r: "\<not> isl r \<longrightarrow> e = None"
      using assms q sf Inr ren by (auto simp: file_Consume_def Let_def split: option.splits os_error.splits sum.splits)
    show ?thesis
    proof (cases e)
      case (Some g)
      with ren have "d2 = d1" by (auto simp: os_Rename_def split: option.splits if_splits)
      with d' r Some d1 show ?thesis by (simp add: at_rest_def)
    next
      case None
      with ren obtain f where f: "map_of (d_files d1) q = Some f" "d2 = d1\<lparr>d_files := gput ?claim f (gdel q (d_files d1))\<rparr>"
        by (auto simp: os_Rename_def split: option.splits if_splits)
      have "checkPointer ?claim \<noteq> None" by (rule claim_not_pointer)
      with d' f d1 q show ?thesis by (auto simp: at_rest_def split: if_splits)
    qed
  qed
qed

lemma remove_claims_at_rest:
  "remove_claims q ns d = (r, d') \<Longrightarrow> d_temp d' = d_temp d \<and> (at_rest d' p \<longrightarrow> at_rest d p)"
proof (induction ns arbitrary: d)
  case (Cons n ns)
  obtain e d1 where rm: "os_Remove n d = (e, d1)" by force
  then have "d_temp d1 = d_temp d \<and> (at_rest d1 p \<longrightarrow> at_rest d p)"
    by (auto simp: os_Remove_def at_rest_def split: option.splits if_splits)
  moreover have "d' = d1 \<or> remove_claims q ns d1 = (r, d')"
    using Cons.prems rm by (auto split: option.splits os_error.splits)
  ultimately show ?case using Cons.IH [of d1] by auto
qed simp

lemma call_at_rest:
  assumes "temp_names d" and "store_call file_store op d = (ok, d')"
  shows "temp_names d' \<and> claims_of p [(op, ok)] + (if at_rest d' p then 1 else 0) \<le>
    saves_of p [(op, ok)] + (if at_rest d p then 1 else 0)"
proof (cases op)
  case (OpSave x)
  with assms(2) have "file_Save x d = (fst (file_Save x d), d')" "ok = (fst (file_Save x d) = None)"
    by (auto simp: file_store_def prod_eq_iff)
  with save_at_rest [OF assms(1), of x "fst (file_Save x d)" d' p] OpSave assms(1) show ?thesis
    by (auto simp: temp_names_def claims_of_def saves_of_def)
next
  case (OpConsume q)
  with assms(2) have "file_Consume q d = (fst (file_Consume q d), d')" "ok = (\<not> isl (fst (file_Consume q d)))"
    by (auto simp: file_store_def prod_eq_iff)
  with consume_at_rest [of q d "fst (file_Consume q d)" d' p] OpConsume assms(1) show ?thesis
    by (auto simp: temp_names_def claims_of_def saves_of_def)
next
  case (OpRelease q)
  have "d_temp d' = d_temp d \<and> (at_rest d' p \<longrightarrow> at_rest d p)"
    using OpRelease assms(2) remove_claims_at_rest [OF surjective_pairing, of q "claims_on q d" d p]
    by (auto simp: file_store_def file_Release_def split: option.splits)
  with OpRelease assms(1) show ?thesis by (auto simp: temp_names_def claims_of_def saves_of_def)
qed (use assms in \<open>auto simp: claims_of_def saves_of_def\<close>)

text \<open>
  C20. On disk, whatever sequence of operations runs, each of them whole, and whatever fails in them (any
  call of the system, with the faults changing from one operation to the next, a file that is not readable,
  no random bytes): a pointer is claimed no more often than it was parked, so one more time than it was
  saved if a run was parked under it at the start. Only the names of temporary files are as asked for.
\<close>

theorem disk_claims_never_exceed_saves:
  assumes "temp_names d" and "faulty_run ops d = (rs, d')"
  shows "claims_of p rs + (if at_rest d' p then 1 else 0) \<le> saves_of p rs + (if at_rest d p then 1 else 0)"
  using assms
proof (induction ops arbitrary: d rs)
  case Nil
  then show ?case by (simp add: claims_of_def saves_of_def)
next
  case (Cons fop ops)
  obtain fault op where fop: "fop = (fault, op)" by force
  obtain ok d1 where c: "store_call file_store op (d\<lparr>d_fault := fault\<rparr>) = (ok, d1)" by force
  obtain rs1 where r: "faulty_run ops d1 = (rs1, d')" and rs: "rs = (op, ok) # rs1"
    using Cons.prems(2) c fop by (auto split: prod.splits)
  have one: "temp_names d1 \<and> claims_of p [(op, ok)] + (if at_rest d1 p then 1 else 0) \<le>
      saves_of p [(op, ok)] + (if at_rest d p then 1 else 0)"
    using call_at_rest [OF _ c, of p] Cons.prems(1) by simp
  with Cons.IH [OF _ r] show ?case
    unfolding rs disk.claims_of_Cons [of p "(op, ok)" rs1] disk.saves_of_Cons [of p "(op, ok)" rs1] by linarith
qed

text \<open>The first claim cannot rename the file, the second cannot read what it has claimed, the third is late.\<close>

theorem disk_claims_never_exceed_saves_witness:
  "claims_of ''res-1'' (fst (faulty_run
     [(\<lambda>c. case c of OsRename _ _ \<Rightarrow> Some ''I/O error'' | _ \<Rightarrow> None, OpConsume ''res-1''),
      (\<lambda>c. case c of OsReadFile _ \<Rightarrow> Some ''I/O error'' | _ \<Rightarrow> None, OpConsume ''res-1''),
      (\<lambda>_. None, OpConsume ''res-1'')] parked_disk)) \<le> 1"
  using disk_claims_never_exceed_saves [of parked_disk _ _ _ "''res-1''", OF _ surjective_pairing,
      of "[(\<lambda>c. case c of OsRename _ _ \<Rightarrow> Some ''I/O error'' | _ \<Rightarrow> None, OpConsume ''res-1''),
        (\<lambda>c. case c of OsReadFile _ \<Rightarrow> Some ''I/O error'' | _ \<Rightarrow> None, OpConsume ''res-1''),
        (\<lambda>_. None, OpConsume ''res-1'')]"]
  by (simp add: temp_names_def sample_disk_ok(2) [unfolded disk_ok_def] saves_of_def split: if_splits prod.splits)

text \<open>
  C21. A crash in the middle of \<open>Save\<close>, after any number of its steps, leaves every parked run
  loadable exactly as it was, and every other file untouched; only the complete script makes the new
  state visible, and then it is all there.
\<close>

theorem a_crash_never_tears_a_save:
  assumes "disk_ok d" and "checkPointer (st_Pointer x) = None"
    and "save_run (d_temp d (d_files d)) x (take k save_script) d = (r, d')"
  shows "(\<forall>n. n \<noteq> d_temp d (d_files d) \<longrightarrow> n \<noteq> st_Pointer x \<longrightarrow> map_of (d_files d') n = map_of (d_files d) n) \<and>
         (file_Load (st_Pointer x) d' = file_Load (st_Pointer x) d \<or>
          6 \<le> k \<and> r = None \<and> file_Load (st_Pointer x) d' = Inr (state_image x))"
proof -
  let ?temp = "d_temp d (d_files d)"
  have temp: "?temp \<noteq> st_Pointer x" using temp_not_pointer [OF assms(1)] assms(2) by metis
  have load: "file_Load (st_Pointer x) e = file_Load (st_Pointer x) d" if "same_but ?temp d e" for e
  proof -
    have "d_fault e = d_fault d" using that unfolding same_but_def by (metis directory.select_convs(3) directory.surjective directory.update_convs(2))
    then have "os_ReadFile (st_Pointer x) e = os_ReadFile (st_Pointer x) d"
      unfolding os_ReadFile_def same_but_lookup [OF that temp [symmetric]] by (simp only:)
    then show ?thesis unfolding file_Load_def by (simp only:)
  qed
  show ?thesis
  proof (cases "k < 6")
    case True
    then have "take k save_script = take k save_body"
      by (simp add: save_script_body) (simp add: save_body_def)
    moreover have "Commit \<notin> set (take k save_body)"
      using set_take_subset [of k save_body] by (auto simp: save_body_def)
    ultimately have "same_but ?temp d d'" using save_run_same assms(3) by metis
    with load same_but_lookup show ?thesis by blast
  next
    case False
    then have k: "take k save_script = save_body @ [Commit]" by (simp add: save_script_body save_body_def)
    obtain f d1 where run: "save_run ?temp x save_body d = (f, d1)" by force
    have same: "same_but ?temp d d1" by (rule save_run_same [OF _ run]) (simp add: save_body_def)
    have ok1: "disk_ok d1" by (rule same_but_ok [OF same assms(1)])
    show ?thesis
    proof (cases f)
      case (Some g)
      with assms(3) run k have "d' = d1" by (simp add: save_run_append)
      with load same same_but_lookup show ?thesis by blast
    next
      case None
      then have w: "map_of (d_files d1) ?temp = Some (written d x)" using save_body_written run by simp
      have ren: "os_Rename ?temp (st_Pointer x) d1 = (None, d') \<and> r = None \<or> d' = d1"
        using assms(3) run k None by (auto simp: save_run_append os_Rename_def split: option.splits if_splits prod.splits)
      show ?thesis
      proof (cases "d' = d1")
        case True
        with load same same_but_lookup show ?thesis by blast
      next
        case False
        with ren w have d': "d' = d1\<lparr>d_files := gput (st_Pointer x) (written d x) (gdel ?temp (d_files d1))\<rparr>" "r = None"
          by (auto simp: os_Rename_def split: option.splits if_splits)
        have "file_Load (st_Pointer x) d' = Inr (state_image x)"
          using ok1 assms(2) by (simp add: d' file_Load_def os_ReadFile_def decoded_state_def written_def disk_ok_def)
        moreover have "map_of (d_files d') n = map_of (d_files d) n" if "n \<noteq> ?temp" "n \<noteq> st_Pointer x" for n
          using that same_but_lookup [OF same] by (simp add: d')
        ultimately show ?thesis using \<open>\<not> k < 6\<close> d'(2) by simp
      qed
    qed
  qed
qed

theorem a_crash_never_tears_a_save_witness:
  "file_Load ''res-1'' (snd (save_run ''.tmp-7'' (parked\<lparr>st_Reason := ''new''\<rparr>) (take 2 save_script) parked_disk)) = Inr parked"
proof -
  have p: "d_temp parked_disk (d_files parked_disk) = ''.tmp-7''" "st_Pointer (parked\<lparr>st_Reason := ''new''\<rparr>) = ''res-1''"
    by (simp_all add: parked_disk_def sample_disk_def parked_def)
  have "file_Load ''res-1'' parked_disk = Inr parked"
    using native_state_image [OF parked_native] parked_pointer
    by (simp add: file_Load_def os_ReadFile_def parked_disk_def sample_disk_def written_def decoded_state_def parked_def)
  with a_crash_never_tears_a_save [OF sample_disk_ok(2), of "parked\<lparr>st_Reason := ''new''\<rparr>" 2, OF _ surjective_pairing] parked_pointer
  show ?thesis unfolding p by auto
qed

text \<open>
  C22. A saved state comes back as it was, whether it is only read or claimed, if its texts are ASCII
  and its context holds what \<open>json.Unmarshal\<close> itself produces: nil, booleans, texts, finite
  \<open>float64\<close>s, and arrays and objects of these.
\<close>

theorem saved_states_come_back:
  assumes "disk_ok d" and "native_state x" and "file_Save x d = (None, d')"
  shows "file_Load (st_Pointer x) d' = Inr x \<and> fst (file_Consume (st_Pointer x) d') = Inr x"
proof -
  have ok: "disk_ok d'" and "file_pending d' (st_Pointer x) = Some (state_image x)"
    using file_Save_contract [OF assms(1,3)] by simp_all
  moreover have "checkPointer (st_Pointer x) = None"
    using assms(3) by (simp add: file_Save_def split: option.splits)
  ultimately have "file_pending d' (st_Pointer x) = Some x" by (simp add: native_state_image assms(2))
  with ok show ?thesis
    using file_Load_pending(1) [OF ok] file_Consume_contract(1) [OF ok surjective_pairing] by simp
qed

theorem saved_states_come_back_witness:
  "file_Load ''res-1'' (snd (file_Save parked sample_disk)) = Inr parked"
proof -
  have "member_unsupported (st_Ctx parked) = None" by (simp add: parked_def)
  moreover have "checkPointer (st_Pointer parked) = None" using parked_pointer by (simp add: parked_def)
  ultimately have "fst (file_Save parked sample_disk) = None"
    by (simp add: file_Save_def Let_def sample_disk_def save_script_def fault_or_def os_Rename_def)
  then have "file_Save parked sample_disk = (None, snd (file_Save parked sample_disk))" by (metis surjective_pairing)
  from saved_states_come_back [OF sample_disk_ok(1) parked_native this]
  show ?thesis by (simp add: parked_def)
qed

section \<open>Claims\<close>

lemma dropWhile_dot:
  "CHR ''.'' \<notin> set s \<Longrightarrow> dropWhile (\<lambda>c. c \<noteq> CHR ''.'') (rev (p @ CHR ''.'' # s)) = CHR ''.'' # rev p"
  by (simp add: dropWhile_append)

lemma hex_digit_no_dot: "n < 16 \<Longrightarrow> CHR ''.'' \<noteq> hex_digit n"
proof
  assume n: "n < 16" "CHR ''.'' = hex_digit n"
  then have "of_char (CHR ''.'') = (of_char (hex_digit n) :: nat)" by simp
  with n(1) show False by (simp add: hex_digit_def split: if_splits)
qed

lemma hex_encode_no_dot: "CHR ''.'' \<notin> set (hex_encode buf)"
proof -
  have "unat (b :: 8 word) div 16 < 16" for b using unsigned_less [of b] by (simp add: div_less_iff_less_mult)
  then show ?thesis using hex_digit_no_dot by (fastforce simp: hex_encode_def)
qed

lemma pointerFromClaim_claim:
  "CHR ''.'' \<notin> set s \<Longrightarrow> pointerFromClaim (p @ ''.'' @ s @ claimExt) = p"
proof -
  assume s: "CHR ''.'' \<notin> set s"
  have "trim_suffix (p @ ''.'' @ s @ claimExt) claimExt = p @ CHR ''.'' # s"
    using trim_suffix_append [of "p @ CHR ''.'' # s" claimExt] by simp
  with dropWhile_dot [OF s, of p] show ?thesis by (simp add: pointerFromClaim_def)
qed

text \<open>A claim's file among the claims, as \<open>Orphaned\<close> and \<open>Release\<close> look for it.\<close>

lemma claim_listed:
  "map_of (d_files d) (p @ ''.'' @ s @ claimExt) = Some f \<Longrightarrow> p @ ''.'' @ s @ claimExt \<in> set (all_claims d)"
  using has_suffix_append [of "p @ ''.'' @ s" claimExt] by (auto simp: all_claims_def set_gkeys domIff)

lemma orphan_of_claim:
  assumes "d_fault d (OsStat n) = None" and "map_of (d_files d) n = Some f" and "f_ModTime f \<le> d_now d - minAge"
    and "d_fault d (OsReadFile n) = None" and "\<not> f_IsDir f" and "n \<in> set (all_claims d)"
  shows "\<lparr>orphan_Pointer = pointerFromClaim n, orphan_ClaimedAt = f_ModTime f, orphan_State = snd (f_decoded f)\<rparr>
           \<in> set (Orphaned minAge d)"
proof -
  have "orphan_of (d_now d - minAge) d n =
      [\<lparr>orphan_Pointer = pointerFromClaim n, orphan_ClaimedAt = f_ModTime f, orphan_State = snd (f_decoded f)\<rparr>]"
    using assms by (simp add: orphan_of_def os_ReadFile_def)
  with assms(6) show ?thesis unfolding Orphaned_def by force
qed

text \<open>What an operation may change: files, and how many random draws there were.\<close>

definition disk_frame :: "directory \<Rightarrow> directory \<Rightarrow> bool" where
  "disk_frame d d' \<longleftrightarrow> d' = d\<lparr>d_files := d_files d', d_draws := d_draws d'\<rparr> \<and> d_draws d \<le> d_draws d'"

lemma disk_frame_trans: "disk_frame d d1 \<Longrightarrow> disk_frame d1 d2 \<Longrightarrow> disk_frame d d2"
  by (cases d; cases d1; cases d2) (simp add: disk_frame_def)

lemma disk_frame_eq: "disk_frame d d' \<Longrightarrow> d_fault d' = d_fault d \<and> d_now d' = d_now d \<and> d_rand d' = d_rand d"
  by (cases d; cases d') (simp add: disk_frame_def)

lemma same_but_frame: "same_but n d d' \<Longrightarrow> disk_frame d d'"
  by (cases d; cases d') (simp add: disk_frame_def same_but_def)

lemma pointers_apart:
  assumes "checkPointer p = None" and "checkPointer q = None" and "p \<noteq> q"
  shows "\<not> has_prefix (p @ ''.'' @ s) (q @ ''.'')"
proof
  assume "has_prefix (p @ ''.'' @ s) (q @ ''.'')"
  then obtain r where "p @ CHR ''.'' # s = q @ CHR ''.'' # r" by (auto simp: has_prefix_iff)
  moreover have "CHR ''.'' \<notin> set p" "CHR ''.'' \<notin> set q" using assms(1,2) dotted_not_pointer by metis+
  moreover have "takeWhile (\<lambda>c. c \<noteq> CHR ''.'') (t @ CHR ''.'' # u) = t" if "CHR ''.'' \<notin> set t" for t u
    using that by (induction t) auto
  ultimately have "p = q" by metis
  with assms(3) show False by simp
qed

lemma remove_claims_keeps:
  "n \<notin> set ns \<Longrightarrow> remove_claims p ns d = (r, d') \<Longrightarrow>
   map_of (d_files d') n = map_of (d_files d) n \<and> disk_frame d d'"
proof (induction ns arbitrary: d)
  case Nil
  then show ?case by (cases d) (simp add: disk_frame_def)
next
  case (Cons m ns)
  obtain e d1 where rm: "os_Remove m d = (e, d1)" by force
  have same: "same_but m d d1" by (rule os_Remove_same [OF rm])
  have one: "map_of (d_files d1) n = map_of (d_files d) n" "disk_frame d d1"
    using same_but_lookup [OF same] same_but_frame [OF same] Cons.prems(1) by auto
  have "d' = d1 \<or> remove_claims p ns d1 = (r, d')"
    using Cons.prems(2) rm by (auto split: option.splits os_error.splits)
  with Cons.IH [of d1] Cons.prems(1) one disk_frame_trans show ?case by auto
qed

lemma hex_digit_inj: "m < 16 \<Longrightarrow> n < 16 \<Longrightarrow> hex_digit m = hex_digit n \<Longrightarrow> m = n"
proof -
  assume mn: "m < 16" "n < 16" "hex_digit m = hex_digit n"
  then have "of_char (hex_digit m) = (of_char (hex_digit n) :: nat)" by simp
  with mn(1,2) show ?thesis by (auto simp: hex_digit_def split: if_splits)
qed

lemma hex_encode_inj: "hex_encode a = hex_encode b \<Longrightarrow> a = b"
proof (induction a arbitrary: b)
  case Nil
  then show ?case by (cases b) (simp_all add: hex_encode_def)
next
  case (Cons x a)
  obtain y c where b: "b = y # c" using Cons.prems by (cases b) (simp_all add: hex_encode_def)
  have lt: "unat z div 16 < 16" for z :: "8 word" using unsigned_less [of z] by (simp add: div_less_iff_less_mult)
  have "unat x div 16 = unat y div 16" "unat x mod 16 = unat y mod 16" and tl: "hex_encode a = hex_encode c"
    using Cons.prems hex_digit_inj [OF lt [of x] lt [of y]] hex_digit_inj [of "unat x mod 16" "unat y mod 16"]
    by (auto simp: b hex_encode_def)
  then have "unat x = unat y" by (metis div_mult_mod_eq)
  with Cons.IH [OF tl] show ?case by (simp add: b word_unat_eq_iff)
qed

lemma file_Save_keeps:
  assumes "disk_ok d" and "file_Save x d = (r, d')" and "CHR ''.'' \<in> set n" and "\<not> has_prefix n ''.tmp-''"
  shows "map_of (d_files d') n = map_of (d_files d) n \<and> disk_frame d d'"
proof -
  let ?temp = "d_temp d (d_files d)"
  have temp: "n \<noteq> ?temp" using assms(1,4) by (auto simp: disk_ok_def)
  from assms(2) show ?thesis
  proof (cases rule: file_Save_cases)
    case (failed e)
    then show ?thesis using same_but_lookup [OF failed(2) temp] same_but_frame by blast
  next
    case (saved d1)
    let ?d2 = "d1\<lparr>d_files := gput (st_Pointer x) (written d x) (gdel ?temp (d_files d1))\<rparr>"
    have "n \<noteq> st_Pointer x" using saved(2) assms(3) dotted_not_pointer by metis
    then have "map_of (d_files d') n = map_of (d_files d) n"
      using same_but_lookup [OF saved(3) temp] same_but_lookup [OF saved(4) temp] temp by simp
    moreover have "disk_frame d1 ?d2" by (cases d1) (simp add: disk_frame_def)
    ultimately show ?thesis
      using same_but_frame [OF saved(3)] same_but_frame [OF saved(4)] disk_frame_trans by blast
  qed
qed

lemma file_Consume_keeps:
  assumes "disk_ok d" and "file_Consume q d = (r, d')" and "CHR ''.'' \<in> set n"
    and "d_draws d' = Suc (d_draws d) \<Longrightarrow> n \<noteq> q @ ''.'' @ hex_encode (projr (d_rand d (d_draws d))) @ claimExt"
  shows "map_of (d_files d') n = map_of (d_files d) n \<and> disk_frame d d'"
proof (cases "checkPointer q")
  case (Some e)
  with assms(2) have "d' = d" by (simp add: file_Consume_def)
  then show ?thesis by (cases d) (simp add: disk_frame_def)
next
  case ok: None
  then have "n \<noteq> q" using assms(3) dotted_not_pointer by metis
  from assms(1) ok assms(2) show ?thesis
  proof (cases rule: file_Consume_cases)
    case missing
    then show ?thesis by (cases d) (simp add: disk_frame_def)
  next
    case (claimed f buf)
    then have "n \<noteq> q @ ''.'' @ hex_encode buf @ claimExt" using assms(4) by simp
    with \<open>n \<noteq> q\<close> show ?thesis by (cases d) (simp add: claimed(4) disk_frame_def)
  qed
qed

lemma call_frame:
  assumes "disk_ok d" and "store_call file_store op d = (ok, d')"
  shows "disk_frame d d'"
proof (cases op)
  case (OpSave x)
  with assms(2) have "file_Save x d = (fst (file_Save x d), d')" by (simp add: file_store_def prod_eq_iff)
  with file_Save_keeps [OF assms(1) this, of "''.''"] show ?thesis by (simp add: has_prefix_def)
next
  case (OpLoad p)
  with assms(2) show ?thesis by (cases d) (simp add: disk_frame_def)
next
  case (OpConsume p)
  with assms(2) have "file_Consume p d = (fst (file_Consume p d), d')" by (simp add: file_store_def prod_eq_iff)
  with file_Consume_keeps [OF assms(1) this, of "''.''"] show ?thesis by (simp add: claimExt_def)
next
  case (OpRelease p)
  have "''.'' \<notin> set (claims_on p d)" by (simp add: claims_on_def claimExt_def)
  from remove_claims_keeps [OF this surjective_pairing] have "disk_frame d (snd (remove_claims p (claims_on p d) d))"
    by blast
  moreover have "disk_frame d d" by (cases d) (simp add: disk_frame_def)
  ultimately show ?thesis
    using OpRelease assms(2) by (auto simp: file_store_def file_Release_def split: option.splits)
qed

lemma run_frame: "disk_ok d \<Longrightarrow> store_run file_store ops d = (rs, d') \<Longrightarrow> disk_frame d d'"
proof (induction ops arbitrary: d rs)
  case Nil
  then show ?case by (cases d) (simp add: disk_frame_def)
next
  case (Cons op ops)
  obtain ok d1 where c: "store_call file_store op d = (ok, d1)" by force
  have "disk_ok d1" using disk.call_inv [OF Cons.prems(1), of op] c by simp
  then have "disk_frame d1 d'" using Cons.IH Cons.prems(2) c by (auto split: prod.splits)
  with call_frame [OF Cons.prems(1) c] show ?case by (rule disk_frame_trans)
qed

lemma disk_frame_draws: "disk_frame d d' \<Longrightarrow> d_draws d \<le> d_draws d'"
  by (simp add: disk_frame_def)

text \<open>The file of a claim of \<open>p\<close> stays until \<open>p\<close> is released, as long as random suffixes differ.\<close>

lemma call_keeps_claim:
  assumes p: "checkPointer p = None" and ok: "disk_ok d" and c: "store_call file_store op d = (b, d')"
    and op: "op \<noteq> OpRelease p" and fresh: "d_draws d < d_draws d' \<Longrightarrow> d_rand d (d_draws d) \<noteq> Inr buf"
  shows "map_of (d_files d') (p @ ''.'' @ hex_encode buf @ claimExt) = map_of (d_files d) (p @ ''.'' @ hex_encode buf @ claimExt)"
proof (cases op)
  case (OpSave x)
  have tmp: "\<not> has_prefix (p @ ''.'' @ hex_encode buf @ claimExt) ''.tmp-''"
    using p dotted_not_pointer [of p] by (cases p) (auto simp: has_prefix_def checkPointer_def)
  from OpSave c have "file_Save x d = (fst (file_Save x d), d')" by (simp add: file_store_def prod_eq_iff)
  with file_Save_keeps [OF ok this _ tmp] show ?thesis by simp
next
  case (OpLoad q)
  with c show ?thesis by simp
next
  case (OpConsume q)
  then have cq: "file_Consume q d = (fst (file_Consume q d), d')" using c by (simp add: file_store_def prod_eq_iff)
  have "p @ ''.'' @ hex_encode buf @ claimExt \<noteq> q @ ''.'' @ hex_encode (projr (d_rand d (d_draws d))) @ claimExt"
    if more: "d_draws d' = Suc (d_draws d)" and q: "checkPointer q = None"
  proof
    assume eq: "p @ ''.'' @ hex_encode buf @ claimExt = q @ ''.'' @ hex_encode (projr (d_rand d (d_draws d))) @ claimExt"
    then have "has_prefix (p @ ''.'' @ hex_encode buf @ claimExt) (q @ ''.'')"
      unfolding has_prefix_iff by (metis append.assoc)
    then have "p = q" using pointers_apart [OF p q] by blast
    with eq have "projr (d_rand d (d_draws d)) = buf" using hex_encode_inj by simp
    moreover have "\<not> isl (d_rand d (d_draws d))" using ok by (simp add: disk_ok_def)
    ultimately show False using fresh more by (cases "d_rand d (d_draws d)") auto
  qed
  with file_Consume_keeps [OF ok cq, of "p @ ''.'' @ hex_encode buf @ claimExt"] cq show ?thesis
    by (cases "checkPointer q") (auto simp: file_Consume_def)
next
  case (OpRelease q)
  with op have "q \<noteq> p" by simp
  then have new: "p @ ''.'' @ hex_encode buf @ claimExt \<notin> set (claims_on q d)" if "checkPointer q = None"
    using pointers_apart [OF p that, of "hex_encode buf @ claimExt"] by (auto simp: claims_on_def)
  have d': "d' = snd (file_Release q d)" using OpRelease c by (simp add: file_store_def)
  show ?thesis
  proof (cases "checkPointer q")
    case (Some e)
    then show ?thesis by (simp add: d' file_Release_def)
  next
    case None
    then have "d' = snd (remove_claims q (claims_on q d) d)" by (simp add: d' file_Release_def)
    with remove_claims_keeps [OF new [OF None] surjective_pairing] show ?thesis by simp
  qed
qed

lemma run_keeps_claim:
  assumes p: "checkPointer p = None"
  shows "disk_ok d \<Longrightarrow> store_run file_store ops d = (rs, d') \<Longrightarrow> OpRelease p \<notin> set ops \<Longrightarrow>
    (\<And>i. d_draws d \<le> i \<Longrightarrow> i < d_draws d' \<Longrightarrow> d_rand d i \<noteq> Inr buf) \<Longrightarrow>
    map_of (d_files d') (p @ ''.'' @ hex_encode buf @ claimExt) = map_of (d_files d) (p @ ''.'' @ hex_encode buf @ claimExt)"
proof (induction ops arbitrary: d rs)
  case (Cons op ops)
  obtain ok d1 where c: "store_call file_store op d = (ok, d1)" by force
  obtain rs1 where r: "store_run file_store ops d1 = (rs1, d')" using Cons.prems(2) c by (auto split: prod.splits)
  have ok1: "disk_ok d1" using disk.call_inv [OF Cons.prems(1), of op] c by simp
  note f = call_frame [OF Cons.prems(1) c] run_frame [OF ok1 r]
  have "op \<noteq> OpRelease p" "OpRelease p \<notin> set ops" using Cons.prems(3) by auto
  moreover have "d_draws d < d_draws d1 \<Longrightarrow> d_rand d (d_draws d) \<noteq> Inr buf"
    using Cons.prems(4) [of "d_draws d"] disk_frame_draws [OF f(2)] by simp
  moreover have "d_rand d1 i \<noteq> Inr buf" if "d_draws d1 \<le> i" "i < d_draws d'" for i
    using Cons.prems(4) [of i] that disk_frame_draws [OF f(1)] disk_frame_eq [OF f(1)] by simp
  ultimately show ?case
    using call_keeps_claim [OF p Cons.prems(1) c] Cons.IH [OF ok1 r] by simp
qed simp

lemma Orphaned_old: "orp \<in> set (Orphaned minAge d) \<Longrightarrow> orphan_ClaimedAt orp \<le> d_now d - minAge"
  by (auto simp: Orphaned_def orphan_of_def split: option.splits if_splits)

text \<open>
  C23. A claim is not lost before it is released. Once a parked run is claimed, and whatever is saved,
  loaded, claimed or released for other runs afterwards, \<open>Orphaned minAge\<close> lists it, with its pointer and
  the state the claimant was given, exactly from the time on at which \<open>minAge\<close> has passed since the run was
  saved (the listing's time of a claim is that of the save, since renaming a file keeps its time). This is
  on a disk that can be read and renamed on, with random suffixes that differ.
\<close>

theorem a_claim_is_recoverable:
  assumes "disk_ok d" and "map_of (d_files d) p = Some f" and "file_Consume p d = (Inr x, d1)"
    and "store_run file_store ops d1 = (rs, d2)" and "OpRelease p \<notin> set ops"
    and "\<forall>i. d_draws d < i \<and> i < d_draws d2 \<longrightarrow> d_rand d i \<noteq> d_rand d (d_draws d)"
    and "\<forall>n. d_fault d (OsStat n) = None"
  shows "\<lparr>orphan_Pointer = p, orphan_ClaimedAt = f_ModTime f, orphan_State = x\<rparr> \<in> set (Orphaned minAge (d2\<lparr>d_now := t\<rparr>))
    \<longleftrightarrow> f_ModTime f \<le> t - minAge"
proof
  assume "\<lparr>orphan_Pointer = p, orphan_ClaimedAt = f_ModTime f, orphan_State = x\<rparr> \<in> set (Orphaned minAge (d2\<lparr>d_now := t\<rparr>))"
  from Orphaned_old [OF this] show "f_ModTime f \<le> t - minAge" by simp
next
  assume old: "f_ModTime f \<le> t - minAge"
  have p: "checkPointer p = None" using assms(3) by (simp add: file_Consume_def split: option.splits)
  have ok1: "disk_ok d1" by (rule file_Consume_contract(4) [OF assms(1,3)])
  from assms(1) p assms(3)
  show "\<lparr>orphan_Pointer = p, orphan_ClaimedAt = f_ModTime f, orphan_State = x\<rparr> \<in> set (Orphaned minAge (d2\<lparr>d_now := t\<rparr>))"
  proof (cases rule: file_Consume_cases)
    case missing
    then show ?thesis by simp
  next
    case (claimed g buf)
    let ?claim = "p @ ''.'' @ hex_encode buf @ claimExt" and ?d = "d2\<lparr>d_now := t\<rparr>"
    have g: "g = f" using claimed(1) assms(2) by simp
    have draws: "d_draws d1 = Suc (d_draws d)" "d_rand d1 = d_rand d" "d_fault d1 = d_fault d" by (simp_all add: claimed(4))
    have "map_of (d_files d2) ?claim = map_of (d_files d1) ?claim"
      by (rule run_keeps_claim [OF p ok1 assms(4,5)]) (use draws assms(6) claimed(2) in auto)
    then have at: "map_of (d_files ?d) ?claim = Some f" by (simp add: claimed(4) g)
    have same: "d_fault ?d = d_fault d" using disk_frame_eq [OF run_frame [OF ok1 assms(4)]] draws by simp
    have "\<not> f_IsDir f" using assms(1) claimed(1) g unfolding disk_ok_def plain_def by (metis option.simps(5))
    with orphan_of_claim [of ?d ?claim f minAge] at same old claim_listed [OF at] assms(1,7)
    have "\<lparr>orphan_Pointer = pointerFromClaim ?claim, orphan_ClaimedAt = f_ModTime f, orphan_State = snd (f_decoded f)\<rparr>
        \<in> set (Orphaned minAge ?d)" by (simp add: disk_ok_def)
    moreover have "snd (f_decoded f) = x"
      using claimed(3) g by (auto simp: decoded_state_def split: prod.splits option.splits)
    ultimately show ?thesis using pointerFromClaim_claim [OF hex_encode_no_dot, of p buf] by simp
  qed
qed

lemma parked_claim:
  "file_Consume ''res-1'' parked_disk = (Inr parked, snd (file_Consume ''res-1'' parked_disk))"
proof -
  have "file_pending parked_disk ''res-1'' = Some parked"
    using native_state_image [OF parked_native] parked_pointer
    by (simp add: pending_at parked_disk_def written_def parked_def)
  from file_Consume_contract(1) [OF sample_disk_ok(2) surjective_pairing this] show ?thesis
    by (metis surjective_pairing)
qed

theorem a_claim_is_recoverable_witness:
  "\<lparr>orphan_Pointer = ''res-1'', orphan_ClaimedAt = 1000, orphan_State = parked\<rparr>
     \<in> set (Orphaned 3600 ((snd (file_Consume ''res-1'' parked_disk))\<lparr>d_now := 4600\<rparr>)) \<and>
   \<lparr>orphan_Pointer = ''res-1'', orphan_ClaimedAt = 1000, orphan_State = parked\<rparr>
     \<notin> set (Orphaned 3600 ((snd (file_Consume ''res-1'' parked_disk))\<lparr>d_now := 4599\<rparr>))"
proof -
  let ?d = "snd (file_Consume ''res-1'' parked_disk)"
  have run: "store_run file_store [] ?d = ([], ?d)" by simp
  have at: "map_of (d_files parked_disk) ''res-1'' = Some (written sample_disk parked)"
    and stat: "\<forall>n. d_fault parked_disk (OsStat n) = None" and time: "f_ModTime (written sample_disk parked) = 1000"
    by (simp_all add: parked_disk_def sample_disk_def written_def)
  have "d_draws ?d = Suc (d_draws parked_disk)"
    using sample_disk_ok(2) parked_pointer parked_claim by (rule file_Consume_cases) simp_all
  then have "\<forall>i. d_draws parked_disk < i \<and> i < d_draws ?d \<longrightarrow> d_rand parked_disk i \<noteq> d_rand parked_disk (d_draws parked_disk)"
    by auto
  from a_claim_is_recoverable [OF sample_disk_ok(2) at parked_claim run _ this stat] time show ?thesis by simp
qed

text \<open>
  The time of a claim is not the time it was made: renaming keeps a file's time, so \<open>ClaimedAt\<close> is
  when the run was saved, and a run that was parked for longer than \<open>minAge\<close> is reported as an orphan
  the moment it is claimed, while it is in flight.
\<close>

theorem fresh_claims_look_orphaned:
  assumes "disk_ok d" and "map_of (d_files d) p = Some f" and "f_decoded f = (None, x)" and "checkPointer p = None"
    and "f_ModTime f \<le> d_now d - minAge" and "\<forall>n. d_fault d (OsStat n) = None"
  shows "case file_Consume p d of (r, d') \<Rightarrow> r = Inr x \<and> d_now d' = d_now d \<and>
    \<lparr>orphan_Pointer = p, orphan_ClaimedAt = f_ModTime f, orphan_State = x\<rparr> \<in> set (Orphaned minAge d')"
proof -
  obtain r d' where c: "file_Consume p d = (r, d')" by force
  from assms(1,4) c show ?thesis
  proof (cases rule: file_Consume_cases)
    case missing
    with assms(2) show ?thesis by simp
  next
    case (claimed g buf)
    let ?claim = "p @ ''.'' @ hex_encode buf @ claimExt"
    have g: "g = f" using claimed(1) assms(2) by simp
    have at: "map_of (d_files d') ?claim = Some f" by (simp add: claimed(4) g)
    have same: "d_fault d' = d_fault d" "d_now d' = d_now d" by (simp_all add: claimed(4))
    have "\<not> f_IsDir f" using assms(1,2) unfolding disk_ok_def plain_def by (metis option.simps(5))
    with orphan_of_claim [of d' ?claim f minAge] at same claim_listed [OF at] assms(1,5,6)
    have "\<lparr>orphan_Pointer = pointerFromClaim ?claim, orphan_ClaimedAt = f_ModTime f, orphan_State = snd (f_decoded f)\<rparr>
        \<in> set (Orphaned minAge d')" by (simp add: disk_ok_def)
    with pointerFromClaim_claim [OF hex_encode_no_dot, of p buf] assms(3) claimed(3) g same(2) show ?thesis
      by (simp add: c decoded_state_def)
  qed
qed

theorem fresh_claims_look_orphaned_witness:
  "\<lparr>orphan_Pointer = ''res-1'', orphan_ClaimedAt = 1000, orphan_State = parked\<rparr>
     \<in> set (Orphaned 3600 (snd (file_Consume ''res-1'' (parked_disk\<lparr>d_now := 100000\<rparr>))))"
proof -
  let ?d = "parked_disk\<lparr>d_now := 100000\<rparr>"
  have ok: "disk_ok ?d" using sample_disk_ok(2) by (simp add: disk_ok_def)
  have f: "map_of (d_files ?d) ''res-1'' = Some (written sample_disk parked)" by (simp add: parked_disk_def)
  have x: "f_decoded (written sample_disk parked) = (None, parked)"
    using native_state_image [OF parked_native] parked_pointer by (simp add: written_def parked_def)
  have "case file_Consume ''res-1'' ?d of (r, d') \<Rightarrow> r = Inr parked \<and> d_now d' = d_now ?d \<and>
    \<lparr>orphan_Pointer = ''res-1'', orphan_ClaimedAt = f_ModTime (written sample_disk parked), orphan_State = parked\<rparr>
      \<in> set (Orphaned 3600 d')"
    by (rule fresh_claims_look_orphaned [OF ok f x parked_pointer])
      (simp_all add: written_def parked_disk_def sample_disk_def)
  then show ?thesis by (auto simp: written_def sample_disk_def)
qed

end
