(* ===== verification/Metrics.thy ===== *)
theory Metrics
  imports Floats Engine
begin

text \<open>
  What a deployment measures (\<open>scorecard/scorecard.go\<close>, \<open>diagnostics/diagnostics.go\<close>): recorders that
  count what the engine, the router and the extractor report, and the ratios and texts made of the
  counts. A recorder is fed the engine's event log, one operation per event; the mutexes make each
  operation atomic. Counters are natural numbers: no deployment counts to \<open>2 ^ 63\<close>. Times are
  nanoseconds.
\<close>

section \<open>Numbers in texts\<close>

text \<open>\<open>%.0f\<close>: the nearest integer, half to even.\<close>

fun fmt_f0 :: "float64 \<Rightarrow> string" where
  "fmt_f0 NaN = ''NaN''"
| "fmt_f0 (Inf neg) = (if neg then ''-Inf'' else ''+Inf'')"
| "fmt_f0 (Fin q) = show_int (round_rat q)"

definition percent :: "float64 \<Rightarrow> string" where
  "percent x = fmt_f0 (f64_mul x (Fin 100)) @ ''%''"

text \<open>\<open>time.Duration\<close>: \<open>Round\<close> to microseconds, and \<open>String\<close>, for a span that is not negative.\<close>

definition round_micro :: "nat \<Rightarrow> nat" where
  "round_micro d = (let r = d mod 1000 in if r + r < 1000 then d - r else d + 1000 - r)"

definition frac_text :: "nat \<Rightarrow> nat \<Rightarrow> string" where
  "frac_text prec v =
     (let ds = digits_of (v mod 10 ^ prec);
          kept = trim_right_by (\<lambda>c. c = CHR ''0'') (replicate (prec - length ds) (CHR ''0'') @ ds) in
      if kept = [] then [] else CHR ''.'' # kept)"

definition duration_String :: "nat \<Rightarrow> string" where
  "duration_String d =
     (if d = 0 then ''0s''
      else if d < 1000 then digits_of d @ ''ns''
      else if d < 1000000 then digits_of (d div 1000) @ frac_text 3 d @ [CHR 0xC2, CHR 0xB5, CHR ''s'']
      else if d < 1000000000 then digits_of (d div 1000000) @ frac_text 6 d @ ''ms''
      else
        (let s = d div 1000000000; m = s div 60; h = m div 60 in
         (if 0 < h then digits_of h @ ''h'' else []) @ (if 0 < m then digits_of (m mod 60) @ ''m'' else []) @
         digits_of (s mod 60) @ frac_text 9 d @ ''s''))"

section \<open>The scorecard of a run\<close>

record scorecard =
  sc_WorkflowID :: string
  sc_DeterministicSteps :: nat
  sc_LLMCalls :: nat
  sc_SandboxProbes :: nat
  sc_CircuitBreakerTrips :: nat
  sc_Duration :: nat

definition CognitiveOps :: "scorecard \<Rightarrow> nat" where
  "CognitiveOps s = sc_DeterministicSteps s + sc_LLMCalls s"

definition DeterminismRatio :: "scorecard \<Rightarrow> float64" where
  "DeterminismRatio s =
     (if CognitiveOps s = 0 then Fin 1
      else f64_div (f64_of_nat (sc_DeterministicSteps s)) (f64_of_nat (CognitiveOps s)))"

definition LLMCallsEliminatedVsAgent :: "scorecard \<Rightarrow> nat" where
  "LLMCallsEliminatedVsAgent s = sc_DeterministicSteps s"

definition scorecard_String :: "scorecard \<Rightarrow> string" where
  "scorecard_String s =
     ''scorecard['' @ sc_WorkflowID s @ '']: determinism '' @ percent (DeterminismRatio s) @ '' ('' @
     digits_of (sc_DeterministicSteps s) @ '' deterministic steps, '' @ digits_of (sc_LLMCalls s) @
     '' LLM calls), '' @ digits_of (sc_SandboxProbes s) @ '' sandbox probes, '' @
     digits_of (sc_CircuitBreakerTrips s) @ '' breaker trips, '' @ duration_String (round_micro (sc_Duration s)) @
     ''; vs a per-step agent this eliminated '' @ digits_of (LLMCallsEliminatedVsAgent s) @ '' LLM calls''"

record score_recorder =
  sr_start :: int
  sr_deterministicSteps :: nat
  sr_llmCalls :: nat
  sr_sandboxProbes :: nat
  sr_circuitBreakerTrips :: nat

definition score_NewRecorder :: "int \<Rightarrow> score_recorder" where
  "score_NewRecorder now =
     \<lparr>sr_start = now, sr_deterministicSteps = 0, sr_llmCalls = 0, sr_sandboxProbes = 0, sr_circuitBreakerTrips = 0\<rparr>"

definition score_ObserveStep :: "score_recorder \<Rightarrow> score_recorder" where
  "score_ObserveStep r = r\<lparr>sr_deterministicSteps := sr_deterministicSteps r + 1\<rparr>"

definition score_ObserveSandboxProbe :: "score_recorder \<Rightarrow> score_recorder" where
  "score_ObserveSandboxProbe r = r\<lparr>sr_sandboxProbes := sr_sandboxProbes r + 1\<rparr>"

definition score_ObserveCircuitBreaker :: "score_recorder \<Rightarrow> score_recorder" where
  "score_ObserveCircuitBreaker r = r\<lparr>sr_circuitBreakerTrips := sr_circuitBreakerTrips r + 1\<rparr>"

definition score_ObserveExtraction :: "score_recorder \<Rightarrow> score_recorder" where
  "score_ObserveExtraction r = r\<lparr>sr_llmCalls := sr_llmCalls r + 1\<rparr>"

definition Snapshot :: "string \<Rightarrow> int \<Rightarrow> score_recorder \<Rightarrow> scorecard" where
  "Snapshot workflowID now r =
     \<lparr>sc_WorkflowID = workflowID, sc_DeterministicSteps = sr_deterministicSteps r, sc_LLMCalls = sr_llmCalls r,
      sc_SandboxProbes = sr_sandboxProbes r, sc_CircuitBreakerTrips = sr_circuitBreakerTrips r,
      sc_Duration = nat (now - sr_start r)\<rparr>"

text \<open>The recorder as the engine's observer: it implements none of the optional interfaces.\<close>

definition score_observer :: observer where
  "score_observer = \<lparr>obs_ProbeOutcome = False, obs_Suspension = False\<rparr>"

fun score_event :: "event \<Rightarrow> score_recorder \<Rightarrow> score_recorder" where
  "score_event (ObserveStep _ _) r = score_ObserveStep r"
| "score_event (ObserveSandboxProbe _ _) r = score_ObserveSandboxProbe r"
| "score_event (ObserveCircuitBreaker _ _) r = score_ObserveCircuitBreaker r"
| "score_event _ r = r"

section \<open>Diagnostics over many runs\<close>

record diagnostics =
  dg_IntentMatches :: nat
  dg_IntentMisses :: nat
  dg_ProbesRun :: nat
  dg_ProbesRefused :: nat
  dg_Runs :: nat
  dg_Suspensions :: nat
  dg_BreakerTrips :: nat

definition rate :: "nat \<Rightarrow> nat \<Rightarrow> float64" where
  "rate part whole = (if whole = 0 then Fin 0 else f64_div (f64_of_nat part) (f64_of_nat whole))"

definition IntentMissRate :: "diagnostics \<Rightarrow> float64" where
  "IntentMissRate r = rate (dg_IntentMisses r) (dg_IntentMatches r + dg_IntentMisses r)"

definition ProbeRefusalRate :: "diagnostics \<Rightarrow> float64" where
  "ProbeRefusalRate r = rate (dg_ProbesRefused r) (dg_ProbesRun r)"

definition EscalationRate :: "diagnostics \<Rightarrow> float64" where
  "EscalationRate r = rate (dg_Suspensions r) (dg_Runs r)"

definition of_text :: "nat \<Rightarrow> nat \<Rightarrow> string" where
  "of_text part whole = '' ('' @ digits_of part @ '' of '' @ digits_of whole"

definition diagnostics_String :: "diagnostics \<Rightarrow> string" where
  "diagnostics_String r =
     ''diagnostics: intent miss '' @ percent (IntentMissRate r) @
     of_text (dg_IntentMisses r) (dg_IntentMatches r + dg_IntentMisses r) @
     ''), probe refusal '' @ percent (ProbeRefusalRate r) @ of_text (dg_ProbesRefused r) (dg_ProbesRun r) @
     ''), escalation '' @ percent (EscalationRate r) @ of_text (dg_Suspensions r) (dg_Runs r) @
     '' runs), '' @ digits_of (dg_BreakerTrips r) @ '' breaker trips''"

definition diag_NewRecorder :: diagnostics where
  "diag_NewRecorder = \<lparr>dg_IntentMatches = 0, dg_IntentMisses = 0, dg_ProbesRun = 0, dg_ProbesRefused = 0,
     dg_Runs = 0, dg_Suspensions = 0, dg_BreakerTrips = 0\<rparr>"

definition diag_ObserveRun :: "diagnostics \<Rightarrow> diagnostics" where
  "diag_ObserveRun r = r\<lparr>dg_Runs := dg_Runs r + 1\<rparr>"

definition diag_ObserveMatch :: "bool \<Rightarrow> diagnostics \<Rightarrow> diagnostics" where
  "diag_ObserveMatch matched r =
     (if matched then r\<lparr>dg_IntentMatches := dg_IntentMatches r + 1\<rparr>
      else r\<lparr>dg_IntentMisses := dg_IntentMisses r + 1\<rparr>)"

definition diag_ObserveProbeOutcome :: "bool \<Rightarrow> diagnostics \<Rightarrow> diagnostics" where
  "diag_ObserveProbeOutcome healthy r =
     (let r1 = r\<lparr>dg_ProbesRun := dg_ProbesRun r + 1\<rparr> in
      if \<not> healthy then r1\<lparr>dg_ProbesRefused := dg_ProbesRefused r1 + 1\<rparr> else r1)"

definition diag_ObserveSuspension :: "diagnostics \<Rightarrow> diagnostics" where
  "diag_ObserveSuspension r = r\<lparr>dg_Suspensions := dg_Suspensions r + 1\<rparr>"

definition diag_ObserveCircuitBreaker :: "diagnostics \<Rightarrow> diagnostics" where
  "diag_ObserveCircuitBreaker r = r\<lparr>dg_BreakerTrips := dg_BreakerTrips r + 1\<rparr>"

text \<open>\<open>ObserveStep\<close> and \<open>ObserveSandboxProbe\<close> complete the interface and count nothing.\<close>

fun diag_event :: "event \<Rightarrow> diagnostics \<Rightarrow> diagnostics" where
  "diag_event (ObserveStep _ _) r = r"
| "diag_event (ObserveSandboxProbe _ _) r = r"
| "diag_event (ObserveCircuitBreaker _ _) r = diag_ObserveCircuitBreaker r"
| "diag_event (ObserveProbeOutcome _ _ healthy) r = diag_ObserveProbeOutcome healthy r"
| "diag_event (ObserveSuspension _ _) r = diag_ObserveSuspension r"

definition diag_observer :: observer where
  "diag_observer = \<lparr>obs_ProbeOutcome = True, obs_Suspension = True\<rparr>"

end
