(* ===== verification/MetricsFacts.thy ===== *)
theory MetricsFacts
  imports Metrics EngineFacts Samples
begin

text \<open>
  What the numbers mean: the shares a recorder reports lie between zero and one, and a run counts as
  one escalation exactly when it ends parked.
\<close>

section \<open>Shares\<close>

lemma round_rat_le: "q \<le> of_int k \<Longrightarrow> round_rat q \<le> k"
proof -
  assume q: "q \<le> of_int k"
  then have f: "\<lfloor>q\<rfloor> \<le> k" by (metis floor_mono floor_of_int)
  show ?thesis
  proof (cases "\<lfloor>q\<rfloor> = k")
    case True
    with q have "q = of_int k" by (metis antisym of_int_floor_le)
    then show ?thesis by (simp add: round_rat_def Let_def)
  next
    case False
    with f show ?thesis by (auto simp: round_rat_def Let_def)
  qed
qed

lemma round_rat_ge: "of_int k \<le> q \<Longrightarrow> k \<le> round_rat q"
proof -
  assume "of_int k \<le> q"
  then have "k \<le> \<lfloor>q\<rfloor>" by (simp add: le_floor_iff)
  then show ?thesis by (simp add: round_rat_def Let_def)
qed

lemma bits_of_mono: "m \<le> n \<Longrightarrow> bits_of m \<le> bits_of n"
proof (induction m arbitrary: n rule: bits_of.induct)
  case (1 m)
  show ?case
  proof (cases "m = 0")
    case False
    with "1.prems" have "bits_of (m div 2) \<le> bits_of (n div 2)" by (intro "1.IH") (auto intro: div_le_mono)
    with False "1.prems" show ?thesis by (simp add: bits_of.simps [of m] bits_of.simps [of n])
  qed (simp add: bits_of.simps)
qed

lemma ilog2_unit: "0 < q \<Longrightarrow> q \<le> 1 \<Longrightarrow> ilog2 q \<le> 0"
proof -
  assume q: "0 < q" "q \<le> 1"
  obtain a b where ab: "quotient_of q = (a, b)" by force
  then have "0 < b" "q = of_int a / of_int b" using quotient_of_denom_pos quotient_of_div by blast+
  with q have "0 < a" "a \<le> b" by (simp_all add: zero_less_divide_iff divide_le_eq_1)
  then have "bits_of (nat a) \<le> bits_of (nat b)" by (intro bits_of_mono) simp
  then show ?thesis by (simp add: ilog2_def ab Let_def)
qed

lemma round64_unit: "0 \<le> q \<Longrightarrow> q \<le> 1 \<Longrightarrow> \<exists>x. round64 q = Fin x \<and> 0 \<le> x \<and> x \<le> 1"
proof (cases "q = 0")
  case False
  assume q: "0 \<le> q" "q \<le> 1"
  with False have pos: "0 < q" by simp
  define e where "e = max (ilog2 q - 52) (- 1074)"
  define n where "n = nat (- e)"
  have "e \<le> 0" using ilog2_unit [OF pos q(2)] by (simp add: e_def)
  then have pow: "pow2 e = 1 / 2 ^ n" by (cases "e = 0") (simp_all add: pow2_def n_def)
  define k where "k = round_rat (q / pow2 e)"
  have "q / pow2 e \<le> of_int (2 ^ n)" using q(2) by (simp add: pow)
  then have hi: "k \<le> 2 ^ n" unfolding k_def by (rule round_rat_le)
  have lo: "0 \<le> k" unfolding k_def by (rule round_rat_ge) (simp add: pow q(1))
  have "of_int k \<le> (of_int (2 ^ n) :: rat)" using hi by (simp only: of_int_le_iff)
  then have m: "of_int k * pow2 e \<le> 1" by (simp add: pow)
  moreover have "(1 :: rat) < pow2 1024" by (simp add: pow2_def)
  ultimately have "\<not> pow2 1024 \<le> of_int k * pow2 e" by linarith
  moreover have "\<bar>q\<bar> = q" "q \<noteq> 0" "\<not> q < 0" using pos by simp_all
  ultimately have "round64 q = Fin (of_int k * pow2 e)"
    unfolding round64_def Let_def \<open>\<bar>q\<bar> = q\<close> e_def [symmetric] k_def [symmetric] by (simp only: if_False)
  with m lo show ?thesis by (auto simp: pow)
qed (simp add: round64_def)

definition share :: "float64 \<Rightarrow> bool" where
  "share x \<longleftrightarrow> f64_le (Fin 0) x \<and> f64_le x (Fin 1)"

lemma share_div: "m \<le> n \<Longrightarrow> n < 2 ^ 53 \<Longrightarrow> 0 < n \<Longrightarrow> share (f64_div (f64_of_nat m) (f64_of_nat n))"
proof -
  assume mn: "m \<le> n" "n < 2 ^ 53" "0 < n"
  then have "of_nat m / of_nat n \<le> (1 :: rat)" by (simp add: divide_le_eq_1)
  then obtain x where x: "round64 (of_nat m / of_nat n) = Fin x" "0 \<le> x" "x \<le> 1"
    using round64_unit [of "of_nat m / of_nat n"] by auto
  have "f64_div (f64_of_nat m) (f64_of_nat n) = Fin x"
    using mn x(1) by (simp add: f64_of_nat_small)
  with x(2,3) show ?thesis by (auto simp: share_def f64_le_def)
qed

lemma share_rate: "part \<le> whole \<Longrightarrow> whole < 2 ^ 53 \<Longrightarrow> share (rate part whole)"
  using share_div by (simp add: rate_def share_def f64_le_def)

section \<open>Escalations\<close>

fun is_suspension :: "event \<Rightarrow> bool" where
  "is_suspension (ObserveSuspension _ _) = True"
| "is_suspension _ = False"

definition suspensions :: "('w, 's) rt \<Rightarrow> nat" where
  "suspensions rt = length (filter is_suspension (rt_log rt))"

definition ends_parked :: "outcome \<Rightarrow> bool" where
  "ends_parked r = (case r of Ok x \<Rightarrow> wr_StatePointer x \<noteq> [] | _ \<Rightarrow> False)"

lemma suspensions_simps [simp]:
  "suspensions (rt\<lparr>rt_world := w\<rparr>) = suspensions rt" "suspensions (rt\<lparr>rt_store := s\<rparr>) = suspensions rt"
  by (simp_all add: suspensions_def)

lemma suspensions_observe [simp]: "\<not> is_suspension ev \<Longrightarrow> suspensions (observe e ev rt) = suspensions rt"
  by (simp add: suspensions_def observe_def split: option.split)

text \<open>Weaving moves calls about and loses none.\<close>

lemma weave_suspensions:
  "rt_log rt1 = rt_log rt0 @ l1 \<Longrightarrow> rt_log rt2 = rt_log rt1 @ l2 \<Longrightarrow>
   suspensions (weave_log h (length (rt_log rt0)) (length (rt_log rt1)) rt2) = suspensions rt2"
  by (simp add: suspensions_def weave_log_def flip: size_mset)

lemma abandon_suspensions: "suspensions (snd (abandon flow dn c cause rt)) = suspensions rt"
  by (cases cause) (auto simp: abandon_def split: prod.split res.split)

lemma abandon_not_parked: "\<not> ends_parked (fst (abandon flow dn c cause rt))"
  by (cases cause) (auto simp: abandon_def ends_parked_def split: prod.split res.split)

lemma divert_suspensions:
  assumes "divert e flow s reason cur rt = (pr, rt')"
  shows "suspensions rt' = suspensions rt \<and> (\<forall>r. pr = Halt r \<longrightarrow> \<not> ends_parked r)"
proof -
  let ?rt1 = "observe e (ObserveCircuitBreaker (wf_WorkflowID flow) (step_ID s)) rt"
  have rt1: "suspensions ?rt1 = suspensions rt" by simp
  show ?thesis
  proof (cases "onFailure e s reason (cur_ctx cur)")
    case (Ok x)
    with assms rt1 show ?thesis by (cases x) (auto simp: divert_def)
  next
    case (Err b)
    let ?a = "abandon flow (cur_done cur) (cur_ctx cur) b ?rt1"
    from Err assms have "pr = Halt (fst ?a) \<and> rt' = snd ?a" by (auto simp: divert_def case_prod_unfold Let_def)
    with abandon_suspensions [of flow "cur_done cur" "cur_ctx cur" b ?rt1] abandon_not_parked [of flow "cur_done cur" "cur_ctx cur" b ?rt1]
    show ?thesis by (simp add: rt1)
  next
    case (Panic p)
    with assms rt1 show ?thesis by (auto simp: divert_def ends_parked_def)
  qed
qed

lemma suspend_nested: "0 < depth \<Longrightarrow> suspend h e flow sid reason aud c trace depth rt = (r, rt') \<Longrightarrow> rt' = rt"
  by (simp add: suspend_def)

lemma suspend_suspensions:
  assumes "eng_observer e = Some ob" and "obs_Suspension ob"
    and "\<And>w buf w'. host_rand h 16 w = (Inr buf, w') \<Longrightarrow> buf \<noteq> []"
    and "suspend h e flow sid reason aud c trace depth rt = (r, rt')"
  shows "suspensions rt' = suspensions rt + (if ends_parked r then 1 else 0) \<and> (0 < depth \<longrightarrow> \<not> ends_parked r)"
proof -
  have hex: "hex_encode buf \<noteq> []" if "host_rand h 16 w = (Inr buf, w')" for w buf w'
    using assms(3) [OF that] by (cases buf) (simp_all add: hex_encode_def)
  show ?thesis
    using assms(4) hex
    by (auto simp: suspend_def newPointer_def Let_def ends_parked_def observe_def assms(1,2) suspensions_def
        split: if_splits option.splits prod.splits sum.splits)
qed

lemma leaf_suspensions:
  assumes "eng_observer e = Some ob" and "obs_Suspension ob"
    and "\<And>w buf w'. host_rand h 16 w = (Inr buf, w') \<Longrightarrow> buf \<noteq> []"
    and "run_action h e flow s depth cur rt = (pr, rt')"
  shows "suspensions rt' = suspensions rt + (case pr of Next _ \<Rightarrow> 0 | Halt r \<Rightarrow> if ends_parked r then 1 else 0) \<and>
    (0 < depth \<longrightarrow> (\<forall>r. pr = Halt r \<longrightarrow> \<not> ends_parked r))"
proof -
  let ?rt1 = "observe e (ObserveStep (wf_WorkflowID flow) (leaf_StepID s)) rt"
  obtain a w where a: "leaf_Run s (cur_ctx cur) (rt_world ?rt1) = (a, w)" by force
  show ?thesis
  proof (cases a)
    case (Output out)
    with assms(4) a show ?thesis by (auto simp: run_action_def Let_def)
  next
    case (Suspends reason aud)
    obtain r rt2 where sus: "suspend h e flow (leaf_StepID s) reason aud (cur_ctx cur) (cur_trace cur) depth
        (?rt1\<lparr>rt_world := w\<rparr>) = (r, rt2)" by force
    have "pr = Halt r \<and> rt' = rt2" using assms(4) a Suspends sus by (simp add: run_action_def Let_def)
    with suspend_suspensions [OF assms(1-3) sus] show ?thesis by simp
  next
    case (Fails msg)
    then have "divert e flow (LeafStep s) msg cur (?rt1\<lparr>rt_world := w\<rparr>) = (pr, rt')"
      using assms(4) a by (simp add: run_action_def Let_def)
    from divert_suspensions [OF this] show ?thesis by (cases pr) auto
  next
    case (Panics p)
    with assms(4) a show ?thesis by (auto simp: run_action_def Let_def ends_parked_def)
  qed
qed

lemma exec_leaf_suspensions:
  assumes "eng_observer e = Some ob" and "obs_Suspension ob"
    and "\<And>w buf w'. host_rand h 16 w = (Inr buf, w') \<Longrightarrow> buf \<noteq> []"
    and "exec_leaf h e flow s depth cur rt = (pr, rt')"
  shows "suspensions rt' = suspensions rt + (case pr of Next _ \<Rightarrow> 0 | Halt r \<Rightarrow> if ends_parked r then 1 else 0) \<and>
    (0 < depth \<longrightarrow> (\<forall>r. pr = Halt r \<longrightarrow> \<not> ends_parked r))"
proof (cases "leaf_SandboxProbeRef s = []")
  case True
  with assms(4) have "run_action h e flow s depth cur rt = (pr, rt')" by (simp add: exec_leaf_def)
  from leaf_suspensions [OF assms(1-3) this] show ?thesis .
next
  case probed: False
  show ?thesis
  proof (cases "eng_sandbox e")
    case None
    with assms(4) probed show ?thesis by (auto simp: exec_leaf_def ends_parked_def)
  next
    case (Some sb)
    let ?rt1 = "observe e (ObserveSandboxProbe (wf_WorkflowID flow) (leaf_StepID s)) rt"
    obtain answer w where a: "sb \<lparr>preq_ProbeRef = leaf_SandboxProbeRef s, preq_DomainID = wf_DomainID flow,
        preq_StepContext = cur_ctx cur\<rparr> (rt_world ?rt1) = (answer, w)" by (metis surj_pair)
    obtain healthy reason where v: "probe_verdict answer = (healthy, reason)" by force
    let ?rt2 = "observe e (ObserveProbeOutcome (wf_WorkflowID flow) (leaf_StepID s) healthy) (?rt1\<lparr>rt_world := w\<rparr>)"
    have rt2: "suspensions ?rt2 = suspensions rt" by simp
    have ex: "(if \<not> healthy then divert e flow (LeafStep s) reason cur ?rt2
        else run_action h e flow s depth cur ?rt2) = (pr, rt')"
      using assms(4) probed Some a v by (simp add: exec_leaf_def Let_def)
    show ?thesis
    proof (cases healthy)
      case True
      with ex have "run_action h e flow s depth cur ?rt2 = (pr, rt')" by simp
      from leaf_suspensions [OF assms(1-3) this] rt2 show ?thesis by simp
    next
      case False
      with ex have "divert e flow (LeafStep s) reason cur ?rt2 = (pr, rt')" by simp
      from divert_suspensions [OF this] rt2 show ?thesis by (cases pr) simp_all
    qed
  qed
qed

text \<open>Inside a sub-workflow or a branch nothing is ever parked.\<close>

interpretation nested: step_relation h e 1
  "\<lambda>rt rt'. ((\<exists>ob. eng_observer e = Some ob \<and> obs_Suspension ob) \<and> telling_host h \<longrightarrow> suspensions rt' = suspensions rt) \<and>
     (\<exists>l. rt_log rt' = rt_log rt @ l)" for h e
proof unfold_locales
  fix ref flow s reason cur rt pr rt'
  assume "divert e flow s reason cur rt = (pr, rt')"
  from divert_suspensions [OF this] log_grows.divert_R [OF this]
  show "((\<exists>ob. eng_observer e = Some ob \<and> obs_Suspension ob) \<and> telling_host h \<longrightarrow> suspensions rt' = suspensions rt) \<and>
     (\<exists>l. rt_log rt' = rt_log rt @ l)" by blast
next
  fix depth :: int and ref flow sid leaf cur rt pr rt'
  assume "1 \<le> depth" "exec_leaf h e flow leaf depth cur rt = (pr, rt')"
  then have "(\<exists>ob. eng_observer e = Some ob \<and> obs_Suspension ob) \<and> telling_host h \<longrightarrow> suspensions rt' = suspensions rt"
    using exec_leaf_suspensions [of e _ h flow leaf depth cur rt pr rt'] unfolding telling_host_def
    by (cases pr) fastforce+
  moreover have "\<exists>l. rt_log rt' = rt_log rt @ l"
    using log_grows.exec_leaf_R [OF \<open>exec_leaf h e flow leaf depth cur rt = (pr, rt')\<close>] \<open>1 \<le> depth\<close> by simp
  ultimately
  show "((\<exists>ob. eng_observer e = Some ob \<and> obs_Suspension ob) \<and> telling_host h \<longrightarrow> suspensions rt' = suspensions rt) \<and>
     (\<exists>l. rt_log rt' = rt_log rt @ l)" by simp
next
  fix rt0 rt1 rt2 :: "('a, 'b) rt"
  assume "((\<exists>ob. eng_observer e = Some ob \<and> obs_Suspension ob) \<and> telling_host h \<longrightarrow> suspensions rt1 = suspensions rt0) \<and>
      (\<exists>l. rt_log rt1 = rt_log rt0 @ l)"
    "((\<exists>ob. eng_observer e = Some ob \<and> obs_Suspension ob) \<and> telling_host h \<longrightarrow> suspensions rt2 = suspensions rt1) \<and>
      (\<exists>l. rt_log rt2 = rt_log rt1 @ l)"
  then show "((\<exists>ob. eng_observer e = Some ob \<and> obs_Suspension ob) \<and> telling_host h \<longrightarrow>
        suspensions (weave_log h (length (rt_log rt0)) (length (rt_log rt1)) rt2) = suspensions rt0) \<and>
      (\<exists>l. rt_log (weave_log h (length (rt_log rt0)) (length (rt_log rt1)) rt2) = rt_log rt0 @ l)"
    using weave_suspensions [of rt1 rt0 _ rt2 _ h] by (auto simp: weave_log_def)
qed auto

lemma run_suspensions:
  assumes "eng_observer e = Some ob" and "obs_Suspension ob" and "telling_host h" and "Run h e ref c rt = (r, rt')"
  shows "suspensions rt' = suspensions rt + (if ends_parked r then 1 else 0)"
proof (cases "eng_workflows e ref")
  case None
  with assms(4) show ?thesis
    by (auto simp: Run_def run_at_def runFrom.simps [of h e 0] ends_parked_def split: if_splits)
next
  case (Some flow)
  let ?sub = "\<lambda>ref c' rt'. runFrom h e 1 ref [] c' rt'"
  have host: "\<And>w buf w'. host_rand h 16 w = (Inr buf, w') \<Longrightarrow> buf \<noteq> []" using assms(3) unfolding telling_host_def by blast
  have sub: "nested.runner_R e h ?sub"
    using nested.runFrom_R [of h e 1] unfolding nested.runner_R_def by simp
  have pass: "suspensions rt' = suspensions rt + (case pr of Next _ \<Rightarrow> 0 | Halt r \<Rightarrow> if ends_parked r then 1 else 0)"
    if st: "exec_step ?sub h e flow 0 s cur rt = (pr, rt')" for s cur rt pr rt'
  proof (cases s)
    case (LeafStep leaf)
    with st exec_leaf_suspensions [OF assms(1,2) host] show ?thesis by simp
  next
    case (CompositeStep cs)
    with st have ex: "exec_composite ?sub e flow cs cur rt = (pr, rt')" by simp
    have "suspensions rt' = suspensions rt" using nested.exec_composite_R [OF Some sub ex] assms(1-3) by blast
    moreover have "\<not> ends_parked r" if "pr = Halt r" for r
      using ex that by (auto simp: exec_composite_def ends_parked_def split: prod.splits res.splits if_splits
          dest!: divert_suspensions)
    ultimately show ?thesis by (cases pr) auto
  next
    case (ParallelStep ps)
    with st have ex: "exec_parallel ?sub h e flow ps cur rt = (pr, rt')" by simp
    have "suspensions rt' = suspensions rt" using nested.exec_parallel_R [OF Some sub ex] assms(1-3) by blast
    moreover have "\<not> ends_parked r" if "pr = Halt r" for r
      using ex that by (auto simp: exec_parallel_def ends_parked_def split: prod.splits res.splits if_splits
          dest!: divert_suspensions)
    ultimately show ?thesis by (cases pr) auto
  qed
  have "case run_loop ?sub h e flow ref 0 0 (start_cursor (wf_EntryStepID flow) c) rt of
      (r, rt') \<Rightarrow> suspensions rt' = suspensions rt + (if ends_parked r then 1 else 0)"
    by (rule run_loop_rule [where I = "\<lambda>_ _ rt1. suspensions rt1 = suspensions rt"])
      (auto simp: ends_parked_def dest: pass)
  with assms(4) Some show ?thesis
    by (auto simp: Run_def run_at_def runFrom.simps [of h e 0] ends_parked_def split: if_splits)
qed

section \<open>The properties\<close>

datatype observation = SawRun | SawMatch bool | SawEvent event

fun diag_observe :: "observation \<Rightarrow> diagnostics \<Rightarrow> diagnostics" where
  "diag_observe SawRun r = diag_ObserveRun r"
| "diag_observe (SawMatch m) r = diag_ObserveMatch m r"
| "diag_observe (SawEvent ev) r = diag_event ev r"

lemmas diag_defs = diag_ObserveRun_def diag_ObserveMatch_def diag_ObserveProbeOutcome_def
  diag_ObserveSuspension_def diag_ObserveCircuitBreaker_def

lemma diag_step_counts:
  "dg_IntentMatches (diag_observe ob r) + dg_IntentMisses (diag_observe ob r) \<le> dg_IntentMatches r + dg_IntentMisses r + 1"
  "dg_ProbesRun (diag_observe ob r) \<le> dg_ProbesRun r + 1"
  "dg_ProbesRefused r \<le> dg_ProbesRun r \<Longrightarrow> dg_ProbesRefused (diag_observe ob r) \<le> dg_ProbesRun (diag_observe ob r)"
proof -
  have "dg_IntentMatches (diag_event ev r) + dg_IntentMisses (diag_event ev r) = dg_IntentMatches r + dg_IntentMisses r \<and>
      dg_ProbesRun (diag_event ev r) \<le> dg_ProbesRun r + 1 \<and>
      (dg_ProbesRefused r \<le> dg_ProbesRun r \<longrightarrow> dg_ProbesRefused (diag_event ev r) \<le> dg_ProbesRun (diag_event ev r))" for ev
    by (cases ev) (simp_all add: diag_defs Let_def)
  then show "dg_IntentMatches (diag_observe ob r) + dg_IntentMisses (diag_observe ob r) \<le> dg_IntentMatches r + dg_IntentMisses r + 1"
    "dg_ProbesRun (diag_observe ob r) \<le> dg_ProbesRun r + 1"
    "dg_ProbesRefused r \<le> dg_ProbesRun r \<Longrightarrow> dg_ProbesRefused (diag_observe ob r) \<le> dg_ProbesRun (diag_observe ob r)"
    by (cases ob; simp add: diag_defs)+
qed

lemma diag_counts:
  "dg_ProbesRefused r \<le> dg_ProbesRun r \<Longrightarrow>
   dg_IntentMatches (fold diag_observe obs r) + dg_IntentMisses (fold diag_observe obs r) \<le>
     dg_IntentMatches r + dg_IntentMisses r + length obs \<and>
   dg_ProbesRun (fold diag_observe obs r) \<le> dg_ProbesRun r + length obs \<and>
   dg_ProbesRefused (fold diag_observe obs r) \<le> dg_ProbesRun (fold diag_observe obs r)"
proof (induction obs arbitrary: r)
  case (Cons ob obs)
  from Cons.IH [OF diag_step_counts(3) [OF Cons.prems, of ob]] diag_step_counts(1,2) [of ob r]
  show ?case by simp
qed simp

text \<open>
  The shares a deployment reads are shares: whatever a diagnostics recorder has been told, in
  whatever order, no more probes were refused than ran, and the miss rate and the refusal rate lie
  between zero and one, the floating-point division included.
\<close>

theorem diagnostic_rates_are_shares:
  assumes "length obs < 2 ^ 53" and "r = fold diag_observe obs diag_NewRecorder"
  shows "dg_ProbesRefused r \<le> dg_ProbesRun r \<and> share (IntentMissRate r) \<and> share (ProbeRefusalRate r)"
proof -
  have c: "dg_IntentMatches r + dg_IntentMisses r \<le> length obs" "dg_ProbesRun r \<le> length obs"
    "dg_ProbesRefused r \<le> dg_ProbesRun r"
    using diag_counts [of diag_NewRecorder obs] unfolding assms(2) by (simp_all add: diag_NewRecorder_def)
  with assms(1) show ?thesis
    unfolding IntentMissRate_def ProbeRefusalRate_def by (intro conjI share_rate) linarith+
qed

theorem diagnostic_rates_are_shares_witness:
  "share (ProbeRefusalRate (fold diag_observe [SawEvent (ObserveProbeOutcome ''w'' ''s'' False),
     SawEvent (ObserveProbeOutcome ''w'' ''s'' True), SawMatch False, SawRun] diag_NewRecorder))"
  using diagnostic_rates_are_shares [OF _ refl, of "[SawEvent (ObserveProbeOutcome ''w'' ''s'' False),
     SawEvent (ObserveProbeOutcome ''w'' ''s'' True), SawMatch False, SawRun]"] by simp

lemma diag_Suspensions: "dg_Suspensions (fold diag_event l d) = dg_Suspensions d + length (filter is_suspension l)"
proof (induction l arbitrary: d)
  case (Cons ev l)
  then show ?case by (cases ev) (simp_all add: diag_defs Let_def)
qed simp

text \<open>
  C40. An escalation is a run that ends parked: with a diagnostics recorder as the engine's observer, a
  top-level run adds one suspension to its counts exactly when it returns a resume pointer, and none
  otherwise, whatever its steps, sub-workflows, branches, fallbacks and compensations do.
\<close>

theorem escalations_are_parked_runs:
  assumes "\<And>w buf w'. host_rand h 16 w = (Inr buf, w') \<Longrightarrow> buf \<noteq> []"
    and "Run h (SetObserver (Some diag_observer) e) ref c rt = (r, rt')"
  shows "dg_Suspensions (fold diag_event (rt_log rt') d) =
    dg_Suspensions (fold diag_event (rt_log rt) d) + (case r of Ok x \<Rightarrow> if wr_StatePointer x \<noteq> [] then 1 else 0 | _ \<Rightarrow> 0)"
proof -
  have "telling_host h" using assms(1) by (auto simp: telling_host_def)
  from run_suspensions [OF _ _ this assms(2), of diag_observer] show ?thesis
    unfolding diag_Suspensions
    by (cases r) (auto simp: SetObserver_def diag_observer_def suspensions_def ends_parked_def)
qed

theorem escalations_are_parked_runs_witness:
  "dg_Suspensions (fold diag_event (rt_log (snd (Run sample_host (SetObserver (Some diag_observer) ask_engine) ''asks'' [] sample_rt)))
     diag_NewRecorder) = 1"
proof -
  let ?run = "Run sample_host (SetObserver (Some diag_observer) ask_engine) ''asks'' [] sample_rt"
  have host: "host_rand sample_host 16 w = (Inr buf, w') \<Longrightarrow> buf \<noteq> []" for w buf w'
    by (auto simp: sample_host_def sample_rand_def in_order_host_def)
  have "case fst ?run of Ok x \<Rightarrow> wr_StatePointer x \<noteq> [] | _ \<Rightarrow> False" by code_simp
  moreover have "rt_log sample_rt = []" by code_simp
  ultimately show ?thesis
    using escalations_are_parked_runs [where h = sample_host and e = ask_engine and ref = "''asks''" and c = "[]" and rt = sample_rt
        and d = diag_NewRecorder, OF host surjective_pairing]
    by (cases "fst ?run") (auto simp: diag_NewRecorder_def)
qed

end
