(* ===== verification/Bench.thy ===== *)
theory Bench
  imports MetricsFacts Registry
begin

text \<open>
  Benchmarks (\<open>bench/bench.go\<close>): a suite of events run through a domain under a scorecard recorder, and
  the leaderboard of the results. The runs of a suite may be scheduled differently: \<open>hs i\<close> is the host
  of the \<open>i\<close>-th. A panic of a run unwinds through \<open>bench_Run\<close>.
\<close>

section \<open>Stable sorting\<close>

text \<open>
  What \<open>sort.SliceStable\<close> returns for a strict weak order: sorted, and equivalent elements in the
  order they came.
\<close>

fun stable_insert :: "('a \<Rightarrow> 'a \<Rightarrow> bool) \<Rightarrow> 'a \<Rightarrow> 'a list \<Rightarrow> 'a list" where
  "stable_insert ahead x [] = [x]"
| "stable_insert ahead x (y # ys) = (if ahead y x then y # stable_insert ahead x ys else x # y # ys)"

definition stable_sort :: "('a \<Rightarrow> 'a \<Rightarrow> bool) \<Rightarrow> 'a list \<Rightarrow> 'a list" where
  "stable_sort ahead xs = foldr (stable_insert ahead) xs []"

locale weak_order =
  fixes ahead :: "'a \<Rightarrow> 'a \<Rightarrow> bool"
  assumes asym: "ahead x y \<Longrightarrow> \<not> ahead y x"
    and not_ahead_trans: "\<not> ahead y x \<Longrightarrow> \<not> ahead z y \<Longrightarrow> \<not> ahead z x"
begin

definition equivalent :: "'a \<Rightarrow> 'a \<Rightarrow> bool" where
  "equivalent x y \<longleftrightarrow> \<not> ahead x y \<and> \<not> ahead y x"

lemma mset_insert: "mset (stable_insert ahead x ys) = add_mset x (mset ys)"
  by (induction ys) auto

lemma mset_sort: "mset (stable_sort ahead xs) = mset xs"
  by (induction xs) (simp_all add: stable_sort_def mset_insert)

lemma sorted_insert:
  "sorted_wrt (\<lambda>a b. \<not> ahead b a) ys \<Longrightarrow> sorted_wrt (\<lambda>a b. \<not> ahead b a) (stable_insert ahead x ys)"
proof (induction ys)
  case (Cons y ys)
  have set: "set (stable_insert ahead x ys) = insert x (set ys)"
    using mset_insert [of x ys] by (metis set_mset_add_mset_insert set_mset_mset)
  show ?case
  proof (cases "ahead y x")
    case True
    with Cons set asym show ?thesis by auto
  next
    case False
    with Cons.prems not_ahead_trans show ?thesis by auto
  qed
qed simp

lemma sorted_sort: "sorted_wrt (\<lambda>a b. \<not> ahead b a) (stable_sort ahead xs)"
  by (induction xs) (simp_all add: stable_sort_def sorted_insert)

lemma filter_insert:
  "sorted_wrt (\<lambda>a b. \<not> ahead b a) ys \<Longrightarrow>
   filter (equivalent r) (stable_insert ahead x ys) = filter (equivalent r) (x # ys)"
proof (induction ys)
  case (Cons y ys)
  show ?case
  proof (cases "ahead y x")
    case True
    then have "\<not> (equivalent r x \<and> equivalent r y)" using not_ahead_trans unfolding equivalent_def by blast
    with True Cons show ?thesis by auto
  qed simp
qed simp

lemma filter_sort: "filter (equivalent r) (stable_sort ahead xs) = filter (equivalent r) xs"
proof (induction xs)
  case (Cons x xs)
  have "stable_sort ahead (x # xs) = stable_insert ahead x (stable_sort ahead xs)" by (simp add: stable_sort_def)
  with filter_insert [OF sorted_sort, of r x xs] Cons.IH show ?case by simp
qed (simp add: stable_sort_def)

end

section \<open>Suites\<close>

record bench_event =
  ev_WorkflowRef :: string
  ev_Context :: ctx

record suite =
  suite_PluginName :: string
  suite_Events :: "bench_event list"

text \<open>What \<open>json.Unmarshal\<close> makes of the bytes is the argument: its error, or the suite.\<close>

definition ParseSuite :: "string + suite \<Rightarrow> string + suite" where
  "ParseSuite decoded =
     (case decoded of
        Inl err \<Rightarrow> Inl (''bench: invalid suite JSON: '' @ err)
      | Inr s \<Rightarrow>
          if suite_Events s = [] then Inl (''bench: suite '' @ quoted (suite_PluginName s) @ '' has no events'')
          else Inr s)"

record bench_result =
  br_PluginName :: string
  br_Events :: nat
  br_Errors :: nat
  br_Scorecard :: scorecard

text \<open>The loop over the events, counting the runs that fail.\<close>

fun run_events :: "(nat \<Rightarrow> 'w host) \<Rightarrow> ('w, 's) engine \<Rightarrow> nat \<Rightarrow> bench_event list \<Rightarrow> nat \<Rightarrow> ('w, 's) rt \<Rightarrow>
    (string, nat) res \<times> ('w, 's) rt" where
  "run_events hs e i [] errors rt = (Ok errors, rt)"
| "run_events hs e i (ev # evs) errors rt =
     (case Run (hs i) e (ev_WorkflowRef ev) (ev_Context ev) rt of
        (Panic p, rt1) \<Rightarrow> (Panic p, rt1)
      | (Err err, rt1) \<Rightarrow> run_events hs e (Suc i) evs (errors + 1) rt1
      | (Ok r, rt1) \<Rightarrow> run_events hs e (Suc i) evs errors rt1)"

definition bench_engine :: "'w domain \<Rightarrow> ('w, 's) engine" where
  "bench_engine d =
     SetObserver (Some score_observer) (reg_engine (RegisterDomain d (NewRegistry (NewRouter (round64 (3 / 10))) (NewEngine None))))"

definition bench_Run :: "(nat \<Rightarrow> 'w host) \<Rightarrow> 'w domain \<Rightarrow> suite \<Rightarrow> int \<Rightarrow> int \<Rightarrow> ('w, 's) rt \<Rightarrow>
    (string, bench_result) res \<times> ('w, 's) rt" where
  "bench_Run hs d s start now rt =
     (case run_events hs (bench_engine d) 0 (suite_Events s) 0 (rt\<lparr>rt_log := []\<rparr>) of
        (Ok errors, rt1) \<Rightarrow>
          (Ok \<lparr>br_PluginName = suite_PluginName s, br_Events = length (suite_Events s), br_Errors = errors,
              br_Scorecard = Snapshot (suite_PluginName s) now (fold score_event (rt_log rt1) (score_NewRecorder start))\<rparr>, rt1)
      | (Err err, rt1) \<Rightarrow> (Err err, rt1)
      | (Panic p, rt1) \<Rightarrow> (Panic p, rt1))"

section \<open>The leaderboard\<close>

definition ranks_before :: "bench_result \<Rightarrow> bench_result \<Rightarrow> bool" where
  "ranks_before a b =
     (let da = DeterminismRatio (br_Scorecard a); db = DeterminismRatio (br_Scorecard b);
          ca = CognitiveOps (br_Scorecard a); cb = CognitiveOps (br_Scorecard b) in
      if \<not> f64_eq da db then f64_lt db da
      else if ca \<noteq> cb then cb < ca
      else br_PluginName a < br_PluginName b)"

definition Leaderboard :: "bench_result list \<Rightarrow> bench_result list" where
  "Leaderboard results = stable_sort ranks_before results"

text \<open>\<open>%-ns\<close>: padded on the right to \<open>n\<close> runes.\<close>

definition pad_right :: "nat \<Rightarrow> string \<Rightarrow> string" where
  "pad_right n s = s @ replicate (n - length (runes (map of_char s))) (CHR '' '')"

definition board_line :: "string \<Rightarrow> string \<Rightarrow> string \<Rightarrow> string \<Rightarrow> string \<Rightarrow> string \<Rightarrow> string" where
  "board_line rank plugin determinism events errors eliminated =
     pad_right 4 rank @ '' '' @ pad_right 16 plugin @ '' '' @ pad_right 12 determinism @ '' '' @
     pad_right 10 events @ '' '' @ pad_right 8 errors @ '' '' @ eliminated @ [CHR 0x0A]"

definition board_row :: "nat \<Rightarrow> bench_result \<Rightarrow> string" where
  "board_row i r =
     board_line (digits_of (i + 1)) (br_PluginName r) (percent (DeterminismRatio (br_Scorecard r)))
       (digits_of (br_Events r)) (digits_of (br_Errors r))
       (digits_of (LLMCallsEliminatedVsAgent (br_Scorecard r)) @ '' of '' @ digits_of (CognitiveOps (br_Scorecard r)))"

definition FormatLeaderboard :: "bench_result list \<Rightarrow> string" where
  "FormatLeaderboard results =
     (let ranked = Leaderboard results in
      board_line ''rank'' ''plugin'' ''determinism'' ''events'' ''errors'' ''LLM calls eliminated vs agent'' @
      concat (map2 board_row [0..<length ranked] ranked))"

section \<open>The order of the leaderboard\<close>

lemma DeterminismRatio_not_NaN: "DeterminismRatio s \<noteq> NaN"
  using f64_div_nats_not_NaN [of "CognitiveOps s"] by (simp add: DeterminismRatio_def)

interpretation board: weak_order ranks_before
proof unfold_locales
  fix x y
  show "ranks_before x y \<Longrightarrow> \<not> ranks_before y x"
    using f64_lt_not_sym [of "DeterminismRatio (br_Scorecard y)" "DeterminismRatio (br_Scorecard x)"]
    by (auto simp: ranks_before_def Let_def f64_eq_iff DeterminismRatio_not_NaN split: if_splits)
next
  fix x y z
  have le: "\<not> ranks_before b a \<longleftrightarrow>
      (let da = DeterminismRatio (br_Scorecard a); db = DeterminismRatio (br_Scorecard b);
           ca = CognitiveOps (br_Scorecard a); cb = CognitiveOps (br_Scorecard b) in
       f64_lt db da \<or> da = db \<and> (cb < ca \<or> cb = ca \<and> br_PluginName a \<le> br_PluginName b))" for a b
    using f64_lt_not_sym f64_trichotomy [of "DeterminismRatio (br_Scorecard a)" "DeterminismRatio (br_Scorecard b)"]
      DeterminismRatio_not_NaN
    by (auto simp: ranks_before_def Let_def f64_eq_iff)
  show "\<not> ranks_before y x \<Longrightarrow> \<not> ranks_before z y \<Longrightarrow> \<not> ranks_before z x"
    unfolding le Let_def by (auto dest: f64_lt_trans order_trans)
qed

text \<open>
  The leaderboard lists the results it was given, each as often, best first: a higher share of
  deterministic steps, then more steps and calls, then the name; and results that tie in all three keep
  the order they came in.
\<close>

theorem leaderboard_ranks:
  "mset (Leaderboard rs) = mset rs \<and>
   sorted_wrt (\<lambda>a b. \<not> ranks_before b a) (Leaderboard rs) \<and>
   filter (\<lambda>s. \<not> ranks_before r s \<and> \<not> ranks_before s r) (Leaderboard rs) =
     filter (\<lambda>s. \<not> ranks_before r s \<and> \<not> ranks_before s r) rs"
  using board.mset_sort [of rs] board.sorted_sort [of rs] board.filter_sort [of r rs]
  unfolding Leaderboard_def board.equivalent_def by blast

section \<open>What a benchmark can see\<close>

lemma score_log_no_calls: "sr_llmCalls (fold score_event l r) = sr_llmCalls r"
proof (induction l arbitrary: r)
  case (Cons ev l)
  then show ?case
    by (cases ev) (simp_all add: score_ObserveStep_def score_ObserveSandboxProbe_def score_ObserveCircuitBreaker_def)
qed simp

lemma f64_div_self: "0 < n \<Longrightarrow> f64_div (f64_of_nat n) (f64_of_nat n) = Fin 1"
  using f64_of_nat_pos [of n] by (auto simp: round64_1)

text \<open>
  A benchmark never sees a model call: whatever the domain's actions do, the scorecard of a
  benchmark counts no model call and its determinism ratio is one, so that the leaderboard of such
  results is decided by the number of steps.
\<close>

theorem benchmarks_are_fully_deterministic:
  assumes "bench_Run hs d s start now rt = (Ok result, rt')"
  shows "sc_LLMCalls (br_Scorecard result) = 0 \<and> DeterminismRatio (br_Scorecard result) = Fin 1"
proof -
  have "sc_LLMCalls (br_Scorecard result) = 0"
    using assms by (auto simp: bench_Run_def Snapshot_def score_log_no_calls score_NewRecorder_def
        split: prod.splits res.splits)
  then show ?thesis
    using f64_div_self [of "sc_DeterministicSteps (br_Scorecard result)"]
    by (auto simp: DeterminismRatio_def CognitiveOps_def)
qed

lemma bench_engine_eq:
  "bench_engine d = SetObserver (Some score_observer) (fold RegisterPolicy (dom_Policies d)
     (fold RegisterWorkflow (map (claim_workflow (dom_Name d)) (dom_Workflows d)) (NewEngine None)))"
  by (simp add: bench_engine_def RegisterDomain_def NewRegistry_def Let_def)

definition bench_domain :: "journal domain" where
  "bench_domain = \<lparr>dom_Name = ''shop'', dom_Intents = [], dom_Workflows = [pipe_flow], dom_Policies = []\<rparr>"

definition bench_suite :: suite where
  "bench_suite = \<lparr>suite_PluginName = ''shop'',
     suite_Events = [\<lparr>ev_WorkflowRef = ''pipe'', ev_Context = []\<rparr>, \<lparr>ev_WorkflowRef = ''none'', ev_Context = []\<rparr>]\<rparr>"

definition bench_sample :: "(string, bench_result) res \<times> (journal, memory_store) rt" where
  "bench_sample = bench_Run (\<lambda>_. sample_host) bench_domain bench_suite 0 5 sample_rt"

theorem benchmarks_are_fully_deterministic_witness:
  "case fst bench_sample of
     Ok r \<Rightarrow> br_Errors r = 1 \<and> 0 < sc_DeterministicSteps (br_Scorecard r) \<and> DeterminismRatio (br_Scorecard r) = Fin 1
   | _ \<Rightarrow> False"
proof -
  have "case fst bench_sample of Ok r \<Rightarrow> br_Errors r = 1 \<and> 0 < sc_DeterministicSteps (br_Scorecard r) | _ \<Rightarrow> False"
    unfolding bench_sample_def bench_Run_def bench_engine_eq by code_simp
  then show ?thesis
    using benchmarks_are_fully_deterministic [of "\<lambda>_. sample_host" bench_domain bench_suite 0 5 sample_rt _ "snd bench_sample"]
    unfolding bench_sample_def by (cases "fst bench_sample") (auto simp: bench_sample_def prod_eq_iff)
qed

end
