(* ===== verification/PolicyDiff.thy ===== *)
theory PolicyDiff
  imports Bench Replay Determinism
begin

text \<open>
  What a rule change would change (\<open>policydiff/policydiff.go\<close>): a suite of past events is run through
  two versions of a manifest, and each event's two outcomes are compared as a replay is. The runs may
  be scheduled differently: \<open>hs i\<close> holds the hosts of the \<open>i\<close>-th event's two runs. A panic of a run
  unwinds through the comparison.
\<close>

section \<open>Classification\<close>

datatype classification = Same | ExplanationChanged | OutcomeChanged

fun classification_String :: "classification \<Rightarrow> string" where
  "classification_String OutcomeChanged = ''outcome''"
| "classification_String ExplanationChanged = ''explanation''"
| "classification_String Same = ''same''"

record change =
  ch_Index :: nat
  ch_WorkflowRef :: string
  ch_Context :: ctx
  ch_Class :: classification
  ch_Differences :: "difference list"

record policy_report =
  pr_Events :: nat
  pr_Outcomes :: "change list"
  pr_Explanations :: "change list"
  pr_BeforeErrors :: nat
  pr_AfterErrors :: nat

definition Flipped :: "policy_report \<Rightarrow> nat" where
  "Flipped r = length (pr_Outcomes r)"

definition policy_Clean :: "policy_report \<Rightarrow> bool" where
  "policy_Clean r \<longleftrightarrow> pr_Outcomes r = [] \<and> pr_Explanations r = []"

fun classify :: "difference list \<Rightarrow> classification" where
  "classify [] = ExplanationChanged"
| "classify (d # ds) =
     (if diff_Field d = ''trace'' then classify ds
      else if has_prefix (diff_Field d) ''output.cee.'' then classify ds
      else OutcomeChanged)"

section \<open>Comparing\<close>

definition policy_build :: "string + manifest_file \<Rightarrow> 'w library \<Rightarrow> (string, ('w, 's) engine) res" where
  "policy_build decoded std =
     res_bind (Load decoded Map.empty std)
       (\<lambda>d. Ok (reg_engine (RegisterDomain d (NewRegistry (NewRouter (round64 (3 / 10))) (NewEngine None)))))"

definition policy_clone :: "ctx \<Rightarrow> ctx" where
  "policy_clone m = gmerge [] m"

definition before_recording :: "bench_event \<Rightarrow> outcome \<Rightarrow> recording" where
  "before_recording ev r =
     \<lparr>rec_WorkflowID = ev_WorkflowRef ev, rec_Input = ev_Context ev, rec_Probes = [], rec_Extractions = [],
      rec_Trace = wr_Trace (result_of r), rec_Output = wr_Output (result_of r),
      rec_Suspended = (wr_StatePointer (result_of r) \<noteq> []), rec_Failed = (error_of r \<noteq> None),
      rec_Error = (case error_of r of Some e \<Rightarrow> e | None \<Rightarrow> []), rec_RecordedAt = 0\<rparr>"

definition count_errors :: "outcome \<Rightarrow> outcome \<Rightarrow> policy_report \<Rightarrow> policy_report" where
  "count_errors b a report =
     (let r1 = (if error_of b \<noteq> None then report\<lparr>pr_BeforeErrors := pr_BeforeErrors report + 1\<rparr> else report) in
      if error_of a \<noteq> None then r1\<lparr>pr_AfterErrors := pr_AfterErrors r1 + 1\<rparr> else r1)"

definition note_change :: "nat \<Rightarrow> bench_event \<Rightarrow> outcome \<Rightarrow> outcome \<Rightarrow> policy_report \<Rightarrow> policy_report" where
  "note_change i ev b a report =
     (let diffs = Compare (before_recording ev b) (result_of a) (error_of a) in
      if diffs = [] then report
      else
        (let change = \<lparr>ch_Index = i, ch_WorkflowRef = ev_WorkflowRef ev, ch_Context = ev_Context ev,
                       ch_Class = classify diffs, ch_Differences = diffs\<rparr> in
         if ch_Class change = OutcomeChanged then report\<lparr>pr_Outcomes := pr_Outcomes report @ [change]\<rparr>
         else report\<lparr>pr_Explanations := pr_Explanations report @ [change]\<rparr>))"

fun diff_events :: "(nat \<Rightarrow> 'w host \<times> 'w host) \<Rightarrow> ('w, 's) engine \<Rightarrow> ('w, 's) engine \<Rightarrow> nat \<Rightarrow> bench_event list \<Rightarrow>
    policy_report \<Rightarrow> ('w, 's) rt \<Rightarrow> (string, policy_report) res \<times> ('w, 's) rt" where
  "diff_events hs be ae i [] report rt = (Ok report, rt)"
| "diff_events hs be ae i (ev # evs) report rt =
     (case Run (fst (hs i)) be (ev_WorkflowRef ev) (policy_clone (ev_Context ev)) rt of
        (Panic p, rt1) \<Rightarrow> (Panic p, rt1)
      | (b, rt1) \<Rightarrow>
          (case Run (snd (hs i)) ae (ev_WorkflowRef ev) (policy_clone (ev_Context ev)) rt1 of
             (Panic p, rt2) \<Rightarrow> (Panic p, rt2)
           | (a, rt2) \<Rightarrow> diff_events hs be ae (Suc i) evs (note_change i ev b a (count_errors b a report)) rt2))"

definition policy_Compare :: "(nat \<Rightarrow> 'w host \<times> 'w host) \<Rightarrow> string + manifest_file \<Rightarrow> string + manifest_file \<Rightarrow>
    suite \<Rightarrow> 'w library \<Rightarrow> ('w, 's) rt \<Rightarrow> (string, policy_report) res \<times> ('w, 's) rt" where
  "policy_Compare hs beforeManifest afterManifest s std rt =
     (case policy_build beforeManifest std of
        Err err \<Rightarrow> (Err (''before: '' @ err), rt)
      | Panic p \<Rightarrow> (Panic p, rt)
      | Ok be \<Rightarrow>
          (case policy_build afterManifest std of
             Err err \<Rightarrow> (Err (''after: '' @ err), rt)
           | Panic p \<Rightarrow> (Panic p, rt)
           | Ok ae \<Rightarrow>
               diff_events hs be ae 0 (suite_Events s)
                 \<lparr>pr_Events = length (suite_Events s), pr_Outcomes = [], pr_Explanations = [],
                  pr_BeforeErrors = 0, pr_AfterErrors = 0\<rparr> rt))"

section \<open>Rendering\<close>

definition nl :: string where "nl = [CHR 0x0A]"

definition Display :: "gval \<Rightarrow> string" where
  "Display v = (if v = GNil then ''(none)'' else fmt_v v)"

definition describe :: "ctx \<Rightarrow> string" where
  "describe c = str_join (map (\<lambda>k. k @ ''='' @ fmt_v (case map_of c k of Some v \<Rightarrow> v | None \<Rightarrow> GNil)) (sort (gkeys c))) '' ''"

text \<open>The loops over a change's differences leave out the engine's bookkeeping.\<close>

definition decision_differences :: "change \<Rightarrow> difference list" where
  "decision_differences c =
     filter (\<lambda>d. \<not> (has_prefix (diff_Field d) ''output.cee.'' \<or> diff_Field d = ''trace'')) (ch_Differences c)"

definition text_change :: "change \<Rightarrow> string" where
  "text_change c =
     ''  event '' @ pad_right 4 (digits_of (ch_Index c)) @ '' '' @ describe (ch_Context c) @ nl @
     concat (map (\<lambda>d. ''      '' @ difference_String d @ nl) (decision_differences c))"

definition policy_Text :: "policy_report \<Rightarrow> string" where
  "policy_Text r =
     ''replayed '' @ digits_of (pr_Events r) @ '' historical events against the proposed manifest'' @ nl @
     ''  '' @ digits_of (Flipped r) @ '' of '' @ digits_of (pr_Events r) @ '' decisions change'' @ nl @
     (if pr_Outcomes r \<noteq> [] then nl @ concat (map text_change (pr_Outcomes r)) else []) @
     (if pr_Explanations r \<noteq> [] then
        nl @ ''  '' @ digits_of (length (pr_Explanations r)) @
        '' more keep the same outcome; only the recorded reason or path changes'' @ nl else []) @
     (if 0 < pr_BeforeErrors r \<or> 0 < pr_AfterErrors r then
        nl @ ''  runs that errored: '' @ digits_of (pr_BeforeErrors r) @ '' before, '' @
        digits_of (pr_AfterErrors r) @ '' after'' @ nl else [])"

text \<open>The arrow and the dash of the Markdown report, in UTF-8.\<close>

definition arrow :: string where "arrow = [CHR '' '', CHR 0xE2, CHR 0x86, CHR 0x92, CHR '' '']"

definition dash :: string where "dash = [CHR 0xE2, CHR 0x80, CHR 0x94]"

definition markdown_part :: "difference \<Rightarrow> string" where
  "markdown_part d =
     [CHR 0x60] @ trim_prefix (diff_Field d) ''output.'' @ [CHR 0x60] @ '': '' @ Display (diff_Before d) @ arrow @
     Display (diff_After d)"

definition markdown_row :: "change \<Rightarrow> string" where
  "markdown_row c =
     ''| '' @ digits_of (ch_Index c) @ '' | '' @ describe (ch_Context c) @ '' | '' @
     str_join (map markdown_part (decision_differences c)) ''<br>'' @ '' |'' @ nl"

definition policy_Markdown :: "policy_report \<Rightarrow> string" where
  "policy_Markdown r =
     (if policy_Clean r then
        ''### No decision changes'' @ nl @ nl @ ''Replayed **'' @ digits_of (pr_Events r) @
        ''** historical events against the proposed manifest. Every one produced an identical outcome.'' @ nl
      else
        ''### '' @ digits_of (Flipped r) @ '' of '' @ digits_of (pr_Events r) @ '' past decisions would change'' @ nl @ nl @
        (if pr_Outcomes r \<noteq> [] then
           ''| # | input | change |'' @ nl @ ''|---|---|---|'' @ nl @ concat (map markdown_row (pr_Outcomes r)) else []) @
        (if pr_Explanations r \<noteq> [] then
           nl @ digits_of (length (pr_Explanations r)) @
           '' more keep the same outcome; only the recorded reason or the path taken changes.'' @ nl else []) @
        (if 0 < pr_BeforeErrors r \<or> 0 < pr_AfterErrors r then
           nl @ ''Runs that errored: '' @ digits_of (pr_BeforeErrors r) @ '' before, '' @
           digits_of (pr_AfterErrors r) @ '' after.'' @ nl else []) @
        nl @ ''<sub>Generated by <code>cee diff</code> '' @ dash @
        '' a deterministic replay, so every difference above is attributable to the manifest change.</sub>'' @ nl)"

end
