(* ===== verification/PolicyFacts.thy ===== *)
theory PolicyFacts
  imports PolicyDiff ReplayFacts
begin

text \<open>
  What the comparison of two manifests says: exactly which past decisions change, and nothing when the
  manifests are the same, but for the naming of conflicts.
\<close>

section \<open>One event\<close>

definition parked_outcome :: "outcome \<Rightarrow> bool" where
  "parked_outcome r \<longleftrightarrow> wr_StatePointer (result_of r) \<noteq> []"

definition agree_on :: "outcome \<Rightarrow> outcome \<Rightarrow> string \<Rightarrow> bool" where
  "agree_on b a k =
     (case (map_of (wr_Output (result_of b)) k, map_of (wr_Output (result_of a)) k) of
        (None, None) \<Rightarrow> True | (Some v, Some w) \<Rightarrow> replay_sameValue v w | _ \<Rightarrow> False)"

text \<open>The decision: parked or not, failed or not and how, and the output but for the engine's own keys.\<close>

definition same_decision :: "outcome \<times> outcome \<Rightarrow> bool" where
  "same_decision p = (case p of (b, a) \<Rightarrow>
     parked_outcome b = parked_outcome a \<and> error_of b = error_of a \<and>
     (\<forall>k. \<not> has_prefix k ''cee.'' \<longrightarrow> agree_on b a k))"

definition same_account :: "outcome \<times> outcome \<Rightarrow> bool" where
  "same_account p = (case p of (b, a) \<Rightarrow>
     joinTrace (wr_Trace (result_of b)) = joinTrace (wr_Trace (result_of a)) \<and>
     (\<forall>k. has_prefix k ''cee.'' \<longrightarrow> agree_on b a k))"

definition bookkeeping :: "difference \<Rightarrow> bool" where
  "bookkeeping d \<longleftrightarrow> diff_Field d = ''trace'' \<or> has_prefix (diff_Field d) ''output.cee.''"

lemma classify_iff: "classify ds = OutcomeChanged \<longleftrightarrow> (\<exists>d \<in> set ds. \<not> bookkeeping d)"
  by (induction ds) (auto simp: bookkeeping_def)

lemma output_prefix: "has_prefix (''output.'' @ k) ''output.cee.'' \<longleftrightarrow> has_prefix k ''cee.''"
  by (simp add: has_prefix_def)

lemma field_difference_fields: "d \<in> set (field_difference m n k) \<Longrightarrow> diff_Field d = ''output.'' @ k"
  by (auto simp: field_difference_def split: option.splits if_splits)

lemma field_difference_bookkeeping: "d \<in> set (field_difference m n k) \<Longrightarrow> bookkeeping d \<longleftrightarrow> has_prefix k ''cee.''"
  using field_difference_fields [of d m n k] output_prefix [of k] by (simp add: bookkeeping_def)

lemma field_difference_agree:
  "field_difference (wr_Output (result_of b)) (wr_Output (result_of a)) k = [] \<longleftrightarrow> agree_on b a k"
  by (simp add: field_difference_Nil agree_on_def)

definition compare_events :: "bench_event \<Rightarrow> outcome \<Rightarrow> outcome \<Rightarrow> difference list" where
  "compare_events ev b a = Compare (before_recording ev b) (result_of a) (error_of a)"

text \<open>The three parts of the comparison before the output fields.\<close>

lemma compare_events_parts:
  "\<exists>t s f ks. compare_events ev b a = t @ s @ f @
      concat (map (field_difference (wr_Output (result_of b)) (wr_Output (result_of a))) ks) \<and>
    (t = [] \<longleftrightarrow> joinTrace (wr_Trace (result_of b)) = joinTrace (wr_Trace (result_of a))) \<and>
    (\<forall>d \<in> set t. bookkeeping d) \<and>
    (s = [] \<longleftrightarrow> parked_outcome b = parked_outcome a) \<and> (\<forall>d \<in> set s. \<not> bookkeeping d) \<and>
    (f = [] \<longleftrightarrow> error_of b = error_of a) \<and> (\<forall>d \<in> set f. \<not> bookkeeping d) \<and>
    (\<forall>k. k \<notin> set ks \<longrightarrow> agree_on b a k)"
proof -
  let ?o = "wr_Output (result_of b)" and ?n = "wr_Output (result_of a)"
  let ?ks = "sort (gkeys ?o @ filter (\<lambda>k. k \<notin> set (gkeys ?o)) (gkeys ?n))"
  let ?t = "let tb = joinTrace (wr_Trace (result_of b)); ta = joinTrace (wr_Trace (result_of a)) in
      if tb \<noteq> ta then [\<lparr>diff_Field = ''trace'', diff_Before = GStr tb, diff_After = GStr ta\<rparr>] else []"
  let ?s = "let p = parked_outcome b; q = parked_outcome a in
      if p \<noteq> q then [\<lparr>diff_Field = ''suspended'', diff_Before = GBool p, diff_After = GBool q\<rparr>] else []"
  let ?f = "let failed = (error_of a \<noteq> None); was = (error_of b \<noteq> None); e = (case error_of b of Some e \<Rightarrow> e | None \<Rightarrow> []) in
      if was \<noteq> failed then [\<lparr>diff_Field = ''failed'', diff_Before = GBool was, diff_After = GBool failed\<rparr>]
      else case error_of a of
        Some e' \<Rightarrow> if e \<noteq> e' then [\<lparr>diff_Field = ''error'', diff_Before = GStr e, diff_After = GStr e'\<rparr>] else []
      | None \<Rightarrow> []"
  have eq: "compare_events ev b a = ?t @ ?s @ ?f @ concat (map (field_difference ?o ?n) ?ks)"
    unfolding compare_events_def Compare_def before_recording_def recording.select_convs Let_def parked_outcome_def ..
  have keys: "set ?ks = dom (map_of ?o) \<union> dom (map_of ?n)" by (auto simp: set_gkeys)
  show ?thesis
  proof (intro exI conjI, rule eq)
    show "\<forall>k. k \<notin> set ?ks \<longrightarrow> agree_on b a k"
      unfolding keys agree_on_def by (auto simp: domIff)
  qed (auto simp: Let_def bookkeeping_def has_prefix_def split: option.splits)
qed

lemma compare_events_decision:
  "(\<exists>d \<in> set (compare_events ev b a). \<not> bookkeeping d) \<longleftrightarrow> \<not> same_decision (b, a)"
  "compare_events ev b a = [] \<longleftrightarrow> same_decision (b, a) \<and> same_account (b, a)"
proof -
  obtain t s f ks where p: "compare_events ev b a = t @ s @ f @
      concat (map (field_difference (wr_Output (result_of b)) (wr_Output (result_of a))) ks)"
    "t = [] \<longleftrightarrow> joinTrace (wr_Trace (result_of b)) = joinTrace (wr_Trace (result_of a))" "\<forall>d \<in> set t. bookkeeping d"
    "s = [] \<longleftrightarrow> parked_outcome b = parked_outcome a" "\<forall>d \<in> set s. \<not> bookkeeping d"
    "f = [] \<longleftrightarrow> error_of b = error_of a" "\<forall>d \<in> set f. \<not> bookkeeping d" "\<forall>k. k \<notin> set ks \<longrightarrow> agree_on b a k"
    using compare_events_parts [of ev b a] by (elim exE conjE) (rule that)
  let ?fd = "field_difference (wr_Output (result_of b)) (wr_Output (result_of a))"
  have out: "(\<exists>d \<in> set (concat (map ?fd ks)). \<not> bookkeeping d) \<longleftrightarrow> \<not> (\<forall>k. \<not> has_prefix k ''cee.'' \<longrightarrow> agree_on b a k)"
  proof
    assume "\<exists>d \<in> set (concat (map ?fd ks)). \<not> bookkeeping d"
    then obtain d k where "k \<in> set ks" "d \<in> set (?fd k)" "\<not> bookkeeping d" by auto
    moreover from this have "?fd k \<noteq> []" by auto
    ultimately show "\<not> (\<forall>k. \<not> has_prefix k ''cee.'' \<longrightarrow> agree_on b a k)"
      using field_difference_bookkeeping field_difference_agree by blast
  next
    assume "\<not> (\<forall>k. \<not> has_prefix k ''cee.'' \<longrightarrow> agree_on b a k)"
    then obtain k where k: "\<not> has_prefix k ''cee.''" "\<not> agree_on b a k" by blast
    then have "k \<in> set ks" "?fd k \<noteq> []" using p(8) field_difference_agree by blast+
    then obtain d where "d \<in> set (?fd k)" by (cases "?fd k") auto
    with k \<open>k \<in> set ks\<close> field_difference_bookkeeping show "\<exists>d \<in> set (concat (map ?fd ks)). \<not> bookkeeping d" by auto
  qed
  have ex: "(\<exists>d \<in> set l. \<not> bookkeeping d) \<longleftrightarrow> l \<noteq> []" if "\<forall>d \<in> set l. \<not> bookkeeping d" for l
    using that by (cases l) auto
  have "(\<exists>d \<in> set (compare_events ev b a). \<not> bookkeeping d) \<longleftrightarrow>
      (\<exists>d \<in> set s. \<not> bookkeeping d) \<or> (\<exists>d \<in> set f. \<not> bookkeeping d) \<or> (\<exists>d \<in> set (concat (map ?fd ks)). \<not> bookkeeping d)"
    unfolding p(1) using p(3) by auto
  then show "(\<exists>d \<in> set (compare_events ev b a). \<not> bookkeeping d) \<longleftrightarrow> \<not> same_decision (b, a)"
    unfolding ex [OF p(5)] ex [OF p(7)] out p(4,6) same_decision_def by auto
  have "concat (map ?fd ks) = [] \<longleftrightarrow> (\<forall>k \<in> set ks. agree_on b a k)" by (simp add: field_difference_agree)
  also have "\<dots> \<longleftrightarrow> (\<forall>k. agree_on b a k)" using p(8) by blast
  finally show "compare_events ev b a = [] \<longleftrightarrow> same_decision (b, a) \<and> same_account (b, a)"
    unfolding p(1) append_is_Nil_conv p(2,4,6) same_decision_def same_account_def by auto
qed

section \<open>The whole report\<close>

text \<open>The pairs of outcomes the loop compares, in order.\<close>

fun paired_runs :: "(nat \<Rightarrow> 'w host \<times> 'w host) \<Rightarrow> ('w, 's) engine \<Rightarrow> ('w, 's) engine \<Rightarrow> nat \<Rightarrow> bench_event list \<Rightarrow>
    ('w, 's) rt \<Rightarrow> (outcome \<times> outcome) list" where
  "paired_runs hs be ae i [] rt = []"
| "paired_runs hs be ae i (ev # evs) rt =
     (case Run (fst (hs i)) be (ev_WorkflowRef ev) (policy_clone (ev_Context ev)) rt of
        (b, rt1) \<Rightarrow>
          (case Run (snd (hs i)) ae (ev_WorkflowRef ev) (policy_clone (ev_Context ev)) rt1 of
             (a, rt2) \<Rightarrow> (b, a) # paired_runs hs be ae (Suc i) evs rt2))"

definition failed_run :: "outcome \<Rightarrow> bool" where
  "failed_run r \<longleftrightarrow> error_of r \<noteq> None"

lemma count_errors_fields:
  "pr_Outcomes (count_errors b a report) = pr_Outcomes report"
  "pr_Explanations (count_errors b a report) = pr_Explanations report"
  "pr_Events (count_errors b a report) = pr_Events report"
  "pr_BeforeErrors (count_errors b a report) = pr_BeforeErrors report + (if failed_run b then 1 else 0)"
  "pr_AfterErrors (count_errors b a report) = pr_AfterErrors report + (if failed_run a then 1 else 0)"
  by (auto simp: count_errors_def failed_run_def Let_def)

lemma note_change_fields:
  "map ch_Index (pr_Outcomes (note_change i ev b a report)) =
     map ch_Index (pr_Outcomes report) @ (if same_decision (b, a) then [] else [i])"
  "map ch_Index (pr_Explanations (note_change i ev b a report)) =
     map ch_Index (pr_Explanations report) @ (if same_decision (b, a) \<and> \<not> same_account (b, a) then [i] else [])"
  "pr_Events (note_change i ev b a report) = pr_Events report"
  "pr_BeforeErrors (note_change i ev b a report) = pr_BeforeErrors report"
  "pr_AfterErrors (note_change i ev b a report) = pr_AfterErrors report"
proof -
  let ?ds = "compare_events ev b a"
  have nc: "note_change i ev b a report =
      (if ?ds = [] then report
       else (let change = \<lparr>ch_Index = i, ch_WorkflowRef = ev_WorkflowRef ev, ch_Context = ev_Context ev,
                       ch_Class = classify ?ds, ch_Differences = ?ds\<rparr> in
         if classify ?ds = OutcomeChanged then report\<lparr>pr_Outcomes := pr_Outcomes report @ [change]\<rparr>
         else report\<lparr>pr_Explanations := pr_Explanations report @ [change]\<rparr>))"
    by (simp add: note_change_def compare_events_def Let_def)
  have cl: "classify ?ds = OutcomeChanged \<longleftrightarrow> \<not> same_decision (b, a)"
    unfolding classify_iff compare_events_decision(1) ..
  note ds = compare_events_decision(2) [of ev b a]
  show "map ch_Index (pr_Outcomes (note_change i ev b a report)) =
     map ch_Index (pr_Outcomes report) @ (if same_decision (b, a) then [] else [i])"
    "map ch_Index (pr_Explanations (note_change i ev b a report)) =
     map ch_Index (pr_Explanations report) @ (if same_decision (b, a) \<and> \<not> same_account (b, a) then [i] else [])"
    "pr_Events (note_change i ev b a report) = pr_Events report"
    "pr_BeforeErrors (note_change i ev b a report) = pr_BeforeErrors report"
    "pr_AfterErrors (note_change i ev b a report) = pr_AfterErrors report"
    unfolding nc cl ds Let_def by (cases "same_decision (b, a)"; cases "same_account (b, a)"; simp)+
qed

lemma filter_upt_Suc:
  "filter (\<lambda>j. P ((x # xs) ! (j - i))) [i..<i + length (x # xs)] =
   (if P x then [i] else []) @ filter (\<lambda>j. P (xs ! (j - Suc i))) [Suc i..<Suc i + length xs]"
proof -
  have "[i..<i + length (x # xs)] = i # [Suc i..<Suc i + length xs]" by (subst upt_conv_Cons) simp_all
  moreover have "filter (\<lambda>j. P ((x # xs) ! (j - i))) [Suc i..<Suc i + length xs] =
      filter (\<lambda>j. P (xs ! (j - Suc i))) [Suc i..<Suc i + length xs]"
    by (rule filter_cong [OF refl]) (auto simp: nth_Cons' Suc_diff_Suc)
  ultimately show ?thesis by simp
qed

lemma diff_events_exact:
  assumes "diff_events hs be ae i evs report rt = (Ok r, rt')"
  defines "runs \<equiv> paired_runs hs be ae i evs rt"
  shows "length runs = length evs \<and> pr_Events r = pr_Events report \<and>
    map ch_Index (pr_Outcomes r) = map ch_Index (pr_Outcomes report) @
      filter (\<lambda>j. \<not> same_decision (runs ! (j - i))) [i..<i + length runs] \<and>
    map ch_Index (pr_Explanations r) = map ch_Index (pr_Explanations report) @
      filter (\<lambda>j. same_decision (runs ! (j - i)) \<and> \<not> same_account (runs ! (j - i))) [i..<i + length runs] \<and>
    pr_BeforeErrors r = pr_BeforeErrors report + length (filter (\<lambda>(b, a). failed_run b) runs) \<and>
    pr_AfterErrors r = pr_AfterErrors report + length (filter (\<lambda>(b, a). failed_run a) runs)"
  using assms(1) unfolding runs_def
proof (induction evs arbitrary: i report rt)
  case Nil
  then show ?case by simp
next
  case (Cons ev evs)
  obtain b rt1 where b: "Run (fst (hs i)) be (ev_WorkflowRef ev) (policy_clone (ev_Context ev)) rt = (b, rt1)" by force
  obtain a rt2 where a: "Run (snd (hs i)) ae (ev_WorkflowRef ev) (policy_clone (ev_Context ev)) rt1 = (a, rt2)" by force
  let ?report = "note_change i ev b a (count_errors b a report)"
  let ?rest = "paired_runs hs be ae (Suc i) evs rt2"
  have runs: "paired_runs hs be ae i (ev # evs) rt = (b, a) # ?rest" by (simp add: b a)
  have rest: "diff_events hs be ae (Suc i) evs ?report rt2 = (Ok r, rt')"
    using Cons.prems by (cases b; cases a) (simp_all add: b a)
  note IH = Cons.IH [OF rest]
  show ?case
    unfolding runs
      filter_upt_Suc [of "\<lambda>p. \<not> same_decision p" "(b, a)" ?rest i]
      filter_upt_Suc [of "\<lambda>p. same_decision p \<and> \<not> same_account p" "(b, a)" ?rest i]
    using IH by (simp add: note_change_fields count_errors_fields)
qed

text \<open>
  C24. The report is exact: of a completed comparison, the flipped decisions are, in order, the events
  whose two runs differ in being parked, in failing, in the error or in an output field that is not
  the engine's own; the changed explanations are the other events whose traces or \<open>cee.\<close> fields
  differ; and the errors counted are the runs that failed.
\<close>

theorem policy_report_is_exact:
  assumes "policy_build m1 std = Ok be" and "policy_build m2 std = Ok ae"
    and "policy_Compare hs m1 m2 s std rt = (Ok r, rt')"
    and "runs = paired_runs hs be ae 0 (suite_Events s) rt"
  shows "length runs = length (suite_Events s) \<and> pr_Events r = length (suite_Events s) \<and>
    map ch_Index (pr_Outcomes r) = filter (\<lambda>i. \<not> same_decision (runs ! i)) [0..<length runs] \<and>
    map ch_Index (pr_Explanations r) =
      filter (\<lambda>i. same_decision (runs ! i) \<and> \<not> same_account (runs ! i)) [0..<length runs] \<and>
    pr_BeforeErrors r = length (filter (\<lambda>(b, a). failed_run b) runs) \<and>
    pr_AfterErrors r = length (filter (\<lambda>(b, a). failed_run a) runs)"
proof -
  have "diff_events hs be ae 0 (suite_Events s)
      \<lparr>pr_Events = length (suite_Events s), pr_Outcomes = [], pr_Explanations = [],
       pr_BeforeErrors = 0, pr_AfterErrors = 0\<rparr> rt = (Ok r, rt')"
    using assms(1-3) by (simp add: policy_Compare_def)
  from diff_events_exact [OF this] show ?thesis by (simp add: assms(4))
qed

section \<open>A manifest against itself\<close>

lemma registered_frame:
  "eng_sandbox (fold RegisterPolicy ps (fold RegisterWorkflow fs e)) = eng_sandbox e"
  "eng_store (fold RegisterPolicy ps (fold RegisterWorkflow fs e)) = eng_store e"
proof -
  have w: "eng_sandbox (fold RegisterWorkflow fs e) = eng_sandbox e \<and> eng_store (fold RegisterWorkflow fs e) = eng_store e" for e
    by (induction fs arbitrary: e) (simp_all add: RegisterWorkflow_def)
  have p: "eng_sandbox (fold RegisterPolicy ps e) = eng_sandbox e \<and> eng_store (fold RegisterPolicy ps e) = eng_store e" for e
    by (induction ps arbitrary: e) (simp_all add: RegisterPolicy_def)
  show "eng_sandbox (fold RegisterPolicy ps (fold RegisterWorkflow fs e)) = eng_sandbox e"
    "eng_store (fold RegisterPolicy ps (fold RegisterWorkflow fs e)) = eng_store e" by (simp_all add: w p)
qed

lemma built_leaf:
  assumes "load_file f Map.empty Default = Ok d" and "flow \<in> set (dom_Workflows d)" and "wf_Steps flow sid = Some (LeafStep l)"
  shows "\<exists>ref fac params. Default ref = Some fac \<and> fac params = Inr (leaf_Run l)"
proof -
  obtain ws where ws: "load_workflow (file_Name f) Map.empty Default ws = Ok flow"
    using list_all2_set2 [OF load_file_workflows [OF assms(1)] assms(2)] by blast
  then obtain steps where "build_steps (file_Name f) (wspec_WorkflowID ws) Map.empty Default (wspec_Steps ws) Map.empty = Ok steps"
    "wf_Steps flow = steps" by (auto simp: load_workflow_def res_bind_Ok_iff)
  with assms(3) obtain spec where "buildStep (file_Name f) (wspec_WorkflowID ws) spec Map.empty Default = Ok (LeafStep l)"
    using build_steps_from by (metis option.distinct(1))
  then have "resolveAction (file_Name f) (wspec_WorkflowID ws) spec Map.empty Default = Ok (leaf_Run l)"
    by (auto simp: buildStep_def Let_def res_bind_Ok_iff split: if_splits)
  then show ?thesis by (auto simp: resolveAction_def split: option.splits sum.splits)
qed

lemma policy_build_world_free:
  assumes "policy_build m Default = Ok e"
  shows "world_free e" and "eng_store e = None"
proof -
  obtain f d where m: "m = Inr f" and d: "load_file f Map.empty Default = Ok d"
    and e: "e = reg_engine (RegisterDomain d (NewRegistry (NewRouter (round64 (3 / 10))) (NewEngine None)))"
    using assms by (auto simp: policy_build_def res_bind_Ok_iff Load_def split: sum.splits)
  have flows: "eng_workflows e ref = Some flow \<Longrightarrow> \<exists>w \<in> set (dom_Workflows d). wf_Steps flow = wf_Steps w" for ref flow
    unfolding e RegisterDomain_engine by (auto simp: NewRegistry_def NewEngine_def claim_workflow_def dest!: map_of_SomeD) blast
  have sb: "eng_sandbox e = None" "eng_store e = None"
    by (simp_all add: e RegisterDomain_def NewRegistry_def NewEngine_def Let_def registered_frame)
  show "eng_store e = None" by (rule sb(2))
  show "world_free e"
    unfolding world_free_def leaf_in_def using sb(1) flows built_leaf [OF d] Default_context_only
    unfolding context_only_def by (metis option.distinct(1))
qed

lemma same_run_same_account: "same_decision (r, r) \<and> same_account (r, r)"
proof -
  have "replay_sameValue v v" for v by (simp add: replay_sameValue_def split: option.split)
  then show ?thesis by (simp add: same_decision_def same_account_def agree_on_def split: option.split)
qed

lemma paired_runs_same:
  assumes "world_free e" and "eng_store e = None" and "\<And>i. host_ok (fst (hs i)) \<and> host_ok (snd (hs i))"
  shows "(b, a) \<in> set (paired_runs hs e e i evs rt) \<Longrightarrow> a = b \<or> is_conflict b \<and> is_conflict a"
proof (induction evs arbitrary: i rt)
  case (Cons ev evs)
  obtain b1 rt1 where b: "Run (fst (hs i)) e (ev_WorkflowRef ev) (policy_clone (ev_Context ev)) rt = (b1, rt1)" by force
  obtain a1 rt2 where a: "Run (snd (hs i)) e (ev_WorkflowRef ev) (policy_clone (ev_Context ev)) rt1 = (a1, rt2)" by force
  have "same_outcome True b1 a1"
    using run_simulation.runFrom_sim [OF world_free_simulation [OF _ _ assms(1,2)], of "fst (hs i)" "snd (hs i)"] assms(3) b a
    by (force simp: Run_def run_at_def dest: arg_cong [of _ _ fst])
  with Cons b a show ?case by (auto simp: same_outcome_def)
qed simp

text \<open>
  A manifest of standard actions changes nothing against itself: however the runs are scheduled and
  maps iterated, the report is clean, if no run ends in conflicting writes of parallel branches.
\<close>

theorem identical_manifests_are_clean:
  assumes "policy_build m Default = Ok e" and "policy_Compare hs m m s Default rt = (Ok r, rt')"
    and "\<And>i. host_ok (fst (hs i)) \<and> host_ok (snd (hs i))"
    and "\<forall>(b, a) \<in> set (paired_runs hs e e 0 (suite_Events s) rt). \<not> is_conflict b"
  shows "policy_Clean r \<and> pr_BeforeErrors r = pr_AfterErrors r"
proof -
  let ?runs = "paired_runs hs e e 0 (suite_Events s) rt"
  have same: "b = a" if "(b, a) \<in> set ?runs" for b a
    using paired_runs_same [OF policy_build_world_free [OF assms(1)] assms(3) that] assms(4) that by auto
  have nth: "same_decision (?runs ! i) \<and> same_account (?runs ! i)" if "i < length ?runs" for i
    using same [of "fst (?runs ! i)" "snd (?runs ! i)"] nth_mem [OF that] same_run_same_account [of "fst (?runs ! i)"]
    by (metis prod.collapse)
  have "diff_events hs e e 0 (suite_Events s)
      \<lparr>pr_Events = length (suite_Events s), pr_Outcomes = [], pr_Explanations = [],
       pr_BeforeErrors = 0, pr_AfterErrors = 0\<rparr> rt = (Ok r, rt')"
    using assms(1,2) by (simp add: policy_Compare_def)
  note ex = diff_events_exact [OF this]
  have "filter (\<lambda>j. \<not> same_decision (?runs ! (j - 0))) [0..<0 + length ?runs] = []"
    "filter (\<lambda>j. same_decision (?runs ! (j - 0)) \<and> \<not> same_account (?runs ! (j - 0))) [0..<0 + length ?runs] = []"
    using nth by (auto simp: filter_empty_conv)
  moreover have "filter (\<lambda>(b, a). failed_run b) ?runs = filter (\<lambda>(b, a). failed_run a) ?runs"
    using same by (intro filter_cong [OF refl]) auto
  ultimately show ?thesis using ex by (elim conjE) (simp add: policy_Clean_def)
qed

section \<open>Samples\<close>

definition leaf_spec :: "string \<Rightarrow> string \<Rightarrow> ctx \<Rightarrow> step_spec" where
  "leaf_spec sid action params =
     \<lparr>sspec_StepID = sid, sspec_Type = ''leaf'', sspec_ActionRef = action, sspec_With = params,
      sspec_SandboxProbeRef = [], sspec_CircuitBreakerPolicyRef = [], sspec_OnSuccess = [],
      sspec_SubWorkflowRef = [], sspec_Branches = [], sspec_CompensateWith = []\<rparr>"

definition sets_spec :: "string \<Rightarrow> ctx \<Rightarrow> workflow_spec" where
  "sets_spec name fs = \<lparr>wspec_WorkflowID = name, wspec_EntryStepID = ''s'',
     wspec_Steps = [leaf_spec ''s'' ''std.set'' [(''fields'', GObj fs)]]\<rparr>"

definition manifest_of :: "workflow_spec list \<Rightarrow> string + manifest_file" where
  "manifest_of ws = Inr \<lparr>file_Name = ''shop'', file_Intents = [], file_Policies = [], file_Workflows = ws\<rparr>"

definition grade_manifest :: "string \<Rightarrow> string \<Rightarrow> string + manifest_file" where
  "grade_manifest g why = manifest_of [sets_spec ''grade'' [(''cee.why'', GStr why), (''grade'', GStr g)]]"

definition fan_manifest :: "string + manifest_file" where
  "fan_manifest = manifest_of
     [sets_spec ''left'' [(''x'', GStr ''1''), (''y'', GStr ''1'')],
      sets_spec ''right'' [(''x'', GStr ''2''), (''y'', GStr ''2'')],
      \<lparr>wspec_WorkflowID = ''fan'', wspec_EntryStepID = ''f'', wspec_Steps =
        [(leaf_spec ''f'' [] [])\<lparr>sspec_Type := ''parallel'', sspec_Branches := [''left'', ''right'']\<rparr>]\<rparr>]"

definition one_event :: "string \<Rightarrow> suite" where
  "one_event ref = \<lparr>suite_PluginName = ''shop'', suite_Events = [\<lparr>ev_WorkflowRef = ref, ev_Context = []\<rparr>]\<rparr>"

definition compared :: "string + manifest_file \<Rightarrow> string + manifest_file \<Rightarrow> string \<Rightarrow>
    (string, policy_report) res \<times> (journal, memory_store) rt" where
  "compared m1 m2 ref = policy_Compare (\<lambda>_. (sample_host, reversed_host)) m1 m2 (one_event ref) Default sample_rt"

lemma policy_build_eq:
  "policy_build decoded std = res_bind (Load decoded Map.empty std)
     (\<lambda>d. Ok (fold RegisterPolicy (dom_Policies d)
       (fold RegisterWorkflow (map (claim_workflow (dom_Name d)) (dom_Workflows d)) (NewEngine None))))"
  by (simp add: policy_build_def RegisterDomain_def NewRegistry_def Let_def)

lemmas compared_eval = compared_def policy_Compare_def policy_build_eq

lemma compared_builds:
  assumes "compared m1 m2 ref = (Ok r, rt')"
  shows "\<exists>be ae. policy_build m1 Default = Ok (be :: (journal, memory_store) engine) \<and>
    policy_build m2 Default = Ok (ae :: (journal, memory_store) engine)"
proof -
  have "is_ok (policy_build m1 Default :: (string, (journal, memory_store) engine) res) \<and>
      is_ok (policy_build m2 Default :: (string, (journal, memory_store) engine) res)"
    using assms by (simp add: compared_def policy_Compare_def split: res.splits)
  then show ?thesis by (simp add: is_ok_iff)
qed

lemma compared_grades:
  "case fst (compared (grade_manifest ''a'' ''x'') (grade_manifest ''b'' ''x'') ''grade'') of
     Ok r \<Rightarrow> Flipped r = 1 | _ \<Rightarrow> False"
  unfolding compared_eval by code_simp

theorem policy_report_is_exact_witness:
  "\<exists>be ae r rt'. compared (grade_manifest ''a'' ''x'') (grade_manifest ''b'' ''x'') ''grade'' = (Ok r, rt') \<and> Flipped r = 1 \<and>
     map ch_Index (pr_Outcomes r) = filter (\<lambda>i. \<not> same_decision
       (paired_runs (\<lambda>_. (sample_host, reversed_host)) be ae 0 (suite_Events (one_event ''grade'')) sample_rt ! i)) [0..<1]"
proof -
  let ?c = "compared (grade_manifest ''a'' ''x'') (grade_manifest ''b'' ''x'') ''grade''"
  obtain r where r: "fst ?c = Ok r" "Flipped r = 1" using compared_grades by (cases "fst ?c") auto
  then have c: "?c = (Ok r, snd ?c)" by (simp add: prod_eq_iff)
  obtain be ae where b: "policy_build (grade_manifest ''a'' ''x'') Default = Ok (be :: (journal, memory_store) engine)"
    "policy_build (grade_manifest ''b'' ''x'') Default = Ok (ae :: (journal, memory_store) engine)"
    using compared_builds [OF c] by blast
  have len: "length (suite_Events (one_event ''grade'')) = 1" by (simp add: one_event_def)
  from policy_report_is_exact [OF b c [unfolded compared_def] refl] len c r(2) show ?thesis
    unfolding compared_def by (metis (no_types, lifting))
qed

theorem identical_manifests_are_clean_witness:
  "case fst (compared (grade_manifest ''a'' ''x'') (grade_manifest ''a'' ''x'') ''grade'') of
     Ok r \<Rightarrow> policy_Clean r | _ \<Rightarrow> False"
proof -
  let ?m = "grade_manifest ''a'' ''x''"
  let ?c = "compared ?m ?m ''grade''"
  have "is_ok (fst ?c)" unfolding compared_eval by code_simp
  then obtain r where c: "?c = (Ok r, snd ?c)" by (auto simp: is_ok_iff prod_eq_iff)
  obtain e where e: "policy_build ?m Default = Ok (e :: (journal, memory_store) engine)" using compared_builds [OF c] by blast
  have "case policy_build ?m Default :: (string, (journal, memory_store) engine) res of
      Ok e \<Rightarrow> list_all (\<lambda>(b, a). \<not> is_conflict b)
        (paired_runs (\<lambda>_. (sample_host, reversed_host)) e e 0 (suite_Events (one_event ''grade'')) sample_rt)
    | _ \<Rightarrow> False"
    unfolding policy_build_eq by code_simp
  then have "\<forall>(b, a) \<in> set (paired_runs (\<lambda>_. (sample_host, reversed_host)) e e 0
      (suite_Events (one_event ''grade'')) sample_rt). \<not> is_conflict b"
    unfolding e by (simp add: list_all_iff)
  from identical_manifests_are_clean [OF e c [unfolded compared_def] _ this] have "policy_Clean r" by simp
  with c show ?thesis by (metis fst_conv res.simps(10))
qed

text \<open>
  The condition is needed: two branches that disagree on two fields make the comparison of a manifest
  with itself report a flipped decision, when map iteration names another field the second time.
\<close>

theorem identical_manifests_may_differ:
  "\<exists>hs. (\<forall>i. host_ok (fst (hs i)) \<and> host_ok (snd (hs i))) \<and>
     (case fst (policy_Compare hs fan_manifest fan_manifest (one_event ''fan'') Default sample_rt) of
        Ok r \<Rightarrow> Flipped r = 1 | _ \<Rightarrow> False)"
proof (intro exI conjI)
  show "\<forall>i. host_ok (fst ((\<lambda>_. (sample_host, reversed_host)) i)) \<and> host_ok (snd ((\<lambda>_. (sample_host, reversed_host)) i))"
    by simp
  show "case fst (policy_Compare (\<lambda>_. (sample_host, reversed_host)) fan_manifest fan_manifest (one_event ''fan'') Default sample_rt) of
        Ok r \<Rightarrow> Flipped r = 1 | _ \<Rightarrow> False"
    unfolding policy_Compare_def policy_build_eq by code_simp
qed

end
