(* ===== verification/Paths.thy ===== *)
theory Paths
  imports Prelude
begin

text \<open>
  The package \<open>path/filepath\<close> on Unix, lexically: \<open>Clean\<close>, \<open>Join\<close>, \<open>IsAbs\<close>. A path is split at its slashes
  into components; \<open>components\<close> are those that name something.
\<close>

fun split_slash :: "string \<Rightarrow> string list" where
  "split_slash [] = [[]]"
| "split_slash (c # s) =
     (if c = CHR ''/'' then [] # split_slash s
      else case split_slash s of p # ps \<Rightarrow> (c # p) # ps | [] \<Rightarrow> [[c]])"

definition IsAbs :: "string \<Rightarrow> bool" where
  "IsAbs p \<longleftrightarrow> has_prefix p ''/''"

text \<open>The components kept so far, last first.\<close>

definition clean_step :: "bool \<Rightarrow> string \<Rightarrow> string list \<Rightarrow> string list" where
  "clean_step rooted c acc =
     (if c = [] \<or> c = ''.'' then acc
      else if c = ''..'' then
        (case acc of
           [] \<Rightarrow> if rooted then [] else [c]
         | a # rest \<Rightarrow> if a = ''..'' then c # acc else rest)
      else c # acc)"

definition clean_comps :: "bool \<Rightarrow> string list \<Rightarrow> string list" where
  "clean_comps rooted cs = rev (fold (clean_step rooted) cs [])"

definition path_Clean :: "string \<Rightarrow> string" where
  "path_Clean p =
     (let rooted = IsAbs p; body = str_join (clean_comps rooted (split_slash p)) ''/'' in
      if rooted then ''/'' @ body else if body = [] then ''.'' else body)"

text \<open>\<open>Join\<close> of two elements.\<close>

definition path_Join :: "string \<Rightarrow> string \<Rightarrow> string" where
  "path_Join a b =
     (if a \<noteq> [] then path_Clean (a @ ''/'' @ b) else if b \<noteq> [] then path_Clean b else [])"

definition components :: "string \<Rightarrow> string list" where
  "components p = filter (\<lambda>c. c \<noteq> []) (split_slash p)"

section \<open>Splitting and joining\<close>

lemma split_slash_not_Nil [simp]: "split_slash s \<noteq> []"
  by (induction s) (auto split: list.split)

lemma split_slash_append: "split_slash (a @ CHR ''/'' # b) = split_slash a @ split_slash b"
  by (induction a) (auto split: list.split)

lemma split_slash_plain: "CHR ''/'' \<notin> set s \<Longrightarrow> split_slash s = [s]"
  by (induction s) auto

lemma split_slash_comps: "c \<in> set (split_slash s) \<Longrightarrow> CHR ''/'' \<notin> set c"
  by (induction s arbitrary: c) (auto split: list.splits if_splits)

lemma components_append: "components (a @ CHR ''/'' # b) = components a @ components b"
  by (simp add: components_def split_slash_append)

lemma components_Cons: "components (CHR ''/'' # b) = components b"
  by (simp add: components_def)

lemma components_plain: "CHR ''/'' \<notin> set s \<Longrightarrow> components s = (if s = [] then [] else [s])"
  by (simp add: components_def split_slash_plain)

lemma components_join:
  "\<forall>c \<in> set cs. c \<noteq> [] \<and> CHR ''/'' \<notin> set c \<Longrightarrow> components (str_join cs ''/'') = cs"
proof (induction cs "''/'' :: string" rule: str_join.induct)
  case (3 x y xs)
  then show ?case by (simp add: components_append components_plain)
qed (simp_all add: components_plain)

section \<open>What cleaning keeps\<close>

text \<open>A rooted path loses every \<open>..\<close>; no component is empty or a dot.\<close>

definition named :: "string \<Rightarrow> bool" where
  "named c \<longleftrightarrow> c \<noteq> [] \<and> c \<noteq> ''.'' \<and> CHR ''/'' \<notin> set c"

lemma clean_step_named:
  assumes "\<forall>c \<in> set acc. named c" and "CHR ''/'' \<notin> set c"
  shows "\<forall>c \<in> set (clean_step rooted c acc). named c"
proof -
  have "named ''..''" by (simp add: named_def)
  moreover have "c \<noteq> [] \<Longrightarrow> c \<noteq> ''.'' \<Longrightarrow> named c" using assms(2) by (simp add: named_def)
  ultimately show ?thesis
    using assms(1) unfolding clean_step_def by (cases acc; cases "c = ''..''"; cases "hd acc = ''..''"; simp)
qed

lemma clean_comps_named:
  assumes "\<forall>c \<in> set cs. CHR ''/'' \<notin> set c"
  shows "\<forall>c \<in> set (clean_comps rooted cs). named c"
proof -
  have "\<forall>c \<in> set acc. named c \<Longrightarrow> \<forall>c \<in> set (fold (clean_step rooted) cs acc). named c" for acc
    using assms
  proof (induction cs arbitrary: acc)
    case (Cons c cs)
    have "\<forall>c \<in> set (clean_step rooted c acc). named c"
      by (rule clean_step_named [OF Cons.prems(1)]) (use Cons.prems(2) in simp)
    with Cons.IH [of "clean_step rooted c acc"] Cons.prems(2) show ?case by simp
  qed simp
  from this [of "[]"] show ?thesis by (simp add: clean_comps_def)
qed

lemma clean_step_rooted: "''..'' \<notin> set acc \<Longrightarrow> ''..'' \<notin> set (clean_step True c acc)"
  by (cases acc; cases "c = ''..''") (auto simp: clean_step_def)

lemma clean_comps_rooted: "''..'' \<notin> set (clean_comps True cs)"
proof -
  have "''..'' \<notin> set acc \<Longrightarrow> ''..'' \<notin> set (fold (clean_step True) cs acc)" for acc
    by (induction cs arbitrary: acc) (simp_all add: clean_step_rooted)
  from this [of "[]"] show ?thesis by (simp add: clean_comps_def)
qed

lemma components_Clean:
  "components (path_Clean p) =
     (if IsAbs p \<or> clean_comps False (split_slash p) \<noteq> [] then clean_comps (IsAbs p) (split_slash p) else [''.''])"
proof -
  let ?cs = "clean_comps (IsAbs p) (split_slash p)"
  have "\<forall>c \<in> set ?cs. named c" by (rule clean_comps_named) (blast dest: split_slash_comps)
  then have cs: "\<forall>c \<in> set ?cs. c \<noteq> [] \<and> CHR ''/'' \<notin> set c" by (simp add: named_def)
  have nil: "str_join ?cs ''/'' = [] \<longleftrightarrow> ?cs = []"
  proof
    assume "str_join ?cs ''/'' = []"
    with components_join [OF cs] show "?cs = []" by (simp add: components_def)
  qed simp
  show ?thesis
  proof (cases "IsAbs p")
    case True
    with components_join [OF cs] show ?thesis by (simp add: path_Clean_def Let_def components_Cons)
  next
    case False
    with components_join [OF cs] nil show ?thesis
      by (cases "clean_comps False (split_slash p) = []") (simp_all add: path_Clean_def Let_def components_plain)
  qed
qed

lemma Clean_rooted: "IsAbs p \<Longrightarrow> IsAbs (path_Clean p) \<and> components (path_Clean p) = clean_comps True (split_slash p)"
  by (simp add: components_Clean) (simp add: path_Clean_def IsAbs_def has_prefix_def Let_def)

lemma Clean_rooted_no_climb: "IsAbs p \<Longrightarrow> ''..'' \<notin> set (components (path_Clean p))"
  by (simp add: Clean_rooted clean_comps_rooted)

end
