(* ===== verification/Catalog.thy ===== *)
theory Catalog
  imports Paths Utf8 Validate
begin

text \<open>
  The catalog of plugins (\<open>catalog/catalog.go\<close>): an index that third parties write, the manifests it
  names, and their installation. The disk is the files by path and which calls fail; what the JSON
  decoder makes of an index, of a manifest and of a manifest's head is a parameter (\<open>decoders\<close>).
\<close>

record catalog_entry =
  en_Name :: string
  en_Description :: string
  en_Version :: string
  en_Tier :: string
  en_Domain :: string
  en_Manifest :: string
  en_Benchmark :: string
  en_Tags :: "string list"

record catalog =
  cat_root :: string
  cat_entries :: "catalog_entry list"

record decoders =
  dec_index :: "string \<Rightarrow> string + catalog_entry list"
  dec_manifest :: "string \<Rightarrow> string + manifest_file"
  dec_name :: "string \<Rightarrow> string + string"

text \<open>
  A write that fails has not opened the file, and leaves it as it was, or has truncated it and left as
  many bytes of the data as \<open>cd_write_fault\<close> says.
\<close>

record catalog_disk =
  cd_files :: "string \<rightharpoonup> string"
  cd_read_fault :: "string \<Rightarrow> string option"
  cd_write_fault :: "string \<Rightarrow> (string \<times> nat option) option"
  cd_mkdir_fault :: "string \<Rightarrow> string option"
  cd_wd :: "string + string"

definition cd_ReadFile :: "string \<Rightarrow> catalog_disk \<Rightarrow> string + string" where
  "cd_ReadFile p d =
     (case cd_read_fault d p of
        Some e \<Rightarrow> Inl e
      | None \<Rightarrow> (case cd_files d p of None \<Rightarrow> Inl (''open '' @ p @ '': no such file or directory'') | Some data \<Rightarrow> Inr data))"

definition cd_WriteFile :: "string \<Rightarrow> string \<Rightarrow> catalog_disk \<Rightarrow> string option \<times> catalog_disk" where
  "cd_WriteFile p data d =
     (case cd_write_fault d p of
        Some (e, None) \<Rightarrow> (Some e, d)
      | Some (e, Some k) \<Rightarrow> (Some e, d\<lparr>cd_files := (cd_files d)(p \<mapsto> take k data)\<rparr>)
      | None \<Rightarrow> (None, d\<lparr>cd_files := (cd_files d)(p \<mapsto> data)\<rparr>))"

text \<open>\<open>filepath.Abs\<close>: the working directory may be unavailable.\<close>

definition path_Abs :: "string \<Rightarrow> catalog_disk \<Rightarrow> string + string" where
  "path_Abs p d =
     (if IsAbs p then Inr (path_Clean p)
      else case cd_wd d of Inl e \<Rightarrow> Inl e | Inr wd \<Rightarrow> Inr (path_Join wd p))"

section \<open>Reading\<close>

definition catalog_Load :: "decoders \<Rightarrow> string \<Rightarrow> catalog_disk \<Rightarrow> string + catalog" where
  "catalog_Load dec dir d =
     (case cd_ReadFile (path_Join dir ''index.json'') d of
        Inl e \<Rightarrow> Inl (''catalog: '' @ e)
      | Inr data \<Rightarrow>
          (case dec_index dec data of
             Inl e \<Rightarrow> Inl (''catalog: invalid index.json: '' @ e)
           | Inr entries \<Rightarrow> Inr \<lparr>cat_root = dir, cat_entries = entries\<rparr>))"

definition Entries :: "catalog \<Rightarrow> catalog_entry list" where
  "Entries c = cat_entries c"

fun find_entry :: "string \<Rightarrow> catalog_entry list \<Rightarrow> catalog_entry option" where
  "find_entry name [] = None"
| "find_entry name (e # es) = (if en_Name e = name then Some e else find_entry name es)"

definition catalog_Find :: "catalog \<Rightarrow> string \<Rightarrow> catalog_entry option" where
  "catalog_Find c name = find_entry name (cat_entries c)"

definition ManifestPath :: "catalog \<Rightarrow> catalog_entry \<Rightarrow> string" where
  "ManifestPath c e = path_Join (cat_root c) (path_Clean (''/'' @ en_Manifest e))"

definition catalog_resolve :: "catalog \<Rightarrow> string \<Rightarrow> catalog_disk \<Rightarrow> string + string" where
  "catalog_resolve c rel d =
     (if rel = [] then Inl ''catalog: empty path''
      else if IsAbs rel then Inl (''catalog: path '' @ quoted rel @ '' must be relative to the catalog'')
      else case path_Abs (cat_root c) d of
        Inl e \<Rightarrow> Inl (''catalog: '' @ e)
      | Inr rootAbs \<Rightarrow>
          (let full = path_Join rootAbs rel in
           if full \<noteq> rootAbs \<and> \<not> has_prefix full (rootAbs @ ''/'') then
             Inl (''catalog: path '' @ quoted rel @ '' escapes the catalog root'')
           else Inr full))"

definition ReadManifest :: "catalog \<Rightarrow> catalog_entry \<Rightarrow> catalog_disk \<Rightarrow> string + string" where
  "ReadManifest c e d =
     (case catalog_resolve c (en_Manifest e) d of Inl err \<Rightarrow> Inl err | Inr path \<Rightarrow> cd_ReadFile path d)"

text \<open>The data, whether there is a benchmark at all, and the error.\<close>

definition ReadBenchmark :: "catalog \<Rightarrow> catalog_entry \<Rightarrow> catalog_disk \<Rightarrow> string \<times> bool \<times> string option" where
  "ReadBenchmark c e d =
     (if en_Benchmark e = [] then ([], False, None)
      else case catalog_resolve c (en_Benchmark e) d of
        Inl err \<Rightarrow> ([], True, Some err)
      | Inr path \<Rightarrow>
          (case cd_ReadFile path d of Inl err \<Rightarrow> ([], True, Some err) | Inr data \<Rightarrow> (data, True, None)))"

section \<open>Names\<close>

definition safe_rune :: "nat \<Rightarrow> bool" where
  "safe_rune r \<longleftrightarrow>
     97 \<le> r \<and> r \<le> 122 \<or> 65 \<le> r \<and> r \<le> 90 \<or> 48 \<le> r \<and> r \<le> 57 \<or> r = 45 \<or> r = 95 \<or> r = 46"

fun has_infix :: "string \<Rightarrow> string \<Rightarrow> bool" where
  "has_infix [] p = (p = [])"
| "has_infix (c # s) p = (has_prefix (c # s) p \<or> has_infix s p)"

definition safeName :: "string \<Rightarrow> string option" where
  "safeName name =
     (if name = [] then Some ''catalog: empty plugin name''
      else if \<not> list_all safe_rune (runes (map of_char name)) then
        Some (''catalog: plugin name '' @ quoted name @ '' contains an unsupported character'')
      else if name = ''.'' \<or> name = ''..'' \<or> has_infix name ''..'' then
        Some (''catalog: plugin name '' @ quoted name @ '' is not a plain name'')
      else None)"

definition manifestName :: "decoders \<Rightarrow> string \<Rightarrow> string \<times> bool" where
  "manifestName dec data =
     (case dec_name dec data of Inl _ \<Rightarrow> ([], False) | Inr name \<Rightarrow> (name, name \<noteq> []))"

section \<open>Linting and installing\<close>

text \<open>The checks of one entry whose name is safe and not empty, after the duplicate check.\<close>

definition lint_manifest :: "decoders \<Rightarrow> 'w library \<Rightarrow> catalog \<Rightarrow> catalog_disk \<Rightarrow> string \<Rightarrow> catalog_entry \<Rightarrow> report" where
  "lint_manifest dec std c d prefix e =
     (if en_Manifest e = [] then [errf (prefix @ '': no manifest path'')]
      else case ReadManifest c e d of
        Inl err \<Rightarrow> [errf (prefix @ '': cannot read manifest: '' @ err)]
      | Inr data \<Rightarrow>
          (case manifestName dec data of
             (name, ok) \<Rightarrow>
               if ok \<and> en_Domain e \<noteq> [] \<and> name \<noteq> en_Domain e then
                 [warnf (prefix @ '': entry domain '' @ quoted (en_Domain e) @ '' does not match manifest name '' @ quoted name)]
               else []) @
          map (\<lambda>i. i\<lparr>issue_Message := prefix @ '': '' @ issue_Message i\<rparr>) (Validate (dec_manifest dec data) std))"

definition lint_entry :: "decoders \<Rightarrow> 'w library \<Rightarrow> catalog \<Rightarrow> catalog_disk \<Rightarrow> string \<Rightarrow> catalog_entry \<Rightarrow> report" where
  "lint_entry dec std c d prefix e =
     (if en_Tier e \<noteq> ''L1'' \<and> en_Tier e \<noteq> ''L2'' then
        [errf (prefix @ '': tier '' @ quoted (en_Tier e) @ '' must be L1 or L2'')] else []) @
     (if en_Version e = [] then [warnf (prefix @ '': no version'')] else []) @
     lint_manifest dec std c d prefix e"

fun lint_entries :: "decoders \<Rightarrow> 'w library \<Rightarrow> catalog \<Rightarrow> catalog_disk \<Rightarrow> string set \<Rightarrow> catalog_entry list \<Rightarrow> report" where
  "lint_entries dec std c d seen [] = []"
| "lint_entries dec std c d seen (e # es) =
     (let prefix = ''plugin '' @ quoted (en_Name e) in
      if en_Name e = [] then errf ''an entry is missing a name'' # lint_entries dec std c d seen es
      else case safeName (en_Name e) of
        Some err \<Rightarrow> errf (prefix @ '': '' @ err) # lint_entries dec std c d seen es
      | None \<Rightarrow>
          (if en_Name e \<in> seen then [errf (prefix @ '': duplicate entry name'')] else []) @
          lint_entry dec std c d prefix e @
          lint_entries dec std c d (insert (en_Name e) seen) es)"

definition Lint :: "decoders \<Rightarrow> 'w library \<Rightarrow> catalog \<Rightarrow> catalog_disk \<Rightarrow> report" where
  "Lint dec std c d = lint_entries dec std c d {} (cat_entries c)"

definition Install :: "decoders \<Rightarrow> 'w library \<Rightarrow> catalog \<Rightarrow> catalog_entry \<Rightarrow> string \<Rightarrow> catalog_disk \<Rightarrow>
    (string + string) \<times> catalog_disk" where
  "Install dec std c e destDir d =
     (case safeName (en_Name e) of
        Some err \<Rightarrow> (Inl err, d)
      | None \<Rightarrow>
          (case ReadManifest c e d of
             Inl err \<Rightarrow> (Inl (''catalog: cannot read manifest for '' @ quoted (en_Name e) @ '': '' @ err), d)
           | Inr data \<Rightarrow>
               (let report = Validate (dec_manifest dec data) std in
                if \<not> report_OK report then
                  (Inl (''catalog: refusing to install '' @ quoted (en_Name e) @ '', its manifest has errors:'' @
                        [CHR 0x0A] @ report_String report), d)
                else case cd_mkdir_fault d destDir of
                  Some err \<Rightarrow> (Inl (''catalog: '' @ err), d)
                | None \<Rightarrow>
                    (let dest = path_Join destDir (en_Name e @ ''.json'') in
                     case cd_WriteFile dest data d of
                       (Some err, d1) \<Rightarrow> (Inl (''catalog: '' @ err), d1)
                     | (None, d1) \<Rightarrow> (Inr dest, d1)))))"

end
