(* ===== verification/CatalogFacts.thy ===== *)
theory CatalogFacts
  imports Catalog FilestoreFacts Validated
begin

text \<open>
  What the catalog guarantees against an index written by a stranger: no path leads out of the catalog,
  no installation out of its directory, and a catalog without lint errors installs entirely.
\<close>

section \<open>Names\<close>

lemma safeName_chars: "safeName n = None \<Longrightarrow> c \<in> set n \<Longrightarrow> safe_rune (of_char c)"
proof -
  assume a: "safeName n = None" "c \<in> set n"
  let ?bs = "map of_char n :: nat list"
  have safe: "list_all safe_rune (runes ?bs)" using a(1) by (simp add: safeName_def split: if_splits)
  have "safe_rune r \<Longrightarrow> r < 0x80" for r by (auto simp: safe_rune_def)
  with safe have "list_all (\<lambda>r. r < 0x80) (runes ?bs)" unfolding list_all_iff by blast
  then have "runes ?bs = ?bs" by (rule runes_ascii)
  with safe a(2) show ?thesis by (simp add: list_all_iff)
qed

lemma safeName_no_slash: "safeName n = None \<Longrightarrow> CHR ''/'' \<notin> set n"
  using safeName_chars [of n "CHR ''/''"] by (auto simp: safe_rune_def)

section \<open>Staying inside\<close>

lemma path_Abs_rooted:
  assumes "path_Abs p d = Inr full" and "\<And>wd. cd_wd d = Inr wd \<Longrightarrow> IsAbs wd"
  shows "IsAbs full \<and> ''..'' \<notin> set (components full) \<and> full \<noteq> []"
proof -
  obtain q where q: "IsAbs q" "full = path_Clean q"
  proof (cases "IsAbs p")
    case True
    with assms(1) that show ?thesis by (simp add: path_Abs_def)
  next
    case False
    with assms(1) obtain wd where wd: "cd_wd d = Inr wd" "full = path_Join wd p"
      by (auto simp: path_Abs_def split: sum.splits)
    have "IsAbs wd" by (rule assms(2) [OF wd(1)])
    then have "IsAbs (wd @ ''/'' @ p)" "wd \<noteq> []" by (auto simp: IsAbs_def has_prefix_iff)
    with wd(2) that show ?thesis by (simp add: path_Join_def)
  qed
  have "IsAbs full" unfolding q(2) using Clean_rooted [OF q(1)] by blast
  moreover have "''..'' \<notin> set (components full)" unfolding q(2) by (rule Clean_rooted_no_climb [OF q(1)])
  ultimately show ?thesis by (auto simp: IsAbs_def has_prefix_def)
qed

lemma join_rooted: "IsAbs a \<Longrightarrow> IsAbs (path_Join a b) \<and> ''..'' \<notin> set (components (path_Join a b)) \<and>
    components (path_Join a b) = clean_comps True (split_slash a @ split_slash b)"
proof -
  assume "IsAbs a"
  then have r: "IsAbs (a @ ''/'' @ b)" and "a \<noteq> []" by (auto simp: IsAbs_def has_prefix_iff)
  then show ?thesis
    using Clean_rooted [OF r] Clean_rooted_no_climb [OF r] by (simp add: path_Join_def split_slash_append)
qed

text \<open>
  C30. A path of the index never leads out of the catalog: what \<open>resolve\<close> accepts is an absolute path
  whose components begin with the root's and never climb, and manifests and benchmarks are read at
  such paths only.
\<close>

theorem catalog_paths_stay_inside:
  assumes "\<And>wd. cd_wd d = Inr wd \<Longrightarrow> IsAbs wd" and "catalog_resolve c rel d = Inr full"
  shows "\<exists>rootAbs cs. path_Abs (cat_root c) d = Inr rootAbs \<and> IsAbs full \<and>
    components full = components rootAbs @ cs \<and> ''..'' \<notin> set (components full)"
proof -
  obtain rootAbs where root: "path_Abs (cat_root c) d = Inr rootAbs"
    and full: "full = path_Join rootAbs rel" and inside: "full = rootAbs \<or> has_prefix full (rootAbs @ ''/'')"
    using assms(2) by (auto simp: catalog_resolve_def Let_def split: if_splits sum.splits)
  have abs: "IsAbs rootAbs" using path_Abs_rooted [OF root assms(1)] by blast
  have "\<exists>cs. components full = components rootAbs @ cs"
    using inside
  proof
    assume "has_prefix full (rootAbs @ ''/'')"
    then obtain t where "full = rootAbs @ CHR ''/'' # t" by (auto simp: has_prefix_iff)
    then show ?thesis by (simp add: components_append)
  qed simp
  with root join_rooted [OF abs, of rel] full show ?thesis by blast
qed

section \<open>Accepting what is inside\<close>

lemma climb_stays:
  "acc \<noteq> [] \<Longrightarrow> last acc = ''..'' \<Longrightarrow> fold (clean_step False) cs acc \<noteq> [] \<and> last (fold (clean_step False) cs acc) = ''..''"
proof (induction cs arbitrary: acc)
  case (Cons c cs)
  obtain a rest where acc: "acc = a # rest" using Cons.prems(1) by (cases acc) auto
  have "clean_step False c acc \<noteq> [] \<and> last (clean_step False c acc) = ''..''"
  proof (cases "c = ''..'' \<and> a \<noteq> ''..''")
    case True
    with Cons.prems(2) acc have "rest \<noteq> []" by auto
    with True Cons.prems(2) show ?thesis by (simp add: clean_step_def acc)
  next
    case False
    with Cons.prems(2) show ?thesis by (auto simp: clean_step_def acc)
  qed
  with Cons.IH show ?case by simp
qed simp

lemma clean_under:
  "''..'' \<notin> set (fold (clean_step False) cs acc) \<Longrightarrow> ''..'' \<notin> set acc \<Longrightarrow>
   fold (clean_step True) cs (acc @ base) = fold (clean_step False) cs acc @ base"
proof (induction cs arbitrary: acc)
  case (Cons c cs)
  have no: "\<not> (c = ''..'' \<and> acc = [])"
  proof
    assume "c = ''..'' \<and> acc = []"
    then have "fold (clean_step False) (c # cs) acc = fold (clean_step False) cs [''..'']" by (simp add: clean_step_def)
    with climb_stays [of "[''..'']" cs] have "''..'' \<in> set (fold (clean_step False) (c # cs) acc)"
      by (metis last.simps last_in_set list.distinct(1))
    with Cons.prems(1) show False by blast
  qed
  have eq: "clean_step True c (acc @ base) = clean_step False c acc @ base"
  proof (cases "c = ''..''")
    case True
    with no obtain a rest where "acc = a # rest" by (cases acc) auto
    with True Cons.prems(2) show ?thesis by (simp add: clean_step_def)
  next
    case False
    then show ?thesis by (simp add: clean_step_def)
  qed
  have "''..'' \<notin> set (clean_step False c acc)"
    using Cons.prems(2) no by (cases acc) (auto simp: clean_step_def split: if_splits)
  with Cons.IH [of "clean_step False c acc"] Cons.prems(1) eq show ?case by simp
qed simp

lemma clean_plain:
  "\<forall>c \<in> set cs. c \<noteq> [] \<longrightarrow> named c \<and> c \<noteq> ''..'' \<Longrightarrow>
   fold (clean_step True) cs acc = rev (filter (\<lambda>c. c \<noteq> []) cs) @ acc"
proof (induction cs arbitrary: acc)
  case (Cons c cs)
  then have "clean_step True c acc = (if c = [] then acc else c # acc)" by (auto simp: clean_step_def named_def)
  with Cons show ?case by simp
qed simp

lemma Clean_text: "IsAbs p \<Longrightarrow> path_Clean p = ''/'' @ str_join (components (path_Clean p)) ''/''"
  unfolding Clean_rooted [THEN conjunct2] by (simp add: path_Clean_def Let_def)

lemma Clean_components_named: "IsAbs p \<Longrightarrow> c \<in> set (components (path_Clean p)) \<Longrightarrow> named c"
  using clean_comps_named [of "split_slash p" True] split_slash_comps by (auto simp: Clean_rooted)

lemma str_join_append: "a \<noteq> [] \<Longrightarrow> b \<noteq> [] \<Longrightarrow> str_join (a @ b) sep = str_join a sep @ sep @ str_join b sep"
proof (induction a sep rule: str_join.induct)
  case (2 x sep)
  then show ?case by (cases b) simp_all
qed simp_all

lemma join_under:
  assumes "IsAbs q" and "base = path_Clean q" and "''..'' \<notin> set (clean_comps False (split_slash rel))"
  shows "components (path_Join base rel) = components base @ clean_comps False (split_slash rel)"
proof -
  have root: "IsAbs base" using Clean_rooted [OF assms(1)] assms(2) by simp
  have "\<forall>c \<in> set (split_slash base). c \<noteq> [] \<longrightarrow> named c \<and> c \<noteq> ''..''"
  proof (intro ballI impI)
    fix c assume "c \<in> set (split_slash base)" "c \<noteq> []"
    then have "c \<in> set (components base)" by (simp add: components_def)
    then show "named c \<and> c \<noteq> ''..''"
      using Clean_components_named [OF assms(1)] Clean_rooted_no_climb [OF assms(1)] unfolding assms(2) by metis
  qed
  then have "fold (clean_step True) (split_slash base) [] = rev (components base)"
    using clean_plain [of "split_slash base" "[]"] by (simp add: components_def)
  moreover have "fold (clean_step True) (split_slash rel) ([] @ rev (components base)) =
      fold (clean_step False) (split_slash rel) [] @ rev (components base)"
    by (rule clean_under) (use assms(3) in \<open>simp_all add: clean_comps_def\<close>)
  ultimately show ?thesis using join_rooted [OF root, of rel] by (simp add: clean_comps_def)
qed

text \<open>
  And no path inside is refused: below a root that is not the file system's, every relative path
  that names something without climbing out resolves, to that place under the root.
\<close>

theorem catalog_accepts_inside:
  assumes "path_Abs (cat_root c) d = Inr rootAbs" and "\<And>wd. cd_wd d = Inr wd \<Longrightarrow> IsAbs wd"
    and "components rootAbs \<noteq> []" and "rel \<noteq> []" and "\<not> IsAbs rel"
    and "''..'' \<notin> set (clean_comps False (split_slash rel))"
  shows "\<exists>full. catalog_resolve c rel d = Inr full \<and>
    components full = components rootAbs @ clean_comps False (split_slash rel)"
proof -
  obtain q where q: "IsAbs q" "rootAbs = path_Clean q"
    using assms(1,2)
    by (auto simp: path_Abs_def path_Join_def IsAbs_def has_prefix_iff split: if_splits sum.splits)
  let ?full = "path_Join rootAbs rel" and ?cs = "clean_comps False (split_slash rel)"
  have comps: "components ?full = components rootAbs @ ?cs" by (rule join_under [OF q assms(6)])
  have root: "rootAbs = ''/'' @ str_join (components rootAbs) ''/''" using Clean_text [OF q(1)] q(2) by simp
  have abs: "IsAbs rootAbs" using Clean_rooted [OF q(1)] q(2) by simp
  then have "IsAbs (rootAbs @ ''/'' @ rel)" "rootAbs \<noteq> []" by (auto simp: IsAbs_def has_prefix_iff)
  then have "?full = ''/'' @ str_join (components ?full) ''/''"
    using Clean_text [of "rootAbs @ ''/'' @ rel"] by (simp add: path_Join_def)
  then have full: "?full = ''/'' @ str_join (components rootAbs @ ?cs) ''/''" by (simp add: comps)
  have "?full = rootAbs \<or> has_prefix ?full (rootAbs @ ''/'')"
  proof (cases "?cs = []")
    case True
    then show ?thesis using full root by simp
  next
    case False
    have "?full = rootAbs @ ''/'' @ str_join ?cs ''/''"
      using full root str_join_append [OF assms(3) False, of "''/''"] by simp
    then show ?thesis unfolding has_prefix_iff by (metis append.assoc)
  qed
  then have "catalog_resolve c rel d = Inr ?full" using assms(1,4,5) by (simp add: catalog_resolve_def Let_def)
  with comps show ?thesis by blast
qed

text \<open>At the root of the file system nothing is inside: every manifest path is refused.\<close>

theorem root_catalog_refuses_everything:
  assumes "cat_root c = ''/''" and "catalog_resolve c rel d = Inr full"
  shows "full = ''/''"
proof -
  have root: "path_Abs (cat_root c) d = Inr ''/''"
    unfolding assms(1) by (simp add: path_Abs_def IsAbs_def has_prefix_def path_Clean_def clean_comps_def clean_step_def)
  let ?full = "path_Join ''/'' rel"
  have "IsAbs (''/'' @ ''/'' @ rel)" by (simp add: IsAbs_def has_prefix_def)
  then have t: "?full = ''/'' @ str_join (components ?full) ''/''" and n: "\<And>c. c \<in> set (components ?full) \<Longrightarrow> named c"
    using Clean_text [of "''/'' @ ''/'' @ rel"] Clean_components_named [of "''/'' @ ''/'' @ rel"] by (simp_all add: path_Join_def)
  have "\<not> has_prefix ?full ''//''"
  proof
    assume "has_prefix ?full ''//''"
    then obtain r where r: "str_join (components ?full) ''/'' = CHR ''/'' # r" using t by (auto simp: has_prefix_iff)
    then obtain x xs where xs: "components ?full = x # xs" by (cases "components ?full") auto
    with n have "x \<noteq> []" "CHR ''/'' \<notin> set x" by (auto simp: named_def)
    with r xs show False by (cases x; cases xs) auto
  qed
  with assms(2) root show ?thesis by (auto simp: catalog_resolve_def Let_def split: if_splits)
qed

section \<open>Installing\<close>

lemma clean_comps_snoc: "named f \<Longrightarrow> f \<noteq> ''..'' \<Longrightarrow> clean_comps r (cs @ [f]) = clean_comps r cs @ [f]"
  by (simp add: clean_comps_def clean_step_def named_def)

lemma file_named: "safeName n = None \<Longrightarrow> named (n @ ''.json'') \<and> n @ ''.json'' \<noteq> ''..''"
  using safeName_no_slash [of n] by (auto simp: named_def append_eq_Cons_conv)

lemma dest_components:
  assumes "safeName n = None"
  shows "components (path_Join dir (n @ ''.json'')) = clean_comps (IsAbs dir) (split_slash dir) @ [n @ ''.json'']"
proof -
  have f: "named (n @ ''.json'')" "n @ ''.json'' \<noteq> ''..''" and split: "split_slash (n @ ''.json'') = [n @ ''.json'']"
    using file_named [OF assms] by (simp_all add: named_def split_slash_plain)
  show ?thesis
  proof (cases dir)
    case Nil
    have "\<not> IsAbs (n @ ''.json'')" using f(1) by (auto simp: named_def IsAbs_def has_prefix_iff append_eq_Cons_conv)
    then show ?thesis
      using clean_comps_snoc [OF f, of False "[]"] clean_comps_snoc [OF f, of False "[[]]"] Nil split
      by (simp add: path_Join_def components_Clean IsAbs_def has_prefix_def clean_comps_def clean_step_def)
  next
    case (Cons x xs)
    have "IsAbs (dir @ ''/'' @ n @ ''.json'') = IsAbs dir" using Cons by (simp add: IsAbs_def has_prefix_def)
    moreover have "dir \<noteq> []" using Cons by simp
    ultimately show ?thesis
      by (simp add: path_Join_def components_Clean split_slash_append split clean_comps_snoc [OF f])
  qed
qed

lemma write_outcome:
  "cd_WriteFile p data d = (r, d1) \<Longrightarrow>
   r = None \<and> d1 = d\<lparr>cd_files := (cd_files d)(p \<mapsto> data)\<rparr> \<or> r \<noteq> None \<and> d1 = d \<or>
   r \<noteq> None \<and> (\<exists>k. d1 = d\<lparr>cd_files := (cd_files d)(p \<mapsto> take k data)\<rparr>)"
  by (auto simp: cd_WriteFile_def split: option.splits prod.splits)

text \<open>The two ways an installation ends.\<close>

lemma install_outcome:
  "case Install dec std c e destDir d of
     (Inl err, d1) \<Rightarrow> d1 = d \<or>
       (\<exists>dest data k. components dest = clean_comps (IsAbs destDir) (split_slash destDir) @ [en_Name e @ ''.json''] \<and>
          ReadManifest c e d = Inr data \<and> report_OK (Validate (dec_manifest dec data) std) \<and>
          d1 = d\<lparr>cd_files := (cd_files d)(dest \<mapsto> take k data)\<rparr>)
   | (Inr dest, d1) \<Rightarrow>
       components dest = clean_comps (IsAbs destDir) (split_slash destDir) @ [en_Name e @ ''.json''] \<and>
       (\<exists>data. ReadManifest c e d = Inr data \<and> report_OK (Validate (dec_manifest dec data) std) \<and>
          d1 = d\<lparr>cd_files := (cd_files d)(dest \<mapsto> data)\<rparr>)"
proof (cases "safeName (en_Name e) = None \<and> (\<exists>data. ReadManifest c e d = Inr data \<and>
    report_OK (Validate (dec_manifest dec data) std)) \<and> cd_mkdir_fault d destDir = None")
  case False
  then show ?thesis by (auto simp: Install_def Let_def split: option.split sum.split)
next
  case True
  then obtain data where ok: "safeName (en_Name e) = None" "ReadManifest c e d = Inr data"
    "report_OK (Validate (dec_manifest dec data) std)" "cd_mkdir_fault d destDir = None" by blast
  let ?dest = "path_Join destDir (en_Name e @ ''.json'')"
  have at: "components ?dest = clean_comps (IsAbs destDir) (split_slash destDir) @ [en_Name e @ ''.json'']"
    by (rule dest_components [OF ok(1)])
  obtain r d1 where w: "cd_WriteFile ?dest data d = (r, d1)" by force
  have run: "Install dec std c e destDir d = (case r of Some err \<Rightarrow> (Inl (''catalog: '' @ err), d1) | None \<Rightarrow> (Inr ?dest, d1))"
    using ok w by (simp add: Install_def Let_def split: option.split)
  show ?thesis unfolding run using write_outcome [OF w] ok at by (cases r) auto
qed

text \<open>
  Installing stays in its directory: at most one file changes, the plugin's name with \<open>.json\<close> directly
  below the directory. After a success it holds the manifest's bytes as the catalog has them, which the
  validator accepted. After an error the disk is untouched, unless the write itself failed: then the file
  may hold some first part of those bytes, with nothing said about whether the validator accepts it.
\<close>

theorem install_writes_one_file:
  "case Install dec std c e destDir d of
     (Inl err, d1) \<Rightarrow> d1 = d \<or>
       (\<exists>dest data k. components dest = clean_comps (IsAbs destDir) (split_slash destDir) @ [en_Name e @ ''.json''] \<and>
          ReadManifest c e d = Inr data \<and> report_OK (Validate (dec_manifest dec data) std) \<and>
          d1 = d\<lparr>cd_files := (cd_files d)(dest \<mapsto> take k data)\<rparr>)
   | (Inr dest, d1) \<Rightarrow>
       components dest = clean_comps (IsAbs destDir) (split_slash destDir) @ [en_Name e @ ''.json''] \<and>
       (\<exists>data. ReadManifest c e d = Inr data \<and> report_OK (Validate (dec_manifest dec data) std) \<and>
          d1 = d\<lparr>cd_files := (cd_files d)(dest \<mapsto> data)\<rparr>)"
  by (rule install_outcome)

text \<open>A disk that fills up in the middle of a write: the old plugin is gone and half a manifest is there.\<close>

lemma failed_installs_may_tear:
  assumes "safeName (en_Name e) = None" and "ReadManifest c e d = Inr data"
    and "report_OK (Validate (dec_manifest dec data) std)" and "cd_mkdir_fault d destDir = None"
    and "cd_write_fault d (path_Join destDir (en_Name e @ ''.json'')) = Some (err, Some k)"
  shows "fst (Install dec std c e destDir d) = Inl (''catalog: '' @ err) \<and>
    cd_files (snd (Install dec std c e destDir d)) (path_Join destDir (en_Name e @ ''.json'')) = Some (take k data)"
  using assms by (simp add: Install_def cd_WriteFile_def Let_def)

section \<open>Linting\<close>

lemma report_OK_if [simp]: "report_OK (if b then [errf m] else []) \<longleftrightarrow> \<not> b"
  by simp

lemma lint_entries_ok:
  assumes "report_OK (lint_entries dec std c d seen es)"
  shows "distinct (map en_Name es) \<and> en_Name ` set es \<inter> seen = {} \<and>
    (\<forall>e \<in> set es. safeName (en_Name e) = None \<and> report_OK (lint_manifest dec std c d (''plugin '' @ quoted (en_Name e)) e))"
  using assms
proof (induction es arbitrary: seen)
  case (Cons e es)
  have n: "en_Name e \<noteq> []" using Cons.prems by (auto simp: Let_def)
  have safe: "safeName (en_Name e) = None"
    using Cons.prems n by (cases "safeName (en_Name e)") (simp_all add: Let_def)
  from Cons.prems n safe have
    "en_Name e \<notin> seen" "report_OK (lint_entry dec std c d (''plugin '' @ quoted (en_Name e)) e)"
    "report_OK (lint_entries dec std c d (insert (en_Name e) seen) es)"
    by (simp_all add: Let_def split: if_splits)
  with Cons.IH [of "insert (en_Name e) seen"] safe show ?case by (auto simp: lint_entry_def split: if_splits)
qed simp

lemma lint_manifest_ok:
  assumes "report_OK (lint_manifest dec std c d prefix e)"
  obtains data where "ReadManifest c e d = Inr data" and "report_OK (Validate (dec_manifest dec data) std)"
proof (cases "ReadManifest c e d")
  case (Inl err)
  with assms show ?thesis by (simp add: lint_manifest_def split: if_splits)
next
  case (Inr data)
  let ?vs = "Validate (dec_manifest dec data) std"
  have "report_OK (map (\<lambda>i. i\<lparr>issue_Message := prefix @ '': '' @ issue_Message i\<rparr>) ?vs)"
    using assms Inr by (auto simp: lint_manifest_def split: if_splits prod.splits)
  then have "report_OK ?vs" by (simp add: report_OK_def)
  then show ?thesis by (rule that [OF Inr])
qed

text \<open>
  A catalog whose lint report has no error can be installed as a whole: its names are distinct, so no
  plugin overwrites another, and every entry installs wherever the directory can be made and the file
  written.
\<close>

theorem linted_catalogs_install:
  assumes "report_OK (Lint dec std c d)"
  shows "distinct (map en_Name (cat_entries c)) \<and>
    (\<forall>e \<in> set (cat_entries c). cd_mkdir_fault d destDir = None \<longrightarrow>
       cd_write_fault d (path_Join destDir (en_Name e @ ''.json'')) = None \<longrightarrow>
       fst (Install dec std c e destDir d) = Inr (path_Join destDir (en_Name e @ ''.json'')))"
proof -
  note ok = lint_entries_ok [OF assms [unfolded Lint_def]]
  have "fst (Install dec std c e destDir d) = Inr (path_Join destDir (en_Name e @ ''.json''))"
    if e: "e \<in> set (cat_entries c)" and w: "cd_mkdir_fault d destDir = None"
      "cd_write_fault d (path_Join destDir (en_Name e @ ''.json'')) = None" for e
  proof -
    have safe: "safeName (en_Name e) = None"
      and "report_OK (lint_manifest dec std c d (''plugin '' @ quoted (en_Name e)) e)" using ok e by blast+
    then obtain data where "ReadManifest c e d = Inr data" "report_OK (Validate (dec_manifest dec data) std)"
      by (elim lint_manifest_ok)
    with safe w show ?thesis by (simp add: Install_def cd_WriteFile_def Let_def)
  qed
  with ok show ?thesis by blast
qed

section \<open>A catalog of one plugin\<close>

definition sample_entry :: catalog_entry where
  "sample_entry =
     \<lparr>en_Name = ''shop'', en_Description = [], en_Version = ''1'', en_Tier = ''L1'', en_Domain = ''shop'',
      en_Manifest = ''shop/m.json'', en_Benchmark = [], en_Tags = []\<rparr>"

definition sample_catalog :: catalog where
  "sample_catalog = \<lparr>cat_root = ''/cat'', cat_entries = [sample_entry]\<rparr>"

definition sample_decoders :: decoders where
  "sample_decoders =
     \<lparr>dec_index = (\<lambda>_. Inr [sample_entry]), dec_manifest = (\<lambda>_. Inr sample_manifest), dec_name = (\<lambda>_. Inr ''shop'')\<rparr>"

definition sample_disk :: catalog_disk where
  "sample_disk =
     \<lparr>cd_files = [''/cat/shop/m.json'' \<mapsto> ''{}''], cd_read_fault = (\<lambda>_. None), cd_write_fault = (\<lambda>_. None),
      cd_mkdir_fault = (\<lambda>_. None), cd_wd = Inr ''/''\<rparr>"

lemma sample_resolve: "catalog_resolve sample_catalog ''shop/m.json'' sample_disk = Inr ''/cat/shop/m.json''"
  by code_simp

lemma sample_root: "path_Abs (cat_root sample_catalog) sample_disk = Inr ''/cat''"
  by code_simp

lemma sample_read: "ReadManifest sample_catalog sample_entry sample_disk = Inr ''{}''"
  using sample_resolve
  by (simp add: ReadManifest_def sample_entry_def cd_ReadFile_def) (simp add: sample_disk_def)

lemma sample_safe: "safeName ''shop'' = None"
  by code_simp

lemma sample_catalog_simps:
  "en_Name sample_entry = ''shop''" "en_Tier sample_entry = ''L1''" "en_Version sample_entry = ''1''"
  "en_Manifest sample_entry = ''shop/m.json''" "cat_entries sample_catalog = [sample_entry]"
  "dec_manifest sample_decoders data = Inr sample_manifest" "dec_name sample_decoders data = Inr ''shop''"
  "cd_mkdir_fault sample_disk p = None" "cd_write_fault sample_disk p = None" "cd_wd sample_disk = Inr ''/''"
  "IsAbs ''/''"
  by (simp_all add: sample_entry_def sample_catalog_def sample_decoders_def sample_disk_def IsAbs_def has_prefix_def)

lemma sample_lint: "report_OK (Lint sample_decoders (Map.empty :: journal library) sample_catalog sample_disk)"
proof -
  have "report_OK (lint_manifest sample_decoders (Map.empty :: journal library) sample_catalog sample_disk p sample_entry)" for p
    using sample_manifest_OK
    by (simp add: lint_manifest_def sample_read sample_catalog_simps manifestName_def Validate_def)
      (simp add: report_OK_def warnf_def)
  then show ?thesis by (simp add: Lint_def lint_entry_def sample_catalog_simps sample_safe Let_def)
qed

lemma catalog_paths_stay_inside_witness:
  "\<exists>cs. components ''/cat/shop/m.json'' = components ''/cat'' @ cs \<and> ''..'' \<notin> set (components ''/cat/shop/m.json'')"
  using catalog_paths_stay_inside [of sample_disk sample_catalog "''shop/m.json''" "''/cat/shop/m.json''"] sample_resolve
    sample_root by (simp add: sample_catalog_simps)

lemma catalog_accepts_inside_witness:
  "\<exists>full. catalog_resolve sample_catalog ''a/../b'' sample_disk = Inr full \<and> components full = [''cat'', ''b'']"
proof -
  have "components ''/cat'' = [''cat'']" "\<not> IsAbs ''a/../b''" "clean_comps False (split_slash ''a/../b'') = [''b'']"
    by code_simp+
  then show ?thesis
    using catalog_accepts_inside [OF sample_root, of "''a/../b''"] by (simp add: sample_catalog_simps)
qed

lemma linted_catalogs_install_witness:
  "fst (Install sample_decoders (Map.empty :: journal library) sample_catalog sample_entry ''/etc/cee'' sample_disk) =
     Inr (path_Join ''/etc/cee'' ''shop.json'')"
  using linted_catalogs_install [OF sample_lint, of "''/etc/cee''"] by (simp add: sample_catalog_simps)

end
