(* ===== verification/HttpApi.thy ===== *)
theory HttpApi
  imports Resume Json
begin

text \<open>
  The HTTP front of an engine (\<open>httpapi/httpapi.go\<close>): run, resume and list pending runs, behind an
  \<open>Identify\<close> the deployment provides. A handler takes the state of the engine's world and store and gives
  the response; a panic of the run, which \<open>net/http\<close> turns into an aborted connection, is \<open>Panicked\<close>.
  What the JSON decoder makes of the bytes a limited reader lets through, and whether the reader stopped
  it, is a parameter (\<open>wire\<close>); responses are marshalled by \<open>json_marshal\<close>, a struct being an object whose
  members come in the order of its fields.
\<close>

record http_request =
  hr_Method :: string
  hr_Path :: string
  hr_Header :: "(string \<times> string) list"
  hr_Body :: string

record http_response =
  resp_Status :: nat
  resp_ContentType :: string
  resp_Body :: string

record run_request =
  rq_Workflow :: string
  rq_Context :: ctx

record resume_request =
  rq_Pointer :: string
  rq_Resolution :: ctx

record run_response =
  rs_Status :: string
  rs_Output :: ctx
  rs_Trace :: "string list"
  rs_StatePointer :: string
  rs_Reason :: string

record pending_entry =
  pe_Workflow :: string
  pe_Step :: string
  pe_Reason :: string
  pe_Audience :: string

record wire =
  wire_run :: "string \<Rightarrow> bool \<Rightarrow> run_request option"
  wire_resume :: "string \<Rightarrow> bool \<Rightarrow> resume_request option"

record ('w, 's) api =
  cfg_Engine :: "('w, 's) engine option"
  cfg_Identify :: "(http_request \<Rightarrow> 'w \<Rightarrow> (string + string) \<times> 'w) option"
  cfg_AllowAnonymous :: bool
  cfg_Pending :: "('s \<Rightarrow> string + state list) option"
  cfg_MaxBodyBytes :: int
  cfg_Logger :: "(exec_error \<Rightarrow> 'w \<Rightarrow> 'w) option"

definition DefaultMaxBodyBytes :: int where
  "DefaultMaxBodyBytes = 1048576"

definition api_New :: "('w, 's) api \<Rightarrow> string + ('w, 's) api" where
  "api_New cfg =
     (if cfg_Engine cfg = None then Inl ''httpapi: an Engine is required''
      else if cfg_Identify cfg = None \<and> \<not> cfg_AllowAnonymous cfg then
        Inl ''httpapi: set Identify, or set AllowAnonymous to serve without authentication on purpose''
      else if cfg_MaxBodyBytes cfg \<le> 0 then Inr (cfg\<lparr>cfg_MaxBodyBytes := DefaultMaxBodyBytes\<rparr>)
      else Inr cfg)"

section \<open>Responses\<close>

text \<open>A body that cannot be marshalled is dropped after the status has been sent.\<close>

definition writeJSON :: "nat \<Rightarrow> gval \<Rightarrow> http_response" where
  "writeJSON status body =
     \<lparr>resp_Status = status, resp_ContentType = ''application/json'',
      resp_Body = (case json_marshal body of None \<Rightarrow> [] | Some s \<Rightarrow> s @ [CHR 0x0A])\<rparr>"

definition writeError :: "nat \<Rightarrow> string \<Rightarrow> http_response" where
  "writeError status message = writeJSON status (GObj [(''error'', GStr message)])"

text \<open>\<open>omitempty\<close>.\<close>

fun empty_value :: "gval \<Rightarrow> bool" where
  "empty_value (GStr s) = (s = [])"
| "empty_value (GStrs xs) = (xs = [])"
| "empty_value (GObj m) = (m = [])"
| "empty_value _ = False"

definition omitempty :: "string \<Rightarrow> gval \<Rightarrow> (string \<times> gval) list" where
  "omitempty name v = (if empty_value v then [] else [(name, v)])"

definition run_response_json :: "run_response \<Rightarrow> gval" where
  "run_response_json r =
     GObj ([(''status'', GStr (rs_Status r))] @ omitempty ''output'' (GObj (rs_Output r)) @
       omitempty ''trace'' (GStrs (rs_Trace r)) @ omitempty ''state_pointer'' (GStr (rs_StatePointer r)) @
       omitempty ''reason'' (GStr (rs_Reason r)))"

definition pending_entry_json :: "pending_entry \<Rightarrow> gval" where
  "pending_entry_json p =
     GObj ([(''workflow'', GStr (pe_Workflow p)), (''step'', GStr (pe_Step p)), (''reason'', GStr (pe_Reason p))] @
       omitempty ''audience'' (GStr (pe_Audience p)))"

definition not_run_text :: string where
  "not_run_text = ''the workflow could not be run''"

definition writeRun :: "('w, 's) api \<Rightarrow> workflow_result \<Rightarrow> exec_error option \<Rightarrow> ('w, 's) rt \<Rightarrow>
    http_response \<times> ('w, 's) rt" where
  "writeRun a result err rt =
     (case err of
        None \<Rightarrow>
          (if wr_StatePointer result \<noteq> [] then
             (writeJSON 200 (run_response_json \<lparr>rs_Status = ''suspended'', rs_Output = wr_Output result,
                rs_Trace = wr_Trace result, rs_StatePointer = wr_StatePointer result, rs_Reason = []\<rparr>), rt)
           else
             (writeJSON 200 (run_response_json \<lparr>rs_Status = ''completed'', rs_Output = wr_Output result,
                rs_Trace = wr_Trace result, rs_StatePointer = [], rs_Reason = []\<rparr>), rt))
      | Some (CircuitBreakerTripped stepID reason undone failures) \<Rightarrow>
          (writeJSON 200 (run_response_json \<lparr>rs_Status = ''failed'', rs_Output = wr_Output result,
             rs_Trace = wr_Trace result, rs_StatePointer = [],
             rs_Reason = error_text (CircuitBreakerTripped stepID reason undone failures)\<rparr>), rt)
      | Some other \<Rightarrow>
          (writeError 422 not_run_text,
           case cfg_Logger a of None \<Rightarrow> rt | Some logger \<Rightarrow> rt\<lparr>rt_world := logger other (rt_world rt)\<rparr>))"

section \<open>Handlers\<close>

definition api_identify :: "('w, 's) api \<Rightarrow> http_request \<Rightarrow> ('w, 's) rt \<Rightarrow>
    (http_response + string) \<times> ('w, 's) rt" where
  "api_identify a r rt =
     (case cfg_Identify a of
        None \<Rightarrow> (Inr [], rt)
      | Some identify \<Rightarrow>
          (case identify r (rt_world rt) of
             (Inl _, w) \<Rightarrow> (Inl (writeError 401 ''authentication failed''), rt\<lparr>rt_world := w\<rparr>)
           | (Inr identity, w) \<Rightarrow> (Inr identity, rt\<lparr>rt_world := w\<rparr>)))"

definition api_decode :: "(string \<Rightarrow> bool \<Rightarrow> 'r option) \<Rightarrow> ('w, 's) api \<Rightarrow> http_request \<Rightarrow> http_response + 'r" where
  "api_decode dec a r =
     (let n = nat (cfg_MaxBodyBytes a) in
      case dec (take n (hr_Body r)) (n < length (hr_Body r)) of
        None \<Rightarrow> Inl (writeError 400 ''malformed request body'')
      | Some req \<Rightarrow> Inr req)"

type_synonym ('w, 's) handler = "http_request \<Rightarrow> ('w, 's) rt \<Rightarrow> http_response returned \<times> ('w, 's) rt"

definition nil_engine :: string where
  "nil_engine = ''runtime error: invalid memory address or nil pointer dereference''"

definition api_run :: "'w host \<Rightarrow> wire \<Rightarrow> ('w, 's) api \<Rightarrow> ('w, 's) handler" where
  "api_run h wr a r rt =
     (case api_identify a r rt of
        (Inl resp, rt1) \<Rightarrow> (Returns resp, rt1)
      | (Inr _, rt1) \<Rightarrow>
          (case api_decode (wire_run wr) a r of
             Inl resp \<Rightarrow> (Returns resp, rt1)
           | Inr req \<Rightarrow>
               if rq_Workflow req = [] then (Returns (writeError 400 ''workflow is required''), rt1)
               else case cfg_Engine a of
                 None \<Rightarrow> (Panicked nil_engine, rt1)
               | Some e \<Rightarrow>
                   (case Run h e (rq_Workflow req) (rq_Context req) rt1 of
                      (Panic p, rt2) \<Rightarrow> (Panicked p, rt2)
                    | (Ok result, rt2) \<Rightarrow> (case writeRun a result None rt2 of (resp, rt3) \<Rightarrow> (Returns resp, rt3))
                    | (Err err, rt2) \<Rightarrow>
                        (case writeRun a empty_result (Some err) rt2 of (resp, rt3) \<Rightarrow> (Returns resp, rt3)))))"

text \<open>The answer to a resumption: a denial is told as such.\<close>

definition write_resumed :: "('w, 's) api \<Rightarrow> workflow_result \<Rightarrow> exec_error option \<Rightarrow> ('w, 's) rt \<Rightarrow>
    http_response \<times> ('w, 's) rt" where
  "write_resumed a result err rt =
     (case err of
        Some (NotAuthorized audience identity workflowID reason) \<Rightarrow>
          (writeError 403 (error_text (NotAuthorized audience identity workflowID reason)), rt)
      | _ \<Rightarrow> writeRun a result err rt)"

definition api_resume :: "'w host \<Rightarrow> wire \<Rightarrow> ('w, 's) api \<Rightarrow> ('w, 's) handler" where
  "api_resume h wr a r rt =
     (case api_identify a r rt of
        (Inl resp, rt1) \<Rightarrow> (Returns resp, rt1)
      | (Inr identity, rt1) \<Rightarrow>
          (case api_decode (wire_resume wr) a r of
             Inl resp \<Rightarrow> (Returns resp, rt1)
           | Inr req \<Rightarrow>
               if rq_Pointer req = [] then (Returns (writeError 400 ''pointer is required''), rt1)
               else case cfg_Engine a of
                 None \<Rightarrow> (Panicked nil_engine, rt1)
               | Some e \<Rightarrow>
                   (case ResumeAs h e (rq_Pointer req) identity (rq_Resolution req) rt1 of
                      (Panicked p, rt2) \<Rightarrow> (Panicked p, rt2)
                    | (Returns (result, err), rt2) \<Rightarrow>
                        (case write_resumed a result err rt2 of (resp, rt3) \<Rightarrow> (Returns resp, rt3)))))"

definition pending_view :: "state \<Rightarrow> pending_entry" where
  "pending_view s =
     \<lparr>pe_Workflow = st_WorkflowID s, pe_Step = st_StepID s, pe_Reason = st_Reason s, pe_Audience = st_Audience s\<rparr>"

definition api_pending :: "('w, 's) api \<Rightarrow> ('w, 's) handler" where
  "api_pending a r rt =
     (case api_identify a r rt of
        (Inl resp, rt1) \<Rightarrow> (Returns resp, rt1)
      | (Inr _, rt1) \<Rightarrow>
          (case cfg_Pending a of
             None \<Rightarrow> (Returns (writeError 404 ''no pending listing is configured''), rt1)
           | Some list_pending \<Rightarrow>
               (case list_pending (rt_store rt1) of
                  Inl _ \<Rightarrow> (Returns (writeError 500 ''could not list pending runs''), rt1)
                | Inr states \<Rightarrow>
                    (Returns (writeJSON 200 (GArr (map (pending_entry_json \<circ> pending_view) states))), rt1))))"

text \<open>\<open>MemoryPending\<close> lists a store in memory.\<close>

definition MemoryPending :: "(memory_store \<Rightarrow> memory_store) \<Rightarrow> memory_store \<Rightarrow> string + state list" where
  "MemoryPending order m = Inr (memory_Pending order m)"

text \<open>
  The routes \<open>New\<close> registers, on a path that is already clean (the multiplexer redirects any other). A
  pattern for GET serves HEAD too, whose body the server drops.
\<close>

definition plain_response :: "nat \<Rightarrow> string \<Rightarrow> http_response" where
  "plain_response status message =
     \<lparr>resp_Status = status, resp_ContentType = ''text/plain; charset=utf-8'', resp_Body = message @ [CHR 0x0A]\<rparr>"

definition ServeHTTP :: "'w host \<Rightarrow> wire \<Rightarrow> ('w, 's) api \<Rightarrow> ('w, 's) handler" where
  "ServeHTTP h wr a r rt =
     (if hr_Path r = ''/v1/run'' then
        if hr_Method r = ''POST'' then api_run h wr a r rt
        else (Returns (plain_response 405 ''Method Not Allowed''), rt)
      else if hr_Path r = ''/v1/resume'' then
        if hr_Method r = ''POST'' then api_resume h wr a r rt
        else (Returns (plain_response 405 ''Method Not Allowed''), rt)
      else if hr_Path r = ''/v1/pending'' then
        if hr_Method r = ''GET'' \<or> hr_Method r = ''HEAD'' then api_pending a r rt
        else (Returns (plain_response 405 ''Method Not Allowed''), rt)
      else (Returns (plain_response 404 ''404 page not found''), rt))"

end
