(* ===== verification/HttpApiFacts.thy ===== *)
theory HttpApiFacts
  imports HttpApi ResumeFacts
begin

text \<open>
  What the HTTP front guarantees to the outside: no answer without an identity, a pointer resumed at most
  once over any sequence of requests, a listing that carries no capability, and error answers that are
  fixed texts. The exception is stated too: what a circuit breaker caught is told in full.
\<close>

section \<open>Statuses\<close>

definition answered_ok :: "http_response returned \<Rightarrow> bool" where
  "answered_ok x = (case x of Returns resp \<Rightarrow> resp_Status resp = 200 | Panicked _ \<Rightarrow> False)"

lemma answered_ok_simps [simp]: "answered_ok (Returns resp) \<longleftrightarrow> resp_Status resp = 200" "\<not> answered_ok (Panicked p)"
  by (simp_all add: answered_ok_def)

lemma status_simps [simp]:
  "resp_Status (writeJSON n v) = n" "resp_Status (writeError n m) = n" "resp_Status (plain_response n m) = n"
  by (simp_all add: writeJSON_def writeError_def plain_response_def)

lemma writeRun_store: "writeRun a result err rt = (resp, rt') \<Longrightarrow> rt_store rt' = rt_store rt \<and> rt_log rt' = rt_log rt"
  by (auto simp: writeRun_def split: option.splits exec_error.splits if_splits)

lemma write_resumed_store: "write_resumed a result err rt = (resp, rt') \<Longrightarrow> rt_store rt' = rt_store rt"
  by (auto simp: write_resumed_def dest: writeRun_store split: option.splits exec_error.splits)

lemma identify_frame: "api_identify a r rt = (x, rt') \<Longrightarrow> rt_store rt' = rt_store rt \<and> rt_log rt' = rt_log rt"
  by (auto simp: api_identify_def split: option.splits prod.splits sum.splits)

lemma identify_refuses: "api_identify a r rt = (Inl resp, rt') \<Longrightarrow> resp = writeError 401 ''authentication failed''"
  by (auto simp: api_identify_def split: option.splits prod.splits sum.splits)

lemma decode_refuses: "api_decode dec a r = Inl resp \<Longrightarrow> resp = writeError 400 ''malformed request body''"
  by (auto simp: api_decode_def Let_def split: option.splits)

lemma check_resume_refuses:
  "check_resume e S p identity rt = (Inl err, rt') \<Longrightarrow>
   resp_Status (fst (write_resumed a result (Some err) rt2)) \<noteq> 200"
  using authorize_error
  by (fastforce simp: check_resume_def write_resumed_def writeRun_def
      split: sum.splits option.splits step.splits prod.splits)

text \<open>A run request leaves the store alone or runs one workflow on it.\<close>

lemma api_run_frame:
  assumes "api_run h wr a r rt = (x, rt')" and "cfg_Engine a = Some e"
  shows "rt_store rt' = rt_store rt \<or>
    (\<exists>ref c o1 rt1 rt2. rt_store rt1 = rt_store rt \<and> Run h e ref c rt1 = (o1, rt2) \<and> rt_store rt' = rt_store rt2)"
proof -
  obtain i rt1 where i: "api_identify a r rt = (i, rt1)" by force
  have s1: "rt_store rt1 = rt_store rt" using identify_frame [OF i] by simp
  show ?thesis
  proof (cases "\<exists>id req. i = Inr id \<and> api_decode (wire_run wr) a r = Inr req \<and> rq_Workflow req \<noteq> []")
    case True
    then obtain identity req where ok: "i = Inr identity" "api_decode (wire_run wr) a r = Inr req" "rq_Workflow req \<noteq> []"
      by blast
    obtain o1 rt2 where ran: "Run h e (rq_Workflow req) (rq_Context req) rt1 = (o1, rt2)" by force
    have "rt_store rt' = rt_store rt2"
      using assms i ok ran by (cases o1) (auto simp: api_run_def split: prod.splits dest!: writeRun_store)
    with s1 ran show ?thesis by blast
  next
    case False
    with assms i s1 show ?thesis by (auto simp: api_run_def split: sum.splits if_splits)
  qed
qed

section \<open>Resuming over HTTP\<close>

definition resumes :: "wire \<Rightarrow> ('w, 's) api \<Rightarrow> string \<Rightarrow> http_request \<Rightarrow> bool" where
  "resumes wr a p r \<longleftrightarrow> hr_Path r = ''/v1/resume'' \<and> hr_Method r = ''POST'' \<and>
     (case api_decode (wire_resume wr) a r of Inl _ \<Rightarrow> False | Inr req \<Rightarrow> rq_Pointer req = p)"

text \<open>Whether the randomness of a request can yield a pointer.\<close>

definition can_draw :: "'w host \<Rightarrow> string \<Rightarrow> bool" where
  "can_draw h p \<longleftrightarrow> (\<exists>w. fst (newPointer h w) = Inr p)"

context resumable
begin

lemma resume_elsewhere:
  assumes "inv (rt_store rt)" and "ResumeAs h e q identity res rt = (x, rt')"
  shows "inv (rt_store rt') \<and>
    (\<not> can_draw h p \<and> pending (rt_store rt) p = None \<longrightarrow> pending (rt_store rt') p = None)"
proof (cases "check_resume e S q identity rt")
  case (Pair c rt1)
  show ?thesis
  proof (cases c)
    case (Inl err)
    from refusal_keeps_the_store [OF Pair [unfolded Inl], of h res] assms show ?thesis by simp
  next
    case (Inr leaf)
    from resume_claims [OF assms(1) Pair [unfolded Inr], of h res] obtain y s1
      where s1: "inv s1" "pending s1 = (pending (rt_store rt))(q := None)"
        and c: "continue_claimed h e S q identity res leaf y (rt1\<lparr>rt_store := s1\<rparr>) = (x, rt')"
      using assms(2) by auto
    from continue_claimed_parks [OF c, of p] s1 show ?thesis by (auto simp: can_draw_def)
  qed
qed

lemma resume_answered_ok:
  assumes "inv (rt_store rt)" and "ResumeAs h e p identity res rt = (Returns (result, err), rt')"
    and "resp_Status (fst (write_resumed a result err rt2)) = 200"
  shows "pending (rt_store rt) p \<noteq> None \<and> (\<not> can_draw h p \<longrightarrow> pending (rt_store rt') p = None)"
proof (cases "check_resume e S p identity rt")
  case (Pair c rt1)
  show ?thesis
  proof (cases c)
    case (Inl err')
    from refusal_keeps_the_store [OF Pair [unfolded Inl], of h res] assms(2)
    have "result = empty_result" "err = Some err'" by (simp_all add: refused_def)
    with check_resume_refuses [OF Pair [unfolded Inl], where a = a and ?rt2.0 = rt2] assms(3) show ?thesis by simp
  next
    case (Inr leaf)
    have "pending (rt_store rt) p \<noteq> None" using check_resume_iff [OF assms(1)] Pair [unfolded Inr] by blast
    with resume_uses_the_pointer_up [OF assms(1) _ Pair [unfolded Inr], where h = h and resolution = res] assms(2)
    show ?thesis by (auto simp: can_draw_def)
  qed
qed

text \<open>
  One request: it resumes a pointer successfully only when something is parked under it, and by using it
  up; and it parks something under a pointer only if its randomness yields that pointer.
\<close>

lemma request_spends:
  assumes "inv (rt_store rt)" and "cfg_Engine a = Some e" and "ServeHTTP h wr a r rt = (x, rt')"
  shows "inv (rt_store rt') \<and>
    (\<not> can_draw h p \<and> pending (rt_store rt) p = None \<longrightarrow> pending (rt_store rt') p = None) \<and>
    (resumes wr a p r \<and> answered_ok x \<longrightarrow>
       pending (rt_store rt) p \<noteq> None \<and> (\<not> can_draw h p \<longrightarrow> pending (rt_store rt') p = None))"
proof -
  obtain i rt1 where i: "api_identify a r rt = (i, rt1)" by force
  have s1: "rt_store rt1 = rt_store rt" using identify_frame [OF i] by simp
  consider (run) "hr_Path r = ''/v1/run''" "hr_Method r = ''POST''" "api_run h wr a r rt = (x, rt')"
    | (resume) "hr_Path r = ''/v1/resume''" "hr_Method r = ''POST''" "api_resume h wr a r rt = (x, rt')"
    | (other) "\<not> resumes wr a p r" "rt_store rt' = rt_store rt"
    using assms(3) i s1
    by (auto simp: ServeHTTP_def resumes_def api_pending_def split: if_splits sum.splits option.splits)
  then show ?thesis
  proof cases
    case run
    from api_run_frame [OF run(3) assms(2)]
    have "inv (rt_store rt') \<and> (\<not> can_draw h p \<and> pending (rt_store rt) p = None \<longrightarrow> pending (rt_store rt') p = None)"
    proof
      assume "\<exists>ref c o1 rt1 rt2. rt_store rt1 = rt_store rt \<and> Run h e ref c rt1 = (o1, rt2) \<and> rt_store rt' = rt_store rt2"
      then obtain ref c o1 rt1 rt2 where ran: "rt_store rt1 = rt_store rt" "Run h e ref c rt1 = (o1, rt2)"
        "rt_store rt' = rt_store rt2" by blast
      from parks.Run_R [OF ran(2)] assms(1) ran(1,3) show ?thesis by (fastforce simp: can_draw_def)
    qed (use assms(1) in simp)
    moreover have "\<not> resumes wr a p r" using run(1) by (simp add: resumes_def)
    ultimately show ?thesis by blast
  next
    case resume
    show ?thesis
    proof (cases "\<exists>identity req. i = Inr identity \<and> api_decode (wire_resume wr) a r = Inr req \<and> rq_Pointer req \<noteq> []")
      case True
      then obtain identity req where ok: "i = Inr identity" "api_decode (wire_resume wr) a r = Inr req" "rq_Pointer req \<noteq> []"
        by blast
      obtain y rt2 where y: "ResumeAs h e (rq_Pointer req) identity (rq_Resolution req) rt1 = (y, rt2)" by force
      note kept = resume_elsewhere [OF _ y, of p]
      show ?thesis
      proof (cases y)
        case (Panicked q)
        with resume(3) i ok y assms(2) have "x = Panicked q" "rt' = rt2" by (simp_all add: api_resume_def)
        with kept s1 assms(1) show ?thesis by simp
      next
        case (Returns ret)
        obtain result err where ret: "ret = (result, err)" by force
        obtain resp rt3 where w: "write_resumed a result err rt2 = (resp, rt3)" by force
        have x: "x = Returns resp" "rt' = rt3" using resume(3) i ok y assms(2) Returns ret w by (simp_all add: api_resume_def)
        have st: "rt_store rt' = rt_store rt2" using write_resumed_store [OF w] x(2) by simp
        have "pending (rt_store rt1) p \<noteq> None \<and> (\<not> can_draw h p \<longrightarrow> pending (rt_store rt2) p = None)"
          if "resumes wr a p r" "resp_Status resp = 200"
          using resume_answered_ok [of rt1 h p identity "rq_Resolution req" result err rt2 a rt2]
            y Returns ret w that ok(2) s1 assms(1) by (simp add: resumes_def)
        with kept s1 assms(1) st x(1) show ?thesis by simp
      qed
    next
      case False
      with resume(3) i s1 assms(1,2) show ?thesis
        by (auto simp: api_resume_def split: sum.splits if_splits dest: identify_refuses decode_refuses)
    qed
  next
    case other
    with assms(1) show ?thesis by simp
  qed
qed

end

text \<open>A sequence of requests, each with the schedule, map orders and randomness of its run.\<close>

fun serve_all :: "wire \<Rightarrow> ('w, 's) api \<Rightarrow> ('w host \<times> http_request) list \<Rightarrow> ('w, 's) rt \<Rightarrow>
    http_response returned list \<times> ('w, 's) rt" where
  "serve_all wr a [] rt = ([], rt)"
| "serve_all wr a ((h, r) # reqs) rt =
     (case ServeHTTP h wr a r rt of (x, rt1) \<Rightarrow> case serve_all wr a reqs rt1 of (xs, rt2) \<Rightarrow> (x # xs, rt2))"

definition resumptions :: "wire \<Rightarrow> ('w, 's) api \<Rightarrow> string \<Rightarrow> ('w host \<times> http_request) list \<Rightarrow> http_response returned list \<Rightarrow> nat" where
  "resumptions wr a p reqs xs = length (filter (\<lambda>((h, r), x). resumes wr a p r \<and> answered_ok x) (zip reqs xs))"

lemma resumptions_Cons:
  "resumptions wr a p ((h, r) # reqs) (x # xs) =
     (if resumes wr a p r \<and> answered_ok x then 1 else 0) + resumptions wr a p reqs xs"
  by (simp add: resumptions_def)

context resumable
begin

lemma requests_spend:
  assumes "inv (rt_store rt)" and "cfg_Engine a = Some e"
  shows "resumptions wr a p reqs (fst (serve_all wr a reqs rt)) \<le>
    (if pending (rt_store rt) p = None then 0 else 1) + length (filter (\<lambda>(h, r). can_draw h p) reqs)"
  using assms(1)
proof (induction reqs arbitrary: rt)
  case Nil
  then show ?case by (simp add: resumptions_def)
next
  case (Cons hr reqs)
  obtain h r where hr: "hr = (h, r)" by force
  obtain x rt1 where x: "ServeHTTP h wr a r rt = (x, rt1)" by force
  note one = request_spends [OF Cons.prems assms(2) x, of p]
  let ?ok = "resumes wr a p r \<and> answered_ok x"
  have "resumptions wr a p (hr # reqs) (fst (serve_all wr a (hr # reqs) rt)) =
      (if ?ok then 1 else 0) + resumptions wr a p reqs (fst (serve_all wr a reqs rt1))"
    by (simp add: hr x resumptions_Cons split_beta)
  also have "\<dots> \<le> (if ?ok then 1 else 0) + ((if pending (rt_store rt1) p = None then 0 else 1) +
      length (filter (\<lambda>(h, r). can_draw h p) reqs))"
    using Cons.IH one by simp
  also have "\<dots> \<le> (if pending (rt_store rt) p = None then 0 else 1) + length (filter (\<lambda>(h, r). can_draw h p) (hr # reqs))"
    using one by (cases ?ok; cases "can_draw h p") (simp_all add: hr split: if_splits)
  finally show ?case .
qed

end

text \<open>
  C25. Over HTTP too an approval is spent by its use: in any sequence of requests to an engine whose store
  is in memory, whatever they run, park and resume in between, the resumptions of a given pointer that are
  answered with success are no more than the times it can have been parked: once if it is parked at the
  start, and once for each request whose random bytes can be that pointer. So a pointer that is drawn at
  most once is resumed at most once, whether it was parked before or is parked by one of the requests.
\<close>

theorem http_resumes_once:
  assumes "cfg_Engine a = Some e" and "eng_store e = Some MemoryStore"
  shows "resumptions wr a p reqs (fst (serve_all wr a reqs rt)) \<le>
    (if map_of (rt_store rt) p = None then 0 else 1) + length (filter (\<lambda>(h, r). can_draw h p) reqs)"
  by (rule memory_engine.requests_spend [where e = e]) (use assms SetStore_same [OF assms(2)] in simp_all)

section \<open>What strangers learn\<close>

text \<open>
  C26. The listing of pending runs carries no capability: two stores whose parked runs, one by one in
  the order of listing, agree on workflow, step, reason and audience get the same answer, byte for byte,
  whatever their pointers, contexts and traces are.
\<close>

theorem listing_hides_capabilities:
  assumes "cfg_Pending a = Some list_pending"
    and "list_pending (rt_store rt1) = Inr xs" and "list_pending (rt_store rt2) = Inr ys"
    and "list_all2 (\<lambda>x y. st_WorkflowID x = st_WorkflowID y \<and> st_StepID x = st_StepID y \<and>
      st_Reason x = st_Reason y \<and> st_Audience x = st_Audience y) xs ys"
    and "rt_world rt1 = rt_world rt2"
    and "hr_Path r = ''/v1/pending''"
  shows "fst (ServeHTTP h1 wr a r rt1) = fst (ServeHTTP h2 wr a r rt2)"
proof -
  have ids: "fst (api_identify a r rt1) = fst (api_identify a r rt2)"
    using assms(5) by (simp add: api_identify_def split: option.splits prod.splits sum.splits)
  have "map (pending_entry_json \<circ> pending_view) xs = map (pending_entry_json \<circ> pending_view) ys"
    using assms(4) by (induction rule: list_all2_induct) (simp_all add: pending_view_def)
  with assms(1-3) ids show ?thesis
    using identify_frame [OF surjective_pairing, of a r rt1] identify_frame [OF surjective_pairing, of a r rt2]
    by (cases "api_identify a r rt1"; cases "api_identify a r rt2"; cases "fst (api_identify a r rt1)")
      (auto simp: ServeHTTP_def api_pending_def assms(6))
qed

text \<open>
  C28. Without an identity nothing happens. Where the deployment's \<open>Identify\<close> rejects a request, whatever its
  route, method and body, the answer is 401, or 404 or 405 off the routes: no workflow is run or resumed and
  nothing is listed, the store and the observer's log stay as they were, and the world is at most what
  \<open>Identify\<close> itself made of it.
\<close>

theorem unidentified_requests_are_refused:
  assumes "cfg_Identify a = Some identify" and "identify r (rt_world rt) = (Inl err, w)"
    and "ServeHTTP h wr a r rt = (x, rt')"
  shows "rt_store rt' = rt_store rt \<and> rt_log rt' = rt_log rt \<and> rt_world rt' \<in> {rt_world rt, w} \<and>
    x \<in> Returns ` {writeError 401 ''authentication failed'', plain_response 404 ''404 page not found'',
                    plain_response 405 ''Method Not Allowed''}"
proof -
  have "api_identify a r rt = (Inl (writeError 401 ''authentication failed''), rt\<lparr>rt_world := w\<rparr>)"
    using assms(1,2) by (simp add: api_identify_def)
  with assms(3) show ?thesis
    by (auto simp: ServeHTTP_def api_run_def api_resume_def api_pending_def split: if_splits)
qed

definition fixed_answers :: "http_response list" where
  "fixed_answers =
     [plain_response 404 ''404 page not found'', plain_response 405 ''Method Not Allowed'',
      writeError 401 ''authentication failed'', writeError 400 ''malformed request body'',
      writeError 400 ''workflow is required'', writeError 400 ''pointer is required'',
      writeError 404 ''no pending listing is configured'', writeError 500 ''could not list pending runs'',
      writeError 422 not_run_text]"

lemma writeRun_answers:
  "writeRun a result err rt = (resp, rt') \<Longrightarrow> resp_Status resp = 200 \<or> resp = writeError 422 not_run_text"
  by (auto simp: writeRun_def split: option.splits exec_error.splits if_splits)

definition is_denial :: "http_response \<Rightarrow> bool" where
  "is_denial resp \<longleftrightarrow>
     (\<exists>audience identity wid reason. resp = writeError 403 (error_text (NotAuthorized audience identity wid reason)))"

lemma write_resumed_answers:
  "write_resumed a result err rt = (resp, rt') \<Longrightarrow>
   resp_Status resp = 200 \<or> resp = writeError 422 not_run_text \<or> is_denial resp"
  by (auto simp: write_resumed_def is_denial_def dest: writeRun_answers split: option.splits exec_error.splits)

text \<open>
  C27. An answer that is not a success tells nothing of the deployment: it is one of nine fixed texts, or
  the denial of a resumption, which names the audience, the identity, the workflow and the reason given.
\<close>

theorem error_answers_are_fixed:
  assumes "ServeHTTP h wr a r rt = (Returns resp, rt')" and "resp_Status resp \<noteq> 200"
  shows "resp \<in> set fixed_answers \<or> is_denial resp"
proof -
  consider "api_run h wr a r rt = (Returns resp, rt')" | "api_resume h wr a r rt = (Returns resp, rt')"
    | "api_pending a r rt = (Returns resp, rt')" | "resp \<in> set fixed_answers"
    using assms(1) by (auto simp: ServeHTTP_def fixed_answers_def split: if_splits)
  then show ?thesis
  proof cases
    case 1
    then have "resp \<in> set fixed_answers"
      using assms(2)
      by (auto simp: api_run_def fixed_answers_def split: prod.splits sum.splits if_splits option.splits res.splits
          dest: identify_refuses decode_refuses writeRun_answers)
    then show ?thesis ..
  next
    case 2
    then show ?thesis
      using assms(2)
      by (auto simp: api_resume_def fixed_answers_def split: prod.splits sum.splits if_splits option.splits returned.splits
          dest: identify_refuses decode_refuses dest!: write_resumed_answers)
  next
    case 3
    then have "resp \<in> set fixed_answers"
      using assms(2)
      by (auto simp: api_pending_def fixed_answers_def split: prod.splits sum.splits option.splits dest: identify_refuses)
    then show ?thesis ..
  qed simp
qed

section \<open>A deployment\<close>

definition sample_wire :: wire where
  "sample_wire =
     \<lparr>wire_run = (\<lambda>body cut. if cut then None else Some \<lparr>rq_Workflow = body, rq_Context = []\<rparr>),
      wire_resume = (\<lambda>body cut. if cut then None else Some \<lparr>rq_Pointer = body, rq_Resolution = []\<rparr>)\<rparr>"

definition sample_api :: "(journal, memory_store) api" where
  "sample_api =
     \<lparr>cfg_Engine = Some ask_engine,
      cfg_Identify = Some (\<lambda>r w. (case map_of (hr_Header r) ''X-Identity'' of None \<Rightarrow> Inl ''no identity'' | Some i \<Rightarrow> Inr i, w)),
      cfg_AllowAnonymous = False, cfg_Pending = Some (MemoryPending (\<lambda>m. m)), cfg_MaxBodyBytes = 64, cfg_Logger = None\<rparr>"

definition sample_request :: "string \<Rightarrow> string \<Rightarrow> string \<Rightarrow> http_request" where
  "sample_request method path body =
     \<lparr>hr_Method = method, hr_Path = path, hr_Header = [(''X-Identity'', ''fin'')], hr_Body = body\<rparr>"

text \<open>A run that parks, and two attempts to resume it.\<close>

definition approvals :: "(journal host \<times> http_request) list" where
  "approvals = (sample_host, sample_request ''POST'' ''/v1/run'' ''asks'') #
     replicate 2 (lucky_host, sample_request ''POST'' ''/v1/resume'' sample_pointer)"

lemma lucky_pointer: "fst (newPointer lucky_host w) \<noteq> Inr sample_pointer"
proof -
  have "hex_encode (replicate 16 1) = concat (replicate 16 ''01'')" by code_simp
  then have "newPointer lucky_host w = (Inr (concat (replicate 16 ''01'')), w)"
    by (simp add: lucky_host_def newPointer_def)
  moreover have "concat (replicate 16 ''01'') \<noteq> sample_pointer" by code_simp
  ultimately show ?thesis by simp
qed

lemma sample_api_engine: "cfg_Engine sample_api = Some ask_engine" "eng_store ask_engine = Some MemoryStore"
  by (simp_all add: sample_api_def ask_engine_def SetStore_def)

lemma http_resumes_once_witness:
  "resumptions sample_wire sample_api sample_pointer approvals (fst (serve_all sample_wire sample_api approvals sample_rt)) = 1"
proof (rule antisym)
  have "filter (\<lambda>(h, r). can_draw h sample_pointer) (replicate 2 (lucky_host, sample_request ''POST'' ''/v1/resume'' sample_pointer)) = []"
    using lucky_pointer by (simp add: can_draw_def)
  then have "length (filter (\<lambda>(h, r). can_draw h sample_pointer) approvals) \<le> 1"
    by (simp add: approvals_def)
  with http_resumes_once [OF sample_api_engine, where wr = sample_wire and rt = sample_rt and p = sample_pointer and reqs = approvals]
  show "resumptions sample_wire sample_api sample_pointer approvals (fst (serve_all sample_wire sample_api approvals sample_rt)) \<le> 1"
    by (simp add: sample_rt_def)
  show "1 \<le> resumptions sample_wire sample_api sample_pointer approvals (fst (serve_all sample_wire sample_api approvals sample_rt))"
    by code_simp
qed

lemma listing_hides_capabilities_witness:
  "fst (ServeHTTP sample_host sample_wire sample_api (sample_request ''GET'' ''/v1/pending'' []) ask_rt) =
   fst (ServeHTTP sample_host sample_wire sample_api (sample_request ''GET'' ''/v1/pending'' [])
     (ask_rt\<lparr>rt_store := [(''q'', ask_state\<lparr>st_Pointer := ''q'', st_Ctx := []\<rparr>)]\<rparr>))"
  by (rule listing_hides_capabilities [where list_pending = "MemoryPending (\<lambda>m. m)" and xs = "[ask_state]"
        and ys = "[ask_state\<lparr>st_Pointer := ''q'', st_Ctx := []\<rparr>]"])
    (simp_all add: sample_api_def MemoryPending_def memory_Pending_def ask_rt_def sample_request_def)

lemma unidentified_requests_are_refused_witness:
  "rt_store (snd (ServeHTTP sample_host sample_wire sample_api
     \<lparr>hr_Method = ''POST'', hr_Path = ''/v1/run'', hr_Header = [], hr_Body = ''asks''\<rparr> ask_rt)) = rt_store ask_rt"
proof -
  let ?r = "\<lparr>hr_Method = ''POST'', hr_Path = ''/v1/run'', hr_Header = [], hr_Body = ''asks''\<rparr>"
  let ?identify = "\<lambda>r w. (case map_of (hr_Header r) ''X-Identity'' of None \<Rightarrow> Inl ''no identity'' | Some i \<Rightarrow> Inr i, w)"
  have identify: "cfg_Identify sample_api = Some ?identify" by (simp add: sample_api_def)
  have none: "?identify ?r (rt_world ask_rt) = (Inl ''no identity'', rt_world ask_rt)" by simp
  obtain x rt' where serve: "ServeHTTP sample_host sample_wire sample_api ?r ask_rt = (x, rt')" by force
  from unidentified_requests_are_refused [OF identify none serve] show ?thesis unfolding serve snd_conv by (rule conjunct1)
qed

lemma error_answers_are_fixed_witness:
  "writeError 401 ''authentication failed'' \<in> set fixed_answers \<or> is_denial (writeError 401 ''authentication failed'')"
proof (rule error_answers_are_fixed)
  show "ServeHTTP sample_host sample_wire sample_api
     \<lparr>hr_Method = ''POST'', hr_Path = ''/v1/run'', hr_Header = [], hr_Body = ''asks''\<rparr> ask_rt =
     (Returns (writeError 401 ''authentication failed''), ask_rt)"
    by (simp add: ServeHTTP_def api_run_def api_identify_def sample_api_def)
qed simp

text \<open>
  What a circuit breaker caught is told in full: a composite step whose sub-workflow is not registered, a
  misconfiguration, answers 200 and names step and workflow.
\<close>

lemma nested_misconfiguration_is_told:
  "fst (api_run sample_host sample_wire (sample_api\<lparr>cfg_Engine := Some (sample_engine [sample_flow ''outer'' ''c''
      [CompositeStep \<lparr>comp_StepID = ''c'', comp_SubWorkflowRef = ''inner'', comp_CircuitBreakerPolicyRef = [], comp_OnSuccess = []\<rparr>]])\<rparr>)
    (sample_request ''POST'' ''/v1/run'' ''outer'') ask_rt) =
   Returns (writeJSON 200 (run_response_json \<lparr>rs_Status = ''failed'', rs_Output = [], rs_Trace = [], rs_StatePointer = [],
     rs_Reason = error_text (CircuitBreakerTripped ''c'' (error_text (unknown_workflow ''inner'')) [] [])\<rparr>))"
  by code_simp

end
