(* ===== verification/HttpClient.thy ===== *)
theory HttpClient
  imports Json
begin

text \<open>
  What the packages that call a service over HTTP share: \<open>strings.TrimSpace\<close> and \<open>strings.TrimRight\<close>, the
  request and the response as the code sees them, and \<open>io.ReadAll(io.LimitReader(...))\<close>. The service
  behind a \<open>Doer\<close>, the default client and the URLs \<open>http.NewRequest\<close> refuses are parameters (\<open>net\<close>).
\<close>

section \<open>White space\<close>

text \<open>The UTF-8 encodings of the runes \<open>unicode.IsSpace\<close> accepts.\<close>

definition space_codes :: "string list" where
  "space_codes =
    [[CHR 0x09], [CHR 0x0A], [CHR 0x0B], [CHR 0x0C], [CHR 0x0D], [CHR 0x20], [CHR 0xC2, CHR 0x85], [CHR 0xC2, CHR 0xA0],
     [CHR 0xE1, CHR 0x9A, CHR 0x80], [CHR 0xE2, CHR 0x80, CHR 0x80], [CHR 0xE2, CHR 0x80, CHR 0x81], [CHR 0xE2, CHR 0x80, CHR 0x82],
     [CHR 0xE2, CHR 0x80, CHR 0x83], [CHR 0xE2, CHR 0x80, CHR 0x84], [CHR 0xE2, CHR 0x80, CHR 0x85], [CHR 0xE2, CHR 0x80, CHR 0x86],
     [CHR 0xE2, CHR 0x80, CHR 0x87], [CHR 0xE2, CHR 0x80, CHR 0x88], [CHR 0xE2, CHR 0x80, CHR 0x89], [CHR 0xE2, CHR 0x80, CHR 0x8A],
     [CHR 0xE2, CHR 0x80, CHR 0xA8], [CHR 0xE2, CHR 0x80, CHR 0xA9], [CHR 0xE2, CHR 0x80, CHR 0xAF], [CHR 0xE2, CHR 0x81, CHR 0x9F],
     [CHR 0xE3, CHR 0x80, CHR 0x80]]"

text \<open>Strips codes off the front, as long as there is one.\<close>

function strip_codes :: "string list \<Rightarrow> string \<Rightarrow> string" where
  "strip_codes codes s =
     (case find (\<lambda>c. c \<noteq> [] \<and> has_prefix s c) codes of None \<Rightarrow> s | Some c \<Rightarrow> strip_codes codes (drop (length c) s))"
  by pat_completeness auto
termination
proof (relation "measure (\<lambda>(codes, s). length s)")
  fix codes :: "string list" and s c
  assume "find (\<lambda>c. c \<noteq> [] \<and> has_prefix s c) codes = Some c"
  then have "c \<noteq> []" "has_prefix s c" by (auto simp: find_Some_iff)
  then show "((codes, drop (length c) s), (codes, s)) \<in> measure (\<lambda>(codes, s). length s)"
    by (auto simp: has_prefix_iff)
qed simp

declare strip_codes.simps [simp del]

definition trim_left :: "string \<Rightarrow> string" where
  "trim_left s = strip_codes space_codes s"

definition trim_right :: "string \<Rightarrow> string" where
  "trim_right s = rev (strip_codes (map rev space_codes) (rev s))"

definition TrimSpace :: "string \<Rightarrow> string" where
  "TrimSpace s = trim_right (trim_left s)"

text \<open>\<open>strings.TrimRight\<close> for a single ASCII character.\<close>

definition TrimRight :: "string \<Rightarrow> char \<Rightarrow> string" where
  "TrimRight s c = rev (dropWhile (\<lambda>x. x = c) (rev s))"

section \<open>Requests and responses\<close>

record client_request =
  cq_Method :: string
  cq_URL :: string
  cq_Header :: "(string \<times> string) list"
  cq_Body :: string

text \<open>The body, and the error reading it ends with, if it does not end properly.\<close>

record client_response =
  cp_StatusCode :: int
  cp_Body :: string
  cp_ReadError :: "string option"

type_synonym 'w doer = "client_request \<Rightarrow> 'w \<Rightarrow> (string + client_response) \<times> 'w"

record 'w net =
  net_URLError :: "string \<Rightarrow> string option"
  net_DefaultClient :: "'w doer"

definition MaxResponseBytes :: nat where
  "MaxResponseBytes = 8388608"

definition read_limited :: "nat \<Rightarrow> client_response \<Rightarrow> string + string" where
  "read_limited n resp =
     (if n \<le> length (cp_Body resp) then Inr (take n (cp_Body resp))
      else case cp_ReadError resp of Some e \<Rightarrow> Inl e | None \<Rightarrow> Inr (cp_Body resp))"

text \<open>A POST of JSON, with the bearer token where there is one.\<close>

definition json_post :: "string \<Rightarrow> string \<Rightarrow> string \<Rightarrow> client_request" where
  "json_post endpoint key body =
     \<lparr>cq_Method = ''POST'', cq_URL = endpoint,
      cq_Header = [(''Content-Type'', ''application/json'')] @
        (if key \<noteq> [] then [(''Authorization'', ''Bearer '' @ key)] else []),
      cq_Body = body\<rparr>"

text \<open>The error \<open>json.Marshal\<close> returns, about the first value in order it does not support.\<close>

fun float_error :: "float64 \<Rightarrow> string list" where
  "float_error (Fin _) = []"
| "float_error NaN = [''NaN'']"
| "float_error (Inf neg) = [if neg then ''-Inf'' else ''+Inf'']"

fun marshal_errors :: "gval \<Rightarrow> string list" and marshal_errors_list :: "gval list \<Rightarrow> string list"
  and marshal_errors_members :: "(string \<times> gval) list \<Rightarrow> string list" where
  "marshal_errors (GFloat x) = float_error x"
| "marshal_errors (GFloat32 x) = float_error x"
| "marshal_errors (GArr xs) = marshal_errors_list xs"
| "marshal_errors (GObj m) = marshal_errors_members m"
| "marshal_errors _ = []"
| "marshal_errors_list [] = []"
| "marshal_errors_list (x # xs) = marshal_errors x @ marshal_errors_list xs"
| "marshal_errors_members [] = []"
| "marshal_errors_members ((k, v) # m) = marshal_errors v @ marshal_errors_members m"

definition json_Marshal :: "gval \<Rightarrow> string + string" where
  "json_Marshal v =
     (case json_marshal v of
        Some s \<Rightarrow> Inr s
      | None \<Rightarrow> Inl (''json: unsupported value: '' @ (case marshal_errors v of [] \<Rightarrow> [] | e # _ \<Rightarrow> e)))"

section \<open>What trimming does\<close>

lemma strip_codes_suffix: "\<exists>p. s = p @ strip_codes codes s"
proof (induction codes s rule: strip_codes.induct)
  case (1 codes s)
  show ?case
  proof (cases "find (\<lambda>c. c \<noteq> [] \<and> has_prefix s c) codes")
    case None
    then show ?thesis by (subst strip_codes.simps) simp
  next
    case (Some c)
    from 1 [OF Some] obtain p where "drop (length c) s = p @ strip_codes codes (drop (length c) s)" by blast
    then have "s = (take (length c) s @ p) @ strip_codes codes (drop (length c) s)" by (metis append_assoc append_take_drop_id)
    moreover have "strip_codes codes s = strip_codes codes (drop (length c) s)"
      by (subst strip_codes.simps) (simp add: Some)
    ultimately show ?thesis by metis
  qed
qed

definition bare :: "string list \<Rightarrow> string \<Rightarrow> bool" where
  "bare codes s \<longleftrightarrow> (\<forall>c \<in> set codes. c \<noteq> [] \<longrightarrow> \<not> has_prefix s c)"

lemma strip_codes_bare: "bare codes (strip_codes codes s)"
proof (induction codes s rule: strip_codes.induct)
  case (1 codes s)
  show ?case
  proof (cases "find (\<lambda>c. c \<noteq> [] \<and> has_prefix s c) codes")
    case None
    then have "strip_codes codes s = s" by (subst strip_codes.simps) simp
    moreover have "bare codes s" using None by (auto simp: bare_def find_None_iff)
    ultimately show ?thesis by simp
  next
    case (Some c)
    from 1 [OF Some] show ?thesis by (subst strip_codes.simps) (simp add: Some)
  qed
qed

lemma strip_codes_id: "bare codes s \<Longrightarrow> strip_codes codes s = s"
  by (subst strip_codes.simps) (auto simp: bare_def find_None_iff split: option.split dest!: find_Some_iff [THEN iffD1])

lemma bare_append: "bare codes (s @ t) \<Longrightarrow> bare codes s"
  by (auto simp: bare_def has_prefix_iff)

definition trimmed :: "string \<Rightarrow> bool" where
  "trimmed s \<longleftrightarrow> bare space_codes s \<and> bare (map rev space_codes) (rev s)"

lemma TrimSpace_trimmed: "trimmed (TrimSpace s)"
proof -
  let ?u = "trim_left s"
  obtain p where "rev ?u = p @ rev (trim_right ?u)"
    using strip_codes_suffix [of "rev ?u" "map rev space_codes"] by (auto simp: trim_right_def)
  then have "?u = trim_right ?u @ rev p" by (metis rev_append rev_rev_ident)
  then have "bare space_codes (trim_right ?u)"
    using strip_codes_bare [of space_codes s] bare_append by (metis trim_left_def)
  moreover have "bare (map rev space_codes) (rev (trim_right ?u))" by (simp add: trim_right_def strip_codes_bare)
  ultimately show ?thesis by (simp add: trimmed_def TrimSpace_def)
qed

lemma TrimSpace_id: "trimmed s \<Longrightarrow> TrimSpace s = s"
  by (simp add: trimmed_def TrimSpace_def trim_left_def trim_right_def strip_codes_id)

lemma TrimSpace_iff: "TrimSpace s = s \<longleftrightarrow> trimmed s"
  using TrimSpace_trimmed [of s] TrimSpace_id by metis

lemma TrimSpace_set: "set (TrimSpace s) \<subseteq> set s"
proof -
  have "set (strip_codes codes t) \<subseteq> set t" for codes t using strip_codes_suffix [of t codes] by (metis set_append Un_upper2)
  then show ?thesis unfolding TrimSpace_def trim_left_def trim_right_def by (metis set_rev subset_trans)
qed

end
