(* ===== verification/LlmHttp.thy ===== *)
theory LlmHttp
  imports HttpClient Injector
begin

text \<open>
  The client of a chat model (\<open>llmhttp/llmhttp.go\<close>): one deterministic completion per call, the fence a
  model likes to put around its answer removed, and an \<open>Extractor\<close> on top. What the JSON decoder makes of
  the envelope (the contents of its choices) and of an answer is a parameter.
\<close>

record 'w llm_config =
  llm_BaseURL :: string
  llm_Model :: string
  llm_APIKey :: string
  llm_HTTPClient :: "'w doer option"

record llm_decoders =
  dec_choices :: "string \<Rightarrow> string + string list"
  dec_object :: "string \<Rightarrow> string + ctx"

definition chat_message :: "string \<Rightarrow> string \<Rightarrow> gval" where
  "chat_message role content = GObj [(''role'', GStr role), (''content'', GStr content)]"

definition chat_request :: "string \<Rightarrow> string \<Rightarrow> string \<Rightarrow> gval" where
  "chat_request model system user =
     GObj [(''model'', GStr model),
           (''messages'', GArr [chat_message ''system'' system, chat_message ''user'' user]),
           (''temperature'', GFloat (Fin 0))]"

definition readCapped :: "client_response \<Rightarrow> string + string" where
  "readCapped resp =
     (case read_limited (MaxResponseBytes + 1) resp of
        Inl e \<Rightarrow> Inl (''reading response: '' @ e)
      | Inr body \<Rightarrow>
          if MaxResponseBytes < length body then
            Inl (''response exceeds the '' @ digits_of MaxResponseBytes @ ''-byte limit'')
          else Inr body)"

definition fence :: string where
  "fence = replicate 3 (CHR 0x60)"

text \<open>The rest of the fence's line goes unless it looks like the answer itself.\<close>

definition drop_info :: "string \<Rightarrow> string" where
  "drop_info s =
     (if CHR 0x0A \<in> set s then
        (let line = takeWhile (\<lambda>c. c \<noteq> CHR 0x0A) s; first = TrimSpace line in
         if first = [] \<or> (CHR ''{'' \<notin> set first \<and> CHR ''['' \<notin> set first) then drop (length line + 1) s else s)
      else s)"

definition stripCodeFence :: "string \<Rightarrow> string" where
  "stripCodeFence s =
     (if \<not> has_prefix s fence then s
      else TrimSpace (trim_suffix (TrimSpace (drop_info (trim_prefix s fence))) fence))"

definition Chat :: "'w net \<Rightarrow> llm_decoders \<Rightarrow> 'w llm_config \<Rightarrow> string \<Rightarrow> string \<Rightarrow> 'w \<Rightarrow> (string + string) \<times> 'w" where
  "Chat net dec cfg system user w =
     (let client = (case llm_HTTPClient cfg of None \<Rightarrow> net_DefaultClient net | Some c \<Rightarrow> c);
          endpoint = TrimRight (llm_BaseURL cfg) (CHR ''/'') @ ''/chat/completions''
      in case json_Marshal (chat_request (llm_Model cfg) system user) of
        Inl err \<Rightarrow> (Inl err, w)
      | Inr reqBody \<Rightarrow>
          (case net_URLError net endpoint of
             Some err \<Rightarrow> (Inl err, w)
           | None \<Rightarrow>
               (case client (json_post endpoint (llm_APIKey cfg) reqBody) w of
                  (Inl err, w1) \<Rightarrow> (Inl (''llmhttp: request failed: '' @ err), w1)
                | (Inr resp, w1) \<Rightarrow>
                    (case readCapped resp of
                       Inl err \<Rightarrow> (Inl (''llmhttp: '' @ err), w1)
                     | Inr body \<Rightarrow>
                         if cp_StatusCode resp \<noteq> 200 then
                           (Inl (''llmhttp: endpoint returned '' @ show_int (cp_StatusCode resp) @ '': '' @ TrimSpace body), w1)
                         else case dec_choices dec body of
                           Inl err \<Rightarrow> (Inl (''llmhttp: cannot decode response envelope: '' @ err), w1)
                         | Inr [] \<Rightarrow> (Inl ''llmhttp: response contained no choices'', w1)
                         | Inr (content # _) \<Rightarrow> (Inr (stripCodeFence (TrimSpace content)), w1)))))"

definition buildSystemPrompt :: "string list \<Rightarrow> string" where
  "buildSystemPrompt names =
     ''You extract structured data. Read the user's message and return ONLY a JSON '' @
     ''object containing exactly these keys: '' @ str_join names '', '' @ ''. Every value must be taken from the '' @
     ''input text. Do not add any other keys, explanations, or commentary. If a value '' @
     ''is not present, use null.''"

definition llm_Extractor :: "'w net \<Rightarrow> llm_decoders \<Rightarrow> 'w llm_config \<Rightarrow> string list \<Rightarrow> 'w extractor" where
  "llm_Extractor net dec cfg names rawText w =
     (case Chat net dec cfg (buildSystemPrompt names) rawText w of
        (Inl err, w1) \<Rightarrow> (Inl err, w1)
      | (Inr content, w1) \<Rightarrow>
          (case dec_object dec content of
             Inl err \<Rightarrow> (Inl (''llmhttp: model did not return a JSON object: '' @ err), w1)
           | Inr out \<Rightarrow> (Inr out, w1)))"

section \<open>The fence\<close>

lemma space_code_facts:
  "\<forall>c \<in> set space_codes. c \<noteq> [] \<and> CHR 0x0A \<notin> set (tl c)"
  "\<forall>c \<in> set (map rev space_codes). c \<noteq> [] \<and> hd c \<noteq> CHR 0x60 \<and> (hd c = CHR 0x0A \<longrightarrow> c = [CHR 0x0A])"
  "[CHR 0x0A] \<in> set (map rev space_codes)"
  by (simp_all add: space_codes_def)

lemma bare_newline:
  assumes "bare space_codes s" and "s \<noteq> []"
  shows "bare space_codes (s @ CHR 0x0A # t)"
proof (unfold bare_def, intro ballI impI notI)
  fix c assume c: "c \<in> set space_codes" "c \<noteq> []" "has_prefix (s @ CHR 0x0A # t) c"
  then obtain r where r: "s @ CHR 0x0A # t = c @ r" by (auto simp: has_prefix_iff)
  show False
  proof (cases "length c \<le> length s")
    case True
    with r have "has_prefix s c" by (auto simp: has_prefix_iff append_eq_append_conv2)
    with assms(1) c(1,2) show False by (simp add: bare_def)
  next
    case False
    with r obtain u where "c = s @ CHR 0x0A # u" by (auto simp: append_eq_append_conv2 Cons_eq_append_conv)
    with assms(2) have "CHR 0x0A \<in> set (tl c)" by (cases s) auto
    with c(1) space_code_facts(1) show False by blast
  qed
qed

lemma has_prefix_hd: "has_prefix (x # xs) c \<Longrightarrow> c \<noteq> [] \<Longrightarrow> hd c = x"
  by (cases c) (auto simp: has_prefix_iff)

lemma trimmed_fenced:
  assumes "trimmed s" and "s \<noteq> []"
  shows "trimmed (s @ CHR 0x0A # fence)"
proof -
  have r: "rev (s @ CHR 0x0A # fence) = CHR 0x60 # CHR 0x60 # CHR 0x60 # CHR 0x0A # rev s"
    by (simp add: fence_def numeral_3_eq_3)
  have "\<not> has_prefix (CHR 0x60 # xs) c" if "c \<in> set (map rev space_codes)" for c xs
    using has_prefix_hd [of "CHR 0x60" xs c] space_code_facts(2) that by blast
  then have "bare (map rev space_codes) (rev (s @ CHR 0x0A # fence))" unfolding r bare_def by blast
  with bare_newline [of s fence] assms show ?thesis by (simp add: trimmed_def)
qed

lemma strip_one:
  assumes "bare codes s" and "c0 \<in> set codes" and "c0 \<noteq> []" and "\<And>c. c \<in> set codes \<Longrightarrow> c \<noteq> [] \<Longrightarrow> has_prefix (c0 @ s) c \<Longrightarrow> c = c0"
  shows "strip_codes codes (c0 @ s) = s"
proof -
  have "find (\<lambda>c. c \<noteq> [] \<and> has_prefix (c0 @ s) c) codes = Some c0"
  proof (cases "find (\<lambda>c. c \<noteq> [] \<and> has_prefix (c0 @ s) c) codes")
    case None
    with assms(2,3) show ?thesis by (auto simp: find_None_iff has_prefix_iff)
  next
    case (Some c)
    then have "c \<in> set codes" "c \<noteq> []" "has_prefix (c0 @ s) c" by (auto simp: find_Some_iff)
    with assms(4) Some show ?thesis by blast
  qed
  then show ?thesis by (subst strip_codes.simps) (simp add: strip_codes_id [OF assms(1)])
qed

lemma TrimSpace_newline: "trimmed s \<Longrightarrow> s \<noteq> [] \<Longrightarrow> TrimSpace (s @ [CHR 0x0A]) = s"
proof -
  assume t: "trimmed s" "s \<noteq> []"
  have "strip_codes (map rev space_codes) ([CHR 0x0A] @ rev s) = rev s"
  proof (rule strip_one)
    show "bare (map rev space_codes) (rev s)" using t(1) by (simp add: trimmed_def)
    show "[CHR 0x0A] \<in> set (map rev space_codes)" by (rule space_code_facts(3))
    fix c assume "c \<in> set (map rev space_codes)" "c \<noteq> []" "has_prefix ([CHR 0x0A] @ rev s) c"
    with has_prefix_hd [of "CHR 0x0A" "rev s" c] space_code_facts(2) show "c = [CHR 0x0A]" by (simp only: append_Cons append_Nil)
  qed simp
  then show ?thesis
    using t bare_newline [of s "[]"] by (simp add: TrimSpace_def trim_left_def trim_right_def trimmed_def strip_codes_id)
qed

text \<open>
  A model's habit does no harm: an answer wrapped in a code fence, with or without a language on the
  fence's first line, is unwrapped to exactly the answer, and an answer without a fence is kept as it is.
\<close>

theorem fenced_answers_are_unwrapped:
  assumes "TrimSpace t = t" and "t \<noteq> []"
    and "CHR 0x0A \<notin> set lang" and "CHR ''{'' \<notin> set lang" and "CHR ''['' \<notin> set lang"
  shows "stripCodeFence (fence @ lang @ [CHR 0x0A] @ t @ [CHR 0x0A] @ fence) = t \<and>
    (\<not> has_prefix t fence \<longrightarrow> stripCodeFence t = t)"
proof -
  have t: "trimmed t" using assms(1) by (simp add: TrimSpace_iff)
  let ?rest = "t @ CHR 0x0A # fence"
  have "takeWhile (\<lambda>c. c \<noteq> CHR 0x0A) (lang @ CHR 0x0A # ?rest) = lang" using assms(3) by (induction lang) auto
  moreover have "CHR ''{'' \<notin> set (TrimSpace lang)" "CHR ''['' \<notin> set (TrimSpace lang)"
    using TrimSpace_set [of lang] assms(4,5) by blast+
  ultimately have "drop_info (lang @ CHR 0x0A # ?rest) = ?rest" by (simp add: drop_info_def Let_def)
  moreover have "TrimSpace ?rest = ?rest" using trimmed_fenced [OF t assms(2)] by (rule TrimSpace_id)
  moreover have "trim_suffix ?rest fence = t @ [CHR 0x0A]" using trim_suffix_append [of "t @ [CHR 0x0A]" fence] by simp
  ultimately have "stripCodeFence (fence @ lang @ [CHR 0x0A] @ t @ [CHR 0x0A] @ fence) = t"
    using TrimSpace_newline [OF t assms(2)] by (simp add: stripCodeFence_def has_prefix_iff trim_prefix_def)
  then show ?thesis by (simp add: stripCodeFence_def)
qed

lemma fenced_answers_are_unwrapped_witness:
  "stripCodeFence (fence @ ''json'' @ [CHR 0x0A] @ ''{}'' @ [CHR 0x0A] @ fence) = ''{}''"
proof -
  have "TrimSpace ''{}'' = ''{}''" by code_simp
  then show ?thesis using fenced_answers_are_unwrapped [of "''{}''" "''json''"] by simp
qed

end
