(* ===== verification/Drafting.thy ===== *)
theory Drafting
  imports LlmHttp Validate Resume
begin

text \<open>
  Drafting a manifest with a model (\<open>draft/draft.go\<close>): ask, validate, tell the model what is wrong, ask
  again, for a bounded number of attempts. The model is reached through \<open>Chat\<close>; what the JSON decoder
  makes of an answer, and the order in which Go ranges over the library's names, are arguments.
\<close>

definition DefaultMaxAttempts :: int where
  "DefaultMaxAttempts = 3"

record 'w draft_config =
  df_LLM :: "'w llm_config"
  df_MaxAttempts :: int
  df_HookNames :: "string list"

record attempt =
  at_Manifest :: string
  at_Report :: report
  at_Err :: "string option"

record draft_result =
  dr_Manifest :: string
  dr_Attempts :: "attempt list"

section \<open>Prompts\<close>

definition newline :: string where "newline = [CHR 0x0A]"

definition em_dash :: string where "em_dash = [CHR 0xE2, CHR 0x80, CHR 0x94]"

definition text_lines :: "string list \<Rightarrow> string" where
  "text_lines ls = concat (map (\<lambda>l. l @ newline) ls)"

definition lastIssues :: "draft_result \<Rightarrow> string" where
  "lastIssues r =
     (if dr_Attempts r = [] then ''(none recorded)''
      else case at_Err (last (dr_Attempts r)) of
        Some err \<Rightarrow> err
      | None \<Rightarrow> report_String (at_Report (last (dr_Attempts r))))"

definition retryPrompt :: "string \<Rightarrow> string \<Rightarrow> string" where
  "retryPrompt description problems =
     ''Your previous manifest was rejected. Fix exactly these problems and return the '' @
     ''corrected manifest as raw JSON:'' @ newline @ newline @ problems @ newline @ newline @
     ''The original request was:'' @ newline @ description"

definition vocabulary :: "string \<rightharpoonup> string" where
  "vocabulary =
     [''std.set'' \<mapsto>
         ''{\"action_ref\":\"std.set\",\"with\":{\"fields\":{\"approved\":true}}} '' @ em_dash @ '' '' @
         ''writes fixed fields into the output. Use it for terminal steps that record an outcome.'',
      ''std.require'' \<mapsto>
         ''{\"action_ref\":\"std.require\",\"with\":{\"field\":\"amount\",\"op\":\"lte\",\"value\":10000}} '' @ em_dash @ '' '' @
         ''asserts a condition. If it holds the step succeeds and on_success is taken; if it does not '' @
         ''the step FAILS, and its circuit_breaker_policy_ref routes to that policy's fallback step. '' @
         ''This is how branching is expressed: there is no if/else.'',
      ''std.rule_check'' \<mapsto>
         ''{\"action_ref\":\"std.rule_check\",\"with\":{\"field\":\"amount\",\"op\":\"gt\",\"value\":10000,\"result_field\":\"is_large\"}} '' @ em_dash @ '' '' @
         ''computes a boolean into result_field without affecting control flow.'',
      ''std.suspend'' \<mapsto>
         ''{\"action_ref\":\"std.suspend\",\"with\":{\"reason\":\"awaiting manager approval\"}} '' @ em_dash @ '' '' @
         ''pauses the run until something outside resumes it. Not a failure. Use for human approval or a time window.'',
      ''std.require_verified'' \<mapsto>
         ''{\"action_ref\":\"std.require_verified\",\"with\":{\"fields\":[\"amount\"]}} '' @ em_dash @ '' '' @
         ''refuses to proceed when the named fields came from a model rather than a system of record. '' @
         ''Put it in front of consequential steps.'']"

definition prompt_head :: string where
  "prompt_head =
     text_lines
      [''You design workflows for a deterministic execution engine. Return ONLY a JSON manifest, no prose.'',
       [],
       ''Shape:'',
       ''{'',
       ''  \"name\": \"<domain-name>\",'',
       ''  \"intents\": [{\"node_id\":\"<domain>.<snake_case>\",\"examples\":[\"natural phrasings\"],\"entry_workflow_ref\":\"<workflow_id>\"}],'',
       ''  \"policies\": [{\"policy_id\":\"<snake_case>\",\"fallback_step_ref\":\"<step_id>\"}],'',
       ''  \"workflows\": [{'',
       ''    \"workflow_id\":\"<domain>.<snake_case>\",'',
       ''    \"entry_step_id\":\"<step_id>\",'',
       ''    \"steps\":[{\"step_id\":\"<snake_case>\",\"type\":\"leaf\",\"action_ref\":\"<action>\",\"with\":{},'',
       ''              \"circuit_breaker_policy_ref\":\"<policy_id>\",\"on_success\":\"<step_id>\",'',
       ''              \"compensate_with\":\"<step_id>\"}]'',
       ''  }]'',
       ''}'',
       [],
       ''Rules you cannot infer and must follow:'',
       ''- There is no if/else. A step has two exits: on_success when it succeeds, and its'',
       ''  circuit_breaker_policy_ref's fallback when it fails. Express a decision with std.require'',
       ''  plus a policy whose fallback is the \"otherwise\" branch.'',
       ''- Chain std.require steps to express more than two outcomes; the order encodes precedence.'',
       ''- Every step named by on_success, fallback_step_ref or compensate_with must exist in the'',
       ''  same workflow. Every entry_workflow_ref must match a workflow_id.'',
       ''- No cycles. on_success must never lead back to an earlier step.'',
       ''- compensate_with names a step that undoes this one, used when a run is abandoned. Declare it'',
       ''  on any step with an irreversible effect.'',
       ''- Use only the actions listed below. Do not invent action names.'',
       [],
       ''Available actions:'']"

definition bullet :: "string \<Rightarrow> string" where
  "bullet s = ''- '' @ s @ newline"

definition systemPrompt :: "string list \<Rightarrow> string list \<Rightarrow> string" where
  "systemPrompt names hooks =
     prompt_head @
     concat (map (\<lambda>name. bullet (case vocabulary name of Some desc \<Rightarrow> desc | None \<Rightarrow> name)) (sort names)) @
     (if hooks \<noteq> [] then
        newline @ ''Domain actions (already implemented, reference by name; they take no \"with\" block):'' @ newline @
        concat (map bullet (sort hooks))
      else newline @ ''No domain actions are available. Use only the standard actions above.'' @ newline) @
     newline @ ''Comparison operators: eq, neq, gt, gte, lt, lte, in.'' @ newline"

section \<open>The loop\<close>

text \<open>What one answer is worth: accepted, or the attempt to record and the problems to report.\<close>

definition judge :: "(string \<Rightarrow> string + manifest_file) \<Rightarrow> 'w library \<Rightarrow> string list \<Rightarrow> string \<Rightarrow>
    (attempt \<times> string option) returned" where
  "judge dec std hooks reply =
     (let report = Validate (dec reply) std;
          attempt = \<lparr>at_Manifest = reply, at_Report = report, at_Err = None\<rparr>
      in if report_OK report then
           (if hooks = [] then
              (case Load (dec reply) Map.empty std of
                 Ok _ \<Rightarrow> Returns (attempt, None)
               | Err err \<Rightarrow> Returns (attempt\<lparr>at_Err := Some err\<rparr>, Some err)
               | Panic p \<Rightarrow> Panicked p)
            else Returns (attempt, None))
         else Returns (attempt, Some (report_String report)))"

text \<open>\<open>n\<close> attempts are left out of \<open>attempts\<close>; \<open>user\<close> is the next prompt.\<close>

fun draft_loop :: "(string \<Rightarrow> 'w \<Rightarrow> (string + string) \<times> 'w) \<Rightarrow> (string \<Rightarrow> string + manifest_file) \<Rightarrow> 'w library \<Rightarrow>
    string list \<Rightarrow> string \<Rightarrow> nat \<Rightarrow> nat \<Rightarrow> string \<Rightarrow> draft_result \<Rightarrow> 'w \<Rightarrow>
    (draft_result \<times> string option) returned \<times> 'w" where
  "draft_loop chat dec std hooks description attempts 0 user result w =
     (Returns (result, Some (''draft: no valid manifest after '' @ digits_of attempts @ '' attempts; last issues:'' @ newline @
        lastIssues result)), w)"
| "draft_loop chat dec std hooks description attempts (Suc n) user result w =
     (case chat user w of
        (Inl err, w1) \<Rightarrow>
          (Returns (result\<lparr>dr_Attempts := dr_Attempts result @ [\<lparr>at_Manifest = [], at_Report = [], at_Err = Some err\<rparr>]\<rparr>,
             Some (''draft: attempt '' @ digits_of (attempts - n) @ '': '' @ err)), w1)
      | (Inr reply, w1) \<Rightarrow>
          (case judge dec std hooks reply of
             Panicked p \<Rightarrow> (Panicked p, w1)
           | Returns (attempt, None) \<Rightarrow>
               (Returns (\<lparr>dr_Manifest = reply, dr_Attempts = dr_Attempts result @ [attempt]\<rparr>, None), w1)
           | Returns (attempt, Some problems) \<Rightarrow>
               draft_loop chat dec std hooks description attempts n (retryPrompt description problems)
                 (result\<lparr>dr_Attempts := dr_Attempts result @ [attempt]\<rparr>) w1))"

definition no_draft :: draft_result where
  "no_draft = \<lparr>dr_Manifest = [], dr_Attempts = []\<rparr>"

definition draft_attempts :: "'w draft_config \<Rightarrow> nat" where
  "draft_attempts cfg = nat (if df_MaxAttempts cfg \<le> 0 then DefaultMaxAttempts else df_MaxAttempts cfg)"

definition draft_std :: "'w library option \<Rightarrow> 'w library" where
  "draft_std std = (case std of None \<Rightarrow> Default | Some s \<Rightarrow> s)"

definition draft_Draft :: "'w net \<Rightarrow> llm_decoders \<Rightarrow> (string \<Rightarrow> string + manifest_file) \<Rightarrow> ('w library \<Rightarrow> string list) \<Rightarrow>
    'w draft_config \<Rightarrow> string \<Rightarrow> 'w library option \<Rightarrow> 'w \<Rightarrow> (draft_result \<times> string option) returned \<times> 'w" where
  "draft_Draft net ld dec names cfg description std w =
     (if TrimSpace description = [] then (Returns (no_draft, Some ''draft: a description is required''), w)
      else
        (let lib = draft_std std; system = systemPrompt (names lib) (df_HookNames cfg); n = draft_attempts cfg
         in draft_loop (Chat net ld (df_LLM cfg) system) dec lib (df_HookNames cfg) description n n description no_draft w))"

section \<open>Pretty printing\<close>

definition indent :: "nat \<Rightarrow> string" where
  "indent d = newline @ replicate (2 * d) (CHR '' '')"

text \<open>\<open>json.MarshalIndent\<close> with two spaces: an empty array or object stays on its line.\<close>

definition json_block :: "string \<Rightarrow> string \<Rightarrow> nat \<Rightarrow> string list option \<Rightarrow> string option" where
  "json_block l r d xs =
     map_option (\<lambda>ss. if ss = [] then l @ r else l @ indent (d + 1) @ str_join ss ('','' @ indent (d + 1)) @ indent d @ r) xs"

fun json_indented :: "nat \<Rightarrow> gval \<Rightarrow> string option" and json_items :: "nat \<Rightarrow> gval list \<Rightarrow> string list option"
  and json_pairs :: "nat \<Rightarrow> (string \<times> gval) list \<Rightarrow> string list option" where
  "json_indented d (GStrs xs) = json_block ''['' '']'' d (Some (map json_string xs))"
| "json_indented d (GArr xs) = json_block ''['' '']'' d (json_items (d + 1) xs)"
| "json_indented d (GObj m) = json_block ''{'' ''}'' d (json_pairs (d + 1) m)"
| "json_indented d v = json_marshal v"
| "json_items d [] = Some []"
| "json_items d (x # xs) =
     (case json_indented d x of None \<Rightarrow> None | Some s \<Rightarrow> map_option (Cons s) (json_items d xs))"
| "json_pairs d [] = Some []"
| "json_pairs d ((k, v) # m) =
     (case json_indented d v of None \<Rightarrow> None
      | Some s \<Rightarrow> map_option (Cons (json_string k @ '': '' @ s)) (json_pairs d m))"

definition Pretty :: "(string \<Rightarrow> gval option) \<Rightarrow> string \<Rightarrow> string" where
  "Pretty dec m =
     (case dec m of
        None \<Rightarrow> m
      | Some v \<Rightarrow> (case json_indented 0 v of None \<Rightarrow> m | Some out \<Rightarrow> out @ newline))"

end
