(* ===== verification/DraftingFacts.thy ===== *)
theory DraftingFacts
  imports Drafting Validated
begin

text \<open>
  What comes out of drafting: a manifest the validator accepts, and that loads wherever the actions it
  names are at hand, within the number of attempts; or no manifest, and every attempt on record failed.
\<close>

definition attempt_failed :: "attempt \<Rightarrow> bool" where
  "attempt_failed a \<longleftrightarrow> at_Err a \<noteq> None \<or> \<not> report_OK (at_Report a)"

text \<open>
  A usable manifest decodes to one that the validator accepts and that loads with any hooks that provide
  the actions it names and the library does not have; without hooks, where the domain has none.
\<close>

definition usable :: "(string \<Rightarrow> string + manifest_file) \<Rightarrow> 'w library \<Rightarrow> string list \<Rightarrow> string \<Rightarrow> bool" where
  "usable dec std hooks m \<longleftrightarrow>
     (\<exists>f. dec m = Inr f \<and> report_OK (validate_file f std) \<and>
        (\<forall>h. actions_known f h std \<longrightarrow> is_ok (Load (dec m) h std)) \<and>
        (hooks = [] \<longrightarrow> is_ok (Load (dec m) Map.empty std)))"

lemma Validate_OK: "report_OK (Validate decoded std) \<longleftrightarrow> (\<exists>f. decoded = Inr f \<and> report_OK (validate_file f std))"
  by (auto simp: Validate_def split: sum.split)

lemma usableI:
  assumes "report_OK (Validate (dec m) std)" and "hooks = [] \<longrightarrow> is_ok (Load (dec m) Map.empty std)"
  shows "usable dec std hooks m"
proof -
  obtain f where f: "dec m = Inr f" "report_OK (validate_file f std)" using assms(1) Validate_OK by blast
  have "is_ok (Load (dec m) h std)" if "actions_known f h std" for h
    using load_file_ok [OF validate_file_OK [OF f(2)] that] by (simp add: Load_def f(1))
  with f assms(2) show ?thesis unfolding usable_def by blast
qed

lemma judge_accepts:
  assumes "judge dec std hooks reply = Returns (a, None)"
  shows "usable dec std hooks reply \<and> at_Manifest a = reply \<and> \<not> attempt_failed a"
proof
  show "usable dec std hooks reply"
    using assms by (intro usableI) (auto simp: judge_def Let_def split: if_splits res.splits)
  show "at_Manifest a = reply \<and> \<not> attempt_failed a"
    using assms by (auto simp: judge_def Let_def attempt_failed_def split: if_splits res.splits)
qed

lemma judge_rejects: "judge dec std hooks reply = Returns (a, Some problems) \<Longrightarrow> attempt_failed a"
  by (auto simp: judge_def Let_def attempt_failed_def split: if_splits res.splits)

lemma draft_loop_outcome:
  assumes "draft_loop chat dec std hooks description attempts n user result w = (Returns (r, err), w')"
  shows "\<exists>xs. list_all attempt_failed xs \<and>
    (case err of
       Some e \<Rightarrow> dr_Attempts r = dr_Attempts result @ xs \<and> length xs \<le> n \<and> dr_Manifest r = dr_Manifest result
     | None \<Rightarrow> (\<exists>a. dr_Attempts r = dr_Attempts result @ xs @ [a] \<and> length xs < n \<and> \<not> attempt_failed a \<and>
         at_Manifest a = dr_Manifest r \<and> usable dec std hooks (dr_Manifest r)))"
  using assms
proof (induction n arbitrary: user result w)
  case 0
  then show ?case by (intro exI [of _ "[]"]) auto
next
  case (Suc n)
  obtain c w1 where chat: "chat user w = (c, w1)" by force
  show ?case
  proof (cases c)
    case (Inl e)
    let ?a = "\<lparr>at_Manifest = [], at_Report = [], at_Err = Some e\<rparr>"
    have "attempt_failed ?a" by (simp add: attempt_failed_def)
    with Suc.prems chat Inl show ?thesis by (intro exI [of _ "[?a]"]) auto
  next
    case (Inr reply)
    show ?thesis
    proof (cases "judge dec std hooks reply")
      case (Panicked p)
      with Suc.prems chat Inr show ?thesis by simp
    next
      case (Returns j)
      obtain a problems where j: "j = (a, problems)" by force
      show ?thesis
      proof (cases problems)
        case None
        have ok: "usable dec std hooks reply \<and> at_Manifest a = reply \<and> \<not> attempt_failed a"
          using Returns j None by (intro judge_accepts) simp
        have "r = \<lparr>dr_Manifest = reply, dr_Attempts = dr_Attempts result @ [a]\<rparr>" "err = None"
          using Suc.prems chat Inr Returns j None by auto
        with ok show ?thesis by (intro exI [of _ "[]"]) auto
      next
        case (Some ps)
        let ?result = "result\<lparr>dr_Attempts := dr_Attempts result @ [a]\<rparr>"
        have f: "attempt_failed a" using Returns j Some by (intro judge_rejects) simp
        have "draft_loop chat dec std hooks description attempts n (retryPrompt description ps) ?result w1 = (Returns (r, err), w')"
          using Suc.prems chat Inr Returns j Some by simp
        from Suc.IH [OF this] obtain xs where xs: "list_all attempt_failed xs" and
          rest: "case err of
             Some e \<Rightarrow> dr_Attempts r = dr_Attempts ?result @ xs \<and> length xs \<le> n \<and> dr_Manifest r = dr_Manifest ?result
           | None \<Rightarrow> (\<exists>b. dr_Attempts r = dr_Attempts ?result @ xs @ [b] \<and> length xs < n \<and> \<not> attempt_failed b \<and>
               at_Manifest b = dr_Manifest r \<and> usable dec std hooks (dr_Manifest r))" by blast
        from xs rest f show ?thesis by (intro exI [of _ "a # xs"]) (cases err; simp)
      qed
    qed
  qed
qed

section \<open>Loading never panics\<close>

fun panics :: "('e, 'a) res \<Rightarrow> bool" where
  "panics (Panic _) = True"
| "panics _ = False"

lemma panics_bind: "panics (res_bind r f) \<longleftrightarrow> panics r \<or> (\<exists>x. r = Ok x \<and> panics (f x))"
  by (cases r) auto

lemma panics_map: "(\<And>x. x \<in> set xs \<Longrightarrow> \<not> panics (f x)) \<Longrightarrow> \<not> panics (map_res f xs)"
  by (induction xs) (auto simp: panics_bind)

lemma check_branches_calm: "\<not> panics (check_branches loc seen bs)"
  by (induction bs arbitrary: seen) auto

lemma resolveAction_calm: "\<not> panics (resolveAction d w spec hooks std)"
  by (auto simp: resolveAction_def split: option.splits sum.splits)

lemma buildStep_calm: "\<not> panics (buildStep d w spec hooks std)"
  by (auto simp: buildStep_def Let_def panics_bind resolveAction_calm check_branches_calm)

lemma build_steps_calm: "\<not> panics (build_steps d w hooks std specs m)"
  by (induction specs arbitrary: m) (auto simp: panics_bind buildStep_calm)

lemma Load_calm: "\<not> panics (Load decoded hooks std)"
proof -
  have "\<not> panics (load_intent d i)" for d i by (simp add: load_intent_def)
  moreover have "\<not> panics (load_workflow d hooks std ws)" for d ws
    by (simp add: load_workflow_def panics_bind build_steps_calm)
  ultimately have "\<not> panics (load_file f hooks std)" for f
    by (auto simp: load_file_def panics_bind dest: panics_map [THEN notE, rotated])
  then show ?thesis by (simp add: Load_def split: sum.split)
qed

lemma judge_returns: "judge dec std hooks reply \<noteq> Panicked p"
  using Load_calm [of "dec reply" Map.empty std] by (auto simp: judge_def Let_def split: res.splits)

lemma draft_loop_returns: "\<exists>r err. fst (draft_loop chat dec std hooks description attempts n user result w) = Returns (r, err)"
proof (induction n arbitrary: user result w)
  case (Suc n)
  show ?case
    using Suc.IH by (auto simp: judge_returns split: prod.split sum.split returned.split option.split)
qed simp

text \<open>
  C29. Drafting always returns, within its number of attempts. Without an error the manifest it returns is
  the last attempt's, the validator accepts it, and it loads with any hooks that provide the actions it
  names and the library does not have, so without hooks where the domain declared no hook names; all earlier
  attempts failed. With an error it returns no manifest and every attempt on record failed. (Where the domain
  declared hook names, nothing checks that the draft names only those.)
\<close>

theorem drafts_are_usable:
  "case fst (draft_Draft net ld dec names cfg description std w) of
     Panicked _ \<Rightarrow> False
   | Returns (r, err) \<Rightarrow>
       length (dr_Attempts r) \<le> draft_attempts cfg \<and>
       (case err of
          None \<Rightarrow> usable dec (draft_std std) (df_HookNames cfg) (dr_Manifest r) \<and> dr_Attempts r \<noteq> [] \<and>
            at_Manifest (last (dr_Attempts r)) = dr_Manifest r \<and> list_all attempt_failed (butlast (dr_Attempts r))
        | Some e \<Rightarrow> dr_Manifest r = [] \<and> list_all attempt_failed (dr_Attempts r))"
proof (cases "TrimSpace description = []")
  case True
  then show ?thesis by (simp add: draft_Draft_def no_draft_def)
next
  case False
  let ?chat = "Chat net ld (df_LLM cfg) (systemPrompt (names (draft_std std)) (df_HookNames cfg))"
  let ?loop = "draft_loop ?chat dec (draft_std std) (df_HookNames cfg) description (draft_attempts cfg) (draft_attempts cfg)
      description no_draft w"
  have run: "draft_Draft net ld dec names cfg description std w = ?loop" using False by (simp add: draft_Draft_def Let_def)
  obtain r err where ret: "fst ?loop = Returns (r, err)"
    using draft_loop_returns [of ?chat dec "draft_std std" "df_HookNames cfg" description "draft_attempts cfg" "draft_attempts cfg"
      description no_draft w] by blast
  obtain out where "?loop = (Returns (r, err), out)" using ret by (metis prod.collapse)
  note outcome = draft_loop_outcome [OF this]
  have empty: "dr_Attempts no_draft = []" "dr_Manifest no_draft = []" by (simp_all add: no_draft_def)
  show ?thesis using outcome unfolding run ret by (cases err) (auto simp: empty)
qed

end
