(* ===== verification/Services.thy ===== *)
theory Services
  imports HttpClient ExecTypes Router
begin

text \<open>
  Adapters to services outside the repository: the embedding endpoint behind a \<open>Vectorizer\<close>
  (\<open>embedhttp/embedhttp.go\<close>), the remote and the local rehearsal of a step behind a \<open>Prober\<close>
  (\<open>satellites/httpsandbox/httpsandbox.go\<close>, \<open>satellites/dockersandbox/dockersandbox.go\<close>) and sandboxed
  actions (\<open>satellites/wasmhooks/wasmhooks.go\<close>). The services, the docker command, the WebAssembly runtime
  and the JSON decoder are parameters.
\<close>

section \<open>Embeddings\<close>

record 'w embed_config =
  emb_BaseURL :: string
  emb_Model :: string
  emb_APIKey :: string
  emb_HTTPClient :: "'w doer option"

record 'w embed_client =
  ec_cfg :: "'w embed_config"
  ec_client :: "'w doer"
  ec_endpoint :: string

definition embed_New :: "'w net \<Rightarrow> 'w embed_config \<Rightarrow> 'w embed_client" where
  "embed_New net cfg =
     \<lparr>ec_cfg = cfg,
      ec_client = (case emb_HTTPClient cfg of None \<Rightarrow> net_DefaultClient net | Some c \<Rightarrow> c),
      ec_endpoint = TrimRight (emb_BaseURL cfg) (CHR ''/'') @ ''/embeddings''\<rparr>"

definition embed_request :: "string \<Rightarrow> string \<Rightarrow> gval" where
  "embed_request model inp = GObj [(''model'', GStr model), (''input'', GStr inp)]"

text \<open>The decoder gives the embeddings of the response's data.\<close>

definition Vectorize :: "'w net \<Rightarrow> (string \<Rightarrow> string + float64 list list) \<Rightarrow> 'w embed_client \<Rightarrow> 'w vectorizer" where
  "Vectorize net dec c text w =
     (case json_Marshal (embed_request (emb_Model (ec_cfg c)) text) of
        Inl err \<Rightarrow> (Inl err, w)
      | Inr reqBody \<Rightarrow>
          (case net_URLError net (ec_endpoint c) of
             Some err \<Rightarrow> (Inl err, w)
           | None \<Rightarrow>
               (case ec_client c (json_post (ec_endpoint c) (emb_APIKey (ec_cfg c)) reqBody) w of
                  (Inl err, w1) \<Rightarrow> (Inl (''embedhttp: request failed: '' @ err), w1)
                | (Inr resp, w1) \<Rightarrow>
                    (case read_limited (MaxResponseBytes + 1) resp of
                       Inl err \<Rightarrow> (Inl (''embedhttp: reading response: '' @ err), w1)
                     | Inr body \<Rightarrow>
                         if MaxResponseBytes < length body then
                           (Inl (''embedhttp: response exceeds the '' @ digits_of MaxResponseBytes @ ''-byte limit''), w1)
                         else if cp_StatusCode resp \<noteq> 200 then
                           (Inl (''embedhttp: endpoint returned '' @ show_int (cp_StatusCode resp) @ '': '' @ TrimSpace body), w1)
                         else case dec body of
                           Inl err \<Rightarrow> (Inl (''embedhttp: cannot decode response: '' @ err), w1)
                         | Inr ((x # xs) # _) \<Rightarrow> (Inr (x # xs), w1)
                         | Inr _ \<Rightarrow> (Inl ''embedhttp: response contained no embedding'', w1)))))"

section \<open>Rehearsals\<close>

text \<open>\<open>probeCommand\<close>, which both satellites declare alike.\<close>

fun string_items :: "gval list \<Rightarrow> string list option" where
  "string_items [] = Some []"
| "string_items (GStr s # xs) = map_option (Cons s) (string_items xs)"
| "string_items (_ # xs) = None"

definition probeCommand :: "ctx \<Rightarrow> string list \<times> bool" where
  "probeCommand c =
     (case map_of c ''probe_command'' of
        Some (GStrs v) \<Rightarrow> (v, v \<noteq> [])
      | Some (GArr v) \<Rightarrow> (case string_items v of None \<Rightarrow> ([], False) | Some out \<Rightarrow> (out, out \<noteq> []))
      | _ \<Rightarrow> ([], False))"

definition unhealthy :: "string \<Rightarrow> probe_result \<times> string option" where
  "unhealthy reason = (\<lparr>pres_Healthy = False, pres_DetectedFailureMode = reason\<rparr>, None)"

definition rehearsed_ok :: "probe_result \<times> string option" where
  "rehearsed_ok = (\<lparr>pres_Healthy = True, pres_DetectedFailureMode = []\<rparr>, None)"

text \<open>The zero result beside an error.\<close>

definition probe_error :: "string \<Rightarrow> probe_result \<times> string option" where
  "probe_error err = (\<lparr>pres_Healthy = False, pres_DetectedFailureMode = []\<rparr>, Some err)"

record 'w hs_config =
  hs_BaseURL :: string
  hs_APIKey :: string
  hs_Image :: string
  hs_HTTPClient :: "'w doer option"

record 'w http_sandbox =
  hs_cfg :: "'w hs_config"
  hs_client :: "'w doer"
  hs_endpoint :: string

definition hs_New :: "'w net \<Rightarrow> 'w hs_config \<Rightarrow> 'w http_sandbox" where
  "hs_New net cfg =
     \<lparr>hs_cfg = cfg,
      hs_client = (case hs_HTTPClient cfg of None \<Rightarrow> net_DefaultClient net | Some c \<Rightarrow> c),
      hs_endpoint = TrimRight (hs_BaseURL cfg) (CHR ''/'') @ ''/rehearse''\<rparr>"

definition rehearse_request :: "string \<Rightarrow> string list \<Rightarrow> gval" where
  "rehearse_request img command =
     GObj ((if img = [] then [] else [(''image'', GStr img)]) @ [(''command'', GStrs command)])"

text \<open>The decoder gives the response's exit code and output.\<close>

definition hs_Probe :: "'w net \<Rightarrow> (string \<Rightarrow> string + int \<times> string) \<Rightarrow> 'w http_sandbox \<Rightarrow> 'w prober" where
  "hs_Probe net dec s req w =
     (let (command, ok) = probeCommand (preq_StepContext req) in
      if \<not> ok then (unhealthy ''httpsandbox: step context has no probe_command []string'', w)
      else case json_Marshal (rehearse_request (hs_Image (hs_cfg s)) command) of
        Inl err \<Rightarrow> (probe_error err, w)
      | Inr body \<Rightarrow>
          (case net_URLError net (hs_endpoint s) of
             Some err \<Rightarrow> (probe_error err, w)
           | None \<Rightarrow>
               (case hs_client s (json_post (hs_endpoint s) (hs_APIKey (hs_cfg s)) body) w of
                  (Inl err, w1) \<Rightarrow> (unhealthy (''httpsandbox: sandbox service unavailable: '' @ err), w1)
                | (Inr resp, w1) \<Rightarrow>
                    (case read_limited (MaxResponseBytes + 1) resp of
                       Inl err \<Rightarrow> (unhealthy (''httpsandbox: reading response: '' @ err), w1)
                     | Inr respBody \<Rightarrow>
                         if MaxResponseBytes < length respBody then
                           (unhealthy (''httpsandbox: response exceeds the '' @ digits_of MaxResponseBytes @ ''-byte limit''), w1)
                         else if cp_StatusCode resp \<noteq> 200 then
                           (unhealthy (''httpsandbox: service returned '' @ show_int (cp_StatusCode resp) @ '': '' @
                              TrimSpace respBody), w1)
                         else case dec respBody of
                           Inl err \<Rightarrow> (unhealthy (''httpsandbox: cannot decode response: '' @ err), w1)
                         | Inr (code, out) \<Rightarrow>
                             if code \<noteq> 0 then
                               (unhealthy (''httpsandbox: probe exited '' @ show_int code @ '': '' @ TrimSpace out), w1)
                             else (rehearsed_ok, w1)))))"

text \<open>
  A command's end as \<open>os/exec\<close> reports it: the output together with no error, with an exit code that is
  not zero (-1 for a signal), or with another error.
\<close>

datatype exec_end = Success | ExitError int | NotStarted string

type_synonym 'w os_exec = "string \<Rightarrow> string list \<Rightarrow> 'w \<Rightarrow> (string \<times> exec_end) \<times> 'w"

type_synonym 'w command_runner = "string \<Rightarrow> string list \<Rightarrow> 'w \<Rightarrow> (int \<times> string \<times> string option) \<times> 'w"

definition execRunner :: "'w os_exec \<Rightarrow> 'w command_runner" where
  "execRunner os name args w =
     (case os name args w of
        ((out, Success), w1) \<Rightarrow> ((0, out, None), w1)
      | ((out, ExitError code), w1) \<Rightarrow> ((code, out, None), w1)
      | ((out, NotStarted err), w1) \<Rightarrow> ((-1, out, Some err), w1))"

record 'w docker_sandbox =
  ds_Image :: string
  ds_Runner :: "'w command_runner"

definition docker_New :: "'w os_exec \<Rightarrow> string \<Rightarrow> 'w docker_sandbox" where
  "docker_New os img = \<lparr>ds_Image = img, ds_Runner = execRunner os\<rparr>"

definition docker_args :: "string \<Rightarrow> string list \<Rightarrow> string list" where
  "docker_args img command = [''run'', ''--rm'', ''--network=none'', img] @ command"

definition docker_Probe :: "'w docker_sandbox \<Rightarrow> 'w prober" where
  "docker_Probe s req w =
     (let (command, ok) = probeCommand (preq_StepContext req) in
      if \<not> ok then (unhealthy ''dockersandbox: step context has no probe_command []string'', w)
      else case ds_Runner s ''docker'' (docker_args (ds_Image s) command) w of
        ((code, out, Some err), w1) \<Rightarrow> (unhealthy (''dockersandbox: docker unavailable: '' @ err), w1)
      | ((code, out, None), w1) \<Rightarrow>
          if code \<noteq> 0 then
            (unhealthy (''dockersandbox: probe exited '' @ show_int code @ '': '' @ TrimSpace out), w1)
          else (rehearsed_ok, w1))"

section \<open>Actions in a WebAssembly sandbox\<close>

text \<open>A call has a deadline, a module and an input; durations are nanoseconds.\<close>

type_synonym 'w wasm_runtime = "int option \<Rightarrow> string \<Rightarrow> string \<Rightarrow> 'w \<Rightarrow> (string + string) \<times> 'w"

definition DefaultTimeout :: int where
  "DefaultTimeout = 5000000000"

definition wasm_hook :: "(string \<Rightarrow> string + ctx) \<Rightarrow> 'w wasm_runtime \<Rightarrow> string \<Rightarrow> int \<Rightarrow> 'w action" where
  "wasm_hook dec rt wasm timeout stepCtx w =
     (case json_Marshal (GObj stepCtx) of
        Inl err \<Rightarrow> (Fails (''wasmhooks: cannot marshal step context: '' @ err), w)
      | Inr inputJSON \<Rightarrow>
          (case rt (if 0 < timeout then Some timeout else None) wasm inputJSON w of
             (Inl err, w1) \<Rightarrow> (Fails (''wasmhooks: module execution failed: '' @ err), w1)
           | (Inr outputJSON, w1) \<Rightarrow>
               (case dec outputJSON of
                  Inl err \<Rightarrow> (Fails (''wasmhooks: module returned invalid JSON: '' @ err), w1)
                | Inr out \<Rightarrow> (Output out, w1))))"

definition HookWithTimeout :: "(string \<Rightarrow> string + ctx) \<Rightarrow> 'w wasm_runtime \<Rightarrow> string \<Rightarrow> int \<Rightarrow> 'w action" where
  "HookWithTimeout dec rt wasm timeout = wasm_hook dec rt wasm timeout"

definition Hook :: "(string \<Rightarrow> string + ctx) \<Rightarrow> 'w wasm_runtime \<Rightarrow> string \<Rightarrow> 'w action" where
  "Hook dec rt wasm = wasm_hook dec rt wasm DefaultTimeout"

section \<open>Fail closed\<close>

lemma verdict_simps [simp]:
  "probe_verdict (unhealthy reason) = (False, reason)" "probe_verdict (probe_error err) = (False, err)"
  "probe_verdict rehearsed_ok = (True, [])"
  by (simp_all add: probe_verdict_def unhealthy_def probe_error_def rehearsed_ok_def)

interpretation docker: folding_prober "docker_Probe s" for s
proof unfold_locales
  fix req w
  have "snd (unhealthy reason) = None" for reason by (simp add: unhealthy_def)
  moreover have "snd rehearsed_ok = None" by (simp add: rehearsed_ok_def)
  ultimately show "snd (fst (docker_Probe s req w)) = None"
    by (auto simp: docker_Probe_def split: prod.splits option.splits)
qed

lemma read_limited_ok:
  "read_limited (MaxResponseBytes + 1) resp = Inr body \<Longrightarrow> \<not> MaxResponseBytes < length body \<Longrightarrow>
   body = cp_Body resp \<and> cp_ReadError resp = None"
  by (auto simp: read_limited_def split: if_splits option.splits)

text \<open>What has to be true of the world outside for a rehearsal to count; a missing exit code counts as zero.\<close>

definition served_ok :: "'w net \<Rightarrow> (string \<Rightarrow> string + int \<times> string) \<Rightarrow> 'w http_sandbox \<Rightarrow> string list \<Rightarrow> 'w \<Rightarrow> bool" where
  "served_ok net dec s command w \<longleftrightarrow>
     net_URLError net (hs_endpoint s) = None \<and>
     (case json_marshal (rehearse_request (hs_Image (hs_cfg s)) command) of
        None \<Rightarrow> False
      | Some sent \<Rightarrow>
          (case fst (hs_client s (json_post (hs_endpoint s) (hs_APIKey (hs_cfg s)) sent) w) of
             Inl _ \<Rightarrow> False
           | Inr resp \<Rightarrow> cp_StatusCode resp = 200 \<and> cp_ReadError resp = None \<and> length (cp_Body resp) \<le> MaxResponseBytes \<and>
               (case dec (cp_Body resp) of Inl _ \<Rightarrow> False | Inr (code, _) \<Rightarrow> code = 0)))"

definition docker_ok :: "'w docker_sandbox \<Rightarrow> string list \<Rightarrow> 'w \<Rightarrow> bool" where
  "docker_ok s command w \<longleftrightarrow>
     (case fst (ds_Runner s ''docker'' (docker_args (ds_Image s) command) w) of (code, _, err) \<Rightarrow> code = 0 \<and> err = None)"

lemma read_limited_fits:
  "length (cp_Body resp) \<le> MaxResponseBytes \<Longrightarrow> cp_ReadError resp = None \<Longrightarrow>
   read_limited (MaxResponseBytes + 1) resp = Inr (cp_Body resp)"
  by (simp add: read_limited_def)

lemma rehearse_request_marshals: "\<exists>sent. json_marshal (rehearse_request img command) = Some sent"
  by (simp add: rehearse_request_def json_list_def)

text \<open>The part of the probe after the response has come.\<close>

lemma hs_answer:
  assumes "probeCommand (preq_StepContext req) = (command, True)"
    and "json_marshal (rehearse_request (hs_Image (hs_cfg s)) command) = Some sent"
    and "net_URLError net (hs_endpoint s) = None"
    and "hs_client s (json_post (hs_endpoint s) (hs_APIKey (hs_cfg s)) sent) w = (Inr resp, w1)"
  shows "fst (probe_verdict (fst (hs_Probe net dec s req w))) \<longleftrightarrow>
    cp_StatusCode resp = 200 \<and> cp_ReadError resp = None \<and> length (cp_Body resp) \<le> MaxResponseBytes \<and>
    (case dec (cp_Body resp) of Inl _ \<Rightarrow> False | Inr (code, _) \<Rightarrow> code = 0)"
proof (cases "read_limited (MaxResponseBytes + 1) resp")
  case (Inl err)
  with assms read_limited_fits [of resp] show ?thesis by (auto simp: hs_Probe_def json_Marshal_def)
next
  case (Inr body)
  show ?thesis
  proof (cases "MaxResponseBytes < length body")
    case True
    with assms Inr read_limited_fits [of resp] show ?thesis by (auto simp: hs_Probe_def json_Marshal_def)
  next
    case False
    from read_limited_ok [OF Inr False] have body: "body = cp_Body resp" "cp_ReadError resp = None" by simp_all
    with assms Inr False show ?thesis
      by (cases "dec body") (auto simp: hs_Probe_def json_Marshal_def split: prod.splits)
  qed
qed

lemma hs_verdict:
  "fst (probe_verdict (fst (hs_Probe net dec s req w))) \<longleftrightarrow>
   snd (probeCommand (preq_StepContext req)) \<and> served_ok net dec s (fst (probeCommand (preq_StepContext req))) w"
proof -
  obtain command ok where c: "probeCommand (preq_StepContext req) = (command, ok)" by force
  obtain sent where sent: "json_marshal (rehearse_request (hs_Image (hs_cfg s)) command) = Some sent"
    using rehearse_request_marshals by blast
  obtain answer w1 where a: "hs_client s (json_post (hs_endpoint s) (hs_APIKey (hs_cfg s)) sent) w = (answer, w1)" by force
  show ?thesis
  proof (cases "ok \<and> net_URLError net (hs_endpoint s) = None \<and> \<not> isl answer")
    case True
    then obtain resp where "answer = Inr resp" by (cases answer) auto
    with True a c sent have "hs_client s (json_post (hs_endpoint s) (hs_APIKey (hs_cfg s)) sent) w = (Inr resp, w1)"
      "probeCommand (preq_StepContext req) = (command, True)" "net_URLError net (hs_endpoint s) = None" by simp_all
    with hs_answer [OF this(2) sent this(3,1)] show ?thesis by (simp add: served_ok_def sent)
  next
    case False
    then show ?thesis
      by (cases ok; cases "net_URLError net (hs_endpoint s)"; cases answer)
        (simp_all add: c hs_Probe_def served_ok_def json_Marshal_def sent a)
  qed
qed

lemma docker_verdict:
  "fst (probe_verdict (fst (docker_Probe s req w))) \<longleftrightarrow>
   snd (probeCommand (preq_StepContext req)) \<and> docker_ok s (fst (probeCommand (preq_StepContext req))) w"
proof -
  obtain command ok where c: "probeCommand (preq_StepContext req) = (command, ok)" by force
  obtain code out err w1 where r: "ds_Runner s ''docker'' (docker_args (ds_Image s) command) w = ((code, out, err), w1)"
    by (metis surj_pair)
  show ?thesis by (cases ok; cases err) (simp_all add: docker_Probe_def docker_ok_def c r)
qed

text \<open>
  When rehearsals let a step pass. The verdict of the remote sandbox is healthy exactly when the step
  names a command and the service was reached, answered 200 within the size limit with a body that decodes
  to exit code zero; the verdict of the docker sandbox exactly when docker ran that command, without a
  network, to exit code zero. Every other outcome refuses the step. A body that has no exit code at
  all decodes to zero in Go, so what a service that answers 200 leaves out counts as a rehearsal.
\<close>

theorem rehearsals_fail_closed:
  "fst (probe_verdict (fst (hs_Probe net dec s req w))) = (snd (probeCommand (preq_StepContext req)) \<and>
     served_ok net dec s (fst (probeCommand (preq_StepContext req))) w) \<and>
   fst (probe_verdict (fst (docker_Probe d req w))) = (snd (probeCommand (preq_StepContext req)) \<and>
     docker_ok d (fst (probeCommand (preq_StepContext req))) w)"
  by (intro conjI hs_verdict docker_verdict)

section \<open>What a vectorizer yields\<close>

lemma Vectorize_not_empty: "fst (Vectorize net dec c text w) = Inr v \<Longrightarrow> v \<noteq> []"
  by (auto simp: Vectorize_def split: sum.splits option.splits prod.splits if_splits list.splits)

end
