(* ===== verification/Net.thy ===== *)
theory Net
  imports Prelude
begin

text \<open>
  The parts of the package \<open>net\<close> that decide what an address is: \<open>SplitHostPort\<close>, \<open>ParseIP\<close> and
  \<open>IP.IsLoopback\<close>. An address is its sixteen bytes; an IPv4 address is mapped into IPv6.
\<close>

section \<open>Hosts\<close>

text \<open>The host of \<open>host:port\<close>; \<open>None\<close> is the error.\<close>

definition last_index :: "char \<Rightarrow> string \<Rightarrow> nat option" where
  "last_index c s =
     (if c \<in> set s then Some (length s - 1 - length (takeWhile (\<lambda>x. x \<noteq> c) (rev s))) else None)"

definition first_index :: "char \<Rightarrow> string \<Rightarrow> nat option" where
  "first_index c s = (if c \<in> set s then Some (length (takeWhile (\<lambda>x. x \<noteq> c) s)) else None)"

definition split_host :: "string \<Rightarrow> string option" where
  "split_host hostport =
     (case last_index (CHR '':'') hostport of
        None \<Rightarrow> None
      | Some i \<Rightarrow>
          (let (found, j, k) =
             (if hd hostport = CHR ''['' then
                (case first_index (CHR '']'') hostport of
                   None \<Rightarrow> (None, 0, 0)
                 | Some e \<Rightarrow> if e + 1 = i then (Some (drop 1 (take e hostport)), 1, e + 1) else (None, 0, 0))
              else (if CHR '':'' \<in> set (take i hostport) then None else Some (take i hostport), 0, 0))
           in case found of
                None \<Rightarrow> None
              | Some host \<Rightarrow>
                  if CHR ''['' \<in> set (drop j hostport) \<or> CHR '']'' \<in> set (drop k hostport) then None else Some host))"

section \<open>Addresses\<close>

fun split_dots :: "string \<Rightarrow> string list" where
  "split_dots [] = [[]]"
| "split_dots (c # s) =
     (if c = CHR ''.'' then [] # split_dots s
      else case split_dots s of p # ps \<Rightarrow> (c # p) # ps | [] \<Rightarrow> [[c]])"

definition is_digit :: "char \<Rightarrow> bool" where
  "is_digit c \<longleftrightarrow> 48 \<le> (of_char c :: nat) \<and> (of_char c :: nat) \<le> 57"

definition digit_value :: "char \<Rightarrow> nat" where
  "digit_value c = of_char c - 48"

definition decimal :: "string \<Rightarrow> nat" where
  "decimal s = foldl (\<lambda>n c. n * 10 + digit_value c) 0 s"

text \<open>One octet: decimal digits without a leading zero, at most 255.\<close>

definition parse_octet :: "string \<Rightarrow> nat option" where
  "parse_octet s =
     (if s \<noteq> [] \<and> list_all is_digit s \<and> (hd s = CHR ''0'' \<longrightarrow> length s = 1) \<and> decimal s \<le> 255
      then Some (decimal s) else None)"

definition parse_ipv4 :: "string \<Rightarrow> nat list option" where
  "parse_ipv4 s =
     (case map parse_octet (split_dots s) of
        [Some a, Some b, Some c, Some d] \<Rightarrow> Some [a, b, c, d]
      | _ \<Rightarrow> None)"

definition hex_value :: "char \<Rightarrow> nat option" where
  "hex_value c =
     (let n = of_char c :: nat in
      if 48 \<le> n \<and> n \<le> 57 then Some (n - 48)
      else if 97 \<le> n \<and> n \<le> 102 then Some (n - 87)
      else if 65 \<le> n \<and> n \<le> 70 then Some (n - 55)
      else None)"

definition hex_prefix :: "string \<Rightarrow> string" where
  "hex_prefix s = takeWhile (\<lambda>c. hex_value c \<noteq> None) s"

definition hex_number :: "string \<Rightarrow> nat" where
  "hex_number s = foldl (\<lambda>n c. n * 16 + (case hex_value c of Some v \<Rightarrow> v | None \<Rightarrow> 0)) 0 s"

text \<open>
  The groups of an IPv6 address: at most \<open>k\<close> more, after \<open>bytes\<close>, the ellipsis at byte \<open>e\<close> if there was
  one. The result is what is left of the text, the bytes and the ellipsis.
\<close>

fun v6_groups :: "nat \<Rightarrow> string \<Rightarrow> nat list \<Rightarrow> nat option \<Rightarrow> (string \<times> nat list \<times> nat option) option" where
  "v6_groups 0 s bytes e = Some (s, bytes, e)"
| "v6_groups (Suc k) s bytes e =
     (let digits = hex_prefix s; off = length digits; rest = drop off s; acc = hex_number digits in
      if off = 0 \<or> 4 < off then None
      else if rest \<noteq> [] \<and> hd rest = CHR ''.'' then
        (if e = None \<and> length bytes \<noteq> 12 then None
         else if 16 < length bytes + 4 then None
         else case parse_ipv4 s of None \<Rightarrow> None | Some v4 \<Rightarrow> Some ([], bytes @ v4, e))
      else
        (let bytes1 = bytes @ [acc div 256, acc mod 256] in
         case rest of
           [] \<Rightarrow> Some ([], bytes1, e)
         | c # rest1 \<Rightarrow>
             if c \<noteq> CHR '':'' \<or> rest1 = [] then None
             else if hd rest1 = CHR '':'' then
               (if e \<noteq> None then None
                else if tl rest1 = [] then Some ([], bytes1, Some (length bytes1))
                else v6_groups k (tl rest1) bytes1 (Some (length bytes1)))
             else v6_groups k rest1 bytes1 e))"

definition parse_ipv6 :: "string \<Rightarrow> nat list option" where
  "parse_ipv6 s0 =
     (let (e, s) = (if has_prefix s0 ''::'' then (Some 0, drop 2 s0) else (None, s0)) in
      if e = Some 0 \<and> s = [] then Some (replicate 16 0)
      else case v6_groups 8 s [] e of
        None \<Rightarrow> None
      | Some (left, bytes, e1) \<Rightarrow>
          if left \<noteq> [] then None
          else if length bytes < 16 then
            (case e1 of
               None \<Rightarrow> None
             | Some i \<Rightarrow> Some (take i bytes @ replicate (16 - length bytes) 0 @ drop i bytes))
          else if e1 \<noteq> None then None
          else Some bytes)"

text \<open>A zone is refused, so any percent sign is.\<close>

definition ParseIP :: "string \<Rightarrow> nat list option" where
  "ParseIP s =
     (if CHR ''%'' \<in> set s then None
      else case filter (\<lambda>c. c = CHR ''.'' \<or> c = CHR '':'') s of
        [] \<Rightarrow> None
      | c # _ \<Rightarrow>
          if c = CHR ''.'' then
            (case parse_ipv4 s of None \<Rightarrow> None | Some v4 \<Rightarrow> Some (replicate 10 0 @ [255, 255] @ v4))
          else parse_ipv6 s)"

definition IsLoopback :: "nat list \<Rightarrow> bool" where
  "IsLoopback ip \<longleftrightarrow>
     (if take 12 ip = replicate 10 0 @ [255, 255] then ip ! 12 = 127 else ip = replicate 15 0 @ [1])"

section \<open>Decimal octets\<close>

lemma split_dots_plain: "CHR ''.'' \<notin> set s \<Longrightarrow> split_dots s = [s]"
  by (induction s) auto

lemma split_dots_not_Nil [simp]: "split_dots s \<noteq> []"
  by (induction s) (auto split: list.split)

lemma split_dots_append: "split_dots (a @ CHR ''.'' # b) = split_dots a @ split_dots b"
  by (induction a) (auto split: list.split)

lemma split_dots_join: "str_join (split_dots s) ''.'' = s"
proof (induction s)
  case (Cons c s)
  then show ?case by (cases "split_dots s"; cases "tl (split_dots s)") auto
qed simp

lemma decimal_snoc: "decimal (s @ [c]) = decimal s * 10 + digit_value c"
  by (simp add: decimal_def)

lemma digit_char: "d < 10 \<Longrightarrow> is_digit (char_of (48 + d)) \<and> digit_value (char_of (48 + d)) = d"
  by (simp add: is_digit_def digit_value_def)

lemma digit_char_of: "is_digit c \<Longrightarrow> c = char_of (48 + digit_value c) \<and> digit_value c < 10"
  by (auto simp: is_digit_def digit_value_def)

lemma decimal_digits: "list_all is_digit (digits_of n) \<and> decimal (digits_of n) = n \<and> digits_of n \<noteq> [] \<and>
    (hd (digits_of n) = CHR ''0'' \<longrightarrow> n = 0)"
proof (induction n rule: digits_of.induct)
  case (1 n)
  show ?case
  proof (cases "n < 10")
    case True
    have d: "is_digit (char_of (48 + n))" "digit_value (char_of (48 + n)) = n" using digit_char [OF True] by simp_all
    have "digit_value (CHR ''0'') = 0" by (simp add: digit_value_def)
    with d(2) have zero: "char_of (48 + n) = CHR ''0'' \<Longrightarrow> n = 0" by metis
    have "digits_of n = [char_of (48 + n)]" using True by (subst digits_of.simps) simp
    with d zero show ?thesis by (simp add: decimal_def)
  next
    case False
    then have "digits_of n = digits_of (n div 10) @ [char_of (48 + n mod 10)]" by (subst digits_of.simps) simp
    with 1 [OF False] False digit_char [of "n mod 10"] show ?thesis by (auto simp: decimal_snoc)
  qed
qed

lemma digits_0: "digits_of 0 = ''0''"
  by code_simp

text \<open>And an octet is written in one way only.\<close>

lemma digits_decimal:
  "s \<noteq> [] \<Longrightarrow> list_all is_digit s \<Longrightarrow> (hd s = CHR ''0'' \<longrightarrow> length s = 1) \<Longrightarrow> digits_of (decimal s) = s"
proof (induction s rule: rev_induct)
  case (snoc c s)
  have c: "c = char_of (48 + digit_value c)" "digit_value c < 10" using snoc.prems(2) digit_char_of [of c] by simp_all
  show ?case
  proof (cases "s = []")
    case True
    with c show ?thesis by (subst digits_of.simps) (simp add: decimal_def)
  next
    case False
    have h: "hd s \<noteq> CHR ''0''" using snoc.prems(3) False by (cases s) auto
    then have ih: "digits_of (decimal s) = s" using snoc.IH False snoc.prems(2) by simp
    have "decimal s \<noteq> 0"
    proof
      assume "decimal s = 0"
      with ih have "s = digits_of 0" by simp
      also have "\<dots> = ''0''" by (rule digits_0)
      finally show False using h by simp
    qed
    then have "\<not> decimal (s @ [c]) < 10" "decimal (s @ [c]) div 10 = decimal s" "decimal (s @ [c]) mod 10 = digit_value c"
      using c(2) by (simp_all add: decimal_snoc)
    with ih c(1) show ?thesis by (subst digits_of.simps) simp
  qed
qed simp

lemma parse_octet_iff: "parse_octet s = Some n \<longleftrightarrow> n \<le> 255 \<and> s = digits_of n"
proof
  assume "parse_octet s = Some n"
  then have "s \<noteq> []" "list_all is_digit s" "hd s = CHR ''0'' \<longrightarrow> length s = 1" "decimal s \<le> 255" "n = decimal s"
    by (auto simp: parse_octet_def split: if_splits)
  with digits_decimal [of s] show "n \<le> 255 \<and> s = digits_of n" by simp
next
  assume n: "n \<le> 255 \<and> s = digits_of n"
  from digits_0 n decimal_digits [of n] show "parse_octet s = Some n" by (auto simp: parse_octet_def)
qed

lemma parse_octet_digits: "n \<le> 255 \<Longrightarrow> parse_octet (digits_of n) = Some n"
  by (simp add: parse_octet_iff)

definition dotted :: "nat list \<Rightarrow> string" where
  "dotted v4 = str_join (map digits_of v4) ''.''"

lemma digits_no_dot: "CHR ''.'' \<notin> set (digits_of n)"
  using decimal_digits [of n] by (auto simp: list_all_iff is_digit_def)

text \<open>The text of an IPv4 address is unique.\<close>

lemma parse_ipv4_iff:
  "parse_ipv4 s = Some v4 \<longleftrightarrow> length v4 = 4 \<and> list_all (\<lambda>n. n \<le> 255) v4 \<and> s = dotted v4"
proof
  assume "parse_ipv4 s = Some v4"
  then obtain a b c d where m: "map parse_octet (split_dots s) = [Some a, Some b, Some c, Some d]" and v4: "v4 = [a, b, c, d]"
    by (auto simp: parse_ipv4_def split: list.splits option.splits)
  then obtain w x y z where sp: "split_dots s = [w, x, y, z]"
    and o: "parse_octet w = Some a" "parse_octet x = Some b" "parse_octet y = Some c" "parse_octet z = Some d"
    by (auto simp: map_eq_Cons_conv)
  have "s = str_join [w, x, y, z] ''.''" using split_dots_join [of s] sp by simp
  with o v4 show "length v4 = 4 \<and> list_all (\<lambda>n. n \<le> 255) v4 \<and> s = dotted v4" by (simp add: parse_octet_iff dotted_def)
next
  assume r: "length v4 = 4 \<and> list_all (\<lambda>n. n \<le> 255) v4 \<and> s = dotted v4"
  then obtain a b c d where v4: "v4 = [a, b, c, d]" by (auto simp: length_Suc_conv eval_nat_numeral)
  have "s = digits_of a @ CHR ''.'' # digits_of b @ CHR ''.'' # digits_of c @ CHR ''.'' # digits_of d"
    using r v4 by (simp add: dotted_def)
  then have "split_dots s = [digits_of a, digits_of b, digits_of c, digits_of d]"
    by (simp add: split_dots_append split_dots_plain digits_no_dot)
  then show "parse_ipv4 s = Some v4" using r v4 by (simp add: parse_ipv4_def parse_octet_digits)
qed

end
