(* ===== verification/Cli.thy ===== *)
theory Cli
  imports Catalog PolicyDiff HttpApi Drafting Net
begin

text \<open>
  The command line (\<open>cmd/cee/main.go\<close>): one function per command from the arguments and the process (the
  disk, the world the runs act on, what has been printed) to its end and the process after it. Everything
  the commands take from outside, the JSON decoders, the model's endpoint, the environment variables, the
  schedules and clocks of runs and what happens when the server listens, is a parameter (\<open>outside\<close>).
\<close>

record 'w process =
  pr_disk :: catalog_disk
  pr_world :: 'w
  pr_out :: string
  pr_err :: string

record 'w outside =
  o_decoders :: decoders
  o_suite :: "string \<Rightarrow> string + suite"
  o_llm :: llm_decoders
  o_any :: "string \<Rightarrow> gval option"
  o_net :: "'w net"
  o_Getenv :: "string \<Rightarrow> string"
  o_names :: "'w library \<Rightarrow> string list"
  o_hosts :: "nat \<Rightarrow> nat \<Rightarrow> 'w host"
  o_diff_hosts :: "nat \<Rightarrow> 'w host \<times> 'w host"
  o_clock :: "nat \<Rightarrow> int \<times> int"
  o_order :: "memory_store \<Rightarrow> memory_store"
  o_Listen :: "string \<Rightarrow> string option"

text \<open>
  A command exits with a status, crashes with a panic, or serves: an address and what answers there.
\<close>

datatype 'w cli_end = Exit int | Crash string | Serving string "('w, memory_store) api"

definition say :: "string \<Rightarrow> 'w process \<Rightarrow> 'w process" where
  "say s p = p\<lparr>pr_out := pr_out p @ s\<rparr>"

definition complain :: "string \<Rightarrow> 'w process \<Rightarrow> 'w process" where
  "complain s p = p\<lparr>pr_err := pr_err p @ s\<rparr>"

text \<open>A line on standard error and an exit status.\<close>

definition give_up :: "int \<Rightarrow> string \<Rightarrow> 'w process \<Rightarrow> 'w cli_end \<times> 'w process" where
  "give_up status msg p = (Exit status, complain (msg @ newline) p)"

definition fresh_rt :: "'w process \<Rightarrow> ('w, memory_store) rt" where
  "fresh_rt p = \<lparr>rt_world = pr_world p, rt_store = NewMemoryStore, rt_log = []\<rparr>"

definition defaultCatalogDir :: string where
  "defaultCatalogDir = ''catalog''"

definition usage :: string where
  "usage =
     text_lines
      [''cee - Cognitive Execution Engine tooling'',
       [],
       ''usage:'',
       ''  cee draft \"<description>\"          draft a workflow from a description'',
       ''  cee serve <manifest.json> [addr]   serve one manifest over HTTP (local trial)'',
       ''  cee validate <manifest.json>       statically check one domain manifest'',
       ''  cee diff <before> <after> <events> replay past decisions against a changed manifest'',
       ''  cee lint [catalog_dir]             check a whole catalog's integrity'',
       ''  cee list [catalog_dir]             list the plugins in a catalog'',
       ''  cee install <name> [catalog_dir]   fetch a plugin manifest into ./plugins'',
       ''  cee bench [catalog_dir]            run benchmarks and print a leaderboard'',
       [],
       ''catalog_dir defaults to \"catalog\".'',
       [],
       ''cee serve is for trying a manifest out, not a deployment model: it runs with no'',
       ''authentication and an in-memory store, so it binds to loopback only. To deploy,'',
       ''mount httpapi.New in your own service with a real Identify and a durable Store.'',
       [],
       ''cee draft reads CEE_LLM_BASE_URL, CEE_LLM_MODEL and CEE_LLM_API_KEY. It prints'',
       ''a manifest only once that manifest validates -- review it, then save it.'']"

section \<open>Checking and comparing manifests\<close>

definition runValidate :: "'w outside \<Rightarrow> string list \<Rightarrow> 'w process \<Rightarrow> 'w cli_end \<times> 'w process" where
  "runValidate env args p =
     (case args of
        [path] \<Rightarrow>
          (case cd_ReadFile path (pr_disk p) of
             Inl err \<Rightarrow> give_up 2 (''cee validate: '' @ err) p
           | Inr data \<Rightarrow>
               (let report = Validate (dec_manifest (o_decoders env) data) (Default :: 'w library);
                    p1 = say (report_String report @ newline) p
                in (Exit (if report_OK report then 0 else 1), p1)))
      | _ \<Rightarrow> give_up 2 ''usage: cee validate <manifest.json>'' p)"

text \<open>The two flags may stand anywhere among the arguments.\<close>

definition diff_flags :: "string list \<Rightarrow> bool \<times> bool \<times> string list" where
  "diff_flags args =
     (''--markdown'' \<in> set args, ''--fail-on-change'' \<in> set args,
      filter (\<lambda>a. a \<noteq> ''--markdown'' \<and> a \<noteq> ''--fail-on-change'') args)"

definition cli_suite :: "'w outside \<Rightarrow> string \<Rightarrow> string + suite" where
  "cli_suite env data = ParseSuite (o_suite env data)"

definition runDiff :: "'w outside \<Rightarrow> string list \<Rightarrow> 'w process \<Rightarrow> 'w cli_end \<times> 'w process" where
  "runDiff env args p =
     (let (markdown, failOnChange, positional) = diff_flags args in
      case positional of
        [beforePath, afterPath, eventsPath] \<Rightarrow>
          (case cd_ReadFile beforePath (pr_disk p) of
             Inl err \<Rightarrow> give_up 2 (''cee diff: '' @ err) p
           | Inr before \<Rightarrow>
               (case cd_ReadFile afterPath (pr_disk p) of
                  Inl err \<Rightarrow> give_up 2 (''cee diff: '' @ err) p
                | Inr after \<Rightarrow>
                    (case cd_ReadFile eventsPath (pr_disk p) of
                       Inl err \<Rightarrow> give_up 2 (''cee diff: '' @ err) p
                     | Inr eventsData \<Rightarrow>
                         (case cli_suite env eventsData of
                            Inl err \<Rightarrow> give_up 2 (''cee diff: '' @ err) p
                          | Inr s \<Rightarrow>
                              (case policy_Compare (o_diff_hosts env) (dec_manifest (o_decoders env) before)
                                      (dec_manifest (o_decoders env) after) s Default (fresh_rt p) of
                                 (Err err, rt) \<Rightarrow> give_up 2 (''cee diff: '' @ err) (p\<lparr>pr_world := rt_world rt\<rparr>)
                               | (Panic q, rt) \<Rightarrow> (Crash q, p\<lparr>pr_world := rt_world rt\<rparr>)
                               | (Ok report, rt) \<Rightarrow>
                                   (Exit (if failOnChange \<and> 0 < Flipped report then 1 else 0),
                                    say (if markdown then policy_Markdown report else policy_Text report)
                                      (p\<lparr>pr_world := rt_world rt\<rparr>)))))))
      | _ \<Rightarrow> give_up 2 ''usage: cee diff <before.json> <after.json> <events.json> [--markdown] [--fail-on-change]'' p)"

section \<open>Catalogs\<close>

text \<open>The optional argument of \<open>lint\<close>, \<open>list\<close> and \<open>bench\<close>.\<close>

definition catalog_dir :: "string list \<Rightarrow> string option" where
  "catalog_dir args = (case args of [] \<Rightarrow> Some defaultCatalogDir | [d] \<Rightarrow> Some d | _ \<Rightarrow> None)"

definition runLint :: "'w outside \<Rightarrow> string list \<Rightarrow> 'w process \<Rightarrow> 'w cli_end \<times> 'w process" where
  "runLint env args p =
     (case catalog_dir args of
        None \<Rightarrow> give_up 2 ''usage: cee lint [catalog_dir]'' p
      | Some dir \<Rightarrow>
          (case catalog_Load (o_decoders env) dir (pr_disk p) of
             Inl err \<Rightarrow> give_up 2 (''cee lint: '' @ err) p
           | Inr cat \<Rightarrow>
               (let report = Lint (o_decoders env) (Default :: 'w library) cat (pr_disk p)
                in (Exit (if report_OK report then 0 else 1), say (report_String report @ newline) p))))"

definition list_line :: "catalog_entry \<Rightarrow> string" where
  "list_line e =
     pad_right 16 (en_Name e) @ '' '' @ pad_right 4 (en_Tier e) @ '' v'' @ pad_right 8 (en_Version e) @ '' '' @
     en_Description e @ newline"

definition runList :: "'w outside \<Rightarrow> string list \<Rightarrow> 'w process \<Rightarrow> 'w cli_end \<times> 'w process" where
  "runList env args p =
     (case catalog_dir args of
        None \<Rightarrow> give_up 2 ''usage: cee list [catalog_dir]'' p
      | Some dir \<Rightarrow>
          (case catalog_Load (o_decoders env) dir (pr_disk p) of
             Inl err \<Rightarrow> give_up 2 (''cee list: '' @ err) p
           | Inr cat \<Rightarrow>
               (if Entries cat = [] then (Exit 0, say (''(catalog is empty)'' @ newline) p)
                else (Exit 0, say (concat (map list_line (Entries cat))) p))))"

definition install_in :: "'w outside \<Rightarrow> string \<Rightarrow> string \<Rightarrow> 'w process \<Rightarrow> 'w cli_end \<times> 'w process" where
  "install_in env name dir p =
     (case catalog_Load (o_decoders env) dir (pr_disk p) of
        Inl err \<Rightarrow> give_up 2 (''cee install: '' @ err) p
      | Inr cat \<Rightarrow>
          (case catalog_Find cat name of
             None \<Rightarrow> give_up 1 (''cee install: no plugin named '' @ quoted name @ '' in '' @ dir) p
           | Some entry \<Rightarrow>
               (case Install (o_decoders env) (Default :: 'w library) cat entry ''plugins'' (pr_disk p) of
                  (Inl err, d) \<Rightarrow> give_up 1 (''cee install: '' @ err) (p\<lparr>pr_disk := d\<rparr>)
                | (Inr dest, d) \<Rightarrow>
                    (Exit 0, say (''installed '' @ quoted name @ '' -> '' @ dest @ newline) (p\<lparr>pr_disk := d\<rparr>)))))"

definition runInstall :: "'w outside \<Rightarrow> string list \<Rightarrow> 'w process \<Rightarrow> 'w cli_end \<times> 'w process" where
  "runInstall env args p =
     (case args of
        [name] \<Rightarrow> install_in env name defaultCatalogDir p
      | [name, dir] \<Rightarrow> install_in env name dir p
      | _ \<Rightarrow> give_up 2 ''usage: cee install <name> [catalog_dir]'' p)"

text \<open>The loop over the entries; an error or a panic ends the command. \<open>k\<close> counts the benchmarks run.\<close>

fun bench_entries :: "'w outside \<Rightarrow> catalog \<Rightarrow> nat \<Rightarrow> catalog_entry list \<Rightarrow> bench_result list \<Rightarrow> 'w process \<Rightarrow>
    ('w cli_end + bench_result list) \<times> 'w process" where
  "bench_entries env cat k [] results p = (Inr results, p)"
| "bench_entries env cat k (entry # es) results p =
     (let fail = (\<lambda>err. (Inl (Exit 1), complain (''cee bench: '' @ quoted (en_Name entry) @ '': '' @ err @ newline) p)) in
      case ReadBenchmark cat entry (pr_disk p) of
        (_, _, Some err) \<Rightarrow> fail err
      | (_, False, None) \<Rightarrow> bench_entries env cat k es results p
      | (benchData, True, None) \<Rightarrow>
          (case cli_suite env benchData of
             Inl err \<Rightarrow> fail err
           | Inr s \<Rightarrow>
               (case ReadManifest cat entry (pr_disk p) of
                  Inl err \<Rightarrow> fail err
                | Inr manifestData \<Rightarrow>
                    (case Load (dec_manifest (o_decoders env) manifestData) Map.empty (Default :: 'w library) of
                       Err err \<Rightarrow> fail err
                     | Panic q \<Rightarrow> (Inl (Crash q), p)
                     | Ok d \<Rightarrow>
                         (case bench_Run (o_hosts env k) d s (fst (o_clock env k)) (snd (o_clock env k)) (fresh_rt p) of
                            (Ok result, rt) \<Rightarrow>
                              bench_entries env cat (Suc k) es (results @ [result]) (p\<lparr>pr_world := rt_world rt\<rparr>)
                          | (Err err, rt) \<Rightarrow> fail err
                          | (Panic q, rt) \<Rightarrow> (Inl (Crash q), p\<lparr>pr_world := rt_world rt\<rparr>))))))"

definition runBench :: "'w outside \<Rightarrow> string list \<Rightarrow> 'w process \<Rightarrow> 'w cli_end \<times> 'w process" where
  "runBench env args p =
     (case catalog_dir args of
        None \<Rightarrow> give_up 2 ''usage: cee bench [catalog_dir]'' p
      | Some dir \<Rightarrow>
          (case catalog_Load (o_decoders env) dir (pr_disk p) of
             Inl err \<Rightarrow> give_up 2 (''cee bench: '' @ err) p
           | Inr cat \<Rightarrow>
               (case bench_entries env cat 0 (Entries cat) [] p of
                  (Inl e, p1) \<Rightarrow> (e, p1)
                | (Inr results, p1) \<Rightarrow>
                    if results = [] then (Exit 0, say (''(no benchmarked plugins in catalog)'' @ newline) p1)
                    else (Exit 0, say (FormatLeaderboard results) p1))))"

section \<open>Drafting\<close>

text \<open>The answers that were rejected, as far as there were any, numbered from one.\<close>

definition rejected_text :: "'w outside \<Rightarrow> nat \<Rightarrow> attempt \<Rightarrow> string" where
  "rejected_text env i a =
     (if at_Manifest a = [] then []
      else newline @ ''--- attempt '' @ digits_of (i + 1) @ '' ---'' @ newline @ Pretty (o_any env) (at_Manifest a) @ newline)"

definition runDraft :: "'w outside \<Rightarrow> string list \<Rightarrow> 'w process \<Rightarrow> 'w cli_end \<times> 'w process" where
  "runDraft env args p =
     (case args of
        [description] \<Rightarrow>
          (if TrimSpace description = [] then give_up 2 ''usage: cee draft \"<description of the process>\"'' p
           else
             (let baseURL = o_Getenv env ''CEE_LLM_BASE_URL''; model = o_Getenv env ''CEE_LLM_MODEL'' in
              if baseURL = [] \<or> model = [] then
                give_up 2 (''cee draft: set CEE_LLM_BASE_URL and CEE_LLM_MODEL'' @ newline @
                  ''  e.g. CEE_LLM_BASE_URL=https://api.openai.com/v1 CEE_LLM_MODEL=gpt-4o-mini'') p
              else
                (let cfg = \<lparr>df_LLM = \<lparr>llm_BaseURL = baseURL, llm_Model = model,
                             llm_APIKey = o_Getenv env ''CEE_LLM_API_KEY'', llm_HTTPClient = None\<rparr>,
                            df_MaxAttempts = 0, df_HookNames = []\<rparr>
                 in case draft_Draft (o_net env) (o_llm env) (dec_manifest (o_decoders env)) (o_names env) cfg description
                           (Some Default) (pr_world p) of
                      (Panicked q, w) \<Rightarrow> (Crash q, p\<lparr>pr_world := w\<rparr>)
                    | (Returns (result, Some err), w) \<Rightarrow>
                        (Exit 1,
                         complain (''cee draft: '' @ err @ newline @
                           concat (map2 (rejected_text env) [0..<length (dr_Attempts result)] (dr_Attempts result)))
                           (p\<lparr>pr_world := w\<rparr>))
                    | (Returns (result, None), w) \<Rightarrow>
                        (Exit 0,
                         complain (newline @ ''validated after '' @ digits_of (length (dr_Attempts result)) @
                           '' attempt(s). Review it, then save and run:'' @ newline @ ''  cee validate <file>'' @ newline)
                           (say (Pretty (o_any env) (dr_Manifest result)) (p\<lparr>pr_world := w\<rparr>))))))
      | _ \<Rightarrow> give_up 2 ''usage: cee draft \"<description of the process>\"'' p)"

section \<open>Serving\<close>

definition isLoopback :: "string \<Rightarrow> bool" where
  "isLoopback addr =
     (case split_host addr of
        None \<Rightarrow> False
      | Some host \<Rightarrow>
          host = ''localhost'' \<or> (case ParseIP host of None \<Rightarrow> False | Some ip \<Rightarrow> IsLoopback ip))"

definition serve_engine :: "'w domain \<Rightarrow> ('w, memory_store) engine" where
  "serve_engine d =
     reg_engine (RegisterDomain d
       (NewRegistry (NewRouter (round64 (34 / 100))) (SetStore (Some MemoryStore) (NewEngine None))))"

definition serve_config :: "'w outside \<Rightarrow> 'w domain \<Rightarrow> ('w, memory_store) api" where
  "serve_config env d =
     \<lparr>cfg_Engine = Some (serve_engine d), cfg_Identify = None, cfg_AllowAnonymous = True,
      cfg_Pending = Some (MemoryPending (o_order env)), cfg_MaxBodyBytes = 0, cfg_Logger = None\<rparr>"

definition single_quote :: string where "single_quote = [CHR 0x27]"

definition run_hint :: "string \<Rightarrow> 'w workflow \<Rightarrow> string" where
  "run_hint addr flow =
     newline @ ''  curl -s http://'' @ addr @ ''/v1/run -d '' @ single_quote @ ''{\"workflow\":'' @
     quoted (wf_WorkflowID flow) @ '',\"context\":{}}'' @ single_quote @ newline"

definition serve_banner :: "string \<Rightarrow> 'w domain \<Rightarrow> string" where
  "serve_banner addr d =
     ''serving '' @ quoted (dom_Name d) @ '' on http://'' @ addr @ newline @
     ''  unauthenticated, in-memory, loopback only '' @ em_dash @ '' for trying it out'' @ newline @
     concat (map (run_hint addr) (dom_Workflows d)) @
     newline @ ''  curl -s http://'' @ addr @ ''/v1/pending'' @ newline"

definition serve_at :: "'w outside \<Rightarrow> string \<Rightarrow> string \<Rightarrow> 'w process \<Rightarrow> 'w cli_end \<times> 'w process" where
  "serve_at env path addr p =
     (if \<not> isLoopback addr then
        give_up 2 (''cee serve: refusing to listen on '' @ quoted addr @ ''.'' @ newline @
          ''It serves unauthenticated, so it binds to loopback only. To expose CEE, mount'' @ newline @
          ''httpapi.New in your own service with an Identify that authenticates.'') p
      else case cd_ReadFile path (pr_disk p) of
        Inl err \<Rightarrow> give_up 2 (''cee serve: '' @ err) p
      | Inr data \<Rightarrow>
          (case Load (dec_manifest (o_decoders env) data) Map.empty Default of
             Err err \<Rightarrow> give_up 1 (''cee serve: '' @ err) p
           | Panic q \<Rightarrow> (Crash q, p)
           | Ok d \<Rightarrow>
               (case api_New (serve_config env d) of
                  Inl err \<Rightarrow> give_up 1 (''cee serve: '' @ err) p
                | Inr handler \<Rightarrow>
                    (let p1 = say (serve_banner addr d) p in
                     case o_Listen env addr of
                       Some err \<Rightarrow> give_up 1 (''cee serve: '' @ err) p1
                     | None \<Rightarrow> (Serving addr handler, p1)))))"

definition runServe :: "'w outside \<Rightarrow> string list \<Rightarrow> 'w process \<Rightarrow> 'w cli_end \<times> 'w process" where
  "runServe env args p =
     (case args of
        [path] \<Rightarrow> serve_at env path ''127.0.0.1:8080'' p
      | [path, addr] \<Rightarrow> serve_at env path addr p
      | _ \<Rightarrow> give_up 2 ''usage: cee serve <manifest.json> [addr]'' p)"

section \<open>The program\<close>

text \<open>The arguments after the program's name.\<close>

definition cli_main :: "'w outside \<Rightarrow> string list \<Rightarrow> 'w process \<Rightarrow> 'w cli_end \<times> 'w process" where
  "cli_main env argv p =
     (case argv of
        [] \<Rightarrow> (Exit 2, complain usage p)
      | cmd # args \<Rightarrow>
          if cmd = ''draft'' then runDraft env args p
          else if cmd = ''serve'' then runServe env args p
          else if cmd = ''validate'' then runValidate env args p
          else if cmd = ''diff'' then runDiff env args p
          else if cmd = ''lint'' then runLint env args p
          else if cmd = ''list'' then runList env args p
          else if cmd = ''install'' then runInstall env args p
          else if cmd = ''bench'' then runBench env args p
          else if cmd = ''-h'' \<or> cmd = ''--help'' \<or> cmd = ''help'' then (Exit 0, complain usage p)
          else (Exit 2, complain (''cee: unknown command '' @ quoted cmd @ newline @ newline @ usage) p))"

end
