(* ===== verification/CliFacts.thy ===== *)
theory CliFacts
  imports Cli CatalogFacts
begin

text \<open>
  What the command line does to the machine it runs on: which addresses \<open>cee serve\<close> listens on, and what
  the commands write.
\<close>

section \<open>Loopback addresses\<close>

lemma last_index_append: "c \<notin> set b \<Longrightarrow> last_index c (a @ c # b) = Some (length a)"
proof -
  assume "c \<notin> set b"
  then have "takeWhile (\<lambda>x. x \<noteq> c) (rev b @ c # rev a) = rev b" by (subst takeWhile_append2) auto
  then show ?thesis by (simp add: last_index_def)
qed

definition plain_part :: "string \<Rightarrow> bool" where
  "plain_part s \<longleftrightarrow> CHR '':'' \<notin> set s \<and> CHR ''['' \<notin> set s \<and> CHR '']'' \<notin> set s"

lemma split_host_plain: "plain_part host \<Longrightarrow> plain_part port \<Longrightarrow> split_host (host @ CHR '':'' # port) = Some host"
proof -
  assume a: "plain_part host" "plain_part port"
  have i: "last_index (CHR '':'') (host @ CHR '':'' # port) = Some (length host)"
    using a(2) by (intro last_index_append) (simp add: plain_part_def)
  have h: "hd (host @ CHR '':'' # port) \<noteq> CHR ''[''" using a(1) by (cases host) (auto simp: plain_part_def)
  show ?thesis using a by (simp add: split_host_def i h plain_part_def)
qed

lemma ParseIP_plain:
  "CHR '':'' \<notin> set host \<Longrightarrow> ParseIP host =
     (if CHR ''%'' \<in> set host \<or> CHR ''.'' \<notin> set host then None
      else map_option (\<lambda>v4. replicate 10 0 @ [255, 255] @ v4) (parse_ipv4 host))"
proof -
  assume "CHR '':'' \<notin> set host"
  then have f: "filter (\<lambda>c. c = CHR ''.'' \<or> c = CHR '':'') host = filter (\<lambda>c. c = CHR ''.'') host"
    by (intro filter_cong) auto
  show ?thesis
  proof (cases "filter (\<lambda>c. c = CHR ''.'') host")
    case Nil
    then have "CHR ''.'' \<notin> set host" by (auto simp: filter_empty_conv)
    with Nil f show ?thesis by (simp add: ParseIP_def)
  next
    case (Cons c cs)
    then have "c \<in> set (filter (\<lambda>c. c = CHR ''.'') host)" by simp
    then have "c = CHR ''.''" "CHR ''.'' \<in> set host" by auto
    with Cons f show ?thesis by (simp add: ParseIP_def split: option.split)
  qed
qed

lemma dotted_chars: "v \<noteq> [] \<Longrightarrow> tl v \<noteq> [] \<Longrightarrow> CHR ''.'' \<in> set (dotted v)"
  by (cases v; cases "tl v") (auto simp: dotted_def)

lemma dotted_no_percent: "CHR ''%'' \<notin> set (dotted v)"
proof -
  have d: "CHR ''%'' \<notin> set (digits_of n)" for n using decimal_digits [of n] by (auto simp: list_all_iff is_digit_def)
  show ?thesis unfolding dotted_def
  proof (induction v)
    case (Cons x xs)
    then show ?case using d by (cases xs) auto
  qed simp
qed

lemma loopback_plain:
  assumes "plain_part host" and "plain_part port"
  shows "isLoopback (host @ CHR '':'' # port) \<longleftrightarrow>
    host = ''localhost'' \<or> (\<exists>b c d. b \<le> 255 \<and> c \<le> 255 \<and> d \<le> 255 \<and> host = dotted [127, b, c, d])"
proof -
  have colon: "CHR '':'' \<notin> set host" using assms(1) by (simp add: plain_part_def)
  have "(case ParseIP host of None \<Rightarrow> False | Some ip \<Rightarrow> IsLoopback ip) \<longleftrightarrow>
      (\<exists>b c d. b \<le> 255 \<and> c \<le> 255 \<and> d \<le> 255 \<and> host = dotted [127, b, c, d])"
  proof
    assume "case ParseIP host of None \<Rightarrow> False | Some ip \<Rightarrow> IsLoopback ip"
    then obtain v4 where v4: "parse_ipv4 host = Some v4" "IsLoopback (replicate 10 0 @ [255, 255] @ v4)"
      using ParseIP_plain [OF colon] by (auto split: option.splits if_splits)
    then obtain a b c d where abcd: "v4 = [a, b, c, d]" by (auto simp: parse_ipv4_iff length_Suc_conv eval_nat_numeral)
    have "a = 127" using v4(2) abcd by (simp add: IsLoopback_def eval_nat_numeral)
    with v4(1) abcd show "\<exists>b c d. b \<le> 255 \<and> c \<le> 255 \<and> d \<le> 255 \<and> host = dotted [127, b, c, d]"
      by (auto simp: parse_ipv4_iff)
  next
    assume "\<exists>b c d. b \<le> 255 \<and> c \<le> 255 \<and> d \<le> 255 \<and> host = dotted [127, b, c, d]"
    then obtain b c d where h: "b \<le> 255" "c \<le> 255" "d \<le> 255" "host = dotted [127, b, c, d]" by blast
    then have "parse_ipv4 host = Some [127, b, c, d]" by (simp add: parse_ipv4_iff)
    moreover have "CHR ''.'' \<in> set host" "CHR ''%'' \<notin> set host" using h(4) dotted_chars dotted_no_percent by simp_all
    moreover have "IsLoopback (replicate 10 0 @ [255, 255] @ [127, b, c, d])" by (simp add: IsLoopback_def eval_nat_numeral)
    ultimately show "case ParseIP host of None \<Rightarrow> False | Some ip \<Rightarrow> IsLoopback ip"
      using ParseIP_plain [OF colon] by simp
  qed
  then show ?thesis by (simp add: isLoopback_def split_host_plain [OF assms])
qed

lemma serve_at_loopback: "serve_at env path addr p = (Serving addr1 a, p1) \<Longrightarrow> addr1 = addr \<and> isLoopback addr"
  by (auto simp: serve_at_def give_up_def Let_def split: if_splits sum.splits res.splits option.splits)

text \<open>No other command serves.\<close>

definition serves :: "'w cli_end \<times> 'w process \<Rightarrow> bool" where
  "serves x \<longleftrightarrow> (case fst x of Serving _ _ \<Rightarrow> True | _ \<Rightarrow> False)"

lemma serves_simps [simp]:
  "\<not> serves (Exit n, p)" "\<not> serves (Crash q, p)" "serves (Serving addr a, p)" "\<not> serves (give_up n m p)"
  "\<not> serves (if b then (Exit n, p) else (Exit n1, p2))"
  by (simp_all add: serves_def give_up_def)

lemma bench_entries_not_serving: "fst (bench_entries env cat k es results p) \<noteq> Inl (Serving addr a)"
proof (induction es arbitrary: k results p)
  case (Cons e es)
  then show ?case by (auto simp: Let_def split: prod.split option.split bool.split sum.split res.split)
qed simp

lemma bench_entries_end: "bench_entries env cat k es results p = (Inl e, p1) \<Longrightarrow> \<not> serves (e, p1)"
  using bench_entries_not_serving [of env cat k es results p] by (auto simp: serves_def split: cli_end.splits)

lemma not_serving:
  "\<not> serves (runValidate env args p)" "\<not> serves (runDiff env args p)" "\<not> serves (runLint env args p)"
  "\<not> serves (runList env args p)" "\<not> serves (runInstall env args p)" "\<not> serves (runBench env args p)"
  "\<not> serves (runDraft env args p)"
proof -
  show "\<not> serves (runValidate env args p)"
    by (auto simp: runValidate_def Let_def split: list.split sum.split)
  show "\<not> serves (runDiff env args p)"
    by (auto simp: runDiff_def Let_def split_beta split: list.split sum.split res.split)
  show "\<not> serves (runLint env args p)" by (auto simp: runLint_def Let_def split: option.split sum.split)
  show "\<not> serves (runList env args p)" by (auto simp: runList_def split: option.split sum.split)
  have "\<not> serves (install_in env name dir p)" for name dir
    by (auto simp: install_in_def split: option.split sum.split prod.split)
  then show "\<not> serves (runInstall env args p)" by (auto simp: runInstall_def split: list.split)
  show "\<not> serves (runBench env args p)"
    by (auto simp: runBench_def bench_entries_end split: option.split sum.split prod.split)
  show "\<not> serves (runDraft env args p)"
    by (auto simp: runDraft_def Let_def split: list.split prod.split returned.split option.split)
qed

text \<open>
  The program listens without authentication, so it listens locally only: whatever its arguments, the
  address it serves on passes the loopback check, and an address of the form \<open>host:port\<close> passes only if the
  host is \<open>localhost\<close> or an IPv4 address from 127.0.0.0/8 in canonical form. An empty host, 0.0.0.0 or a
  name does not.
\<close>

theorem serving_is_local:
  assumes "cli_main env argv p = (Serving addr a, p1)"
  shows "isLoopback addr \<and>
    (\<forall>host port. addr = host @ CHR '':'' # port \<longrightarrow> plain_part host \<longrightarrow> plain_part port \<longrightarrow>
       host = ''localhost'' \<or> (\<exists>b c d. b \<le> 255 \<and> c \<le> 255 \<and> d \<le> 255 \<and> host = dotted [127, b, c, d]))"
proof -
  have "serves (cli_main env argv p)" using assms by simp
  then obtain args where "cli_main env argv p = runServe env args p"
    by (auto simp: cli_main_def not_serving split: list.splits if_splits)
  with assms have "isLoopback addr"
    by (auto simp: runServe_def give_up_def dest: serve_at_loopback split: list.splits)
  then show ?thesis using loopback_plain by blast
qed

definition empty_manifest :: manifest_file where
  "empty_manifest = \<lparr>file_Name = ''d'', file_Intents = [], file_Policies = [], file_Workflows = []\<rparr>"

definition sample_outside :: "journal outside" where
  "sample_outside =
     \<lparr>o_decoders = sample_decoders\<lparr>dec_manifest := \<lambda>_. Inr empty_manifest\<rparr>, o_suite = (\<lambda>_. Inl ''none''),
      o_llm = \<lparr>dec_choices = (\<lambda>_. Inr []), dec_object = (\<lambda>_. Inr [])\<rparr>, o_any = (\<lambda>_. None),
      o_net = \<lparr>net_URLError = (\<lambda>_. None), net_DefaultClient = (\<lambda>r w. (Inl ''down'', w))\<rparr>,
      o_Getenv = (\<lambda>_. []), o_names = (\<lambda>_. []), o_hosts = (\<lambda>_ _. sample_host),
      o_diff_hosts = (\<lambda>_. (sample_host, sample_host)), o_clock = (\<lambda>_. (0, 0)), o_order = (\<lambda>m. m), o_Listen = (\<lambda>_. None)\<rparr>"

definition sample_process :: "journal process" where
  "sample_process = \<lparr>pr_disk = sample_disk, pr_world = [], pr_out = [], pr_err = []\<rparr>"

lemma default_address: "isLoopback ''127.0.0.1:8080''"
proof -
  have d: "dotted [127, 0, 0, Suc 0] = ''127.0.0.1''" by code_simp
  have "\<exists>b c d. b \<le> 255 \<and> c \<le> 255 \<and> d \<le> 255 \<and> ''127.0.0.1'' = dotted [127, b, c, d]"
    by (rule exI [of _ 0], rule exI [of _ 0], rule exI [of _ "Suc 0"]) (simp add: d)
  then have "isLoopback (''127.0.0.1'' @ CHR '':'' # ''8080'')"
    by (subst loopback_plain) (simp_all add: plain_part_def)
  then show ?thesis by simp
qed

lemma sample_serves: "\<exists>a p1. cli_main sample_outside [''serve'', ''/cat/shop/m.json''] sample_process = (Serving ''127.0.0.1:8080'' a, p1)"
proof -
  have "cd_ReadFile ''/cat/shop/m.json'' (pr_disk sample_process) = Inr ''{}''"
    by (simp add: cd_ReadFile_def sample_process_def sample_disk_def)
  moreover have "dec_manifest (o_decoders sample_outside) ''{}'' = Inr empty_manifest" "o_Listen sample_outside addr = None" for addr
    by (simp_all add: sample_outside_def)
  moreover have "Load (Inr empty_manifest) Map.empty (Default :: journal library) =
      Ok \<lparr>dom_Name = ''d'', dom_Intents = [], dom_Workflows = [], dom_Policies = []\<rparr>"
    by (simp add: Load_def load_file_def empty_manifest_def)
  ultimately show ?thesis
    by (simp add: cli_main_def runServe_def serve_at_def default_address api_New_def serve_config_def)
qed

lemma serving_is_local_witness:
  "\<exists>a p1. cli_main sample_outside [''serve'', ''/cat/shop/m.json''] sample_process = (Serving ''127.0.0.1:8080'' a, p1) \<and>
     isLoopback ''127.0.0.1:8080''"
  using sample_serves serving_is_local [of sample_outside "[''serve'', ''/cat/shop/m.json'']" sample_process "''127.0.0.1:8080''"]
  by blast

section \<open>What the commands write\<close>

lemma disk_simps [simp]:
  "pr_disk (say m p) = pr_disk p" "pr_disk (complain m p) = pr_disk p" "pr_disk (snd (give_up n m p)) = pr_disk p"
  by (simp_all add: say_def complain_def give_up_def)

lemma bench_entries_disk: "pr_disk (snd (bench_entries env cat k es results p)) = pr_disk p"
proof (induction es arbitrary: k results p)
  case (Cons e es)
  then show ?case by (auto simp: Let_def split: prod.split option.split bool.split sum.split res.split)
qed simp

lemma bench_entries_disk': "bench_entries env cat k es results p = (r, p1) \<Longrightarrow> pr_disk p1 = pr_disk p"
  using bench_entries_disk [of env cat k es results p] by simp

lemma disk_kept:
  "pr_disk (snd (runValidate env args p)) = pr_disk p" "pr_disk (snd (runDiff env args p)) = pr_disk p"
  "pr_disk (snd (runLint env args p)) = pr_disk p" "pr_disk (snd (runList env args p)) = pr_disk p"
  "pr_disk (snd (runBench env args p)) = pr_disk p" "pr_disk (snd (runDraft env args p)) = pr_disk p"
  "pr_disk (snd (runServe env args p)) = pr_disk p"
proof -
  show "pr_disk (snd (runValidate env args p)) = pr_disk p" by (auto simp: runValidate_def Let_def split: list.split sum.split)
  show "pr_disk (snd (runDiff env args p)) = pr_disk p"
    by (auto simp: runDiff_def Let_def split_beta split: list.split sum.split res.split)
  show "pr_disk (snd (runLint env args p)) = pr_disk p" by (auto simp: runLint_def Let_def split: option.split sum.split)
  show "pr_disk (snd (runList env args p)) = pr_disk p" by (auto simp: runList_def split: option.split sum.split)
  show "pr_disk (snd (runBench env args p)) = pr_disk p"
    by (auto simp: runBench_def split: option.split sum.split prod.split dest: bench_entries_disk')
  show "pr_disk (snd (runDraft env args p)) = pr_disk p"
    by (auto simp: runDraft_def Let_def split: list.split prod.split returned.split option.split)
  have "pr_disk (snd (serve_at env path addr p)) = pr_disk p" for path addr
    by (auto simp: serve_at_def Let_def split: sum.split res.split option.split)
  then show "pr_disk (snd (runServe env args p)) = pr_disk p" by (auto simp: runServe_def split: list.split)
qed

text \<open>
  What one installation may do to the disk: to one file, whose new bytes are the first \<open>k\<close> of a manifest
  that the validator accepts, and all of them when the command exits with status zero.
\<close>

definition installed :: "'w outside \<Rightarrow> string \<Rightarrow> 'w cli_end \<Rightarrow> catalog_disk \<Rightarrow> catalog_disk \<Rightarrow> bool" where
  "installed env name ending d d1 \<longleftrightarrow>
     (\<exists>dest data k. components dest = [''plugins'', name @ ''.json''] \<and>
        report_OK (Validate (dec_manifest (o_decoders env) data) (Default :: 'w library)) \<and>
        d1 = d\<lparr>cd_files := (cd_files d)(dest \<mapsto> take k data)\<rparr> \<and>
        (ending = Exit 0 \<longrightarrow> length data \<le> k))"

lemma find_entry_name: "find_entry name es = Some e \<Longrightarrow> en_Name e = name"
  by (induction es) (auto split: if_splits)

lemma plugins_dir: "clean_comps (IsAbs ''plugins'') [''plugins''] = [''plugins'']"
  by code_simp

lemma install_in_disk:
  "pr_disk (snd (install_in env name dir p)) = pr_disk p \<or>
   installed env name (fst (install_in env name dir p)) (pr_disk p) (pr_disk (snd (install_in env name dir p)))"
proof (cases "\<exists>cat e. catalog_Load (o_decoders env) dir (pr_disk p) = Inr cat \<and> catalog_Find cat name = Some e")
  case False
  then show ?thesis by (auto simp: install_in_def split: sum.split option.split)
next
  case True
  then obtain cat e where c: "catalog_Load (o_decoders env) dir (pr_disk p) = Inr cat" "catalog_Find cat name = Some e" by blast
  have n: "en_Name e = name" using c(2) by (simp add: catalog_Find_def find_entry_name)
  obtain r d where i: "Install (o_decoders env) (Default :: 'a library) cat e ''plugins'' (pr_disk p) = (r, d)" by force
  have d: "pr_disk (snd (install_in env name dir p)) = d" using c i by (cases r) (simp_all add: install_in_def give_up_def complain_def say_def)
  note out = install_outcome [where dec = "o_decoders env" and std = "Default :: 'a library" and c = cat and e = e
      and destDir = "''plugins''" and d = "pr_disk p", unfolded i prod.case]
  show ?thesis
  proof (cases r)
    case (Inl err)
    have "fst (install_in env name dir p) = Exit 1" using c i Inl by (simp add: install_in_def give_up_def)
    with out d n Inl show ?thesis unfolding installed_def by (auto simp: plugins_dir)
  next
    case (Inr dest)
    with out n obtain data where data: "components dest = [''plugins'', name @ ''.json'']"
      "report_OK (Validate (dec_manifest (o_decoders env) data) (Default :: 'a library))"
      "d = pr_disk p\<lparr>cd_files := (cd_files (pr_disk p))(dest \<mapsto> data)\<rparr>" by (auto simp: plugins_dir)
    have "data = take (length data) data" by simp
    with data d show ?thesis unfolding installed_def by (metis order_refl)
  qed
qed

text \<open>
  C31. The program writes to the disk in one place only. No command but \<open>install\<close> changes a file, and
  \<open>install\<close> changes at most the file \<open>plugins/<name>.json\<close> of the name it was given. When it exits with status
  zero the file holds the whole of a manifest that the validator accepts; when it fails in the middle of
  the write, which truncates the file first, what is left is a first part of such a manifest.
\<close>

theorem only_install_writes:
  "pr_disk (snd (cli_main env argv p)) = pr_disk p \<or>
   (\<exists>name. take 2 argv = [''install'', name] \<and> installed env name (fst (cli_main env argv p)) (pr_disk p) (pr_disk (snd (cli_main env argv p))))"
proof (cases "\<exists>args. argv = ''install'' # args")
  case True
  then obtain args where argv: "argv = ''install'' # args" by blast
  have m: "cli_main env argv p = runInstall env args p" by (simp add: argv cli_main_def)
  consider (one) name where "args = [name]" | (two) name dir where "args = [name, dir]"
    | (other) "runInstall env args p = give_up 2 ''usage: cee install <name> [catalog_dir]'' p"
    by (cases args; cases "tl args"; cases "tl (tl args)") (auto simp: runInstall_def)
  then show ?thesis
  proof cases
    case one
    then show ?thesis unfolding m using install_in_disk [of env name defaultCatalogDir p] by (simp add: argv runInstall_def)
  next
    case two
    then show ?thesis unfolding m using install_in_disk [of env name dir p] by (simp add: argv runInstall_def)
  next
    case other
    then show ?thesis unfolding m by simp
  qed
next
  case False
  then have "pr_disk (snd (cli_main env argv p)) = pr_disk p"
    by (auto simp: cli_main_def disk_kept split: list.split)
  then show ?thesis ..
qed

end
