(* ===== verification/Playground.thy ===== *)
theory Playground
  imports PolicyFacts Validate Resume
begin

text \<open>
  The browser's entry points (\<open>cmd/ceewasm/main.go\<close>): validate a manifest, run a suite through it, compare
  two manifests; text in, JSON text out. The arguments are what \<open>String()\<close> makes of the JavaScript values.
  A run's hosts, the decoders and the world are parameters, as on the command line.
\<close>

section \<open>Answers\<close>

definition encode :: "gval \<Rightarrow> string" where
  "encode v =
     (case json_marshal v of
        None \<Rightarrow> ''{\"error\":\"could not encode the result\"}''
      | Some data \<Rightarrow> data)"

definition fail :: "string \<Rightarrow> string" where
  "fail msg = encode (GObj [(''error'', GStr msg)])"

text \<open>A panic becomes an answer.\<close>

definition wrap :: "(string list \<Rightarrow> 'r \<Rightarrow> string returned \<times> 'r) \<Rightarrow> string list \<Rightarrow> 'r \<Rightarrow> string \<times> 'r" where
  "wrap f args rt =
     (case f args rt of
        (Returns s, rt1) \<Rightarrow> (s, rt1)
      | (Panicked p, rt1) \<Rightarrow> (encode (GObj [(''error'', GStr p)]), rt1))"

text \<open>Go's \<open>int\<close> and its map literals; a literal's keys are distinct.\<close>

definition g_len :: "'a list \<Rightarrow> gval" where
  "g_len xs = GInt (of_nat (length xs))"

definition g_map :: "(string \<times> gval) list \<Rightarrow> gval" where
  "g_map kvs = GObj (fold (\<lambda>(k, v). gput k v) kvs [])"

text \<open>A nil slice of strings is \<open>null\<close>.\<close>

definition g_strings :: "string list \<Rightarrow> gval" where
  "g_strings xs = (if xs = [] then GNil else GStrs xs)"

section \<open>Contexts\<close>

definition play_cloneContext :: "ctx \<Rightarrow> ctx" where
  "play_cloneContext m = gmerge [] m"

text \<open>The inner loop carries the element at \<open>j\<close> down as long as its neighbour below is greater.\<close>

fun sift :: "nat \<Rightarrow> string list \<Rightarrow> string list" where
  "sift 0 s = s"
| "sift (Suc j) s = (if s ! Suc j < s ! j then sift j (s[Suc j := s ! j, j := s ! Suc j]) else s)"

definition sortStrings :: "string list \<Rightarrow> string list" where
  "sortStrings s = fold sift [1..<length s] s"

definition play_describe :: "ctx \<Rightarrow> string" where
  "play_describe c =
     str_join (map (\<lambda>k. k @ ''='' @ fmt_v (case map_of c k of Some v \<Rightarrow> v | None \<Rightarrow> GNil)) (sortStrings (gkeys c))) '' ''"

section \<open>The entry points\<close>

definition play_issue :: "issue \<Rightarrow> gval" where
  "play_issue i =
     g_map [(''severity'', GStr (if issue_Severity i = Error then ''error'' else ''warning'')),
            (''message'', GStr (issue_Message i))]"

definition play_validate :: "(string \<Rightarrow> string + manifest_file) \<Rightarrow> 'w library \<Rightarrow> string list \<Rightarrow> 'r \<Rightarrow>
    string returned \<times> 'r" where
  "play_validate dec std args rt =
     (case args of
        [] \<Rightarrow> (Returns (fail ''validate needs a manifest''), rt)
      | data # _ \<Rightarrow>
          (let report = Validate (dec data) std;
               out = [(''ok'', GBool (report_OK report)), (''issues'', GArr (map play_issue report))] in
           case Load (dec data) Map.empty std of
             Panic p \<Rightarrow> (Panicked p, rt)
           | Ok d \<Rightarrow>
               (Returns (encode (g_map (out @ [(''workflows'', GStrs (map wf_WorkflowID (dom_Workflows d))),
                  (''domain'', GStr (dom_Name d))]))), rt)
           | Err err \<Rightarrow> (Returns (encode (g_map (out @ [(''load_error'', GStr err)]))), rt)))"

text \<open>What a workflow decided: its output less the engine's own keys and what the event already carried.\<close>

definition play_decision :: "ctx \<Rightarrow> ctx \<Rightarrow> ctx" where
  "play_decision input output =
     filter (\<lambda>(k, v). k \<noteq> FailureReasonKey \<and> \<not> has_prefix k ''cee.'' \<and> map_of input k = None) output"

definition play_reason :: "ctx \<Rightarrow> string" where
  "play_reason output = (case map_of output FailureReasonKey of Some v \<Rightarrow> fmt_v v | None \<Rightarrow> [])"

definition play_row :: "nat \<Rightarrow> bench_event \<Rightarrow> outcome \<Rightarrow> gval" where
  "play_row i ev r =
     (let result = result_of r; reason = play_reason (wr_Output result) in
      g_map
       ([(''index'', GInt (of_nat i)), (''input'', GStr (play_describe (ev_Context ev))),
         (''trace'', g_strings (wr_Trace result))] @
        (case error_of r of Some e \<Rightarrow> [(''error'', GStr e)] | None \<Rightarrow> []) @
        (if wr_StatePointer result \<noteq> [] then [(''suspended'', GBool True)] else []) @
        [(''decision'', GObj (play_decision (ev_Context ev) (wr_Output result)))] @
        (if reason \<noteq> [] then [(''reason'', GStr reason)] else [])))"

fun play_rows :: "(nat \<Rightarrow> 'w host) \<Rightarrow> ('w, 's) engine \<Rightarrow> nat \<Rightarrow> bench_event list \<Rightarrow> gval list \<Rightarrow> ('w, 's) rt \<Rightarrow>
    gval list returned \<times> ('w, 's) rt" where
  "play_rows hs e i [] rows rt = (Returns rows, rt)"
| "play_rows hs e i (ev # evs) rows rt =
     (case Run (hs i) e (ev_WorkflowRef ev) (play_cloneContext (ev_Context ev)) rt of
        (Panic p, rt1) \<Rightarrow> (Panicked p, rt1)
      | (r, rt1) \<Rightarrow> play_rows hs e (Suc i) evs (rows @ [play_row i ev r]) rt1)"

definition play_engine :: "'w domain \<Rightarrow> ('w, 's) engine" where
  "play_engine d = reg_engine (RegisterDomain d (NewRegistry (NewRouter (round64 (3 / 10))) (NewEngine None)))"

definition runSuite :: "(nat \<Rightarrow> 'w host) \<Rightarrow> (string \<Rightarrow> string + manifest_file) \<Rightarrow> (string \<Rightarrow> string + suite) \<Rightarrow>
    'w library \<Rightarrow> string list \<Rightarrow> ('w, 's) rt \<Rightarrow> string returned \<times> ('w, 's) rt" where
  "runSuite hs dec dec_suite std args rt =
     (case args of
        man # events # _ \<Rightarrow>
          (case Load (dec man) Map.empty std of
             Panic p \<Rightarrow> (Panicked p, rt)
           | Err err \<Rightarrow> (Returns (fail err), rt)
           | Ok d \<Rightarrow>
               (case ParseSuite (dec_suite events) of
                  Inl err \<Rightarrow> (Returns (fail err), rt)
                | Inr s \<Rightarrow>
                    (case play_rows hs (play_engine d) 0 (suite_Events s) [] rt of
                       (Panicked p, rt1) \<Rightarrow> (Panicked p, rt1)
                     | (Returns rows, rt1) \<Rightarrow>
                         (Returns (encode (g_map [(''events'', g_len (suite_Events s)), (''rows'', GArr rows)])), rt1))))
      | _ \<Rightarrow> (Returns (fail ''runSuite needs a manifest and an event set''), rt))"

definition play_change :: "difference \<Rightarrow> gval" where
  "play_change d =
     g_map [(''field'', GStr (trim_prefix (diff_Field d) ''output.'')),
            (''before'', GStr (Display (diff_Before d))), (''after'', GStr (Display (diff_After d)))]"

definition play_changes :: "difference list \<Rightarrow> gval list" where
  "play_changes ds =
     map play_change (filter (\<lambda>d. \<not> (diff_Field d = ''trace'' \<or> has_prefix (diff_Field d) ''output.cee.'')) ds)"

definition play_outcome :: "change \<Rightarrow> gval" where
  "play_outcome c =
     g_map [(''index'', GInt (of_nat (ch_Index c))), (''input'', GStr (play_describe (ch_Context c))),
            (''changes'', GArr (play_changes (ch_Differences c)))]"

definition play_report :: "policy_report \<Rightarrow> gval" where
  "play_report r =
     g_map [(''events'', GInt (of_nat (pr_Events r))), (''flipped'', GInt (of_nat (Flipped r))),
            (''outcomes'', GArr (map play_outcome (pr_Outcomes r))), (''explanations'', g_len (pr_Explanations r)),
            (''markdown'', GStr (policy_Markdown r))]"

definition play_diff :: "(nat \<Rightarrow> 'w host \<times> 'w host) \<Rightarrow> (string \<Rightarrow> string + manifest_file) \<Rightarrow> (string \<Rightarrow> string + suite) \<Rightarrow>
    'w library \<Rightarrow> string list \<Rightarrow> ('w, 's) rt \<Rightarrow> string returned \<times> ('w, 's) rt" where
  "play_diff hs dec dec_suite std args rt =
     (case args of
        before # after # events # _ \<Rightarrow>
          (case ParseSuite (dec_suite events) of
             Inl err \<Rightarrow> (Returns (fail err), rt)
           | Inr s \<Rightarrow>
               (case policy_Compare hs (dec before) (dec after) s std rt of
                  (Err err, rt1) \<Rightarrow> (Returns (fail err), rt1)
                | (Panic p, rt1) \<Rightarrow> (Panicked p, rt1)
                | (Ok report, rt1) \<Rightarrow> (Returns (encode (play_report report)), rt1)))
      | _ \<Rightarrow> (Returns (fail ''diff needs a before manifest, an after manifest and an event set''), rt))"

definition ceeValidate :: "(string \<Rightarrow> string + manifest_file) \<Rightarrow> string list \<Rightarrow> ('w, 's) rt \<Rightarrow> string \<times> ('w, 's) rt" where
  "ceeValidate dec = wrap (play_validate dec (Default :: 'w library))"

definition ceeRunSuite :: "(nat \<Rightarrow> 'w host) \<Rightarrow> (string \<Rightarrow> string + manifest_file) \<Rightarrow> (string \<Rightarrow> string + suite) \<Rightarrow>
    string list \<Rightarrow> ('w, 's) rt \<Rightarrow> string \<times> ('w, 's) rt" where
  "ceeRunSuite hs dec dec_suite = wrap (runSuite hs dec dec_suite Default)"

definition ceeDiff :: "(nat \<Rightarrow> 'w host \<times> 'w host) \<Rightarrow> (string \<Rightarrow> string + manifest_file) \<Rightarrow> (string \<Rightarrow> string + suite) \<Rightarrow>
    string list \<Rightarrow> ('w, 's) rt \<Rightarrow> string \<times> ('w, 's) rt" where
  "ceeDiff hs dec dec_suite = wrap (play_diff hs dec dec_suite Default)"

section \<open>The hand-written sort\<close>

lemma length_sift [simp]: "length (sift j s) = length s"
  by (induction j arbitrary: s) auto

lemma sorted_mset_eq: "sorted xs \<Longrightarrow> sorted ys \<Longrightarrow> mset xs = mset ys \<Longrightarrow> xs = ys"
  by (metis properties_for_sort)

text \<open>One round of the outer loop inserts the next element into the sorted part before it.\<close>

lemma sift_insort:
  "sorted xs \<Longrightarrow> sift (length xs) (xs @ y # zs) = insort y xs @ zs"
proof (induction xs arbitrary: zs rule: rev_induct)
  case (snoc x xs)
  have swap: "(xs @ x # y # zs)[Suc (length xs) := x, length xs := y] = xs @ y # x # zs"
    by (simp add: list_update_append)
  have s: "sorted xs" "\<forall>a \<in> set xs. a \<le> x" using snoc.prems by (auto simp: sorted_append)
  show ?case
  proof (cases "y < x")
    case True
    then have "insort y (xs @ [x]) = insort y xs @ [x]"
      using s(2) by (induction xs) auto
    with True snoc.IH [OF s(1), of "x # zs"] swap show ?thesis by (simp add: nth_append)
  next
    case False
    then have "insort y (xs @ [x]) = xs @ [x, y]"
      using s False by (intro sorted_mset_eq) (auto simp: sorted_insort sorted_append)
    with False show ?thesis by (simp add: nth_append)
  qed
qed simp

lemma fold_sift:
  "n \<le> length s \<Longrightarrow> 0 < n \<Longrightarrow> fold sift [1..<n] s = sort (take n s) @ drop n s"
proof (induction n)
  case (Suc n)
  show ?case
  proof (cases "n = 0")
    case True
    with Suc.prems show ?thesis by (cases s) auto
  next
    case False
    have n: "n < length s" using Suc.prems by simp
    have "fold sift [1..<Suc n] s = sift n (fold sift [1..<n] s)" using False by simp
    also have "\<dots> = sift (length (sort (take n s))) (sort (take n s) @ s ! n # drop (Suc n) s)"
      using False n Suc.IH by (simp add: Cons_nth_drop_Suc)
    also have "\<dots> = insort (s ! n) (sort (take n s)) @ drop (Suc n) s" by (rule sift_insort) simp
    also have "insort (s ! n) (sort (take n s)) = sort (take (Suc n) s)"
      using n by (intro sorted_mset_eq) (simp_all add: sorted_insort take_Suc_conv_app_nth)
    finally show ?thesis .
  qed
qed simp

lemma sortStrings_eq: "sortStrings s = sort s"
  using fold_sift [of "length s" s] by (cases s) (simp_all add: sortStrings_def)

lemma play_describe_eq: "play_describe c = describe c"
  by (simp add: play_describe_def describe_def sortStrings_eq)

end
