(* ===== verification/JsonSafe.thy ===== *)
theory JsonSafe
  imports Json Net
begin

text \<open>
  What \<open>encoding/json\<close> never writes: \<open>json.Marshal\<close> escapes the characters of markup inside strings, and
  everything else it writes is punctuation, digits and literals. A marshalled value can therefore stand in a
  script element of a page.
\<close>

definition no_markup :: "string \<Rightarrow> bool" where
  "no_markup s \<longleftrightarrow> list_all (\<lambda>c. c \<notin> {CHR ''<'', CHR ''>'', CHR ''&''}) s"

lemma no_markup_simps [simp]:
  "no_markup []" "no_markup (s @ t) \<longleftrightarrow> no_markup s \<and> no_markup t"
  "no_markup (c # s) \<longleftrightarrow> c \<notin> {CHR ''<'', CHR ''>'', CHR ''&''} \<and> no_markup s"
  by (auto simp: no_markup_def)

lemma no_markup_set: "no_markup s \<Longrightarrow> set t \<subseteq> set s \<Longrightarrow> no_markup t"
  by (auto simp: no_markup_def list_all_iff)

lemma no_markup_join: "\<forall>s \<in> set ss. no_markup s \<Longrightarrow> no_markup sep \<Longrightarrow> no_markup (str_join ss sep)"
  by (induction ss sep rule: str_join.induct) auto

lemma char_of_eq_CHR:
  "b < 256 \<Longrightarrow> char_of b = CHR ''<'' \<longleftrightarrow> b = (60 :: nat)"
  "b < 256 \<Longrightarrow> char_of b = CHR ''>'' \<longleftrightarrow> b = (62 :: nat)"
  "b < 256 \<Longrightarrow> char_of b = CHR ''&'' \<longleftrightarrow> b = (38 :: nat)"
  by (auto simp: char_of_eq_iff take_bit_eq_mod)

lemma no_markup_digits: "no_markup (digits_of n)"
proof -
  have "list_all is_digit (digits_of n)" by (simp add: decimal_digits)
  moreover have "is_digit c \<Longrightarrow> c \<notin> {CHR ''<'', CHR ''>'', CHR ''&''}" for c by (auto simp: is_digit_def)
  ultimately show ?thesis unfolding no_markup_def by (auto simp: list_all_iff)
qed

lemma no_markup_hex: "n < 16 \<Longrightarrow> hex_digit n \<notin> {CHR ''<'', CHR ''>'', CHR ''&''}"
  by (auto simp: hex_digit_def char_of_eq_CHR)

lemma no_markup_hex4: "no_markup (hex4 n)"
  using no_markup_hex by (simp add: hex4_def del: insert_iff) auto

lemma no_markup_ascii: "b < 128 \<Longrightarrow> no_markup (json_ascii b)"
  by (auto simp: json_ascii_def no_markup_hex4 char_of_eq_CHR)

text \<open>A rune of more than one byte has no byte below 128.\<close>

lemma decode_rune_high:
  "decode_rune (b # bs) = (r, n) \<Longrightarrow> n \<noteq> 1 \<Longrightarrow> c \<in> set (take n (b # bs)) \<Longrightarrow> 128 \<le> c"
  by (auto simp: decode_rune_def continuation_def split: list.splits if_splits)

lemma no_markup_escape: "\<forall>b \<in> set bs. b < 256 \<Longrightarrow> no_markup (json_escape bs)"
proof (induction bs rule: json_escape.induct)
  case (1 bs)
  show ?case
  proof (cases bs)
    case (Cons b r)
    obtain x n where d: "decode_rune bs = (x, n)" by force
    show ?thesis
    proof (cases "b < 128")
      case True
      with 1 Cons show ?thesis by (subst json_escape.simps) (simp add: no_markup_ascii)
    next
      case False
      have "\<forall>c \<in> set (drop n bs). c < 256" using 1(3) in_set_dropD by fast
      then have "no_markup (json_escape (drop n bs))"
        using 1(2) [OF _ _ d [symmetric] refl] Cons False by simp
      moreover have "no_markup (map char_of (take n bs))" if "n \<noteq> 1"
      proof -
        have "128 \<le> c \<and> c < 256" if "c \<in> set (take n bs)" for c
          using decode_rune_high [of b r x n c] d \<open>n \<noteq> 1\<close> that 1(3) Cons in_set_takeD [OF that] by auto
        then show ?thesis by (fastforce simp: no_markup_def list_all_iff char_of_eq_CHR)
      qed
      ultimately show ?thesis
        using Cons False d by (subst json_escape.simps) (simp add: no_markup_hex4)
    qed
  qed (subst json_escape.simps, simp)
qed

lemma no_markup_string: "no_markup (json_string s)"
  by (simp add: json_string_def no_markup_escape)

lemma no_markup_take: "no_markup s \<Longrightarrow> no_markup (take n s)" "no_markup s \<Longrightarrow> no_markup (drop n s)"
  by (auto intro: no_markup_set dest: in_set_takeD in_set_dropD)

lemma no_markup_float: "json_float p x = Some s \<Longrightarrow> no_markup s"
proof (induction p x rule: json_float.induct)
  case (1 p q)
  have "no_markup (replicate k (CHR ''0''))" for k by (simp add: no_markup_def list_all_iff)
  then have "no_markup (json_pos_rat p q)" for q
    by (simp add: json_pos_rat_def json_exp_def Let_def split_beta no_markup_digits no_markup_take)
  with 1 show ?case by (auto split: if_splits)
qed auto

lemma no_markup_list: "json_list l r xs = Some s \<Longrightarrow> no_markup l \<Longrightarrow> no_markup r \<Longrightarrow>
    (\<And>ss. xs = Some ss \<Longrightarrow> \<forall>s \<in> set ss. no_markup s) \<Longrightarrow> no_markup s"
  by (auto simp: json_list_def no_markup_join)

lemma no_markup_marshal:
  "json_marshal v = Some s \<Longrightarrow> no_markup s"
  "json_marshals vs = Some ss \<Longrightarrow> \<forall>s \<in> set ss. no_markup s"
  "json_members m = Some ss \<Longrightarrow> \<forall>s \<in> set ss. no_markup s"
proof (induction v and vs and m arbitrary: s and ss and ss rule: json_marshal_json_marshals_json_members.induct)
  case (8 xs)
  then show ?case by (auto simp: no_markup_string elim!: no_markup_list)
next
  case (9 xs)
  then show ?case by (auto elim!: no_markup_list)
next
  case (10 m)
  then show ?case by (auto elim!: no_markup_list)
qed (auto simp: no_markup_string no_markup_digits show_int_def no_markup_float split: option.splits)

end
