(* ===== verification/PlaygroundFacts.thy ===== *)
theory PlaygroundFacts
  imports Playground JsonSafe CliFacts
begin

text \<open>
  What the browser's entry points promise: their answers are JSON without markup whatever the manifests,
  the events and the actions do, and the comparison a visitor sees is the one \<open>cee diff\<close> prints.
\<close>

section \<open>Inert answers\<close>

lemma encode_inert: "no_markup (encode v)"
  by (cases "json_marshal v") (simp_all add: encode_def no_markup_marshal)

lemma fail_inert: "no_markup (fail m)"
  by (simp add: fail_def encode_inert)

lemma wrap_inert: "(\<And>s rt1. f args rt = (Returns s, rt1) \<Longrightarrow> no_markup s) \<Longrightarrow> no_markup (fst (wrap f args rt))"
  by (auto simp: wrap_def encode_inert split: prod.split returned.split)

text \<open>
  Whatever a visitor types and whatever a run does, an answer of the playground contains none of the
  characters \<open><\<close>, \<open>>\<close> and \<open>&\<close>: a panic, a refused manifest and a failing run are answers like any other.
\<close>

theorem page_answers_are_inert:
  "no_markup (fst (ceeValidate dec args rt)) \<and> no_markup (fst (ceeRunSuite hs dec dec_suite args rt)) \<and>
   no_markup (fst (ceeDiff hs2 dec dec_suite args rt))"
proof (intro conjI)
  show "no_markup (fst (ceeValidate dec args rt))" unfolding ceeValidate_def
    by (rule wrap_inert) (auto simp: play_validate_def Let_def fail_inert encode_inert split: list.splits res.splits)
  show "no_markup (fst (ceeRunSuite hs dec dec_suite args rt))" unfolding ceeRunSuite_def
    by (rule wrap_inert)
      (auto simp: runSuite_def fail_inert encode_inert split: list.splits res.splits sum.splits prod.splits returned.splits)
  show "no_markup (fst (ceeDiff hs2 dec dec_suite args rt))" unfolding ceeDiff_def
    by (rule wrap_inert)
      (auto simp: play_diff_def fail_inert encode_inert split: list.splits res.splits sum.splits prod.splits)
qed

section \<open>The page and the command\<close>

definition not_a_flag :: "string \<Rightarrow> bool" where
  "not_a_flag a \<longleftrightarrow> a \<noteq> ''--markdown'' \<and> a \<noteq> ''--fail-on-change''"

lemma diff_flags_markdown:
  "not_a_flag b \<Longrightarrow> not_a_flag a \<Longrightarrow> not_a_flag e \<Longrightarrow> diff_flags [b, a, e, ''--markdown''] = (True, False, [b, a, e])"
  by (auto simp: diff_flags_def not_a_flag_def)

text \<open>
  C32. The playground and the command line compare alike. On the texts of the three files, the same decoders
  and the same schedules, the page answers with the report whose Markdown \<open>cee diff --markdown\<close> prints; where
  the command complains and exits, the page answers with the same complaint; and where the command crashes
  with a panic, the page answers with its text. Both leave the world the runs act on in the same state.
\<close>

theorem page_and_command_agree:
  assumes files: "cd_ReadFile b (pr_disk p) = Inr bt" "cd_ReadFile a (pr_disk p) = Inr at'" "cd_ReadFile e (pr_disk p) = Inr et"
    and names: "not_a_flag b" "not_a_flag a" "not_a_flag e"
    and page: "ceeDiff (o_diff_hosts env) (dec_manifest (o_decoders env)) (o_suite env) [bt, at', et] (fresh_rt p) = (answer, rt)"
    and command: "runDiff env [b, a, e, ''--markdown''] p = (end, p1)"
  shows "rt_world rt = pr_world p1 \<and>
    (case end of
       Exit status \<Rightarrow>
         (status = 0 \<and> (\<exists>r. answer = encode (play_report r) \<and> pr_out p1 = pr_out p @ policy_Markdown r)) \<or>
         (status = 2 \<and> (\<exists>err. answer = fail err \<and> pr_err p1 = pr_err p @ ''cee diff: '' @ err @ newline))
     | Crash panic \<Rightarrow> answer = fail panic
     | Serving _ _ \<Rightarrow> False)"
proof (cases "ParseSuite (o_suite env et)")
  case (Inl err)
  then show ?thesis
    using page command
    by (auto simp: runDiff_def diff_flags_markdown [OF names] files cli_suite_def give_up_def complain_def ceeDiff_def
        wrap_def play_diff_def fresh_rt_def)
next
  case (Inr s)
  obtain r rt1 where c: "policy_Compare (o_diff_hosts env) (dec_manifest (o_decoders env) bt)
      (dec_manifest (o_decoders env) at') s Default (fresh_rt p) = (r, rt1)" by force
  show ?thesis
    using page command Inr c
    by (cases r) (auto simp: runDiff_def diff_flags_markdown [OF names] files cli_suite_def give_up_def complain_def
        say_def ceeDiff_def wrap_def play_diff_def fail_def)
qed

definition diff_outside :: "journal outside" where
  "diff_outside = sample_outside
     \<lparr>o_decoders := sample_decoders\<lparr>dec_manifest := \<lambda>s. if s = ''A'' then grade_manifest ''a'' ''x'' else grade_manifest ''b'' ''x''\<rparr>,
      o_suite := \<lambda>_. Inr (one_event ''grade''), o_diff_hosts := \<lambda>_. (sample_host, reversed_host)\<rparr>"

definition diff_process :: "journal process" where
  "diff_process = sample_process
     \<lparr>pr_disk := sample_disk\<lparr>cd_files := [''a.json'' \<mapsto> ''A'', ''b.json'' \<mapsto> ''B'', ''e.json'' \<mapsto> ''E'']\<rparr>\<rparr>"

lemma diff_reads:
  "cd_ReadFile ''a.json'' (pr_disk diff_process) = Inr ''A''" "cd_ReadFile ''b.json'' (pr_disk diff_process) = Inr ''B''"
  "cd_ReadFile ''e.json'' (pr_disk diff_process) = Inr ''E''"
  by (simp_all add: cd_ReadFile_def diff_process_def sample_disk_def sample_process_def)

lemma diff_succeeds: "fst (runDiff diff_outside [''a.json'', ''b.json'', ''e.json'', ''--markdown''] diff_process) = Exit 0"
proof -
  have rt: "fresh_rt diff_process = sample_rt" by (simp add: fresh_rt_def diff_process_def sample_process_def sample_rt_def NewMemoryStore_def)
  obtain r rt1 where c: "compared (grade_manifest ''a'' ''x'') (grade_manifest ''b'' ''x'') ''grade'' = (Ok r, rt1)"
    using compared_grades by (cases "compared (grade_manifest ''a'' ''x'') (grade_manifest ''b'' ''x'') ''grade''")
      (auto split: res.splits)
  have s: "cli_suite diff_outside ''E'' = Inr (one_event ''grade'')"
    by (simp add: cli_suite_def diff_outside_def ParseSuite_def one_event_def)
  have d: "dec_manifest (o_decoders diff_outside) ''A'' = grade_manifest ''a'' ''x''"
    "dec_manifest (o_decoders diff_outside) ''B'' = grade_manifest ''b'' ''x''"
    "o_diff_hosts diff_outside = (\<lambda>_. (sample_host, reversed_host))" by (simp_all add: diff_outside_def)
  show ?thesis
    using c by (simp add: runDiff_def diff_flags_markdown not_a_flag_def diff_reads s d rt compared_def)
qed

theorem page_and_command_agree_witness:
  "\<exists>r. fst (ceeDiff (o_diff_hosts diff_outside) (dec_manifest (o_decoders diff_outside)) (o_suite diff_outside)
        [''A'', ''B'', ''E''] (fresh_rt diff_process)) = encode (play_report r) \<and>
     pr_out (snd (runDiff diff_outside [''a.json'', ''b.json'', ''e.json'', ''--markdown''] diff_process)) = policy_Markdown r"
proof -
  let ?page = "ceeDiff (o_diff_hosts diff_outside) (dec_manifest (o_decoders diff_outside)) (o_suite diff_outside)
        [''A'', ''B'', ''E''] (fresh_rt diff_process)"
  obtain p1 where c: "runDiff diff_outside [''a.json'', ''b.json'', ''e.json'', ''--markdown''] diff_process = (Exit 0, p1)"
    using diff_succeeds by (metis prod.collapse)
  have out: "pr_out diff_process = []" by (simp add: diff_process_def sample_process_def)
  have n: "not_a_flag ''a.json''" "not_a_flag ''b.json''" "not_a_flag ''e.json''" by (simp_all add: not_a_flag_def)
  from page_and_command_agree [OF diff_reads n, of diff_outside "fst ?page" "snd ?page", OF _ c] out show ?thesis
    by (auto simp: c)
qed

section \<open>What a row leaves out\<close>

text \<open>
  A row shows only the output fields the event did not carry: a workflow that rewrites a field of its input
  shows no decision, although \<open>cee diff\<close> reports a change of that field as a changed decision.
\<close>

lemma rows_hide_rewritten_fields:
  assumes "set (gkeys output) \<subseteq> set (gkeys input)"
  shows "play_decision input output = []"
  using assms by (force simp: play_decision_def filter_empty_conv gkeys_def map_of_eq_None_iff)

end
