(* ===== verification/Markdown.thy ===== *)
theory Markdown
  imports HttpClient Net
begin

text \<open>
  The Markdown of the project's web site (\<open>.github/site/markdown.go\<close>): blocks line by line, then code spans,
  links and emphasis inside a text. Each regular expression is the scanner it stands for: its groups are
  maximal runs of a character class followed by a character outside the class, so that there is one way to
  match at a position, and \<open>ReplaceAllString\<close> replaces the leftmost match and goes on behind it.
\<close>

section \<open>Strings\<close>

definition md_nl :: string where "md_nl = [CHR 0x0A]"

fun split_on :: "char \<Rightarrow> string \<Rightarrow> string list" where
  "split_on d [] = [[]]"
| "split_on d (c # s) =
     (if c = d then [] # split_on d s else case split_on d s of [] \<Rightarrow> [[c]] | p # ps \<Rightarrow> (c # p) # ps)"

text \<open>\<open>strings.ReplaceAll\<close> of carriage return and line feed by a line feed.\<close>

fun unix_lines :: "string \<Rightarrow> string" where
  "unix_lines [] = []"
| "unix_lines (c # s) =
     (if c = CHR 0x0D \<and> s \<noteq> [] \<and> hd s = CHR 0x0A then unix_lines s else c # unix_lines s)"

definition escape_char :: "char \<Rightarrow> string" where
  "escape_char c =
     (if c = CHR ''&'' then ''&amp;'' else if c = CHR 0x27 then ''&#39;'' else if c = CHR ''<'' then ''&lt;''
      else if c = CHR ''>'' then ''&gt;'' else if c = CHR 0x22 then ''&#34;'' else [c])"

definition EscapeString :: "string \<Rightarrow> string" where
  "EscapeString s = concat (map escape_char s)"

section \<open>The regular expressions\<close>

text \<open>The class \<open>\s\<close>.\<close>

definition re_space :: "char \<Rightarrow> bool" where
  "re_space c \<longleftrightarrow> c \<in> {CHR 0x09, CHR 0x0A, CHR 0x0C, CHR 0x0D, CHR '' ''}"

text \<open>A link at the start of the text: its label, its target and what follows it.\<close>

definition reLink :: "string \<Rightarrow> (string \<times> string \<times> string) option" where
  "reLink s =
     (if s = [] \<or> hd s \<noteq> CHR ''['' then None
      else
        (let label = takeWhile (\<lambda>c. c \<noteq> CHR '']'') (tl s); r = dropWhile (\<lambda>c. c \<noteq> CHR '']'') (tl s) in
         if label = [] \<or> \<not> has_prefix r '']('' then None
         else
           (let target = takeWhile (\<lambda>c. c \<noteq> CHR '')'' \<and> \<not> re_space c) (drop 2 r);
                q = dropWhile (\<lambda>c. c \<noteq> CHR '')'' \<and> \<not> re_space c) (drop 2 r) in
            if target = [] \<or> \<not> has_prefix q '')'' then None else Some (label, target, drop 1 q))))"

definition reStrong :: "string \<Rightarrow> (string \<times> string) option" where
  "reStrong s =
     (if \<not> has_prefix s ''**'' then None
      else
        (let run = takeWhile (\<lambda>c. c \<noteq> CHR ''*'') (drop 2 s); r = dropWhile (\<lambda>c. c \<noteq> CHR ''*'') (drop 2 s) in
         if run = [] \<or> \<not> has_prefix r ''**'' then None else Some (run, drop 2 r)))"

text \<open>The expression's part behind the first group, which is the start of the text or one character before.\<close>

definition reEm :: "string \<Rightarrow> (string \<times> string) option" where
  "reEm s =
     (if \<not> has_prefix s ''*'' then None
      else
        (let run = takeWhile (\<lambda>c. c \<noteq> CHR ''*'') (drop 1 s); r = dropWhile (\<lambda>c. c \<noteq> CHR ''*'') (drop 1 s) in
         if run = [] \<or> r = [] then None else Some (run, drop 1 r)))"

definition reHead :: "string \<Rightarrow> (nat \<times> string) option" where
  "reHead s =
     (let hashes = takeWhile (\<lambda>c. c = CHR ''#'') s; r = dropWhile (\<lambda>c. c = CHR ''#'') s in
      if 1 \<le> length hashes \<and> length hashes \<le> 6 \<and> r \<noteq> [] \<and> re_space (hd r) then
        Some (length hashes, dropWhile re_space r)
      else None)"

definition reOrder :: "string \<Rightarrow> string option" where
  "reOrder s =
     (let r = dropWhile is_digit s in
      if takeWhile is_digit s \<noteq> [] \<and> has_prefix r ''.'' \<and> drop 1 r \<noteq> [] \<and> re_space (hd (drop 1 r)) then
        Some (dropWhile re_space (drop 1 r))
      else None)"

lemma length_dropWhile_lt: "s \<noteq> [] \<Longrightarrow> length (dropWhile P s) < Suc (length s)"
  by (simp add: le_imp_less_Suc length_dropWhile_le)

lemma reLink_shorter: "reLink s = Some (l, t, r) \<Longrightarrow> length r < length s"
proof -
  assume a: "reLink s = Some (l, t, r)"
  obtain c cs where s: "s = c # cs" using a by (cases s) (auto simp: reLink_def)
  obtain u where u: "r = drop 1 (dropWhile (\<lambda>c. c \<noteq> CHR '')'' \<and> \<not> re_space c) (drop 2 (dropWhile (\<lambda>c. c \<noteq> CHR '']'') cs)))"
    using a s by (auto simp: reLink_def Let_def split: if_splits)
  have "length r \<le> length cs"
    unfolding u using length_dropWhile_le [of "\<lambda>c. c \<noteq> CHR '')'' \<and> \<not> re_space c" "drop 2 (dropWhile (\<lambda>c. c \<noteq> CHR '']'') cs)"]
      length_dropWhile_le [of "\<lambda>c. c \<noteq> CHR '']''" cs] by simp
  with s show ?thesis by simp
qed

lemma reStrong_shorter: "reStrong s = Some (u, r) \<Longrightarrow> length r < length s"
  using length_dropWhile_le [of "\<lambda>c. c \<noteq> CHR ''*''" "drop 2 s"]
  by (cases s) (auto simp: reStrong_def Let_def has_prefix_def split: if_splits)

lemma reEm_shorter: "reEm s = Some (u, r) \<Longrightarrow> length r < length s"
  using length_dropWhile_le [of "\<lambda>c. c \<noteq> CHR ''*''" "drop 1 s"]
  by (cases s) (auto simp: reEm_def Let_def has_prefix_def split: if_splits)

section \<open>Inside a text\<close>

function replace_links :: "string \<Rightarrow> string" where
  "replace_links s =
     (if s = [] then []
      else case reLink s of
        Some (label, target, r) \<Rightarrow> ''<a href=\"'' @ target @ ''\">'' @ label @ ''</a>'' @ replace_links r
      | None \<Rightarrow> hd s # replace_links (tl s))"
  by pat_completeness auto
termination
  by (relation "measure length") (auto simp: reLink_shorter)

function replace_strong :: "string \<Rightarrow> string" where
  "replace_strong s =
     (if s = [] then []
      else case reStrong s of
        Some (run, r) \<Rightarrow> ''<strong>'' @ run @ ''</strong>'' @ replace_strong r
      | None \<Rightarrow> hd s # replace_strong (tl s))"
  by pat_completeness auto
termination
  by (relation "measure length") (auto simp: reStrong_shorter)

text \<open>\<open>free\<close>: the first group can match right before this position.\<close>

function replace_em :: "bool \<Rightarrow> string \<Rightarrow> string" where
  "replace_em free s =
     (if s = [] then []
      else case (if free then reEm s else None) of
        Some (run, r) \<Rightarrow> ''<em>'' @ run @ ''</em>'' @ replace_em False r
      | None \<Rightarrow> hd s # replace_em (hd s \<noteq> CHR ''*'') (tl s))"
  by pat_completeness auto
termination
  by (relation "measure (\<lambda>(_, s). length s)") (auto simp: reEm_shorter split: if_splits)

declare replace_links.simps [simp del] replace_strong.simps [simp del] replace_em.simps [simp del]

definition emphasise :: "string \<Rightarrow> string" where
  "emphasise escaped = replace_em True (replace_strong (replace_links escaped))"

function inline :: "string \<Rightarrow> string" where
  "inline s =
     (case first_index (CHR 0x60) s of
        None \<Rightarrow> emphasise (EscapeString s)
      | Some start \<Rightarrow>
          (case first_index (CHR 0x60) (drop (start + 1) s) of
             None \<Rightarrow> emphasise (EscapeString s)
           | Some n \<Rightarrow>
               emphasise (EscapeString (take start s)) @ ''<code>'' @ EscapeString (take n (drop (start + 1) s)) @ ''</code>'' @
               inline (drop (start + n + 2) s)))"
  by pat_completeness auto
termination
  by (relation "measure length") (auto simp: first_index_def intro!: diff_less dest: length_pos_if_in_set split: if_splits)

declare inline.simps [simp del]

section \<open>Tables\<close>

definition splitRow :: "string \<Rightarrow> string list" where
  "splitRow row = map TrimSpace (split_on (CHR ''|'') (trim_suffix (trim_prefix row ''|'') ''|''))"

definition divider_char :: "char \<Rightarrow> bool" where
  "divider_char c \<longleftrightarrow> c \<in> {CHR '':'', CHR ''-'', CHR '' ''}"

definition isDivider :: "string list \<Rightarrow> bool" where
  "isDivider cells \<longleftrightarrow>
     cells \<noteq> [] \<and> (\<forall>c \<in> set cells. c \<noteq> [] \<and> trim_right_by divider_char (trim_left_by divider_char c) = [])"

definition table_head :: "string list \<Rightarrow> string" where
  "table_head cells =
     ''<thead><tr>'' @ concat (map (\<lambda>c. ''<th>'' @ inline c @ ''</th>'') cells) @ ''</tr></thead>'' @ md_nl"

definition table_row :: "string list \<Rightarrow> string" where
  "table_row cells = ''<tr>'' @ concat (map (\<lambda>c. ''<td>'' @ inline c @ ''</td>'') cells) @ ''</tr>'' @ md_nl"

definition writeTable :: "string list list \<Rightarrow> string" where
  "writeTable rows =
     (if rows = [] then []
      else
        (let headed = (1 < length rows \<and> isDivider (rows ! 1)); body = (if headed then drop 2 rows else rows) in
         ''<div class=\"scroll\"><table>'' @ md_nl @
         (if headed then table_head (rows ! 0) else []) @
         (if body \<noteq> [] then ''<tbody>'' @ md_nl @ concat (map table_row body) @ ''</tbody>'' @ md_nl else []) @
         ''</table></div>'' @ md_nl))"

section \<open>Blocks\<close>

record md =
  md_out :: string
  md_para :: "string list"
  md_list :: "string list"
  md_ordered :: bool
  md_quote :: "string list"

definition emit :: "string \<Rightarrow> md \<Rightarrow> md" where
  "emit s st = st\<lparr>md_out := md_out st @ s\<rparr>"

definition flushPara :: "md \<Rightarrow> md" where
  "flushPara st =
     (if md_para st = [] then st
      else (emit (''<p>'' @ inline (str_join (md_para st) '' '') @ ''</p>'' @ md_nl) st)\<lparr>md_para := []\<rparr>)"

definition flushList :: "md \<Rightarrow> md" where
  "flushList st =
     (if md_list st = [] then st
      else
        (let tag = (if md_ordered st then ''ol'' else ''ul'') in
         (emit (''<'' @ tag @ ''>'' @ md_nl @ concat (map (\<lambda>i. ''<li>'' @ inline i @ ''</li>'' @ md_nl) (md_list st)) @
            ''</'' @ tag @ ''>'' @ md_nl) st)\<lparr>md_list := []\<rparr>))"

definition flushQuote :: "md \<Rightarrow> md" where
  "flushQuote st =
     (if md_quote st = [] then st
      else (emit (''<blockquote><p>'' @ inline (str_join (md_quote st) '' '') @ ''</p></blockquote>'' @ md_nl) st)
             \<lparr>md_quote := []\<rparr>)"

definition flushAll :: "md \<Rightarrow> md" where
  "flushAll st = flushQuote (flushList (flushPara st))"

definition fence :: string where "fence = [CHR 0x60, CHR 0x60, CHR 0x60]"

definition is_fence :: "string \<Rightarrow> bool" where
  "is_fence line \<longleftrightarrow> has_prefix (TrimSpace line) fence"

definition is_row :: "string \<Rightarrow> bool" where
  "is_row line \<longleftrightarrow> has_prefix (TrimSpace line) ''|'' \<and> has_suffix (TrimSpace line) ''|''"

definition code_block :: "string \<Rightarrow> string list \<Rightarrow> string" where
  "code_block lang code =
     ''<pre><code'' @ (if lang = [] then [] else '' class=\"lang-'' @ EscapeString lang @ ''\"'') @ ''>'' @
     EscapeString (str_join code md_nl) @ ''</code></pre>'' @ md_nl"

text \<open>An item of a list, which a list of the other kind ends.\<close>

definition add_item :: "bool \<Rightarrow> string \<Rightarrow> md \<Rightarrow> md" where
  "add_item ordered item st =
     (let st1 = flushQuote (flushPara st);
          st2 = (if md_list st1 \<noteq> [] \<and> md_ordered st1 \<noteq> ordered then flushList st1 else st1)
      in st2\<lparr>md_ordered := ordered, md_list := md_list st2 @ [item]\<rparr>)"

text \<open>A line that is neither a fence nor the row of a table.\<close>

definition plain_line :: "string \<Rightarrow> md \<Rightarrow> md" where
  "plain_line line st =
     (let trimmed = TrimSpace line in
      if trimmed = [] then flushAll st
      else if trimmed = ''---'' \<or> trimmed = ''***'' then emit (''<hr>'' @ md_nl) (flushAll st)
      else case reHead trimmed of
        Some (level, heading) \<Rightarrow>
          emit (''<h'' @ digits_of level @ ''>'' @ inline heading @ ''</h'' @ digits_of level @ ''>'' @ md_nl) (flushAll st)
      | None \<Rightarrow>
          if has_prefix trimmed ''> '' \<or> trimmed = ''>'' then
            (let st1 = flushList (flushPara st)
             in st1\<lparr>md_quote := md_quote st1 @ [trim_prefix (trim_prefix trimmed ''>'') '' '']\<rparr>)
          else if has_prefix trimmed ''- '' \<or> has_prefix trimmed ''* '' then add_item False (drop 2 trimmed) st
          else case reOrder trimmed of
            Some item \<Rightarrow> add_item True item st
          | None \<Rightarrow>
              if md_list st \<noteq> [] \<and> has_prefix line ''  '' then
                st\<lparr>md_list := butlast (md_list st) @ [last (md_list st) @ '' '' @ trimmed]\<rparr>
              else
                (let st1 = flushQuote (flushList st) in st1\<lparr>md_para := md_para st1 @ [trimmed]\<rparr>))"

function render_lines :: "string list \<Rightarrow> md \<Rightarrow> md" where
  "render_lines lines st =
     (case lines of
        [] \<Rightarrow> st
      | line # rest \<Rightarrow>
          if is_fence line then
            render_lines (drop 1 (dropWhile (\<lambda>l. \<not> is_fence l) rest))
              (emit (code_block (TrimSpace (trim_prefix (TrimSpace line) fence)) (takeWhile (\<lambda>l. \<not> is_fence l) rest))
                 (flushAll st))
          else if is_row line then
            render_lines (dropWhile is_row rest) (emit (writeTable (map (\<lambda>l. splitRow (TrimSpace l)) (takeWhile is_row lines))) (flushAll st))
          else render_lines rest (plain_line line st))"
  by pat_completeness auto
termination
  by (relation "measure (\<lambda>(lines, _). length lines)")
    (auto simp: length_dropWhile_le le_imp_less_Suc intro!: order.strict_trans1 [OF diff_le_self])

declare render_lines.simps [simp del]

definition renderMarkdown :: "string \<Rightarrow> string" where
  "renderMarkdown src =
     md_out (flushAll (render_lines (split_on (CHR 0x0A) (unix_lines src))
       \<lparr>md_out = [], md_para = [], md_list = [], md_ordered = False, md_quote = []\<rparr>))"

end
