(* ===== verification/SiteText.thy ===== *)
theory SiteText
  imports Markdown
begin

text \<open>
  What the site generator uses of \<open>strings\<close> and \<open>strconv\<close>: fields, the first occurrence of a text, cutting at a
  character, and \<open>Atoi\<close>.
\<close>

section \<open>Fields\<close>

definition at_space :: "string \<Rightarrow> bool" where
  "at_space s \<longleftrightarrow> (\<exists>c \<in> set space_codes. has_prefix s c)"

text \<open>The text up to the first white space, and the rest from there.\<close>

fun span_field :: "string \<Rightarrow> string \<times> string" where
  "span_field [] = ([], [])"
| "span_field (c # s) =
     (if at_space (c # s) then ([], c # s) else case span_field s of (w, r) \<Rightarrow> (c # w, r))"

lemma span_field_split: "span_field s = (w, r) \<Longrightarrow> s = w @ r"
  by (induction s arbitrary: w r) (auto split: if_splits prod.splits)

lemma span_field_rest: "span_field s = (w, r) \<Longrightarrow> r = [] \<or> at_space r"
  by (induction s arbitrary: w r) (auto split: if_splits prod.splits)

lemma bare_at_space: "bare space_codes s \<longleftrightarrow> \<not> at_space s"
  by (auto simp: bare_def at_space_def space_codes_def)

lemma trim_left_not_space: "\<not> at_space (trim_left s)"
  using strip_codes_bare [of space_codes s] by (simp add: trim_left_def bare_at_space)

lemma trim_left_length: "length (trim_left s) \<le> length s"
  using strip_codes_suffix [of s space_codes] unfolding trim_left_def by (metis length_append le_add2)

function Fields :: "string \<Rightarrow> string list" where
  "Fields s =
     (let t = trim_left s in if t = [] then [] else fst (span_field t) # Fields (snd (span_field t)))"
  by pat_completeness auto
termination
proof (relation "measure length")
  fix s t :: string
  assume t: "t = trim_left s" "t \<noteq> []"
  obtain w r where wr: "span_field t = (w, r)" by force
  have "\<not> at_space t" using t(1) trim_left_not_space by simp
  then have "w \<noteq> []" using t(2) wr by (cases t) (auto split: prod.splits)
  then have "length r < length t" using span_field_split [OF wr] by simp
  then show "(snd (span_field t), s) \<in> measure length" using trim_left_length [of s] t wr by simp
qed simp

declare Fields.simps [simp del]

definition collapse :: "string \<Rightarrow> string" where
  "collapse s = str_join (Fields s) '' ''"

section \<open>Searching\<close>

fun str_index :: "string \<Rightarrow> string \<Rightarrow> nat option" where
  "str_index [] p = (if p = [] then Some 0 else None)"
| "str_index (c # s) p = (if has_prefix (c # s) p then Some 0 else map_option Suc (str_index s p))"

text \<open>\<open>strings.Cut\<close> at a single character; \<open>strings.Trim\<close> of a single character.\<close>

definition str_cut :: "char \<Rightarrow> string \<Rightarrow> (string \<times> string) option" where
  "str_cut d s = (case first_index d s of None \<Rightarrow> None | Some i \<Rightarrow> Some (take i s, drop (i + 1) s))"

definition trim_char :: "char \<Rightarrow> string \<Rightarrow> string" where
  "trim_char d s = trim_right_by (\<lambda>c. c = d) (trim_left_by (\<lambda>c. c = d) s)"

section \<open>Numbers\<close>

text \<open>
  \<open>strconv.Atoi\<close>: the number, zero on a syntax error and the nearest 64-bit integer on overflow, and whether
  there was no error.
\<close>

definition Atoi :: "string \<Rightarrow> int \<times> bool" where
  "Atoi s =
     (let signed = (s \<noteq> [] \<and> (hd s = CHR ''+'' \<or> hd s = CHR ''-'')); ds = (if signed then tl s else s) in
      if ds = [] \<or> \<not> list_all is_digit ds then (0, False)
      else
        (let i = (if signed \<and> hd s = CHR ''-'' then - int (decimal ds) else int (decimal ds)) in
         if i \<ge> 2 ^ 63 then (2 ^ 63 - 1, False) else if i < - (2 ^ 63) then (- (2 ^ 63), False) else (i, True)))"

lemma Atoi_digits: "n < 2 ^ 63 \<Longrightarrow> Atoi (digits_of n) = (int n, True)"
proof -
  assume n: "n < 2 ^ 63"
  note d = decimal_digits [of n]
  then have h: "is_digit (hd (digits_of n))" by (cases "digits_of n") auto
  then have "hd (digits_of n) \<noteq> CHR ''+''" "hd (digits_of n) \<noteq> CHR ''-''" by (auto simp: is_digit_def)
  moreover have "int n < 2 ^ 63" using n by (metis of_nat_less_iff of_nat_numeral of_nat_power)
  ultimately show ?thesis using d by (simp add: Atoi_def Let_def)
qed

section \<open>Fields of padded columns\<close>

text \<open>A word: not empty, and no white space starts in it.\<close>

fun solid :: "string \<Rightarrow> bool" where
  "solid [] = False"
| "solid (c # s) \<longleftrightarrow> \<not> at_space (c # s) \<and> (s = [] \<or> solid s)"

text \<open>The bytes of a code after its first are not ASCII.\<close>

lemma code_tails: "list_all (\<lambda>c. c \<noteq> [] \<and> CHR '' '' \<notin> set (tl c)) space_codes"
  by (simp add: space_codes_def)

lemma at_space_append: "s \<noteq> [] \<Longrightarrow> at_space (s @ CHR '' '' # r) \<longleftrightarrow> at_space s"
proof
  assume s: "s \<noteq> []" and a: "at_space (s @ CHR '' '' # r)"
  then obtain c q where c: "c \<in> set space_codes" "s @ CHR '' '' # r = c @ q" by (auto simp: at_space_def has_prefix_iff)
  with code_tails have tl: "c \<noteq> []" "CHR '' '' \<notin> set (tl c)" by (auto simp: list_all_iff)
  from c(2) obtain us where us: "s = c @ us \<or> c = s @ us \<and> us @ q = CHR '' '' # r"
    unfolding append_eq_append_conv2 by metis
  show "at_space s"
  proof (cases "us = [] \<or> s = c @ us")
    case True
    with us have "\<exists>r. s = c @ r" by auto
    with c(1) show ?thesis unfolding at_space_def has_prefix_iff by blast
  next
    case False
    with us have u: "c = s @ us" "CHR '' '' \<in> set us" by (cases us; auto)+
    with s have "CHR '' '' \<in> set (tl c)" by (cases s) auto
    with tl show ?thesis by simp
  qed
next
  assume "at_space s"
  then show "at_space (s @ CHR '' '' # r)" unfolding at_space_def has_prefix_iff by (metis append.assoc)
qed

lemma at_space_blank: "at_space (CHR '' '' # r)"
  by (simp add: at_space_def space_codes_def has_prefix_def)

lemma trim_left_id: "\<not> at_space s \<Longrightarrow> trim_left s = s"
  by (simp add: trim_left_def strip_codes_id bare_at_space)

lemma trim_left_blank: "trim_left (CHR '' '' # r) = trim_left r"
proof -
  have "find (\<lambda>c. c \<noteq> [] \<and> has_prefix (CHR '' '' # r) c) space_codes = Some '' ''"
    by (simp add: space_codes_def has_prefix_def)
  then show ?thesis unfolding trim_left_def by (subst strip_codes.simps) simp
qed

lemma Fields_blank: "Fields (CHR '' '' # r) = Fields r"
  by (subst (1 2) Fields.simps) (simp add: trim_left_blank)

lemma Fields_blanks: "Fields (replicate n (CHR '' '') @ r) = Fields r"
  by (induction n) (simp_all add: Fields_blank)

lemma span_solid: "solid w \<Longrightarrow> span_field (w @ CHR '' '' # r) = (w, CHR '' '' # r)"
proof (induction w)
  case (Cons c w)
  have "\<not> at_space (c # w @ CHR '' '' # r)" using Cons.prems at_space_append [of "c # w" r] by simp
  with Cons show ?case by (cases "w = []") (auto simp: at_space_blank)
qed simp

lemma span_solid_end: "solid w \<Longrightarrow> span_field w = (w, [])"
  by (induction w) auto

lemma solid_start: "solid w \<Longrightarrow> w \<noteq> [] \<and> \<not> at_space w"
  by (cases w) auto

lemma Fields_word: "solid w \<Longrightarrow> Fields (w @ CHR '' '' # r) = w # Fields r"
proof -
  assume w: "solid w"
  then have "\<not> at_space (w @ CHR '' '' # r)" using at_space_append solid_start by blast
  then show ?thesis
    by (subst Fields.simps) (simp add: trim_left_id span_solid [OF w] Let_def Fields_blank)
qed

lemma Fields_last: "solid w \<Longrightarrow> Fields w = [w]"
proof -
  assume w: "solid w"
  have "Fields [] = []" by (subst Fields.simps) (simp add: trim_left_def strip_codes.simps space_codes_def has_prefix_def Let_def)
  with solid_start [OF w] show ?thesis
    by (subst Fields.simps) (simp add: trim_left_id span_solid_end [OF w] Let_def)
qed

text \<open>ASCII words.\<close>

definition visible :: "char \<Rightarrow> bool" where
  "visible c \<longleftrightarrow> 33 \<le> (of_char c :: nat) \<and> (of_char c :: nat) < 127"

lemma code_starts: "list_all (\<lambda>c. c \<noteq> [] \<and> \<not> visible (hd c)) space_codes"
  by (simp add: space_codes_def visible_def)

lemma visible_not_space: "visible c \<Longrightarrow> \<not> at_space (c # s)"
  using code_starts by (auto simp: at_space_def has_prefix_iff list_all_iff Cons_eq_append_conv)

lemma visible_solid: "list_all visible w \<Longrightarrow> w \<noteq> [] \<Longrightarrow> solid w"
  by (induction w) (auto simp: visible_not_space)

lemma digits_solid: "solid (digits_of n)"
proof -
  have "is_digit c \<Longrightarrow> visible c" for c by (simp add: is_digit_def visible_def)
  then show ?thesis using decimal_digits [of n] by (intro visible_solid) (auto simp: list_all_iff)
qed

end
