(* ===== verification/Blog.thy ===== *)
theory Blog
  imports SiteText Bench Paths
begin

text \<open>
  The blog of the web site (\<open>.github/site/blog.go\<close>): posts with their front matter, read from a directory and
  listed newest first. What a file contains and what a pattern matches are arguments. \<open>sort.Slice\<close> leaves the
  order of two posts with one date and one slug open; the model keeps them as they came.
\<close>

section \<open>Dates\<close>

record date =
  date_Year :: nat
  date_Month :: nat
  date_Day :: nat

definition zero_date :: date where
  "zero_date = \<lparr>date_Year = 1, date_Month = 1, date_Day = 1\<rparr>"

definition leap :: "nat \<Rightarrow> bool" where
  "leap y \<longleftrightarrow> y mod 4 = 0 \<and> (y mod 100 \<noteq> 0 \<or> y mod 400 = 0)"

definition days_in :: "nat \<Rightarrow> nat \<Rightarrow> nat" where
  "days_in m y = (if m = 2 then (if leap y then 29 else 28) else if m \<in> {4, 6, 9, 11} then 30 else 31)"

definition calendar_date :: "date \<Rightarrow> bool" where
  "calendar_date d \<longleftrightarrow> date_Year d \<le> 9999 \<and> 1 \<le> date_Month d \<and> date_Month d \<le> 12 \<and> 1 \<le> date_Day d \<and>
     date_Day d \<le> days_in (date_Month d) (date_Year d)"

text \<open>\<open>time.Parse\<close> with the layout \<open>2006-01-02\<close>: four digits, two and two, with dashes between, and nothing behind.\<close>

definition parse_date :: "string \<Rightarrow> date option" where
  "parse_date s =
     (let d = \<lparr>date_Year = decimal (take 4 s), date_Month = decimal (take 2 (drop 5 s)), date_Day = decimal (take 2 (drop 8 s))\<rparr> in
      if length s = 10 \<and> list_all is_digit (take 4 s) \<and> s ! 4 = CHR ''-'' \<and> list_all is_digit (take 2 (drop 5 s)) \<and>
         s ! 7 = CHR ''-'' \<and> list_all is_digit (drop 8 s) \<and> calendar_date d
      then Some d else None)"

definition zero_padded :: "nat \<Rightarrow> nat \<Rightarrow> string" where
  "zero_padded w n = replicate (w - length (digits_of n)) (CHR ''0'') @ digits_of n"

definition date_After :: "date \<Rightarrow> date \<Rightarrow> bool" where
  "date_After a b \<longleftrightarrow>
     date_Year b < date_Year a \<or>
     date_Year b = date_Year a \<and>
       (date_Month b < date_Month a \<or> date_Month b = date_Month a \<and> date_Day b < date_Day a)"

section \<open>Posts\<close>

record post =
  post_Slug :: string
  post_Title :: string
  post_Date :: date
  post_Summary :: string
  post_Tags :: "string list"
  post_Body :: string
  post_Words :: nat

definition month_names :: "string list" where
  "month_names =
     [''January'', ''February'', ''March'', ''April'', ''May'', ''June'', ''July'', ''August'', ''September'', ''October'',
      ''November'', ''December'']"

definition Stamp :: "post \<Rightarrow> string" where
  "Stamp p =
     (let d = post_Date p
      in digits_of (date_Day d) @ '' '' @ month_names ! (date_Month d - 1) @ '' '' @ zero_padded 4 (date_Year d))"

definition ISO :: "post \<Rightarrow> string" where
  "ISO p =
     (let d = post_Date p
      in zero_padded 4 (date_Year d) @ ''-'' @ zero_padded 2 (date_Month d) @ ''-'' @ zero_padded 2 (date_Day d))"

definition ReadingTime :: "post \<Rightarrow> nat" where
  "ReadingTime p = (let minutes = (post_Words p + 219) div 220 in if minutes < 1 then 1 else minutes)"

section \<open>Front matter\<close>

text \<open>The lines between the dashes; a later line wins over an earlier one with its key.\<close>

fun front_lines :: "string list \<Rightarrow> string gomap \<Rightarrow> string + string gomap" where
  "front_lines [] front = Inr front"
| "front_lines (line # lines) front =
     (if TrimSpace line = [] then front_lines lines front
      else case str_cut (CHR '':'') line of
        None \<Rightarrow> Inl (''front matter line '' @ quoted line @ '' is not key: value'')
      | Some (key, val) \<Rightarrow>
          front_lines lines (gput (TrimSpace key) (trim_char (CHR 0x22) (TrimSpace val)) front))"

definition splitFrontMatter :: "string \<Rightarrow> string + string gomap \<times> string" where
  "splitFrontMatter text =
     (let src = unix_lines text in
      if \<not> has_prefix src (''---'' @ md_nl) then Inl ''missing --- front matter block''
      else case str_index (drop 4 src) (md_nl @ ''---'') of
        None \<Rightarrow> Inl ''front matter block is not closed''
      | Some end \<Rightarrow>
          (case front_lines (split_on (CHR 0x0A) (take end (drop 4 src))) [] of
             Inl err \<Rightarrow> Inl err
           | Inr front \<Rightarrow> Inr (front, dropWhile (\<lambda>c. c = CHR 0x0A) (drop (end + 8) src))))"

text \<open>\<open>filepath.Base\<close>.\<close>

definition path_Base :: "string \<Rightarrow> string" where
  "path_Base p =
     (let q = trim_right_by (\<lambda>c. c = CHR ''/'') p in
      if p = [] then ''.'' else if q = [] then ''/'' else last (split_slash q))"

definition post_tags :: "string \<Rightarrow> string list" where
  "post_tags val = filter (\<lambda>t. t \<noteq> []) (map TrimSpace (split_on (CHR '','') val))"

text \<open>The keys are distinct, so the order in which the map is ranged over does not matter.\<close>

definition post_of :: "string gomap \<Rightarrow> string \<Rightarrow> string \<Rightarrow> post" where
  "post_of front path body =
     (let field = (\<lambda>k default. case map_of front k of Some v \<Rightarrow> v | None \<Rightarrow> default) in
      \<lparr>post_Slug = field ''slug'' (trim_suffix (path_Base path) ''.md''), post_Title = field ''title'' [],
       post_Date = zero_date, post_Summary = field ''summary'' [],
       post_Tags = (case map_of front ''tags'' of Some v \<Rightarrow> post_tags v | None \<Rightarrow> []),
       post_Body = renderMarkdown body, post_Words = length (Fields body)\<rparr>)"

definition dated :: "string gomap \<Rightarrow> post \<Rightarrow> string + post" where
  "dated front p =
     (case map_of front ''date'' of
        None \<Rightarrow> Inr p
      | Some v \<Rightarrow>
          (case parse_date v of
             None \<Rightarrow> Inl (''date '' @ quoted v @ '' is not YYYY-MM-DD'')
           | Some d \<Rightarrow> Inr (p\<lparr>post_Date := d\<rparr>)))"

definition checked_post :: "post \<Rightarrow> string + post" where
  "checked_post p =
     (if post_Title p = [] then Inl ''no title in front matter''
      else if post_Date p = zero_date then Inl ''no date in front matter'' else Inr p)"

definition readPost :: "(string \<Rightarrow> string + string) \<Rightarrow> string \<Rightarrow> string + post" where
  "readPost ReadFile path =
     (case ReadFile path of
        Inl err \<Rightarrow> Inl err
      | Inr data \<Rightarrow>
          (case splitFrontMatter data of
             Inl err \<Rightarrow> Inl err
           | Inr (front, body) \<Rightarrow>
               (case dated front (post_of front path body) of Inl err \<Rightarrow> Inl err | Inr p \<Rightarrow> checked_post p)))"

fun read_posts :: "(string \<Rightarrow> string + string) \<Rightarrow> string list \<Rightarrow> string + post list" where
  "read_posts ReadFile [] = Inr []"
| "read_posts ReadFile (name # names) =
     (case readPost ReadFile name of
        Inl err \<Rightarrow> Inl (name @ '': '' @ err)
      | Inr p \<Rightarrow> (case read_posts ReadFile names of Inl err \<Rightarrow> Inl err | Inr ps \<Rightarrow> Inr (p # ps)))"

definition posts_before :: "post \<Rightarrow> post \<Rightarrow> bool" where
  "posts_before a b =
     (if post_Date a = post_Date b then post_Slug a < post_Slug b else date_After (post_Date a) (post_Date b))"

definition loadPosts :: "(string \<Rightarrow> string + string list) \<Rightarrow> (string \<Rightarrow> string + string) \<Rightarrow> string \<Rightarrow> string + post list" where
  "loadPosts Glob ReadFile dir =
     (case Glob (path_Join dir ''*.md'') of
        Inl err \<Rightarrow> Inl err
      | Inr names \<Rightarrow>
          (case read_posts ReadFile names of
             Inl err \<Rightarrow> Inl err
           | Inr posts \<Rightarrow> Inr (stable_sort posts_before posts)))"

section \<open>The order of the posts\<close>

lemma date_trichotomy: "date_After a b \<or> a = b \<or> date_After b a"
proof (cases "date_Year a = date_Year b \<and> date_Month a = date_Month b \<and> date_Day a = date_Day b")
  case True
  then show ?thesis by simp
next
  case False
  then show ?thesis unfolding date_After_def by (metis nat_neq_iff)
qed

lemma date_After_asym: "date_After a b \<Longrightarrow> \<not> date_After b a"
  unfolding date_After_def by (elim disjE conjE) simp_all

lemma date_After_trans: "date_After a b \<Longrightarrow> date_After b c \<Longrightarrow> date_After a c"
  unfolding date_After_def by (metis less_trans)

lemma later_trans:
  fixes s t u :: string
  shows "date_After a b \<or> a = b \<and> s \<le> t \<Longrightarrow> date_After b c \<or> b = c \<and> t \<le> u \<Longrightarrow> date_After a c \<or> a = c \<and> s \<le> u"
  using date_After_trans [of a b c] order_trans [of s t u] by blast

lemma date_After_irrefl: "\<not> date_After a a"
  by (simp add: date_After_def)

lemma posts_before_iff:
  "posts_before a b \<longleftrightarrow> date_After (post_Date a) (post_Date b) \<or> post_Date a = post_Date b \<and> post_Slug a < post_Slug b"
  using date_After_irrefl by (simp add: posts_before_def)

lemma not_before:
  "\<not> posts_before b a \<longleftrightarrow> date_After (post_Date a) (post_Date b) \<or> post_Date a = post_Date b \<and> post_Slug a \<le> post_Slug b"
proof (cases "post_Date a = post_Date b")
  case True
  then show ?thesis using date_After_irrefl by (simp add: posts_before_iff linorder_not_less)
next
  case False
  then have "\<not> date_After (post_Date b) (post_Date a) \<longleftrightarrow> date_After (post_Date a) (post_Date b)"
    using date_trichotomy date_After_asym by blast
  with False show ?thesis unfolding posts_before_iff by metis
qed

interpretation blog: weak_order posts_before
proof unfold_locales
  fix x y z
  show "posts_before x y \<Longrightarrow> \<not> posts_before y x"
    unfolding not_before by (unfold posts_before_iff) (meson less_imp_le)
  show "\<not> posts_before y x \<Longrightarrow> \<not> posts_before z y \<Longrightarrow> \<not> posts_before z x"
    unfolding not_before by (rule later_trans)
qed

section \<open>Dates as text\<close>

lemma decimal_zeros: "decimal (replicate k (CHR ''0'') @ s) = decimal s"
proof -
  have z: "digit_value (CHR ''0'') = 0" by (simp add: digit_value_def)
  have "fold (\<lambda>c n. n * 10 + digit_value c) (replicate k (CHR ''0'')) 0 = 0" by (induction k) (simp_all add: z)
  then show ?thesis by (simp add: decimal_def z foldl_conv_fold)
qed

lemma digits_length: "n < 10 ^ k \<Longrightarrow> 0 < k \<Longrightarrow> length (digits_of n) \<le> k"
proof (induction k arbitrary: n)
  case (Suc k)
  show ?case
  proof (cases "n < 10")
    case True
    then show ?thesis by (subst digits_of.simps) simp
  next
    case False
    then have "n div 10 < 10 ^ k" "0 < k" using Suc.prems(1) by (auto simp: less_mult_imp_div_less intro!: gr0I)
    from Suc.IH [OF this] False show ?thesis by (subst digits_of.simps) simp
  qed
qed simp

lemma zero_padded_props:
  assumes "n < 10 ^ w" "0 < w"
  shows "length (zero_padded w n) = w" "list_all is_digit (zero_padded w n)" "decimal (zero_padded w n) = n"
proof -
  have z: "is_digit (CHR ''0'')" by (simp add: is_digit_def)
  show "length (zero_padded w n) = w" using digits_length [OF assms] by (simp add: zero_padded_def)
  show "list_all is_digit (zero_padded w n)" using decimal_digits [of n] z by (auto simp: zero_padded_def list_all_iff)
  show "decimal (zero_padded w n) = n" using decimal_digits [of n] by (simp add: zero_padded_def decimal_zeros)
qed

lemma days_in_le: "days_in m y \<le> 31"
  by (simp add: days_in_def)

end
