(* ===== verification/Board.thy ===== *)
theory Board
  imports SiteText Bench
begin

text \<open>
  The leaderboard of the web site (\<open>.github/site/leaderboard.go\<close>): the text \<open>cee bench\<close> printed is parsed line by
  line and enriched from the catalog's index. The files and what \<open>json.Unmarshal\<close> makes of the index are
  arguments; sums stay below \<open>2 ^ 63\<close>. \<open>strconv.ParseFloat\<close> is modelled on decimal numbers and on the names of
  the infinities and NaN; hexadecimal floats count as errors.
\<close>

section \<open>Parsing floats\<close>

definition take_sign :: "string \<Rightarrow> bool \<times> string" where
  "take_sign s =
     (if s \<noteq> [] \<and> hd s = CHR ''-'' then (True, tl s) else if s \<noteq> [] \<and> hd s = CHR ''+'' then (False, tl s) else (False, s))"

definition lower_char :: "char \<Rightarrow> char" where
  "lower_char c = (let n = of_char c :: nat in if 65 \<le> n \<and> n \<le> 90 then char_of (n + 32) else c)"

definition special_float :: "string \<Rightarrow> float64 option" where
  "special_float s =
     (let (neg, r) = take_sign s; l = map lower_char r in
      if l = ''inf'' \<or> l = ''infinity'' then Some (Inf neg) else if map lower_char s = ''nan'' then Some NaN else None)"

text \<open>The exponent, which stops growing beyond 10000.\<close>

definition exponent :: "string \<Rightarrow> int option" where
  "exponent s =
     (if s = [] then Some 0
      else if hd s = CHR ''e'' \<or> hd s = CHR ''E'' then
        (let (neg, ds) = take_sign (tl s) in
         if ds = [] \<or> \<not> list_all is_digit ds then None
         else
           (let e = foldl (\<lambda>e c. if e < 10000 then e * 10 + int (digit_value c) else e) 0 ds
            in Some (if neg then - e else e)))
      else None)"

definition decimal_float :: "string \<Rightarrow> float64 option" where
  "decimal_float s =
     (let (neg, r) = take_sign s; ip = takeWhile is_digit r; r1 = dropWhile is_digit r;
          dotted = (r1 \<noteq> [] \<and> hd r1 = CHR ''.'');
          fp = (if dotted then takeWhile is_digit (tl r1) else []); r2 = (if dotted then dropWhile is_digit (tl r1) else r1) in
      if ip = [] \<and> fp = [] then None
      else case exponent r2 of
        None \<Rightarrow> None
      | Some e \<Rightarrow>
          (let q = of_nat (decimal (ip @ fp)) * pow10 (e - int (length fp)) in
           case round64 (if neg then - q else q) of Fin x \<Rightarrow> Some (Fin x) | _ \<Rightarrow> None))"

definition ParseFloat :: "string \<Rightarrow> float64 option" where
  "ParseFloat s = (case special_float s of Some x \<Rightarrow> Some x | None \<Rightarrow> decimal_float s)"

section \<open>The board\<close>

record board_entry =
  be_Rank :: int
  be_Plugin :: string
  be_Determinism :: string
  be_Ratio :: float64
  be_Events :: int
  be_Errors :: int
  be_Eliminated :: string
  be_Removed :: int
  be_Baseline :: int
  be_Description :: string
  be_Tier :: string
  be_Version :: string
  be_Domain :: string
  be_Tags :: "string list"

record site_plugin =
  sp_Name :: string
  sp_Description :: string
  sp_Version :: string
  sp_Tier :: string
  sp_Domain :: string
  sp_Tags :: "string list"
  sp_Benchmark :: string

record board =
  bo_Entries :: "board_entry list"
  bo_Unranked :: "board_entry list"
  bo_TotalRemoved :: int
  bo_TotalCalls :: int
  bo_TotalEvents :: int
  bo_TotalErrors :: int
  bo_Raw :: string

definition site_percent :: "string \<Rightarrow> float64" where
  "site_percent s = (case ParseFloat (trim_suffix s ''%'') of None \<Rightarrow> Fin 0 | Some v \<Rightarrow> v)"

definition site_eliminated :: "string \<Rightarrow> int \<times> int" where
  "site_eliminated s =
     (let fs = Fields s in
      if length fs < 3 \<or> fs ! 1 \<noteq> ''of'' then (0, 0) else (fst (Atoi (fs ! 0)), fst (Atoi (fs ! 2))))"

text \<open>The map from names to indices: the last plugin of a name wins.\<close>

definition find_plugin :: "site_plugin list \<Rightarrow> string \<Rightarrow> site_plugin option" where
  "find_plugin plugins name = find (\<lambda>p. sp_Name p = name) (rev plugins)"

definition entry_of :: "site_plugin list \<Rightarrow> string list \<Rightarrow> int \<Rightarrow> board_entry" where
  "entry_of plugins fs rank =
     (let eliminated = str_join (drop 5 fs) '' '';
          plain = \<lparr>be_Rank = rank, be_Plugin = fs ! 1, be_Determinism = fs ! 2, be_Ratio = site_percent (fs ! 2),
            be_Events = fst (Atoi (fs ! 3)), be_Errors = fst (Atoi (fs ! 4)), be_Eliminated = eliminated,
            be_Removed = fst (site_eliminated eliminated), be_Baseline = snd (site_eliminated eliminated),
            be_Description = [], be_Tier = [], be_Version = [], be_Domain = [], be_Tags = []\<rparr>
      in case find_plugin plugins (fs ! 1) of
           None \<Rightarrow> plain
         | Some p \<Rightarrow> plain\<lparr>be_Description := sp_Description p, be_Tier := sp_Tier p, be_Version := sp_Version p,
                       be_Domain := sp_Domain p, be_Tags := sp_Tags p\<rparr>)"

definition read_line :: "site_plugin list \<Rightarrow> string \<Rightarrow> board \<Rightarrow> board" where
  "read_line plugins line b =
     (let fs = Fields line in
      if length fs < 5 then b
      else case Atoi (fs ! 0) of
        (_, False) \<Rightarrow> b
      | (rank, True) \<Rightarrow>
          (let e = entry_of plugins fs rank
           in b\<lparr>bo_Entries := bo_Entries b @ [e], bo_TotalRemoved := bo_TotalRemoved b + be_Removed e,
                bo_TotalCalls := bo_TotalCalls b + be_Baseline e, bo_TotalEvents := bo_TotalEvents b + be_Events e,
                bo_TotalErrors := bo_TotalErrors b + be_Errors e\<rparr>))"

definition unranked_entry :: "site_plugin \<Rightarrow> board_entry" where
  "unranked_entry p =
     \<lparr>be_Rank = 0, be_Plugin = sp_Name p, be_Determinism = [], be_Ratio = Fin 0, be_Events = 0, be_Errors = 0,
      be_Eliminated = [], be_Removed = 0, be_Baseline = 0, be_Description = sp_Description p, be_Tier = sp_Tier p,
      be_Version = sp_Version p, be_Domain = sp_Domain p, be_Tags = sp_Tags p\<rparr>"

definition parse_board :: "site_plugin list \<Rightarrow> string \<Rightarrow> board" where
  "parse_board plugins raw =
     (let b = fold (read_line plugins) (split_on (CHR 0x0A) raw)
         \<lparr>bo_Entries = [], bo_Unranked = [], bo_TotalRemoved = 0, bo_TotalCalls = 0, bo_TotalEvents = 0,
          bo_TotalErrors = 0, bo_Raw = raw\<rparr>
      in b\<lparr>bo_Unranked := map unranked_entry
             (filter (\<lambda>p. sp_Name p \<notin> set (map be_Plugin (bo_Entries b))) plugins)\<rparr>)"

text \<open>A catalog that cannot be read is an empty one; one that cannot be parsed is an error.\<close>

definition loadBoard :: "(string \<Rightarrow> string + string) \<Rightarrow> (string \<Rightarrow> string + site_plugin list) \<Rightarrow> string \<Rightarrow> string \<Rightarrow>
    string + board" where
  "loadBoard ReadFile dec benchPath catalogPath =
     (case ReadFile benchPath of
        Inl err \<Rightarrow> Inl (''bench output: '' @ err)
      | Inr raw \<Rightarrow>
          (let text = TrimRight raw (CHR 0x0A) in
           case ReadFile catalogPath of
             Inl _ \<Rightarrow> Inr (parse_board [] text)
           | Inr data \<Rightarrow>
               (case dec data of
                  Inl err \<Rightarrow> Inl (''catalog index: '' @ err)
                | Inr plugins \<Rightarrow> Inr (parse_board plugins text))))"

section \<open>Splitting lines\<close>

lemma split_on_plain: "d \<notin> set l \<Longrightarrow> split_on d l = [l]"
  by (induction l) auto

lemma split_on_Cons: "d \<notin> set l \<Longrightarrow> split_on d (l @ d # s) = l # split_on d s"
  by (induction l) auto

lemma split_on_lines:
  "ls \<noteq> [] \<Longrightarrow> \<forall>l \<in> set ls. d \<notin> set l \<Longrightarrow> split_on d (concat (map (\<lambda>l. l @ [d]) (butlast ls)) @ last ls) = ls"
  by (induction ls) (auto simp: split_on_plain split_on_Cons)

lemma TrimRight_lines:
  assumes "ls \<noteq> []" "last ls \<noteq> []" "d \<notin> set (last ls)"
  shows "TrimRight (concat (map (\<lambda>l. l @ [d]) ls)) d = concat (map (\<lambda>l. l @ [d]) (butlast ls)) @ last ls"
proof -
  have "concat (map (\<lambda>l. l @ [d]) ls) = (concat (map (\<lambda>l. l @ [d]) (butlast ls)) @ last ls) @ [d]"
    using assms(1) by (cases ls rule: rev_cases) simp_all
  moreover obtain c s where cs: "rev (last ls) = c # s" using assms(2) by (cases "rev (last ls)") auto
  moreover from cs have "c \<in> set (last ls)" by (metis list.set_intros(1) set_rev)
  then have "c \<noteq> d" using assms(3) by blast
  ultimately show ?thesis by (simp add: TrimRight_def)
qed

section \<open>Reading a printed line\<close>

definition row_text :: "nat \<Rightarrow> bench_result \<Rightarrow> string" where
  "row_text i r = butlast (board_row i r)"

lemma Fields_pad: "solid w \<Longrightarrow> Fields (pad_right n w @ CHR '' '' # s) = w # Fields s"
proof -
  assume w: "solid w"
  obtain k where "pad_right n w = w @ replicate k (CHR '' '')" by (auto simp: pad_right_def)
  then have "pad_right n w @ CHR '' '' # s = w @ CHR '' '' # (replicate k (CHR '' '') @ s)"
    by (simp add: replicate_app_Cons_same)
  then show ?thesis using Fields_word [OF w, of "replicate k (CHR '' '') @ s"] Fields_blanks [of k s] by metis
qed

lemma Fields_line:
  assumes "solid a" "solid b" "solid c" "solid d" "solid e"
  shows "Fields (butlast (board_line a b c d e s)) = a # b # c # d # e # Fields s"
  using assms by (simp add: board_line_def Fields_pad butlast_append)

lemma Fields_eliminated: "Fields (digits_of m @ '' of '' @ digits_of n) = [digits_of m, ''of'', digits_of n]"
proof -
  have "solid ''of''" by (rule visible_solid) (simp_all add: visible_def)
  then show ?thesis
    using Fields_word [OF digits_solid, of m "''of'' @ CHR '' '' # digits_of n"]
      Fields_word [of "''of''" "digits_of n"] Fields_last [OF digits_solid, of n] by simp
qed

lemmas Fields_eliminated' = Fields_eliminated [unfolded append_Cons append_Nil]

lemma solid_percent: "solid (percent x)"
proof -
  have d: "is_digit c \<Longrightarrow> visible c" for c by (simp add: is_digit_def visible_def)
  have n: "list_all visible (digits_of n)" for n using decimal_digits [of n] d by (auto simp: list_all_iff)
  then have i: "list_all visible (show_int i)" for i by (simp add: show_int_def) (simp add: visible_def)
  have "list_all visible (fmt_f0 y)" for y by (cases y) (simp_all add: i, simp_all add: visible_def)
  then show ?thesis unfolding percent_def by (intro visible_solid) (simp_all add: visible_def)
qed

end
