(* ===== verification/Site.thy ===== *)
theory Site
  imports Blog Board Catalog Json
begin

text \<open>
  The generator of the project's web site (\<open>.github/site/main.go\<close>): captured output, the leaderboard, the blog
  and the playground with its presets become pages below an output directory. The environment, the clock's
  text, the pattern matching of the file system, the JSON decoders, the embedded page of the playground and
  the execution of the HTML templates (which set the style sheet) are parameters.
\<close>

section \<open>Pages\<close>

record site_page =
  pg_Title :: string
  pg_Description :: string
  pg_Nav :: string
  pg_Root :: string
  pg_Repo :: string
  pg_Short :: string
  pg_Built :: string
  pg_Body :: string

record site =
  site_out :: string
  site_repo :: string
  site_short :: string
  site_built :: string

record preset =
  ps_Manifest :: string
  ps_Events :: string

record index_plugin =
  ix_Name :: string
  ix_Manifest :: string
  ix_Benchmark :: string

record site_env =
  se_Getenv :: "string \<Rightarrow> string"
  se_Now :: string
  se_Glob :: "catalog_disk \<Rightarrow> string \<Rightarrow> string + string list"
  se_catalog :: "string \<Rightarrow> string + site_plugin list"
  se_index :: "string \<Rightarrow> string + index_plugin list"
  se_playground :: string
  se_shell :: "site_page \<Rightarrow> string + string"
  se_board :: "board \<Rightarrow> string \<Rightarrow> string \<Rightarrow> string + string"
  se_blogindex :: "post list \<Rightarrow> string \<Rightarrow> string + string"
  se_post :: "post \<Rightarrow> string \<Rightarrow> string + string"

definition site_dash :: string where "site_dash = [CHR 0xE2, CHR 0x80, CHR 0x94]"

definition envOr :: "site_env \<Rightarrow> string \<Rightarrow> string \<Rightarrow> string" where
  "envOr env key fallback = (if se_Getenv env key \<noteq> [] then se_Getenv env key else fallback)"

text \<open>\<open>filepath.Dir\<close>.\<close>

definition path_Dir :: "string \<Rightarrow> string" where
  "path_Dir p = path_Clean (rev (dropWhile (\<lambda>c. c \<noteq> CHR ''/'') (rev p)))"

text \<open>A writing operation: the error it ends with, if any, and the disk after it.\<close>

type_synonym disk_op = "catalog_disk \<Rightarrow> string option \<times> catalog_disk"

definition op_then :: "disk_op \<Rightarrow> disk_op \<Rightarrow> disk_op" where
  "op_then f g d = (case f d of (Some err, d1) \<Rightarrow> (Some err, d1) | (None, d1) \<Rightarrow> g d1)"

definition op_fail :: "string \<Rightarrow> disk_op" where
  "op_fail err d = (Some err, d)"

definition default_description :: string where
  "default_description =
     ''A business-agnostic protocol for deterministic-first execution, where the LLM is an edge tool '' @
     ''rather than the driver.''"

definition site_render :: "site_env \<Rightarrow> site \<Rightarrow> string \<Rightarrow> site_page \<Rightarrow> disk_op" where
  "site_render env s path p =
     (let p1 = p\<lparr>pg_Repo := site_repo s, pg_Short := site_short s, pg_Built := site_built s\<rparr>;
          p2 = (if pg_Description p1 = [] then p1\<lparr>pg_Description := default_description\<rparr> else p1) in
      case se_shell env p2 of
        Inl err \<Rightarrow> op_fail err
      | Inr html \<Rightarrow>
          (\<lambda>d.
             let full = path_Join (site_out s) path in
             case cd_mkdir_fault d (path_Dir full) of
               Some err \<Rightarrow> (Some err, d)
             | None \<Rightarrow> cd_WriteFile full html d))"

definition page_of :: "string \<Rightarrow> string \<Rightarrow> string \<Rightarrow> string \<Rightarrow> string \<Rightarrow> site_page" where
  "page_of title description nav up body =
     \<lparr>pg_Title = title, pg_Description = description, pg_Nav = nav, pg_Root = up, pg_Repo = [], pg_Short = [],
      pg_Built = [], pg_Body = body\<rparr>"

section \<open>The playground\<close>

text \<open>The loop over the index: plugins without both files are skipped, a later one of a name wins.\<close>

fun preset_loop :: "string \<Rightarrow> catalog_disk \<Rightarrow> index_plugin list \<Rightarrow> preset gomap \<Rightarrow> preset gomap" where
  "preset_loop dir d [] presets = presets"
| "preset_loop dir d (p # ps) presets =
     (if ix_Manifest p = [] \<or> ix_Benchmark p = [] then preset_loop dir d ps presets
      else case cd_ReadFile (path_Join dir (ix_Manifest p)) d of
        Inl _ \<Rightarrow> preset_loop dir d ps presets
      | Inr man \<Rightarrow>
          (case cd_ReadFile (path_Join dir (ix_Benchmark p)) d of
             Inl _ \<Rightarrow> preset_loop dir d ps presets
           | Inr events \<Rightarrow>
               preset_loop dir d ps (gput (ix_Name p) \<lparr>ps_Manifest = man, ps_Events = events\<rparr> presets)))"

text \<open>No index gives a nil map, \<open>None\<close>.\<close>

definition loadPresets :: "site_env \<Rightarrow> string \<Rightarrow> catalog_disk \<Rightarrow> string + preset gomap option" where
  "loadPresets env dir d =
     (case cd_ReadFile (path_Join dir ''index.json'') d of
        Inl _ \<Rightarrow> Inr None
      | Inr data \<Rightarrow>
          (case se_index env data of
             Inl err \<Rightarrow> Inl (''playground presets: '' @ err)
           | Inr ps \<Rightarrow> Inr (Some (preset_loop dir d ps []))))"

definition presets_json :: "preset gomap option \<Rightarrow> gval" where
  "presets_json presets =
     (case presets of
        None \<Rightarrow> GNil
      | Some m \<Rightarrow>
          GObj (map (\<lambda>(name, p). (name, GObj [(''manifest'', GStr (ps_Manifest p)), (''events'', GStr (ps_Events p))])) m))"

definition presets_script :: "string \<Rightarrow> string" where
  "presets_script encoded = md_nl @ ''<script>window.__ceePresets('' @ encoded @ '');</script>'' @ md_nl"

text \<open>Strings always marshal, so the error branch is dead; the sorted names are not used by the code.\<close>

definition playground_body :: "site_env \<Rightarrow> preset gomap option \<Rightarrow> string option" where
  "playground_body env presets =
     map_option (\<lambda>encoded. se_playground env @ presets_script encoded) (json_marshal (presets_json presets))"

definition writePlayground :: "site_env \<Rightarrow> site \<Rightarrow> preset gomap option \<Rightarrow> disk_op" where
  "writePlayground env s presets =
     (case playground_body env presets of
        None \<Rightarrow> op_fail ''json: unsupported value''
      | Some body \<Rightarrow>
          site_render env s ''playground/index.html''
            (page_of (''Playground '' @ site_dash @ '' CEE'')
               (''Edit a policy in the browser and watch which past decisions your change would flip. '' @
                ''Runs the real engine, compiled to WebAssembly.'') ''play'' ''../'' body))"

section \<open>The leaderboard and the blog\<close>

definition writeBoard :: "site_env \<Rightarrow> site \<Rightarrow> board \<Rightarrow> disk_op" where
  "writeBoard env s board =
     (case se_board env board (site_short s) (site_repo s) of
        Inl err \<Rightarrow> op_fail err
      | Inr body \<Rightarrow>
          site_render env s ''leaderboard/index.html''
            (page_of (''Plugin leaderboard '' @ site_dash @ '' CEE'')
               (''Every CEE plugin ranked by how many model calls it removes, measured by cee bench on a clean '' @
                ''runner.'') ''board'' ''../'' body))"

definition post_path :: "post \<Rightarrow> string" where
  "post_path p = path_Join (path_Join ''blog'' (post_Slug p)) ''index.html''"

definition writePost :: "site_env \<Rightarrow> site \<Rightarrow> post \<Rightarrow> disk_op" where
  "writePost env s p =
     (case se_post env p ''../../'' of
        Inl err \<Rightarrow> op_fail err
      | Inr body \<Rightarrow>
          site_render env s (post_path p)
            (page_of (post_Title p @ '' '' @ site_dash @ '' CEE'')
               (if post_Summary p = [] then post_Title p else post_Summary p) ''blog'' ''../../'' body))"

fun write_posts :: "site_env \<Rightarrow> site \<Rightarrow> post list \<Rightarrow> disk_op" where
  "write_posts env s [] d = (None, d)"
| "write_posts env s (p # ps) d = op_then (writePost env s p) (write_posts env s ps) d"

definition writeBlog :: "site_env \<Rightarrow> site \<Rightarrow> post list \<Rightarrow> disk_op" where
  "writeBlog env s posts =
     (case se_blogindex env posts ''../'' of
        Inl err \<Rightarrow> op_fail err
      | Inr body \<Rightarrow>
          op_then
            (site_render env s ''blog/index.html''
               (page_of (''Blog '' @ site_dash @ '' CEE'') ''Notes on building a deterministic execution engine.'' ''blog'' ''../'' body))
            (write_posts env s posts))"

section \<open>The home page\<close>

record home_block =
  sec_Heading :: string
  sec_Prose :: string
  sec_Capture :: string

definition sections :: "home_block list" where
  "sections =
    [\<lparr>sec_Heading = ''Changing a rule, before you ship it'',
      sec_Prose =
        ''The dividend of a deterministic engine, and the one thing no agent can offer: replay last'' @ md_nl @
        ''quarter'' @ [CHR 0x27] @
        ''s decisions against a proposed rule and see exactly which ones flip. The plan an agent'' @ md_nl @
        ''follows exists only while it runs, so there is nothing to replay. Note that one refund inside'' @ md_nl @
        ''the affected range does not flip '' @ site_dash @
        '' probe verdicts come from the recording rather than a live'' @ md_nl @
        ''check, so an account that was closed at the time stays closed, and the rule is the only thing'' @ md_nl @
        ''that moved.'',
      sec_Capture = ''rule_change''\<rparr>,
     \<lparr>sec_Heading = ''Code audit '' @ site_dash @ '' an AI PR reviewer, re-cast'',
      sec_Prose =
        ''The loop CodeRabbit, GitHub Copilot code review and Qodo PR-Agent run '' @ site_dash @
        '' find an issue and decide what to do'' @ md_nl @ ''about it '' @ site_dash @
        '' with the decision taken back from the model. The model only extracts a finding into structured '' @
        ''fields,'' @ md_nl @
        ''stamped model-derived; a deterministic workflow classifies severity and refuses to auto-block on '' @
        ''a guessed one. A'' @ md_nl @
        ''sandbox probe rehearses the action first, so blocking the hotfix that ends an incident, or autofixing '' @
        ''generated code,'' @ md_nl @
        ''routes to a human instead of executing. The final line is the error side of the batch: intent miss, '' @
        ''probe refusal.'',
      sec_Capture = ''code_audit''\<rparr>,
     \<lparr>sec_Heading = ''Crypto market surveillance '' @ site_dash @ '' live data'',
      sec_Prose =
        ''Fixed thresholds over live quotes, swept hourly. This is anomaly flagging, not investment'' @ md_nl @
        ''advice: every rule is a constant in a manifest or in deterministic Go, and no model is asked'' @ md_nl @
        ''whether anything is worth buying. The guardrail is that a correct rule can still fire on data'' @ md_nl @
        ''not worth acting on '' @ site_dash @
        '' a quote minutes stale describes a market that has moved on, and a large'' @ md_nl @
        ''percentage move on a thin book is noise. A probe checks both before anything is raised.'',
      sec_Capture = ''crypto_surveillance''\<rparr>,
     \<lparr>sec_Heading = ''Network intrusion detection'',
      sec_Prose =
        ''Alerts are matched to MITRE ATT&CK techniques and contained automatically '' @ site_dash @ '' unless'' @
        md_nl @ ''containment would do more damage than the intrusion. This is the reason detection teams'' @
        md_nl @ ''distrust automated response: the dangerous case is not a wrong detector, it is a right one'' @
        md_nl @ ''whose response takes the company off the internet. A pre-execution probe assesses the blast'' @
        md_nl @
        ''radius first, so blocking an address that turns out to be our own VPN egress, or isolating the'' @
        md_nl @ ''jump host the responders log in through, routes to an analyst instead of executing.'',
      sec_Capture = ''network_detection''\<rparr>,
     \<lparr>sec_Heading = ''Security monitoring '' @ site_dash @ '' a plugin with Go code'',
      sec_Prose =
        ''An alert matches a brute-force technique, and a sandbox probe runs before the containment'' @ md_nl @
        ''action rather than after it. Against an ordinary workstation the action proceeds. Against a'' @ md_nl @
        ''domain controller the probe refuses, and the circuit breaker downgrades to human approval'' @ md_nl @
        ''instead of isolating a critical asset. Both paths below are the same workflow.'',
      sec_Capture = ''security_monitoring''\<rparr>,
     \<lparr>sec_Heading = ''Expense approval '' @ site_dash @ '' no Go at all'',
      sec_Prose =
        ''The entire DAG is a JSON manifest; there is not one line of Go behind it. Under the threshold'' @ md_nl @
        ''it settles immediately. Over it, the run suspends for a manager and hands back a resume pointer;'' @
        md_nl @ ''the decision arrives later and execution continues from where it stopped. The trace spans the'' @
        md_nl @ ''pause as one continuous run, and the pointer cannot be used twice.'',
      sec_Capture = ''human_approval''\<rparr>,
     \<lparr>sec_Heading = ''Three more scenarios'',
      sec_Prose =
        ''An N-way switch assembled from steps that have only two outbound edges each; scheduling on an'' @ md_nl @
        ''engine that owns no clock, where deferral is a suspension and something else resumes it; and a'' @
        md_nl @ ''batch, where the loop lives in the caller because the DAG rejects cycles outright.'',
      sec_Capture = ''meta_scenarios''\<rparr>]"

definition readTrim :: "string \<Rightarrow> catalog_disk \<Rightarrow> string" where
  "readTrim path d = (case cd_ReadFile path d of Inl _ \<Rightarrow> site_dash | Inr data \<Rightarrow> TrimSpace data)"

definition capture :: "string \<Rightarrow> catalog_disk \<Rightarrow> string" where
  "capture path d =
     (case cd_ReadFile path d of
        Inl _ \<Rightarrow> ''<p class=\"empty\">'' @ EscapeString (path_Base path) @ '' was not captured in this run.</p>'' @ md_nl
      | Inr data \<Rightarrow> ''<pre><code>'' @ EscapeString (TrimRight data (CHR 0x0A)) @ ''</code></pre>'' @ md_nl)"

definition home_head :: "site \<Rightarrow> string \<Rightarrow> string \<Rightarrow> string" where
  "home_head s packages tests =
      ''<h1>CEE '' @ site_dash @ '' what actually ran</h1>'' @ md_nl @
      ''<p class=\"tag\">A business-agnostic protocol for deterministic-first execution, where the LLM is '' @
      ''an edge tool rather than the driver.</p>'' @ md_nl @ md_nl @ ''<div class=\"meta\">'' @ md_nl @
      ''Rebuilt on every push to <code>main</code>. This page is generated from a real run on a clean'' @ md_nl @
      ''GitHub runner at commit <code>'' @ EscapeString (site_short s) @ ''</code> '' @ site_dash @
      '' every block is captured output, none of it is'' @ md_nl @ ''written by hand. Built '' @
      EscapeString (site_built s) @ ''.'' @ md_nl @
      ''</div>'' @ md_nl @ md_nl @ ''<ul class=\"stats\">'' @ md_nl @
      ''  <li><b>'' @ EscapeString packages @ ''</b><span>packages passing</span></li>'' @ md_nl @
      ''  <li><b>'' @ EscapeString tests @ ''</b><span>tests</span></li>'' @ md_nl @
      ''  <li><b>0</b><span>external dependencies</span></li>'' @ md_nl @ ''</ul>'' @ md_nl"

definition home_section :: "catalog_disk \<Rightarrow> home_block \<Rightarrow> string" where
  "home_section d sec =
     md_nl @ ''<h2>'' @ EscapeString (sec_Heading sec) @ ''</h2>'' @ md_nl @ ''<p>'' @ EscapeString (collapse (sec_Prose sec)) @
     ''</p>'' @ md_nl @ capture (''demo-output/'' @ sec_Capture sec @ ''.txt'') d"

definition home_catalog :: "catalog_disk \<Rightarrow> string" where
  "home_catalog d =
      md_nl @ ''<h2>Plugin catalog</h2>'' @ md_nl @
      ''<p>Plugins are distributed as manifests and ranked by how many model calls they remove, measured'' @
      md_nl @ ''against a baseline agent that would call a model once per step. The'' @ md_nl @
      ''<a href=\"leaderboard/\">full leaderboard</a> has the detail.</p>'' @ md_nl @
      capture ''demo-output/list.txt'' d @ capture ''demo-output/bench.txt'' d @
      md_nl @ ''<details>'' @ md_nl @ ''<summary>Every shipped manifest, statically validated</summary>'' @ md_nl @
      capture ''demo-output/validate.txt'' d @ ''</details>'' @ md_nl"

definition writeHome :: "site_env \<Rightarrow> site \<Rightarrow> board \<Rightarrow> disk_op" where
  "writeHome env s board d =
     (let packages = readTrim ''demo-output/packages.txt'' d; tests = readTrim ''demo-output/tests.txt'' d in
      site_render env s ''index.html''
        (page_of (''CEE '' @ site_dash @ '' what actually ran'') [] ''home'' []
           (home_head s packages tests @ concat (map (home_section d) sections) @ home_catalog d)) d)"

section \<open>The generator\<close>

definition site_of :: "site_env \<Rightarrow> site" where
  "site_of env =
     \<lparr>site_out = envOr env ''SITE_OUT'' ''site'', site_repo = envOr env ''GITHUB_REPOSITORY'' ''p0nymc1/cee'',
      site_short = take 7 (envOr env ''GITHUB_SHA'' ''local''), site_built = se_Now env\<rparr>"

text \<open>The files are written in order; an error leaves those before it written.\<close>

definition site_run :: "site_env \<Rightarrow> disk_op" where
  "site_run env d =
     (let s = site_of env; read = (\<lambda>p. cd_ReadFile p d) in
      case loadBoard read (se_catalog env) ''demo-output/bench.txt'' ''catalog/index.json'' of
        Inl err \<Rightarrow> (Some err, d)
      | Inr board \<Rightarrow>
          (case loadPosts (se_Glob env d) read ''blog'' of
             Inl err \<Rightarrow> (Some err, d)
           | Inr posts \<Rightarrow>
               op_then (writeHome env s board) (op_then (writeBoard env s board) (op_then (writeBlog env s posts)
                 (\<lambda>d1. case loadPresets env ''catalog'' d1 of
                          Inl err \<Rightarrow> (Some err, d1)
                        | Inr presets \<Rightarrow> writePlayground env s presets d1))) d))"

end
