(* ===== verification/BoardFacts.thy ===== *)
theory BoardFacts
  imports Board
begin

text \<open>
  The web site reads what \<open>cee bench\<close> prints: parsing the printed leaderboard gives the results back, rank by
  rank, and the totals are the sums over the results.
\<close>

section \<open>Results that can be printed\<close>

text \<open>Names without white space and counts that fit in an \<open>int\<close>.\<close>

definition printable :: "bench_result \<Rightarrow> bool" where
  "printable r \<longleftrightarrow>
     solid (br_PluginName r) \<and> br_Events r < 2 ^ 63 \<and> br_Errors r < 2 ^ 63 \<and>
     LLMCallsEliminatedVsAgent (br_Scorecard r) < 2 ^ 63 \<and> CognitiveOps (br_Scorecard r) < 2 ^ 63"

text \<open>What a row of the board says of a result.\<close>

definition says :: "board_entry \<Rightarrow> nat \<times> bench_result \<Rightarrow> bool" where
  "says e = (\<lambda>(i, r).
     be_Rank e = int (i + 1) \<and> be_Plugin e = br_PluginName r \<and>
     be_Determinism e = percent (DeterminismRatio (br_Scorecard r)) \<and>
     be_Events e = int (br_Events r) \<and> be_Errors e = int (br_Errors r) \<and>
     be_Removed e = int (LLMCallsEliminatedVsAgent (br_Scorecard r)) \<and>
     be_Baseline e = int (CognitiveOps (br_Scorecard r)))"

definition eliminated_text :: "bench_result \<Rightarrow> string" where
  "eliminated_text r =
     digits_of (LLMCallsEliminatedVsAgent (br_Scorecard r)) @ '' of '' @ digits_of (CognitiveOps (br_Scorecard r))"

lemma Fields_row:
  "solid (br_PluginName r) \<Longrightarrow> Fields (row_text i r) =
     [digits_of (i + 1), br_PluginName r, percent (DeterminismRatio (br_Scorecard r)), digits_of (br_Events r),
      digits_of (br_Errors r), digits_of (LLMCallsEliminatedVsAgent (br_Scorecard r)), ''of'',
      digits_of (CognitiveOps (br_Scorecard r))]"
  by (simp add: row_text_def board_row_def Fields_line digits_solid solid_percent Fields_eliminated')

lemma eliminated_text_read:
  "printable r \<Longrightarrow> site_eliminated (eliminated_text r) =
     (int (LLMCallsEliminatedVsAgent (br_Scorecard r)), int (CognitiveOps (br_Scorecard r)))"
  by (simp add: site_eliminated_def eliminated_text_def Fields_eliminated' Atoi_digits printable_def Let_def)

lemma eliminated_fields: "str_join [digits_of m, ''of'', digits_of n] '' '' = digits_of m @ '' of '' @ digits_of n"
  by simp

definition row_entry :: "site_plugin list \<Rightarrow> nat \<times> bench_result \<Rightarrow> board_entry" where
  "row_entry plugins = (\<lambda>(i, r). entry_of plugins (Fields (row_text i r)) (int (i + 1)))"

lemma row_entry_says: "printable r \<Longrightarrow> says (row_entry plugins (i, r)) (i, r)"
proof -
  assume r: "printable r"
  then have s: "solid (br_PluginName r)" by (simp add: printable_def)
  have e: "site_eliminated (digits_of (LLMCallsEliminatedVsAgent (br_Scorecard r)) @ '' of '' @
      digits_of (CognitiveOps (br_Scorecard r))) =
     (int (LLMCallsEliminatedVsAgent (br_Scorecard r)), int (CognitiveOps (br_Scorecard r)))"
    using eliminated_text_read [OF r] by (simp add: eliminated_text_def)
  have a: "Atoi (digits_of (br_Events r)) = (int (br_Events r), True)" "Atoi (digits_of (br_Errors r)) = (int (br_Errors r), True)"
    using r by (simp_all add: Atoi_digits printable_def)
  show ?thesis
    using e a by (simp add: row_entry_def says_def entry_of_def Fields_row [OF s] Let_def split: option.split)
qed

text \<open>The header is not a row: its first field is no number.\<close>

definition header_text :: string where
  "header_text = butlast (board_line ''rank'' ''plugin'' ''determinism'' ''events'' ''errors'' ''LLM calls eliminated vs agent'')"

lemma header_ignored: "read_line plugins header_text b = b"
proof -
  have w: "solid ''rank''" "solid ''plugin''" "solid ''determinism''" "solid ''events''" "solid ''errors''"
    by (rule visible_solid; simp add: visible_def)+
  have "fst (Atoi ''rank'') = 0 \<and> snd (Atoi ''rank'') = False" by (simp add: Atoi_def is_digit_def Let_def)
  then have "Atoi ''rank'' = (0, False)" by (simp add: prod_eq_iff)
  then show ?thesis by (simp add: read_line_def header_text_def Fields_line [OF w] Let_def)
qed

lemma read_row:
  assumes "printable r" "int (i + 1) < 2 ^ 63"
  shows "read_line plugins (row_text i r) b =
    (let e = row_entry plugins (i, r)
     in b\<lparr>bo_Entries := bo_Entries b @ [e], bo_TotalRemoved := bo_TotalRemoved b + be_Removed e,
          bo_TotalCalls := bo_TotalCalls b + be_Baseline e, bo_TotalEvents := bo_TotalEvents b + be_Events e,
          bo_TotalErrors := bo_TotalErrors b + be_Errors e\<rparr>)"
proof -
  have s: "solid (br_PluginName r)" using assms(1) by (simp add: printable_def)
  have "i + 1 < 2 ^ 63" using assms(2) by (metis of_nat_less_iff of_nat_numeral of_nat_power)
  then have a: "Atoi (digits_of (i + 1)) = (int (i + 1), True)" by (rule Atoi_digits)
  have f: "Fields (row_text i r) = digits_of (i + 1) # tl (Fields (row_text i r))" "\<not> length (Fields (row_text i r)) < 5"
    by (simp_all add: Fields_row [OF s])
  then have "Fields (row_text i r) ! 0 = digits_of (i + 1)" by (metis nth_Cons_0)
  then show ?thesis using a f(2) by (simp add: read_line_def row_entry_def Let_def)
qed

lemma read_rows:
  assumes "\<forall>(i, r) \<in> set irs. printable r \<and> int (i + 1) < 2 ^ 63"
  shows "fold (read_line plugins) (map (\<lambda>(i, r). row_text i r) irs) b =
    (let es = map (row_entry plugins) irs
     in b\<lparr>bo_Entries := bo_Entries b @ es, bo_TotalRemoved := bo_TotalRemoved b + sum_list (map be_Removed es),
          bo_TotalCalls := bo_TotalCalls b + sum_list (map be_Baseline es),
          bo_TotalEvents := bo_TotalEvents b + sum_list (map be_Events es),
          bo_TotalErrors := bo_TotalErrors b + sum_list (map be_Errors es)\<rparr>)"
  using assms
proof (induction irs arbitrary: b)
  case (Cons ir irs)
  obtain i r where ir: "ir = (i, r)" by force
  with Cons.prems have "printable r" "int (i + 1) < 2 ^ 63" by auto
  note row = read_row [OF this, of plugins b]
  have "\<forall>(i, r) \<in> set irs. printable r \<and> int (i + 1) < 2 ^ 63" using Cons.prems by auto
  from Cons.IH [OF this] show ?case by (simp add: ir row Let_def add.assoc)
qed simp

lemma int_below: "n < 2 ^ 63 \<Longrightarrow> int n < 2 ^ 63"
  by (metis of_nat_less_iff of_nat_numeral of_nat_power)

section \<open>The printed text\<close>

lemma line_end: "butlast (board_line a b c d e s) @ [CHR 0x0A] = board_line a b c d e s"
  by (simp add: board_line_def butlast_append)

lemma FormatLeaderboard_lines:
  "FormatLeaderboard rs =
     concat (map (\<lambda>l. l @ [CHR 0x0A]) (header_text # map (\<lambda>(i, r). row_text i r) (enumerate 0 (Leaderboard rs))))"
proof -
  have "map2 board_row [0..<length xs] xs = map (\<lambda>l. l @ [CHR 0x0A]) (map (\<lambda>(i, r). row_text i r) (enumerate 0 xs))" for xs
    by (rule nth_equalityI) (simp_all add: nth_enumerate_eq row_text_def board_row_def line_end)
  then show ?thesis by (simp add: FormatLeaderboard_def Let_def header_text_def line_end)
qed

lemma solid_one_line: "solid w \<Longrightarrow> CHR 0x0A \<notin> set w"
proof (induction w)
  case (Cons c w)
  have "at_space (CHR 0x0A # w)" by (simp add: at_space_def space_codes_def has_prefix_def)
  with Cons show ?case by auto
qed simp

lemma board_line_one_line:
  assumes "CHR 0x0A \<notin> set a" "CHR 0x0A \<notin> set b" "CHR 0x0A \<notin> set c" "CHR 0x0A \<notin> set d" "CHR 0x0A \<notin> set e" "CHR 0x0A \<notin> set s"
  shows "CHR 0x0A \<notin> set (butlast (board_line a b c d e s)) \<and> butlast (board_line a b c d e s) \<noteq> []"
  using assms by (simp add: board_line_def butlast_append pad_right_def)

lemma lines_one_line:
  "CHR 0x0A \<notin> set header_text \<and> header_text \<noteq> []"
  "solid (br_PluginName r) \<Longrightarrow> CHR 0x0A \<notin> set (row_text i r) \<and> row_text i r \<noteq> []"
proof -
  show "CHR 0x0A \<notin> set header_text \<and> header_text \<noteq> []"
    unfolding header_text_def by (rule board_line_one_line) simp_all
  assume r: "solid (br_PluginName r)"
  have d: "CHR 0x0A \<notin> set (digits_of n)" for n by (rule solid_one_line [OF digits_solid])
  show "CHR 0x0A \<notin> set (row_text i r) \<and> row_text i r \<noteq> []"
    unfolding row_text_def board_row_def
    by (rule board_line_one_line) (simp_all add: d solid_one_line [OF r] solid_one_line [OF solid_percent])
qed

lemma parse_printed:
  assumes "list_all printable rs"
  shows "split_on (CHR 0x0A) (TrimRight (FormatLeaderboard rs) (CHR 0x0A)) =
    header_text # map (\<lambda>(i, r). row_text i r) (enumerate 0 (Leaderboard rs))"
proof -
  let ?ls = "header_text # map (\<lambda>(i, r). row_text i r) (enumerate 0 (Leaderboard rs))"
  have "solid (br_PluginName r)" if "r \<in> set (Leaderboard rs)" for r
    using that assms board.mset_sort [of rs] unfolding Leaderboard_def list_all_iff printable_def by (metis set_mset_mset)
  then have l: "CHR 0x0A \<notin> set l \<and> l \<noteq> []" if "l \<in> set ?ls" for l
    using that lines_one_line by (auto simp: in_set_enumerate_eq)
  have "last ?ls \<in> set ?ls" by (rule last_in_set) simp
  with l have e: "last ?ls \<noteq> []" "CHR 0x0A \<notin> set (last ?ls)" by blast+
  have "?ls \<noteq> []" "\<forall>l \<in> set ?ls. CHR 0x0A \<notin> set l" using l by blast+
  from split_on_lines [OF this] show ?thesis
    unfolding FormatLeaderboard_lines TrimRight_lines [OF \<open>?ls \<noteq> []\<close> e] .
qed

lemma sum_says:
  assumes "list_all2 says es irs"
  shows "sum_list (map be_Removed es) = (\<Sum>(i, r) \<leftarrow> irs. int (LLMCallsEliminatedVsAgent (br_Scorecard r)))"
    "sum_list (map be_Baseline es) = (\<Sum>(i, r) \<leftarrow> irs. int (CognitiveOps (br_Scorecard r)))"
    "sum_list (map be_Events es) = (\<Sum>(i, r) \<leftarrow> irs. int (br_Events r))"
    "sum_list (map be_Errors es) = (\<Sum>(i, r) \<leftarrow> irs. int (br_Errors r))"
  using assms by (induction rule: list_all2_induct) (auto simp: says_def)

lemma sum_board: "(\<Sum>(i :: nat, r) \<leftarrow> enumerate 0 (Leaderboard rs). f r) = (\<Sum>r \<leftarrow> rs. f r)" for f :: "bench_result \<Rightarrow> int"
proof -
  have "map (\<lambda>(i, r). f r) (enumerate n xs) = map f xs" for n xs by (induction xs arbitrary: n) auto
  then have "(\<Sum>(i :: nat, r) \<leftarrow> enumerate 0 (Leaderboard rs). f r) = sum_mset (image_mset f (mset (Leaderboard rs)))"
    by (simp add: sum_mset_sum_list flip: mset_map)
  then show ?thesis using board.mset_sort [of rs] by (simp add: Leaderboard_def sum_mset_sum_list flip: mset_map)
qed

text \<open>
  C33. What \<open>cee bench\<close> prints the web site reads back. For results whose plugin names are not empty and hold
  no white space, and whose counts, as their number, are below 2 to the 63 (Go's \<open>int\<close>), the entries of
  the board are the printed leaderboard's, in its order: rank, name, share of deterministic steps, events,
  errors, calls eliminated and baseline are those of the result; and the board's totals are the sums over all
  results, none counted twice and none left out.
\<close>

theorem site_reads_bench:
  assumes "list_all printable rs" "length rs < 2 ^ 63"
    and "ReadFile benchPath = Inr (FormatLeaderboard rs)"
    and "loadBoard ReadFile dec benchPath catalogPath = Inr b"
  shows "list_all2 says (bo_Entries b) (enumerate 0 (Leaderboard rs)) \<and>
    bo_TotalRemoved b = (\<Sum>r \<leftarrow> rs. int (LLMCallsEliminatedVsAgent (br_Scorecard r))) \<and>
    bo_TotalCalls b = (\<Sum>r \<leftarrow> rs. int (CognitiveOps (br_Scorecard r))) \<and>
    bo_TotalEvents b = (\<Sum>r \<leftarrow> rs. int (br_Events r)) \<and> bo_TotalErrors b = (\<Sum>r \<leftarrow> rs. int (br_Errors r))"
proof -
  let ?irs = "enumerate 0 (Leaderboard rs)"
  obtain plugins where b: "b = parse_board plugins (TrimRight (FormatLeaderboard rs) (CHR 0x0A))"
    using assms(3,4) by (auto simp: loadBoard_def Let_def split: sum.splits)
  have len: "length (Leaderboard rs) = length rs" "set (Leaderboard rs) = set rs"
    using board.mset_sort [of rs] unfolding Leaderboard_def by (metis size_mset, metis set_mset_mset)
  have p: "\<forall>(i, r) \<in> set ?irs. printable r \<and> int (i + 1) < 2 ^ 63"
  proof (rule ballI, clarify)
    fix i r
    assume "(i, r) \<in> set ?irs"
    then have n: "i < length (Leaderboard rs)" "Leaderboard rs ! i = r" by (simp_all add: in_set_enumerate_eq)
    then have i: "i < length rs" "r \<in> set rs" using len nth_mem [OF n(1)] by simp_all
    then have "i + 1 \<le> length rs" by simp
    then have "i + 1 < 2 ^ 63" using assms(2) by (rule le_less_trans)
    then have "int (i + 1) < 2 ^ 63" by (rule int_below)
    with i(2) assms(1) show "printable r \<and> int (i + 1) < 2 ^ 63" by (simp add: list_all_iff)
  qed
  let ?es = "map (row_entry plugins) ?irs"
  have e: "bo_Entries b = ?es" "bo_TotalRemoved b = sum_list (map be_Removed ?es)" "bo_TotalCalls b = sum_list (map be_Baseline ?es)"
    "bo_TotalEvents b = sum_list (map be_Events ?es)" "bo_TotalErrors b = sum_list (map be_Errors ?es)"
    unfolding b parse_board_def parse_printed [OF assms(1)] list.simps(1) fold_Cons comp_def header_ignored read_rows [OF p] Let_def
    by simp_all
  have s: "list_all2 says ?es ?irs"
    using p row_entry_says by (auto simp: list.rel_map intro!: list.rel_refl_strong)
  show ?thesis using s sum_says [OF s] unfolding e sum_board by simp
qed

definition printed_result :: bench_result where
  "printed_result = \<lparr>br_PluginName = ''sla-guard'', br_Events = 4, br_Errors = 1,
     br_Scorecard = \<lparr>sc_WorkflowID = ''sla-guard'', sc_DeterministicSteps = 8, sc_LLMCalls = 0, sc_SandboxProbes = 0,
       sc_CircuitBreakerTrips = 0, sc_Duration = 5\<rparr>\<rparr>"

text \<open>A name with a blank in it shifts the columns of its row: the name is cut, the events are the share.\<close>

lemma names_with_blanks_shift:
  "map (\<lambda>e. (be_Plugin e, be_Determinism e, be_Events e, be_Errors e)) (bo_Entries (parse_board []
     ''1 sla guard 100.0% 4 1 8 of 8'')) = [(''sla'', ''guard'', 0, 4)]"
  by code_simp

theorem site_reads_bench_witness:
  "\<exists>b. loadBoard (\<lambda>p. if p = ''bench.txt'' then Inr (FormatLeaderboard [printed_result]) else Inl ''missing'') (\<lambda>_. Inl ''bad'')
       ''bench.txt'' ''index.json'' = Inr b \<and> map be_Plugin (bo_Entries b) = [''sla-guard''] \<and> bo_TotalErrors b = 1"
proof -
  let ?read = "\<lambda>p. if p = ''bench.txt'' then Inr (FormatLeaderboard [printed_result]) else Inl ''missing'' :: string + string"
  obtain b where b: "loadBoard ?read (\<lambda>_. Inl ''bad'') ''bench.txt'' ''index.json'' = Inr b" by (simp add: loadBoard_def)
  have s: "solid ''sla-guard''" by (rule visible_solid) (simp_all add: visible_def)
  have p: "list_all printable [printed_result]"
    using s by (simp add: printable_def printed_result_def LLMCallsEliminatedVsAgent_def CognitiveOps_def)
  have l: "Leaderboard [printed_result] = [printed_result]" by (simp add: Leaderboard_def stable_sort_def)
  have r: "?read ''bench.txt'' = Inr (FormatLeaderboard [printed_result])" by simp
  have n: "length [printed_result] < 2 ^ 63" by simp
  note all = site_reads_bench [OF p n r b]
  have e: "enumerate 0 (Leaderboard [printed_result]) = [(0, printed_result)]" by (simp add: l)
  have "br_Errors printed_result = 1" by (simp add: printed_result_def)
  then have "(\<Sum>r \<leftarrow> [printed_result]. int (br_Errors r)) = 1" by simp
  then have one: "bo_TotalErrors b = 1" using all by argo
  have "list_all2 says (bo_Entries b) [(0, printed_result)]" using all unfolding e by (rule conjunct1)
  then obtain x where x: "bo_Entries b = [x]" "says x (0, printed_result)" by (auto simp: list_all2_Cons2)
  from x(2) have "be_Plugin x = br_PluginName printed_result" by (simp add: says_def)
  also have "\<dots> = ''sla-guard''" by (simp add: printed_result_def)
  finally have plugin: "map be_Plugin (bo_Entries b) = [''sla-guard'']" using x(1) by simp
  show ?thesis by (intro exI [of _ b] conjI) (fact b, fact plugin, fact one)
qed

end
