(* ===== verification/MarkdownFacts.thy ===== *)
theory MarkdownFacts
  imports Markdown
begin

text \<open>
  What a page made from Markdown can contain: the renderer's own tags and text in which every character of
  markup is an entity. The characters the scanners look for do not occur in the tags, so that emphasis over
  text that already has tags in it cuts between tags, never through one.
\<close>

section \<open>Rendered text\<close>

definition plain_char :: "char \<Rightarrow> bool" where
  "plain_char c \<longleftrightarrow> c \<notin> {CHR ''<'', CHR ''>'', CHR 0x22, CHR 0x27}"

definition md_tags :: "string list" where
  "md_tags =
     [''<p>'', ''</p>'', ''<ul>'', ''</ul>'', ''<ol>'', ''</ol>'', ''<li>'', ''</li>'', ''<blockquote>'', ''</blockquote>'',
      ''<hr>'', ''<h1>'', ''</h1>'', ''<h2>'', ''</h2>'', ''<h3>'', ''</h3>'', ''<h4>'', ''</h4>'', ''<h5>'', ''</h5>'',
      ''<h6>'', ''</h6>'', ''<pre>'', ''</pre>'', ''<code>'', ''</code>'', ''<code class=\"lang-'', ''<a href=\"'', ''\">'', ''</a>'',
      ''<strong>'', ''</strong>'', ''<em>'', ''</em>'', ''<div class=\"scroll\">'', ''</div>'', ''<table>'', ''</table>'',
      ''<thead>'', ''</thead>'', ''<tbody>'', ''</tbody>'', ''<tr>'', ''</tr>'', ''<th>'', ''</th>'', ''<td>'', ''</td>'']"

inductive rendered :: "string \<Rightarrow> bool" where
  rendered_Nil: "rendered []"
| rendered_char: "plain_char c \<Longrightarrow> rendered s \<Longrightarrow> rendered (c # s)"
| rendered_tag: "t \<in> set md_tags \<Longrightarrow> rendered s \<Longrightarrow> rendered (t @ s)"

named_theorems rendering

lemmas [rendering] = rendered_Nil

lemma rendered_append [rendering]: "rendered s \<Longrightarrow> rendered t \<Longrightarrow> rendered (s @ t)"
  by (induction rule: rendered.induct) (auto intro: rendered.intros)

lemma rendered_plain: "list_all plain_char s \<Longrightarrow> rendered s"
  by (induction s) (auto intro: rendered.intros)

lemma rendered_one: "t \<in> set md_tags \<Longrightarrow> rendered t"
  using rendered_tag [OF _ rendered_Nil] by fastforce

lemma rendered_concat [rendering]: "(\<And>s. s \<in> set ss \<Longrightarrow> rendered s) \<Longrightarrow> rendered (concat ss)"
  by (induction ss) (auto intro: rendering)

lemma rendered_map [rendering]: "(\<And>x. rendered (f x)) \<Longrightarrow> rendered (concat (map f xs))"
  by (rule rendered_concat) auto

lemma rendered_if [rendering]: "rendered a \<Longrightarrow> rendered b \<Longrightarrow> rendered (if P then a else b)"
  by simp

lemma rendered_nl [rendering]: "rendered md_nl"
  by (rule rendered_plain) (simp add: md_nl_def plain_char_def)

lemma escape_plain: "list_all plain_char (EscapeString s)"
proof (induction s)
  case (Cons c s)
  have "list_all plain_char (escape_char c)" by (simp add: escape_char_def plain_char_def)
  with Cons show ?case by (simp add: EscapeString_def)
qed (simp add: EscapeString_def)

lemma rendered_escape [rendering]: "rendered (EscapeString s)"
  by (rule rendered_plain [OF escape_plain])

text \<open>The tags hold no star and are not empty; this is what the scanners rely on.\<close>

lemma tag_shape: "list_all (\<lambda>t. t \<noteq> [] \<and> list_all (\<lambda>c. c \<noteq> CHR ''*'') t) md_tags"
  by (simp add: md_tags_def)

lemma tag_no_star: "t \<in> set md_tags \<Longrightarrow> CHR ''*'' \<notin> set t"
  using tag_shape by (auto simp: list_all_iff)

lemma tag_not_Nil: "t \<in> set md_tags \<Longrightarrow> t \<noteq> []"
  using tag_shape by (auto simp: list_all_iff)

lemma rendered_split: "rendered w \<Longrightarrow> w = u @ CHR ''*'' # v \<Longrightarrow> rendered u \<and> rendered v"
proof (induction arbitrary: u rule: rendered.induct)
  case (rendered_char c s)
  then show ?case by (cases u) (auto intro: rendered.intros)
next
  case (rendered_tag t s)
  note no_star = tag_no_star [OF rendered_tag.hyps(1)]
  from rendered_tag.prems consider (inside) us where "t @ us = u" "s = us @ CHR ''*'' # v"
    | (cut) us where "t = u @ us" "us @ s = CHR ''*'' # v"
    by (auto simp: append_eq_append_conv2)
  then show ?case
  proof cases
    case inside
    with rendered_tag.IH rendered_tag.hyps(1) show ?thesis by (auto intro: rendered.intros)
  next
    case cut
    with no_star have "us = []" by (cases us) auto
    with cut rendered_tag.IH [of "[]"] rendered_one rendered_tag.hyps(1) show ?thesis by auto
  qed
qed simp

section \<open>Links and emphasis\<close>

lemma while_sets: "set (dropWhile P s) \<subseteq> set s" "set (takeWhile P s) \<subseteq> set s" "set (drop n s) \<subseteq> set s" "set (tl s) \<subseteq> set s"
  by (blast dest: set_dropWhileD set_takeWhileD in_set_dropD, blast dest: set_dropWhileD set_takeWhileD in_set_dropD,
      blast dest: in_set_dropD, cases s, auto)

lemma reLink_parts:
  assumes "reLink s = Some (l, t, r)"
  shows "set l \<subseteq> set s" "set t \<subseteq> set s" "set r \<subseteq> set s"
proof -
  let ?p = "\<lambda>c. c \<noteq> CHR '']''" and ?q = "\<lambda>c. c \<noteq> CHR '')'' \<and> \<not> re_space c"
  have e: "l = takeWhile ?p (tl s)" "t = takeWhile ?q (drop 2 (dropWhile ?p (tl s)))"
    "r = drop 1 (dropWhile ?q (drop 2 (dropWhile ?p (tl s))))"
    using assms by (simp_all add: reLink_def Let_def split: if_splits)
  show "set l \<subseteq> set s" unfolding e(1) by (rule subset_trans [OF while_sets(2) while_sets(4)])
  have d: "set (drop 2 (dropWhile ?p (tl s))) \<subseteq> set s"
    by (rule subset_trans [OF while_sets(3) subset_trans [OF while_sets(1) while_sets(4)]])
  show "set t \<subseteq> set s" unfolding e(2) by (rule subset_trans [OF while_sets(2) d])
  show "set r \<subseteq> set s" unfolding e(3) by (rule subset_trans [OF while_sets(3) subset_trans [OF while_sets(1) d]])
qed

lemma rendered_links: "list_all plain_char s \<Longrightarrow> rendered (replace_links s)"
proof (induction s rule: replace_links.induct)
  case (1 s)
  have tags: "rendered ''<a href=\"''" "rendered ''\">''" "rendered ''</a>''" by (rule rendered_one; simp add: md_tags_def)+
  consider (nil) "s = []" | (none) "s \<noteq> []" "reLink s = None"
    | (link) l t r where "s \<noteq> []" "reLink s = Some (l, t, r)" by (cases "reLink s") auto
  then show ?case
  proof cases
    case nil
    then show ?thesis by (subst replace_links.simps) (simp add: rendered_Nil)
  next
    case none
    with 1 have "rendered (replace_links (tl s))" "plain_char (hd s)" by (cases s; auto)+
    with none show ?thesis by (subst replace_links.simps) (simp add: rendered_char)
  next
    case link
    from reLink_parts [OF link(2)] 1(3) have p: "list_all plain_char l" "list_all plain_char t" "list_all plain_char r"
      by (auto simp: list_all_iff)
    have "rendered (replace_links r)" using 1(2) [OF link refl refl] p(3) by simp
    then have "rendered (''<a href=\"'' @ t @ ''\">'' @ l @ ''</a>'' @ replace_links r)"
      using rendered_plain [OF p(1)] rendered_plain [OF p(2)] by (intro rendering tags)
    with link show ?thesis by (subst replace_links.simps) simp
  qed
qed

lemma reStrong_split: "reStrong s = Some (u, r) \<Longrightarrow> s = [] @ CHR ''*'' # [] @ CHR ''*'' # u @ CHR ''*'' # CHR ''*'' # r"
  by (auto simp: reStrong_def Let_def has_prefix_iff split: if_splits)
    (metis append.assoc append_Cons append_Nil takeWhile_dropWhile_id)

lemma reEm_split: "reEm s = Some (u, r) \<Longrightarrow> s = [] @ CHR ''*'' # u @ CHR ''*'' # r"
proof -
  assume a: "reEm s = Some (u, r)"
  obtain cs where s: "s = CHR ''*'' # cs" using a by (auto simp: reEm_def has_prefix_iff split: if_splits)
  with a have u: "u = takeWhile (\<lambda>c. c \<noteq> CHR ''*'') cs" "dropWhile (\<lambda>c. c \<noteq> CHR ''*'') cs \<noteq> []"
    "r = tl (dropWhile (\<lambda>c. c \<noteq> CHR ''*'') cs)"
    by (auto simp: reEm_def Let_def drop_Suc split: if_splits)
  then have "dropWhile (\<lambda>c. c \<noteq> CHR ''*'') cs = CHR ''*'' # r" using hd_dropWhile [OF u(2)] by (metis list.collapse)
  with s u(1) show ?thesis by (metis append_Nil takeWhile_dropWhile_id)
qed

text \<open>Over a tag the scanners copy.\<close>

lemma replace_strong_skip: "CHR ''*'' \<notin> set t \<Longrightarrow> replace_strong (t @ s) = t @ replace_strong s"
proof (induction t)
  case (Cons c t)
  then have "reStrong (c # t @ s) = None" by (auto simp: reStrong_def has_prefix_iff)
  with Cons show ?case by (subst append_Cons, subst replace_strong.simps) simp
qed simp

lemma replace_em_skip: "CHR ''*'' \<notin> set t \<Longrightarrow> t \<noteq> [] \<Longrightarrow> replace_em b (t @ s) = t @ replace_em True s"
proof (induction t arbitrary: b)
  case (Cons c t)
  then have "reEm (c # t @ s) = None" by (auto simp: reEm_def has_prefix_iff)
  moreover from Cons have "c \<noteq> CHR ''*''" by auto
  ultimately have "replace_em b (c # t @ s) = c # replace_em True (t @ s)" by (subst replace_em.simps) simp
  with Cons show ?case by (cases "t = []") auto
qed simp

lemma rendered_strong: "rendered s \<Longrightarrow> rendered (replace_strong s)"
proof (induction "length s" arbitrary: s rule: less_induct)
  case less
  have tags: "rendered ''<strong>''" "rendered ''</strong>''" by (rule rendered_one; simp add: md_tags_def)+
  from less.prems show ?case
  proof (cases rule: rendered.cases)
    case rendered_Nil
    then show ?thesis by (subst replace_strong.simps) (simp add: rendered.rendered_Nil)
  next
    case (rendered_char c s')
    show ?thesis
    proof (cases "reStrong s")
      case None
      with rendered_char less.hyps [of s'] show ?thesis
        by (subst replace_strong.simps) (simp add: rendered.rendered_char)
    next
      case (Some a)
      then obtain u r where m: "reStrong s = Some (u, r)" by (cases a) auto
      from rendered_split [OF less.prems reStrong_split [OF m]]
      have "rendered ([] @ CHR ''*'' # u @ CHR ''*'' # CHR ''*'' # r)" by simp
      from rendered_split [OF this refl] have "rendered (u @ CHR ''*'' # CHR ''*'' # r)" by simp
      from rendered_split [OF this refl] have u: "rendered u" "rendered ([] @ CHR ''*'' # r)" by simp_all
      from rendered_split [OF u(2) refl] have "rendered r" by simp
      then have "rendered (replace_strong r)" using less.hyps [OF reStrong_shorter [OF m]] by simp
      then have "rendered (''<strong>'' @ u @ ''</strong>'' @ replace_strong r)" using u(1) by (intro rendering tags)
      with m rendered_char show ?thesis by (subst replace_strong.simps) simp
    qed
  next
    case (rendered_tag t s')
    with less.hyps [of s'] tag_not_Nil have "rendered (replace_strong s')" by auto
    with rendered_tag show ?thesis by (simp add: replace_strong_skip tag_no_star rendered.rendered_tag)
  qed
qed

lemma rendered_em: "rendered s \<Longrightarrow> rendered (replace_em b s)"
proof (induction "length s" arbitrary: s b rule: less_induct)
  case less
  have tags: "rendered ''<em>''" "rendered ''</em>''" by (rule rendered_one; simp add: md_tags_def)+
  from less.prems show ?case
  proof (cases rule: rendered.cases)
    case rendered_Nil
    then show ?thesis by (subst replace_em.simps) (simp add: rendered.rendered_Nil)
  next
    case (rendered_char c s')
    show ?thesis
    proof (cases "if b then reEm s else None")
      case None
      with rendered_char less.hyps [of s'] show ?thesis
        by (subst replace_em.simps) (simp add: rendered.rendered_char)
    next
      case (Some a)
      then obtain u r where m: "reEm s = Some (u, r)" "b" by (cases a; cases b) auto
      from rendered_split [OF less.prems reEm_split [OF m(1)]] have "rendered (u @ CHR ''*'' # r)" by simp
      from rendered_split [OF this refl] have u: "rendered u" "rendered r" by simp_all
      then have "rendered (replace_em False r)" using less.hyps [OF reEm_shorter [OF m(1)]] by simp
      then have "rendered (''<em>'' @ u @ ''</em>'' @ replace_em False r)" using u(1) by (intro rendering tags)
      with m rendered_char show ?thesis by (subst replace_em.simps) simp
    qed
  next
    case (rendered_tag t s')
    with less.hyps [of s'] tag_not_Nil have "rendered (replace_em True s')" by auto
    with rendered_tag show ?thesis by (simp add: replace_em_skip tag_no_star tag_not_Nil rendered.rendered_tag)
  qed
qed

lemma rendered_emphasise [rendering]: "rendered (emphasise (EscapeString s))"
  by (simp add: emphasise_def rendered_em rendered_strong rendered_links escape_plain)

lemma rendered_literals [rendering]:
  "rendered ''<code>''" "rendered ''</code>''" "rendered ''<th>''" "rendered ''</th>''" "rendered ''<td>''" "rendered ''</td>''"
  "rendered ''<tr>''" "rendered ''</tr>''" "rendered ''<p>''" "rendered ''</p>''" "rendered ''<li>''" "rendered ''</li>''"
  "rendered ''<hr>''" "rendered ''<tbody>''" "rendered ''</tbody>''" "rendered ''<ol>''" "rendered ''</ol>''" "rendered ''<ul>''"
  "rendered ''</ul>''"
  by (rule rendered_one; simp add: md_tags_def)+

lemma rendered_two: "a \<in> set md_tags \<Longrightarrow> b \<in> set md_tags \<Longrightarrow> rendered (a @ b)"
  by (intro rendering rendered_one)

lemma rendered_pairs [rendering]:
  "rendered ''<thead><tr>''" "rendered ''</tr></thead>''" "rendered ''<div class=\"scroll\"><table>''" "rendered ''</table></div>''"
  "rendered ''<blockquote><p>''" "rendered ''</p></blockquote>''" "rendered ''</code></pre>''"
  using rendered_two [of "''<thead>''" "''<tr>''"] rendered_two [of "''</tr>''" "''</thead>''"]
    rendered_two [of "''<div class=\"scroll\">''" "''<table>''"] rendered_two [of "''</table>''" "''</div>''"]
    rendered_two [of "''<blockquote>''" "''<p>''"] rendered_two [of "''</p>''" "''</blockquote>''"]
    rendered_two [of "''</code>''" "''</pre>''"]
  by (simp_all add: md_tags_def)

lemma rendered_inline [rendering]: "rendered (inline s)"
proof (induction s rule: inline.induct)
  case (1 s)
  show ?case
  proof (cases "first_index (CHR 0x60) s")
    case None
    then show ?thesis by (subst inline.simps) (simp add: rendered_emphasise)
  next
    case (Some i)
    note i = Some
    show ?thesis
    proof (cases "first_index (CHR 0x60) (drop (i + 1) s)")
      case None
      with i show ?thesis by (subst inline.simps) (simp add: rendered_emphasise)
    next
      case (Some n)
      have "rendered (inline (drop (i + n + 2) s))" by (rule 1 [OF i Some])
      then have "rendered (emphasise (EscapeString (take i s)) @ ''<code>'' @ EscapeString (take n (drop (i + 1) s)) @ ''</code>'' @
          inline (drop (i + n + 2) s))"
        by (intro rendering)
      with i Some show ?thesis by (subst inline.simps) simp
    qed
  qed
qed

section \<open>Blocks\<close>

lemma rendered_table [rendering]: "rendered (writeTable rows)"
proof -
  have "rendered (table_head cells)" "rendered (table_row cells)" for cells
    unfolding table_head_def table_row_def by (intro rendering)+
  note parts = this
  show ?thesis unfolding writeTable_def Let_def by (intro rendering parts)
qed

lemma rendered_code [rendering]: "rendered (code_block lang code)"
proof -
  have l: "rendered (''<pre><code class=\"lang-'' @ EscapeString lang @ ''\">'' @ EscapeString (str_join code md_nl) @ ''</code></pre>'' @ md_nl)"
  proof -
    have "rendered ''<pre><code class=\"lang-''" "rendered ''\">''"
      using rendered_two [of "''<pre>''" "''<code class=\"lang-''"] by (simp_all add: md_tags_def rendered_one)
    then show ?thesis by (intro rendering)
  qed
  have n: "rendered (''<pre><code>'' @ EscapeString (str_join code md_nl) @ ''</code></pre>'' @ md_nl)"
  proof -
    have "rendered ''<pre><code>''" using rendered_two [of "''<pre>''" "''<code>''"] by (simp add: md_tags_def)
    then show ?thesis by (intro rendering)
  qed
  show ?thesis using l n by (cases "lang = []") (simp_all add: code_block_def EscapeString_def)
qed

lemma level_digits:
  "digits_of 1 = ''1''" "digits_of 2 = ''2''" "digits_of 3 = ''3''" "digits_of 4 = ''4''" "digits_of 5 = ''5''" "digits_of 6 = ''6''"
  by code_simp+

lemma rendered_heading:
  assumes "reHead s = Some (level, h)"
  shows "rendered (''<h'' @ digits_of level @ ''>'' @ inline h @ ''</h'' @ digits_of level @ ''>'' @ md_nl)"
proof -
  from assms have "level \<in> {1, 2, 3, 4, 5, 6}" by (auto simp: reHead_def Let_def split: if_splits)
  then have t: "''<h'' @ digits_of level @ ''>'' \<in> set md_tags" "''</h'' @ digits_of level @ ''>'' \<in> set md_tags"
    by (auto simp: level_digits [simplified] level_digits md_tags_def)
  have "rendered ((''<h'' @ digits_of level @ ''>'') @ (inline h @ ((''</h'' @ digits_of level @ ''>'') @ md_nl)))"
    by (rule rendered_append [OF rendered_one [OF t(1)]
          rendered_append [OF rendered_inline rendered_append [OF rendered_one [OF t(2)] rendered_nl]]])
  then show ?thesis by simp
qed

lemma emit_out [simp]: "md_out (emit s st) = md_out st @ s"
  by (simp add: emit_def)

lemma flush_rendered [rendering]:
  "rendered (md_out st) \<Longrightarrow> rendered (md_out (flushPara st))"
  "rendered (md_out st) \<Longrightarrow> rendered (md_out (flushList st))"
  "rendered (md_out st) \<Longrightarrow> rendered (md_out (flushQuote st))"
proof -
  assume st: "rendered (md_out st)"
  have p: "rendered (md_out st @ ''<p>'' @ inline (str_join (md_para st) '' '') @ ''</p>'' @ md_nl)"
    "rendered (md_out st @ ''<blockquote><p>'' @ inline (str_join (md_quote st) '' '') @ ''</p></blockquote>'' @ md_nl)"
    "rendered (md_out st @ ''<ol>'' @ md_nl @ concat (map (\<lambda>i. ''<li>'' @ inline i @ ''</li>'' @ md_nl) (md_list st)) @ ''</ol>'' @ md_nl)"
    "rendered (md_out st @ ''<ul>'' @ md_nl @ concat (map (\<lambda>i. ''<li>'' @ inline i @ ''</li>'' @ md_nl) (md_list st)) @ ''</ul>'' @ md_nl)"
    by (intro rendering st)+
  show "rendered (md_out (flushPara st))" using st p(1) by (simp add: flushPara_def)
  show "rendered (md_out (flushQuote st))" using st p(2) by (simp add: flushQuote_def)
  show "rendered (md_out (flushList st))" using st p(3,4) by (auto simp: flushList_def Let_def)
qed

lemma flushAll_rendered [rendering]: "rendered (md_out st) \<Longrightarrow> rendered (md_out (flushAll st))"
  unfolding flushAll_def by (intro rendering)

lemma add_item_rendered: "rendered (md_out st) \<Longrightarrow> rendered (md_out (add_item ordered item st))"
  by (simp add: add_item_def Let_def rendering)

lemma plain_line_rendered: "rendered (md_out st) \<Longrightarrow> rendered (md_out (plain_line line st))"
proof -
  assume st: "rendered (md_out st)"
  have all: "rendered (md_out (flushAll st))" by (intro rendering st)
  have hr: "rendered (md_out (flushAll st) @ ''<hr>'' @ md_nl)" by (intro rendering st)
  show ?thesis
    using st all hr rendered_append [OF all rendered_heading] add_item_rendered [OF st]
    by (auto simp: plain_line_def Let_def rendering split: option.split)
qed

lemma render_lines_rendered: "rendered (md_out st) \<Longrightarrow> rendered (md_out (render_lines lines st))"
proof (induction lines st rule: render_lines.induct)
  case (1 lines st)
  have all: "rendered (md_out (flushAll st))" by (intro rendering "1.prems")
  then have e: "rendered (md_out (emit (code_block l c) (flushAll st)))" "rendered (md_out (emit (writeTable rows) (flushAll st)))" for l c rows
    by (simp_all add: rendered_append rendered_code rendered_table)
  show ?case
  proof (cases lines)
    case Nil
    with "1.prems" show ?thesis by (subst render_lines.simps) simp
  next
    case (Cons line rest)
    show ?thesis
      using Cons 1 e plain_line_rendered [OF "1.prems"] by (subst render_lines.simps) simp
  qed
qed

text \<open>Where an angle bracket or a quote stands, one of the renderer's tags does.\<close>

definition tags_known :: "string \<Rightarrow> bool" where
  "tags_known s \<longleftrightarrow>
     (\<forall>i < length s. s ! i = CHR ''<'' \<longrightarrow> (\<exists>t \<in> set md_tags. has_prefix (drop i s) t))"

lemma tag_first: "list_all (\<lambda>t. list_all (\<lambda>c. c \<noteq> CHR ''<'') (tl t)) md_tags"
  by (simp add: md_tags_def)

lemma rendered_known: "rendered s \<Longrightarrow> tags_known s"
proof (induction rule: rendered.induct)
  case rendered_Nil
  then show ?case by (simp add: tags_known_def)
next
  case (rendered_char c s)
  then show ?case by (auto simp: tags_known_def plain_char_def nth_Cons' less_Suc_eq_0_disj)
next
  case (rendered_tag t s)
  show ?case unfolding tags_known_def
  proof (intro allI impI)
    fix i
    assume i: "i < length (t @ s)" "(t @ s) ! i = CHR ''<''"
    consider "i = 0" | (inside) j where "i = Suc j" "i < length t" | (after) "length t \<le> i" by (cases i) force+
    then show "\<exists>t' \<in> set md_tags. has_prefix (drop i (t @ s)) t'"
    proof cases
      case 1
      with rendered_tag.hyps(1) show ?thesis by (auto simp: has_prefix_iff)
    next
      case inside
      then have "tl t ! j = CHR ''<''" "j < length (tl t)" using i by (simp_all add: nth_append nth_tl)
      with tag_first rendered_tag.hyps(1) show ?thesis by (auto simp: list_all_iff dest: nth_mem)
    next
      case after
      with i rendered_tag.IH show ?thesis by (auto simp: tags_known_def nth_append)
    qed
  qed
qed

text \<open>
  C34. Rendering Markdown lets nothing through. Whatever the source says, the page is made of the renderer's
  own tags and of characters that are neither angle brackets nor quotes, and each opening angle bracket in it
  starts one of those tags: an article cannot bring in an element of its own, such as a script.
\<close>

theorem markdown_is_escaped: "rendered (renderMarkdown src) \<and> tags_known (renderMarkdown src)"
proof -
  have "rendered (renderMarkdown src)"
    unfolding renderMarkdown_def by (intro rendering render_lines_rendered) (simp add: rendered_Nil)
  then show ?thesis using rendered_known by blast
qed

section \<open>Links with stars\<close>

text \<open>
  Links are replaced before emphasis, so that a pair of stars in a target is taken for emphasis and its tags
  end up inside the attribute.
\<close>

lemma starred_links_break:
  "inline ''[a](x*b*c)'' = ''<a href=\"x<em>b</em>c\">a</a>''"
  by code_simp

end
