(* ===== verification/BlogFacts.thy ===== *)
theory BlogFacts
  imports Blog MarkdownFacts
begin

text \<open>
  What the blog publishes: every file of the directory, newest first, each with a title, a date of the
  calendar and a body in which only the renderer's tags are markup. A broken post fails the build.
\<close>

section \<open>Dates\<close>

lemma parse_date_calendar: "parse_date s = Some d \<Longrightarrow> calendar_date d"
  by (auto simp: parse_date_def Let_def split: if_splits)

lemma parse_iso: "calendar_date d \<Longrightarrow> post_Date p = d \<Longrightarrow> parse_date (ISO p) = Some d"
proof -
  assume d: "calendar_date d" "post_Date p = d"
  define y m k where "y = zero_padded 4 (date_Year d)" and "m = zero_padded 2 (date_Month d)" and "k = zero_padded 2 (date_Day d)"
  have b: "date_Year d < 10 ^ 4" "date_Month d < 10\<^sup>2" "date_Day d < 10\<^sup>2"
    using d(1) days_in_le [of "date_Month d" "date_Year d"] by (simp_all add: calendar_date_def)
  have y: "length y = 4" "list_all is_digit y" "decimal y = date_Year d"
    and m: "length m = 2" "list_all is_digit m" "decimal m = date_Month d"
    and k: "length k = 2" "list_all is_digit k" "decimal k = date_Day d"
    unfolding y_def m_def k_def using zero_padded_props [OF b(1)] zero_padded_props [OF b(2)] zero_padded_props [OF b(3)] by auto
  have iso: "ISO p = y @ CHR ''-'' # m @ CHR ''-'' # k" by (simp add: ISO_def d(2) y_def m_def k_def)
  have t: "take 4 (ISO p) = y" "ISO p ! 4 = CHR ''-''" "take 2 (drop 5 (ISO p)) = m" "ISO p ! 7 = CHR ''-''"
    "drop 8 (ISO p) = k" "take 2 (drop 8 (ISO p)) = k" "length (ISO p) = 10"
    unfolding iso using y(1) m(1) k(1) by (simp_all add: nth_append)
  have e: "\<lparr>date_Year = date_Year d, date_Month = date_Month d, date_Day = date_Day d\<rparr> = d" by simp
  have k2: "take 2 k = k" using k(1) by simp
  show ?thesis unfolding parse_date_def t Let_def k2 y m k e using d(1) y(2) m(2) k(2) by simp
qed

text \<open>The reading time is the number of words over 220, rounded up, and at least a minute.\<close>

lemma ReadingTime_rounds_up:
  "1 \<le> ReadingTime p \<and> post_Words p \<le> 220 * ReadingTime p \<and> (ReadingTime p = 1 \<or> 220 * (ReadingTime p - 1) < post_Words p)"
proof -
  let ?m = "(post_Words p + 219) div 220"
  have "220 * ?m \<le> post_Words p + 219" "post_Words p + 219 < 220 * ?m + 220" by linarith+
  then show ?thesis by (cases "?m < 1") (auto simp: ReadingTime_def Let_def)
qed

section \<open>Posts\<close>

lemma readPost_complete:
  assumes "readPost rf path = Inr p"
  shows "post_Title p \<noteq> []" "post_Date p \<noteq> zero_date" "calendar_date (post_Date p)" "rendered (post_Body p)"
proof -
  obtain front body q where q: "dated front (post_of front path body) = Inr q" "checked_post q = Inr p"
    using assms by (auto simp: readPost_def split: sum.splits)
  have body: "post_Body (post_of front path body) = renderMarkdown body" "post_Date (post_of front path body) = zero_date"
    by (simp_all add: post_of_def Let_def)
  have "rendered (renderMarkdown body)"
    unfolding renderMarkdown_def by (intro rendering render_lines_rendered) (simp add: rendered_Nil)
  with q(1) body have d: "rendered (post_Body q)" "post_Date q = zero_date \<or> calendar_date (post_Date q)"
    by (auto simp: dated_def dest: parse_date_calendar split: option.splits)
  from q(2) have p: "p = q" "post_Title q \<noteq> []" "post_Date q \<noteq> zero_date"
    by (simp_all add: checked_post_def split: if_splits)
  show "post_Title p \<noteq> []" "post_Date p \<noteq> zero_date" "calendar_date (post_Date p)" "rendered (post_Body p)"
    using d p by simp_all
qed

lemma read_posts_map: "read_posts rf names = Inr ps \<longleftrightarrow> map (readPost rf) names = map Inr ps"
proof (induction names arbitrary: ps)
  case (Cons name names)
  show ?case
  proof (cases ps)
    case Nil
    then show ?thesis by (simp split: sum.splits)
  next
    case (Cons p qs)
    then show ?thesis
      using Cons.IH [of qs] by (cases "readPost rf name"; cases "read_posts rf names") auto
  qed
qed auto

definition complete_post :: "post \<Rightarrow> bool" where
  "complete_post p \<longleftrightarrow>
     post_Title p \<noteq> [] \<and> post_Date p \<noteq> zero_date \<and> parse_date (ISO p) = Some (post_Date p) \<and>
     rendered (post_Body p) \<and> tags_known (post_Body p)"

text \<open>
  The blog publishes what is in its directory. If the posts load at all, there is one for each file, none
  is dropped or doubled, they stand newest first, and each is complete: it has a title and a date other than
  the zero date, the date it shows to machines reads back as its date, and its body holds no markup but the
  renderer's.
\<close>

theorem published_posts:
  assumes "loadPosts Glob rf dir = Inr posts"
  shows "\<exists>names. Glob (path_Join dir ''*.md'') = Inr names \<and> mset (map (readPost rf) names) = mset (map Inr posts) \<and>
    sorted_wrt (\<lambda>a b. \<not> date_After (post_Date b) (post_Date a)) posts \<and> list_all complete_post posts"
proof -
  from assms obtain names ps where n: "Glob (path_Join dir ''*.md'') = Inr names" "map (readPost rf) names = map Inr ps"
    "posts = stable_sort posts_before ps"
    by (auto simp: loadPosts_def read_posts_map split: sum.splits)
  have m: "mset posts = mset ps" unfolding n(3) by (rule blog.mset_sort)
  have "sorted_wrt (\<lambda>a b. \<not> posts_before b a) posts" unfolding n(3) by (rule blog.sorted_sort)
  then have s: "sorted_wrt (\<lambda>a b. \<not> date_After (post_Date b) (post_Date a)) posts"
    by (rule sorted_wrt_mono_rel [rotated]) (simp add: posts_before_iff)
  have c: "complete_post p" if "p \<in> set posts" for p
  proof -
    have "Inr p \<in> set (map (readPost rf) names)" using that m n(2) by (metis image_eqI set_map set_mset_mset)
    then obtain name where "readPost rf name = Inr p" by auto
    from readPost_complete [OF this] show ?thesis
      using parse_iso [OF _ refl] rendered_known by (simp add: complete_post_def)
  qed
  have "mset (map (readPost rf) names) = mset (map Inr posts)" unfolding n(2) using m by simp
  with n(1) s c show ?thesis unfolding list_all_iff by blast
qed

definition sample_post :: string where
  "sample_post = ''---'' @ md_nl @ ''title: Hello'' @ md_nl @ ''date: 2026-07-31'' @ md_nl @ ''---'' @ md_nl @ md_nl @ ''B''"

definition sample_file :: "string \<Rightarrow> string + string" where
  "sample_file name = (if name = ''blog/hello.md'' then Inr sample_post else Inl ''missing'')"

lemma sample_reads:
  "case readPost sample_file ''blog/hello.md'' of
     Inr p \<Rightarrow> post_Title p = ''Hello'' \<and> post_Slug p = ''hello'' | Inl _ \<Rightarrow> False"
  by code_simp

theorem published_posts_witness:
  "\<exists>posts. loadPosts (\<lambda>_. Inr [''blog/hello.md'']) sample_file ''blog'' = Inr posts \<and> map post_Title posts = [''Hello''] \<and>
     list_all complete_post posts"
proof -
  obtain p where p: "readPost sample_file ''blog/hello.md'' = Inr p" "post_Title p = ''Hello''"
    using sample_reads by (cases "readPost sample_file ''blog/hello.md''") auto
  then have l: "loadPosts (\<lambda>_. Inr [''blog/hello.md'']) sample_file ''blog'' = Inr [p]"
    by (simp add: loadPosts_def stable_sort_def)
  from published_posts [OF this] l p(2) show ?thesis by auto
qed

end
