(* ===== verification/SiteFacts.thy ===== *)
theory SiteFacts
  imports Site BoardFacts BlogFacts JsonSafe
begin

text \<open>
  What the generator of the web site promises: the presets of the playground cannot leave the script they are
  embedded in, and a build writes its own pages only.
\<close>

section \<open>Presets\<close>

lemma presets_finite: "finite_floats (presets_json presets)"
proof (cases presets)
  case (Some m)
  have "members_finite (map (\<lambda>(name, p). (name, GObj [(''manifest'', GStr (ps_Manifest p)), (''events'', GStr (ps_Events p))])) m)"
    by (induction m) auto
  with Some show ?thesis by (simp add: presets_json_def)
qed (simp add: presets_json_def)

text \<open>
  Nothing in a preset can close the script element the presets are embedded in. Whatever the manifests
  and the benchmarks of the catalog contain, the text the generator puts between its own opening and closing
  tags holds no angle bracket and no ampersand, and the page is always generated.
\<close>

theorem presets_stay_in_their_script:
  "\<exists>encoded. json_marshal (presets_json presets) = Some encoded \<and> no_markup encoded \<and>
     playground_body env presets = Some (se_playground env @ presets_script encoded)"
proof -
  obtain encoded where e: "json_marshal (presets_json presets) = Some encoded"
    using presets_finite json_marshal_None(1) by (cases "json_marshal (presets_json presets)") blast+
  then show ?thesis using no_markup_marshal(1) [OF e] by (simp add: playground_body_def)
qed

section \<open>Written files\<close>

definition changed :: "catalog_disk \<Rightarrow> catalog_disk \<Rightarrow> string set" where
  "changed d d1 = {p. cd_files d1 p \<noteq> cd_files d p}"

lemma changed_refl [simp]: "changed d d = {}"
  by (simp add: changed_def)

lemma changed_trans: "changed d d1 \<subseteq> A \<Longrightarrow> changed d1 d2 \<subseteq> A \<Longrightarrow> changed d d2 \<subseteq> A"
proof (rule subsetI)
  fix p
  assume a: "changed d d1 \<subseteq> A" "changed d1 d2 \<subseteq> A" "p \<in> changed d d2"
  then have "p \<in> changed d d1 \<or> p \<in> changed d1 d2" by (cases "cd_files d1 p = cd_files d p") (simp_all add: changed_def)
  with a show "p \<in> A" by blast
qed

definition writes_in :: "string set \<Rightarrow> disk_op \<Rightarrow> bool" where
  "writes_in A f \<longleftrightarrow> (\<forall>d. changed d (snd (f d)) \<subseteq> A)"

lemma writes_in_fail: "writes_in A (op_fail err)"
  by (simp add: writes_in_def op_fail_def)

lemma writes_in_then: "writes_in A f \<Longrightarrow> writes_in A g \<Longrightarrow> writes_in A (op_then f g)"
  unfolding writes_in_def
proof
  fix d
  assume w: "\<forall>d. changed d (snd (f d)) \<subseteq> A" "\<forall>d. changed d (snd (g d)) \<subseteq> A"
  obtain r d1 where f: "f d = (r, d1)" by force
  then have d1: "changed d d1 \<subseteq> A" using w(1) [rule_format, of d] by simp
  show "changed d (snd (op_then f g d)) \<subseteq> A"
    using d1 changed_trans [OF d1 w(2) [rule_format]] by (cases r) (simp_all add: op_then_def f)
qed

lemma writes_in_render: "path_Join (site_out s) path \<in> A \<Longrightarrow> writes_in A (site_render env s path p)"
  by (auto simp: writes_in_def site_render_def Let_def op_fail_def cd_WriteFile_def changed_def
      split: sum.split option.split if_splits)

definition fixed_pages :: "string set" where
  "fixed_pages = {''index.html'', ''leaderboard/index.html'', ''blog/index.html'', ''playground/index.html''}"

lemma fixed_pages_simps:
  "''index.html'' \<in> fixed_pages" "''leaderboard/index.html'' \<in> fixed_pages" "''blog/index.html'' \<in> fixed_pages"
  "''playground/index.html'' \<in> fixed_pages"
  unfolding fixed_pages_def by (rule insertI1 insertI2)+

definition site_pages :: "site \<Rightarrow> post list \<Rightarrow> string set" where
  "site_pages s posts =
     path_Join (site_out s) ` (fixed_pages \<union> post_path ` set posts)"

lemma site_pages_writes:
  "writes_in (site_pages s posts) (writeHome env s board)"
  "writes_in (site_pages s posts) (writeBoard env s board)"
  "writes_in (site_pages s posts) (writePlayground env s presets)"
  "p \<in> set posts \<Longrightarrow> writes_in (site_pages s posts) (writePost env s p)"
proof -
  have w: "writes_in (site_pages s posts) (site_render env s f q)" if "f \<in> fixed_pages \<union> post_path ` set posts" for f q
    by (rule writes_in_render) (use that in \<open>unfold site_pages_def, blast\<close>)
  have fixed: "writes_in (site_pages s posts) (site_render env s f q)" if "f \<in> fixed_pages" for f q
    using that by (intro w) blast
  note pages = fixed_pages_simps [THEN fixed]
  show "writes_in (site_pages s posts) (writeHome env s board)"
    using pages(1) unfolding writes_in_def writeHome_def Let_def by blast
  show "writes_in (site_pages s posts) (writeBoard env s board)"
    by (simp only: writeBoard_def split: sum.split) (simp add: writes_in_fail pages(2))
  show "writes_in (site_pages s posts) (writePlayground env s presets)"
    by (simp only: writePlayground_def split: option.split) (simp add: writes_in_fail pages(4))
  show "p \<in> set posts \<Longrightarrow> writes_in (site_pages s posts) (writePost env s p)"
    by (simp only: writePost_def split: sum.split) (simp add: writes_in_fail w)
qed

lemma write_posts_writes:
  "(\<And>p. p \<in> set ps \<Longrightarrow> writes_in A (writePost env s p)) \<Longrightarrow> writes_in A (write_posts env s ps)"
proof (induction ps)
  case Nil
  then show ?case by (simp add: writes_in_def)
next
  case (Cons p ps)
  have "write_posts env s (p # ps) = op_then (writePost env s p) (write_posts env s ps)" by (rule ext) simp
  with Cons show ?case by (simp add: writes_in_then)
qed

lemma writeBlog_writes: "writes_in (site_pages s posts) (writeBlog env s posts)"
proof -
  have "path_Join (site_out s) ''blog/index.html'' \<in> site_pages s posts"
    unfolding site_pages_def using fixed_pages_simps(3) by blast
  then show ?thesis
    by (auto simp: writeBlog_def writes_in_fail intro!: writes_in_then writes_in_render write_posts_writes site_pages_writes(4)
        split: sum.split)
qed

text \<open>
  A build writes its own pages only. Whatever is read and wherever it fails, the files that differ
  afterwards are the four fixed pages and one page for each post, below the output directory as the paths are
  joined; and when the posts do not load, because one of them is broken, nothing is written at all.
\<close>

theorem a_build_writes_its_pages:
  "changed d (snd (site_run env d)) \<subseteq>
     (case loadPosts (se_Glob env d) (\<lambda>p. cd_ReadFile p d) ''blog'' of
        Inl _ \<Rightarrow> {}
      | Inr posts \<Rightarrow> site_pages (site_of env) posts)"
proof -
  let ?read = "\<lambda>p. cd_ReadFile p d" and ?s = "site_of env"
  show ?thesis
  proof (cases "loadBoard ?read (se_catalog env) ''demo-output/bench.txt'' ''catalog/index.json''")
    case (Inl err)
    then show ?thesis by (simp add: site_run_def)
  next
    case (Inr board)
    show ?thesis
    proof (cases "loadPosts (se_Glob env d) ?read ''blog''")
      case (Inl err)
      with Inr show ?thesis by (simp add: site_run_def)
    next
      case (Inr posts)
      let ?last = "\<lambda>d1. case loadPresets env ''catalog'' d1 of
          Inl err \<Rightarrow> (Some err, d1) | Inr presets \<Rightarrow> writePlayground env ?s presets d1"
      have "writes_in (site_pages ?s posts) ?last"
        using site_pages_writes(3) unfolding writes_in_def by (auto split: sum.split)
      then have "writes_in (site_pages ?s posts)
          (op_then (writeHome env ?s board) (op_then (writeBoard env ?s board) (op_then (writeBlog env ?s posts) ?last)))"
        by (intro writes_in_then site_pages_writes writeBlog_writes)
      then show ?thesis
        using Inr \<open>loadBoard ?read _ _ _ = Inr board\<close> by (simp add: site_run_def Let_def writes_in_def)
    qed
  qed
qed

text \<open>
  A slug comes from the front matter and is joined as it is, so that dots in it lead out of the directory.
\<close>

lemma slugs_can_climb: "path_Join ''site'' (post_path (p\<lparr>post_Slug := ''../../x''\<rparr>)) = ''x/index.html''"
proof -
  have "path_Join ''site'' (path_Join (path_Join ''blog'' ''../../x'') ''index.html'') = ''x/index.html''" by code_simp
  then show ?thesis by (simp add: post_path_def)
qed

end
