(* ===== verification/Demo.thy ===== *)
theory Demo
  imports Registry Metrics Resume
begin

text \<open>
  What the demonstrations (\<open>examples\<close>) share: the shape of a leaf in their manifests, the type assertions on a
  context, the formats of their output, and how each reads, loads and registers its manifest.
\<close>

text \<open>A leaf of a manifest that declares nothing beside its action; \<open>ctx[k].(string)\<close>, \<open>ctx[k].(bool)\<close>
  and \<open>ctx[k].(float64)\<close>, the zero value for anything else.\<close>

definition json_leaf :: "string \<Rightarrow> string \<Rightarrow> ctx \<Rightarrow> step_spec" where
  "json_leaf sid action params =
     \<lparr>sspec_StepID = sid, sspec_Type = ''leaf'', sspec_ActionRef = action, sspec_With = params,
      sspec_SandboxProbeRef = [], sspec_CircuitBreakerPolicyRef = [], sspec_OnSuccess = [],
      sspec_SubWorkflowRef = [], sspec_Branches = [], sspec_CompensateWith = []\<rparr>"

definition ctx_str :: "ctx \<Rightarrow> string \<Rightarrow> string" where
  "ctx_str c k = (case map_of c k of Some (GStr s) \<Rightarrow> s | _ \<Rightarrow> [])"

definition ctx_bool :: "ctx \<Rightarrow> string \<Rightarrow> bool" where
  "ctx_bool c k \<longleftrightarrow> map_of c k = Some (GBool True)"

definition ctx_float :: "ctx \<Rightarrow> string \<Rightarrow> float64" where
  "ctx_float c k = (case map_of c k of Some (GFloat x) \<Rightarrow> x | _ \<Rightarrow> Fin 0)"

text \<open>\<open>%.pf\<close>: \<open>p\<close> decimals, \<open>p\<close> positive, the nearest, half to even.\<close>

fun fmt_fixed :: "nat \<Rightarrow> float64 \<Rightarrow> string" where
  "fmt_fixed p NaN = ''NaN''"
| "fmt_fixed p (Inf neg) = (if neg then ''-Inf'' else ''+Inf'')"
| "fmt_fixed p (Fin q) =
     (let n = nat (round_rat (\<bar>q\<bar> * 10 ^ p)); ds = digits_of (n mod 10 ^ p) in
      (if q < 0 then ''-'' else []) @ digits_of (n div 10 ^ p) @ ''.'' @ replicate (p - length ds) (CHR ''0'') @ ds)"

text \<open>What a program prints until it ends.\<close>

definition print_then :: "string list \<Rightarrow> (string list returned \<times> 'r) \<Rightarrow> string list returned \<times> 'r" where
  "print_then ls r = (case r of (Returns ls', rt) \<Rightarrow> (Returns (ls @ ls'), rt) | (Panicked p, rt) \<Rightarrow> (Panicked p, rt))"

text \<open>The registered router and engine of an example: its file is read, decoded, loaded and registered.\<close>

definition example_runtime :: "string \<Rightarrow> (string \<Rightarrow> string + string) \<Rightarrow> (string \<Rightarrow> string + manifest_file) \<Rightarrow> 'w hooks \<Rightarrow> float64 \<Rightarrow>
    ('w, 's) engine \<Rightarrow> (string, 'w router \<times> ('w, 's) engine) res" where
  "example_runtime path read_file dec hooks threshold e =
     (case read_file path of
        Inl err \<Rightarrow> Err (''reading '' @ path @ '': '' @ err)
      | Inr data \<Rightarrow>
          (case Load (dec data) hooks Default of
             Err err \<Rightarrow> Err (''loading manifest: '' @ err)
           | Panic p \<Rightarrow> Panic p
           | Ok d \<Rightarrow> (let r = RegisterDomain d (NewRegistry (NewRouter threshold) e) in Ok (reg_router r, reg_engine r))))"

end
