(* ===== verification/Walks.thy ===== *)
theory Walks
  imports Demo EngineFacts MetricsFacts Store
begin

text \<open>
  Walking a literal manifest: rules that load it, register it and take its steps one by one. One rule per way
  a leaf can end, each for an engine without an observer, so that a run is a chain of them.
\<close>

named_theorems load_eval

lemmas [load_eval] = Load_def load_file_def load_workflow_def buildStep_def resolveAction_def Default_def
  RegisterDomain_def NewRegistry_def requireFactory_def ruleCheckFactory_def suspendFactory_def requireVerifiedFactory_def
  setFactory_def comparisonParams_def nonempty_param_def validOps_def Let_def load_policy_def load_intent_def
  conflictingEntry_def entryWorkflow_def NewEngine_def RegisterWorkflow_def RegisterPolicy_def claim_workflow_def

lemma observe_none: "eng_observer e = None \<Longrightarrow> observe e ev rt = rt"
  by (simp add: observe_def)

lemma walk_next:
  assumes "sid \<noteq> []" and "wf_Steps flow sid = Some s" and "steps + 1 \<le> eng_maxSteps e" and "step_ID s = name"
    and "exec_step sub h e flow depth s \<lparr>cur_step = sid, cur_ctx = c, cur_done = dn, cur_trace = t @ [name]\<rparr> rt = (Next cur', rt')"
  shows "run_loop sub h e flow ref depth steps \<lparr>cur_step = sid, cur_ctx = c, cur_done = dn, cur_trace = t\<rparr> rt =
    run_loop sub h e flow ref depth (steps + 1) cur' rt'"
  using assms by (subst run_loop.simps) simp

lemma walk_halt:
  assumes "sid \<noteq> []" and "wf_Steps flow sid = Some s" and "steps + 1 \<le> eng_maxSteps e" and "step_ID s = name"
    and "exec_step sub h e flow depth s \<lparr>cur_step = sid, cur_ctx = c, cur_done = dn, cur_trace = t @ [name]\<rparr> rt = (Halt r, rt')"
  shows "run_loop sub h e flow ref depth steps \<lparr>cur_step = sid, cur_ctx = c, cur_done = dn, cur_trace = t\<rparr> rt = (r, rt')"
  using assms by (subst run_loop.simps) simp

lemma walk_end:
  "run_loop sub h e flow ref depth steps \<lparr>cur_step = [], cur_ctx = c, cur_done = dn, cur_trace = t\<rparr> rt =
     (Ok \<lparr>wr_Output = c, wr_StatePointer = [], wr_Trace = t\<rparr>, rt)"
  by (subst run_loop.simps) simp

lemma Run_flow:
  "eng_workflows e ref = Some flow \<Longrightarrow> 0 \<le> eng_maxDepth e \<Longrightarrow>
   Run h e ref c rt = run_loop (\<lambda>ref c' rt'. runFrom h e 1 ref [] c' rt') h e flow ref 0 0
     \<lparr>cur_step = wf_EntryStepID flow, cur_ctx = c, cur_done = [], cur_trace = []\<rparr> rt"
  by (simp add: Run_def run_at_def runFrom.simps [of h e 0] start_cursor_def)

section \<open>One leaf\<close>

lemma action_output:
  assumes "eng_observer e = None" and "leaf_Run s c (rt_world rt) = (Output out, w)" and "leaf_CompensateStepRef s = []"
  shows "run_action h e flow s depth \<lparr>cur_step = sid, cur_ctx = c, cur_done = dn, cur_trace = t\<rparr> rt =
    (Next \<lparr>cur_step = leaf_OnSuccess s, cur_ctx = gmerge c out, cur_done = dn, cur_trace = t\<rparr>, rt\<lparr>rt_world := w\<rparr>)"
  using assms by (simp add: run_action_def observe_none Let_def)

lemma divert_fallback:
  assumes "eng_observer e = None" and "circuitBreakerPolicyRef s \<noteq> []"
    and "eng_policies e (circuitBreakerPolicyRef s) = Some \<lparr>pol_PolicyID = pid, pol_FallbackStepRef = f\<rparr>" and "f \<noteq> []"
  shows "divert e flow s reason \<lparr>cur_step = sid, cur_ctx = c, cur_done = dn, cur_trace = t\<rparr> rt =
    (Next \<lparr>cur_step = f, cur_ctx = gmerge c [(FailureReasonKey, GStr reason), (FailedStepKey, GStr (step_ID s))],
           cur_done = dn, cur_trace = t\<rparr>, rt)"
  using assms by (simp add: divert_def onFailure_def observe_none Let_def)

lemma divert_abandon:
  assumes "eng_observer e = None" and "circuitBreakerPolicyRef s = [] \<or> eng_policies e (circuitBreakerPolicyRef s) = None"
  shows "divert e flow s reason \<lparr>cur_step = sid, cur_ctx = c, cur_done = [], cur_trace = t\<rparr> rt =
    (Halt (Err (CircuitBreakerTripped (step_ID s) reason [] [])), rt)"
  using assms by (auto simp: divert_def onFailure_def observe_none abandon_def Let_def)

lemma leaf_unprobed: "leaf_SandboxProbeRef s = [] \<Longrightarrow> exec_leaf h e flow s depth cur rt = run_action h e flow s depth cur rt"
  by (simp add: exec_leaf_def)

lemma leaf_probed:
  assumes "eng_observer e = None" and "leaf_SandboxProbeRef s \<noteq> []" and "eng_sandbox e = Some sb"
    and "sb \<lparr>preq_ProbeRef = leaf_SandboxProbeRef s, preq_DomainID = wf_DomainID flow, preq_StepContext = cur_ctx cur\<rparr> (rt_world rt) = (answer, w)"
  shows "exec_leaf h e flow s depth cur rt =
    (if fst (probe_verdict answer) then run_action h e flow s depth cur (rt\<lparr>rt_world := w\<rparr>)
     else divert e flow (LeafStep s) (snd (probe_verdict answer)) cur (rt\<lparr>rt_world := w\<rparr>))"
  using assms by (simp add: exec_leaf_def observe_none Let_def split: prod.split)

section \<open>Whatever the world and the log\<close>

text \<open>
  Where actions and probes read the context alone, what a run returns does not depend on the world, the store
  or the observers, and the rules speak of the first component only.
\<close>

lemma fst_walk_next:
  assumes "sid \<noteq> []" and "wf_Steps flow sid = Some s" and "steps + 1 \<le> eng_maxSteps e" and "step_ID s = name"
    and "fst (exec_step sub h e flow depth s \<lparr>cur_step = sid, cur_ctx = c, cur_done = dn, cur_trace = t @ [name]\<rparr> rt) = Next cur'"
    and "\<And>rt'. P (fst (run_loop sub h e flow ref depth (steps + 1) cur' rt'))"
  shows "P (fst (run_loop sub h e flow ref depth steps \<lparr>cur_step = sid, cur_ctx = c, cur_done = dn, cur_trace = t\<rparr> rt))"
  using assms by (subst run_loop.simps) (simp add: split_beta)

lemma fst_walk_halt:
  assumes "sid \<noteq> []" and "wf_Steps flow sid = Some s" and "steps + 1 \<le> eng_maxSteps e" and "step_ID s = name"
    and "fst (exec_step sub h e flow depth s \<lparr>cur_step = sid, cur_ctx = c, cur_done = dn, cur_trace = t @ [name]\<rparr> rt) = Halt r"
  shows "fst (run_loop sub h e flow ref depth steps \<lparr>cur_step = sid, cur_ctx = c, cur_done = dn, cur_trace = t\<rparr> rt) = r"
  using assms by (subst run_loop.simps) (simp add: split_beta)

lemma fst_divert_fallback:
  assumes "circuitBreakerPolicyRef s \<noteq> []"
    and "eng_policies e (circuitBreakerPolicyRef s) = Some \<lparr>pol_PolicyID = pid, pol_FallbackStepRef = f\<rparr>" and "f \<noteq> []"
  shows "fst (divert e flow s reason \<lparr>cur_step = sid, cur_ctx = c, cur_done = dn, cur_trace = t\<rparr> rt) =
    Next \<lparr>cur_step = f, cur_ctx = gmerge c [(FailureReasonKey, GStr reason), (FailedStepKey, GStr (step_ID s))],
          cur_done = dn, cur_trace = t\<rparr>"
  using assms by (simp add: divert_def onFailure_def Let_def)

lemma fst_divert_abandon:
  assumes "circuitBreakerPolicyRef s = [] \<or> eng_policies e (circuitBreakerPolicyRef s) = None"
  shows "fst (divert e flow s reason \<lparr>cur_step = sid, cur_ctx = c, cur_done = [], cur_trace = t\<rparr> rt) =
    Halt (Err (CircuitBreakerTripped (step_ID s) reason [] []))"
  using assms by (auto simp: divert_def onFailure_def abandon_def Let_def)

lemma fst_action_output:
  assumes "\<And>w. leaf_Run s c w = (Output out, w)" and "leaf_CompensateStepRef s = []"
  shows "fst (run_action h e flow s depth \<lparr>cur_step = sid, cur_ctx = c, cur_done = dn, cur_trace = t\<rparr> rt) =
    Next \<lparr>cur_step = leaf_OnSuccess s, cur_ctx = gmerge c out, cur_done = dn, cur_trace = t\<rparr>"
  using assms by (simp add: run_action_def Let_def)

lemma fst_action_fails:
  assumes "\<And>w. leaf_Run s c w = (Fails msg, w)" and "\<And>rt'. fst (divert e flow (LeafStep s) msg
      \<lparr>cur_step = sid, cur_ctx = c, cur_done = dn, cur_trace = t\<rparr> rt') = p"
  shows "fst (run_action h e flow s depth \<lparr>cur_step = sid, cur_ctx = c, cur_done = dn, cur_trace = t\<rparr> rt) = p"
  using assms by (simp add: run_action_def Let_def)

lemma fst_leaf_healthy:
  assumes "leaf_SandboxProbeRef s \<noteq> []" and "eng_sandbox e = Some sb"
    and "\<And>w. sb \<lparr>preq_ProbeRef = leaf_SandboxProbeRef s, preq_DomainID = wf_DomainID flow, preq_StepContext = cur_ctx cur\<rparr> w =
      ((\<lparr>pres_Healthy = True, pres_DetectedFailureMode = mode\<rparr>, None), w)"
    and "\<And>rt'. fst (run_action h e flow s depth cur rt') = p"
  shows "fst (exec_leaf h e flow s depth cur rt) = p"
  using assms by (simp add: exec_leaf_def probe_verdict_def Let_def)

lemma fst_leaf_refused:
  assumes "leaf_SandboxProbeRef s \<noteq> []" and "eng_sandbox e = Some sb"
    and "\<And>w. sb \<lparr>preq_ProbeRef = leaf_SandboxProbeRef s, preq_DomainID = wf_DomainID flow, preq_StepContext = cur_ctx cur\<rparr> w =
      ((\<lparr>pres_Healthy = False, pres_DetectedFailureMode = mode\<rparr>, None), w)"
    and "\<And>rt'. fst (divert e flow (LeafStep s) mode cur rt') = p"
  shows "fst (exec_leaf h e flow s depth cur rt) = p"
  using assms by (simp add: exec_leaf_def probe_verdict_def Let_def)

section \<open>Leaves as they load\<close>

text \<open>What a leaf without compensation loads to, and the standard actions with their parameters read.\<close>

definition plain_leaf :: "string \<Rightarrow> 'w action \<Rightarrow> string \<Rightarrow> string \<Rightarrow> string \<Rightarrow> 'w leaf_step" where
  "plain_leaf sid act probe policy next =
     \<lparr>leaf_StepID = sid, leaf_Run = act, leaf_SandboxProbeRef = probe, leaf_CircuitBreakerPolicyRef = policy,
      leaf_OnSuccess = next, leaf_CompensateStepRef = []\<rparr>"

definition require_action :: "string \<Rightarrow> string \<Rightarrow> gval \<Rightarrow> 'w action" where
  "require_action fld op want c w =
     (case compare (ctx_get c fld) op want of
        Ok True \<Rightarrow> Output []
      | Ok False \<Rightarrow> Fails (requirement_not_met fld (ctx_get c fld) op want)
      | Err err \<Rightarrow> Fails err
      | Panic p \<Rightarrow> Panics p, w)"

definition verified_action :: "string list \<Rightarrow> 'w action" where
  "verified_action names c w =
     (let guessed = filter (\<lambda>f. f \<in> set (provenanceOf c)) names in
      if guessed \<noteq> [] then
        Fails (''refusing to act on model-derived '' @ str_join guessed '', '' @
               '': extracted values are not verified facts'')
      else Output [], w)"

definition set_action :: "ctx \<Rightarrow> 'w action" where
  "set_action given c w = (Output (gmerge [] given), w)"

lemma require_factory: "fld \<noteq> [] \<Longrightarrow> op \<in> set validOps \<Longrightarrow>
   requireFactory [(''field'', GStr fld), (''op'', GStr op), (''value'', v)] = Inr (require_action fld op v)"
  by (auto simp: requireFactory_def comparisonParams_def nonempty_param_def require_action_def fun_eq_iff)

lemma verified_factory: "requireVerifiedFactory [(''fields'', GArr [GStr (a # s)])] = Inr (verified_action [a # s])"
  by (auto simp: requireVerifiedFactory_def verified_action_def fun_eq_iff Let_def)

lemma set_factory: "setFactory [(''fields'', GObj given)] = Inr (set_action given)"
  by (auto simp: setFactory_def set_action_def fun_eq_iff)

lemmas literal_load = Load_def load_file_def load_workflow_def buildStep_def resolveAction_def Default_def load_policy_def
  load_intent_def conflictingEntry_def entryWorkflow_def json_leaf_def plain_leaf_def require_factory verified_factory
  set_factory validOps_def Let_def

text \<open>The ways through a leaf, each from the step it is at to a property of what the rest of the run returns.\<close>

lemma go_output:
  assumes "wf_Steps flow sid = Some (LeafStep (plain_leaf sid act [] pol next))" and "sid \<noteq> []" and "n + 1 \<le> eng_maxSteps e"
    and "\<And>w. act c w = (Output out, w)"
    and "\<And>rt'. P (fst (run_loop sub h e flow ref d (n + 1) \<lparr>cur_step = next, cur_ctx = gmerge c out, cur_done = dn, cur_trace = t @ [sid]\<rparr> rt'))"
  shows "P (fst (run_loop sub h e flow ref d n \<lparr>cur_step = sid, cur_ctx = c, cur_done = dn, cur_trace = t\<rparr> rt))"
  by (rule fst_walk_next [OF assms(2,1,3)])
    (use assms(4,5) in \<open>simp_all add: plain_leaf_def leaf_unprobed fst_action_output [where out = out]\<close>)

lemma go_fallback:
  assumes "wf_Steps flow sid = Some (LeafStep (plain_leaf sid act [] pol next))" and "sid \<noteq> []" and "n + 1 \<le> eng_maxSteps e"
    and "\<And>w. act c w = (Fails msg, w)" and "pol \<noteq> []" and "eng_policies e pol = Some \<lparr>pol_PolicyID = pid, pol_FallbackStepRef = f\<rparr>"
    and "f \<noteq> []"
    and "\<And>rt'. P (fst (run_loop sub h e flow ref d (n + 1) \<lparr>cur_step = f,
      cur_ctx = gmerge c [(FailureReasonKey, GStr msg), (FailedStepKey, GStr sid)], cur_done = dn, cur_trace = t @ [sid]\<rparr> rt'))"
  shows "P (fst (run_loop sub h e flow ref d n \<lparr>cur_step = sid, cur_ctx = c, cur_done = dn, cur_trace = t\<rparr> rt))"
  by (rule fst_walk_next [OF assms(2,1,3)])
    (use assms(4-8) in \<open>simp_all add: plain_leaf_def leaf_unprobed fst_action_fails [where msg = msg] fst_divert_fallback\<close>)

lemma go_trip:
  assumes "wf_Steps flow sid = Some (LeafStep (plain_leaf sid act [] [] next))" and "sid \<noteq> []" and "n + 1 \<le> eng_maxSteps e"
    and "\<And>w. act c w = (Fails msg, w)"
  shows "fst (run_loop sub h e flow ref d n \<lparr>cur_step = sid, cur_ctx = c, cur_done = [], cur_trace = t\<rparr> rt) =
    Err (CircuitBreakerTripped sid msg [] [])"
  by (rule fst_walk_halt [OF assms(2,1,3)])
    (use assms(4) in \<open>simp_all add: plain_leaf_def leaf_unprobed fst_action_fails [where msg = msg] fst_divert_abandon\<close>)

lemma go_healthy:
  assumes "wf_Steps flow sid = Some (LeafStep (plain_leaf sid act pr pol next))" and "sid \<noteq> []" and "n + 1 \<le> eng_maxSteps e"
    and "pr \<noteq> []" and "eng_sandbox e = Some (sandbox_Probe sb)" and "sb_probes sb pr = Some probe"
    and "\<And>w. probe c w = ((True, mode, None), w)" and "\<And>w. act c w = (Output out, w)"
    and "\<And>rt'. P (fst (run_loop sub h e flow ref d (n + 1) \<lparr>cur_step = next, cur_ctx = gmerge c out, cur_done = dn, cur_trace = t @ [sid]\<rparr> rt'))"
  shows "P (fst (run_loop sub h e flow ref d n \<lparr>cur_step = sid, cur_ctx = c, cur_done = dn, cur_trace = t\<rparr> rt))"
  by (rule fst_walk_next [OF assms(2,1,3)])
    (use assms(4-9) in \<open>simp_all add: plain_leaf_def fst_leaf_healthy [where mode = mode] sandbox_Probe_def fst_action_output [where out = out]\<close>)

lemma go_refused:
  assumes "wf_Steps flow sid = Some (LeafStep (plain_leaf sid act pr pol next))" and "sid \<noteq> []" and "n + 1 \<le> eng_maxSteps e"
    and "pr \<noteq> []" and "eng_sandbox e = Some (sandbox_Probe sb)" and "sb_probes sb pr = Some probe"
    and "\<And>w. probe c w = ((False, mode, None), w)" and "mode \<noteq> []"
    and "pol \<noteq> []" and "eng_policies e pol = Some \<lparr>pol_PolicyID = pid, pol_FallbackStepRef = f\<rparr>" and "f \<noteq> []"
    and "\<And>rt'. P (fst (run_loop sub h e flow ref d (n + 1) \<lparr>cur_step = f,
      cur_ctx = gmerge c [(FailureReasonKey, GStr mode), (FailedStepKey, GStr sid)], cur_done = dn, cur_trace = t @ [sid]\<rparr> rt'))"
  shows "P (fst (run_loop sub h e flow ref d n \<lparr>cur_step = sid, cur_ctx = c, cur_done = dn, cur_trace = t\<rparr> rt))"
  by (rule fst_walk_next [OF assms(2,1,3)])
    (use assms(4-12) in \<open>simp_all add: plain_leaf_def fst_leaf_refused [where mode = mode] sandbox_Probe_def fst_divert_fallback\<close>)

lemma go_end:
  "fst (run_loop sub h e flow ref d n \<lparr>cur_step = [], cur_ctx = c, cur_done = dn, cur_trace = t\<rparr> rt) =
     Ok \<lparr>wr_Output = c, wr_StatePointer = [], wr_Trace = t\<rparr>"
  by (simp add: walk_end)

lemma Run_from:
  assumes "eng_workflows e ref = Some flow" and "0 \<le> eng_maxDepth e"
    and "\<And>sub. P (fst (run_loop sub h e flow ref 0 0 \<lparr>cur_step = wf_EntryStepID flow, cur_ctx = c, cur_done = [], cur_trace = []\<rparr> rt))"
  shows "P (fst (Run h e ref c rt))"
  using assms(3) by (simp add: Run_flow [OF assms(1,2)])

section \<open>A query that is one of the examples\<close>

text \<open>A query with a word in it that is itself an example of the domain is always matched.\<close>

lemma jaccard_self: "finite a \<Longrightarrow> a \<noteq> {} \<Longrightarrow> jaccard a a = Fin 1"
  using f64_of_nat_pos [of "card a"] by (auto simp: jaccard_def round64_1 card_gt_0_iff)

lemma example_matches:
  assumes "rtr_vectorizer r = None" and "node \<in> set (rtr_nodes r d)" and "text \<in> set (node_Examples node)"
    and "tokenize u text \<noteq> {}" and "f64_le (rtr_threshold r) (Fin 1)"
  shows "match_Matched (fst (Match u d text r w))"
proof -
  let ?score = "\<lambda>c. jaccard (tokenize u text) (tokenize u (snd c))"
  let ?cs = "map (\<lambda>c. (fst c, ?score c)) (candidates (rtr_nodes r d))"
  obtain n s where b: "contest ?cs (None, Fin 0) = (n, s)" by force
  have "(node, text) \<in> set (candidates (rtr_nodes r d))" using assms(2,3) by (auto simp: candidates_def)
  then have one: "(node, Fin 1) \<in> set ?cs" using jaccard_self [OF _ assms(4)] by (force simp: image_iff)
  have nan: "\<forall>(m, t) \<in> set ?cs. t \<noteq> NaN" by (auto simp: jaccard_not_NaN)
  from contest_max [OF b _ nan] one have s: "f64_le (Fin 1) s"
    and src: "(n, s) = (None, Fin 0) \<or> (\<exists>m. n = Some m)" by auto
  from s src obtain m where "n = Some m" by (auto simp: f64_le_def)
  moreover have "f64_le (rtr_threshold r) s" using assms(5) s f64_le_trans by blast
  moreover have "fst (Match u d text r w) = router_result r (n, s)"
    using assms(1) b by (simp add: Match_def router_match_def matchLexical_contest split_beta)
  ultimately show ?thesis by (simp add: router_result_def)
qed

lemma round64_le_1: "0 \<le> q \<Longrightarrow> q \<le> 1 \<Longrightarrow> f64_le (round64 q) (Fin 1)"
  using round64_unit [of q] by (auto simp: f64_le_def le_less)

section \<open>How a gated run ends\<close>

text \<open>A run ended with this disposition, and with an action executed or not.\<close>

definition ended :: "string \<Rightarrow> bool \<Rightarrow> outcome \<Rightarrow> bool" where
  "ended disposition acted r \<longleftrightarrow>
     (\<exists>result. r = Ok result \<and> map_of (wr_Output result) ''disposition'' = Some (GStr disposition) \<and>
        (map_of (wr_Output result) ''executed'' \<noteq> None \<longleftrightarrow> acted))"

text \<open>A diversion notes its reason under the engine's own keys and changes nothing else.\<close>

lemma diverted_lookup:
  "k \<noteq> ''cee.failure_reason'' \<Longrightarrow> k \<noteq> ''cee.failed_step'' \<Longrightarrow>
   map_of (gmerge c [(FailureReasonKey, GStr msg), (FailedStepKey, GStr sid)]) k = map_of c k"
  by (simp add: FailureReasonKey_def FailedStepKey_def)

text \<open>Without a vectorizer the reference of a match is that of a registered node.\<close>

lemma Match_node:
  assumes "rtr_vectorizer r = None" and "match_Matched (fst (Match u d text r w))"
  shows "match_NodeRef (fst (Match u d text r w)) \<in> node_NodeID ` set (rtr_nodes r d)"
proof -
  let ?cs = "map (\<lambda>c. (fst c, jaccard (tokenize u text) (tokenize u (snd c)))) (candidates (rtr_nodes r d))"
  obtain n s where b: "contest ?cs (None, Fin 0) = (n, s)" by force
  have "\<forall>(m, t) \<in> set ?cs. t \<noteq> NaN" by (auto simp: jaccard_not_NaN)
  from contest_max [OF b _ this] have "(n, s) = (None, Fin 0) \<or> (\<exists>m pre post. n = Some m \<and> ?cs = pre @ (m, s) # post)" by auto
  then have src: "(n, s) = (None, Fin 0) \<or> (\<exists>m. n = Some m \<and> (m, s) \<in> set ?cs)" by (metis in_set_conv_decomp)
  have m: "fst (Match u d text r w) = router_result r (n, s)"
    using assms(1) b by (simp add: Match_def router_match_def matchLexical_contest split_beta)
  with assms(2) src obtain m where "n = Some m" "m \<in> set (rtr_nodes r d)"
    by (auto simp: router_result_def candidates_def)
  moreover have "f64_le (rtr_threshold r) s" using assms(2) m \<open>n = Some m\<close> by (simp add: router_result_def split: if_splits)
  ultimately show ?thesis using m by (simp add: router_result_def)
qed

section \<open>The state a step leaves\<close>

text \<open>
  Steps with the state they leave: as in \<open>Walks\<close>, but as equations on the whole state, for actions that write the
  world and for runs that are parked in a store in memory.
\<close>

lemma at_output:
  assumes "wf_Steps flow sid = Some (LeafStep (plain_leaf sid act [] pol next))" and "sid \<noteq> []" and "n + 1 \<le> eng_maxSteps e"
    and "eng_observer e = None" and "act c (rt_world rt) = (Output out, w)"
  shows "run_loop sub h e flow ref d n \<lparr>cur_step = sid, cur_ctx = c, cur_done = dn, cur_trace = t\<rparr> rt =
    run_loop sub h e flow ref d (n + 1) \<lparr>cur_step = next, cur_ctx = gmerge c out, cur_done = dn, cur_trace = t @ [sid]\<rparr>
      (rt\<lparr>rt_world := w\<rparr>)"
  by (rule walk_next [OF assms(2,1,3)])
    (use assms(4,5) in \<open>simp_all add: plain_leaf_def leaf_unprobed action_output [where out = out and w = w]\<close>)

lemma at_fallback:
  assumes "wf_Steps flow sid = Some (LeafStep (plain_leaf sid act [] pol next))" and "sid \<noteq> []" and "n + 1 \<le> eng_maxSteps e"
    and "eng_observer e = None" and "act c (rt_world rt) = (Fails msg, w)" and "pol \<noteq> []"
    and "eng_policies e pol = Some \<lparr>pol_PolicyID = pid, pol_FallbackStepRef = f\<rparr>" and "f \<noteq> []"
  shows "run_loop sub h e flow ref d n \<lparr>cur_step = sid, cur_ctx = c, cur_done = dn, cur_trace = t\<rparr> rt =
    run_loop sub h e flow ref d (n + 1) \<lparr>cur_step = f,
      cur_ctx = gmerge c [(FailureReasonKey, GStr msg), (FailedStepKey, GStr sid)], cur_done = dn, cur_trace = t @ [sid]\<rparr>
      (rt\<lparr>rt_world := w\<rparr>)"
  by (rule walk_next [OF assms(2,1,3)])
    (use assms(4-8) in \<open>simp_all add: plain_leaf_def leaf_unprobed run_action_def observe_none divert_fallback Let_def\<close>)

lemma probed_by:
  assumes "eng_observer e = None" and "leaf_SandboxProbeRef s \<noteq> []" and "eng_sandbox e = Some (sandbox_Probe sb)"
    and "sb_probes sb (leaf_SandboxProbeRef s) = Some probe" and "probe (cur_ctx cur) (rt_world rt) = ((ok, mode, None), w)"
    and "ok \<or> mode \<noteq> []"
  shows "exec_leaf h e flow s d cur rt =
    (if ok then run_action h e flow s d cur (rt\<lparr>rt_world := w\<rparr>)
     else divert e flow (LeafStep s) mode cur (rt\<lparr>rt_world := w\<rparr>))"
  using assms by (auto simp: exec_leaf_def observe_none sandbox_Probe_def probe_verdict_def Let_def)

lemma at_healthy:
  assumes "wf_Steps flow sid = Some (LeafStep (plain_leaf sid act pr pol next))" and "sid \<noteq> []" and "n + 1 \<le> eng_maxSteps e"
    and "eng_observer e = None" and "pr \<noteq> []" and "eng_sandbox e = Some (sandbox_Probe sb)" and "sb_probes sb pr = Some probe"
    and "probe c (rt_world rt) = ((True, mode, None), w)" and "act c w = (Output out, w')"
  shows "run_loop sub h e flow ref d n \<lparr>cur_step = sid, cur_ctx = c, cur_done = dn, cur_trace = t\<rparr> rt =
    run_loop sub h e flow ref d (n + 1) \<lparr>cur_step = next, cur_ctx = gmerge c out, cur_done = dn, cur_trace = t @ [sid]\<rparr>
      (rt\<lparr>rt_world := w'\<rparr>)"
proof (rule walk_next [OF assms(2,1,3)])
  let ?s = "plain_leaf sid act pr pol next" and ?cur = "\<lparr>cur_step = sid, cur_ctx = c, cur_done = dn, cur_trace = t @ [sid]\<rparr>"
  have "exec_leaf h e flow ?s d ?cur rt = run_action h e flow ?s d ?cur (rt\<lparr>rt_world := w\<rparr>)"
    using assms(5-8) by (subst probed_by [OF assms(4), where sb = sb and probe = probe and mode = mode and w = w and ok = True])
      (simp_all add: plain_leaf_def)
  then show "exec_step sub h e flow d (LeafStep ?s) ?cur rt =
      (Next \<lparr>cur_step = next, cur_ctx = gmerge c out, cur_done = dn, cur_trace = t @ [sid]\<rparr>, rt\<lparr>rt_world := w'\<rparr>)"
    using assms(4,9) by (simp add: action_output [where out = out and w = w'] plain_leaf_def)
qed (simp add: plain_leaf_def)

lemma at_refused:
  assumes "wf_Steps flow sid = Some (LeafStep (plain_leaf sid act pr pol next))" and "sid \<noteq> []" and "n + 1 \<le> eng_maxSteps e"
    and "eng_observer e = None" and "pr \<noteq> []" and "eng_sandbox e = Some (sandbox_Probe sb)" and "sb_probes sb pr = Some probe"
    and "probe c (rt_world rt) = ((False, mode, None), w)" and "mode \<noteq> []" and "pol \<noteq> []"
    and "eng_policies e pol = Some \<lparr>pol_PolicyID = pid, pol_FallbackStepRef = f\<rparr>" and "f \<noteq> []"
  shows "run_loop sub h e flow ref d n \<lparr>cur_step = sid, cur_ctx = c, cur_done = dn, cur_trace = t\<rparr> rt =
    run_loop sub h e flow ref d (n + 1) \<lparr>cur_step = f,
      cur_ctx = gmerge c [(FailureReasonKey, GStr mode), (FailedStepKey, GStr sid)], cur_done = dn, cur_trace = t @ [sid]\<rparr>
      (rt\<lparr>rt_world := w\<rparr>)"
proof (rule walk_next [OF assms(2,1,3)])
  let ?s = "plain_leaf sid act pr pol next" and ?cur = "\<lparr>cur_step = sid, cur_ctx = c, cur_done = dn, cur_trace = t @ [sid]\<rparr>"
  have "exec_leaf h e flow ?s d ?cur rt = divert e flow (LeafStep ?s) mode ?cur (rt\<lparr>rt_world := w\<rparr>)"
    using assms(5-9) by (subst probed_by [OF assms(4), where sb = sb and probe = probe and mode = mode and w = w and ok = False])
      (simp_all add: plain_leaf_def)
  then show "exec_step sub h e flow d (LeafStep ?s) ?cur rt =
      (Next \<lparr>cur_step = f, cur_ctx = gmerge c [(FailureReasonKey, GStr mode), (FailedStepKey, GStr sid)], cur_done = dn,
        cur_trace = t @ [sid]\<rparr>, rt\<lparr>rt_world := w\<rparr>)"
    using assms(4,10-12) by (simp add: divert_fallback plain_leaf_def)
qed (simp add: plain_leaf_def)

text \<open>What a leaf that suspends leaves in the store.\<close>

definition held_at :: "'w workflow \<Rightarrow> string \<Rightarrow> string \<Rightarrow> string \<Rightarrow> ctx \<Rightarrow> string list \<Rightarrow> state" where
  "held_at flow pointer sid reason c t =
     \<lparr>st_Pointer = pointer, st_WorkflowID = wf_WorkflowID flow, st_StepID = sid, st_Reason = reason, st_Audience = [],
      st_Ctx = c, st_Trace = t\<rparr>"

lemma leaf_suspends:
  assumes "eng_observer e = None" and "eng_store e = Some MemoryStore"
    and "leaf_Run s c (rt_world rt) = (Suspends reason [], w)" and "newPointer h w = (Inr pointer, w')"
  shows "run_action h e flow s 0 \<lparr>cur_step = sid, cur_ctx = c, cur_done = dn, cur_trace = t\<rparr> rt =
    (Halt (Ok \<lparr>wr_Output = c, wr_StatePointer = pointer, wr_Trace = t\<rparr>),
     rt\<lparr>rt_world := w', rt_store := gput pointer (held_at flow pointer (leaf_StepID s) reason c t) (rt_store rt)\<rparr>)"
  using assms by (simp add: run_action_def observe_none suspend_def memory_defs held_at_def Let_def)

lemma at_suspend:
  assumes "wf_Steps flow sid = Some (LeafStep (plain_leaf sid act [] pol next))" and "sid \<noteq> []" and "n + 1 \<le> eng_maxSteps e"
    and "eng_observer e = None" and "eng_store e = Some MemoryStore"
    and "act c (rt_world rt) = (Suspends reason [], w)" and "newPointer h w = (Inr pointer, w')"
  shows "run_loop sub h e flow ref 0 n \<lparr>cur_step = sid, cur_ctx = c, cur_done = dn, cur_trace = t\<rparr> rt =
    (Ok \<lparr>wr_Output = c, wr_StatePointer = pointer, wr_Trace = t @ [sid]\<rparr>,
     rt\<lparr>rt_world := w', rt_store := gput pointer (held_at flow pointer sid reason c (t @ [sid])) (rt_store rt)\<rparr>)"
  by (rule walk_halt [OF assms(2,1,3)])
    (use assms(4-7) in \<open>simp_all add: plain_leaf_def leaf_unprobed leaf_suspends [where reason = reason and w = w and pointer = pointer]\<close>)

lemma at_healthy_suspend:
  assumes "wf_Steps flow sid = Some (LeafStep (plain_leaf sid act pr pol next))" and "sid \<noteq> []" and "n + 1 \<le> eng_maxSteps e"
    and "eng_observer e = None" and "eng_store e = Some MemoryStore"
    and "pr \<noteq> []" and "eng_sandbox e = Some (sandbox_Probe sb)" and "sb_probes sb pr = Some probe"
    and "probe c (rt_world rt) = ((True, mode, None), w)" and "act c w = (Suspends reason [], w')"
    and "newPointer h w' = (Inr pointer, w'')"
  shows "run_loop sub h e flow ref 0 n \<lparr>cur_step = sid, cur_ctx = c, cur_done = dn, cur_trace = t\<rparr> rt =
    (Ok \<lparr>wr_Output = c, wr_StatePointer = pointer, wr_Trace = t @ [sid]\<rparr>,
     rt\<lparr>rt_world := w'', rt_store := gput pointer (held_at flow pointer sid reason c (t @ [sid])) (rt_store rt)\<rparr>)"
proof (rule walk_halt [OF assms(2,1,3)])
  let ?s = "plain_leaf sid act pr pol next" and ?cur = "\<lparr>cur_step = sid, cur_ctx = c, cur_done = dn, cur_trace = t @ [sid]\<rparr>"
  have "exec_leaf h e flow ?s 0 ?cur rt = run_action h e flow ?s 0 ?cur (rt\<lparr>rt_world := w\<rparr>)"
    using assms(6-9) by (subst probed_by [OF assms(4), where sb = sb and probe = probe and mode = mode and w = w and ok = True])
      (simp_all add: plain_leaf_def)
  then show "exec_step sub h e flow 0 (LeafStep ?s) ?cur rt =
      (Halt (Ok \<lparr>wr_Output = c, wr_StatePointer = pointer, wr_Trace = t @ [sid]\<rparr>),
       rt\<lparr>rt_world := w'', rt_store := gput pointer (held_at flow pointer sid reason c (t @ [sid])) (rt_store rt)\<rparr>)"
    using assms(4,5,10,11) by (simp add: leaf_suspends [where reason = reason and w = w' and pointer = pointer] plain_leaf_def)
qed (simp add: plain_leaf_def)

section \<open>Standard actions\<close>

lemma suspend_factory: "suspendFactory [(''reason'', GStr (a # s))] = Inr (\<lambda>c w. (Suspends (a # s) [], w))"
  by (simp add: suspendFactory_def nonempty_param_def Suspend_def fun_eq_iff)

text \<open>Equality with a value that is neither a slice nor a map never panics.\<close>

lemma equals_true: "compare v ''eq'' (GBool True) = Ok (v = GBool True)"
  by (cases v) (auto simp: compare_def equals_res_def equals_def toFloat_def go_eq_def)

end
