(* ===== verification/RuleChange.thy ===== *)
theory RuleChange
  imports ReplayFacts Registry Resume Blog Demo Walks
begin

text \<open>
  The demonstration of a rule change (\<open>examples/rule_change/main.go\<close>): a quarter of refunds is decided under
  one limit with a recorder in front of the sandbox, and decided again under another limit from the
  recordings. What \<open>json.Unmarshal\<close> makes of the manifest's text, the hosts of the runs and the clock are
  parameters.
\<close>

section \<open>The refunds\<close>

record refund =
  rf_ID :: string
  rf_Account :: string
  rf_Amount :: float64

definition closedAccounts :: "string set" where
  "closedAccounts = {''acct-0019'', ''acct-0031''}"

definition amounts :: "nat list" where
  "amounts =
     [12, 45, 8, 220, 63, 95, 30, 150, 74, 19,
      88, 41, 5, 310, 57, 99, 26, 68, 130, 52,
      7, 85, 38, 240, 61, 91, 15, 72, 105, 49,
      80, 23, 66, 190, 55, 97, 34]"

definition refund_at :: "nat \<Rightarrow> nat \<Rightarrow> refund" where
  "refund_at i amount =
     \<lparr>rf_ID = ''r-'' @ zero_padded 4 (i + 1), rf_Account = ''acct-'' @ zero_padded 4 (i + 1),
      rf_Amount = Fin (of_nat amount)\<rparr>"

definition history :: "refund list" where
  "history = map2 refund_at [0..<length amounts] amounts"

section \<open>The rule\<close>

text \<open>The manifest's text around the limit, and what it declares for a limit that is a JSON number.\<close>

definition template_head :: string where
  "template_head =
     ''{'' @ md_nl @
     ''  \"name\": \"refunds\",'' @ md_nl @
     ''  \"policies\": [{\"policy_id\": \"needs_human\", \"fallback_step_ref\": \"hold\"}],'' @ md_nl @
     ''  \"workflows\": [{'' @ md_nl @
     ''    \"workflow_id\": \"refunds.process\",'' @ md_nl @
     ''    \"entry_step_id\": \"under_limit\",'' @ md_nl @
     ''    \"steps\": ['' @ md_nl @
     ''      {\"step_id\": \"under_limit\", \"type\": \"leaf\", \"action_ref\": \"std.require\",'' @ md_nl @
     ''       \"with\": {\"field\": \"amount\", \"op\": \"lte\", \"value\": ''"

definition template_tail :: string where
  "template_tail =
     ''},'' @ md_nl @
     ''       \"sandbox_probe_ref\": \"refund.account_open\",'' @ md_nl @
     ''       \"circuit_breaker_policy_ref\": \"needs_human\", \"on_success\": \"pay\"},'' @ md_nl @
     ''      {\"step_id\": \"pay\", \"type\": \"leaf\", \"action_ref\": \"std.set\",'' @ md_nl @
     ''       \"with\": {\"fields\": {\"paid\": true}}},'' @ md_nl @
     ''      {\"step_id\": \"hold\", \"type\": \"leaf\", \"action_ref\": \"std.set\",'' @ md_nl @
     ''       \"with\": {\"fields\": {\"paid\": false}}}'' @ md_nl @
     ''    ]'' @ md_nl @
     ''  }]'' @ md_nl @
     ''}''"

definition manifestTemplate :: "string \<Rightarrow> string" where
  "manifestTemplate limit = template_head @ limit @ template_tail"

definition refund_manifest :: "rat \<Rightarrow> manifest_file" where
  "refund_manifest limit =
     \<lparr>file_Name = ''refunds'', file_Intents = [],
      file_Policies = [\<lparr>pspec_PolicyID = ''needs_human'', pspec_FallbackStepRef = ''hold''\<rparr>],
      file_Workflows =
        [\<lparr>wspec_WorkflowID = ''refunds.process'', wspec_EntryStepID = ''under_limit'',
          wspec_Steps =
            [(json_leaf ''under_limit'' ''std.require''
                [(''field'', GStr ''amount''), (''op'', GStr ''lte''), (''value'', GFloat (Fin limit))])
               \<lparr>sspec_SandboxProbeRef := ''refund.account_open'', sspec_CircuitBreakerPolicyRef := ''needs_human'',
                sspec_OnSuccess := ''pay''\<rparr>,
             json_leaf ''pay'' ''std.set'' [(''fields'', GObj [(''paid'', GBool True)])],
             json_leaf ''hold'' ''std.set'' [(''fields'', GObj [(''paid'', GBool False)])]]\<rparr>]\<rparr>"

section \<open>Recording and replaying\<close>

definition rc_buildEngine :: "(string \<Rightarrow> string + manifest_file) \<Rightarrow> string \<Rightarrow> 'w prober \<Rightarrow>
    (string, ('w, memory_store) engine) res" where
  "rc_buildEngine dec limit prober =
     res_bind (Load (dec (manifestTemplate limit)) Map.empty Default)
       (\<lambda>d. Ok (reg_engine (RegisterDomain d (NewRegistry (NewRouter (round64 (1 / 2))) (NewEngine (Some prober))))))"

definition account_open :: "'w probe" where
  "account_open c w =
     (let account = ctx_str c ''account'' in
      ((if account \<in> closedAccounts then
          (False, ''account '' @ account @ '' is closed; the refund would bounce'', None)
        else (True, [], None)), w))"

definition liveSandbox :: "'w sandbox" where
  "liveSandbox = RegisterProbe NewSandbox ''refund.account_open'' account_open"

definition refund_input :: "refund \<Rightarrow> ctx" where
  "refund_input r =
     [(''account'', GStr (rf_Account r)), (''amount'', GFloat (rf_Amount r)), (''refund_id'', GStr (rf_ID r))]"

text \<open>
  The decisions of a quarter: each refund is decided on a new engine, a new recorder in front of the live
  sandbox. \<open>hs i\<close> and \<open>now i\<close> are the host of the \<open>i\<close>th run and the clock at its end.
\<close>

fun record_all :: "(string \<Rightarrow> string + manifest_file) \<Rightarrow> (nat \<Rightarrow> 'w lab host) \<Rightarrow> (nat \<Rightarrow> int) \<Rightarrow> string \<Rightarrow> 'w lab \<Rightarrow> nat \<Rightarrow>
    refund list \<Rightarrow> (string, recording list) res" where
  "record_all dec hs now limit l i [] = Ok []"
| "record_all dec hs now limit l i (r # rs) =
     (let l0 = l\<lparr>lab_recorder := NewRecorder\<rparr> in
      res_bind (rc_buildEngine dec limit (recorder_Probe (Some (sandbox_Probe liveSandbox))))
        (\<lambda>e. case Run (hs i) e ''refunds.process'' (refund_input r) \<lparr>rt_world = l0, rt_store = NewMemoryStore, rt_log = []\<rparr> of
           (Panic p, _) \<Rightarrow> Panic p
         | (res, rt) \<Rightarrow>
             res_bind (record_all dec hs now limit (rt_world rt) (Suc i) rs)
               (\<lambda>recs. Ok (Finish (lab_recorder (rt_world rt)) ''refunds.process'' (refund_input r) (result_of res)
                  (error_of res) (now i) # recs))))"

definition rc_record :: "(string \<Rightarrow> string + manifest_file) \<Rightarrow> (nat \<Rightarrow> 'w lab host) \<Rightarrow> (nat \<Rightarrow> int) \<Rightarrow> 'w lab \<Rightarrow> string \<Rightarrow>
    (string, recording list) res" where
  "rc_record dec hs now l limit = record_all dec hs now limit l 0 history"

record rc_change =
  rc_RefundID :: string
  rc_Amount :: float64
  rc_Before :: string
  rc_After :: string
  rc_Flipped :: bool
  rc_Differences :: "difference list"

definition decisionIn :: "ctx \<Rightarrow> string" where
  "decisionIn output = (if map_of output ''paid'' = Some (GBool True) then ''paid'' else ''held'')"

definition changed_refund :: "recording \<Rightarrow> outcome \<Rightarrow> rc_change list" where
  "changed_refund rec res =
     (let diffs = Compare rec (result_of res) (error_of res);
          before = decisionIn (rec_Output rec); after = decisionIn (wr_Output (result_of res)) in
      if diffs = [] then []
      else
        [\<lparr>rc_RefundID = ctx_str (rec_Input rec) ''refund_id'',
          rc_Amount = (case map_of (rec_Input rec) ''amount'' of Some (GFloat x) \<Rightarrow> x | _ \<Rightarrow> Fin 0),
          rc_Before = before, rc_After = after, rc_Flipped = (before \<noteq> after), rc_Differences = diffs\<rparr>])"

text \<open>A recording replayed: a player in place of the sandbox, with nothing to fall back on.\<close>

fun replay_all :: "(string \<Rightarrow> string + manifest_file) \<Rightarrow> (nat \<Rightarrow> 'w lab host) \<Rightarrow> string \<Rightarrow> 'w lab \<Rightarrow> nat \<Rightarrow> recording list \<Rightarrow>
    (string, rc_change list) res" where
  "replay_all dec hs limit l i [] = Ok []"
| "replay_all dec hs limit l i (rec # recs) =
     res_bind (rc_buildEngine dec limit (player_Probe None))
       (\<lambda>e. case Run (hs i) e (rec_WorkflowID rec) (rec_Input rec)
               \<lparr>rt_world = l\<lparr>lab_player := NewPlayer rec\<rparr>, rt_store = NewMemoryStore, rt_log = []\<rparr> of
           (Panic p, _) \<Rightarrow> Panic p
         | (res, rt) \<Rightarrow>
             res_bind (replay_all dec hs limit (rt_world rt) (Suc i) recs) (\<lambda>cs. Ok (changed_refund rec res @ cs)))"

text \<open>The sort by identifier; among equal ones, which \<open>sort.Slice\<close> leaves in any order, the recorded order.\<close>

definition replayUnder :: "(string \<Rightarrow> string + manifest_file) \<Rightarrow> (nat \<Rightarrow> 'w lab host) \<Rightarrow> 'w lab \<Rightarrow> string \<Rightarrow> recording list \<Rightarrow>
    (string, rc_change list) res" where
  "replayUnder dec hs l limit recs =
     res_bind (replay_all dec hs limit l 0 recs)
       (\<lambda>cs. Ok (stable_sort (\<lambda>a b. rc_RefundID a < rc_RefundID b) cs))"

section \<open>The report\<close>

definition report_text :: "string \<Rightarrow> string \<Rightarrow> recording list \<Rightarrow> rc_change list \<Rightarrow> string" where
  "report_text before after recordings changes =
     (let paid = length (filter (\<lambda>rec. decisionIn (rec_Output rec) = ''paid'') recordings);
          flipped = filter rc_Flipped changes;
          explanationOnly = filter (\<lambda>c. \<not> rc_Flipped c) changes in
      ''Last quarter, under the rule in force (auto-approve at or under $'' @ before @ ''):'' @ md_nl @
      ''  '' @ digits_of (length recordings) @ '' refunds -- '' @ digits_of paid @ '' paid, '' @
        digits_of (length recordings - paid) @ '' held'' @ md_nl @ md_nl @
      ''Proposed change: tighten the limit to $'' @ after @ ''.'' @ md_nl @
      ''Replaying the same '' @ digits_of (length recordings) @ '' refunds against the new rule:'' @ md_nl @ md_nl @
      ''  '' @ digits_of (length flipped) @ '' of '' @ digits_of (length recordings) @ '' decisions flip'' @ md_nl @ md_nl @
      concat (map (\<lambda>c. ''    '' @ pad_right 8 (rc_RefundID c) @ '' $'' @ pad_right 6 (fmt_f0 (rc_Amount c)) @ '' '' @
        rc_Before c @ '' -> '' @ rc_After c @ md_nl) flipped) @
      (case explanationOnly of
         [] \<Rightarrow> []
       | sample # _ \<Rightarrow>
           md_nl @ ''  '' @ digits_of (length explanationOnly) @
             '' more were held before and are held now. The outcome stands; only the'' @ md_nl @
           ''  reason given to the operator changes, for example:'' @ md_nl @ md_nl @
           concat (map (\<lambda>d. ''    '' @ pad_right 8 (rc_RefundID sample) @ '' '' @ difference_String d @ md_nl)
             (rc_Differences sample))) @
      md_nl @ ''One refund did not flip that the amounts alone say should have. The probe'' @ md_nl @
      ''verdicts come from the recording rather than a live check, so an account that'' @ md_nl @
      ''was closed at the time stays closed, and the rule is the only thing that moved.'' @ md_nl)"

definition rc_run :: "(string \<Rightarrow> string + manifest_file) \<Rightarrow> (nat \<Rightarrow> 'w lab host) \<Rightarrow> (nat \<Rightarrow> 'w lab host) \<Rightarrow> (nat \<Rightarrow> int) \<Rightarrow> 'w lab \<Rightarrow>
    'w lab \<Rightarrow> string \<Rightarrow> string \<Rightarrow> (string, string) res" where
  "rc_run dec hs hs' now l l' before after =
     res_bind (rc_record dec hs now l before)
       (\<lambda>recordings. res_bind (replayUnder dec hs' l' after recordings)
          (\<lambda>changes. Ok (report_text before after recordings changes)))"

section \<open>What the program decides\<close>

definition refund_leaf :: "rat \<Rightarrow> 'w leaf_step" where
  "refund_leaf l =
     \<lparr>leaf_StepID = ''under_limit'',
      leaf_Run = (\<lambda>c w. (case compare (ctx_get c ''amount'') ''lte'' (GFloat (Fin l)) of
             Ok True \<Rightarrow> Output []
           | Ok False \<Rightarrow> Fails (requirement_not_met ''amount'' (ctx_get c ''amount'') ''lte'' (GFloat (Fin l)))
           | Err err \<Rightarrow> Fails err
           | Panic p \<Rightarrow> Panics p, w)),
      leaf_SandboxProbeRef = ''refund.account_open'', leaf_CircuitBreakerPolicyRef = ''needs_human'',
      leaf_OnSuccess = ''pay'', leaf_CompensateStepRef = []\<rparr>"

definition paid_leaf :: "string \<Rightarrow> bool \<Rightarrow> 'w leaf_step" where
  "paid_leaf sid b =
     \<lparr>leaf_StepID = sid, leaf_Run = (\<lambda>c w. (Output (gmerge [] [(''paid'', GBool b)]), w)), leaf_SandboxProbeRef = [],
      leaf_CircuitBreakerPolicyRef = [], leaf_OnSuccess = [], leaf_CompensateStepRef = []\<rparr>"

definition refund_flow :: "rat \<Rightarrow> 'w workflow" where
  "refund_flow l =
     \<lparr>wf_WorkflowID = ''refunds.process'', wf_DomainID = ''refunds'', wf_EntryStepID = ''under_limit'',
      wf_Steps = [''under_limit'' \<mapsto> LeafStep (refund_leaf l), ''pay'' \<mapsto> LeafStep (paid_leaf ''pay'' True),
        ''hold'' \<mapsto> LeafStep (paid_leaf ''hold'' False)]\<rparr>"

definition refund_engine :: "rat \<Rightarrow> 'w prober \<Rightarrow> ('w, 's) engine" where
  "refund_engine l prober =
     \<lparr>eng_sandbox = Some prober, eng_observer = None, eng_workflows = [''refunds.process'' \<mapsto> refund_flow l],
      eng_policies = [''needs_human'' \<mapsto> \<lparr>pol_PolicyID = ''needs_human'', pol_FallbackStepRef = ''hold''\<rparr>],
      eng_store = None, eng_authorizer = None, eng_maxSteps = DefaultMaxSteps, eng_maxDepth = DefaultMaxDepth\<rparr>"

lemma refund_domain:
  "Load (Inr (refund_manifest l)) Map.empty Default =
     Ok \<lparr>dom_Name = ''refunds'', dom_Intents = [], dom_Workflows = [refund_flow l\<lparr>wf_DomainID := []\<rparr>],
         dom_Policies = [\<lparr>pol_PolicyID = ''needs_human'', pol_FallbackStepRef = ''hold''\<rparr>]\<rparr>"
  by (simp add: load_eval refund_manifest_def json_leaf_def refund_flow_def refund_leaf_def paid_leaf_def)

lemma rc_engine:
  "dec (manifestTemplate limit) = Inr (refund_manifest l) \<Longrightarrow> rc_buildEngine dec limit prober = Ok (refund_engine l prober)"
  by (simp add: rc_buildEngine_def refund_domain RegisterDomain_def NewRegistry_def NewEngine_def RegisterWorkflow_def
      RegisterPolicy_def claim_workflow_def refund_engine_def refund_flow_def)


section \<open>Deciding one refund\<close>

definition decided :: "rat \<Rightarrow> bool \<Rightarrow> string \<Rightarrow> rat \<Rightarrow> ctx \<Rightarrow> workflow_result" where
  "decided l healthy mode a c =
     (if healthy \<and> a \<le> l then
        \<lparr>wr_Output = gmerge c [(''paid'', GBool True)], wr_StatePointer = [], wr_Trace = [''under_limit'', ''pay'']\<rparr>
      else
        \<lparr>wr_Output = gmerge (gmerge c [(FailureReasonKey, GStr (if healthy then
             requirement_not_met ''amount'' (GFloat (Fin a)) ''lte'' (GFloat (Fin l)) else mode)),
           (FailedStepKey, GStr ''under_limit'')]) [(''paid'', GBool False)],
         wr_StatePointer = [], wr_Trace = [''under_limit'', ''hold'']\<rparr>)"

lemma refund_steps:
  "wf_Steps (refund_flow l) ''under_limit'' = Some (LeafStep (refund_leaf l))"
  "wf_Steps (refund_flow l) ''pay'' = Some (LeafStep (paid_leaf ''pay'' True))"
  "wf_Steps (refund_flow l) ''hold'' = Some (LeafStep (paid_leaf ''hold'' False))"
  "wf_EntryStepID (refund_flow l) = ''under_limit''" "wf_DomainID (refund_flow l) = ''refunds''"
  by (simp_all add: refund_flow_def)

lemma refund_engine_parts:
  "eng_sandbox (refund_engine l p) = Some p" "eng_observer (refund_engine l p) = None"
  "eng_workflows (refund_engine l p) ''refunds.process'' = Some (refund_flow l)"
  "eng_policies (refund_engine l p) ''needs_human'' = Some \<lparr>pol_PolicyID = ''needs_human'', pol_FallbackStepRef = ''hold''\<rparr>"
  "eng_maxSteps (refund_engine l p) = 10000" "eng_maxDepth (refund_engine l p) = 64"
  by (simp_all add: refund_engine_def DefaultMaxSteps_def DefaultMaxDepth_def)

lemma last_step:
  assumes "sid = ''pay'' \<and> b \<or> sid = ''hold'' \<and> \<not> b" and "n \<le> 100"
  shows "run_loop sub h (refund_engine l p) (refund_flow l) ref d n \<lparr>cur_step = sid, cur_ctx = c, cur_done = dn, cur_trace = t\<rparr> rt =
    (Ok \<lparr>wr_Output = gmerge c [(''paid'', GBool b)], wr_StatePointer = [], wr_Trace = t @ [sid]\<rparr>, rt)"
proof -
  have x: "exec_step sub h (refund_engine l p) (refund_flow l) d (LeafStep (paid_leaf sid b))
      \<lparr>cur_step = sid, cur_ctx = c, cur_done = dn, cur_trace = t'\<rparr> rt =
    (Next \<lparr>cur_step = [], cur_ctx = gmerge c [(''paid'', GBool b)], cur_done = dn, cur_trace = t'\<rparr>, rt)" for t'
    by (simp add: leaf_unprobed paid_leaf_def action_output [where out = "[(''paid'', GBool b)]" and w = "rt_world rt"]
        refund_engine_parts)
  have "sid \<noteq> []" and "wf_Steps (refund_flow l) sid = Some (LeafStep (paid_leaf sid b))"
    using assms(1) refund_steps by auto
  then show ?thesis
    by (subst walk_next [OF _ _ _ _ x]) (use assms(2) in \<open>simp_all add: refund_engine_parts walk_end paid_leaf_def\<close>)
qed

lemma refund_run:
  assumes amount: "map_of c ''amount'' = Some (GFloat (Fin a))"
    and probe: "p \<lparr>preq_ProbeRef = ''refund.account_open'', preq_DomainID = ''refunds'', preq_StepContext = c\<rparr> (rt_world rt) =
      ((\<lparr>pres_Healthy = healthy, pres_DetectedFailureMode = mode\<rparr>, None), w)"
  shows "Run h (refund_engine l p) ''refunds.process'' c rt = (Ok (decided l healthy mode a c), rt\<lparr>rt_world := w\<rparr>)"
proof -
  let ?e = "refund_engine l p" and ?c = "\<lparr>cur_step = ''under_limit'', cur_ctx = c, cur_done = [], cur_trace = [] @ [''under_limit'']\<rparr>"
  have cmp: "compare (GFloat (Fin a)) ''lte'' (GFloat (Fin l)) = Ok (a \<le> l)"
    by (simp add: compare_def toFloat_def f64_le_def f64_eq_iff le_less)
  have got: "ctx_get c ''amount'' = GFloat (Fin a)" by (simp add: ctx_get_def amount)
  have x: "exec_step sub h ?e (refund_flow l) 0 (LeafStep (refund_leaf l)) ?c rt =
    (Next (if healthy \<and> a \<le> l then \<lparr>cur_step = ''pay'', cur_ctx = c, cur_done = [], cur_trace = [''under_limit'']\<rparr>
      else \<lparr>cur_step = ''hold'', cur_ctx = gmerge c [(FailureReasonKey, GStr (if healthy then
             requirement_not_met ''amount'' (GFloat (Fin a)) ''lte'' (GFloat (Fin l)) else mode)),
           (FailedStepKey, GStr ''under_limit'')], cur_done = [], cur_trace = [''under_limit'']\<rparr>), rt\<lparr>rt_world := w\<rparr>)" for sub
    by (cases "healthy \<and> a \<le> l"; cases healthy)
      (use probe in \<open>simp_all add: leaf_probed refund_engine_parts refund_steps probe_verdict_def refund_leaf_def
        run_action_def observe_none cmp divert_fallback got\<close>)
  show ?thesis
    by (simp only: Run_flow [OF refund_engine_parts(3)] refund_engine_parts refund_steps,
        subst walk_next [OF _ refund_steps(1) _ _ x])
      (simp_all add: refund_engine_parts refund_leaf_def last_step decided_def)
qed


section \<open>Recording a quarter and replaying it\<close>

definition dollars :: "refund \<Rightarrow> rat" where
  "dollars r = (case rf_Amount r of Fin a \<Rightarrow> a | _ \<Rightarrow> 0)"

definition is_open :: "refund \<Rightarrow> bool" where
  "is_open r \<longleftrightarrow> rf_Account r \<notin> closedAccounts"

definition closed_mode :: "refund \<Rightarrow> string" where
  "closed_mode r = (if is_open r then [] else ''account '' @ rf_Account r @ '' is closed; the refund would bounce'')"

abbreviation (input) decision :: "rat \<Rightarrow> refund \<Rightarrow> workflow_result" where
  "decision l r \<equiv> decided l (is_open r) (closed_mode r) (dollars r) (refund_input r)"

definition verdict_note :: "refund \<Rightarrow> probe_record" where
  "verdict_note r =
     \<lparr>pv_ProbeRef = ''refund.account_open'', pv_DomainID = ''refunds'', pv_Healthy = is_open r,
      pv_DetectedFailureMode = closed_mode r, pv_Err = []\<rparr>"

definition recording_of :: "rat \<Rightarrow> refund \<Rightarrow> int \<Rightarrow> recording" where
  "recording_of l r t =
     Finish \<lparr>rcd_verdicts = [verdict_note r], rcd_extractions = []\<rparr> ''refunds.process'' (refund_input r)
       (result_of (Ok (decision l r))) (error_of (Ok (decision l r))) t"

lemma refund_input_parts:
  "map_of (refund_input r) ''amount'' = Some (GFloat (rf_Amount r))"
  "map_of (refund_input r) ''account'' = Some (GStr (rf_Account r))"
  "map_of (refund_input r) ''refund_id'' = Some (GStr (rf_ID r))"
  by (simp_all add: refund_input_def)

lemma live_verdict:
  "sandbox_Probe liveSandbox \<lparr>preq_ProbeRef = ''refund.account_open'', preq_DomainID = d, preq_StepContext = refund_input r\<rparr> w =
     ((\<lparr>pres_Healthy = is_open r, pres_DetectedFailureMode = closed_mode r\<rparr>, None), w)"
  by (simp add: sandbox_Probe_def liveSandbox_def RegisterProbe_def account_open_def ctx_str_def refund_input_parts is_open_def closed_mode_def)

lemma recorded_run:
  assumes "rf_Amount r = Fin (dollars r)"
  shows "Run h (refund_engine l (recorder_Probe (Some (sandbox_Probe liveSandbox)))) ''refunds.process'' (refund_input r)
      \<lparr>rt_world = w\<lparr>lab_recorder := NewRecorder\<rparr>, rt_store = s, rt_log = g\<rparr> =
    (Ok (decision l r), \<lparr>rt_world = w\<lparr>lab_recorder := \<lparr>rcd_verdicts = [verdict_note r], rcd_extractions = []\<rparr>\<rparr>,
       rt_store = s, rt_log = g\<rparr>)"
  by (subst refund_run [where healthy = "is_open r" and mode = "closed_mode r" and a = "dollars r"
        and w = "w\<lparr>lab_recorder := \<lparr>rcd_verdicts = [verdict_note r], rcd_extractions = []\<rparr>\<rparr>"])
    (use assms in \<open>simp_all add: refund_input_parts recorder_Probe_def live_verdict NewRecorder_def probe_note_def verdict_note_def\<close>)

lemma replayed_run:
  assumes "rf_Amount r = Fin (dollars r)"
  shows "Run h (refund_engine l (player_Probe None)) ''refunds.process'' (refund_input r)
      \<lparr>rt_world = w\<lparr>lab_player := NewPlayer (recording_of b r t)\<rparr>, rt_store = s, rt_log = g\<rparr> =
    (Ok (decision l r), \<lparr>rt_world = w\<lparr>lab_player := NewPlayer (recording_of b r t)\<rparr>, rt_store = s, rt_log = g\<rparr>)"
  by (subst refund_run [where healthy = "is_open r" and mode = "closed_mode r" and a = "dollars r"
        and w = "w\<lparr>lab_player := NewPlayer (recording_of b r t)\<rparr>"])
    (use assms in \<open>simp_all add: refund_input_parts player_Probe_def NewPlayer_def recording_of_def Finish_def probes_for_def
      verdict_note_def Let_def\<close>)

lemma record_all_recordings:
  assumes "dec (manifestTemplate limit) = Inr (refund_manifest b)" and "\<forall>r \<in> set rs. rf_Amount r = Fin (dollars r)"
  shows "record_all dec hs now limit l i rs = Ok (map2 (recording_of b) rs (map now [i..<i + length rs]))"
  using assms(2)
proof (induction rs arbitrary: i l)
  case (Cons r rs)
  have u: "[i..<i + length (r # rs)] = i # [Suc i..<Suc i + length rs]"
    by (subst upt_conv_Cons) simp_all
  from Cons show ?case
    unfolding u by (simp add: rc_engine [of dec limit b, OF assms(1)] recorded_run recording_of_def Let_def del: upt_Suc)
qed simp

lemma replay_all_changes:
  assumes "dec (manifestTemplate limit) = Inr (refund_manifest a)" and "\<forall>r \<in> set rs. rf_Amount r = Fin (dollars r)"
    and "length ts = length rs"
  shows "replay_all dec hs limit l i (map2 (recording_of b) rs ts) =
    Ok (concat (map2 (\<lambda>r t. changed_refund (recording_of b r t) (Ok (decision a r))) rs ts))"
  using assms(3,2)
proof (induction ts rs arbitrary: i l rule: list_induct2)
  case (Cons t ts r rs)
  have "rec_WorkflowID (recording_of b r t) = ''refunds.process''" "rec_Input (recording_of b r t) = refund_input r"
    by (simp_all add: recording_of_def Finish_def)
  with Cons show ?case by (simp add: rc_engine [of dec limit a, OF assms(1)] replayed_run)
qed simp


section \<open>What flips\<close>

definition verdict :: "rat \<Rightarrow> refund \<Rightarrow> string" where
  "verdict l r = (if is_open r \<and> dollars r \<le> l then ''paid'' else ''held'')"

definition flip_row :: "rc_change \<Rightarrow> string \<times> float64 \<times> string \<times> string" where
  "flip_row c = (rc_RefundID c, rc_Amount c, rc_Before c, rc_After c)"

lemma decided_verdict: "decisionIn (wr_Output (decision l r)) = verdict l r"
  by (simp add: decided_def decisionIn_def verdict_def)

lemma flips_differ: "verdict b r \<noteq> verdict a r \<Longrightarrow> wr_Trace (decision b r) \<noteq> wr_Trace (decision a r)"
  by (simp add: verdict_def decided_def split: if_splits)

lemma change_row:
  assumes "c \<in> set (changed_refund (recording_of b r t) (Ok (decision a r)))"
  shows "rc_RefundID c = rf_ID r" and "rc_Flipped c \<longleftrightarrow> verdict b r \<noteq> verdict a r"
    and "flip_row c = (rf_ID r, rf_Amount r, verdict b r, verdict a r)"
proof -
  have "rec_Input (recording_of b r t) = refund_input r" "rec_Output (recording_of b r t) = wr_Output (decision b r)"
    by (simp_all add: recording_of_def Finish_def result_of_def)
  moreover have "wr_Output (result_of (Ok (decision a r))) = wr_Output (decision a r)" by (simp add: result_of_def)
  ultimately show "rc_RefundID c = rf_ID r" "rc_Flipped c \<longleftrightarrow> verdict b r \<noteq> verdict a r"
    "flip_row c = (rf_ID r, rf_Amount r, verdict b r, verdict a r)"
    using assms by (auto simp: changed_refund_def refund_input_parts decided_verdict flip_row_def ctx_str_def Let_def split: if_splits)
qed

lemma flip_is_reported:
  assumes "verdict b r \<noteq> verdict a r"
  shows "length (changed_refund (recording_of b r t) (Ok (decision a r))) = 1"
proof -
  have "Compare (recording_of b r t) (result_of (Ok (decision a r))) (error_of (Ok (decision a r))) \<noteq> []"
    using assms by (auto simp: Compare_def recording_of_def Finish_def result_of_def verdict_def decided_def joinTrace_def Let_def)
  then show ?thesis by (simp add: changed_refund_def Let_def)
qed

lemma flipped_rows:
  "map flip_row (filter rc_Flipped (changed_refund (recording_of b r t) (Ok (decision a r)))) =
     (if verdict b r \<noteq> verdict a r then [(rf_ID r, rf_Amount r, verdict b r, verdict a r)] else [])"
proof (cases "verdict b r = verdict a r")
  case True
  then show ?thesis by (auto simp: change_row(2) filter_empty_conv)
next
  case False
  then obtain c where "changed_refund (recording_of b r t) (Ok (decision a r)) = [c]"
    using flip_is_reported [OF False] by (metis One_nat_def length_0_conv length_Suc_conv)
  with False change_row [of c b r t a] show ?thesis by simp
qed


lemma stable_sort_sorted: "sorted_wrt (\<lambda>x y. \<not> ahead y x) xs \<Longrightarrow> stable_sort ahead xs = xs"
proof (induction xs)
  case (Cons x xs)
  then show ?case by (cases xs) (simp_all add: stable_sort_def)
qed (simp add: stable_sort_def)

lemma history_amounts: "\<forall>r \<in> set history. rf_Amount r = Fin (dollars r)"
  by (auto simp: history_def refund_at_def dollars_def)

lemma replicate_up_to_3: "replicate 1 x = [x]" "replicate 2 x = [x, x]" "replicate 3 x = [x, x, x]"
  by (simp_all add: numeral_2_eq_2 numeral_3_eq_3)

lemma history_in_order: "sorted_wrt (<) (map rf_ID history)"
  by (simp add: history_def refund_at_def amounts_def zero_padded_def digits_of.simps upt_rec sorted_wrt1 sorted_wrt2
      replicate_up_to_3 less_char_def del: sorted_wrt.simps)

abbreviation (input) changes_of :: "rat \<Rightarrow> rat \<Rightarrow> refund list \<Rightarrow> int list \<Rightarrow> rc_change list" where
  "changes_of b a rs ts \<equiv> concat (map2 (\<lambda>r t. changed_refund (recording_of b r t) (Ok (decision a r))) rs ts)"

lemma changes_ids: "length ts = length rs \<Longrightarrow> c \<in> set (changes_of b a rs ts) \<Longrightarrow> rc_RefundID c \<in> rf_ID ` set rs"
  by (induction ts rs rule: list_induct2) (auto simp: change_row(1))

lemma changed_refund_short: "length (changed_refund rec res) \<le> 1"
  by (simp add: changed_refund_def Let_def)

lemma changes_in_order:
  assumes "length ts = length rs" and "sorted_wrt (<) (map rf_ID rs)"
  shows "sorted_wrt (\<lambda>x y. \<not> rc_RefundID y < rc_RefundID x) (changes_of b a rs ts)"
  using assms
proof (induction ts rs rule: list_induct2)
  case (Cons t ts r rs)
  let ?one = "changed_refund (recording_of b r t) (Ok (decision a r))"
  have "sorted_wrt (\<lambda>x y. \<not> rc_RefundID y < rc_RefundID x) ?one"
    using changed_refund_short [of "recording_of b r t" "Ok (decision a r)"] by (cases ?one) auto
  moreover have "\<not> rc_RefundID y < rc_RefundID x" if "x \<in> set ?one" "y \<in> set (changes_of b a rs ts)" for x y
  proof -
    have "rf_ID r < rc_RefundID y" using changes_ids [OF Cons.hyps that(2)] Cons.prems by auto
    then show ?thesis using change_row(1) [OF that(1)] by simp
  qed
  ultimately show ?case using Cons by (auto simp: sorted_wrt_append)
qed simp

lemma flipped_changes:
  "length ts = length rs \<Longrightarrow> map flip_row (filter rc_Flipped (changes_of b a rs ts)) =
     map (\<lambda>r. (rf_ID r, rf_Amount r, verdict b r, verdict a r)) (filter (\<lambda>r. verdict b r \<noteq> verdict a r) rs)"
  by (induction ts rs rule: list_induct2) (simp_all add: flipped_rows)

text \<open>
  A quarter decided under one limit and replayed under another: every refund is recorded, and the report's flipped
  refunds are exactly those whose verdict the two limits decide differently, in order and with both verdicts; an
  account closed at the time stays closed.
\<close>

theorem quarter_replayed:
  assumes "dec (manifestTemplate before) = Inr (refund_manifest b)" and "dec (manifestTemplate after) = Inr (refund_manifest a)"
  shows "\<exists>recs changes. rc_record dec hs now l before = Ok recs \<and> length recs = length history \<and>
    replayUnder dec hs' l' after recs = Ok changes \<and>
    map flip_row (filter rc_Flipped changes) =
      map (\<lambda>r. (rf_ID r, rf_Amount r, verdict b r, verdict a r)) (filter (\<lambda>r. verdict b r \<noteq> verdict a r) history)"
proof -
  define ts where "ts = map now [0..<length history]"
  have ts: "length ts = length history" by (simp add: ts_def)
  have "rc_record dec hs now l before = Ok (map2 (recording_of b) history ts)"
    using record_all_recordings [where dec = dec, OF assms(1) history_amounts, of hs now l 0] by (simp add: rc_record_def ts_def)
  moreover have "replayUnder dec hs' l' after (map2 (recording_of b) history ts) = Ok (changes_of b a history ts)"
    by (simp add: replayUnder_def replay_all_changes [where dec = dec, OF assms(2) history_amounts ts]
        stable_sort_sorted changes_in_order [OF ts history_in_order])
  ultimately show ?thesis using ts flipped_changes [OF ts] by auto
qed

text \<open>A decoder that knows the two texts of the demonstration, and what flips from 100 to 50.\<close>

definition two_texts :: "string \<Rightarrow> string + manifest_file" where
  "two_texts text =
     (if text = manifestTemplate ''100'' then Inr (refund_manifest 100)
      else if text = manifestTemplate ''50'' then Inr (refund_manifest 50) else Inl ''unexpected'')"

definition quiet_lab :: "unit lab" where
  "quiet_lab =
     \<lparr>lab_outside = (), lab_recorder = NewRecorder,
      lab_player = \<lparr>pl_byRef = (\<lambda>_. []), pl_extractions = (\<lambda>_. []), pl_unmatched = []\<rparr>\<rparr>"

lemma two_texts_simps: "two_texts (manifestTemplate ''100'') = Inr (refund_manifest 100)" "two_texts (manifestTemplate ''50'') = Inr (refund_manifest 50)"
  by (simp_all add: two_texts_def manifestTemplate_def)

lemma flips_of_the_quarter:
  "map (\<lambda>r. (rf_ID r, rf_Amount r, verdict 100 r, verdict 50 r)) (filter (\<lambda>r. verdict 100 r \<noteq> verdict 50 r) history) =
    [(''r-0005'', Fin 63, ''paid'', ''held''), (''r-0006'', Fin 95, ''paid'', ''held''), (''r-0009'', Fin 74, ''paid'', ''held''), (''r-0011'', Fin 88, ''paid'', ''held''), (''r-0015'', Fin 57, ''paid'', ''held''), (''r-0016'', Fin 99, ''paid'', ''held''), (''r-0018'', Fin 68, ''paid'', ''held''), (''r-0020'', Fin 52, ''paid'', ''held''), (''r-0022'', Fin 85, ''paid'', ''held''), (''r-0025'', Fin 61, ''paid'', ''held''), (''r-0026'', Fin 91, ''paid'', ''held''), (''r-0028'', Fin 72, ''paid'', ''held''), (''r-0033'', Fin 66, ''paid'', ''held''), (''r-0035'', Fin 55, ''paid'', ''held''), (''r-0036'', Fin 97, ''paid'', ''held'')]"
  by (simp add: history_def refund_at_def amounts_def zero_padded_def digits_of.simps upt_rec verdict_def is_open_def dollars_def
      closedAccounts_def replicate_up_to_3 char_of_eq_iff)

lemma quarter_replayed_witness:
  "\<exists>recs changes.
    rc_record two_texts (\<lambda>_. in_order_host (\<lambda>n w. (Inl [], w))) (\<lambda>_. 0) quiet_lab ''100'' = Ok recs \<and>
    length recs = length history \<and>
    replayUnder two_texts (\<lambda>_. in_order_host (\<lambda>n w. (Inl [], w))) quiet_lab ''50'' recs = Ok changes \<and>
    map flip_row (filter rc_Flipped changes) =
    [(''r-0005'', Fin 63, ''paid'', ''held''), (''r-0006'', Fin 95, ''paid'', ''held''), (''r-0009'', Fin 74, ''paid'', ''held''), (''r-0011'', Fin 88, ''paid'', ''held''), (''r-0015'', Fin 57, ''paid'', ''held''), (''r-0016'', Fin 99, ''paid'', ''held''), (''r-0018'', Fin 68, ''paid'', ''held''), (''r-0020'', Fin 52, ''paid'', ''held''), (''r-0022'', Fin 85, ''paid'', ''held''), (''r-0025'', Fin 61, ''paid'', ''held''), (''r-0026'', Fin 91, ''paid'', ''held''), (''r-0028'', Fin 72, ''paid'', ''held''), (''r-0033'', Fin 66, ''paid'', ''held''), (''r-0035'', Fin 55, ''paid'', ''held''), (''r-0036'', Fin 97, ''paid'', ''held'')]"
  using quarter_replayed [where hs = "\<lambda>_. in_order_host (\<lambda>n w. (Inl [], w))" and hs' = "\<lambda>_. in_order_host (\<lambda>n w. (Inl [], w))"
      and now = "\<lambda>_. 0" and l = quiet_lab and l' = quiet_lab, OF two_texts_simps]
  unfolding flips_of_the_quarter .

end
