(* ===== verification/CodeAudit.thy ===== *)
theory CodeAudit
  imports Demo Injector SiteText Drafting
begin

text \<open>
  The review agent (\<open>examples/code_audit/main.go\<close>): a scanner's or a model's finding is routed, run through
  the gate workflow of \<open>examples/manifests/code-audit.json\<close>, and reported. Reading the manifest's file and
  decoding its JSON are parameters; so are the Unicode tables, the schedule of a run and the order of a map's
  iteration. What is printed is a list of lines.
\<close>

section \<open>The extractor\<close>

definition category_of :: "string list \<Rightarrow> string" where
  "category_of fs = fold (\<lambda>f cat. if has_prefix f ''category='' then trim_prefix f ''category='' else cat) fs ''unknown''"

definition trim_brackets :: "string \<Rightarrow> string" where
  "trim_brackets s = trim_right_by (\<lambda>c. c \<in> {CHR ''['', CHR '']''}) (trim_left_by (\<lambda>c. c \<in> {CHR ''['', CHR '']''}) s)"

definition parseFinding :: "string \<Rightarrow> string + ctx" where
  "parseFinding raw =
     (let fs = Fields raw in
      if length fs < 3 then Inl ''finding text is too short to parse''
      else
        (let loc = fs ! 0 in
         case last_index (CHR '':'') loc of
           None \<Rightarrow> Inl ''finding has no file:line location''
         | Some colon \<Rightarrow>
             (case Atoi (drop (colon + 1) loc) of
                (line, ok) \<Rightarrow>
                  if \<not> ok then Inl (''finding line '' @ quoted (drop (colon + 1) loc) @ '' is not a number'')
                  else
                    Inr [(''category'', GStr (category_of (drop 2 fs))), (''file'', GStr (take colon loc)),
                         (''line'', GFloat (f64_of_int line)), (''severity'', GStr (trim_brackets (fs ! 1)))])))"

definition finding_schema :: schema where
  "finding_schema =
     [(''category'', FieldString), (''file'', FieldString), (''line'', FieldFloat64), (''severity'', FieldString)]"

definition audit_injector :: "'w injector" where
  "audit_injector = RegisterSchema ''codeaudit.finding_fields'' finding_schema (\<lambda>raw w. (parseFinding raw, w)) NewInjector"

section \<open>The probe and the actions\<close>

definition blockingSeverity :: "string \<Rightarrow> bool" where
  "blockingSeverity sev \<longleftrightarrow> sev = ''high'' \<or> sev = ''critical''"

definition truthy :: "gval \<Rightarrow> bool" where
  "truthy v \<longleftrightarrow> v = GBool True"

definition assess_action :: "'w probe" where
  "assess_action c w =
     (let action = ctx_str c ''gate_action'' in
      (if action = ''block_merge'' then
         (if truthy (ctx_get c ''is_incident_hotfix'') then
            (False, ''the pull request is the hotfix for an active incident; blocking it keeps the fix from shipping'', None)
          else (True, [], None))
       else if action = ''apply_autofix'' then
         (if truthy (ctx_get c ''file_generated'') then
            (False, fmt_v (ctx_get c ''file'') @
               '' is generated; an autofix there is overwritten on the next build and hides the real source'', None)
          else (True, [], None))
       else if action = ''comment'' then (True, [], None)
       else (False, ''unknown gate action '' @ quoted action, None), w))"

definition classify_finding :: "'w action" where
  "classify_finding c w =
     (let severity = ctx_str c ''severity'' in
      (if severity = [] then Fails ''finding carries no severity to classify''
       else
         (let blocking = blockingSeverity severity; autofixable = truthy (ctx_get c ''autofixable'');
              action = (if blocking then ''block_merge'' else if autofixable then ''apply_autofix'' else ''comment'') in
          Output [(''gate_action'', GStr action), (''is_blocking'', GBool blocking),
                  (''needs_gate'', GBool (blocking \<or> autofixable))]), w))"

definition apply_gate :: "'w action" where
  "apply_gate c w =
     (let action = ctx_str c ''gate_action''; file = ctx_str c ''file'' in
      (if action = ''block_merge'' then
         Output [(''disposition'', GStr ''merge blocked; changes requested''), (''executed'', GStr (''block_merge on '' @ file))]
       else if action = ''apply_autofix'' then
         Output [(''disposition'', GStr ''autofix applied''), (''executed'', GStr (''apply_autofix on '' @ file))]
       else Fails (''apply_gate reached with a non-gating action '' @ quoted action), w))"

definition post_comment :: "'w action" where
  "post_comment c w = (Output [(''disposition'', GStr ''commented (non-blocking)'')], w)"

definition audit_hooks :: "'w hooks" where
  "audit_hooks =
     [''codeaudit.classify'' \<mapsto> classify_finding, ''codeaudit.apply_gate'' \<mapsto> apply_gate, ''codeaudit.post_comment'' \<mapsto> post_comment]"

section \<open>The manifest and the runtime\<close>

text \<open>What the manifest's file declares; \<open>0.6\<close> is the float nearest to it.\<close>

definition audit_manifest :: manifest_file where
  "audit_manifest =
     \<lparr>file_Name = ''codeaudit'',
      file_Intents =
        [\<lparr>ispec_NodeID = ''codeaudit.review_finding'',
          ispec_Examples =
            [''review this code finding in the pull request'', ''audit this pull request change for security issues'',
             ''triage this static analysis finding'', ''check this scanner result on the diff''],
          ispec_EntryWorkflowRef = ''codeaudit.triage'', ispec_DeprecatedEntryStepRef = []\<rparr>],
      file_Policies =
        [\<lparr>pspec_PolicyID = ''to_human'', pspec_FallbackStepRef = ''hold_for_human''\<rparr>,
         \<lparr>pspec_PolicyID = ''route_to_gate'', pspec_FallbackStepRef = ''require_verified_severity''\<rparr>],
      file_Workflows =
        [\<lparr>wspec_WorkflowID = ''codeaudit.triage'', wspec_EntryStepID = ''classify'',
          wspec_Steps =
            [(json_leaf ''classify'' ''codeaudit.classify'' []) \<lparr>sspec_OnSuccess := ''require_confidence''\<rparr>,
             (json_leaf ''require_confidence'' ''std.require''
                [(''field'', GStr ''finding_confidence''), (''op'', GStr ''gte''), (''value'', GFloat (round64 (3 / 5)))])
               \<lparr>sspec_CircuitBreakerPolicyRef := ''to_human'', sspec_OnSuccess := ''check_needs_gate''\<rparr>,
             (json_leaf ''check_needs_gate'' ''std.require''
                [(''field'', GStr ''needs_gate''), (''op'', GStr ''eq''), (''value'', GBool False)])
               \<lparr>sspec_CircuitBreakerPolicyRef := ''route_to_gate'', sspec_OnSuccess := ''post_comment''\<rparr>,
             (json_leaf ''require_verified_severity'' ''std.require_verified'' [(''fields'', GArr [GStr ''severity''])])
               \<lparr>sspec_CircuitBreakerPolicyRef := ''to_human'', sspec_OnSuccess := ''apply_gate''\<rparr>,
             (json_leaf ''apply_gate'' ''codeaudit.apply_gate'' [])
               \<lparr>sspec_SandboxProbeRef := ''codeaudit.assess_action_blast_radius'', sspec_CircuitBreakerPolicyRef := ''to_human''\<rparr>,
             json_leaf ''post_comment'' ''codeaudit.post_comment'' [],
             json_leaf ''hold_for_human'' ''std.set'' [(''fields'', GObj [(''disposition'', GStr ''held_for_human_review'')])]]\<rparr>]\<rparr>"

definition audit_sandbox :: "'w sandbox" where
  "audit_sandbox = RegisterProbe NewSandbox ''codeaudit.assess_action_blast_radius'' assess_action"

definition audit_buildRuntime :: "(string \<Rightarrow> string + string) \<Rightarrow> (string \<Rightarrow> string + manifest_file) \<Rightarrow>
    (string, 'w router \<times> ('w, 's) engine) res" where
  "audit_buildRuntime read_file dec =
     example_runtime ''examples/manifests/code-audit.json'' read_file dec audit_hooks (round64 (3 / 10))
       (NewEngine (Some (sandbox_Probe audit_sandbox)))"

section \<open>Findings\<close>

record finding =
  fd_summary :: string
  fd_source :: string
  fd_raw :: string
  fd_file :: string
  fd_line :: float64
  fd_severity :: string
  fd_category :: string
  fd_autofixable :: bool
  fd_confidence :: float64
  fd_isIncidentHotfix :: bool
  fd_fileGenerated :: bool
  fd_note :: string

definition finding_metadata :: "finding \<Rightarrow> ctx" where
  "finding_metadata f =
     [(''autofixable'', GBool (fd_autofixable f)), (''file_generated'', GBool (fd_fileGenerated f)),
      (''finding_confidence'', GFloat (fd_confidence f)), (''is_incident_hotfix'', GBool (fd_isIncidentHotfix f))]"

text \<open>The context of a finding's run, or the line that is printed instead of one.\<close>

definition finding_context :: "(schema \<Rightarrow> schema) \<Rightarrow> 'w injector \<Rightarrow> finding \<Rightarrow> 'w \<Rightarrow> (string + ctx) \<times> 'w" where
  "finding_context range_schema ij f w =
     (if fd_source f = ''scanner'' then
        (Inr (gmerge (finding_metadata f)
           [(''file'', GStr (fd_file f)), (''line'', GFloat (fd_line f)), (''severity'', GStr (fd_severity f)),
            (''category'', GStr (fd_category f))]), w)
      else if fd_source f = ''llm'' then
        (case Extract range_schema ij
                \<lparr>exreq_RawText = fd_raw f, exreq_SchemaRef = ''codeaudit.finding_fields'', exreq_DomainID = ''codeaudit''\<rparr> w of
           (result, w1) \<Rightarrow>
             (if \<not> exres_Success result then Inl (''  -> extraction failed: '' @ fmt_v (GStrs (exres_ValidationErrors result)))
              else Inr (ContextFrom (finding_metadata f) result), w1))
      else (Inl (''  -> unknown finding source '' @ quoted (fd_source f)), w))"

definition audit_result_lines :: "outcome \<Rightarrow> string list" where
  "audit_result_lines r =
     (case r of
        Ok result \<Rightarrow>
          [''  -> '' @ fmt_v (ctx_get (wr_Output result) ''disposition'')] @
          (case map_of (wr_Output result) ''executed'' of
             Some executed \<Rightarrow> [''     action: '' @ fmt_v executed]
           | None \<Rightarrow>
               (case map_of (wr_Output result) FailureReasonKey of
                  Some why \<Rightarrow> [''     because: '' @ fmt_v why]
                | None \<Rightarrow> [])) @
          [''     trace: '' @ fmt_v (GStrs (wr_Trace result))]
      | Err err \<Rightarrow> [''  -> halted: '' @ error_text err]
      | Panic p \<Rightarrow> [])"

definition finding_header :: "finding \<Rightarrow> string list" where
  "finding_header f = [[], ''PR FINDING  '' @ fd_summary f, ''            source='' @ fd_source f @ ''  ('' @ fd_note f @ '')'']"

definition audit_handle :: "unicode \<Rightarrow> (schema \<Rightarrow> schema) \<Rightarrow> 'w host \<Rightarrow> ('w, 's) engine \<Rightarrow> 'w injector \<Rightarrow> finding \<Rightarrow>
    'w router \<times> ('w, 's) rt \<Rightarrow> string list returned \<times> 'w router \<times> ('w, 's) rt" where
  "audit_handle u range_schema h e ij f st =
     print_then (finding_header f)
       (case st of (router, rt) \<Rightarrow>
        case Match u ''codeaudit'' (fd_summary f) router (rt_world rt) of (m, router1, w1) \<Rightarrow>
          if \<not> match_Matched m then
            (Returns [''  -> no review intent matched (best score '' @ fmt_fixed 2 (match_Confidence m) @
               ''); would fall through to extraction''], router1, rt\<lparr>rt_world := w1\<rparr>)
          else
            (case finding_context range_schema ij f w1 of
               (Inl line, w2) \<Rightarrow> (Returns [line], router1, rt\<lparr>rt_world := w2\<rparr>)
             | (Inr c, w2) \<Rightarrow>
                 (case Run h e (match_EntryWorkflowRef m) c (rt\<lparr>rt_world := w2\<rparr>) of
                    (Panic p, rt1) \<Rightarrow> (Panicked p, router1, rt1)
                  | (r, rt1) \<Rightarrow> (Returns (audit_result_lines r), router1, rt1))))"

definition audit_feed :: "finding list" where
  "audit_feed =
    [\<lparr>fd_summary = ''review this scanner result on the diff'', fd_source = ''scanner'', fd_raw = [],
      fd_file = ''internal/auth/login.go'', fd_line = Fin 42, fd_severity = ''critical'', fd_category = ''injection'', fd_autofixable = False,
      fd_confidence = round64 (49 / 50), fd_isIncidentHotfix = False, fd_fileGenerated = False,
      fd_note = ''real SQL injection on an ordinary path '' @ em_dash @ '' block it''\<rparr>,
     \<lparr>fd_summary = ''audit this pull request change for security issues'', fd_source = ''scanner'', fd_raw = [],
      fd_file = ''internal/auth/session.go'', fd_line = Fin 88, fd_severity = ''critical'', fd_category = ''injection'', fd_autofixable = False,
      fd_confidence = round64 (97 / 100), fd_isIncidentHotfix = True, fd_fileGenerated = False,
      fd_note = ''same severity, but this PR is the hotfix ending a live incident''\<rparr>,
     \<lparr>fd_summary = ''review this code finding in the pull request'', fd_source = ''llm'', fd_raw = ''internal/api/handler.go:120 [critical] category=injection model thinks this concatenation is exploitable'',
      fd_file = [], fd_line = Fin 0, fd_severity = [], fd_category = [], fd_autofixable = False,
      fd_confidence = round64 (9 / 10), fd_isIncidentHotfix = False, fd_fileGenerated = False,
      fd_note = ''the model guessed 'critical' from prose '' @ em_dash @ '' a guess must not auto-block''\<rparr>,
     \<lparr>fd_summary = ''triage this static analysis finding'', fd_source = ''scanner'', fd_raw = [],
      fd_file = ''internal/util/format.go'', fd_line = Fin 12, fd_severity = ''low'', fd_category = ''style'', fd_autofixable = True,
      fd_confidence = round64 (19 / 20), fd_isIncidentHotfix = False, fd_fileGenerated = False,
      fd_note = ''trivial style issue on hand-written code '' @ em_dash @ '' safe to autofix''\<rparr>,
     \<lparr>fd_summary = ''triage this static analysis finding'', fd_source = ''scanner'', fd_raw = [],
      fd_file = ''internal/pb/service.pb.go'', fd_line = Fin 3001, fd_severity = ''low'', fd_category = ''style'', fd_autofixable = True,
      fd_confidence = round64 (19 / 20), fd_isIncidentHotfix = False, fd_fileGenerated = True,
      fd_note = ''same autofix, but the file is generated''\<rparr>,
     \<lparr>fd_summary = ''check this scanner result on the diff'', fd_source = ''scanner'', fd_raw = [],
      fd_file = ''README.md'', fd_line = Fin 5, fd_severity = ''info'', fd_category = ''docs'', fd_autofixable = False,
      fd_confidence = round64 (99 / 100), fd_isIncidentHotfix = False, fd_fileGenerated = False,
      fd_note = ''informational '' @ em_dash @ '' a comment is enough''\<rparr>,
     \<lparr>fd_summary = ''audit this pull request change for security issues'', fd_source = ''scanner'', fd_raw = [],
      fd_file = ''internal/net/dial.go'', fd_line = Fin 61, fd_severity = ''high'', fd_category = ''tls'', fd_autofixable = False,
      fd_confidence = round64 (2 / 5), fd_isIncidentHotfix = False, fd_fileGenerated = False,
      fd_note = ''high severity but the scanner is unsure '' @ em_dash @ '' no auto-action on a maybe''\<rparr>,
     \<lparr>fd_summary = ''the office coffee machine is out of beans again'', fd_source = ''scanner'', fd_raw = [],
      fd_file = ''n/a'', fd_line = Fin 0, fd_severity = ''info'', fd_category = ''none'', fd_autofixable = False,
      fd_confidence = Fin 1, fd_isIncidentHotfix = False, fd_fileGenerated = False,
      fd_note = ''not a code finding at all '' @ em_dash @ '' no intent matches''\<rparr>]"

text \<open>
  The program: a diagnostics recorder observes the router and the engine, and its report ends the output. A
  failed setup is its error; \<open>hs i\<close> is the host of the \<open>i\<close>th finding's run.
\<close>

fun audit_all :: "unicode \<Rightarrow> (schema \<Rightarrow> schema) \<Rightarrow> (nat \<Rightarrow> 'w host) \<Rightarrow> ('w, 's) engine \<Rightarrow> 'w injector \<Rightarrow> nat \<Rightarrow>
    finding list \<Rightarrow> 'w router \<times> ('w, 's) rt \<Rightarrow> string list returned \<times> 'w router \<times> ('w, 's) rt" where
  "audit_all u range_schema hs e ij i [] st = (Returns [], st)"
| "audit_all u range_schema hs e ij i (f # fs) st =
     (case audit_handle u range_schema (hs i) e ij f st of
        (Panicked p, st1) \<Rightarrow> (Panicked p, st1)
      | (Returns ls, st1) \<Rightarrow> print_then ls (audit_all u range_schema hs e ij (Suc i) fs st1))"

definition audit_report :: "nat \<Rightarrow> 'w router \<times> ('w, 's) rt \<Rightarrow> diagnostics" where
  "audit_report runs st =
     (case st of (router, rt) \<Rightarrow>
        fold diag_event (rt_log rt)
          (fold (\<lambda>(_, matched). diag_ObserveMatch matched) (rtr_log router) ((diag_ObserveRun ^^ runs) diag_NewRecorder)))"

definition audit_main :: "unicode \<Rightarrow> (schema \<Rightarrow> schema) \<Rightarrow> (nat \<Rightarrow> 'w host) \<Rightarrow> (string \<Rightarrow> string + string) \<Rightarrow>
    (string \<Rightarrow> string + manifest_file) \<Rightarrow> 'w \<Rightarrow> (string, string list) res" where
  "audit_main u range_schema hs read_file dec w =
     (case audit_buildRuntime read_file dec of
        Err err \<Rightarrow> Err (''setup failed: '' @ err)
      | Panic p \<Rightarrow> Panic p
      | Ok (router, e) \<Rightarrow>
          (case audit_all u range_schema hs (SetObserver (Some diag_observer) e) audit_injector 0 audit_feed
                  (router_SetObserver True router, \<lparr>rt_world = w, rt_store = NewMemoryStore, rt_log = []\<rparr>) of
             (Panicked p, st) \<Rightarrow> Panic p
           | (Returns ls, st) \<Rightarrow>
               Ok (ls @ [[], diagnostics_String (audit_report (length audit_feed) st)])))"

end
