(* ===== verification/CodeAuditFacts.thy ===== *)
theory CodeAuditFacts
  imports CodeAudit Walks
begin

text \<open>
  What the review agent does with a finding: the whole table of rulings, for a scanner's finding and for a
  model's, and that a model's is never acted on.
\<close>

section \<open>The loaded workflow\<close>

definition audit_flow :: "'w workflow" where
  "audit_flow =
     \<lparr>wf_WorkflowID = ''codeaudit.triage'', wf_DomainID = ''codeaudit'', wf_EntryStepID = ''classify'',
      wf_Steps =
       [''classify'' \<mapsto> LeafStep (plain_leaf ''classify'' classify_finding [] [] ''require_confidence''),
        ''require_confidence'' \<mapsto> LeafStep (plain_leaf ''require_confidence''
           (require_action ''finding_confidence'' ''gte'' (GFloat (round64 (3 / 5)))) [] ''to_human'' ''check_needs_gate''),
        ''check_needs_gate'' \<mapsto> LeafStep (plain_leaf ''check_needs_gate''
           (require_action ''needs_gate'' ''eq'' (GBool False)) [] ''route_to_gate'' ''post_comment''),
        ''require_verified_severity'' \<mapsto> LeafStep (plain_leaf ''require_verified_severity''
           (verified_action [''severity'']) [] ''to_human'' ''apply_gate''),
        ''apply_gate'' \<mapsto> LeafStep (plain_leaf ''apply_gate'' apply_gate ''codeaudit.assess_action_blast_radius'' ''to_human'' []),
        ''post_comment'' \<mapsto> LeafStep (plain_leaf ''post_comment'' post_comment [] [] []),
        ''hold_for_human'' \<mapsto> LeafStep (plain_leaf ''hold_for_human''
           (set_action [(''disposition'', GStr ''held_for_human_review'')]) [] [] [])]\<rparr>"

definition audit_engine :: "observer option \<Rightarrow> ('w, 's) engine" where
  "audit_engine ob =
     \<lparr>eng_sandbox = Some (sandbox_Probe audit_sandbox), eng_observer = ob,
      eng_workflows = [''codeaudit.triage'' \<mapsto> audit_flow],
      eng_policies = [''to_human'' \<mapsto> \<lparr>pol_PolicyID = ''to_human'', pol_FallbackStepRef = ''hold_for_human''\<rparr>,
        ''route_to_gate'' \<mapsto> \<lparr>pol_PolicyID = ''route_to_gate'', pol_FallbackStepRef = ''require_verified_severity''\<rparr>],
      eng_store = None, eng_authorizer = None, eng_maxSteps = DefaultMaxSteps, eng_maxDepth = DefaultMaxDepth\<rparr>"

definition audit_node :: intent_node where
  "audit_node =
     \<lparr>node_NodeID = ''codeaudit.review_finding'', node_DomainID = ''codeaudit'',
      node_Examples = [''review this code finding in the pull request'', ''audit this pull request change for security issues'',
        ''triage this static analysis finding'', ''check this scanner result on the diff''],
      node_EntryWorkflowRef = ''codeaudit.triage'', node_Metadata = []\<rparr>"

lemma audit_domain:
  "Load (Inr audit_manifest) audit_hooks Default =
     Ok \<lparr>dom_Name = ''codeaudit'', dom_Intents = [audit_node], dom_Workflows = [audit_flow\<lparr>wf_DomainID := []\<rparr>],
         dom_Policies = [\<lparr>pol_PolicyID = ''to_human'', pol_FallbackStepRef = ''hold_for_human''\<rparr>,
           \<lparr>pol_PolicyID = ''route_to_gate'', pol_FallbackStepRef = ''require_verified_severity''\<rparr>]\<rparr>"
  by (simp add: literal_load audit_manifest_def audit_flow_def audit_hooks_def audit_node_def)


lemma audit_runtime:
  assumes "read_file ''examples/manifests/code-audit.json'' = Inr data" and "dec data = Inr audit_manifest"
  shows "audit_buildRuntime read_file dec =
    Ok (RegisterNode audit_node (NewRouter (round64 (3 / 10))), audit_engine None)"
  by (simp add: audit_buildRuntime_def example_runtime_def assms audit_domain RegisterDomain_def NewRegistry_def NewEngine_def
      RegisterWorkflow_def RegisterPolicy_def claim_workflow_def audit_engine_def audit_flow_def Let_def)

lemma audit_steps:
  "wf_Steps audit_flow ''classify'' = Some (LeafStep (plain_leaf ''classify'' classify_finding [] [] ''require_confidence''))"
  "wf_Steps audit_flow ''require_confidence'' = Some (LeafStep (plain_leaf ''require_confidence''
     (require_action ''finding_confidence'' ''gte'' (GFloat (round64 (3 / 5)))) [] ''to_human'' ''check_needs_gate''))"
  "wf_Steps audit_flow ''check_needs_gate'' = Some (LeafStep (plain_leaf ''check_needs_gate''
     (require_action ''needs_gate'' ''eq'' (GBool False)) [] ''route_to_gate'' ''post_comment''))"
  "wf_Steps audit_flow ''require_verified_severity'' = Some (LeafStep (plain_leaf ''require_verified_severity''
     (verified_action [''severity'']) [] ''to_human'' ''apply_gate''))"
  "wf_Steps audit_flow ''apply_gate'' = Some (LeafStep (plain_leaf ''apply_gate'' apply_gate
     ''codeaudit.assess_action_blast_radius'' ''to_human'' []))"
  "wf_Steps audit_flow ''post_comment'' = Some (LeafStep (plain_leaf ''post_comment'' post_comment [] [] []))"
  "wf_Steps audit_flow ''hold_for_human'' = Some (LeafStep (plain_leaf ''hold_for_human''
     (set_action [(''disposition'', GStr ''held_for_human_review'')]) [] [] []))"
  by (simp_all add: audit_flow_def)

lemma audit_engine_parts [simp]:
  "eng_sandbox (audit_engine ob) = Some (sandbox_Probe audit_sandbox)" "eng_maxSteps (audit_engine ob) = 10000"
  "eng_maxDepth (audit_engine ob) = 64"
  "eng_workflows (audit_engine ob) ''codeaudit.triage'' = Some audit_flow" "wf_EntryStepID audit_flow = ''classify''"
  "eng_policies (audit_engine ob) ''to_human'' = Some \<lparr>pol_PolicyID = ''to_human'', pol_FallbackStepRef = ''hold_for_human''\<rparr>"
  "eng_policies (audit_engine ob) ''route_to_gate'' =
     Some \<lparr>pol_PolicyID = ''route_to_gate'', pol_FallbackStepRef = ''require_verified_severity''\<rparr>"
  "sb_probes audit_sandbox ''codeaudit.assess_action_blast_radius'' = Some assess_action"
  by (simp_all add: audit_engine_def audit_flow_def DefaultMaxSteps_def DefaultMaxDepth_def audit_sandbox_def RegisterProbe_def)

section \<open>From each step on\<close>

abbreviation (input) from_step :: "string \<Rightarrow> ('w, 's) runner \<Rightarrow> 'w host \<Rightarrow> observer option \<Rightarrow> int \<Rightarrow> ctx \<Rightarrow> completed list \<Rightarrow>
    string list \<Rightarrow> ('w, 's) rt \<Rightarrow> outcome" where
  "from_step sid sub h ob n c dn t rt \<equiv>
     fst (run_loop sub h (audit_engine ob) audit_flow ''codeaudit.triage'' 0 n
       \<lparr>cur_step = sid, cur_ctx = c, cur_done = dn, cur_trace = t\<rparr> rt)"

lemma key_names:
  "k \<noteq> FailureReasonKey \<and> k \<noteq> FailedStepKey" if "k \<in> {''executed'', ''gate_action'', ''needs_gate'', ''finding_confidence'',
    ''is_incident_hotfix'', ''file_generated'', ''file'', ModelDerivedKey}"
  using that by (auto simp: FailureReasonKey_def FailedStepKey_def ModelDerivedKey_def)

lemma diverted:
  assumes "k \<in> {''executed'', ''gate_action'', ''needs_gate'', ''finding_confidence'', ''is_incident_hotfix'', ''file_generated'', ''file'', ModelDerivedKey}"
  shows "map_of (gmerge c [(FailureReasonKey, GStr msg), (FailedStepKey, GStr sid)]) k = map_of c k"
  using key_names [OF assms] by simp

lemma from_hold:
  assumes "n \<le> 100" and "map_of c ''executed'' = None"
  shows "ended ''held_for_human_review'' False (from_step ''hold_for_human'' sub h ob n c dn t rt)"
  by (rule go_output [OF audit_steps(7), where out = "[(''disposition'', GStr ''held_for_human_review'')]"])
    (use assms in \<open>simp_all add: set_action_def go_end ended_def\<close>)

lemma from_comment:
  assumes "n \<le> 100" and "map_of c ''executed'' = None"
  shows "ended ''commented (non-blocking)'' False (from_step ''post_comment'' sub h ob n c dn t rt)"
  by (rule go_output [OF audit_steps(6), where out = "[(''disposition'', GStr ''commented (non-blocking)'')]"])
    (use assms in \<open>simp_all add: post_comment_def go_end ended_def\<close>)

text \<open>The gate: what its probe stops, and what it does.\<close>

definition stopped :: "ctx \<Rightarrow> bool" where
  "stopped c \<longleftrightarrow>
     (if ctx_str c ''gate_action'' = ''block_merge'' then ctx_get c ''is_incident_hotfix'' = GBool True
      else ctx_get c ''file_generated'' = GBool True)"

definition gate_disposition :: "ctx \<Rightarrow> string" where
  "gate_disposition c =
     (if ctx_str c ''gate_action'' = ''block_merge'' then ''merge blocked; changes requested'' else ''autofix applied'')"

lemma at_the_gate:
  assumes "ctx_str c ''gate_action'' \<in> {''block_merge'', ''apply_autofix''}"
  shows "\<exists>mode. (\<forall>w. assess_action c w = ((\<not> stopped c, mode, None), w)) \<and> (stopped c \<longrightarrow> mode \<noteq> [])"
    and "\<exists>out. (\<forall>w. apply_gate c w = (Output out, w)) \<and> map_of out ''disposition'' = Some (GStr (gate_disposition c)) \<and>
      map_of out ''executed'' \<noteq> None"
proof -
  consider (block) "ctx_str c ''gate_action'' = ''block_merge''" | (autofix) "ctx_str c ''gate_action'' = ''apply_autofix''"
    using assms by blast
  then show "\<exists>mode. (\<forall>w. assess_action c w = ((\<not> stopped c, mode, None), w)) \<and> (stopped c \<longrightarrow> mode \<noteq> [])"
    by cases (simp_all add: assess_action_def stopped_def truthy_def Let_def)
  from assms show "\<exists>out. (\<forall>w. apply_gate c w = (Output out, w)) \<and> map_of out ''disposition'' = Some (GStr (gate_disposition c)) \<and>
      map_of out ''executed'' \<noteq> None"
    by (elim insertE emptyE) (simp_all add: apply_gate_def gate_disposition_def Let_def)
qed

lemma from_gate:
  assumes "n \<le> 99" and "map_of c ''executed'' = None" and "ctx_str c ''gate_action'' \<in> {''block_merge'', ''apply_autofix''}"
  shows "ended (if stopped c then ''held_for_human_review'' else gate_disposition c) (\<not> stopped c)
    (from_step ''apply_gate'' sub h ob n c dn t (rt :: ('w, 's) rt))"
proof -
  obtain mode where mode: "\<And>w :: 'w. assess_action c w = ((\<not> stopped c, mode, None), w)" "stopped c \<Longrightarrow> mode \<noteq> []"
    using at_the_gate(1) [OF assms(3)] by blast
  obtain out where out: "\<And>w :: 'w. apply_gate c w = (Output out, w)"
    "map_of out ''disposition'' = Some (GStr (gate_disposition c))" "map_of out ''executed'' \<noteq> None"
    using at_the_gate(2) [OF assms(3)] by blast
  have "ended ''held_for_human_review'' False (from_step ''apply_gate'' sub h ob n c dn t rt)" if "stopped c"
  proof (rule go_refused [OF audit_steps(5), where mode = mode and probe = assess_action and sb = audit_sandbox
          and f = "''hold_for_human''" and pid = "''to_human''"])
    show "\<And>w :: 'w. assess_action c w = ((False, mode, None), w)" "mode \<noteq> []" using mode that by simp_all
  qed (use assms(1,2) in \<open>simp_all add: from_hold diverted del: gmerge.simps map_of_gmerge\<close>)
  moreover have "ended (gate_disposition c) True (from_step ''apply_gate'' sub h ob n c dn t rt)" if "\<not> stopped c"
  proof (rule go_healthy [OF audit_steps(5), where out = out and probe = assess_action and sb = audit_sandbox and mode = mode])
    show "\<And>w :: 'w. assess_action c w = ((True, mode, None), w)" using mode that by simp
  qed (use assms(1) out in \<open>auto simp: go_end ended_def map_add_Some_iff\<close>)
  ultimately show ?thesis by simp
qed


lemma from_gate_as:
  assumes "n \<le> 99" and "map_of c ''executed'' = None" and "ctx_str c ''gate_action'' \<in> {''block_merge'', ''apply_autofix''}"
    and "d = (if stopped c then ''held_for_human_review'' else gate_disposition c)" and "a = (\<not> stopped c)"
  shows "ended d a (from_step ''apply_gate'' sub h ob n c dn t rt)"
  unfolding assms(4,5) by (rule from_gate [OF assms(1-3)])

lemma from_verified:
  assumes "n \<le> 98" and "map_of c ''executed'' = None" and "ctx_str c ''gate_action'' \<in> {''block_merge'', ''apply_autofix''}"
  shows "ended (if stopped c \<or> ''severity'' \<in> set (provenanceOf c) then ''held_for_human_review'' else gate_disposition c)
    (\<not> (stopped c \<or> ''severity'' \<in> set (provenanceOf c))) (from_step ''require_verified_severity'' sub h ob n c dn t rt)"
proof (cases "''severity'' \<in> set (provenanceOf c)")
  case True
  have "ended ''held_for_human_review'' False (from_step ''require_verified_severity'' sub h ob n c dn t rt)"
    by (rule go_fallback [OF audit_steps(4), where f = "''hold_for_human''" and pid = "''to_human''"])
      (use True assms(1,2) in \<open>simp_all add: verified_action_def from_hold diverted del: gmerge.simps map_of_gmerge\<close>)
  with True show ?thesis by simp
next
  case False
  show ?thesis
    by (rule go_output [OF audit_steps(4), where out = "[]"])
      (use False assms in \<open>simp_all add: verified_action_def from_gate_as\<close>)
qed

lemma from_verified_as:
  assumes "n \<le> 98" and "map_of c ''executed'' = None" and "ctx_str c ''gate_action'' \<in> {''block_merge'', ''apply_autofix''}"
    and "d = (if stopped c \<or> ''severity'' \<in> set (provenanceOf c) then ''held_for_human_review'' else gate_disposition c)"
    and "a = (\<not> (stopped c \<or> ''severity'' \<in> set (provenanceOf c)))"
  shows "ended d a (from_step ''require_verified_severity'' sub h ob n c dn t rt)"
  unfolding assms(4,5) by (rule from_verified [OF assms(1-3)])

lemma from_needs:
  assumes "n \<le> 97" and "map_of c ''executed'' = None" and "map_of c ''needs_gate'' = Some (GBool b)"
    and "b \<Longrightarrow> ctx_str c ''gate_action'' \<in> {''block_merge'', ''apply_autofix''}"
  shows "ended (if \<not> b then ''commented (non-blocking)''
      else if stopped c \<or> ''severity'' \<in> set (provenanceOf c) then ''held_for_human_review'' else gate_disposition c)
    (b \<and> \<not> (stopped c \<or> ''severity'' \<in> set (provenanceOf c))) (from_step ''check_needs_gate'' sub h ob n c dn t (rt :: ('w, 's) rt))"
proof -
  have cmp: "compare (ctx_get c ''needs_gate'') ''eq'' (GBool False) = Ok (\<not> b)"
    using assms(3) by (simp add: compare_def ctx_get_def equals_res_def equals_def toFloat_def go_eq_def)
  show ?thesis
  proof (cases b)
    case True
    define msg where "msg = requirement_not_met ''needs_gate'' (ctx_get c ''needs_gate'') ''eq'' (GBool False)"
    let ?c = "gmerge c [(FailureReasonKey, GStr msg), (FailedStepKey, GStr ''check_needs_gate'')]"
    have same: "stopped ?c = stopped c" "provenanceOf ?c = provenanceOf c" "ctx_str ?c ''gate_action'' = ctx_str c ''gate_action''"
      "gate_disposition ?c = gate_disposition c" "map_of ?c ''executed'' = map_of c ''executed''"
      by (simp_all add: stopped_def provenanceOf_def ctx_str_def ctx_get_def gate_disposition_def diverted del: gmerge.simps map_of_gmerge)
    have act: "require_action ''needs_gate'' ''eq'' (GBool False) c w = (Fails msg, w)" for w :: 'w
      by (simp add: require_action_def cmp True msg_def)
    have "ended (if stopped c \<or> ''severity'' \<in> set (provenanceOf c) then ''held_for_human_review'' else gate_disposition c)
      (\<not> (stopped c \<or> ''severity'' \<in> set (provenanceOf c))) (from_step ''check_needs_gate'' sub h ob n c dn t rt)"
    proof (rule go_fallback [OF audit_steps(3) _ _ act, where f = "''require_verified_severity''" and pid = "''route_to_gate''"])
      show "ended (if stopped c \<or> ''severity'' \<in> set (provenanceOf c) then ''held_for_human_review'' else gate_disposition c)
        (\<not> (stopped c \<or> ''severity'' \<in> set (provenanceOf c)))
        (from_step ''require_verified_severity'' sub h ob (n + 1) ?c dn (t @ [''check_needs_gate'']) rt')" for rt'
        by (rule from_verified_as, unfold same) (use assms True in simp_all)
    qed (use assms(1) in simp_all)
    with True show ?thesis by simp
  next
    case False
    then have act: "require_action ''needs_gate'' ''eq'' (GBool False) c w = (Output [], w)" for w :: 'w
      by (simp add: require_action_def cmp)
    have "ended ''commented (non-blocking)'' False (from_step ''check_needs_gate'' sub h ob n c dn t rt)"
      by (rule go_output [OF audit_steps(3) _ _ act]) (use assms(1,2) in \<open>simp_all add: from_comment\<close>)
    with False show ?thesis by simp
  qed
qed


section \<open>The ruling on a finding\<close>

text \<open>What becomes of a finding of a severity, found by a scanner (verified) or guessed by a model.\<close>

definition ruling :: "bool \<Rightarrow> float64 \<Rightarrow> string \<Rightarrow> bool \<Rightarrow> bool \<Rightarrow> bool \<Rightarrow> string" where
  "ruling verified confidence severity autofixable hotfix generated =
     (if \<not> f64_le (round64 (3 / 5)) confidence then ''held_for_human_review''
      else if blockingSeverity severity then
        (if verified \<and> \<not> hotfix then ''merge blocked; changes requested'' else ''held_for_human_review'')
      else if autofixable then
        (if verified \<and> \<not> generated then ''autofix applied'' else ''held_for_human_review'')
      else ''commented (non-blocking)'')"

definition acted :: "string \<Rightarrow> bool" where
  "acted disposition \<longleftrightarrow> disposition \<in> {''merge blocked; changes requested'', ''autofix applied''}"

lemma from_confidence:
  assumes "n \<le> 96" and "map_of c ''executed'' = None" and "map_of c ''needs_gate'' = Some (GBool b)"
    and "b \<Longrightarrow> ctx_str c ''gate_action'' \<in> {''block_merge'', ''apply_autofix''}"
    and "map_of c ''finding_confidence'' = Some (GFloat x)"
    and "d = (if \<not> f64_le (round64 (3 / 5)) x then ''held_for_human_review'' else if \<not> b then ''commented (non-blocking)''
      else if stopped c \<or> ''severity'' \<in> set (provenanceOf c) then ''held_for_human_review'' else gate_disposition c)"
    and "a = (f64_le (round64 (3 / 5)) x \<and> b \<and> \<not> (stopped c \<or> ''severity'' \<in> set (provenanceOf c)))"
  shows "ended d a (from_step ''require_confidence'' sub h ob n c dn t (rt :: ('w, 's) rt))"
proof (cases "f64_le (round64 (3 / 5)) x")
  case True
  have act: "require_action ''finding_confidence'' ''gte'' (GFloat (round64 (3 / 5))) c w = (Output [], w)" for w :: 'w
    using True assms(5) by (simp add: require_action_def compare_def ctx_get_def toFloat_def)
  have d: "d = (if \<not> b then ''commented (non-blocking)''
      else if stopped c \<or> ''severity'' \<in> set (provenanceOf c) then ''held_for_human_review'' else gate_disposition c)"
    "a = (b \<and> \<not> (stopped c \<or> ''severity'' \<in> set (provenanceOf c)))"
    using True assms(6,7) by simp_all
  show ?thesis unfolding d
  proof (rule go_output [OF audit_steps(2) _ _ act])
    show "ended (if \<not> b then ''commented (non-blocking)''
        else if stopped c \<or> ''severity'' \<in> set (provenanceOf c) then ''held_for_human_review'' else gate_disposition c)
      (b \<and> \<not> (stopped c \<or> ''severity'' \<in> set (provenanceOf c)))
      (from_step ''check_needs_gate'' sub h ob (n + 1) (gmerge c []) dn (t @ [''require_confidence'']) rt')" for rt'
      unfolding gmerge.simps by (rule from_needs) (use assms(1-4) in simp_all)
  qed (use assms(1) in simp_all)
next
  case False
  define msg where "msg = requirement_not_met ''finding_confidence'' (GFloat x) ''gte'' (GFloat (round64 (3 / 5)))"
  have act: "require_action ''finding_confidence'' ''gte'' (GFloat (round64 (3 / 5))) c w = (Fails msg, w)" for w :: 'w
    using False assms(5) by (simp add: require_action_def compare_def ctx_get_def toFloat_def msg_def)
  have d: "d = ''held_for_human_review''" "a = False" using False assms(6,7) by simp_all
  show ?thesis unfolding d
    by (rule go_fallback [OF audit_steps(2) _ _ act, where f = "''hold_for_human''" and pid = "''to_human''"])
      (use assms(1,2) in \<open>simp_all add: from_hold diverted del: gmerge.simps map_of_gmerge\<close>)
qed

text \<open>The whole run, from the context of a finding.\<close>

lemma audit_run:
  fixes rt :: "('w, 's) rt"
  assumes "map_of c ''executed'' = None" and "map_of c ''severity'' = Some (GStr severity)" and "severity \<noteq> []"
    and "map_of c ''finding_confidence'' = Some (GFloat x)" and "map_of c ''autofixable'' = Some (GBool autofixable)"
    and "map_of c ''is_incident_hotfix'' = Some (GBool hotfix)" and "map_of c ''file_generated'' = Some (GBool generated)"
    and "d = ruling (''severity'' \<notin> set (provenanceOf c)) x severity autofixable hotfix generated"
  shows "ended d (acted d) (fst (Run h (audit_engine ob) ''codeaudit.triage'' c rt))"
proof (rule Run_from [OF audit_engine_parts(4)])
  fix sub
  define b where "b \<longleftrightarrow> blockingSeverity severity \<or> autofixable"
  define action where "action = (if blockingSeverity severity then ''block_merge'' else if autofixable then ''apply_autofix'' else ''comment'')"
  define out where "out = [(''gate_action'', GStr action), (''is_blocking'', GBool (blockingSeverity severity)), (''needs_gate'', GBool b)]"
  have act: "classify_finding c w = (Output out, w)" for w :: 'w
    using assms(2,3,5) by (simp add: classify_finding_def ctx_str_def ctx_get_def truthy_def out_def b_def action_def Let_def)
  let ?c = "gmerge c out"
  have look: "map_of ?c ''executed'' = None" "map_of ?c ''needs_gate'' = Some (GBool b)" "map_of ?c ''finding_confidence'' = Some (GFloat x)"
    "ctx_str ?c ''gate_action'' = action" "ctx_get ?c ''is_incident_hotfix'' = GBool hotfix" "ctx_get ?c ''file_generated'' = GBool generated"
    "provenanceOf ?c = provenanceOf c"
    using assms by (simp_all add: out_def ctx_str_def ctx_get_def provenanceOf_def ModelDerivedKey_def del: gmerge.simps)
  have "ended d (acted d) (from_step ''classify'' sub h ob 0 c [] [] rt)"
  proof (rule go_output [OF audit_steps(1) _ _ act])
    show "ended d (acted d) (from_step ''require_confidence'' sub h ob (0 + 1) ?c [] ([] @ [''classify'']) rt')" for rt'
      by (rule from_confidence [where b = b and x = x])
        (use assms(8) look in \<open>auto simp: ruling_def acted_def stopped_def gate_disposition_def b_def action_def\<close>)
  qed simp_all
  then show "ended d (acted d) (from_step (wf_EntryStepID audit_flow) sub h ob 0 c [] [] rt)" by simp
qed simp


lemma audit_no_severity:
  assumes "map_of c ''severity'' = Some (GStr [])"
  shows "fst (Run h (audit_engine ob) ''codeaudit.triage'' c rt) =
    Err (CircuitBreakerTripped ''classify'' ''finding carries no severity to classify'' [] [])"
  by (rule Run_from [OF audit_engine_parts(4)])
    (use assms in \<open>simp_all add: go_trip [OF audit_steps(1)] classify_finding_def ctx_str_def Let_def\<close>)

section \<open>The context of a finding\<close>

lemma metadata_lookup:
  "map_of (finding_metadata f) ''autofixable'' = Some (GBool (fd_autofixable f))"
  "map_of (finding_metadata f) ''file_generated'' = Some (GBool (fd_fileGenerated f))"
  "map_of (finding_metadata f) ''finding_confidence'' = Some (GFloat (fd_confidence f))"
  "map_of (finding_metadata f) ''is_incident_hotfix'' = Some (GBool (fd_isIncidentHotfix f))"
  "map_of (finding_metadata f) ''executed'' = None" "map_of (finding_metadata f) ''severity'' = None"
  "map_of (finding_metadata f) ModelDerivedKey = None"
  by (simp_all add: finding_metadata_def ModelDerivedKey_def)

lemma parsed_fields:
  assumes "parseFinding raw = Inr payload"
  shows "\<exists>cat path line sev. payload = [(''category'', GStr cat), (''file'', GStr path), (''line'', GFloat line), (''severity'', GStr sev)]"
  using assms by (auto simp: parseFinding_def Let_def split: if_splits option.splits prod.splits)

lemma extracted_finding:
  assumes "mset (range_schema finding_schema) = mset finding_schema"
    and "parseFinding raw = Inr payload"
  shows "fst (Extract range_schema audit_injector
      \<lparr>exreq_RawText = raw, exreq_SchemaRef = ''codeaudit.finding_fields'', exreq_DomainID = d\<rparr> w) =
    \<lparr>exres_Success = True, exres_StructuredPayload = checked payload finding_schema, exres_ValidationErrors = [],
     exres_ModelDerived = sort (gkeys (checked payload finding_schema))\<rparr>"
proof -
  obtain cat path line sev where p: "payload = [(''category'', GStr cat), (''file'', GStr path), (''line'', GFloat line), (''severity'', GStr sev)]"
    using parsed_fields [OF assms(2)] by blast
  have "\<forall>f \<in> set finding_schema. field_ok payload f"
    by (simp add: finding_schema_def field_ok_def p matchesType_def)
  then show ?thesis
    using Extract_result [of audit_injector "\<lparr>exreq_RawText = raw, exreq_SchemaRef = ''codeaudit.finding_fields'', exreq_DomainID = d\<rparr>" "\<lparr>rn_schema = finding_schema, rn_extractor = (\<lambda>raw w. (parseFinding raw, w))\<rparr>"
        w payload w range_schema] assms
    by (simp add: audit_injector_def RegisterSchema_def NewInjector_def finding_schema_def gwf_def)
qed


lemma failed_parse:
  assumes "parseFinding raw = Inl msg"
  shows "fst (Extract range_schema audit_injector
      \<lparr>exreq_RawText = raw, exreq_SchemaRef = ''codeaudit.finding_fields'', exreq_DomainID = d\<rparr> w) = failed_extraction [msg]"
  using assms by (simp add: Extract_def inj_extract_def audit_injector_def RegisterSchema_def NewInjector_def)

text \<open>A model's finding: its severity is in the context, marked as a guess, and what decides is from the metadata.\<close>

lemma model_context:
  assumes "mset (range_schema finding_schema) = mset finding_schema" and "fd_source f = ''llm''"
  shows "(\<exists>msg. fst (finding_context range_schema audit_injector f w) = Inl (''  -> extraction failed: '' @ msg)) \<or>
    (\<exists>c sev. fst (finding_context range_schema audit_injector f w) = Inr c \<and> map_of c ''severity'' = Some (GStr sev) \<and>
       ''severity'' \<in> set (provenanceOf c) \<and>
       (\<forall>k \<in> {''autofixable'', ''file_generated'', ''finding_confidence'', ''is_incident_hotfix'', ''executed''}.
          map_of c k = map_of (finding_metadata f) k))"
proof (cases "parseFinding (fd_raw f)")
  case (Inl msg)
  then show ?thesis
    using assms(2) failed_parse [OF Inl, of range_schema "''codeaudit''" w]
    by (simp add: finding_context_def split_beta failed_extraction_def)
next
  case (Inr payload)
  obtain cat path line sev where p: "payload = [(''category'', GStr cat), (''file'', GStr path), (''line'', GFloat line), (''severity'', GStr sev)]"
    using parsed_fields [OF Inr] by blast
  let ?r = "fst (Extract range_schema audit_injector
    \<lparr>exreq_RawText = fd_raw f, exreq_SchemaRef = ''codeaudit.finding_fields'', exreq_DomainID = ''codeaudit''\<rparr> w)"
  note r = extracted_finding [where range_schema = range_schema, OF assms(1) Inr, of "''codeaudit''" w]
  have look: "map_of (exres_StructuredPayload ?r) k = (if k \<in> set (gkeys finding_schema) then map_of payload k else None)" for k
    unfolding r by (simp add: checked_lookup finding_schema_def field_ok_def matchesType_def p)
  have derived: "set (exres_ModelDerived ?r) = set (gkeys finding_schema)"
  proof -
    have "\<forall>x \<in> set finding_schema. field_ok payload x" by (simp add: finding_schema_def field_ok_def matchesType_def p)
    moreover have "distinct (gkeys finding_schema)" by (simp add: finding_schema_def)
    ultimately have "dom (map_of (checked payload finding_schema)) = set (gkeys finding_schema)"
      by (force simp: checked_lookup field_ok_def gkeys_def split: if_splits)
    then show ?thesis unfolding r by (simp add: set_gkeys)
  qed
  let ?c = "ContextFrom (finding_metadata f) ?r"
  have "fst (finding_context range_schema audit_injector f w) = Inr ?c"
    using assms(2) r by (simp add: finding_context_def split_beta)
  moreover have "map_of ?c ''severity'' = Some (GStr sev)"
    by (simp add: ContextFrom_lookup ModelDerivedKey_def look finding_schema_def p)
  moreover have "''severity'' \<in> set (provenanceOf ?c)"
  proof -
    have "''severity'' \<in> set (exres_ModelDerived ?r)" unfolding derived by (simp add: finding_schema_def)
    moreover from this have "exres_ModelDerived ?r \<noteq> []" by (metis list.distinct(1) list.set_cases)
    ultimately show ?thesis by (subst provenance_ContextFrom) (rule disjI1, assumption, rule UnI2, assumption)
  qed
  moreover have "map_of ?c k = map_of (finding_metadata f) k"
    if "k \<in> {''autofixable'', ''file_generated'', ''finding_confidence'', ''is_incident_hotfix'', ''executed''}" for k
  proof -
    have "k \<noteq> ModelDerivedKey" "k \<notin> set (gkeys finding_schema)" using that by (auto simp: ModelDerivedKey_def finding_schema_def)
    then show ?thesis by (simp add: ContextFrom_lookup look map_add_def)
  qed
  ultimately show ?thesis by blast
qed


section \<open>The properties\<close>

text \<open>A finding of the routed kind is handled by one run of the workflow.\<close>

lemma handled:
  assumes "match_Matched (fst (Match u ''codeaudit'' (fd_summary f) router (rt_world rt)))"
    and "rtr_nodes router ''codeaudit'' = [audit_node]"
    and "fst (finding_context range_schema ij f (snd (snd (Match u ''codeaudit'' (fd_summary f) router (rt_world rt))))) = Inr c"
    and "\<And>rt'. P (fst (Run h e ''codeaudit.triage'' c rt'))" and "\<And>p. \<not> P (Panic p)"
  shows "\<exists>r. P r \<and> fst (audit_handle u range_schema h e ij f (router, rt)) = Returns (finding_header f @ audit_result_lines r)"
proof -
  obtain m r1 w1 where m: "Match u ''codeaudit'' (fd_summary f) router (rt_world rt) = (m, r1, w1)" by (metis surj_pair)
  obtain w2 where c: "finding_context range_schema ij f w1 = (Inr c, w2)"
    using assms(3) m by (metis fst_conv prod.collapse snd_conv)
  have "match_EntryWorkflowRef m = ''codeaudit.triage''"
    using Match_source [OF assms(1)] assms(2) m by (simp add: audit_node_def)
  moreover obtain r rt2 where r: "Run h e ''codeaudit.triage'' c (rt\<lparr>rt_world := w2\<rparr>) = (r, rt2)" by force
  moreover have "P r" using assms(4) [of "rt\<lparr>rt_world := w2\<rparr>"] r by simp
  moreover have "match_Matched m" using assms(1) m by simp
  ultimately show ?thesis
    using m c assms(5) by (intro exI [of _ r]) (cases r; simp add: audit_handle_def print_then_def)
qed

lemma observed_runtime:
  assumes "read_file ''examples/manifests/code-audit.json'' = Inr data" and "dec data = Inr audit_manifest"
    and "audit_buildRuntime read_file dec = Ok (router, e)"
  shows "SetObserver ob e = audit_engine ob" and "rtr_nodes (router_SetObserver b router\<lparr>rtr_log := l\<rparr>) ''codeaudit'' = [audit_node]"
proof -
  have "router = RegisterNode audit_node (NewRouter (round64 (3 / 10)))" "e = audit_engine None"
    using assms(3) unfolding audit_runtime [where read_file = read_file and dec = dec, OF assms(1,2)] by simp_all
  then show "SetObserver ob e = audit_engine ob" "rtr_nodes (router_SetObserver b router\<lparr>rtr_log := l\<rparr>) ''codeaudit'' = [audit_node]"
    by (simp_all add: SetObserver_def audit_engine_def router_SetObserver_def RegisterNode_def NewRouter_def audit_node_def)
qed

text \<open>
  A scanner's finding is ruled on by the table: confidence first, then severity and autofixability, then what
  the probe says of an incident's hotfix and of generated code; exactly a block and an autofix act.
\<close>

theorem scanner_findings_are_ruled:
  assumes "read_file ''examples/manifests/code-audit.json'' = Inr data" and "dec data = Inr audit_manifest"
    and "audit_buildRuntime read_file dec = Ok (router, e)"
    and "match_Matched (fst (Match u ''codeaudit'' (fd_summary f) (router_SetObserver b router\<lparr>rtr_log := l\<rparr>) (rt_world rt)))"
    and "fd_source f = ''scanner''" and "fd_severity f \<noteq> []"
    and "d = ruling True (fd_confidence f) (fd_severity f) (fd_autofixable f) (fd_isIncidentHotfix f) (fd_fileGenerated f)"
  shows "\<exists>result. fst (audit_handle u range_schema h (SetObserver ob e) ij f (router_SetObserver b router\<lparr>rtr_log := l\<rparr>, rt)) =
      Returns (finding_header f @ audit_result_lines (Ok result)) \<and>
    map_of (wr_Output result) ''disposition'' = Some (GStr d) \<and>
    (map_of (wr_Output result) ''executed'' \<noteq> None \<longleftrightarrow> d \<in> {''merge blocked; changes requested'', ''autofix applied''})"
proof -
  define c where "c = gmerge (finding_metadata f)
    [(''file'', GStr (fd_file f)), (''line'', GFloat (fd_line f)), (''severity'', GStr (fd_severity f)), (''category'', GStr (fd_category f))]"
  note ready = observed_runtime [where read_file = read_file and dec = dec, OF assms(1-3)]
  have c: "fst (finding_context range_schema ij f w) = Inr c" for w
    using assms(5) by (simp add: finding_context_def c_def)
  have look: "map_of c ''executed'' = None" "map_of c ''severity'' = Some (GStr (fd_severity f))" "provenanceOf c = []"
    "map_of c ''finding_confidence'' = Some (GFloat (fd_confidence f))" "map_of c ''autofixable'' = Some (GBool (fd_autofixable f))"
    "map_of c ''is_incident_hotfix'' = Some (GBool (fd_isIncidentHotfix f))" "map_of c ''file_generated'' = Some (GBool (fd_fileGenerated f))"
    by (simp_all add: c_def metadata_lookup provenanceOf_def ModelDerivedKey_def finding_metadata_def del: gmerge.simps)
  have run: "ended d (acted d) (fst (Run h (audit_engine ob) ''codeaudit.triage'' c rt'))" for rt'
    by (rule audit_run [OF look(1,2) assms(6) look(4-7)]) (simp add: assms(7) look(3))
  have "\<exists>r. ended d (acted d) r \<and> fst (audit_handle u range_schema h (audit_engine ob) ij f (router_SetObserver b router\<lparr>rtr_log := l\<rparr>, rt)) =
      Returns (finding_header f @ audit_result_lines r)"
    by (rule handled [where P = "ended d (acted d)", OF assms(4) ready(2) c run]) (simp add: ended_def)
  then show ?thesis unfolding ready(1) ended_def acted_def by blast
qed

text \<open>A sample finding of each source, for an agent whose file decodes as it should.\<close>

definition sample_finding :: "string \<Rightarrow> finding" where
  "sample_finding source =
     \<lparr>fd_summary = ''triage this static analysis finding'', fd_source = source, fd_raw = ''a.go:3 [critical] here'',
      fd_file = ''a.go'', fd_line = Fin 3, fd_severity = ''critical'', fd_category = ''style'', fd_autofixable = False,
      fd_confidence = Fin 1, fd_isIncidentHotfix = False, fd_fileGenerated = False, fd_note = []\<rparr>"

lemma sample_matches:
  "match_Matched (fst (Match ascii_only ''codeaudit'' (fd_summary (sample_finding source))
     (router_SetObserver True (RegisterNode audit_node (NewRouter (round64 (3 / 10))))\<lparr>rtr_log := []\<rparr>) w))"
  by (rule example_matches [where node = audit_node])
    (simp_all add: sample_finding_def router_SetObserver_def RegisterNode_def NewRouter_def audit_node_def round64_le_1
      tokenize_def ascii_only_def runes.simps decode_rune_def rune_alnum_def rune_lower_def)

lemmas sample_runtime = audit_runtime [of "\<lambda>_. Inr []" "[]" "\<lambda>_. Inr audit_manifest", OF refl refl]

lemma scanner_findings_are_ruled_witness:
  "\<exists>result. fst (audit_handle ascii_only id (in_order_host (\<lambda>n w. (Inl [], w))) (SetObserver (Some diag_observer) (audit_engine None))
      audit_injector (sample_finding ''scanner'')
      (router_SetObserver True (RegisterNode audit_node (NewRouter (round64 (3 / 10))))\<lparr>rtr_log := []\<rparr>,
       \<lparr>rt_world = (), rt_store = NewMemoryStore, rt_log = []\<rparr>)) =
      Returns (finding_header (sample_finding ''scanner'') @ audit_result_lines (Ok result)) \<and>
    map_of (wr_Output result) ''disposition'' = Some (GStr ''merge blocked; changes requested'') \<and>
    map_of (wr_Output result) ''executed'' \<noteq> None"
proof -
  have "ruling True (Fin 1) ''critical'' False False False = ''merge blocked; changes requested''"
    using round64_le_1 [of "3 / 5"] by (simp add: ruling_def blockingSeverity_def)
  then show ?thesis
    using scanner_findings_are_ruled [where read_file = "\<lambda>_. Inr []" and dec = "\<lambda>_. Inr audit_manifest" and f = "sample_finding ''scanner''"
        and rt = "\<lparr>rt_world = (), rt_store = NewMemoryStore, rt_log = []\<rparr>" and ob = "Some diag_observer" and range_schema = id
        and h = "in_order_host (\<lambda>n w. (Inl [], w))" and ij = audit_injector, OF refl refl sample_runtime sample_matches _ _ refl]
    by (simp add: sample_finding_def)
qed

text \<open>
  C37. A model's finding is never acted on, whatever the model wrote: it is reported as an extraction that failed,
  or its run ends without an action executed.
\<close>

theorem model_findings_never_act:
  assumes "read_file ''examples/manifests/code-audit.json'' = Inr data" and "dec data = Inr audit_manifest"
    and "audit_buildRuntime read_file dec = Ok (router, e)"
    and "match_Matched (fst (Match u ''codeaudit'' (fd_summary f) (router_SetObserver b router\<lparr>rtr_log := l\<rparr>) (rt_world rt)))"
    and "fd_source f = ''llm''" and "mset (range_schema finding_schema) = mset finding_schema"
  shows "(\<exists>msg. fst (audit_handle u range_schema h (SetObserver ob e) audit_injector f (router_SetObserver b router\<lparr>rtr_log := l\<rparr>, rt)) =
      Returns (finding_header f @ [''  -> extraction failed: '' @ msg])) \<or>
    (\<exists>r. fst (audit_handle u range_schema h (SetObserver ob e) audit_injector f (router_SetObserver b router\<lparr>rtr_log := l\<rparr>, rt)) =
      Returns (finding_header f @ audit_result_lines r) \<and>
      (\<forall>result. r = Ok result \<longrightarrow> map_of (wr_Output result) ''executed'' = None))"
proof -
  note ready = observed_runtime [where read_file = read_file and dec = dec, OF assms(1-3)]
  let ?router = "router_SetObserver b router\<lparr>rtr_log := l\<rparr>"
  let ?w = "snd (snd (Match u ''codeaudit'' (fd_summary f) ?router (rt_world rt)))"
  let ?quiet = "\<lambda>r. \<forall>result. r = Ok result \<longrightarrow> map_of (wr_Output result) ''executed'' = None"
  consider (failed) msg where "fst (finding_context range_schema audit_injector f ?w) = Inl (''  -> extraction failed: '' @ msg)"
    | (guess) c sev where "fst (finding_context range_schema audit_injector f ?w) = Inr c" "map_of c ''severity'' = Some (GStr sev)"
      "''severity'' \<in> set (provenanceOf c)"
      "\<forall>k \<in> {''autofixable'', ''file_generated'', ''finding_confidence'', ''is_incident_hotfix'', ''executed''}.
         map_of c k = map_of (finding_metadata f) k"
    using model_context [where range_schema = range_schema, OF assms(6,5), of ?w] by blast
  then show ?thesis
  proof cases
    case failed
    obtain m r1 w1 where m: "Match u ''codeaudit'' (fd_summary f) ?router (rt_world rt) = (m, r1, w1)" by (metis surj_pair)
    with failed obtain w2 where "finding_context range_schema audit_injector f w1 = (Inl (''  -> extraction failed: '' @ msg), w2)"
      by (metis fst_conv prod.collapse snd_conv)
    with m assms(4) show ?thesis by (simp add: audit_handle_def print_then_def)
  next
    case guess
    let ?d = "ruling False (fd_confidence f) sev (fd_autofixable f) (fd_isIncidentHotfix f) (fd_fileGenerated f)"
    have quiet: "\<not> acted ?d" by (simp add: ruling_def acted_def)
    define P where "P r \<longleftrightarrow> ?quiet r \<and> (\<forall>p. r \<noteq> Panic p)" for r :: outcome
    have "P (fst (Run h (audit_engine ob) ''codeaudit.triage'' c rt'))" for rt'
    proof (cases "sev = []")
      case True
      with guess(2) show ?thesis by (simp add: audit_no_severity P_def)
    next
      case False
      have "ended ?d (acted ?d) (fst (Run h (audit_engine ob) ''codeaudit.triage'' c rt'))"
        by (rule audit_run [OF _ guess(2) False]) (use guess(3,4) in \<open>simp_all add: metadata_lookup\<close>)
      with quiet show ?thesis by (auto simp: ended_def P_def)
    qed
    then have "\<exists>r. P r \<and> fst (audit_handle u range_schema h (audit_engine ob) audit_injector f (?router, rt)) =
        Returns (finding_header f @ audit_result_lines r)"
      by (rule handled [OF assms(4) ready(2) guess(1)]) (simp add: P_def)
    then show ?thesis unfolding ready(1) P_def by blast
  qed
qed


lemma model_findings_never_act_witness:
  "\<exists>ls. fst (audit_handle ascii_only id (in_order_host (\<lambda>n w. (Inl [], w))) (SetObserver (Some diag_observer) (audit_engine None))
      audit_injector (sample_finding ''llm'')
      (router_SetObserver True (RegisterNode audit_node (NewRouter (round64 (3 / 10))))\<lparr>rtr_log := []\<rparr>,
       \<lparr>rt_world = (), rt_store = NewMemoryStore, rt_log = []\<rparr>)) =
      Returns (finding_header (sample_finding ''llm'') @ ls)"
  using model_findings_never_act [where read_file = "\<lambda>_. Inr []" and dec = "\<lambda>_. Inr audit_manifest" and f = "sample_finding ''llm''"
      and rt = "\<lparr>rt_world = (), rt_store = NewMemoryStore, rt_log = []\<rparr>" and ob = "Some diag_observer" and range_schema = id
      and h = "in_order_host (\<lambda>n w. (Inl [], w))", OF refl refl sample_runtime sample_matches]
  by (auto simp: sample_finding_def)

end
