(* ===== verification/NetDetect.thy ===== *)
theory NetDetect
  imports Demo SiteText Drafting Walks
begin

text \<open>
  The detection agent (\<open>examples/network_detection/main.go\<close>): an alert is matched to a technique, and the
  containment the technique's procedure prescribes is applied once the detector is confident and a probe has
  found that it hits nothing it must not. The manifest is \<open>examples/manifests/network-detection.json\<close>.
\<close>

section \<open>What must not be hit\<close>

definition egressIdentity :: "string \<rightharpoonup> string" where
  "egressIdentity =
     [''203.0.113.10'' \<mapsto> ''our HQ NAT egress '' @ em_dash @ '' about 1,400 staff share this address'',
      ''203.0.113.11'' \<mapsto> ''our VPN concentrator '' @ em_dash @ '' about 900 remote workers egress here'',
      ''198.51.100.7'' \<mapsto> ''shared CDN edge '' @ em_dash @ '' also fronts the payment callback endpoint'']"

record asset =
  as_role :: string
  as_critical :: bool
  as_dependents :: nat

definition inventory :: "string \<rightharpoonup> asset" where
  "inventory =
     [''dc01'' \<mapsto> \<lparr>as_role = ''domain controller'', as_critical = True, as_dependents = 1400\<rparr>,
      ''jump01'' \<mapsto> \<lparr>as_role = ''responder jump host'', as_critical = True, as_dependents = 60\<rparr>,
      ''vpn-gw01'' \<mapsto> \<lparr>as_role = ''VPN gateway'', as_critical = True, as_dependents = 900\<rparr>,
      ''coredb01'' \<mapsto> \<lparr>as_role = ''core database'', as_critical = True, as_dependents = 220\<rparr>,
      ''ws-4471'' \<mapsto> \<lparr>as_role = ''engineering workstation'', as_critical = False, as_dependents = 0\<rparr>,
      ''ws-8802'' \<mapsto> \<lparr>as_role = ''finance workstation'', as_critical = False, as_dependents = 0\<rparr>,
      ''build-07'' \<mapsto> \<lparr>as_role = ''CI build agent'', as_critical = False, as_dependents = 3\<rparr>]"

definition breakGlass :: "string set" where
  "breakGlass = {''svc-emergency'', ''ir-oncall''}"

text \<open>The action a technique's procedure prescribes, and the field of the alert it acts on.\<close>

definition containmentSOP :: "string \<rightharpoonup> string \<times> string" where
  "containmentSOP =
     [''network-detection.T1046_service_discovery'' \<mapsto> (''isolate_host'', ''target_host''),
      ''network-detection.T1021_lateral_movement'' \<mapsto> (''isolate_host'', ''target_host''),
      ''network-detection.T1071_c2_beaconing'' \<mapsto> (''block_address'', ''peer_ip''),
      ''network-detection.T1048_exfiltration'' \<mapsto> (''block_address'', ''peer_ip''),
      ''network-detection.T1110_password_spray'' \<mapsto> (''block_address'', ''peer_ip'')]"

section \<open>The probe and the actions\<close>

definition assess_blast_radius :: "'w probe" where
  "assess_blast_radius c w =
     (let action = ctx_str c ''response_action''; target = ctx_str c ''response_target'' in
      (if action = ''block_address'' then
         (case egressIdentity target of
            Some who \<Rightarrow> (False, target @ '' is '' @ who @ '' '' @ em_dash @ '' blocking it hits us, not the attacker'', None)
          | None \<Rightarrow> (True, [], None))
       else if action = ''isolate_host'' then
         (case inventory target of
            None \<Rightarrow> (False, ''host '' @ quoted target @
              '' is not in inventory; isolating an unidentified asset is not safe to automate'', None)
          | Some host \<Rightarrow>
              if as_critical host then
                (False, target @ '' is a '' @ as_role host @ '' '' @ em_dash @ '' isolating it would cut off '' @
                   digits_of (as_dependents host) @ '' dependents'', None)
              else (True, [], None))
       else if action = ''disable_account'' then
         (if target \<in> breakGlass then
            (False, quoted target @ '' is a break-glass account '' @ em_dash @
               '' disabling it during an incident removes the way out'', None)
          else (True, [], None))
       else (False, ''unknown response action '' @ quoted action, None), w))"

definition select_response :: "'w action" where
  "select_response c w =
     (let technique = ctx_str c ''technique'' in
      (case containmentSOP technique of
         None \<Rightarrow> Fails (''no containment SOP for technique '' @ quoted technique)
       | Some (action, targetField) \<Rightarrow>
           (let target = ctx_str c targetField in
            if target = [] then Fails (''alert carries no '' @ targetField @ '' to act on'')
            else Output [(''response_action'', GStr action), (''response_target'', GStr target)]), w))"

definition apply_containment :: "'w action" where
  "apply_containment c w =
     (Output [(''executed'', GStr (fmt_v (ctx_get c ''response_action'') @ '' on '' @ fmt_v (ctx_get c ''response_target'')))], w)"

definition net_hooks :: "'w hooks" where
  "net_hooks = [''netdet.select_response'' \<mapsto> select_response, ''netdet.apply_containment'' \<mapsto> apply_containment]"

section \<open>The manifest and the runtime\<close>

definition net_intent :: "string \<Rightarrow> string list \<Rightarrow> intent_spec" where
  "net_intent nid examples =
     \<lparr>ispec_NodeID = nid, ispec_Examples = examples,
      ispec_EntryWorkflowRef = ''network-detection.triage_and_contain'', ispec_DeprecatedEntryStepRef = []\<rparr>"

definition net_manifest :: manifest_file where
  "net_manifest =
     \<lparr>file_Name = ''network-detection'',
      file_Intents =
        [net_intent ''network-detection.T1046_service_discovery''
           [''horizontal port scan detected from internal host'', ''sequential connection attempts across many ports'', ''network service discovery sweep''],
         net_intent ''network-detection.T1071_c2_beaconing''
           [''periodic outbound connections with fixed interval'', ''beaconing to an unclassified external host'', ''regular small payloads to one destination''],
         net_intent ''network-detection.T1048_exfiltration''
           [''unusually large outbound transfer over dns'', ''high volume egress to a new destination'', ''data leaving over a non standard protocol''],
         net_intent ''network-detection.T1110_password_spray''
           [''many failed logins across multiple accounts from one source'', ''password spray against the vpn gateway'', ''repeated authentication failures single source''],
         net_intent ''network-detection.T1021_lateral_movement''
           [''smb connections to many hosts from one workstation'', ''remote service access spreading across subnet'', ''lateral movement over rdp'']],
      file_Policies =
        [\<lparr>pspec_PolicyID = ''insufficient_confidence'', pspec_FallbackStepRef = ''queue_for_review''\<rparr>,
         \<lparr>pspec_PolicyID = ''blast_radius_gate'', pspec_FallbackStepRef = ''hold_for_analyst''\<rparr>],
      file_Workflows =
        [\<lparr>wspec_WorkflowID = ''network-detection.triage_and_contain'', wspec_EntryStepID = ''require_confidence'',
          wspec_Steps =
            [(json_leaf ''require_confidence'' ''std.require''
                [(''field'', GStr ''detector_confidence''), (''op'', GStr ''gte''), (''value'', GFloat (round64 (4 / 5)))])
               \<lparr>sspec_CircuitBreakerPolicyRef := ''insufficient_confidence'', sspec_OnSuccess := ''select_response''\<rparr>,
             (json_leaf ''select_response'' ''netdet.select_response'' []) \<lparr>sspec_OnSuccess := ''contain''\<rparr>,
             (json_leaf ''contain'' ''netdet.apply_containment'' [])
               \<lparr>sspec_SandboxProbeRef := ''netdet.assess_blast_radius'', sspec_CircuitBreakerPolicyRef := ''blast_radius_gate'',
                sspec_OnSuccess := ''record_contained''\<rparr>,
             json_leaf ''record_contained'' ''std.set''
               [(''fields'', GObj [(''disposition'', GStr ''contained automatically'')])],
             json_leaf ''queue_for_review'' ''std.set''
               [(''fields'', GObj [(''disposition'', GStr ''queued for review: detector confidence below the auto-action threshold'')])],
             json_leaf ''hold_for_analyst'' ''std.set''
               [(''fields'', GObj [(''disposition'', GStr ''held for an analyst: containment would have hit something it must not'')])]]\<rparr>]\<rparr>"

definition net_sandbox :: "'w sandbox" where
  "net_sandbox = RegisterProbe NewSandbox ''netdet.assess_blast_radius'' assess_blast_radius"

definition net_buildRuntime :: "(string \<Rightarrow> string + string) \<Rightarrow> (string \<Rightarrow> string + manifest_file) \<Rightarrow>
    (string, 'w router \<times> ('w, 's) engine) res" where
  "net_buildRuntime read_file dec =
     example_runtime ''examples/manifests/network-detection.json'' read_file dec net_hooks (round64 (34 / 100))
       (NewEngine (Some (sandbox_Probe net_sandbox)))"

section \<open>Alerts\<close>

record alert =
  al_summary :: string
  al_confidence :: float64
  al_peerIP :: string
  al_targetHost :: string
  al_note :: string

definition net_alert :: "string \<Rightarrow> rat \<Rightarrow> string \<Rightarrow> string \<Rightarrow> string \<Rightarrow> alert" where
  "net_alert summary confidence peer host note' =
     \<lparr>al_summary = summary, al_confidence = round64 confidence, al_peerIP = peer, al_targetHost = host, al_note = note'\<rparr>"

definition net_feed :: "alert list" where
  "net_feed =
    [net_alert ''horizontal port scan detected from internal host'' (94 / 100) ''203.0.113.55'' ''ws-4471''
       (''ordinary workstation, nothing depends on it '' @ em_dash @ '' safe to isolate''),
     net_alert ''password spray against the vpn gateway'' (97 / 100) ''203.0.113.11'' ''vpn-gw01''
       ''the 'attacker' address is our own VPN egress'',
     net_alert ''periodic outbound connections with fixed interval'' (88 / 100) ''198.51.100.7'' ''build-07''
       ''the beacon destination is a shared CDN node'',
     net_alert ''lateral movement over rdp'' (91 / 100) ''10.4.2.19'' ''jump01''
       ''the host to isolate is the responders' own way in'',
     net_alert ''unusually large outbound transfer over dns'' (96 / 100) ''203.0.113.90'' ''ws-8802''
       ''genuine exfiltration to an unrelated address'',
     net_alert ''beaconing to an unclassified external host'' (42 / 100) ''203.0.113.77'' ''ws-4471''
       (''technique matches, but the detector is unsure '' @ em_dash @ '' no action on a maybe''),
     net_alert ''printer firmware update failed twice'' (99 / 100) ''10.1.1.5'' ''ws-4471''
       (''not an intrusion at all '' @ em_dash @ '' no technique matches'')]"

definition net_header :: "alert \<Rightarrow> string list" where
  "net_header a =
     [[], ''ALERT  '' @ al_summary a,
      ''       peer='' @ al_peerIP a @ '' host='' @ al_targetHost a @ '' confidence='' @ fmt_fixed 2 (al_confidence a),
      ''       ('' @ al_note a @ '')'']"

definition net_context :: "string \<Rightarrow> alert \<Rightarrow> ctx" where
  "net_context technique a =
     [(''detector_confidence'', GFloat (al_confidence a)), (''peer_ip'', GStr (al_peerIP a)),
      (''target_host'', GStr (al_targetHost a)), (''technique'', GStr technique)]"

definition net_result_lines :: "outcome \<Rightarrow> string list" where
  "net_result_lines r =
     (case r of
        Ok result \<Rightarrow>
          [''  -> '' @ fmt_v (ctx_get (wr_Output result) ''disposition'')] @
          (case map_of (wr_Output result) ''executed'' of Some executed \<Rightarrow> [''     action: '' @ fmt_v executed] | None \<Rightarrow> []) @
          (case map_of (wr_Output result) FailureReasonKey of Some why \<Rightarrow> [''     because: '' @ fmt_v why] | None \<Rightarrow> []) @
          [''     trace: '' @ fmt_v (GStrs (wr_Trace result))]
      | Err err \<Rightarrow> [''  -> halted: '' @ error_text err]
      | Panic p \<Rightarrow> [])"

definition net_handle :: "unicode \<Rightarrow> 'w host \<Rightarrow> ('w, 's) engine \<Rightarrow> alert \<Rightarrow> 'w router \<times> ('w, 's) rt \<Rightarrow>
    string list returned \<times> 'w router \<times> ('w, 's) rt" where
  "net_handle u h e a st =
     print_then (net_header a)
       (case st of (router, rt) \<Rightarrow>
        case Match u ''network-detection'' (al_summary a) router (rt_world rt) of (m, router1, w1) \<Rightarrow>
          if \<not> match_Matched m then
            (Returns [''  -> no ATT&CK technique matched (best score '' @ fmt_fixed 2 (match_Confidence m) @
               ''); would fall through to extraction''], router1, rt\<lparr>rt_world := w1\<rparr>)
          else
            print_then [''  -> matched '' @ match_NodeRef m @ '' ('' @ fmt_fixed 2 (match_Confidence m) @ '')'']
              (case Run h e (match_EntryWorkflowRef m) (net_context (match_NodeRef m) a) (rt\<lparr>rt_world := w1\<rparr>) of
                 (Panic p, rt1) \<Rightarrow> (Panicked p, router1, rt1)
               | (r, rt1) \<Rightarrow> (Returns (net_result_lines r), router1, rt1)))"

fun net_all :: "unicode \<Rightarrow> (nat \<Rightarrow> 'w host) \<Rightarrow> ('w, 's) engine \<Rightarrow> nat \<Rightarrow> alert list \<Rightarrow> 'w router \<times> ('w, 's) rt \<Rightarrow>
    string list returned \<times> 'w router \<times> ('w, 's) rt" where
  "net_all u hs e i [] st = (Returns [], st)"
| "net_all u hs e i (a # as) st =
     (case net_handle u (hs i) e a st of
        (Panicked p, st1) \<Rightarrow> (Panicked p, st1)
      | (Returns ls, st1) \<Rightarrow> print_then ls (net_all u hs e (Suc i) as st1))"

definition net_main :: "unicode \<Rightarrow> (nat \<Rightarrow> 'w host) \<Rightarrow> (string \<Rightarrow> string + string) \<Rightarrow> (string \<Rightarrow> string + manifest_file) \<Rightarrow> 'w \<Rightarrow>
    (string, string list) res" where
  "net_main u hs read_file dec w =
     (case net_buildRuntime read_file dec of
        Err err \<Rightarrow> Err (''setup failed: '' @ err)
      | Panic p \<Rightarrow> Panic p
      | Ok (router, e) \<Rightarrow>
          (case net_all u hs e 0 net_feed (router, \<lparr>rt_world = w, rt_store = NewMemoryStore, rt_log = []\<rparr>) of
             (Panicked p, st) \<Rightarrow> Panic p
           | (Returns ls, st) \<Rightarrow> Ok ls))"

section \<open>What the program decides\<close>

text \<open>
  When the detection agent acts: exactly on a confident alert that carries a target, and never on one whose
  containment would hit the organisation itself.
\<close>

section \<open>The loaded workflow\<close>

definition net_flow :: "'w workflow" where
  "net_flow =
     \<lparr>wf_WorkflowID = ''network-detection.triage_and_contain'', wf_DomainID = ''network-detection'',
      wf_EntryStepID = ''require_confidence'',
      wf_Steps =
       [''require_confidence'' \<mapsto> LeafStep (plain_leaf ''require_confidence''
          (require_action ''detector_confidence'' ''gte'' (GFloat (round64 (4 / 5)))) [] ''insufficient_confidence'' ''select_response''),
        ''select_response'' \<mapsto> LeafStep (plain_leaf ''select_response'' select_response [] [] ''contain''),
        ''contain'' \<mapsto> LeafStep (plain_leaf ''contain'' apply_containment ''netdet.assess_blast_radius'' ''blast_radius_gate''
          ''record_contained''),
        ''record_contained'' \<mapsto> LeafStep (plain_leaf ''record_contained''
          (set_action [(''disposition'', GStr ''contained automatically'')]) [] [] []),
        ''queue_for_review'' \<mapsto> LeafStep (plain_leaf ''queue_for_review''
          (set_action [(''disposition'', GStr ''queued for review: detector confidence below the auto-action threshold'')]) [] [] []),
        ''hold_for_analyst'' \<mapsto> LeafStep (plain_leaf ''hold_for_analyst''
          (set_action [(''disposition'', GStr ''held for an analyst: containment would have hit something it must not'')]) [] [] [])]\<rparr>"

definition net_engine :: "('w, 's) engine" where
  "net_engine =
     \<lparr>eng_sandbox = Some (sandbox_Probe net_sandbox), eng_observer = None,
      eng_workflows = [''network-detection.triage_and_contain'' \<mapsto> net_flow],
      eng_policies = [''insufficient_confidence'' \<mapsto> \<lparr>pol_PolicyID = ''insufficient_confidence'', pol_FallbackStepRef = ''queue_for_review''\<rparr>,
        ''blast_radius_gate'' \<mapsto> \<lparr>pol_PolicyID = ''blast_radius_gate'', pol_FallbackStepRef = ''hold_for_analyst''\<rparr>],
      eng_store = None, eng_authorizer = None, eng_maxSteps = DefaultMaxSteps, eng_maxDepth = DefaultMaxDepth\<rparr>"

definition net_node :: "intent_spec \<Rightarrow> intent_node" where
  "net_node s =
     \<lparr>node_NodeID = ispec_NodeID s, node_DomainID = ''network-detection'', node_Examples = ispec_Examples s,
      node_EntryWorkflowRef = ''network-detection.triage_and_contain'', node_Metadata = []\<rparr>"

lemma net_domain:
  "Load (Inr net_manifest) net_hooks Default =
     Ok \<lparr>dom_Name = ''network-detection'', dom_Intents = map net_node (file_Intents net_manifest),
         dom_Workflows = [net_flow\<lparr>wf_DomainID := []\<rparr>],
         dom_Policies = [\<lparr>pol_PolicyID = ''insufficient_confidence'', pol_FallbackStepRef = ''queue_for_review''\<rparr>,
           \<lparr>pol_PolicyID = ''blast_radius_gate'', pol_FallbackStepRef = ''hold_for_analyst''\<rparr>]\<rparr>"
  by (simp add: literal_load net_manifest_def net_intent_def net_flow_def net_hooks_def net_node_def)

lemma net_runtime:
  assumes "read_file ''examples/manifests/network-detection.json'' = Inr data" and "dec data = Inr net_manifest"
  shows "net_buildRuntime read_file dec =
    Ok (fold RegisterNode (map net_node (file_Intents net_manifest)) (NewRouter (round64 (34 / 100))), net_engine)"
  by (simp add: net_buildRuntime_def example_runtime_def assms net_domain RegisterDomain_def NewRegistry_def NewEngine_def
      RegisterWorkflow_def RegisterPolicy_def claim_workflow_def net_engine_def net_flow_def Let_def)

lemma net_steps:
  "wf_Steps net_flow ''require_confidence'' = Some (LeafStep (plain_leaf ''require_confidence''
     (require_action ''detector_confidence'' ''gte'' (GFloat (round64 (4 / 5)))) [] ''insufficient_confidence'' ''select_response''))"
  "wf_Steps net_flow ''select_response'' = Some (LeafStep (plain_leaf ''select_response'' select_response [] [] ''contain''))"
  "wf_Steps net_flow ''contain'' = Some (LeafStep (plain_leaf ''contain'' apply_containment
     ''netdet.assess_blast_radius'' ''blast_radius_gate'' ''record_contained''))"
  "wf_Steps net_flow ''record_contained'' = Some (LeafStep (plain_leaf ''record_contained''
     (set_action [(''disposition'', GStr ''contained automatically'')]) [] [] []))"
  "wf_Steps net_flow ''queue_for_review'' = Some (LeafStep (plain_leaf ''queue_for_review''
     (set_action [(''disposition'', GStr ''queued for review: detector confidence below the auto-action threshold'')]) [] [] []))"
  "wf_Steps net_flow ''hold_for_analyst'' = Some (LeafStep (plain_leaf ''hold_for_analyst''
     (set_action [(''disposition'', GStr ''held for an analyst: containment would have hit something it must not'')]) [] [] []))"
  by (simp_all add: net_flow_def)

lemma net_engine_parts [simp]:
  "eng_sandbox net_engine = Some (sandbox_Probe net_sandbox)" "eng_maxSteps net_engine = 10000" "eng_maxDepth net_engine = 64"
  "eng_workflows net_engine ''network-detection.triage_and_contain'' = Some net_flow" "wf_EntryStepID net_flow = ''require_confidence''"
  "eng_policies net_engine ''insufficient_confidence'' =
     Some \<lparr>pol_PolicyID = ''insufficient_confidence'', pol_FallbackStepRef = ''queue_for_review''\<rparr>"
  "eng_policies net_engine ''blast_radius_gate'' = Some \<lparr>pol_PolicyID = ''blast_radius_gate'', pol_FallbackStepRef = ''hold_for_analyst''\<rparr>"
  "sb_probes net_sandbox ''netdet.assess_blast_radius'' = Some assess_blast_radius"
  by (simp_all add: net_engine_def net_flow_def DefaultMaxSteps_def DefaultMaxDepth_def net_sandbox_def RegisterProbe_def)

section \<open>What must hold before an action\<close>

text \<open>What the organisation must not do to itself, from its own tables.\<close>

definition self_inflicted :: "string \<Rightarrow> string \<Rightarrow> bool" where
  "self_inflicted action target \<longleftrightarrow>
     action = ''block_address'' \<and> target \<in> dom egressIdentity \<or>
     action = ''isolate_host'' \<and> (\<forall>host. inventory target = Some host \<longrightarrow> as_critical host)"

lemma blast_radius:
  assumes "ctx_str c ''response_action'' = action" and "ctx_str c ''response_target'' = target"
    and "action \<in> {''block_address'', ''isolate_host''}"
  shows "\<exists>mode. (\<forall>w. assess_blast_radius c w = ((\<not> self_inflicted action target, mode, None), w)) \<and>
    (self_inflicted action target \<longrightarrow> mode \<noteq> [])"
proof -
  consider (block) "action = ''block_address''" | (isolate) "action = ''isolate_host''" using assms(3) by blast
  then show ?thesis
  proof cases
    case block
    with assms(1,2) show ?thesis
      by (cases "egressIdentity target") (auto simp: assess_blast_radius_def self_inflicted_def Let_def)
  next
    case isolate
    with assms(1,2) show ?thesis
      by (cases "inventory target") (auto simp: assess_blast_radius_def self_inflicted_def Let_def)
  qed
qed

text \<open>A run that has executed this action on this target, and one that has executed nothing.\<close>

definition executed :: "string \<Rightarrow> outcome \<Rightarrow> bool" where
  "executed what r \<longleftrightarrow> (\<exists>result. r = Ok result \<and> map_of (wr_Output result) ''executed'' = Some (GStr what))"

definition inert :: "outcome \<Rightarrow> bool" where
  "inert r \<longleftrightarrow> (\<forall>p. r \<noteq> Panic p) \<and> (\<forall>result. r = Ok result \<longrightarrow> map_of (wr_Output result) ''executed'' = None)"

abbreviation (input) net_from :: "string \<Rightarrow> ('w, 's) runner \<Rightarrow> 'w host \<Rightarrow> int \<Rightarrow> ctx \<Rightarrow> string list \<Rightarrow> ('w, 's) rt \<Rightarrow> outcome" where
  "net_from sid sub h n c t rt \<equiv>
     fst (run_loop sub h net_engine net_flow ''network-detection.triage_and_contain'' 0 n
       \<lparr>cur_step = sid, cur_ctx = c, cur_done = [], cur_trace = t\<rparr> rt)"

lemma net_held:
  assumes "n \<le> 100" and "map_of c ''executed'' = None"
  shows "inert (net_from ''hold_for_analyst'' sub h n c t rt)" and "inert (net_from ''queue_for_review'' sub h n c t rt)"
proof -
  show "inert (net_from ''hold_for_analyst'' sub h n c t rt)"
    by (rule go_output [OF net_steps(6), where out = "[(''disposition'', GStr ''held for an analyst: containment would have hit something it must not'')]"])
      (use assms in \<open>simp_all add: set_action_def go_end inert_def\<close>)
  show "inert (net_from ''queue_for_review'' sub h n c t rt)"
    by (rule go_output [OF net_steps(5), where out = "[(''disposition'', GStr ''queued for review: detector confidence below the auto-action threshold'')]"])
      (use assms in \<open>simp_all add: set_action_def go_end inert_def\<close>)
qed

lemma net_recorded:
  assumes "n \<le> 100" and "map_of c ''executed'' = Some (GStr what)"
  shows "executed what (net_from ''record_contained'' sub h n c t rt)"
  by (rule go_output [OF net_steps(4), where out = "[(''disposition'', GStr ''contained automatically'')]"])
    (use assms in \<open>simp_all add: set_action_def go_end executed_def\<close>)

lemma net_contain:
  assumes "n \<le> 99" and "map_of c ''executed'' = None" and "action \<in> {''block_address'', ''isolate_host''}"
    and "map_of c ''response_action'' = Some (GStr action)" and "map_of c ''response_target'' = Some (GStr target)"
  shows "if self_inflicted action target then inert (net_from ''contain'' sub h n c t (rt :: ('w, 's) rt))
    else executed (action @ '' on '' @ target) (net_from ''contain'' sub h n c t rt)"
proof -
  have strs: "ctx_str c ''response_action'' = action" "ctx_str c ''response_target'' = target"
    using assms(4,5) by (simp_all add: ctx_str_def)
  obtain mode where mode: "\<And>w :: 'w. assess_blast_radius c w = ((\<not> self_inflicted action target, mode, None), w)"
    "self_inflicted action target \<Longrightarrow> mode \<noteq> []" using blast_radius [OF strs assms(3)] by blast
  have act: "apply_containment c w = (Output [(''executed'', GStr (action @ '' on '' @ target))], w)" for w :: 'w
    using assms(4,5) by (simp add: apply_containment_def ctx_get_def)
  show ?thesis
  proof (cases "self_inflicted action target")
    case True
    have "inert (net_from ''contain'' sub h n c t rt)"
    proof (rule go_refused [OF net_steps(3), where mode = mode and probe = assess_blast_radius and sb = net_sandbox
          and f = "''hold_for_analyst''" and pid = "''blast_radius_gate''"])
      show "\<And>w :: 'w. assess_blast_radius c w = ((False, mode, None), w)" "mode \<noteq> []" using mode True by simp_all
    qed (use assms(1,2) in \<open>simp_all add: net_held diverted_lookup del: gmerge.simps map_of_gmerge\<close>)
    with True show ?thesis by simp
  next
    case False
    have "executed (action @ '' on '' @ target) (net_from ''contain'' sub h n c t rt)"
    proof (rule go_healthy [OF net_steps(3), where mode = mode and probe = assess_blast_radius and sb = net_sandbox])
      show "\<And>w :: 'w. assess_blast_radius c w = ((True, mode, None), w)" using mode False by simp
      show "\<And>w :: 'w. apply_containment c w = (Output [(''executed'', GStr (action @ '' on '' @ target))], w)" by (rule act)
    qed (use assms(1) in \<open>simp_all add: net_recorded\<close>)
    with False show ?thesis by simp
  qed
qed


text \<open>The whole run of an alert with a technique: what it acts on, and when.\<close>

lemma net_select:
  assumes "n \<le> 98" and "map_of c ''executed'' = None" and "map_of c ''technique'' = Some (GStr technique)"
    and "containmentSOP technique = Some (action, fld)"
  shows "if ctx_str c fld = [] \<or> self_inflicted action (ctx_str c fld)
    then inert (net_from ''select_response'' sub h n c t (rt :: ('w, 's) rt))
    else executed (action @ '' on '' @ ctx_str c fld) (net_from ''select_response'' sub h n c t rt)"
proof (cases "ctx_str c fld = []")
  case True
  define msg where "msg = ''alert carries no '' @ fld @ '' to act on''"
  have "select_response c w = (Fails msg, w)" for w :: 'w
    using assms(3,4) True by (simp add: select_response_def ctx_str_def [of c "''technique''"] msg_def Let_def)
  then have "net_from ''select_response'' sub h n c t rt = Err (CircuitBreakerTripped ''select_response'' msg [] [])"
    by (intro go_trip [OF net_steps(2)]) (use assms(1) in simp_all)
  with True show ?thesis by (simp add: inert_def)
next
  case False
  let ?target = "ctx_str c fld"
  define out where "out = [(''response_action'', GStr action), (''response_target'', GStr ?target)]"
  have act: "select_response c w = (Output out, w)" for w :: 'w
    using assms(3,4) False by (simp add: select_response_def ctx_str_def [of c "''technique''"] out_def Let_def)
  have "action \<in> {''block_address'', ''isolate_host''}"
    using assms(4) by (auto simp: containmentSOP_def split: if_splits)
  moreover have "map_of (gmerge c out) ''executed'' = None" "map_of (gmerge c out) ''response_action'' = Some (GStr action)"
    "map_of (gmerge c out) ''response_target'' = Some (GStr ?target)"
    using assms(2) by (simp_all add: out_def del: gmerge.simps)
  ultimately have *: "if self_inflicted action ?target then inert (net_from ''contain'' sub h (n + 1) (gmerge c out) t' rt')
      else executed (action @ '' on '' @ ?target) (net_from ''contain'' sub h (n + 1) (gmerge c out) t' rt')" for t' and rt' :: "('w, 's) rt"
    by (intro net_contain) (use assms(1) in simp_all)
  have "if self_inflicted action ?target then inert (net_from ''select_response'' sub h n c t rt)
      else executed (action @ '' on '' @ ?target) (net_from ''select_response'' sub h n c t rt)"
    by (rule go_output [where P = "\<lambda>r. if self_inflicted action ?target then inert r else executed (action @ '' on '' @ ?target) r",
        OF net_steps(2) _ _ act *]) (use assms(1) in simp_all)
  with False show ?thesis by simp
qed

lemma net_run:
  assumes "containmentSOP technique = Some (action, fld)" and "target = ctx_str (net_context technique a) fld"
    and "what = action @ '' on '' @ target"
  shows "if f64_le (round64 (4 / 5)) (al_confidence a) \<and> target \<noteq> [] \<and> \<not> self_inflicted action target
    then executed what
      (fst (Run h net_engine ''network-detection.triage_and_contain'' (net_context technique a) (rt :: ('w, 's) rt)))
    else inert (fst (Run h net_engine ''network-detection.triage_and_contain'' (net_context technique a) rt))"
    (is "if ?go then executed _ ?r else inert ?r")
proof -
  let ?c = "net_context technique a"
  have look: "map_of ?c ''executed'' = None" "map_of ?c ''technique'' = Some (GStr technique)"
    "map_of ?c ''detector_confidence'' = Some (GFloat (al_confidence a))" by (simp_all add: net_context_def)
  have low: "inert ?r" if "\<not> f64_le (round64 (4 / 5)) (al_confidence a)"
  proof (rule Run_from [OF net_engine_parts(4)])
    define msg where "msg = requirement_not_met ''detector_confidence'' (GFloat (al_confidence a)) ''gte'' (GFloat (round64 (4 / 5)))"
    fix sub
    have act: "require_action ''detector_confidence'' ''gte'' (GFloat (round64 (4 / 5))) ?c w = (Fails msg, w)" for w :: 'w
      using that look by (simp add: require_action_def compare_def ctx_get_def toFloat_def msg_def)
    show "inert (net_from (wf_EntryStepID net_flow) sub h 0 ?c [] rt)"
      unfolding net_engine_parts(5)
      by (rule go_fallback [OF net_steps(1) _ _ act, where f = "''queue_for_review''" and pid = "''insufficient_confidence''"])
        (use look in \<open>simp_all add: net_held diverted_lookup del: gmerge.simps map_of_gmerge\<close>)
  qed simp
  have high: "if target = [] \<or> self_inflicted action target then inert ?r else executed what ?r"
    if "f64_le (round64 (4 / 5)) (al_confidence a)"
  proof (rule Run_from [OF net_engine_parts(4)])
    fix sub
    have act: "require_action ''detector_confidence'' ''gte'' (GFloat (round64 (4 / 5))) ?c w = (Output [], w)" for w :: 'w
      using that look by (simp add: require_action_def compare_def ctx_get_def toFloat_def)
    have rest: "if target = [] \<or> self_inflicted action target then inert (net_from ''select_response'' sub h (0 + 1) (gmerge ?c []) t rt')
        else executed what (net_from ''select_response'' sub h (0 + 1) (gmerge ?c []) t rt')" for t and rt' :: "('w, 's) rt"
      unfolding assms(2,3) gmerge.simps by (rule net_select [OF _ look(1,2) assms(1)]) simp
    show "if target = [] \<or> self_inflicted action target then inert (net_from (wf_EntryStepID net_flow) sub h 0 ?c [] rt)
        else executed what (net_from (wf_EntryStepID net_flow) sub h 0 ?c [] rt)"
      unfolding net_engine_parts(5)
    proof (rule go_output [where P = "\<lambda>r. if target = [] \<or> self_inflicted action target then inert r else executed what r",
          OF net_steps(1) _ _ act])
      show "if target = [] \<or> self_inflicted action target
        then inert (net_from ''select_response'' sub h (0 + 1) (gmerge ?c []) ([] @ [''require_confidence'']) rt')
        else executed what (net_from ''select_response'' sub h (0 + 1) (gmerge ?c []) ([] @ [''require_confidence'']) rt')" for rt'
        by (rule rest)
    qed simp_all
  qed simp
  show ?thesis using low high by (cases "f64_le (round64 (4 / 5)) (al_confidence a)") simp_all
qed


section \<open>The property\<close>

lemma matched_techniques: "node_NodeID ` net_node ` set (file_Intents net_manifest) = dom containmentSOP"
  by (simp add: net_manifest_def net_intent_def net_node_def containmentSOP_def insert_commute)

lemma net_router:
  "rtr_nodes (fold RegisterNode (map net_node (file_Intents net_manifest)) (NewRouter t)) ''network-detection'' =
     map net_node (file_Intents net_manifest)"
  "rtr_vectorizer (fold RegisterNode (map net_node (file_Intents net_manifest)) (NewRouter t)) = None"
proof -
  have all: "filter (\<lambda>n. node_DomainID n = ''network-detection'') (map net_node is) = map net_node is" for "is"
    by (induction "is") (simp_all add: net_node_def)
  show "rtr_nodes (fold RegisterNode (map net_node (file_Intents net_manifest)) (NewRouter t)) ''network-detection'' =
      map net_node (file_Intents net_manifest)"
    unfolding fold_RegisterNode(1) all by (simp add: NewRouter_def)
  show "rtr_vectorizer (fold RegisterNode (map net_node (file_Intents net_manifest)) (NewRouter t)) = None"
    unfolding fold_RegisterNode(3) by (simp add: NewRouter_def)
qed

text \<open>
  C38. Containment is safe and complete: an alert that is matched is handled by one run; it executes the
  procedure's action on the alert's target when the detector is confident, there is a target, and containing it
  would not hit the organisation itself, and otherwise executes nothing.
\<close>

theorem containment_is_safe:
  assumes "read_file ''examples/manifests/network-detection.json'' = Inr data" and "dec data = Inr net_manifest"
    and "net_buildRuntime read_file dec = Ok (router, e)"
    and "match_Matched (fst (Match u ''network-detection'' (al_summary a) router (rt_world rt)))"
    and "m = fst (Match u ''network-detection'' (al_summary a) router (rt_world rt))"
  shows "\<exists>action fld target r. containmentSOP (match_NodeRef m) = Some (action, fld) \<and>
    target = (if fld = ''peer_ip'' then al_peerIP a else al_targetHost a) \<and>
    fst (net_handle u h e a (router, rt)) =
      Returns (net_header a @ [''  -> matched '' @ match_NodeRef m @ '' ('' @ fmt_fixed 2 (match_Confidence m) @ '')''] @ net_result_lines r) \<and>
    (if f64_le (round64 (4 / 5)) (al_confidence a) \<and> target \<noteq> [] \<and> \<not> self_inflicted action target
     then executed (action @ '' on '' @ target) r else inert r)"
proof -
  obtain threshold where run: "router = fold RegisterNode (map net_node (file_Intents net_manifest)) (NewRouter threshold)" "e = net_engine"
    using assms(3) unfolding net_runtime [where read_file = read_file and dec = dec, OF assms(1,2)] by blast
  obtain r1 w1 where m: "Match u ''network-detection'' (al_summary a) router (rt_world rt) = (m, r1, w1)"
    using assms(5) by (metis prod.collapse)
  have "match_NodeRef m \<in> node_NodeID ` set (rtr_nodes router ''network-detection'')"
    unfolding assms(5) by (rule Match_node [OF _ assms(4)]) (simp add: run(1) net_router(2))
  then have "match_NodeRef m \<in> dom containmentSOP"
    unfolding run(1) net_router(1) using matched_techniques by (simp add: image_image)
  then obtain action fld where sop: "containmentSOP (match_NodeRef m) = Some (action, fld)" by auto
  have entry: "match_EntryWorkflowRef m = ''network-detection.triage_and_contain''"
    using Match_source [OF assms(4)] unfolding run(1) net_router(1) assms(5) by (auto simp: net_node_def)
  have fld: "fld \<in> {''peer_ip'', ''target_host''}" using sop by (auto simp: containmentSOP_def split: if_splits)
  let ?target = "if fld = ''peer_ip'' then al_peerIP a else al_targetHost a"
  have target: "?target = ctx_str (net_context (match_NodeRef m) a) fld"
    using fld by (auto simp: net_context_def ctx_str_def)
  have matched: "match_Matched m" using assms(4,5) by simp
  obtain r rt2 where r: "Run h net_engine ''network-detection.triage_and_contain'' (net_context (match_NodeRef m) a) (rt\<lparr>rt_world := w1\<rparr>) = (r, rt2)"
    by force
  have out: "if f64_le (round64 (4 / 5)) (al_confidence a) \<and> ?target \<noteq> [] \<and> \<not> self_inflicted action ?target
      then executed (action @ '' on '' @ ?target) r else inert r"
    using net_run [OF sop target refl, of h "rt\<lparr>rt_world := w1\<rparr>"] unfolding r fst_conv .
  then have "\<forall>p. r \<noteq> Panic p" by (auto simp: executed_def inert_def split: if_splits)
  then have "fst (net_handle u h e a (router, rt)) =
      Returns (net_header a @ [''  -> matched '' @ match_NodeRef m @ '' ('' @ fmt_fixed 2 (match_Confidence m) @ '')''] @ net_result_lines r)"
    using m r entry matched run(2) by (cases r) (simp_all add: net_handle_def print_then_def)
  with sop out show ?thesis by blast
qed


text \<open>A sample: a port scan from an ordinary workstation.\<close>

lemma port_scan_matches:
  "match_Matched (fst (Match ascii_only ''network-detection'' ''horizontal port scan detected from internal host''
     (fold RegisterNode (map net_node (file_Intents net_manifest)) (NewRouter (round64 (34 / 100)))) w))"
  by (rule example_matches [where node = "net_node (hd (file_Intents net_manifest))"], unfold net_router fold_RegisterNode(2))
    (simp_all add: net_manifest_def net_intent_def net_node_def NewRouter_def round64_le_1 tokenize_def ascii_only_def
      runes.simps decode_rune_def rune_alnum_def rune_lower_def)

lemma containment_is_safe_witness:
  "\<exists>action fld ls. containmentSOP (match_NodeRef (fst (Match ascii_only ''network-detection''
      ''horizontal port scan detected from internal host''
      (fold RegisterNode (map net_node (file_Intents net_manifest)) (NewRouter (round64 (34 / 100)))) ()))) = Some (action, fld) \<and>
    fst (net_handle ascii_only (in_order_host (\<lambda>n w. (Inl [], w))) net_engine (net_feed ! 0)
      (fold RegisterNode (map net_node (file_Intents net_manifest)) (NewRouter (round64 (34 / 100))),
       \<lparr>rt_world = (), rt_store = NewMemoryStore, rt_log = []\<rparr>)) = Returns ls"
proof -
  have a: "al_summary (net_feed ! 0) = ''horizontal port scan detected from internal host''" by (simp add: net_feed_def net_alert_def)
  show ?thesis
    using containment_is_safe [where read_file = "\<lambda>_. Inr []" and dec = "\<lambda>_. Inr net_manifest" and a = "net_feed ! 0" and u = ascii_only
        and h = "in_order_host (\<lambda>n w. (Inl [], w))" and rt = "\<lparr>rt_world = (), rt_store = NewMemoryStore, rt_log = []\<rparr>",
        OF refl refl net_runtime [OF refl refl], unfolded a rt.simps, OF port_scan_matches refl] by blast
qed

end
