(* ===== verification/NetWatch.thy ===== *)
theory NetWatch
  imports Demo Board Drafting Walks
begin

text \<open>
  The connection screener (\<open>examples/local_netwatch\<close>): rows of \<open>lsof\<close> become connections (\<open>conns.go\<close>), and
  each is run through the workflow of \<open>examples/manifests/local-netwatch.json\<close> under a policy file
  (\<open>main.go\<close>). Reading a file, decoding JSON and what \<open>lsof\<close> prints are parameters.
\<close>

section \<open>Connections\<close>

record conn =
  cn_Process :: string
  cn_PID :: int
  cn_LocalIP :: string
  cn_PeerIP :: string
  cn_PeerPort :: int

definition conn_String :: "conn \<Rightarrow> string" where
  "conn_String c =
     cn_Process c @ ''['' @ show_int (cn_PID c) @ ''] -> '' @ cn_PeerIP c @ '':'' @ show_int (cn_PeerPort c)"

text \<open>\<open>strings.Cut\<close> at the arrow.\<close>

definition cut_arrow :: "string \<Rightarrow> (string \<times> string) option" where
  "cut_arrow s = (case str_index s ''->'' of None \<Rightarrow> None | Some i \<Rightarrow> Some (take i s, drop (i + 2) s))"

text \<open>One row; \<open>None\<close> is a \<open>continue\<close>.\<close>

definition lsof_row :: "string \<Rightarrow> conn option" where
  "lsof_row line =
     (let fs = Fields line in
      if length fs < 9 \<or> fs ! 0 = ''COMMAND'' then None
      else case cut_arrow (fs ! 8) of
        None \<Rightarrow> None
      | Some (local, peer) \<Rightarrow>
          (case str_cut (CHR '':'') local of
             None \<Rightarrow> None
           | Some (localIP, _) \<Rightarrow>
               (case str_cut (CHR '':'') peer of
                  None \<Rightarrow> None
                | Some (peerIP, peerPort) \<Rightarrow>
                    (case Atoi peerPort of
                       (port, ok) \<Rightarrow>
                         if \<not> ok then None
                         else Some \<lparr>cn_Process = fs ! 0, cn_PID = fst (Atoi (fs ! 1)), cn_LocalIP = localIP,
                                    cn_PeerIP = peerIP, cn_PeerPort = port\<rparr>))))"

definition parseLsof :: "string \<Rightarrow> conn list" where
  "parseLsof out = List.map_filter lsof_row (split_on (CHR 0x0A) out)"

text \<open>What \<open>exec.Command(...).Output()\<close> gives is a parameter: an error text, or the output.\<close>

definition Established :: "string + string \<Rightarrow> string + conn list" where
  "Established lsof =
     (case lsof of Inl err \<Rightarrow> Inl (''reading the socket table with lsof: '' @ err) | Inr out \<Rightarrow> Inr (parseLsof out))"

section \<open>Addresses\<close>

text \<open>The predicates of \<open>net.IP\<close> on the sixteen bytes of a parsed address.\<close>

definition ip_v4 :: "nat list \<Rightarrow> nat list option" where
  "ip_v4 ip = (if take 12 ip = replicate 10 0 @ [255, 255] then Some (drop 12 ip) else None)"

definition IsPrivate :: "nat list \<Rightarrow> bool" where
  "IsPrivate ip \<longleftrightarrow>
     (case ip_v4 ip of
        Some v \<Rightarrow> v ! 0 = 10 \<or> v ! 0 = 172 \<and> v ! 1 div 16 = 1 \<or> v ! 0 = 192 \<and> v ! 1 = 168
      | None \<Rightarrow> ip ! 0 div 2 = 126)"

definition IsLinkLocalUnicast :: "nat list \<Rightarrow> bool" where
  "IsLinkLocalUnicast ip \<longleftrightarrow>
     (case ip_v4 ip of
        Some v \<Rightarrow> v ! 0 = 169 \<and> v ! 1 = 254
      | None \<Rightarrow> ip ! 0 = 254 \<and> ip ! 1 div 64 = 2)"

definition IsLinkLocalMulticast :: "nat list \<Rightarrow> bool" where
  "IsLinkLocalMulticast ip \<longleftrightarrow>
     (case ip_v4 ip of
        Some v \<Rightarrow> v ! 0 = 224 \<and> v ! 1 = 0 \<and> v ! 2 = 0
      | None \<Rightarrow> ip ! 0 = 255 \<and> ip ! 1 mod 16 = 2)"

definition IsUnspecified :: "nat list \<Rightarrow> bool" where
  "IsUnspecified ip \<longleftrightarrow> ip_v4 ip = Some [0, 0, 0, 0] \<or> ip = replicate 16 0"

definition isPublic :: "string \<Rightarrow> bool" where
  "isPublic addr \<longleftrightarrow>
     (case ParseIP addr of
        None \<Rightarrow> False
      | Some ip \<Rightarrow>
          \<not> IsLoopback ip \<and> \<not> IsPrivate ip \<and> \<not> IsLinkLocalUnicast ip \<and> \<not> IsLinkLocalMulticast ip \<and> \<not> IsUnspecified ip)"

section \<open>The policy\<close>

record watch_policy =
  wp_RiskyPeers :: "string gomap"
  wp_ExpectedTalkers :: "string list"
  wp_PlaintextPorts :: "string gomap"

definition DefaultPolicy :: watch_policy where
  "DefaultPolicy =
     \<lparr>wp_RiskyPeers = [],
      wp_ExpectedTalkers =
        [''Google Chrome'', ''firefox'', ''Safari'', ''com.apple.WebKit.Networking'', ''Slack'', ''zoom.us'', ''Spotify'', ''Dropbox'', ''node'', ''Code Helper''],
      wp_PlaintextPorts =
        fold (\<lambda>(port, why). gput port why)
          [(''21'', ''FTP '' @ em_dash @ '' credentials and data in the clear''),
           (''23'', ''Telnet '' @ em_dash @ '' credentials in the clear''),
           (''25'', ''SMTP without TLS''),
           (''110'', ''POP3 '' @ em_dash @ '' credentials in the clear''),
           (''143'', ''IMAP without TLS''),
           (''389'', ''LDAP without TLS''),
           (''3389'', ''RDP exposed across the internet'')] []\<rparr>"

text \<open>What reading the file gave, and what a decoded file holds: a member that is absent or null is \<open>None\<close>.\<close>

datatype file_read = NoFile | Unreadable string | Contents string

record policy_file =
  wpf_RiskyPeers :: "string gomap option"
  wpf_ExpectedTalkers :: "string list option"
  wpf_PlaintextPorts :: "string gomap option"

definition LoadPolicy :: "(string \<Rightarrow> file_read) \<Rightarrow> (string \<Rightarrow> string + policy_file) \<Rightarrow> string \<Rightarrow> string + watch_policy" where
  "LoadPolicy read_file dec path =
     (let policy = DefaultPolicy in
      case read_file path of
        NoFile \<Rightarrow> Inr policy
      | Unreadable err \<Rightarrow> Inl err
      | Contents data \<Rightarrow>
          (case dec data of
             Inl err \<Rightarrow> Inl (path @ '': '' @ err)
           | Inr f \<Rightarrow>
               Inr \<lparr>wp_RiskyPeers = (case wpf_RiskyPeers f of Some m \<Rightarrow> m | None \<Rightarrow> wp_RiskyPeers policy),
                    wp_ExpectedTalkers = (case wpf_ExpectedTalkers f of Some ts \<Rightarrow> ts | None \<Rightarrow> wp_ExpectedTalkers policy),
                    wp_PlaintextPorts = (case wpf_PlaintextPorts f of Some m \<Rightarrow> m | None \<Rightarrow> wp_PlaintextPorts policy)\<rparr>))"

section \<open>The probe and the actions\<close>

definition assess_alert_worth :: "watch_policy \<Rightarrow> 'w probe" where
  "assess_alert_worth policy c w =
     (let finding = ctx_str c ''finding''; process = ctx_str c ''process'' in
      (if finding = ''risky_peer'' then (True, [], None)
       else if process \<in> set (wp_ExpectedTalkers policy) then
         (False, quoted process @ '' is on your expected-talkers list, and this finding is '' @ quoted finding @
            '' rather than a risky peer'', None)
       else (True, [], None), w))"

definition watch_enrich :: "'w action" where
  "watch_enrich c w = (Output [(''peer_is_public'', GBool (isPublic (ctx_str c ''peer_ip'')))], w)"

definition watch_assess :: "watch_policy \<Rightarrow> 'w action" where
  "watch_assess policy c w =
     (let peer = ctx_str c ''peer_ip''; portKey = fmt_f0 (ctx_float c ''peer_port'') in
      (Output
         (case map_of (wp_RiskyPeers policy) peer of
            Some why \<Rightarrow> [(''detail'', GStr (peer @ '' is on your risky list: '' @ why)), (''finding'', GStr ''risky_peer'')]
          | None \<Rightarrow>
              (case map_of (wp_PlaintextPorts policy) portKey of
                 Some why \<Rightarrow>
                   [(''detail'', GStr (''port '' @ portKey @ '' to the internet '' @ em_dash @ '' '' @ why)),
                    (''finding'', GStr ''plaintext_protocol'')]
               | None \<Rightarrow> [(''detail'', GStr []), (''finding'', GStr ''none'')])), w))"

definition watch_raise :: "'w action" where
  "watch_raise c w = (Output [(''alert'', ctx_get c ''detail'')], w)"

definition watch_hooks :: "watch_policy \<Rightarrow> 'w hooks" where
  "watch_hooks policy =
     [''netwatch.enrich'' \<mapsto> watch_enrich, ''netwatch.assess'' \<mapsto> watch_assess policy, ''netwatch.raise'' \<mapsto> watch_raise]"

section \<open>The manifest and the runtime\<close>

definition internal_text :: string where
  "internal_text = ''internal '' @ em_dash @ '' not an outbound connection''"

definition watch_manifest :: manifest_file where
  "watch_manifest =
     \<lparr>file_Name = ''local-netwatch'',
      file_Intents =
        [\<lparr>ispec_NodeID = ''local-netwatch.screen_connection'',
          ispec_Examples = [''screen this outbound connection'', ''check this connection for risk'', ''review established connections''],
          ispec_EntryWorkflowRef = ''local-netwatch.screen'', ispec_DeprecatedEntryStepRef = []\<rparr>],
      file_Policies =
        [\<lparr>pspec_PolicyID = ''internal_only'', pspec_FallbackStepRef = ''note_internal''\<rparr>,
         \<lparr>pspec_PolicyID = ''nothing_found'', pspec_FallbackStepRef = ''note_clean''\<rparr>,
         \<lparr>pspec_PolicyID = ''not_worth_alerting'', pspec_FallbackStepRef = ''suppressed''\<rparr>],
      file_Workflows =
        [\<lparr>wspec_WorkflowID = ''local-netwatch.screen'', wspec_EntryStepID = ''enrich'',
          wspec_Steps =
            [(json_leaf ''enrich'' ''netwatch.enrich'' []) \<lparr>sspec_OnSuccess := ''check_external''\<rparr>,
             (json_leaf ''check_external'' ''std.require''
                [(''field'', GStr ''peer_is_public''), (''op'', GStr ''eq''), (''value'', GBool True)])
               \<lparr>sspec_CircuitBreakerPolicyRef := ''internal_only'', sspec_OnSuccess := ''assess''\<rparr>,
             (json_leaf ''assess'' ''netwatch.assess'' []) \<lparr>sspec_OnSuccess := ''gate''\<rparr>,
             (json_leaf ''gate'' ''std.require''
                [(''field'', GStr ''finding''), (''op'', GStr ''neq''), (''value'', GStr ''none'')])
               \<lparr>sspec_CircuitBreakerPolicyRef := ''nothing_found'', sspec_OnSuccess := ''raise''\<rparr>,
             (json_leaf ''raise'' ''netwatch.raise'' [])
               \<lparr>sspec_SandboxProbeRef := ''netwatch.assess_alert_worth'', sspec_CircuitBreakerPolicyRef := ''not_worth_alerting'',
                sspec_OnSuccess := ''record''\<rparr>,
             json_leaf ''record'' ''std.set'' [(''fields'', GObj [(''disposition'', GStr ''FLAGGED'')])],
             json_leaf ''note_internal'' ''std.set'' [(''fields'', GObj [(''disposition'', GStr internal_text)])],
             json_leaf ''note_clean'' ''std.set'' [(''fields'', GObj [(''disposition'', GStr ''ok'')])],
             json_leaf ''suppressed'' ''std.set'' [(''fields'', GObj [(''disposition'', GStr ''not worth alerting'')])]]\<rparr>]\<rparr>"

definition watch_sandbox :: "watch_policy \<Rightarrow> 'w sandbox" where
  "watch_sandbox policy = RegisterProbe NewSandbox ''netwatch.assess_alert_worth'' (assess_alert_worth policy)"

definition watch_buildRuntime :: "(string \<Rightarrow> string + string) \<Rightarrow> (string \<Rightarrow> string + manifest_file) \<Rightarrow> watch_policy \<Rightarrow>
    (string, 'w router \<times> ('w, 's) engine) res" where
  "watch_buildRuntime read_file dec policy =
     example_runtime ''examples/manifests/local-netwatch.json'' read_file dec (watch_hooks policy) (round64 (34 / 100))
       (NewEngine (Some (sandbox_Probe (watch_sandbox policy))))"

section \<open>Screening\<close>

definition conn_context :: "conn \<Rightarrow> ctx" where
  "conn_context c =
     [(''peer_ip'', GStr (cn_PeerIP c)), (''peer_port'', GFloat (f64_of_int (cn_PeerPort c))),
      (''pid'', GFloat (f64_of_int (cn_PID c))), (''process'', GStr (cn_Process c))]"

definition screen_line :: "conn \<Rightarrow> ctx \<Rightarrow> string" where
  "screen_line c output =
     pad_right 11 (fmt_v (ctx_get output ''disposition'')) @ '' '' @ conn_String c @
     (case map_of output ''alert'' of Some alert \<Rightarrow> newline @ ''            '' @ fmt_v alert | None \<Rightarrow> []) @
     (case map_of output FailureReasonKey of
        Some (GStr why) \<Rightarrow>
          if ctx_get output ''disposition'' = GStr ''not worth alerting'' then newline @ ''            ('' @ why @ '')'' else []
      | _ \<Rightarrow> [])"

definition screen :: "'w host \<Rightarrow> ('w, 's) engine \<Rightarrow> string \<Rightarrow> conn \<Rightarrow> ('w, 's) rt \<Rightarrow> (string, string) res \<times> ('w, 's) rt" where
  "screen h e entry c rt =
     (case Run h e entry (conn_context c) rt of
        (Err err, rt1) \<Rightarrow> (Err (error_text err), rt1)
      | (Panic p, rt1) \<Rightarrow> (Panic p, rt1)
      | (Ok result, rt1) \<Rightarrow> (Ok (screen_line c (wr_Output result)), rt1))"

definition firstWord :: "string \<Rightarrow> string" where
  "firstWord s = takeWhile (\<lambda>ch. ch \<noteq> CHR '' '') s"

text \<open>The loop: what is printed at once, and the lines kept for sorting.\<close>

fun screen_all :: "(nat \<Rightarrow> 'w host) \<Rightarrow> ('w, 's) engine \<Rightarrow> string \<Rightarrow> nat \<Rightarrow> conn list \<Rightarrow> ('w, 's) rt \<Rightarrow>
    (string, string list \<times> string list) res \<times> ('w, 's) rt" where
  "screen_all hs e entry i [] rt = (Ok ([], []), rt)"
| "screen_all hs e entry i (c # cs) rt =
     (case screen (hs i) e entry c rt of
        (Panic p, rt1) \<Rightarrow> (Panic p, rt1)
      | (res, rt1) \<Rightarrow>
          (case screen_all hs e entry (Suc i) cs rt1 of
             (Ok (halted, lines), rt2) \<Rightarrow>
               (Ok (case res of
                      Ok line \<Rightarrow> (halted, line # lines)
                    | Err err \<Rightarrow> ((pad_right 11 ''halted'' @ '' '' @ conn_String c @ '': '' @ err) # halted, lines)
                    | Panic p \<Rightarrow> (halted, lines)), rt2)
           | other \<Rightarrow> other))"

definition count_word :: "string \<Rightarrow> string list \<Rightarrow> string" where
  "count_word word lines = digits_of (length (filter (\<lambda>l. firstWord l = word) lines))"

text \<open>The middle dot of the report.\<close>

definition middle_dot :: string where
  "middle_dot = [CHR 0xC2, CHR 0xB7]"

definition watch_main :: "unicode \<Rightarrow> (nat \<Rightarrow> 'w host) \<Rightarrow> (string \<Rightarrow> file_read) \<Rightarrow> (string \<Rightarrow> string + policy_file) \<Rightarrow>
    (string \<Rightarrow> string + string) \<Rightarrow> (string \<Rightarrow> string + manifest_file) \<Rightarrow> string + string \<Rightarrow> 'w \<Rightarrow> (string, string list) res" where
  "watch_main u hs read_policy dec_policy read_file dec lsof w =
     (case LoadPolicy read_policy dec_policy ''netwatch.json'' of
        Inl err \<Rightarrow> Err (''policy: '' @ err)
      | Inr policy \<Rightarrow>
          (case watch_buildRuntime read_file dec policy of
             Err err \<Rightarrow> Err (''setup failed: '' @ err)
           | Panic p \<Rightarrow> Panic p
           | Ok (router, e) \<Rightarrow>
               (case Match u ''local-netwatch'' ''review established connections'' router w of (m, router1, w1) \<Rightarrow>
                  if \<not> match_Matched m then Err ''no screening intent matched''
                  else case Established lsof of
                    Inl err \<Rightarrow> Err (''could not read connections: '' @ err)
                  | Inr conns \<Rightarrow>
                      (case screen_all hs e (match_EntryWorkflowRef m) 0 conns \<lparr>rt_world = w1, rt_store = NewMemoryStore, rt_log = []\<rparr> of
                         (Ok (halted, lines), _) \<Rightarrow>
                           Ok ([''== local outbound connection screening =='',
                                digits_of (length conns) @ '' established connections '' @ middle_dot @ '' '' @
                                  digits_of (length (wp_RiskyPeers policy)) @ '' risky peers listed '' @ middle_dot @ '' '' @
                                  digits_of (length (wp_PlaintextPorts policy)) @ '' plaintext ports'',
                                ''Rules are in netwatch.json '' @ em_dash @ '' this ships no threat intelligence.'', []] @
                               halted @ sort lines @
                               [[], ''FLAGGED '' @ count_word ''FLAGGED'' lines @ '' '' @ middle_dot @ '' suppressed '' @ count_word ''not'' lines @
                                  '' '' @ middle_dot @ '' ok '' @ count_word ''ok'' lines @ '' '' @ middle_dot @ '' internal '' @
                                  count_word ''internal'' lines])
                       | (Err err, _) \<Rightarrow> Err err
                       | (Panic p, _) \<Rightarrow> Panic p))))"

section \<open>What the program decides\<close>

text \<open>
  What the screener says of a connection, on every branch, and what the rows it reads let it see.
\<close>

section \<open>The loaded workflow\<close>

definition watch_flow :: "watch_policy \<Rightarrow> 'w workflow" where
  "watch_flow policy =
     \<lparr>wf_WorkflowID = ''local-netwatch.screen'', wf_DomainID = ''local-netwatch'', wf_EntryStepID = ''enrich'',
      wf_Steps =
       [''enrich'' \<mapsto> LeafStep (plain_leaf ''enrich'' watch_enrich [] [] ''check_external''),
        ''check_external'' \<mapsto> LeafStep (plain_leaf ''check_external''
          (require_action ''peer_is_public'' ''eq'' (GBool True)) [] ''internal_only'' ''assess''),
        ''assess'' \<mapsto> LeafStep (plain_leaf ''assess'' (watch_assess policy) [] [] ''gate''),
        ''gate'' \<mapsto> LeafStep (plain_leaf ''gate'' (require_action ''finding'' ''neq'' (GStr ''none'')) [] ''nothing_found'' ''raise''),
        ''raise'' \<mapsto> LeafStep (plain_leaf ''raise'' watch_raise ''netwatch.assess_alert_worth'' ''not_worth_alerting'' ''record''),
        ''record'' \<mapsto> LeafStep (plain_leaf ''record'' (set_action [(''disposition'', GStr ''FLAGGED'')]) [] [] []),
        ''note_internal'' \<mapsto> LeafStep (plain_leaf ''note_internal'' (set_action [(''disposition'', GStr internal_text)]) [] [] []),
        ''note_clean'' \<mapsto> LeafStep (plain_leaf ''note_clean'' (set_action [(''disposition'', GStr ''ok'')]) [] [] []),
        ''suppressed'' \<mapsto> LeafStep (plain_leaf ''suppressed'' (set_action [(''disposition'', GStr ''not worth alerting'')]) [] [] [])]\<rparr>"

definition watch_engine :: "watch_policy \<Rightarrow> ('w, 's) engine" where
  "watch_engine policy =
     \<lparr>eng_sandbox = Some (sandbox_Probe (watch_sandbox policy)), eng_observer = None,
      eng_workflows = [''local-netwatch.screen'' \<mapsto> watch_flow policy],
      eng_policies = [''internal_only'' \<mapsto> \<lparr>pol_PolicyID = ''internal_only'', pol_FallbackStepRef = ''note_internal''\<rparr>,
        ''nothing_found'' \<mapsto> \<lparr>pol_PolicyID = ''nothing_found'', pol_FallbackStepRef = ''note_clean''\<rparr>,
        ''not_worth_alerting'' \<mapsto> \<lparr>pol_PolicyID = ''not_worth_alerting'', pol_FallbackStepRef = ''suppressed''\<rparr>],
      eng_store = None, eng_authorizer = None, eng_maxSteps = DefaultMaxSteps, eng_maxDepth = DefaultMaxDepth\<rparr>"

lemma watch_domain:
  "Load (Inr watch_manifest) (watch_hooks policy) Default =
     Ok \<lparr>dom_Name = ''local-netwatch'',
         dom_Intents = [\<lparr>node_NodeID = ''local-netwatch.screen_connection'', node_DomainID = ''local-netwatch'',
           node_Examples = [''screen this outbound connection'', ''check this connection for risk'', ''review established connections''],
           node_EntryWorkflowRef = ''local-netwatch.screen'', node_Metadata = []\<rparr>],
         dom_Workflows = [watch_flow policy\<lparr>wf_DomainID := []\<rparr>],
         dom_Policies = [\<lparr>pol_PolicyID = ''internal_only'', pol_FallbackStepRef = ''note_internal''\<rparr>,
           \<lparr>pol_PolicyID = ''nothing_found'', pol_FallbackStepRef = ''note_clean''\<rparr>,
           \<lparr>pol_PolicyID = ''not_worth_alerting'', pol_FallbackStepRef = ''suppressed''\<rparr>]\<rparr>"
  by (simp add: literal_load watch_manifest_def watch_flow_def watch_hooks_def)

lemma watch_runtime:
  assumes "read_file ''examples/manifests/local-netwatch.json'' = Inr data" and "dec data = Inr watch_manifest"
  shows "\<exists>router. watch_buildRuntime read_file dec policy = Ok (router, watch_engine policy)"
  by (simp add: watch_buildRuntime_def example_runtime_def assms watch_domain RegisterDomain_def NewRegistry_def NewEngine_def
      RegisterWorkflow_def RegisterPolicy_def claim_workflow_def watch_engine_def watch_flow_def Let_def)

lemma watch_steps:
  "wf_Steps (watch_flow p) ''enrich'' = Some (LeafStep (plain_leaf ''enrich'' watch_enrich [] [] ''check_external''))"
  "wf_Steps (watch_flow p) ''check_external'' = Some (LeafStep (plain_leaf ''check_external''
     (require_action ''peer_is_public'' ''eq'' (GBool True)) [] ''internal_only'' ''assess''))"
  "wf_Steps (watch_flow p) ''assess'' = Some (LeafStep (plain_leaf ''assess'' (watch_assess p) [] [] ''gate''))"
  "wf_Steps (watch_flow p) ''gate'' = Some (LeafStep (plain_leaf ''gate''
     (require_action ''finding'' ''neq'' (GStr ''none'')) [] ''nothing_found'' ''raise''))"
  "wf_Steps (watch_flow p) ''raise'' = Some (LeafStep (plain_leaf ''raise'' watch_raise
     ''netwatch.assess_alert_worth'' ''not_worth_alerting'' ''record''))"
  "wf_Steps (watch_flow p) ''record'' = Some (LeafStep (plain_leaf ''record'' (set_action [(''disposition'', GStr ''FLAGGED'')]) [] [] []))"
  "wf_Steps (watch_flow p) ''note_internal'' = Some (LeafStep (plain_leaf ''note_internal''
     (set_action [(''disposition'', GStr internal_text)]) [] [] []))"
  "wf_Steps (watch_flow p) ''note_clean'' = Some (LeafStep (plain_leaf ''note_clean'' (set_action [(''disposition'', GStr ''ok'')]) [] [] []))"
  "wf_Steps (watch_flow p) ''suppressed'' = Some (LeafStep (plain_leaf ''suppressed''
     (set_action [(''disposition'', GStr ''not worth alerting'')]) [] [] []))"
  by (simp_all add: watch_flow_def)

lemma watch_engine_parts [simp]:
  "eng_sandbox (watch_engine p) = Some (sandbox_Probe (watch_sandbox p))" "eng_maxSteps (watch_engine p) = 10000"
  "eng_maxDepth (watch_engine p) = 64" "eng_workflows (watch_engine p) ''local-netwatch.screen'' = Some (watch_flow p)"
  "wf_EntryStepID (watch_flow p) = ''enrich''"
  "eng_policies (watch_engine p) ''internal_only'' = Some \<lparr>pol_PolicyID = ''internal_only'', pol_FallbackStepRef = ''note_internal''\<rparr>"
  "eng_policies (watch_engine p) ''nothing_found'' = Some \<lparr>pol_PolicyID = ''nothing_found'', pol_FallbackStepRef = ''note_clean''\<rparr>"
  "eng_policies (watch_engine p) ''not_worth_alerting'' = Some \<lparr>pol_PolicyID = ''not_worth_alerting'', pol_FallbackStepRef = ''suppressed''\<rparr>"
  "sb_probes (watch_sandbox p) ''netwatch.assess_alert_worth'' = Some (assess_alert_worth p)"
  by (simp_all add: watch_engine_def watch_flow_def DefaultMaxSteps_def DefaultMaxDepth_def watch_sandbox_def RegisterProbe_def)

section \<open>From each step on\<close>

definition screened :: "string \<Rightarrow> bool \<Rightarrow> outcome \<Rightarrow> bool" where
  "screened disposition alerted r \<longleftrightarrow>
     (\<exists>result. r = Ok result \<and> map_of (wr_Output result) ''disposition'' = Some (GStr disposition) \<and>
        (map_of (wr_Output result) ''alert'' \<noteq> None \<longleftrightarrow> alerted))"

abbreviation (input) watch_from :: "string \<Rightarrow> ('w, 's) runner \<Rightarrow> 'w host \<Rightarrow> watch_policy \<Rightarrow> int \<Rightarrow> ctx \<Rightarrow> string list \<Rightarrow> ('w, 's) rt \<Rightarrow> outcome" where
  "watch_from sid sub h p n c t rt \<equiv>
     fst (run_loop sub h (watch_engine p) (watch_flow p) ''local-netwatch.screen'' 0 n
       \<lparr>cur_step = sid, cur_ctx = c, cur_done = [], cur_trace = t\<rparr> rt)"

lemma watch_ends:
  assumes "n \<le> 100" and "map_of c ''alert'' = None"
  shows "screened internal_text False (watch_from ''note_internal'' sub h p n c t rt)"
    and "screened ''ok'' False (watch_from ''note_clean'' sub h p n c t rt)"
    and "screened ''not worth alerting'' False (watch_from ''suppressed'' sub h p n c t rt)"
proof -
  show "screened internal_text False (watch_from ''note_internal'' sub h p n c t rt)"
    by (rule go_output [OF watch_steps(7), where out = "[(''disposition'', GStr internal_text)]"])
      (use assms in \<open>simp_all add: set_action_def go_end screened_def\<close>)
  show "screened ''ok'' False (watch_from ''note_clean'' sub h p n c t rt)"
    by (rule go_output [OF watch_steps(8), where out = "[(''disposition'', GStr ''ok'')]"])
      (use assms in \<open>simp_all add: set_action_def go_end screened_def\<close>)
  show "screened ''not worth alerting'' False (watch_from ''suppressed'' sub h p n c t rt)"
    by (rule go_output [OF watch_steps(9), where out = "[(''disposition'', GStr ''not worth alerting'')]"])
      (use assms in \<open>simp_all add: set_action_def go_end screened_def\<close>)
qed

lemma watch_flagged:
  assumes "n \<le> 100" and "map_of c ''alert'' \<noteq> None"
  shows "screened ''FLAGGED'' True (watch_from ''record'' sub h p n c t rt)"
  by (rule go_output [OF watch_steps(6), where out = "[(''disposition'', GStr ''FLAGGED'')]"])
    (use assms in \<open>simp_all add: set_action_def go_end screened_def\<close>)

lemma from_raise:
  assumes "n \<le> 99" and "map_of c ''alert'' = None"
    and "tolerated \<longleftrightarrow> ctx_str c ''finding'' \<noteq> ''risky_peer'' \<and> ctx_str c ''process'' \<in> set (wp_ExpectedTalkers p)"
    and "d = (if tolerated then ''not worth alerting'' else ''FLAGGED'')"
  shows "screened d (\<not> tolerated) (watch_from ''raise'' sub h p n c t (rt :: ('w, 's) rt))"
proof (cases tolerated)
  case True
  define mode where "mode = quoted (ctx_str c ''process'') @ '' is on your expected-talkers list, and this finding is '' @
    quoted (ctx_str c ''finding'') @ '' rather than a risky peer''"
  have "screened ''not worth alerting'' False (watch_from ''raise'' sub h p n c t rt)"
  proof (rule go_refused [OF watch_steps(5), where mode = mode and probe = "assess_alert_worth p" and sb = "watch_sandbox p"
        and f = "''suppressed''" and pid = "''not_worth_alerting''"])
    show "\<And>w :: 'w. assess_alert_worth p c w = ((False, mode, None), w)"
      using True assms(3) by (simp add: assess_alert_worth_def mode_def Let_def)
    show "mode \<noteq> []" by (simp add: mode_def)
  qed (use assms(1,2) in \<open>simp_all add: watch_ends diverted_lookup del: gmerge.simps map_of_gmerge\<close>)
  with True assms(4) show ?thesis by simp
next
  case False
  have "screened ''FLAGGED'' True (watch_from ''raise'' sub h p n c t rt)"
  proof (rule go_healthy [OF watch_steps(5), where mode = "[]" and probe = "assess_alert_worth p" and sb = "watch_sandbox p"])
    show "\<And>w :: 'w. assess_alert_worth p c w = ((True, [], None), w)"
      using False assms(3) by (auto simp: assess_alert_worth_def Let_def)
    show "\<And>w :: 'w. watch_raise c w = (Output [(''alert'', ctx_get c ''detail'')], w)" by (simp add: watch_raise_def)
  qed (use assms(1) in \<open>simp_all add: watch_flagged\<close>)
  with False assms(4) show ?thesis by simp
qed

text \<open>What the policy makes of a connection that leaves the machine.\<close>

definition screening :: "watch_policy \<Rightarrow> conn \<Rightarrow> string" where
  "screening p c =
     (if \<not> isPublic (cn_PeerIP c) then internal_text
      else if map_of (wp_RiskyPeers p) (cn_PeerIP c) \<noteq> None then ''FLAGGED''
      else if map_of (wp_PlaintextPorts p) (show_int (cn_PeerPort c)) = None then ''ok''
      else if cn_Process c \<in> set (wp_ExpectedTalkers p) then ''not worth alerting''
      else ''FLAGGED'')"


lemma from_watch_gate:
  assumes "n \<le> 98" and "map_of c ''alert'' = None" and "map_of c ''finding'' = Some (GStr finding)"
    and "tolerated \<longleftrightarrow> finding \<noteq> ''risky_peer'' \<and> ctx_str c ''process'' \<in> set (wp_ExpectedTalkers p)"
    and "d = (if finding = ''none'' then ''ok'' else if tolerated then ''not worth alerting'' else ''FLAGGED'')"
    and "a \<longleftrightarrow> finding \<noteq> ''none'' \<and> \<not> tolerated"
  shows "screened d a (watch_from ''gate'' sub h p n c t (rt :: ('w, 's) rt))"
proof -
  have cmp: "compare (ctx_get c ''finding'') ''neq'' (GStr ''none'') = Ok (finding \<noteq> ''none'')"
    using assms(3) by (auto simp: compare_def ctx_get_def equals_res_def equals_def toFloat_def go_eq_def)
  have str: "ctx_str c ''finding'' = finding" using assms(3) by (simp add: ctx_str_def)
  show ?thesis
  proof (cases "finding = ''none''")
    case True
    define msg where "msg = requirement_not_met ''finding'' (ctx_get c ''finding'') ''neq'' (GStr ''none'')"
    have act: "require_action ''finding'' ''neq'' (GStr ''none'') c w = (Fails msg, w)" for w :: 'w
      by (simp add: require_action_def cmp True msg_def)
    have "screened ''ok'' False (watch_from ''gate'' sub h p n c t rt)"
      by (rule go_fallback [OF watch_steps(4) _ _ act, where f = "''note_clean''" and pid = "''nothing_found''"])
        (use assms(1,2) in \<open>simp_all add: watch_ends diverted_lookup del: gmerge.simps map_of_gmerge\<close>)
    with True assms(5,6) show ?thesis by simp
  next
    case False
    have act: "require_action ''finding'' ''neq'' (GStr ''none'') c w = (Output [], w)" for w :: 'w
      by (simp add: require_action_def cmp False)
    have "screened (if tolerated then ''not worth alerting'' else ''FLAGGED'') (\<not> tolerated) (watch_from ''gate'' sub h p n c t rt)"
    proof (rule go_output [OF watch_steps(4) _ _ act])
      show "screened (if tolerated then ''not worth alerting'' else ''FLAGGED'') (\<not> tolerated)
        (watch_from ''raise'' sub h p (n + 1) (gmerge c []) (t @ [''gate'']) rt')" for rt'
        unfolding gmerge.simps by (rule from_raise) (use assms(1,2,4) str in simp_all)
    qed (use assms(1) in simp_all)
    with False assms(5,6) show ?thesis by simp
  qed
qed

lemma from_assess:
  assumes "n \<le> 97" and "map_of c ''alert'' = None" and "ctx_str c ''peer_ip'' = cn_PeerIP cn" and "ctx_str c ''process'' = cn_Process cn"
    and "fmt_f0 (ctx_float c ''peer_port'') = show_int (cn_PeerPort cn)" and "isPublic (cn_PeerIP cn)"
  shows "screened (screening p cn) (screening p cn = ''FLAGGED'') (watch_from ''assess'' sub h p n c t (rt :: ('w, 's) rt))"
proof -
  define finding where "finding =
    (if map_of (wp_RiskyPeers p) (cn_PeerIP cn) \<noteq> None then ''risky_peer''
     else if map_of (wp_PlaintextPorts p) (show_int (cn_PeerPort cn)) \<noteq> None then ''plaintext_protocol'' else ''none'')"
  obtain detail where act: "\<And>w :: 'w. watch_assess p c w = (Output [(''detail'', detail), (''finding'', GStr finding)], w)"
    using assms(3,5) by (cases "map_of (wp_RiskyPeers p) (cn_PeerIP cn)"; cases "map_of (wp_PlaintextPorts p) (show_int (cn_PeerPort cn))")
      (simp_all add: watch_assess_def finding_def Let_def)
  let ?c = "gmerge c [(''detail'', detail), (''finding'', GStr finding)]"
  define tolerated where "tolerated \<longleftrightarrow> finding \<noteq> ''risky_peer'' \<and> cn_Process cn \<in> set (wp_ExpectedTalkers p)"
  have d: "screening p cn = (if finding = ''none'' then ''ok'' else if tolerated then ''not worth alerting'' else ''FLAGGED'')"
    using assms(6) by (auto simp: screening_def finding_def tolerated_def)
  have look: "map_of ?c ''alert'' = None" "map_of ?c ''finding'' = Some (GStr finding)" "ctx_str ?c ''process'' = cn_Process cn"
    using assms(2,4) by (simp_all add: ctx_str_def del: gmerge.simps)
  have raised: "screening p cn = ''FLAGGED'' \<longleftrightarrow> finding \<noteq> ''none'' \<and> \<not> tolerated"
    unfolding d by simp
  have talker: "tolerated \<longleftrightarrow> finding \<noteq> ''risky_peer'' \<and> ctx_str ?c ''process'' \<in> set (wp_ExpectedTalkers p)"
    unfolding tolerated_def look(3) ..
  show ?thesis
  proof (rule go_output [OF watch_steps(3) _ _ act])
    show "screened (screening p cn) (screening p cn = ''FLAGGED'') (watch_from ''gate'' sub h p (n + 1) ?c (t @ [''assess'']) rt')" for rt'
      by (rule from_watch_gate [OF _ look(1,2) talker d raised]) (use assms(1) in simp)
  qed (use assms(1) in simp_all)
qed

lemma port_key: "\<bar>port\<bar> < 2 ^ 53 \<Longrightarrow> fmt_f0 (f64_of_int port) = show_int port"
  by (simp add: f64_of_int_small round_rat_def)

lemma watch_run:
  assumes "\<bar>cn_PeerPort cn\<bar> < 2 ^ 53"
  shows "screened (screening p cn) (screening p cn = ''FLAGGED'')
    (fst (Run h (watch_engine p) ''local-netwatch.screen'' (conn_context cn) (rt :: ('w, 's) rt)))"
proof (rule Run_from [OF watch_engine_parts(4)])
  fix sub
  let ?c0 = "conn_context cn" and ?out = "[(''peer_is_public'', GBool (isPublic (cn_PeerIP cn)))]"
  have act: "watch_enrich ?c0 w = (Output ?out, w)" for w :: 'w
    by (simp add: watch_enrich_def conn_context_def ctx_str_def)
  define c where "c = gmerge ?c0 ?out"
  have look: "map_of c ''alert'' = None" "ctx_str c ''peer_ip'' = cn_PeerIP cn" "ctx_str c ''process'' = cn_Process cn"
    "fmt_f0 (ctx_float c ''peer_port'') = show_int (cn_PeerPort cn)"
    using port_key [OF assms] by (simp_all add: c_def ctx_str_def ctx_float_def conn_context_def del: gmerge.simps)
  have cmp: "compare (ctx_get c ''peer_is_public'') ''eq'' (GBool True) = Ok (isPublic (cn_PeerIP cn))"
    by (simp add: c_def ctx_get_def compare_def equals_res_def equals_def toFloat_def go_eq_def del: gmerge.simps)
  have external: "screened (screening p cn) (screening p cn = ''FLAGGED'') (watch_from ''check_external'' sub h p 1 c t rt')" for t and rt' :: "('w, 's) rt"
  proof (cases "isPublic (cn_PeerIP cn)")
    case True
    have act: "require_action ''peer_is_public'' ''eq'' (GBool True) c w = (Output [], w)" for w :: 'w
      by (simp add: require_action_def cmp True)
    show ?thesis
      by (rule go_output [OF watch_steps(2) _ _ act]) (use look True in \<open>simp_all add: from_assess\<close>)
  next
    case False
    define msg where "msg = requirement_not_met ''peer_is_public'' (ctx_get c ''peer_is_public'') ''eq'' (GBool True)"
    have act: "require_action ''peer_is_public'' ''eq'' (GBool True) c w = (Fails msg, w)" for w :: 'w
      by (simp add: require_action_def cmp False msg_def)
    have s: "screening p cn = internal_text" "(internal_text = ''FLAGGED'') = False"
      using False by (simp_all add: screening_def internal_text_def)
    show ?thesis
      unfolding s
      by (rule go_fallback [OF watch_steps(2) _ _ act, where f = "''note_internal''" and pid = "''internal_only''"])
        (use look(1) in \<open>simp_all add: watch_ends diverted_lookup del: gmerge.simps map_of_gmerge\<close>)
  qed
  show "screened (screening p cn) (screening p cn = ''FLAGGED'') (watch_from (wf_EntryStepID (watch_flow p)) sub h p 0 ?c0 [] rt)"
    unfolding watch_engine_parts(5)
  proof (rule go_output [OF watch_steps(1) _ _ act])
    show "screened (screening p cn) (screening p cn = ''FLAGGED'') (watch_from ''check_external'' sub h p (0 + 1) (gmerge ?c0 ?out) ([] @ [''enrich'']) rt')" for rt'
      using external unfolding c_def by simp
  qed simp_all
qed simp

section \<open>Screening a connection\<close>

text \<open>C39. Under any policy, screening a connection runs to its end and says what the policy makes of the peer, and raises an
  alert exactly when it says FLAGGED: always for a listed peer, never for an address that is not public.\<close>

theorem connections_are_screened:
  fixes rt :: "('w, 's) rt"
  assumes "read_file ''examples/manifests/local-netwatch.json'' = Inr data" and "dec data = Inr watch_manifest"
    and "watch_buildRuntime read_file dec policy = Ok (router, e)" and "\<bar>cn_PeerPort c\<bar> < 2 ^ 53"
  shows "\<exists>output. fst (screen h e ''local-netwatch.screen'' c rt) = Ok (screen_line c output) \<and>
    map_of output ''disposition'' = Some (GStr (screening policy c)) \<and>
    (map_of output ''alert'' \<noteq> None \<longleftrightarrow> screening policy c = ''FLAGGED'')"
proof -
  have "\<exists>router'. watch_buildRuntime read_file dec policy = Ok (router', watch_engine policy :: ('w, 's) engine)"
    by (rule watch_runtime [where read_file = read_file and dec = dec, OF assms(1,2)])
  then have e: "e = watch_engine policy" using assms(3) by auto
  obtain r rt1 where r: "Run h e ''local-netwatch.screen'' (conn_context c) rt = (r, rt1)" by force
  have "screened (screening policy c) (screening policy c = ''FLAGGED'') r"
    using watch_run [OF assms(4), of policy h rt] unfolding e [symmetric] r fst_conv .
  then obtain result where "r = Ok result" "map_of (wr_Output result) ''disposition'' = Some (GStr (screening policy c))"
    "map_of (wr_Output result) ''alert'' \<noteq> None \<longleftrightarrow> screening policy c = ''FLAGGED''"
    unfolding screened_def by blast
  then show ?thesis by (intro exI [of _ "wr_Output result"]) (simp add: screen_def r)
qed

lemma connections_are_screened_witness:
  "\<exists>output. fst (screen (in_order_host (\<lambda>n w. (Inl [], w))) (watch_engine DefaultPolicy) ''local-netwatch.screen''
      \<lparr>cn_Process = ''curl'', cn_PID = 7, cn_LocalIP = ''192.168.1.5'', cn_PeerIP = ''93.184.216.34'', cn_PeerPort = 23\<rparr>
      \<lparr>rt_world = (), rt_store = NewMemoryStore, rt_log = []\<rparr>) = Ok (screen_line
        \<lparr>cn_Process = ''curl'', cn_PID = 7, cn_LocalIP = ''192.168.1.5'', cn_PeerIP = ''93.184.216.34'', cn_PeerPort = 23\<rparr> output) \<and>
    map_of output ''disposition'' = Some (GStr ''FLAGGED'') \<and> map_of output ''alert'' \<noteq> None"
proof -
  let ?c = "\<lparr>cn_Process = ''curl'', cn_PID = 7, cn_LocalIP = ''192.168.1.5'', cn_PeerIP = ''93.184.216.34'', cn_PeerPort = 23\<rparr>"
  obtain router where b: "watch_buildRuntime (\<lambda>_. Inr []) (\<lambda>_. Inr watch_manifest) DefaultPolicy =
      Ok (router, watch_engine DefaultPolicy :: (unit, memory_store) engine)"
    using watch_runtime [where read_file = "\<lambda>_. Inr []" and dec = "\<lambda>_. Inr watch_manifest" and policy = DefaultPolicy, OF refl refl] by blast
  have pub: "isPublic ''93.184.216.34''" by code_simp
  have "screening DefaultPolicy ?c = ''FLAGGED''"
    using pub by (simp add: screening_def DefaultPolicy_def) (code_simp)
  then show ?thesis
    using connections_are_screened [where c = ?c and h = "in_order_host (\<lambda>n w. (Inl [], w))" and
        rt = "\<lparr>rt_world = (), rt_store = NewMemoryStore, rt_log = []\<rparr>", OF refl refl b] by simp
qed

section \<open>What the rows let the screener see\<close>

text \<open>A process name is one field of a row, so it never holds a blank: the two entries of the default list that do can
  never be met.\<close>

lemma span_field_no_blank: "CHR '' '' \<notin> set (fst (span_field s))"
proof (induction s)
  case (Cons c s)
  then show ?case using at_space_blank [of s] by (cases "c = CHR '' ''") (auto split: prod.splits)
qed simp

lemma Fields_no_blank: "f \<in> set (Fields s) \<Longrightarrow> CHR '' '' \<notin> set f"
proof (induction s rule: Fields.induct)
  case (1 s)
  then show ?case
    using span_field_no_blank [of "trim_left s"] by (subst (asm) (2) Fields.simps) (auto simp: Let_def split: if_splits)
qed

lemma lsof_row_Some:
  assumes "lsof_row line = Some c"
  shows "cn_Process c = Fields line ! 0" and "length (Fields line) \<ge> 9" and
    "\<exists>local peer rest. cut_arrow (Fields line ! 8) = Some (local, peer) \<and>
      str_cut (CHR '':'') peer = Some (cn_PeerIP c, rest) \<and> Atoi rest = (cn_PeerPort c, True)"
  using assms by (auto simp: lsof_row_def Let_def split: if_splits option.splits prod.splits)

lemma talkers_with_a_blank_never_match:
  assumes "c \<in> set (parseLsof out)"
  shows "cn_Process c \<noteq> ''Google Chrome'' \<and> cn_Process c \<noteq> ''Code Helper''"
proof -
  obtain line where l: "lsof_row line = Some c"
    using assms by (auto simp: parseLsof_def map_filter_def)
  then have "cn_Process c \<in> set (Fields line)"
    using lsof_row_Some(1,2) [OF l] by (cases "Fields line") simp_all
  from Fields_no_blank [OF this] show ?thesis by auto
qed

text \<open>The peer is cut at its first colon and what follows must be a number, so a peer with a second colon, as every IPv6 peer
  has, makes the row vanish: whatever the policy lists, such a connection is never screened.\<close>

lemma Atoi_no_colon: "snd (Atoi s) \<Longrightarrow> CHR '':'' \<notin> set s"
proof -
  assume "snd (Atoi s)"
  then have "list_all is_digit (if s \<noteq> [] \<and> (hd s = CHR ''+'' \<or> hd s = CHR ''-'') then tl s else s)"
    by (auto simp: Atoi_def Let_def split: if_splits)
  moreover have "\<not> is_digit (CHR '':'')" by (simp add: is_digit_def)
  ultimately show ?thesis by (cases s) (auto simp: list_all_iff split: if_splits)
qed

lemma ipv6_peers_are_not_screened:
  assumes "cut_arrow (Fields line ! 8) = Some (local, a @ CHR '':'' # b @ CHR '':'' # c)"
  shows "lsof_row line = None"
proof (rule ccontr)
  assume "lsof_row line \<noteq> None"
  then obtain cn where l: "lsof_row line = Some cn" by auto
  obtain rest where r: "str_cut (CHR '':'') (a @ CHR '':'' # b @ CHR '':'' # c) = Some (cn_PeerIP cn, rest)"
      "Atoi rest = (cn_PeerPort cn, True)"
    using lsof_row_Some(3) [OF l] assms by auto
  define peer where "peer = a @ CHR '':'' # b @ CHR '':'' # c"
  define us where "us = takeWhile (\<lambda>x. x \<noteq> CHR '':'') peer"
  have "\<exists>vs. peer = us @ CHR '':'' # vs \<and> CHR '':'' \<in> set vs"
  proof (cases "CHR '':'' \<in> set a")
    case True
    then obtain x y where "a = x @ CHR '':'' # y" "CHR '':'' \<notin> set x" by (meson split_list_first)
    then show ?thesis by (auto simp: us_def peer_def takeWhile_append)
  next
    case False
    then show ?thesis by (auto simp: us_def peer_def takeWhile_append)
  qed
  then have "CHR '':'' \<in> set rest"
    using r(1) unfolding peer_def [symmetric] str_cut_def first_index_def us_def [symmetric] by (auto split: if_splits)
  moreover have "CHR '':'' \<notin> set rest" using Atoi_no_colon r(2) by simp
  ultimately show False by simp
qed

end
