(* ===== verification/Quickstart.thy ===== *)
theory Quickstart
  imports Demo Drafting Bench Walks
begin

text \<open>
  The first example (\<open>examples/quickstart/main.go\<close>): one workflow written in Go rather than in a manifest. A refund
  to an open account is paid up to a limit and parked for a manager above it; to a closed account it is held.
\<close>

definition qs_closedAccounts :: "string set" where
  "qs_closedAccounts = {''acct-991''}"

definition managerApprovalOver :: float64 where
  "managerApprovalOver = Fin 100"

definition qs_account_open :: "'w probe" where
  "qs_account_open c w =
     (let account = ctx_str c ''account'' in
      (if account \<in> qs_closedAccounts then (False, ''account '' @ account @ '' is closed; the refund would bounce'', None)
       else (True, [], None), w))"

definition qs_pay :: "'w action" where
  "qs_pay c w =
     (if f64_lt managerApprovalOver (ctx_float c ''amount'') then (Suspend ''refund over the limit needs a manager'', w)
      else (Output [(''paid'', GBool True)], w))"

definition qs_hold :: "'w action" where
  "qs_hold c w = (Output [(''paid'', GBool False)], w)"

definition qs_workflow :: "'w workflow" where
  "qs_workflow =
     \<lparr>wf_WorkflowID = ''refunds.process'', wf_DomainID = [], wf_EntryStepID = ''pay'',
      wf_Steps =
       [''pay'' \<mapsto> LeafStep
          \<lparr>leaf_StepID = ''pay'', leaf_Run = qs_pay, leaf_SandboxProbeRef = ''refund.account_open'',
           leaf_CircuitBreakerPolicyRef = ''needs_human'', leaf_OnSuccess = [], leaf_CompensateStepRef = []\<rparr>,
        ''hold'' \<mapsto> LeafStep
          \<lparr>leaf_StepID = ''hold'', leaf_Run = qs_hold, leaf_SandboxProbeRef = [],
           leaf_CircuitBreakerPolicyRef = [], leaf_OnSuccess = [], leaf_CompensateStepRef = []\<rparr>]\<rparr>"

definition qs_domain :: "'w domain" where
  "qs_domain =
     \<lparr>dom_Name = ''refunds'',
      dom_Intents =
        [\<lparr>node_NodeID = ''refunds.request'', node_DomainID = ''refunds'',
          node_Examples = [''customer wants a refund'', ''please refund this order''],
          node_EntryWorkflowRef = ''refunds.process'', node_Metadata = []\<rparr>],
      dom_Workflows = [qs_workflow],
      dom_Policies = [\<lparr>pol_PolicyID = ''needs_human'', pol_FallbackStepRef = ''hold''\<rparr>]\<rparr>"

definition qs_buildRuntime :: "'w router \<times> ('w, memory_store) engine" where
  "qs_buildRuntime =
     (let sb = RegisterProbe NewSandbox ''refund.account_open'' qs_account_open;
          e = SetStore (Some MemoryStore) (NewEngine (Some (sandbox_Probe sb)));
          r = RegisterDomain qs_domain (NewRegistry (NewRouter (round64 (34 / 100))) e)
      in (reg_router r, reg_engine r))"

text \<open>\<open>result.StatePointer[:6]\<close> panics on a shorter pointer.\<close>

definition slice_to :: "nat \<Rightarrow> string \<Rightarrow> string returned" where
  "slice_to n s =
     (if length s < n then
        Panicked (''slice bounds out of range [:'' @ digits_of n @ ''] with length '' @ digits_of (length s))
      else Returns (take n s))"

definition ellipsis_mark :: string where
  "ellipsis_mark = [CHR 0xE2, CHR 0x80, CHR 0xA6]"

definition qs_answer :: "outcome \<Rightarrow> string returned" where
  "qs_answer r =
     (case r of
        Err err \<Rightarrow> Returns (''halted: '' @ error_text err)
      | Panic p \<Rightarrow> Panicked p
      | Ok result \<Rightarrow>
          if wr_StatePointer result \<noteq> [] then
            (case slice_to 6 (wr_StatePointer result) of
               Returns p \<Rightarrow> Returns (''parked for a manager (pointer '' @ p @ ellipsis_mark @ '')'')
             | Panicked p \<Rightarrow> Panicked p)
          else if ctx_get (wr_Output result) ''paid'' = GBool True then Returns ''paid''
          else Returns (''held: '' @ fmt_v (ctx_get (wr_Output result) FailureReasonKey)))"

definition qs_handle :: "'w host \<Rightarrow> ('w, 's) engine \<Rightarrow> string \<Rightarrow> string \<Rightarrow> float64 \<Rightarrow> ('w, 's) rt \<Rightarrow> string returned \<times> ('w, 's) rt" where
  "qs_handle h e entry account amount rt =
     map_prod qs_answer id (Run h e entry [(''account'', GStr account), (''amount'', GFloat amount)] rt)"

definition qs_cases :: "(string \<times> float64) list" where
  "qs_cases = [(''acct-100'', Fin 20), (''acct-100'', Fin 500), (''acct-991'', Fin 20)]"

fun qs_all :: "(nat \<Rightarrow> 'w host) \<Rightarrow> ('w, 's) engine \<Rightarrow> string \<Rightarrow> nat \<Rightarrow> (string \<times> float64) list \<Rightarrow> ('w, 's) rt \<Rightarrow>
    string list returned \<times> ('w, 's) rt" where
  "qs_all hs e entry i [] rt = (Returns [], rt)"
| "qs_all hs e entry i ((account, amount) # cs) rt =
     (case qs_handle (hs i) e entry account amount rt of
        (Panicked p, rt1) \<Rightarrow> (Panicked p, rt1)
      | (Returns answer, rt1) \<Rightarrow>
          print_then [pad_right 9 account @ '' $'' @ pad_right 6 (fmt_f0 amount) @ '' -> '' @ answer]
            (qs_all hs e entry (Suc i) cs rt1))"

definition qs_main :: "unicode \<Rightarrow> (nat \<Rightarrow> 'w host) \<Rightarrow> 'w \<Rightarrow> string list returned" where
  "qs_main u hs w =
     (case qs_buildRuntime of (router, e) \<Rightarrow>
        case Match u ''refunds'' ''customer wants a refund'' router w of (m, router1, w1) \<Rightarrow>
          if \<not> match_Matched m then Returns [''no intent matched'']
          else fst (qs_all hs e (match_EntryWorkflowRef m) 0 qs_cases \<lparr>rt_world = w1, rt_store = NewMemoryStore, rt_log = []\<rparr>))"

section \<open>What the program decides\<close>

text \<open>What the first example answers, for every account and amount.\<close>

definition qs_flow :: "'w workflow" where
  "qs_flow = qs_workflow\<lparr>wf_DomainID := ''refunds''\<rparr>"

definition qs_sandbox :: "'w sandbox" where
  "qs_sandbox = RegisterProbe NewSandbox ''refund.account_open'' qs_account_open"

definition qs_engine :: "('w, memory_store) engine" where
  "qs_engine =
     \<lparr>eng_sandbox = Some (sandbox_Probe qs_sandbox), eng_observer = None, eng_workflows = [''refunds.process'' \<mapsto> qs_flow],
      eng_policies = [''needs_human'' \<mapsto> \<lparr>pol_PolicyID = ''needs_human'', pol_FallbackStepRef = ''hold''\<rparr>],
      eng_store = Some MemoryStore, eng_authorizer = None, eng_maxSteps = DefaultMaxSteps, eng_maxDepth = DefaultMaxDepth\<rparr>"

lemma qs_runtime: "snd qs_buildRuntime = qs_engine"
  by (simp add: qs_buildRuntime_def qs_domain_def RegisterDomain_def NewRegistry_def NewEngine_def qs_workflow_def
      RegisterWorkflow_def RegisterPolicy_def claim_workflow_def qs_engine_def qs_flow_def qs_sandbox_def SetStore_def Let_def)

lemma qs_steps:
  "wf_Steps qs_flow ''pay'' = Some (LeafStep (plain_leaf ''pay'' qs_pay ''refund.account_open'' ''needs_human'' []))"
  "wf_Steps qs_flow ''hold'' = Some (LeafStep (plain_leaf ''hold'' qs_hold [] [] []))"
  by (simp_all add: qs_flow_def qs_workflow_def plain_leaf_def)

lemma qs_engine_parts [simp]:
  "eng_observer qs_engine = None" "eng_store qs_engine = Some MemoryStore" "eng_maxSteps qs_engine = 10000" "eng_maxDepth qs_engine = 64"
  "eng_sandbox qs_engine = Some (sandbox_Probe qs_sandbox)" "sb_probes qs_sandbox ''refund.account_open'' = Some qs_account_open"
  "eng_workflows qs_engine ''refunds.process'' = Some qs_flow" "wf_EntryStepID qs_flow = ''pay''"
  "eng_policies qs_engine ''needs_human'' = Some \<lparr>pol_PolicyID = ''needs_human'', pol_FallbackStepRef = ''hold''\<rparr>"
  by (simp_all add: qs_engine_def qs_flow_def qs_workflow_def qs_sandbox_def RegisterProbe_def DefaultMaxSteps_def DefaultMaxDepth_def)

definition closed_text :: "string \<Rightarrow> string" where
  "closed_text account = ''account '' @ account @ '' is closed; the refund would bounce''"

text \<open>
  A refund is held with the probe's reason when the account is closed, whatever the amount; on an open account it is
  parked for a manager above the limit, under the run's fresh pointer, and paid at or below it.
\<close>

theorem refunds_are_answered:
  fixes rt :: "('w, memory_store) rt"
  assumes "newPointer h (rt_world rt) = (Inr pointer, w)" and "6 \<le> length pointer"
  shows "fst (qs_handle h (snd qs_buildRuntime) ''refunds.process'' account amount rt) =
    Returns (if account \<in> qs_closedAccounts then ''held: '' @ closed_text account
      else if f64_lt managerApprovalOver amount then ''parked for a manager (pointer '' @ take 6 pointer @ ellipsis_mark @ '')''
      else ''paid'')"
proof -
  define c where "c = [(''account'', GStr account), (''amount'', GFloat amount)]"
  have probe: "qs_account_open c w = ((if account \<in> qs_closedAccounts then (False, closed_text account, None) else (True, [], None)), w)"
    for w :: 'w
    by (simp add: qs_account_open_def c_def ctx_str_def closed_text_def)
  have pay: "qs_pay c w = (if f64_lt managerApprovalOver amount then (Suspend ''refund over the limit needs a manager'', w)
      else (Output [(''paid'', GBool True)], w))" for w :: 'w
    by (simp add: qs_pay_def c_def ctx_float_def)
  have start: "Run h qs_engine ''refunds.process'' c rt = run_loop (\<lambda>ref c' rt'. runFrom h qs_engine 1 ref [] c' rt') h qs_engine qs_flow
      ''refunds.process'' 0 0 \<lparr>cur_step = ''pay'', cur_ctx = c, cur_done = [], cur_trace = []\<rparr> rt"
    by (simp add: Run_flow)
  have "qs_answer (fst (Run h qs_engine ''refunds.process'' c rt)) = Returns
      (if account \<in> qs_closedAccounts then ''held: '' @ closed_text account
       else if f64_lt managerApprovalOver amount then ''parked for a manager (pointer '' @ take 6 pointer @ ellipsis_mark @ '')''
       else ''paid'')" (is "?answer = _")
  proof (cases "account \<in> qs_closedAccounts")
    case True
    then have p: "qs_account_open c w = ((False, closed_text account, None), w)" for w :: 'w by (simp add: probe)
    have "closed_text account \<noteq> []" by (simp add: closed_text_def)
    then have "?answer = Returns (''held: '' @ closed_text account)"
      unfolding start by (subst at_refused [where probe = qs_account_open and sb = qs_sandbox and c = c and mode = "closed_text account" and f = "''hold''" and pid = "''needs_human''", OF qs_steps(1) _ _ _ _ _ _ p])
        (simp_all add: at_output [OF qs_steps(2) _ _ _ qs_hold_def] walk_end qs_answer_def ctx_get_def FailureReasonKey_def
          FailedStepKey_def fmt_v.simps)
    with True show ?thesis by simp
  next
    case False
    then have p: "qs_account_open c w = ((True, [], None), w)" for w :: 'w by (simp add: probe)
    show ?thesis
    proof (cases "f64_lt managerApprovalOver amount")
      case True
      then have s: "qs_pay c w = (Suspends ''refund over the limit needs a manager'' [], w)" for w :: 'w by (simp add: pay Suspend_def)
      have "pointer \<noteq> []" using assms(2) by auto
      then have "?answer = Returns (''parked for a manager (pointer '' @ take 6 pointer @ ellipsis_mark @ '')'')"
        unfolding start by (subst at_healthy_suspend [where probe = qs_account_open and sb = qs_sandbox and c = c and mode = "[]" and act = qs_pay, OF qs_steps(1) _ _ _ _ _ _ _ p s assms(1)])
          (use assms(2) in \<open>simp_all add: qs_answer_def slice_to_def\<close>)
      with True False show ?thesis by simp
    next
      case small: False
      then have o: "qs_pay c w = (Output [(''paid'', GBool True)], w)" for w :: 'w by (simp add: pay)
      have "?answer = Returns ''paid''"
        unfolding start by (subst at_healthy [where probe = qs_account_open and sb = qs_sandbox and c = c and mode = "[]" and act = qs_pay, OF qs_steps(1) _ _ _ _ _ _ p o])
          (simp_all add: walk_end qs_answer_def ctx_get_def)
      with small False show ?thesis by simp
    qed
  qed
  then show ?thesis by (simp add: qs_handle_def qs_runtime c_def)
qed

lemma refunds_are_answered_witness:
  "fst (qs_handle (in_order_host (\<lambda>n w. (Inr (replicate n 0), w))) (snd qs_buildRuntime) ''refunds.process'' ''acct-100'' (Fin 500)
      \<lparr>rt_world = (), rt_store = NewMemoryStore, rt_log = []\<rparr>) = Returns (''parked for a manager (pointer 000000'' @ ellipsis_mark @ '')'')"
proof -
  let ?h = "in_order_host (\<lambda>n w. (Inr (replicate n 0), w))" and ?rt = "\<lparr>rt_world = (), rt_store = NewMemoryStore, rt_log = []\<rparr>"
  have ptr: "newPointer ?h (rt_world ?rt) = (Inr (replicate 32 (CHR ''0'')), ())" by code_simp
  have long: "6 \<le> length (replicate 32 (CHR ''0''))" by simp
  have six: "take 6 (replicate 32 (CHR ''0'')) = ''000000''" by (simp add: numeral_eq_Suc)
  have "''acct-100'' \<notin> qs_closedAccounts" "f64_lt managerApprovalOver (Fin 500)"
    by (simp_all add: qs_closedAccounts_def managerApprovalOver_def)
  then show ?thesis using refunds_are_answered [OF ptr long, of "''acct-100''" "Fin 500"] unfolding six by simp
qed

end
