(* ===== verification/Approval.thy ===== *)
theory Approval
  imports Quickstart Replay
begin

text \<open>
  The approval of expenses (\<open>examples/human_approval/main.go\<close> with \<open>examples/manifests/expense-approval.json\<close>): a
  claim over the threshold is parked in a store in memory, and a manager's decision resumes it.
\<close>

definition approval_manifest :: manifest_file where
  "approval_manifest =
     \<lparr>file_Name = ''expense-approval'',
      file_Intents =
        [\<lparr>ispec_NodeID = ''expense-approval.review'', ispec_Examples = [''review this expense claim'', ''approve expense report''],
          ispec_EntryWorkflowRef = ''expense-approval.review'', ispec_DeprecatedEntryStepRef = []\<rparr>],
      file_Policies =
        [\<lparr>pspec_PolicyID = ''escalate_to_human'', pspec_FallbackStepRef = ''hold_for_human''\<rparr>,
         \<lparr>pspec_PolicyID = ''record_rejection'', pspec_FallbackStepRef = ''record_rejected''\<rparr>],
      file_Workflows =
        [\<lparr>wspec_WorkflowID = ''expense-approval.review'', wspec_EntryStepID = ''check_threshold'',
          wspec_Steps =
            [(json_leaf ''check_threshold'' ''std.require''
                [(''field'', GStr ''amount''), (''op'', GStr ''lte''), (''value'', GFloat (Fin 1000))])
               \<lparr>sspec_CircuitBreakerPolicyRef := ''escalate_to_human'', sspec_OnSuccess := ''record_auto_approved''\<rparr>,
             json_leaf ''record_auto_approved'' ''std.set'' [(''fields'', GObj [(''outcome'', GStr ''auto-approved'')])],
             (json_leaf ''hold_for_human'' ''std.suspend''
                [(''reason'', GStr ''amount exceeds the auto-approval threshold; awaiting manager decision'')])
               \<lparr>sspec_OnSuccess := ''apply_decision''\<rparr>,
             (json_leaf ''apply_decision'' ''std.require''
                [(''field'', GStr ''approved''), (''op'', GStr ''eq''), (''value'', GBool True)])
               \<lparr>sspec_CircuitBreakerPolicyRef := ''record_rejection'', sspec_OnSuccess := ''record_approved''\<rparr>,
             json_leaf ''record_approved'' ''std.set'' [(''fields'', GObj [(''outcome'', GStr ''approved by manager'')])],
             json_leaf ''record_rejected'' ''std.set'' [(''fields'', GObj [(''outcome'', GStr ''rejected by manager'')])]]\<rparr>]\<rparr>"

definition approval_buildRuntime :: "(string \<Rightarrow> string + string) \<Rightarrow> (string \<Rightarrow> string + manifest_file) \<Rightarrow>
    (string, 'w router \<times> ('w, memory_store) engine) res" where
  "approval_buildRuntime read_file dec =
     example_runtime ''examples/manifests/expense-approval.json'' read_file dec Map.empty (round64 (3 / 10))
       (SetStore (Some MemoryStore) (NewEngine None))"

definition claim_of :: "rat \<Rightarrow> ctx" where
  "claim_of amount = [(''amount'', GFloat (Fin amount)), (''claimant'', GStr ''wei'')]"

definition manager_approves :: ctx where
  "manager_approves = [(''approved'', GBool True)]"

definition approval_report :: "workflow_result \<Rightarrow> exec_error option \<Rightarrow> string list returned" where
  "approval_report result err =
     (case err of
        Some e \<Rightarrow> Returns [''  halted: '' @ error_text e]
      | None \<Rightarrow>
          if wr_StatePointer result \<noteq> [] then
            (case slice_to 8 (wr_StatePointer result) of
               Panicked p \<Rightarrow> Panicked p
             | Returns p \<Rightarrow>
                 Returns [''  suspended, resume pointer issued ('' @ p @ ''...)'', ''  trace: '' @ fmt_v (GStrs (wr_Trace result))])
          else
            Returns [''  outcome: '' @ fmt_v (ctx_get (wr_Output result) ''outcome''),
                     ''  trace:   '' @ fmt_v (GStrs (wr_Trace result))])"

text \<open>A run and its report; the pointer it leaves, empty after an error.\<close>

definition run_and_report :: "'w host \<Rightarrow> ('w, 's) engine \<Rightarrow> string \<Rightarrow> ctx \<Rightarrow> ('w, 's) rt \<Rightarrow> (string list \<times> string) returned \<times> ('w, 's) rt" where
  "run_and_report h e entry c rt =
     (case Run h e entry c rt of
        (Panic p, rt1) \<Rightarrow> (Panicked p, rt1)
      | (r, rt1) \<Rightarrow>
          (case approval_report (result_of r) (case r of Err err \<Rightarrow> Some err | _ \<Rightarrow> None) of
             Panicked p \<Rightarrow> (Panicked p, rt1)
           | Returns ls \<Rightarrow> (Returns (ls, wr_StatePointer (result_of r)), rt1)))"

definition pending_lines :: "state list \<Rightarrow> string list" where
  "pending_lines states =
     concat (map (\<lambda>s. [''  pending: '' @ st_Reason s,
       ''  context preserved across the pause: claimant='' @ fmt_v (ctx_get (st_Ctx s) ''claimant'') @
         '' amount='' @ fmt_v (ctx_get (st_Ctx s) ''amount'')]) states)"

definition resume_and_report :: "'w host \<Rightarrow> ('w, memory_store) engine \<Rightarrow> string \<Rightarrow> ('w, memory_store) rt \<Rightarrow>
    string list returned \<times> ('w, memory_store) rt" where
  "resume_and_report h e pointer rt =
     (case Resume h e pointer manager_approves rt of
        (Panicked p, rt1) \<Rightarrow> (Panicked p, rt1)
      | (Returns (result, err), rt1) \<Rightarrow> (approval_report result err, rt1))"

definition second_resume :: "'w host \<Rightarrow> ('w, memory_store) engine \<Rightarrow> string \<Rightarrow> ('w, memory_store) rt \<Rightarrow>
    string list returned \<times> ('w, memory_store) rt" where
  "second_resume h e pointer rt =
     (case Resume h e pointer manager_approves rt of
        (Panicked p, rt1) \<Rightarrow> (Panicked p, rt1)
      | (Returns (_, Some err), rt1) \<Rightarrow> (Returns [''  second resume refused: '' @ error_text err], rt1)
      | (Returns (_, None), rt1) \<Rightarrow> (Returns [], rt1))"

text \<open>The scenarios, given the entry the query matched; \<open>order\<close> is the order of \<open>Pending\<close>.\<close>

definition approval_scenarios :: "(nat \<Rightarrow> 'w host) \<Rightarrow> (memory_store \<Rightarrow> memory_store) \<Rightarrow> ('w, memory_store) engine \<Rightarrow> string \<Rightarrow>
    ('w, memory_store) rt \<Rightarrow> string list returned \<times> ('w, memory_store) rt" where
  "approval_scenarios hs order e entry rt =
     print_then [''== Scenario 1: under the threshold, no human needed ==''] (
     case run_and_report (hs 0) e entry (claim_of 240) rt of
       (Panicked p, rt1) \<Rightarrow> (Panicked p, rt1)
     | (Returns (small, _), rt1) \<Rightarrow>
     print_then (small @ [[], ''== Scenario 2: over the threshold, parked for a manager =='']) (
     case run_and_report (hs 1) e entry (claim_of 4800) rt1 of
       (Panicked p, rt2) \<Rightarrow> (Panicked p, rt2)
     | (Returns (large, pointer), rt2) \<Rightarrow>
     print_then (large @ pending_lines (memory_Pending order (rt_store rt2)) @
         [[], ''== Scenario 2 continued: the manager approves =='']) (
     case resume_and_report (hs 2) e pointer rt2 of
       (Panicked p, rt3) \<Rightarrow> (Panicked p, rt3)
     | (Returns resumed, rt3) \<Rightarrow>
     print_then (resumed @ [[], ''== The same pointer cannot be used twice ==''])
       (second_resume (hs 3) e pointer rt3))))"

definition approval_main :: "unicode \<Rightarrow> (nat \<Rightarrow> 'w host) \<Rightarrow> (memory_store \<Rightarrow> memory_store) \<Rightarrow> (string \<Rightarrow> string + string) \<Rightarrow>
    (string \<Rightarrow> string + manifest_file) \<Rightarrow> 'w \<Rightarrow> (string, string list) res" where
  "approval_main u hs order read_file dec w =
     (case approval_buildRuntime read_file dec of
        Err err \<Rightarrow> Err (''setup failed: '' @ err)
      | Panic p \<Rightarrow> Panic p
      | Ok (router, e) \<Rightarrow>
          (case Match u ''expense-approval'' ''review this expense claim'' router w of (m, router1, w1) \<Rightarrow>
             if \<not> match_Matched m then Err ''no intent matched''
             else
               (case approval_scenarios hs order e (match_EntryWorkflowRef m) \<lparr>rt_world = w1, rt_store = NewMemoryStore, rt_log = []\<rparr> of
                  (Panicked p, _) \<Rightarrow> Panic p
                | (Returns ls, _) \<Rightarrow>
                    Ok ([''matched '' @ match_NodeRef m @ '' (confidence '' @ fmt_fixed 2 (match_Confidence m) @ '') -> workflow '' @
                      match_EntryWorkflowRef m, []] @ ls))))"

end
