(* ===== verification/ApprovalFacts.thy ===== *)
theory ApprovalFacts
  imports Approval Walks
begin

text \<open>
  A claim over the threshold waits for its decision: it is parked with its context, the decision ends it, and its
  pointer works once.
\<close>

section \<open>The loaded workflow\<close>

definition approval_reason :: string where
  "approval_reason = ''amount exceeds the auto-approval threshold; awaiting manager decision''"

definition approval_flow :: "'w workflow" where
  "approval_flow =
     \<lparr>wf_WorkflowID = ''expense-approval.review'', wf_DomainID = ''expense-approval'', wf_EntryStepID = ''check_threshold'',
      wf_Steps =
       [''check_threshold'' \<mapsto> LeafStep (plain_leaf ''check_threshold''
          (require_action ''amount'' ''lte'' (GFloat (Fin 1000))) [] ''escalate_to_human'' ''record_auto_approved''),
        ''record_auto_approved'' \<mapsto> LeafStep (plain_leaf ''record_auto_approved''
          (set_action [(''outcome'', GStr ''auto-approved'')]) [] [] []),
        ''hold_for_human'' \<mapsto> LeafStep (plain_leaf ''hold_for_human'' (\<lambda>c w. (Suspends approval_reason [], w)) [] [] ''apply_decision''),
        ''apply_decision'' \<mapsto> LeafStep (plain_leaf ''apply_decision''
          (require_action ''approved'' ''eq'' (GBool True)) [] ''record_rejection'' ''record_approved''),
        ''record_approved'' \<mapsto> LeafStep (plain_leaf ''record_approved''
          (set_action [(''outcome'', GStr ''approved by manager'')]) [] [] []),
        ''record_rejected'' \<mapsto> LeafStep (plain_leaf ''record_rejected''
          (set_action [(''outcome'', GStr ''rejected by manager'')]) [] [] [])]\<rparr>"

definition approval_engine :: "('w, memory_store) engine" where
  "approval_engine =
     \<lparr>eng_sandbox = None, eng_observer = None, eng_workflows = [''expense-approval.review'' \<mapsto> approval_flow],
      eng_policies = [''escalate_to_human'' \<mapsto> \<lparr>pol_PolicyID = ''escalate_to_human'', pol_FallbackStepRef = ''hold_for_human''\<rparr>,
        ''record_rejection'' \<mapsto> \<lparr>pol_PolicyID = ''record_rejection'', pol_FallbackStepRef = ''record_rejected''\<rparr>],
      eng_store = Some MemoryStore, eng_authorizer = None, eng_maxSteps = DefaultMaxSteps, eng_maxDepth = DefaultMaxDepth\<rparr>"

lemma approval_domain:
  "Load (Inr approval_manifest) Map.empty Default =
     Ok \<lparr>dom_Name = ''expense-approval'',
         dom_Intents = [\<lparr>node_NodeID = ''expense-approval.review'', node_DomainID = ''expense-approval'',
           node_Examples = [''review this expense claim'', ''approve expense report''],
           node_EntryWorkflowRef = ''expense-approval.review'', node_Metadata = []\<rparr>],
         dom_Workflows = [approval_flow\<lparr>wf_DomainID := []\<rparr>],
         dom_Policies = [\<lparr>pol_PolicyID = ''escalate_to_human'', pol_FallbackStepRef = ''hold_for_human''\<rparr>,
           \<lparr>pol_PolicyID = ''record_rejection'', pol_FallbackStepRef = ''record_rejected''\<rparr>]\<rparr>"
  by (simp add: literal_load suspend_factory approval_manifest_def approval_flow_def approval_reason_def)

lemma approval_runtime:
  assumes "read_file ''examples/manifests/expense-approval.json'' = Inr data" and "dec data = Inr approval_manifest"
  shows "\<exists>router. approval_buildRuntime read_file dec = Ok (router, approval_engine)"
  by (simp add: approval_buildRuntime_def example_runtime_def assms approval_domain RegisterDomain_def NewRegistry_def NewEngine_def
      RegisterWorkflow_def RegisterPolicy_def claim_workflow_def approval_engine_def approval_flow_def SetStore_def Let_def)

lemma approval_steps:
  "wf_Steps approval_flow ''check_threshold'' = Some (LeafStep (plain_leaf ''check_threshold''
     (require_action ''amount'' ''lte'' (GFloat (Fin 1000))) [] ''escalate_to_human'' ''record_auto_approved''))"
  "wf_Steps approval_flow ''record_auto_approved'' = Some (LeafStep (plain_leaf ''record_auto_approved''
     (set_action [(''outcome'', GStr ''auto-approved'')]) [] [] []))"
  "wf_Steps approval_flow ''hold_for_human'' =
     Some (LeafStep (plain_leaf ''hold_for_human'' (\<lambda>c w. (Suspends approval_reason [], w)) [] [] ''apply_decision''))"
  "wf_Steps approval_flow ''apply_decision'' = Some (LeafStep (plain_leaf ''apply_decision''
     (require_action ''approved'' ''eq'' (GBool True)) [] ''record_rejection'' ''record_approved''))"
  "wf_Steps approval_flow ''record_approved'' = Some (LeafStep (plain_leaf ''record_approved''
     (set_action [(''outcome'', GStr ''approved by manager'')]) [] [] []))"
  "wf_Steps approval_flow ''record_rejected'' = Some (LeafStep (plain_leaf ''record_rejected''
     (set_action [(''outcome'', GStr ''rejected by manager'')]) [] [] []))"
  by (simp_all add: approval_flow_def)

lemma approval_engine_parts [simp]:
  "eng_observer approval_engine = None" "eng_store approval_engine = Some MemoryStore" "eng_maxSteps approval_engine = 10000"
  "eng_maxDepth approval_engine = 64" "eng_workflows approval_engine ''expense-approval.review'' = Some approval_flow"
  "wf_EntryStepID approval_flow = ''check_threshold''" "wf_WorkflowID approval_flow = ''expense-approval.review''"
  "eng_policies approval_engine ''escalate_to_human'' =
     Some \<lparr>pol_PolicyID = ''escalate_to_human'', pol_FallbackStepRef = ''hold_for_human''\<rparr>"
  "eng_policies approval_engine ''record_rejection'' =
     Some \<lparr>pol_PolicyID = ''record_rejection'', pol_FallbackStepRef = ''record_rejected''\<rparr>"
  by (simp_all add: approval_engine_def approval_flow_def DefaultMaxSteps_def DefaultMaxDepth_def)

section \<open>Runs and resumptions\<close>

lemma over_threshold:
  "compare (ctx_get (claim_of amount) ''amount'') ''lte'' (GFloat (Fin 1000)) = Ok (amount \<le> 1000)"
  by (simp add: compare_def claim_of_def ctx_get_def toFloat_def f64_le_def le_less)

lemma small_claim:
  assumes "amount \<le> 1000"
  shows "\<exists>c. Run h approval_engine ''expense-approval.review'' (claim_of amount) (rt :: ('w, memory_store) rt) =
    (Ok \<lparr>wr_Output = c, wr_StatePointer = [], wr_Trace = [''check_threshold'', ''record_auto_approved'']\<rparr>, rt) \<and>
    map_of c ''outcome'' = Some (GStr ''auto-approved'')"
proof -
  have a: "require_action ''amount'' ''lte'' (GFloat (Fin 1000)) (claim_of amount) w = (Output [], w)" for w :: 'w
    by (simp add: require_action_def over_threshold assms)
  show ?thesis
    by (simp add: Run_flow at_output [OF approval_steps(1) _ _ _ a] at_output [OF approval_steps(2) _ _ _ set_action_def] walk_end)
qed

definition claim_reason :: "rat \<Rightarrow> string" where
  "claim_reason amount = requirement_not_met ''amount'' (ctx_get (claim_of amount) ''amount'') ''lte'' (GFloat (Fin 1000))"

definition parked_claim :: "rat \<Rightarrow> string \<Rightarrow> state" where
  "parked_claim amount pointer =
     \<lparr>st_Pointer = pointer, st_WorkflowID = ''expense-approval.review'', st_StepID = ''hold_for_human'', st_Reason = approval_reason,
      st_Audience = [],
      st_Ctx = gmerge (claim_of amount) [(FailureReasonKey, GStr (claim_reason amount)), (FailedStepKey, GStr ''check_threshold'')],
      st_Trace = [''check_threshold'', ''hold_for_human'']\<rparr>"

lemma large_claim:
  assumes "1000 < amount" and "newPointer h (rt_world rt) = (Inr pointer, w)"
  shows "Run h approval_engine ''expense-approval.review'' (claim_of amount) (rt :: ('w, memory_store) rt) =
    (Ok \<lparr>wr_Output = st_Ctx (parked_claim amount pointer), wr_StatePointer = pointer, wr_Trace = [''check_threshold'', ''hold_for_human'']\<rparr>,
     rt\<lparr>rt_world := w, rt_store := gput pointer (parked_claim amount pointer) (rt_store rt)\<rparr>)"
proof -
  have a: "require_action ''amount'' ''lte'' (GFloat (Fin 1000)) (claim_of amount) w = (Fails (claim_reason amount), w)" for w :: 'w
    using assms(1) by (simp add: require_action_def over_threshold claim_reason_def)
  have e: "eng_maxDepth (approval_engine :: ('w, memory_store) engine) \<ge> 0" by simp
  show ?thesis
    unfolding Run_flow [OF approval_engine_parts(5) e] approval_engine_parts(6)
    by (subst at_fallback [OF approval_steps(1) _ _ _ a]; (subst at_suspend [OF approval_steps(3) _ _ _ _ refl])?)
      (simp_all add: assms(2) parked_claim_def held_at_def)
qed

text \<open>From the decision on: approved exactly when the resolution says \<open>approved: true\<close>.\<close>

definition verdict_steps :: "ctx \<Rightarrow> string list" where
  "verdict_steps decision =
     [''apply_decision'', if map_of decision ''approved'' = Some (GBool True) then ''record_approved'' else ''record_rejected'']"

definition verdict_text :: "ctx \<Rightarrow> string" where
  "verdict_text decision =
     (if map_of decision ''approved'' = Some (GBool True) then ''approved by manager'' else ''rejected by manager'')"

lemma decided_run:
  assumes "c = resume_ctx (parked_claim amount p) decision []"
  shows "\<exists>out. runFrom h approval_engine 0 ''expense-approval.review'' ''apply_decision'' c (rt :: ('w, memory_store) rt) =
      (Ok \<lparr>wr_Output = out, wr_StatePointer = [], wr_Trace = verdict_steps decision\<rparr>, rt) \<and>
    map_of out ''outcome'' = Some (GStr (verdict_text decision))"
proof -
  have got: "ctx_get c ''approved'' = GBool True \<longleftrightarrow> map_of decision ''approved'' = Some (GBool True)"
    by (cases "map_of decision ''approved''")
      (simp_all add: assms resume_ctx_def parked_claim_def claim_of_def ctx_get_def FailureReasonKey_def FailedStepKey_def map_add_def
        del: gmerge.simps)
  show ?thesis
  proof (cases "map_of decision ''approved'' = Some (GBool True)")
    case True
    have a: "require_action ''approved'' ''eq'' (GBool True) c w = (Output [], w)" for w :: 'w
      using True by (simp add: require_action_def equals_true got)
    show ?thesis
      using True by (simp add: runFrom.simps [of h _ 0] start_cursor_def at_output [OF approval_steps(4) _ _ _ a]
          at_output [OF approval_steps(5) _ _ _ set_action_def] walk_end verdict_steps_def verdict_text_def)
  next
    case False
    define msg where "msg = requirement_not_met ''approved'' (ctx_get c ''approved'') ''eq'' (GBool True)"
    have a: "require_action ''approved'' ''eq'' (GBool True) c w = (Fails msg, w)" for w :: 'w
      using False by (simp add: require_action_def equals_true got msg_def)
    show ?thesis
      using False by (simp add: runFrom.simps [of h _ 0] start_cursor_def at_fallback [OF approval_steps(4) _ _ _ a]
          at_output [OF approval_steps(6) _ _ _ set_action_def] walk_end verdict_steps_def verdict_text_def)
  qed
qed

lemma decision_applied:
  assumes "map_of (rt_store rt) p = Some (parked_claim amount p)"
  shows "\<exists>out. Resume h approval_engine p decision (rt :: ('w, memory_store) rt) =
      (Returns (\<lparr>wr_Output = out, wr_StatePointer = [], wr_Trace = [''check_threshold'', ''hold_for_human''] @ verdict_steps decision\<rparr>, None),
       rt\<lparr>rt_store := gdel p (rt_store rt)\<rparr>) \<and>
    map_of out ''outcome'' = Some (GStr (verdict_text decision))"
proof -
  let ?s = "parked_claim amount p" and ?rt = "rt\<lparr>rt_store := gdel p (rt_store rt)\<rparr>"
  have check: "check_resume approval_engine MemoryStore p [] rt =
      (Inr (plain_leaf ''hold_for_human'' (\<lambda>c w. (Suspends approval_reason [], w)) [] [] ''apply_decision''), rt)"
    by (simp add: check_resume_def memory_defs assms authorize_def parked_claim_def approval_steps)
  have claim: "store_Consume MemoryStore p (rt_store rt) = (Inr ?s, gdel p (rt_store rt))"
    by (simp add: memory_defs assms)
  obtain out where out: "runFrom h approval_engine 0 ''expense-approval.review'' ''apply_decision'' (resume_ctx ?s decision []) ?rt =
      (Ok \<lparr>wr_Output = out, wr_StatePointer = [], wr_Trace = verdict_steps decision\<rparr>, ?rt)"
    "map_of out ''outcome'' = Some (GStr (verdict_text decision))"
    using decided_run [OF refl] by blast
  have flow: "st_WorkflowID ?s = ''expense-approval.review''" "st_Trace ?s = [''check_threshold'', ''hold_for_human'']"
    by (simp_all add: parked_claim_def)
  have "continue_claimed h approval_engine MemoryStore p [] decision
      (plain_leaf ''hold_for_human'' (\<lambda>c w. (Suspends approval_reason [], w)) [] [] ''apply_decision'') ?s ?rt =
    (Returns (\<lparr>wr_Output = out, wr_StatePointer = [], wr_Trace = st_Trace ?s @ verdict_steps decision\<rparr>, None), ?rt)"
    by (simp add: continue_claimed_def plain_leaf_def flow(1) out(1) memory_defs)
  then show ?thesis
    using out(2) by (simp add: Resume_def ResumeAs_def check claim flow(2))
qed

lemma spent_pointer:
  assumes "map_of (rt_store rt) p = None"
  shows "Resume h approval_engine p decision (rt :: ('w, memory_store) rt) = (refused (PlainError (memory_missing p)), rt)"
  by (simp add: Resume_def ResumeAs_def check_resume_def memory_defs assms)

text \<open>
  While this state is parked under a pointer a resumption ends its run, approved exactly when the resolution says so, and
  whatever is tried with the pointer afterwards is refused and changes nothing.
\<close>

definition decides_once :: "('w, memory_store) engine \<Rightarrow> string \<Rightarrow> state \<Rightarrow> bool" where
  "decides_once e p parked \<longleftrightarrow>
     (\<forall>h decision rt. map_of (rt_store rt) p = Some parked \<longrightarrow>
       (\<exists>out rt'. Resume h e p decision rt =
           (Returns (\<lparr>wr_Output = out, wr_StatePointer = [],
              wr_Trace = [''check_threshold'', ''hold_for_human''] @ verdict_steps decision\<rparr>, None), rt') \<and>
         map_of out ''outcome'' = Some (GStr (verdict_text decision)) \<and>
         (\<forall>h' again. Resume h' e p again rt' = (refused (PlainError (memory_missing p)), rt'))))"

lemma claims_decided_once: "decides_once approval_engine p (parked_claim amount p)"
  unfolding decides_once_def
proof (intro allI impI)
  fix h :: "'w host" and decision and rt :: "('w, memory_store) rt"
  assume "map_of (rt_store rt) p = Some (parked_claim amount p)"
  from decision_applied [OF this, of h decision] spent_pointer [of "rt\<lparr>rt_store := gdel p (rt_store rt)\<rparr>" p]
  show "\<exists>out rt'. Resume h approval_engine p decision rt =
      (Returns (\<lparr>wr_Output = out, wr_StatePointer = [],
         wr_Trace = [''check_threshold'', ''hold_for_human''] @ verdict_steps decision\<rparr>, None), rt') \<and>
    map_of out ''outcome'' = Some (GStr (verdict_text decision)) \<and>
    (\<forall>h' again. Resume h' approval_engine p again rt' = (refused (PlainError (memory_missing p)), rt'))"
    by fastforce
qed

text \<open>
  C35. An expense's way: under the threshold a claim is approved at once and nothing is parked. Over it the run is
  parked under a fresh pointer, with the claim in its context; whatever runs on other pointers meanwhile, the decision
  ends it, approved exactly when the resolution says so, along a trace that tells the whole way; and the pointer is
  refused from then on.
\<close>

theorem claims_wait_for_a_decision:
  fixes rt :: "('w, memory_store) rt"
  assumes "read_file ''examples/manifests/expense-approval.json'' = Inr data" and "dec data = Inr approval_manifest"
    and "approval_buildRuntime read_file dec = Ok (router, e)"
    and "newPointer h (rt_world rt) = (Inr p, w)"
  shows "if amount \<le> 1000 then
      \<exists>out. Run h e ''expense-approval.review'' (claim_of amount) rt =
          (Ok \<lparr>wr_Output = out, wr_StatePointer = [], wr_Trace = [''check_threshold'', ''record_auto_approved'']\<rparr>, rt) \<and>
        map_of out ''outcome'' = Some (GStr ''auto-approved'')
    else
      \<exists>parked. map_of (st_Ctx parked) ''amount'' = Some (GFloat (Fin amount)) \<and> map_of (st_Ctx parked) ''claimant'' = Some (GStr ''wei'') \<and>
        Run h e ''expense-approval.review'' (claim_of amount) rt =
          (Ok \<lparr>wr_Output = st_Ctx parked, wr_StatePointer = p, wr_Trace = [''check_threshold'', ''hold_for_human'']\<rparr>,
           rt\<lparr>rt_world := w, rt_store := gput p parked (rt_store rt)\<rparr>) \<and>
        decides_once e p parked"
proof -
  have "\<exists>router'. approval_buildRuntime read_file dec = Ok (router', approval_engine :: ('w, memory_store) engine)"
    by (rule approval_runtime [where read_file = read_file and dec = dec, OF assms(1,2)])
  then have e: "e = approval_engine" using assms(3) by auto
  show ?thesis
  proof (cases "amount \<le> 1000")
    case True
    then show ?thesis using small_claim [OF True, of h rt] unfolding e by simp
  next
    case False
    then have "1000 < amount" by simp
    from large_claim [OF this assms(4)] have run: "Run h e ''expense-approval.review'' (claim_of amount) rt =
        (Ok \<lparr>wr_Output = st_Ctx (parked_claim amount p), wr_StatePointer = p, wr_Trace = [''check_threshold'', ''hold_for_human'']\<rparr>,
         rt\<lparr>rt_world := w, rt_store := gput p (parked_claim amount p) (rt_store rt)\<rparr>)" unfolding e .
    have ctx: "map_of (st_Ctx (parked_claim amount p)) ''amount'' = Some (GFloat (Fin amount))"
      "map_of (st_Ctx (parked_claim amount p)) ''claimant'' = Some (GStr ''wei'')"
      by (simp_all add: parked_claim_def claim_of_def FailureReasonKey_def FailedStepKey_def)
    show ?thesis
      unfolding if_not_P [OF False]
      by (intro exI [of _ "parked_claim amount p"] conjI ctx run) (simp add: e claims_decided_once)
  qed
qed

text \<open>A claim of 4800, parked and approved.\<close>

definition zero_host :: "unit host" where
  "zero_host = in_order_host (\<lambda>n w. (Inr (replicate n 0), w))"

definition zero_pointer :: string where
  "zero_pointer = replicate 32 (CHR ''0'')"

definition empty_rt :: "(unit, memory_store) rt" where
  "empty_rt = \<lparr>rt_world = (), rt_store = NewMemoryStore, rt_log = []\<rparr>"

lemma claims_wait_for_a_decision_witness:
  "\<exists>parked out rt2.
    Run zero_host approval_engine ''expense-approval.review'' (claim_of 4800) empty_rt =
      (Ok \<lparr>wr_Output = st_Ctx parked, wr_StatePointer = zero_pointer, wr_Trace = [''check_threshold'', ''hold_for_human'']\<rparr>,
       empty_rt\<lparr>rt_store := [(zero_pointer, parked)]\<rparr>) \<and>
    Resume zero_host approval_engine zero_pointer manager_approves (empty_rt\<lparr>rt_store := [(zero_pointer, parked)]\<rparr>) =
      (Returns (\<lparr>wr_Output = out, wr_StatePointer = [],
         wr_Trace = [''check_threshold'', ''hold_for_human'', ''apply_decision'', ''record_approved'']\<rparr>, None), rt2) \<and>
    map_of out ''outcome'' = Some (GStr ''approved by manager'')"
proof -
  have ptr: "newPointer zero_host (rt_world empty_rt) = (Inr zero_pointer, ())" by code_simp
  obtain router where b: "approval_buildRuntime (\<lambda>_. Inr []) (\<lambda>_. Inr approval_manifest) =
      Ok (router, approval_engine :: (unit, memory_store) engine)"
    using approval_runtime [where read_file = "\<lambda>_. Inr []" and dec = "\<lambda>_. Inr approval_manifest", OF refl refl] by blast
  have yes: "map_of manager_approves ''approved'' = Some (GBool True)" by (simp add: manager_approves_def)
  have large: "\<not> (4800 :: rat) \<le> 1000" by simp
  note all = claims_wait_for_a_decision [where read_file = "\<lambda>_. Inr []" and dec = "\<lambda>_. Inr approval_manifest" and amount = 4800,
      OF refl refl b ptr, unfolded if_not_P [OF large]]
  from all obtain parked where run: "Run zero_host approval_engine ''expense-approval.review'' (claim_of 4800) empty_rt =
      (Ok \<lparr>wr_Output = st_Ctx parked, wr_StatePointer = zero_pointer, wr_Trace = [''check_threshold'', ''hold_for_human'']\<rparr>,
       empty_rt\<lparr>rt_world := (), rt_store := gput zero_pointer parked (rt_store empty_rt)\<rparr>)"
    and once: "decides_once (approval_engine :: (unit, memory_store) engine) zero_pointer parked"
    by (elim exE conjE) (rule that)
  have st: "empty_rt\<lparr>rt_world := (), rt_store := gput zero_pointer parked (rt_store empty_rt)\<rparr> =
      empty_rt\<lparr>rt_store := [(zero_pointer, parked)]\<rparr>"
    by (simp add: empty_rt_def NewMemoryStore_def)
  have "map_of (rt_store (empty_rt\<lparr>rt_store := [(zero_pointer, parked)]\<rparr>)) zero_pointer = Some parked" by simp
  with once obtain out rt2 where "Resume zero_host approval_engine zero_pointer manager_approves (empty_rt\<lparr>rt_store := [(zero_pointer, parked)]\<rparr>) =
      (Returns (\<lparr>wr_Output = out, wr_StatePointer = [],
         wr_Trace = [''check_threshold'', ''hold_for_human''] @ verdict_steps manager_approves\<rparr>, None), rt2)"
    "map_of out ''outcome'' = Some (GStr (verdict_text manager_approves))"
    unfolding decides_once_def by metis
  moreover have "[''check_threshold'', ''hold_for_human''] @ verdict_steps manager_approves =
      [''check_threshold'', ''hold_for_human'', ''apply_decision'', ''record_approved'']"
    "verdict_text manager_approves = ''approved by manager''"
    by (simp_all add: verdict_steps_def verdict_text_def yes)
  ultimately show ?thesis using run unfolding st by metis
qed

end
