(* ===== verification/SecMonitor.thy ===== *)
theory SecMonitor
  imports CodeAudit Bench Walks
begin

text \<open>
  The monitoring example (\<open>examples/security_monitoring/main.go\<close>): an alert is matched to a technique, and its
  host is contained unless a probe finds it critical; a scorecard is kept of each event and diagnostics of a batch. The
  workflow is written in Go. The readings of the clock are parameters; what is printed is a list of lines.
\<close>

definition criticalAssets :: "string set" where
  "criticalAssets = {''dc01'', ''coredb01''}"

definition assess_containment :: "'w probe" where
  "assess_containment c w =
     (let host = ctx_str c ''target_host'' in
      (if host \<in> criticalAssets then (False, ''containment would isolate critical asset '' @ quoted host, None)
       else (True, [], None), w))"

definition sec_leaf :: "string \<Rightarrow> ctx \<Rightarrow> string \<Rightarrow> string \<Rightarrow> string \<Rightarrow> 'w leaf_step" where
  "sec_leaf sid out probe policy next =
     \<lparr>leaf_StepID = sid, leaf_Run = (\<lambda>c w. (Output out, w)), leaf_SandboxProbeRef = probe,
      leaf_CircuitBreakerPolicyRef = policy, leaf_OnSuccess = next, leaf_CompensateStepRef = []\<rparr>"

definition sec_workflow :: "'w workflow" where
  "sec_workflow =
     \<lparr>wf_WorkflowID = ''security.contain_threat'', wf_DomainID = [], wf_EntryStepID = ''classify'',
      wf_Steps =
       [''classify'' \<mapsto> LeafStep (sec_leaf ''classify'' [(''sop'', GStr ''isolate_host'')] [] [] ''contain''),
        ''contain'' \<mapsto> LeafStep (sec_leaf ''contain'' [(''contained'', GBool True)]
          ''security.assess_containment_impact'' ''security_containment_gate'' []),
        ''hold_for_human_approval'' \<mapsto> LeafStep (sec_leaf ''hold_for_human_approval''
          [(''awaiting_human_approval'', GBool True)] [] [] [])]\<rparr>"

definition sec_intent :: "string \<Rightarrow> string list \<Rightarrow> intent_node" where
  "sec_intent nid examples =
     \<lparr>node_NodeID = nid, node_DomainID = ''security'', node_Examples = examples,
      node_EntryWorkflowRef = ''security.contain_threat'', node_Metadata = []\<rparr>"

definition securityDomain :: "'w domain" where
  "securityDomain =
     \<lparr>dom_Name = ''security'',
      dom_Intents =
        [sec_intent ''security.T1110_brute_force''
           [''repeated failed login attempts spike'', ''many failed logins from one source'', ''password spray detected''],
         sec_intent ''security.T1078_valid_account_abuse''
           [''login from unusual location for known account'', ''valid credentials used at impossible travel speed'']],
      dom_Workflows = [sec_workflow],
      dom_Policies = [\<lparr>pol_PolicyID = ''security_containment_gate'', pol_FallbackStepRef = ''hold_for_human_approval''\<rparr>]\<rparr>"

definition sec_sandbox :: "'w sandbox" where
  "sec_sandbox = RegisterProbe NewSandbox ''security.assess_containment_impact'' assess_containment"

definition sec_buildRuntime :: "'w router \<times> ('w, 's) engine" where
  "sec_buildRuntime =
     (let r = RegisterDomain securityDomain (NewRegistry (NewRouter (round64 (34 / 100))) (NewEngine (Some (sandbox_Probe sec_sandbox))))
      in (reg_router r, reg_engine r))"

definition sec_describe :: "ctx \<Rightarrow> string" where
  "sec_describe output =
     (if ctx_get output ''contained'' = GBool True then ''threat auto-contained (host isolated by deterministic action)''
      else if ctx_get output ''awaiting_human_approval'' = GBool True then
        ''containment held for human approval (breaker downgraded, critical asset protected)''
      else fmt_v (GObj output))"

definition sec_context :: "string \<Rightarrow> string \<Rightarrow> ctx" where
  "sec_context host technique = [(''target_host'', GStr host), (''technique'', GStr technique)]"

text \<open>One event; \<open>t0\<close> and \<open>t1\<close> are the clock when its recorder is made and when it is read.\<close>

definition runEvent :: "unicode \<Rightarrow> 'w host \<Rightarrow> int \<Rightarrow> int \<Rightarrow> ('w, 's) engine \<Rightarrow> string \<Rightarrow> string \<Rightarrow> 'w router \<times> ('w, 's) rt \<Rightarrow>
    string list returned \<times> 'w router \<times> ('w, 's) rt" where
  "runEvent u h t0 t1 e alertText targetHost st =
     (case st of (router, rt) \<Rightarrow>
      case Match u ''security'' alertText router (rt_world rt) of (m, router1, w1) \<Rightarrow>
        if \<not> match_Matched m then
          (Returns [''  no ATT&CK technique matched (confidence '' @ fmt_fixed 2 (match_Confidence m) @
             '') -> would fall through to edge LLM extraction''], router1, rt\<lparr>rt_world := w1\<rparr>)
        else
          print_then [''  matched technique '' @ match_NodeRef m @ '' (confidence '' @ fmt_fixed 2 (match_Confidence m) @
              '') -> entering workflow '' @ match_EntryWorkflowRef m]
            (case Run h (SetObserver (Some score_observer) e) (match_EntryWorkflowRef m) (sec_context targetHost (match_NodeRef m))
                    (rt\<lparr>rt_world := w1, rt_log := []\<rparr>) of
               (Panic p, rt1) \<Rightarrow> (Panicked p, router1, rt1)
             | (Err err, rt1) \<Rightarrow> (Returns [''  workflow halted: '' @ error_text err], router1, rt1)
             | (Ok result, rt1) \<Rightarrow>
                 (Returns [''  outcome: '' @ sec_describe (wr_Output result),
                           ''  trace:   '' @ fmt_v (GStrs (wr_Trace result)),
                           ''  '' @ scorecard_String (Snapshot (match_EntryWorkflowRef m) t1
                             (fold score_event (rt_log rt1) (score_NewRecorder t0)))],
                  router1, rt1)))"

definition sec_events :: "(string \<times> string) list" where
  "sec_events =
     [(''repeated failed login attempts spike from one source'', ''ws-4471''),
      (''many failed logins from one source'', ''ws-8800''),
      (''password spray detected'', ''dc01''),
      (''login from unusual location for known account'', ''ws-1200''),
      (''nightly database backup completed successfully'', ''ws-1200'')]"

text \<open>The batch: results and errors of the runs are dropped; a panic ends the program.\<close>

fun sec_batch :: "unicode \<Rightarrow> (nat \<Rightarrow> 'w host) \<Rightarrow> ('w, 's) engine \<Rightarrow> nat \<Rightarrow> (string \<times> string) list \<Rightarrow> 'w router \<times> ('w, 's) rt \<Rightarrow>
    unit returned \<times> 'w router \<times> ('w, 's) rt" where
  "sec_batch u hs e i [] st = (Returns (), st)"
| "sec_batch u hs e i ((alert, host) # es) (router, rt) =
     (case Match u ''security'' alert router (rt_world rt) of (m, router1, w1) \<Rightarrow>
        if \<not> match_Matched m then sec_batch u hs e (Suc i) es (router1, rt\<lparr>rt_world := w1\<rparr>)
        else
          (case Run (hs i) e (match_EntryWorkflowRef m) (sec_context host (match_NodeRef m)) (rt\<lparr>rt_world := w1\<rparr>) of
             (Panic p, rt1) \<Rightarrow> (Panicked p, router1, rt1)
           | (_, rt1) \<Rightarrow> sec_batch u hs e (Suc i) es (router1, rt1)))"

definition runBatch :: "unicode \<Rightarrow> (nat \<Rightarrow> 'w host) \<Rightarrow> 'w \<Rightarrow> diagnostics returned" where
  "runBatch u hs w =
     (case sec_buildRuntime of (router, e) \<Rightarrow>
        case sec_batch u hs (SetObserver (Some diag_observer) e) 0 sec_events
               (router_SetObserver True router, \<lparr>rt_world = w, rt_store = NewMemoryStore, rt_log = []\<rparr>) of
          (Panicked p, st) \<Rightarrow> Panicked p
        | (Returns _, st) \<Rightarrow> Returns (audit_report (length sec_events) st))"

definition sec_main :: "unicode \<Rightarrow> (nat \<Rightarrow> 'w host) \<Rightarrow> (nat \<Rightarrow> 'w host) \<Rightarrow> (nat \<Rightarrow> int) \<Rightarrow> 'w \<Rightarrow> 'w \<Rightarrow> string list returned" where
  "sec_main u hs hs' clock w w' =
     (case sec_buildRuntime of (router, e) \<Rightarrow>
        case runEvent u (hs 0) (clock 0) (clock 1) e ''repeated failed login attempts spike from one source'' ''ws-4471''
               (router, \<lparr>rt_world = w, rt_store = NewMemoryStore, rt_log = []\<rparr>) of
          (Panicked p, _) \<Rightarrow> Panicked p
        | (Returns ls, st) \<Rightarrow>
            (case runEvent u (hs 1) (clock 2) (clock 3) e ''repeated failed login attempts spike from one source'' ''dc01'' st of
               (Panicked p, _) \<Rightarrow> Panicked p
             | (Returns ls', _) \<Rightarrow>
                 (case runBatch u hs' w' of
                    Panicked p \<Rightarrow> Panicked p
                  | Returns report \<Rightarrow>
                      Returns ([''== Scenario 1: brute-force against an ordinary workstation ==''] @ ls @
                        [[], ''== Scenario 2: the same technique, but against a domain controller ==''] @ ls' @
                        [[], ''== Aggregate diagnostics across a batch =='', ''  '' @ diagnostics_String report]))))"

section \<open>What the program decides\<close>

text \<open>Which hosts the monitoring example contains.\<close>

definition sec_flow :: "'w workflow" where
  "sec_flow = sec_workflow\<lparr>wf_DomainID := ''security''\<rparr>"

definition sec_engine :: "observer option \<Rightarrow> ('w, 's) engine" where
  "sec_engine ob =
     \<lparr>eng_sandbox = Some (sandbox_Probe sec_sandbox), eng_observer = ob, eng_workflows = [''security.contain_threat'' \<mapsto> sec_flow],
      eng_policies = [''security_containment_gate'' \<mapsto>
        \<lparr>pol_PolicyID = ''security_containment_gate'', pol_FallbackStepRef = ''hold_for_human_approval''\<rparr>],
      eng_store = None, eng_authorizer = None, eng_maxSteps = DefaultMaxSteps, eng_maxDepth = DefaultMaxDepth\<rparr>"

lemma sec_runtime:
  "sec_buildRuntime = (fold RegisterNode (dom_Intents (securityDomain :: 'w domain)) (NewRouter (round64 (34 / 100)) :: 'w router),
     sec_engine None :: ('w, 's) engine)"
  by (simp add: sec_buildRuntime_def securityDomain_def RegisterDomain_def NewRegistry_def NewEngine_def sec_workflow_def
      RegisterWorkflow_def RegisterPolicy_def claim_workflow_def sec_engine_def sec_flow_def sec_intent_def Let_def)

lemma sec_steps:
  "wf_Steps sec_flow ''classify'' = Some (LeafStep (plain_leaf ''classify'' (\<lambda>c w. (Output [(''sop'', GStr ''isolate_host'')], w)) [] [] ''contain''))"
  "wf_Steps sec_flow ''contain'' = Some (LeafStep (plain_leaf ''contain'' (\<lambda>c w. (Output [(''contained'', GBool True)], w))
     ''security.assess_containment_impact'' ''security_containment_gate'' []))"
  "wf_Steps sec_flow ''hold_for_human_approval'' = Some (LeafStep (plain_leaf ''hold_for_human_approval''
     (\<lambda>c w. (Output [(''awaiting_human_approval'', GBool True)], w)) [] [] []))"
  by (simp_all add: sec_flow_def sec_workflow_def sec_leaf_def plain_leaf_def)

lemma sec_engine_parts [simp]:
  "eng_sandbox (sec_engine ob) = Some (sandbox_Probe sec_sandbox)" "eng_maxSteps (sec_engine ob) = 10000"
  "eng_maxDepth (sec_engine ob) = 64" "eng_workflows (sec_engine ob) ''security.contain_threat'' = Some sec_flow"
  "wf_EntryStepID sec_flow = ''classify''" "sb_probes sec_sandbox ''security.assess_containment_impact'' = Some assess_containment"
  "eng_policies (sec_engine ob) ''security_containment_gate'' =
     Some \<lparr>pol_PolicyID = ''security_containment_gate'', pol_FallbackStepRef = ''hold_for_human_approval''\<rparr>"
  "SetObserver ob' (sec_engine ob) = sec_engine ob'"
  by (simp_all add: sec_engine_def sec_flow_def sec_workflow_def sec_sandbox_def RegisterProbe_def DefaultMaxSteps_def
      DefaultMaxDepth_def SetObserver_def)

lemma sec_router:
  "rtr_nodes (fold RegisterNode (dom_Intents (securityDomain :: 'w domain)) (NewRouter x :: 'w router)) ''security'' =
     dom_Intents (securityDomain :: 'w domain)"
  by (simp add: fold_RegisterNode NewRouter_def) (simp add: securityDomain_def sec_intent_def)

text \<open>A run contains its host, or holds it for a human, and never both.\<close>

definition contains :: "bool \<Rightarrow> outcome \<Rightarrow> bool" where
  "contains done r \<longleftrightarrow>
     (\<exists>result. r = Ok result \<and> (map_of (wr_Output result) ''contained'' = Some (GBool True) \<longleftrightarrow> done) \<and>
        (map_of (wr_Output result) ''awaiting_human_approval'' = Some (GBool True) \<longleftrightarrow> \<not> done))"

lemma sec_run:
  "contains (host \<notin> criticalAssets)
     (fst (Run h (sec_engine ob) ''security.contain_threat'' (sec_context host technique) (rt :: ('w, 's) rt)))"
proof (rule Run_from [OF sec_engine_parts(4)])
  fix sub
  let ?c0 = "sec_context host technique" and ?out = "[(''sop'', GStr ''isolate_host'')]"
  define c where "c = gmerge ?c0 ?out"
  have look: "ctx_str c ''target_host'' = host" "map_of c ''contained'' = None" "map_of c ''awaiting_human_approval'' = None"
    by (simp_all add: c_def ctx_str_def sec_context_def del: gmerge.simps)
  let ?go = "\<lambda>sid n c t (rt :: ('w, 's) rt). fst (run_loop sub h (sec_engine ob) sec_flow ''security.contain_threat'' 0 n
    \<lparr>cur_step = sid, cur_ctx = c, cur_done = [], cur_trace = t\<rparr> rt)"
  have contain: "contains (host \<notin> criticalAssets) (?go ''contain'' 1 c t rt')" for t and rt' :: "('w, 's) rt"
  proof (cases "host \<in> criticalAssets")
    case True
    define mode where "mode = ''containment would isolate critical asset '' @ quoted host"
    have "contains False (?go ''contain'' 1 c t rt')"
    proof (rule go_refused [OF sec_steps(2), where mode = mode and probe = assess_containment and sb = sec_sandbox
          and f = "''hold_for_human_approval''" and pid = "''security_containment_gate''"])
      show "\<And>w :: 'w. assess_containment c w = ((False, mode, None), w)"
        using True look(1) by (simp add: assess_containment_def mode_def Let_def)
      show "mode \<noteq> []" by (simp add: mode_def)
      show "contains False (?go ''hold_for_human_approval'' (1 + 1)
          (gmerge c [(FailureReasonKey, GStr mode), (FailedStepKey, GStr ''contain'')]) (t @ [''contain'']) rt'')" for rt''
        by (rule go_output [OF sec_steps(3), where out = "[(''awaiting_human_approval'', GBool True)]"])
          (use look in \<open>simp_all add: go_end contains_def FailureReasonKey_def FailedStepKey_def map_add_def\<close>)
    qed simp_all
    with True show ?thesis by simp
  next
    case False
    have "contains True (?go ''contain'' 1 c t rt')"
    proof (rule go_healthy [OF sec_steps(2), where mode = "[]" and probe = assess_containment and sb = sec_sandbox
          and out = "[(''contained'', GBool True)]"])
      show "\<And>w :: 'w. assess_containment c w = ((True, [], None), w)"
        using False look(1) by (simp add: assess_containment_def Let_def)
    qed (use look in \<open>simp_all add: go_end contains_def\<close>)
    with False show ?thesis by simp
  qed
  show "contains (host \<notin> criticalAssets) (?go (wf_EntryStepID sec_flow) 0 ?c0 [] rt)"
    unfolding sec_engine_parts(5)
  proof (rule go_output [OF sec_steps(1)])
    show "contains (host \<notin> criticalAssets) (?go ''contain'' (0 + 1) (gmerge ?c0 ?out) ([] @ [''classify'']) rt')" for rt'
      using contain unfolding c_def by simp
  qed simp_all
qed simp

text \<open>
  A matched alert is reported with its outcome: the host is isolated unless it is a critical asset, which is held for a
  human instead, whatever the alert and the technique it matched.
\<close>

theorem critical_assets_stay_up:
  fixes rt :: "('w, 's) rt"
  assumes "sec_buildRuntime = (router, e)"
    and "match_Matched (fst (Match u ''security'' alert router (rt_world rt)))"
  shows "\<exists>matched trace score. fst (runEvent u h t0 t1 e alert host (router, rt)) =
    Returns [matched,
      ''  outcome: '' @ (if host \<in> criticalAssets then ''containment held for human approval (breaker downgraded, critical asset protected)''
        else ''threat auto-contained (host isolated by deterministic action)''), trace, score]"
proof -
  have ready: "router = fold RegisterNode (dom_Intents (securityDomain :: 'w domain)) (NewRouter (round64 (34 / 100)))" "e = sec_engine None"
    using assms(1) unfolding sec_runtime by simp_all
  obtain m r1 w1 where m: "Match u ''security'' alert router (rt_world rt) = (m, r1, w1)"
    by (metis prod.collapse)
  have matched: "match_Matched m" using assms(2) unfolding m by simp
  have entry: "match_EntryWorkflowRef m = ''security.contain_threat''"
    using Match_source [OF assms(2)] unfolding m unfolding ready(1) sec_router
    by (auto simp: securityDomain_def sec_intent_def)
  obtain r rt1 where r: "Run h (sec_engine (Some score_observer)) ''security.contain_threat'' (sec_context host (match_NodeRef m))
      (rt\<lparr>rt_world := w1, rt_log := []\<rparr>) = (r, rt1)" by force
  have "contains (host \<notin> criticalAssets) r" using sec_run [of host h "Some score_observer"] r by (metis fst_conv)
  then obtain result where result: "r = Ok result"
    "map_of (wr_Output result) ''contained'' = Some (GBool True) \<longleftrightarrow> host \<notin> criticalAssets"
    "map_of (wr_Output result) ''awaiting_human_approval'' = Some (GBool True) \<longleftrightarrow> host \<in> criticalAssets"
    unfolding contains_def by auto
  then have said: "sec_describe (wr_Output result) = (if host \<in> criticalAssets
      then ''containment held for human approval (breaker downgraded, critical asset protected)''
      else ''threat auto-contained (host isolated by deterministic action)'')"
    by (auto simp: sec_describe_def ctx_get_def split: option.splits)
  show ?thesis
    using m matched entry r result(1) said ready(2) by (simp add: runEvent_def print_then_def)
qed

text \<open>A sample: the batch's third alert.\<close>

lemma spray_matches:
  "match_Matched (fst (Match ascii_only ''security'' ''password spray detected''
     (fold RegisterNode (dom_Intents (securityDomain :: unit domain)) (NewRouter (round64 (34 / 100)) :: unit router)) w))"
  by (rule example_matches [where node = "hd (dom_Intents (securityDomain :: unit domain))"], unfold sec_router fold_RegisterNode(2,3))
    (simp_all add: securityDomain_def sec_intent_def NewRouter_def round64_le_1 tokenize_def ascii_only_def
      runes.simps decode_rune_def rune_alnum_def rune_lower_def)

lemma critical_assets_stay_up_witness:
  "\<exists>router matched trace score. router = fst (sec_buildRuntime :: unit router \<times> (unit, memory_store) engine) \<and>
    fst (runEvent ascii_only (in_order_host (\<lambda>n w. (Inl [], w))) 0 1 (sec_engine None) ''password spray detected'' ''dc01''
      (router, \<lparr>rt_world = (), rt_store = NewMemoryStore, rt_log = []\<rparr>)) =
    Returns [matched, ''  outcome: '' @ ''containment held for human approval (breaker downgraded, critical asset protected)'', trace, score]"
  using critical_assets_stay_up [OF sec_runtime, of ascii_only "''password spray detected''"
      "\<lparr>rt_world = (), rt_store = NewMemoryStore, rt_log = []\<rparr>" "in_order_host (\<lambda>n w. (Inl [], w))" 0 1 "''dc01''", unfolded rt.simps,
      OF spray_matches]
  by (simp add: sec_runtime criticalAssets_def)

end
