(* ===== verification/MetaScenarios.thy ===== *)
theory MetaScenarios
  imports Approval Walks
begin

text \<open>
  Three shapes of workflow (\<open>examples/meta_scenarios/main.go\<close>): a switch built from binary edges
  (\<open>manifests/ticket-routing.json\<close>), a change deferred by suspension (\<open>manifests/change-window.json\<close>), and records
  pushed to a target whose versions the program keeps (\<open>manifests/record-sync.json\<close>). The world of the runs is
  that table of versions.
\<close>

section \<open>The target\<close>

type_synonym versions = "float64 gomap"

definition targetVersions :: versions where
  "targetVersions = fold (\<lambda>id. gput id (Fin 7)) [''row-1'', ''row-2'', ''row-3''] []"

definition check_target_unchanged :: "versions probe" where
  "check_target_unchanged c w =
     (let rid = ctx_str c ''record_id''; seen = ctx_float c ''target_version_seen'' in
      (case map_of w rid of
         None \<Rightarrow> (False, ''target has no row '' @ quoted rid, None)
       | Some current \<Rightarrow>
           if \<not> f64_eq current seen then
             (False, ''target row '' @ quoted rid @ '' moved from '' @ fmt_v (GFloat seen) @ '' to '' @ fmt_v (GFloat current), None)
           else (True, [], None), w))"

text \<open>\<open>targetVersions[id]++\<close> makes an entry of one that is absent.\<close>

definition write_to_target :: "versions action" where
  "write_to_target c w =
     (let rid = ctx_str c ''record_id'';
          v = f64_add (case map_of w rid of Some x \<Rightarrow> x | None \<Rightarrow> Fin 0) (Fin 1)
      in (Output [(''written_version'', GFloat v)], gput rid v w))"

section \<open>The manifests\<close>

definition ticket_manifest :: manifest_file where
  "ticket_manifest =
     \<lparr>file_Name = ''ticket-routing'',
      file_Intents =
        [\<lparr>ispec_NodeID = ''ticket-routing.triage'',
          ispec_Examples = [''route this ticket'', ''triage incoming ticket'', ''which queue does this go to''],
          ispec_EntryWorkflowRef = ''ticket-routing.triage'', ispec_DeprecatedEntryStepRef = []\<rparr>],
      file_Policies =
        [\<lparr>pspec_PolicyID = ''not_urgent'', pspec_FallbackStepRef = ''check_billing''\<rparr>,
         \<lparr>pspec_PolicyID = ''not_billing'', pspec_FallbackStepRef = ''check_bug''\<rparr>,
         \<lparr>pspec_PolicyID = ''not_bug'', pspec_FallbackStepRef = ''route_general''\<rparr>],
      file_Workflows =
        [\<lparr>wspec_WorkflowID = ''ticket-routing.triage'', wspec_EntryStepID = ''check_urgent'',
          wspec_Steps =
            [(json_leaf ''check_urgent'' ''std.require''
                [(''field'', GStr ''severity''), (''op'', GStr ''eq''), (''value'', GStr ''urgent'')])
               \<lparr>sspec_CircuitBreakerPolicyRef := ''not_urgent'', sspec_OnSuccess := ''route_pager''\<rparr>,
             (json_leaf ''check_billing'' ''std.require''
                [(''field'', GStr ''category''), (''op'', GStr ''eq''), (''value'', GStr ''billing'')])
               \<lparr>sspec_CircuitBreakerPolicyRef := ''not_billing'', sspec_OnSuccess := ''route_finance''\<rparr>,
             (json_leaf ''check_bug'' ''std.require''
                [(''field'', GStr ''category''), (''op'', GStr ''in''),
                 (''value'', GArr [GStr ''bug'', GStr ''defect'', GStr ''crash''])])
               \<lparr>sspec_CircuitBreakerPolicyRef := ''not_bug'', sspec_OnSuccess := ''route_engineering''\<rparr>,
             json_leaf ''route_pager'' ''std.set'' [(''fields'', GObj [(''paged'', GBool True), (''queue'', GStr ''pager-duty'')])],
             json_leaf ''route_finance'' ''std.set'' [(''fields'', GObj [(''queue'', GStr ''finance-ops'')])],
             json_leaf ''route_engineering'' ''std.set'' [(''fields'', GObj [(''queue'', GStr ''engineering'')])],
             json_leaf ''route_general'' ''std.set'' [(''fields'', GObj [(''queue'', GStr ''general-support'')])]]\<rparr>]\<rparr>"

definition window_manifest :: manifest_file where
  "window_manifest =
     \<lparr>file_Name = ''change-window'',
      file_Intents =
        [\<lparr>ispec_NodeID = ''change-window.apply'',
          ispec_Examples = [''apply this config change'', ''roll out the change'', ''deploy this change''],
          ispec_EntryWorkflowRef = ''change-window.apply'', ispec_DeprecatedEntryStepRef = []\<rparr>],
      file_Policies = [\<lparr>pspec_PolicyID = ''defer_to_window'', pspec_FallbackStepRef = ''wait_for_window''\<rparr>],
      file_Workflows =
        [\<lparr>wspec_WorkflowID = ''change-window.apply'', wspec_EntryStepID = ''check_window'',
          wspec_Steps =
            [(json_leaf ''check_window'' ''std.require''
                [(''field'', GStr ''in_maintenance_window''), (''op'', GStr ''eq''), (''value'', GBool True)])
               \<lparr>sspec_CircuitBreakerPolicyRef := ''defer_to_window'', sspec_OnSuccess := ''apply''\<rparr>,
             (json_leaf ''wait_for_window'' ''std.suspend''
                [(''reason'', GStr ''outside the maintenance window; deferred until it opens'')])
               \<lparr>sspec_OnSuccess := ''apply''\<rparr>,
             json_leaf ''apply'' ''std.set'' [(''fields'', GObj [(''applied'', GBool True)])]]\<rparr>]\<rparr>"

definition sync_manifest :: manifest_file where
  "sync_manifest =
     \<lparr>file_Name = ''record-sync'',
      file_Intents =
        [\<lparr>ispec_NodeID = ''record-sync.push'',
          ispec_Examples = [''sync this record to the target'', ''push record downstream'', ''replicate this row''],
          ispec_EntryWorkflowRef = ''record-sync.push'', ispec_DeprecatedEntryStepRef = []\<rparr>],
      file_Policies =
        [\<lparr>pspec_PolicyID = ''reject_invalid'', pspec_FallbackStepRef = ''record_rejected''\<rparr>,
         \<lparr>pspec_PolicyID = ''hold_on_conflict'', pspec_FallbackStepRef = ''record_conflict''\<rparr>],
      file_Workflows =
        [\<lparr>wspec_WorkflowID = ''record-sync.push'', wspec_EntryStepID = ''validate'',
          wspec_Steps =
            [(json_leaf ''validate'' ''std.require''
                [(''field'', GStr ''record_id''), (''op'', GStr ''neq''), (''value'', GStr [])])
               \<lparr>sspec_CircuitBreakerPolicyRef := ''reject_invalid'', sspec_OnSuccess := ''write''\<rparr>,
             (json_leaf ''write'' ''sync.write_to_target'' [])
               \<lparr>sspec_SandboxProbeRef := ''sync.check_target_unchanged'', sspec_CircuitBreakerPolicyRef := ''hold_on_conflict'',
                sspec_OnSuccess := ''record_written''\<rparr>,
             json_leaf ''record_written'' ''std.set'' [(''fields'', GObj [(''synced'', GBool True)])],
             json_leaf ''record_rejected'' ''std.set''
               [(''fields'', GObj [(''outcome'', GStr ''rejected: no record_id''), (''synced'', GBool False)])],
             json_leaf ''record_conflict'' ''std.set''
               [(''fields'', GObj [(''outcome'', GStr ''held: the pre-write check refused''), (''synced'', GBool False)])]]\<rparr>]\<rparr>"

section \<open>The runtime\<close>

definition sync_hooks :: "versions hooks" where
  "sync_hooks = [''sync.write_to_target'' \<mapsto> write_to_target]"

definition meta_specs :: "(string \<times> versions hooks) list" where
  "meta_specs =
     [(''examples/manifests/ticket-routing.json'', Map.empty), (''examples/manifests/change-window.json'', Map.empty),
      (''examples/manifests/record-sync.json'', sync_hooks)]"

fun register_specs :: "(string \<Rightarrow> string + string) \<Rightarrow> (string \<Rightarrow> string + manifest_file) \<Rightarrow> (string \<times> 'w hooks) list \<Rightarrow>
    ('w, 's) registry \<Rightarrow> (string, ('w, 's) registry) res" where
  "register_specs read_file dec [] reg = Ok reg"
| "register_specs read_file dec ((path, hooks) # specs) reg =
     (case read_file path of
        Inl err \<Rightarrow> Err (''reading '' @ path @ '': '' @ err)
      | Inr data \<Rightarrow>
          (case Load (dec data) hooks Default of
             Err err \<Rightarrow> Err (''loading '' @ path @ '': '' @ err)
           | Panic p \<Rightarrow> Panic p
           | Ok d \<Rightarrow> register_specs read_file dec specs (RegisterDomain d reg)))"

definition meta_sandbox :: "versions sandbox" where
  "meta_sandbox = RegisterProbe NewSandbox ''sync.check_target_unchanged'' check_target_unchanged"

definition meta_buildRuntime :: "(string \<Rightarrow> string + string) \<Rightarrow> (string \<Rightarrow> string + manifest_file) \<Rightarrow>
    (string, versions router \<times> (versions, memory_store) engine) res" where
  "meta_buildRuntime read_file dec =
     res_bind
       (register_specs read_file dec meta_specs
         (NewRegistry (NewRouter (round64 (3 / 10))) (SetStore (Some MemoryStore) (NewEngine (Some (sandbox_Probe meta_sandbox))))))
       (\<lambda>reg. Ok (reg_router reg, reg_engine reg))"

section \<open>The scenarios\<close>

type_synonym meta_rt = "(versions, memory_store) rt"

definition ticket :: "string \<Rightarrow> string \<Rightarrow> string \<Rightarrow> ctx" where
  "ticket tid severity category = [(''category'', GStr category), (''id'', GStr tid), (''severity'', GStr severity)]"

definition tickets :: "ctx list" where
  "tickets =
     [ticket ''T-1'' ''urgent'' ''bug'', ticket ''T-2'' ''normal'' ''billing'', ticket ''T-3'' ''normal'' ''crash'',
      ticket ''T-4'' ''normal'' ''how-do-i'']"

definition ticket_line :: "ctx \<Rightarrow> outcome \<Rightarrow> string" where
  "ticket_line t r =
     (case r of
        Ok result \<Rightarrow>
          ''  '' @ fmt_v (ctx_get t ''id'') @ '' ('' @ fmt_v (ctx_get t ''severity'') @ ''/'' @ fmt_v (ctx_get t ''category'') @
          '') -> '' @ pad_right 16 (fmt_v (ctx_get (wr_Output result) ''queue'')) @ '' trace '' @ fmt_v (GStrs (wr_Trace result))
      | Err err \<Rightarrow> ''  '' @ fmt_v (ctx_get t ''id'') @ '' halted: '' @ error_text err
      | Panic p \<Rightarrow> [])"

fun route_tickets :: "(nat \<Rightarrow> versions host) \<Rightarrow> (versions, memory_store) engine \<Rightarrow> nat \<Rightarrow> ctx list \<Rightarrow> meta_rt \<Rightarrow>
    string list returned \<times> meta_rt" where
  "route_tickets hs e i [] rt = (Returns [], rt)"
| "route_tickets hs e i (t # ts) rt =
     (case Run (hs i) e ''ticket-routing.triage'' t rt of
        (Panic p, rt1) \<Rightarrow> (Panicked p, rt1)
      | (r, rt1) \<Rightarrow> print_then [ticket_line t r] (route_tickets hs e (Suc i) ts rt1))"

definition ticketRouting :: "(nat \<Rightarrow> versions host) \<Rightarrow> (versions, memory_store) engine \<Rightarrow> meta_rt \<Rightarrow> string list returned \<times> meta_rt" where
  "ticketRouting hs e rt =
     print_then [''== ticket routing: an N-way switch from binary edges ==''] (route_tickets hs e 0 tickets rt)"

definition change_ctx :: "bool \<Rightarrow> ctx" where
  "change_ctx inWindow = [(''change'', GStr ''bump-tls-ciphers''), (''in_maintenance_window'', GBool inWindow)]"

definition applied_text :: "workflow_result \<Rightarrow> string" where
  "applied_text result = ''applied='' @ fmt_v (ctx_get (wr_Output result) ''applied'') @ '' trace '' @ fmt_v (GStrs (wr_Trace result))"

definition changeWindow :: "(nat \<Rightarrow> versions host) \<Rightarrow> (memory_store \<Rightarrow> memory_store) \<Rightarrow> (versions, memory_store) engine \<Rightarrow>
    meta_rt \<Rightarrow> string list returned \<times> meta_rt" where
  "changeWindow hs order e rt =
     print_then [''== scheduling: deferral is suspension, not a timer ==''] (
     case Run (hs 0) e ''change-window.apply'' (change_ctx True) rt of
       (Panic p, rt1) \<Rightarrow> (Panicked p, rt1)
     | (Err err, rt1) \<Rightarrow> (Returns [''  halted: '' @ error_text err], rt1)
     | (Ok inWindow, rt1) \<Rightarrow>
     print_then [''  inside the window:  '' @ applied_text inWindow] (
     case Run (hs 1) e ''change-window.apply'' (change_ctx False) rt1 of
       (Panic p, rt2) \<Rightarrow> (Panicked p, rt2)
     | (Err err, rt2) \<Rightarrow> (Returns [''  halted: '' @ error_text err], rt2)
     | (Ok deferred, rt2) \<Rightarrow>
     print_then ((''  outside the window: parked, '' @ applied_text deferred) #
         map (\<lambda>s. ''    a scheduler holds: '' @ st_Reason s) (memory_Pending order (rt_store rt2))) (
     case Resume (hs 2) e (wr_StatePointer deferred) [(''in_maintenance_window'', GBool True)] rt2 of
       (Panicked p, rt3) \<Rightarrow> (Panicked p, rt3)
     | (Returns (_, Some err), rt3) \<Rightarrow> (Returns [''  resume failed: '' @ error_text err], rt3)
     | (Returns (resumed, None), rt3) \<Rightarrow> (Returns [''  window opens:       '' @ applied_text resumed], rt3))))"

definition sync_record :: "string \<Rightarrow> rat \<Rightarrow> ctx" where
  "sync_record rid seen = [(''record_id'', GStr rid), (''target_version_seen'', GFloat (Fin seen))]"

definition sync_batch :: "ctx list" where
  "sync_batch = [sync_record ''row-1'' 7, sync_record ''row-2'' 3, sync_record [] 7, sync_record ''row-9'' 7]"

text \<open>What is printed of a record, and whether it counts as synced.\<close>

definition sync_lines :: "ctx \<Rightarrow> outcome \<Rightarrow> string list \<times> nat" where
  "sync_lines record' r =
     (let name = pad_right 6 (fmt_v (ctx_get record' ''record_id'')) in
      case r of
        Ok result \<Rightarrow>
          if ctx_get (wr_Output result) ''synced'' = GBool True then
            ([''  '' @ name @ '' synced, target now at v'' @ fmt_v (ctx_get (wr_Output result) ''written_version'')], 1)
          else
            ([''  '' @ name @ '' '' @ fmt_v (ctx_get (wr_Output result) ''outcome''),
              ''            because: '' @ fmt_v (ctx_get (wr_Output result) FailureReasonKey)], 0)
      | Err err \<Rightarrow> ([''  '' @ name @ '' halted: '' @ error_text err], 0)
      | Panic p \<Rightarrow> ([], 0))"

fun sync_all :: "(nat \<Rightarrow> versions host) \<Rightarrow> (versions, memory_store) engine \<Rightarrow> nat \<Rightarrow> nat \<Rightarrow> ctx list \<Rightarrow> meta_rt \<Rightarrow>
    (string list \<times> nat) returned \<times> meta_rt" where
  "sync_all hs e i synced [] rt = (Returns ([], synced), rt)"
| "sync_all hs e i synced (r # rs) rt =
     (case Run (hs i) e ''record-sync.push'' r rt of
        (Panic p, rt1) \<Rightarrow> (Panicked p, rt1)
      | (res, rt1) \<Rightarrow>
          (case sync_all hs e (Suc i) (synced + snd (sync_lines r res)) rs rt1 of
             (Panicked p, rt2) \<Rightarrow> (Panicked p, rt2)
           | (Returns (ls, n), rt2) \<Rightarrow> (Returns (fst (sync_lines r res) @ ls, n), rt2)))"

definition recordSync :: "(nat \<Rightarrow> versions host) \<Rightarrow> (versions, memory_store) engine \<Rightarrow> meta_rt \<Rightarrow> string list returned \<times> meta_rt" where
  "recordSync hs e rt =
     (case sync_all hs e 0 0 sync_batch rt of
        (Panicked p, rt1) \<Rightarrow> (Panicked p, rt1)
      | (Returns (ls, synced), rt1) \<Rightarrow>
          (Returns ([''== data sync: the loop lives in the caller, not the DAG ==''] @ ls @
             [''  '' @ digits_of synced @ '' of '' @ digits_of (length sync_batch) @ '' records synced; the rest were held, not retried'']), rt1))"

definition meta_main :: "(nat \<Rightarrow> nat \<Rightarrow> versions host) \<Rightarrow> (memory_store \<Rightarrow> memory_store) \<Rightarrow> (string \<Rightarrow> string + string) \<Rightarrow>
    (string \<Rightarrow> string + manifest_file) \<Rightarrow> (string, string list) res" where
  "meta_main hs order read_file dec =
     (case meta_buildRuntime read_file dec of
        Err err \<Rightarrow> Err (''setup failed: '' @ err)
      | Panic p \<Rightarrow> Panic p
      | Ok (router, e) \<Rightarrow>
          (case ticketRouting (hs 0) e \<lparr>rt_world = targetVersions, rt_store = NewMemoryStore, rt_log = []\<rparr> of
             (Panicked p, rt1) \<Rightarrow> Panic p
           | (Returns ls1, rt1) \<Rightarrow>
               (case changeWindow (hs 1) order e rt1 of
                  (Panicked p, rt2) \<Rightarrow> Panic p
                | (Returns ls2, rt2) \<Rightarrow>
                    (case recordSync (hs 2) e rt2 of
                       (Panicked p, rt3) \<Rightarrow> Panic p
                     | (Returns ls3, rt3) \<Rightarrow> Ok (ls1 @ [[]] @ ls2 @ [[]] @ ls3)))))"

section \<open>What the program decides\<close>

text \<open>
  What the three shapes of workflow do: tickets reach the queue of the first rule that fits, a record is written
  exactly when the caller has seen the target's version, and a deferred change is applied when it is resumed.
\<close>

section \<open>The loaded workflows\<close>

definition ticket_flow :: "'w workflow" where
  "ticket_flow =
     \<lparr>wf_WorkflowID = ''ticket-routing.triage'', wf_DomainID = ''ticket-routing'', wf_EntryStepID = ''check_urgent'',
      wf_Steps =
       [''check_urgent'' \<mapsto> LeafStep (plain_leaf ''check_urgent''
          (require_action ''severity'' ''eq'' (GStr ''urgent'')) [] ''not_urgent'' ''route_pager''),
        ''check_billing'' \<mapsto> LeafStep (plain_leaf ''check_billing''
          (require_action ''category'' ''eq'' (GStr ''billing'')) [] ''not_billing'' ''route_finance''),
        ''check_bug'' \<mapsto> LeafStep (plain_leaf ''check_bug''
          (require_action ''category'' ''in'' (GArr [GStr ''bug'', GStr ''defect'', GStr ''crash''])) [] ''not_bug'' ''route_engineering''),
        ''route_pager'' \<mapsto> LeafStep (plain_leaf ''route_pager''
          (set_action [(''paged'', GBool True), (''queue'', GStr ''pager-duty'')]) [] [] []),
        ''route_finance'' \<mapsto> LeafStep (plain_leaf ''route_finance'' (set_action [(''queue'', GStr ''finance-ops'')]) [] [] []),
        ''route_engineering'' \<mapsto> LeafStep (plain_leaf ''route_engineering'' (set_action [(''queue'', GStr ''engineering'')]) [] [] []),
        ''route_general'' \<mapsto> LeafStep (plain_leaf ''route_general'' (set_action [(''queue'', GStr ''general-support'')]) [] [] [])]\<rparr>"

definition window_reason :: string where
  "window_reason = ''outside the maintenance window; deferred until it opens''"

definition window_flow :: "'w workflow" where
  "window_flow =
     \<lparr>wf_WorkflowID = ''change-window.apply'', wf_DomainID = ''change-window'', wf_EntryStepID = ''check_window'',
      wf_Steps =
       [''check_window'' \<mapsto> LeafStep (plain_leaf ''check_window''
          (require_action ''in_maintenance_window'' ''eq'' (GBool True)) [] ''defer_to_window'' ''apply''),
        ''wait_for_window'' \<mapsto> LeafStep (plain_leaf ''wait_for_window'' (\<lambda>c w. (Suspends window_reason [], w)) [] [] ''apply''),
        ''apply'' \<mapsto> LeafStep (plain_leaf ''apply'' (set_action [(''applied'', GBool True)]) [] [] [])]\<rparr>"

definition rejected_fields :: ctx where
  "rejected_fields = [(''outcome'', GStr ''rejected: no record_id''), (''synced'', GBool False)]"

definition conflict_fields :: ctx where
  "conflict_fields = [(''outcome'', GStr ''held: the pre-write check refused''), (''synced'', GBool False)]"

definition sync_flow :: "versions workflow" where
  "sync_flow =
     \<lparr>wf_WorkflowID = ''record-sync.push'', wf_DomainID = ''record-sync'', wf_EntryStepID = ''validate'',
      wf_Steps =
       [''validate'' \<mapsto> LeafStep (plain_leaf ''validate''
          (require_action ''record_id'' ''neq'' (GStr [])) [] ''reject_invalid'' ''write''),
        ''write'' \<mapsto> LeafStep (plain_leaf ''write'' write_to_target ''sync.check_target_unchanged'' ''hold_on_conflict'' ''record_written''),
        ''record_written'' \<mapsto> LeafStep (plain_leaf ''record_written'' (set_action [(''synced'', GBool True)]) [] [] []),
        ''record_rejected'' \<mapsto> LeafStep (plain_leaf ''record_rejected'' (set_action rejected_fields) [] [] []),
        ''record_conflict'' \<mapsto> LeafStep (plain_leaf ''record_conflict'' (set_action conflict_fields) [] [] [])]\<rparr>"

definition falls :: "string \<Rightarrow> string \<Rightarrow> circuit_breaker_policy" where
  "falls p s = \<lparr>pol_PolicyID = p, pol_FallbackStepRef = s\<rparr>"

definition meta_engine :: "(versions, memory_store) engine" where
  "meta_engine =
     \<lparr>eng_sandbox = Some (sandbox_Probe meta_sandbox), eng_observer = None,
      eng_workflows = [''ticket-routing.triage'' \<mapsto> ticket_flow, ''change-window.apply'' \<mapsto> window_flow, ''record-sync.push'' \<mapsto> sync_flow],
      eng_policies =
       [''not_urgent'' \<mapsto> falls ''not_urgent'' ''check_billing'', ''not_billing'' \<mapsto> falls ''not_billing'' ''check_bug'',
        ''not_bug'' \<mapsto> falls ''not_bug'' ''route_general'', ''defer_to_window'' \<mapsto> falls ''defer_to_window'' ''wait_for_window'',
        ''reject_invalid'' \<mapsto> falls ''reject_invalid'' ''record_rejected'',
        ''hold_on_conflict'' \<mapsto> falls ''hold_on_conflict'' ''record_conflict''],
      eng_store = Some MemoryStore, eng_authorizer = None, eng_maxSteps = DefaultMaxSteps, eng_maxDepth = DefaultMaxDepth\<rparr>"

lemma meta_flows:
  "\<exists>intents. Load (Inr ticket_manifest) Map.empty Default =
     Ok \<lparr>dom_Name = ''ticket-routing'', dom_Intents = intents, dom_Workflows = [ticket_flow\<lparr>wf_DomainID := []\<rparr> :: versions workflow],
         dom_Policies = [falls ''not_urgent'' ''check_billing'', falls ''not_billing'' ''check_bug'', falls ''not_bug'' ''route_general'']\<rparr>"
  "\<exists>intents. Load (Inr window_manifest) Map.empty Default =
     Ok \<lparr>dom_Name = ''change-window'', dom_Intents = intents, dom_Workflows = [window_flow\<lparr>wf_DomainID := []\<rparr> :: versions workflow],
         dom_Policies = [falls ''defer_to_window'' ''wait_for_window'']\<rparr>"
  "\<exists>intents. Load (Inr sync_manifest) sync_hooks Default =
     Ok \<lparr>dom_Name = ''record-sync'', dom_Intents = intents, dom_Workflows = [sync_flow\<lparr>wf_DomainID := []\<rparr>],
         dom_Policies = [falls ''reject_invalid'' ''record_rejected'', falls ''hold_on_conflict'' ''record_conflict'']\<rparr>"
  by (simp_all add: literal_load suspend_factory ticket_manifest_def ticket_flow_def window_manifest_def window_flow_def
      window_reason_def sync_manifest_def sync_flow_def sync_hooks_def falls_def rejected_fields_def conflict_fields_def)

text \<open>What the three files must hold.\<close>

definition meta_files :: "(string \<Rightarrow> string + string) \<Rightarrow> (string \<Rightarrow> string + manifest_file) \<Rightarrow> bool" where
  "meta_files read_file dec \<longleftrightarrow>
     (\<exists>a b c. read_file ''examples/manifests/ticket-routing.json'' = Inr a \<and> dec a = Inr ticket_manifest \<and>
        read_file ''examples/manifests/change-window.json'' = Inr b \<and> dec b = Inr window_manifest \<and>
        read_file ''examples/manifests/record-sync.json'' = Inr c \<and> dec c = Inr sync_manifest)"

lemma meta_runtime:
  assumes "meta_files read_file dec"
  shows "\<exists>router. meta_buildRuntime read_file dec = Ok (router, meta_engine)"
proof -
  obtain i1 i2 i3 where loads:
    "Load (Inr ticket_manifest) Map.empty Default =
       Ok \<lparr>dom_Name = ''ticket-routing'', dom_Intents = i1, dom_Workflows = [ticket_flow\<lparr>wf_DomainID := []\<rparr> :: versions workflow],
           dom_Policies = [falls ''not_urgent'' ''check_billing'', falls ''not_billing'' ''check_bug'', falls ''not_bug'' ''route_general'']\<rparr>"
    "Load (Inr window_manifest) Map.empty Default =
       Ok \<lparr>dom_Name = ''change-window'', dom_Intents = i2, dom_Workflows = [window_flow\<lparr>wf_DomainID := []\<rparr> :: versions workflow],
           dom_Policies = [falls ''defer_to_window'' ''wait_for_window'']\<rparr>"
    "Load (Inr sync_manifest) sync_hooks Default =
       Ok \<lparr>dom_Name = ''record-sync'', dom_Intents = i3, dom_Workflows = [sync_flow\<lparr>wf_DomainID := []\<rparr>],
           dom_Policies = [falls ''reject_invalid'' ''record_rejected'', falls ''hold_on_conflict'' ''record_conflict'']\<rparr>"
    using meta_flows by blast
  have claims: "claim_workflow ''ticket-routing'' (ticket_flow\<lparr>wf_DomainID := []\<rparr>) = (ticket_flow :: versions workflow)"
    "claim_workflow ''change-window'' (window_flow\<lparr>wf_DomainID := []\<rparr>) = (window_flow :: versions workflow)"
    "claim_workflow ''record-sync'' (sync_flow\<lparr>wf_DomainID := []\<rparr>) = sync_flow"
    "wf_WorkflowID (ticket_flow :: versions workflow) = ''ticket-routing.triage''"
    "wf_WorkflowID (window_flow :: versions workflow) = ''change-window.apply''" "wf_WorkflowID sync_flow = ''record-sync.push''"
    by (simp_all add: claim_workflow_def ticket_flow_def window_flow_def sync_flow_def)
  show ?thesis
    using assms unfolding meta_files_def
    by (elim exE conjE) (simp add: meta_buildRuntime_def meta_specs_def loads RegisterDomain_def NewRegistry_def NewEngine_def
        RegisterWorkflow_def RegisterPolicy_def claims falls_def SetStore_def meta_engine_def Let_def)
qed

lemma meta_steps:
  "wf_Steps ticket_flow ''check_urgent'' = Some (LeafStep (plain_leaf ''check_urgent''
     (require_action ''severity'' ''eq'' (GStr ''urgent'')) [] ''not_urgent'' ''route_pager''))"
  "wf_Steps ticket_flow ''check_billing'' = Some (LeafStep (plain_leaf ''check_billing''
     (require_action ''category'' ''eq'' (GStr ''billing'')) [] ''not_billing'' ''route_finance''))"
  "wf_Steps ticket_flow ''check_bug'' = Some (LeafStep (plain_leaf ''check_bug''
     (require_action ''category'' ''in'' (GArr [GStr ''bug'', GStr ''defect'', GStr ''crash''])) [] ''not_bug'' ''route_engineering''))"
  "wf_Steps ticket_flow ''route_pager'' = Some (LeafStep (plain_leaf ''route_pager''
     (set_action [(''paged'', GBool True), (''queue'', GStr ''pager-duty'')]) [] [] []))"
  "wf_Steps ticket_flow ''route_finance'' = Some (LeafStep (plain_leaf ''route_finance'' (set_action [(''queue'', GStr ''finance-ops'')]) [] [] []))"
  "wf_Steps ticket_flow ''route_engineering'' =
     Some (LeafStep (plain_leaf ''route_engineering'' (set_action [(''queue'', GStr ''engineering'')]) [] [] []))"
  "wf_Steps ticket_flow ''route_general'' =
     Some (LeafStep (plain_leaf ''route_general'' (set_action [(''queue'', GStr ''general-support'')]) [] [] []))"
  "wf_Steps window_flow ''check_window'' = Some (LeafStep (plain_leaf ''check_window''
     (require_action ''in_maintenance_window'' ''eq'' (GBool True)) [] ''defer_to_window'' ''apply''))"
  "wf_Steps window_flow ''wait_for_window'' =
     Some (LeafStep (plain_leaf ''wait_for_window'' (\<lambda>c w. (Suspends window_reason [], w)) [] [] ''apply''))"
  "wf_Steps window_flow ''apply'' = Some (LeafStep (plain_leaf ''apply'' (set_action [(''applied'', GBool True)]) [] [] []))"
  "wf_Steps sync_flow ''validate'' = Some (LeafStep (plain_leaf ''validate''
     (require_action ''record_id'' ''neq'' (GStr [])) [] ''reject_invalid'' ''write''))"
  "wf_Steps sync_flow ''write'' = Some (LeafStep (plain_leaf ''write'' write_to_target
     ''sync.check_target_unchanged'' ''hold_on_conflict'' ''record_written''))"
  "wf_Steps sync_flow ''record_written'' = Some (LeafStep (plain_leaf ''record_written'' (set_action [(''synced'', GBool True)]) [] [] []))"
  "wf_Steps sync_flow ''record_rejected'' = Some (LeafStep (plain_leaf ''record_rejected'' (set_action rejected_fields) [] [] []))"
  "wf_Steps sync_flow ''record_conflict'' = Some (LeafStep (plain_leaf ''record_conflict'' (set_action conflict_fields) [] [] []))"
  by (simp_all add: ticket_flow_def window_flow_def sync_flow_def)

lemma meta_engine_parts [simp]:
  "eng_observer meta_engine = None" "eng_store meta_engine = Some MemoryStore" "eng_maxSteps meta_engine = 10000"
  "eng_maxDepth meta_engine = 64" "eng_sandbox meta_engine = Some (sandbox_Probe meta_sandbox)"
  "sb_probes meta_sandbox ''sync.check_target_unchanged'' = Some check_target_unchanged"
  "eng_workflows meta_engine ''ticket-routing.triage'' = Some ticket_flow"
  "eng_workflows meta_engine ''change-window.apply'' = Some window_flow"
  "eng_workflows meta_engine ''record-sync.push'' = Some sync_flow"
  "wf_EntryStepID ticket_flow = ''check_urgent''" "wf_EntryStepID window_flow = ''check_window''" "wf_EntryStepID sync_flow = ''validate''"
  "wf_WorkflowID window_flow = ''change-window.apply''"
  by (simp_all add: meta_engine_def ticket_flow_def window_flow_def sync_flow_def meta_sandbox_def RegisterProbe_def
      DefaultMaxSteps_def DefaultMaxDepth_def)

lemma meta_policies [simp]:
  "eng_policies meta_engine ''not_urgent'' = Some \<lparr>pol_PolicyID = ''not_urgent'', pol_FallbackStepRef = ''check_billing''\<rparr>"
  "eng_policies meta_engine ''not_billing'' = Some \<lparr>pol_PolicyID = ''not_billing'', pol_FallbackStepRef = ''check_bug''\<rparr>"
  "eng_policies meta_engine ''not_bug'' = Some \<lparr>pol_PolicyID = ''not_bug'', pol_FallbackStepRef = ''route_general''\<rparr>"
  "eng_policies meta_engine ''defer_to_window'' = Some \<lparr>pol_PolicyID = ''defer_to_window'', pol_FallbackStepRef = ''wait_for_window''\<rparr>"
  "eng_policies meta_engine ''reject_invalid'' = Some \<lparr>pol_PolicyID = ''reject_invalid'', pol_FallbackStepRef = ''record_rejected''\<rparr>"
  "eng_policies meta_engine ''hold_on_conflict'' = Some \<lparr>pol_PolicyID = ''hold_on_conflict'', pol_FallbackStepRef = ''record_conflict''\<rparr>"
  by (simp_all add: meta_engine_def falls_def)

section \<open>Tickets\<close>

lemma require_passes: "compare (ctx_get c fld) op want = Ok True \<Longrightarrow> require_action fld op want c w = (Output [], w)"
  by (simp add: require_action_def)

lemma require_stops: "compare (ctx_get c fld) op want = Ok False \<Longrightarrow>
   require_action fld op want c w = (Fails (requirement_not_met fld (ctx_get c fld) op want), w)"
  by (simp add: require_action_def)

lemma equals_text: "compare (GStr s) ''eq'' (GStr want) = Ok (s = want)" "compare (GStr s) ''neq'' (GStr want) = Ok (s \<noteq> want)"
  by (auto simp: compare_def equals_res_def equals_def toFloat_def go_eq_def)

lemma is_bug: "compare (GStr s) ''in'' (GArr [GStr ''bug'', GStr ''defect'', GStr ''crash'']) = Ok (s \<in> {''bug'', ''defect'', ''crash''})"
  by (auto simp: compare_def equals_res_def equals_def toFloat_def go_eq_def)

definition queue_of :: "string \<Rightarrow> string \<Rightarrow> string" where
  "queue_of severity category =
     (if severity = ''urgent'' then ''pager-duty''
      else if category = ''billing'' then ''finance-ops''
      else if category \<in> {''bug'', ''defect'', ''crash''} then ''engineering''
      else ''general-support'')"

definition queued :: "string \<Rightarrow> outcome \<Rightarrow> bool" where
  "queued q r \<longleftrightarrow> (\<exists>result. r = Ok result \<and> map_of (wr_Output result) ''queue'' = Some (GStr q))"

abbreviation (input) ticket_from :: "string \<Rightarrow> (versions, memory_store) runner \<Rightarrow> versions host \<Rightarrow> int \<Rightarrow> ctx \<Rightarrow> string list \<Rightarrow> meta_rt \<Rightarrow> outcome" where
  "ticket_from sid sub h n c t rt \<equiv>
     fst (run_loop sub h meta_engine ticket_flow ''ticket-routing.triage'' 0 n \<lparr>cur_step = sid, cur_ctx = c, cur_done = [], cur_trace = t\<rparr> rt)"

lemma ticket_ends:
  assumes "n \<le> 100"
  shows "queued ''pager-duty'' (ticket_from ''route_pager'' sub h n c t rt)" "queued ''finance-ops'' (ticket_from ''route_finance'' sub h n c t rt)"
    "queued ''engineering'' (ticket_from ''route_engineering'' sub h n c t rt)" "queued ''general-support'' (ticket_from ''route_general'' sub h n c t rt)"
proof -
  show "queued ''pager-duty'' (ticket_from ''route_pager'' sub h n c t rt)"
    by (rule go_output [OF meta_steps(4), where out = "[(''paged'', GBool True), (''queue'', GStr ''pager-duty'')]"])
      (use assms in \<open>simp_all add: set_action_def go_end queued_def\<close>)
  show "queued ''finance-ops'' (ticket_from ''route_finance'' sub h n c t rt)"
    by (rule go_output [OF meta_steps(5), where out = "[(''queue'', GStr ''finance-ops'')]"])
      (use assms in \<open>simp_all add: set_action_def go_end queued_def\<close>)
  show "queued ''engineering'' (ticket_from ''route_engineering'' sub h n c t rt)"
    by (rule go_output [OF meta_steps(6), where out = "[(''queue'', GStr ''engineering'')]"])
      (use assms in \<open>simp_all add: set_action_def go_end queued_def\<close>)
  show "queued ''general-support'' (ticket_from ''route_general'' sub h n c t rt)"
    by (rule go_output [OF meta_steps(7), where out = "[(''queue'', GStr ''general-support'')]"])
      (use assms in \<open>simp_all add: set_action_def go_end queued_def\<close>)
qed

text \<open>A binary edge: the step's check holds and the run goes on, or it goes to the fallback.\<close>

lemma ticket_edge:
  assumes "wf_Steps (ticket_flow :: versions workflow) sid = Some (LeafStep (plain_leaf sid (require_action fld op want) [] pol yes))" and "sid \<noteq> []" and "n \<le> 99"
    and "compare (ctx_get c fld) op want = Ok b" and "pol \<noteq> []" and "no \<noteq> []"
    and "eng_policies meta_engine pol = Some \<lparr>pol_PolicyID = pid, pol_FallbackStepRef = no\<rparr>"
    and "\<And>t rt. b \<Longrightarrow> P (ticket_from yes sub h (n + 1) c t rt)"
    and "\<And>c' t rt. \<not> b \<Longrightarrow> (\<forall>k. k \<noteq> ''cee.failure_reason'' \<longrightarrow> k \<noteq> ''cee.failed_step'' \<longrightarrow> map_of c' k = map_of c k) \<Longrightarrow>
      P (ticket_from no sub h (n + 1) c' t rt)"
  shows "P (ticket_from sid sub h n c t rt)"
proof (cases b)
  case True
  have act: "require_action fld op want c w = (Output [], w)" for w :: versions
    using assms(4) True by (simp add: require_passes)
  show ?thesis
    by (rule go_output [where P = P, OF assms(1,2) _ act]) (use assms(3,8) True in simp_all)
next
  case False
  define msg where "msg = requirement_not_met fld (ctx_get c fld) op want"
  have act: "require_action fld op want c w = (Fails msg, w)" for w :: versions
    using assms(4) False by (simp add: require_stops msg_def)
  show ?thesis
    by (rule go_fallback [where P = P, OF assms(1,2) _ act assms(5,7,6)])
      (use assms(3,9) False in \<open>simp_all add: diverted_lookup del: gmerge.simps map_of_gmerge\<close>)
qed

lemma ticket_run:
  "queued (queue_of severity category) (fst (Run h meta_engine ''ticket-routing.triage'' (ticket tid severity category) rt))"
proof (rule Run_from [OF meta_engine_parts(7)])
  fix sub
  let ?q = "queue_of severity category"
  let ?like = "\<lambda>c. ctx_get c ''category'' = GStr category"
  have bug: "queued ?q (ticket_from ''check_bug'' sub h 2 c t rt)" if "?like c" "severity \<noteq> ''urgent''" "category \<noteq> ''billing''" for c t rt
    by (rule ticket_edge [OF meta_steps(3), where b = "category \<in> {''bug'', ''defect'', ''crash''}" and no = "''route_general''" and pid = "''not_bug''"],
        simp, simp, unfold that(1), rule is_bug)
      (use that(2,3) ticket_ends in \<open>simp_all add: queue_of_def\<close>)
  have billing: "queued ?q (ticket_from ''check_billing'' sub h 1 c t rt)" if "?like c" "severity \<noteq> ''urgent''" for c t rt
    by (rule ticket_edge [OF meta_steps(2), where b = "category = ''billing''" and no = "''check_bug''" and pid = "''not_billing''"],
        simp, simp, unfold that(1), rule equals_text)
      (use that ticket_ends bug in \<open>simp_all add: queue_of_def ctx_get_def\<close>)
  have severity: "ctx_get (ticket tid severity category) ''severity'' = GStr severity" "?like (ticket tid severity category)"
    by (simp_all add: ticket_def ctx_get_def)
  show "queued ?q (ticket_from (wf_EntryStepID ticket_flow) sub h 0 (ticket tid severity category) [] rt)"
    unfolding meta_engine_parts(10)
    by (rule ticket_edge [OF meta_steps(1), where b = "severity = ''urgent''" and no = "''check_billing''" and pid = "''not_urgent''"],
        simp, simp, unfold severity(1), rule equals_text)
      (use severity(2) ticket_ends billing in \<open>simp_all add: queue_of_def ctx_get_def\<close>)
qed simp

text \<open>A ticket reaches the queue of the first rule that fits it, in the order in which the edges ask.\<close>

theorem tickets_reach_their_queue:
  assumes "meta_files read_file dec" and "meta_buildRuntime read_file dec = Ok (router, e)"
  shows "\<exists>result. fst (Run h e ''ticket-routing.triage'' (ticket tid severity category) rt) = Ok result \<and>
    map_of (wr_Output result) ''queue'' = Some (GStr (queue_of severity category))"
proof -
  have "e = meta_engine" using meta_runtime [OF assms(1)] assms(2) by auto
  then show ?thesis using ticket_run [of severity category h tid rt] by (simp add: queued_def)
qed

definition literal_file :: "string \<Rightarrow> string + manifest_file" where
  "literal_file text =
     (if text = ''t'' then Inr ticket_manifest else if text = ''w'' then Inr window_manifest
      else if text = ''s'' then Inr sync_manifest else Inl [])"

definition literal_disk :: "string \<Rightarrow> string + string" where
  "literal_disk path =
     (if path = ''examples/manifests/ticket-routing.json'' then Inr ''t''
      else if path = ''examples/manifests/change-window.json'' then Inr ''w''
      else if path = ''examples/manifests/record-sync.json'' then Inr ''s'' else Inl [])"

lemma literal_files: "meta_files literal_disk literal_file"
  by (simp add: meta_files_def literal_disk_def literal_file_def)

definition meta_start :: meta_rt where
  "meta_start = \<lparr>rt_world = targetVersions, rt_store = NewMemoryStore, rt_log = []\<rparr>"

definition quiet_host :: "versions host" where
  "quiet_host = in_order_host (\<lambda>n w. (Inr (replicate n 0), w))"

lemma tickets_reach_their_queue_witness:
  "\<exists>result. fst (Run quiet_host meta_engine ''ticket-routing.triage'' (ticket ''T-3'' ''normal'' ''crash'') meta_start) = Ok result \<and>
    map_of (wr_Output result) ''queue'' = Some (GStr ''engineering'')"
proof -
  obtain router where b: "meta_buildRuntime literal_disk literal_file = Ok (router, meta_engine)"
    using meta_runtime [OF literal_files] by blast
  have "queue_of ''normal'' ''crash'' = ''engineering''" by (simp add: queue_of_def)
  then show ?thesis
    using tickets_reach_their_queue [OF literal_files b, of quiet_host "''T-3''" "''normal''" "''crash''" meta_start] by simp
qed

section \<open>Records\<close>

lemma checked_target:
  "check_target_unchanged c w =
     ((case map_of w (ctx_str c ''record_id'') of
         None \<Rightarrow> (False, ''target has no row '' @ quoted (ctx_str c ''record_id''), None)
       | Some v \<Rightarrow>
           if f64_eq v (ctx_float c ''target_version_seen'') then (True, [], None)
           else (False, ''target row '' @ quoted (ctx_str c ''record_id'') @ '' moved from '' @
             fmt_v (GFloat (ctx_float c ''target_version_seen'')) @ '' to '' @ fmt_v (GFloat v), None)), w)"
  by (simp add: check_target_unchanged_def Let_def split: option.split)

text \<open>Whether the caller has seen the version the target is at.\<close>

definition up_to_date :: "versions \<Rightarrow> string \<Rightarrow> rat \<Rightarrow> bool" where
  "up_to_date w rid seen \<longleftrightarrow> (\<exists>v. map_of w rid = Some v \<and> f64_eq v (Fin seen))"

definition pushed :: "ctx \<Rightarrow> versions \<Rightarrow> meta_rt \<Rightarrow> outcome \<times> meta_rt \<Rightarrow> bool" where
  "pushed written w rt r \<longleftrightarrow>
     (\<exists>result. r = (Ok result, rt\<lparr>rt_world := w\<rparr>) \<and> (\<forall>k v. map_of written k = Some v \<longrightarrow> map_of (wr_Output result) k = Some v))"

abbreviation (input) sync_from :: "string \<Rightarrow> (versions, memory_store) runner \<Rightarrow> versions host \<Rightarrow> int \<Rightarrow> ctx \<Rightarrow> string list \<Rightarrow> meta_rt \<Rightarrow>
    outcome \<times> meta_rt" where
  "sync_from sid sub h n c t rt \<equiv>
     run_loop sub h meta_engine sync_flow ''record-sync.push'' 0 n \<lparr>cur_step = sid, cur_ctx = c, cur_done = [], cur_trace = t\<rparr> rt"

lemma sync_ends:
  assumes "n \<le> 100"
  shows "pushed rejected_fields (rt_world rt) rt (sync_from ''record_rejected'' sub h n c t rt)"
    and "pushed conflict_fields (rt_world rt) rt (sync_from ''record_conflict'' sub h n c t rt)"
    and "pushed [(''synced'', GBool True)] (rt_world rt) rt (sync_from ''record_written'' sub h n c t rt)"
  using assms by (simp_all add: at_output [OF meta_steps(14) _ _ _ set_action_def] at_output [OF meta_steps(15) _ _ _ set_action_def]
      at_output [OF meta_steps(13) _ _ _ set_action_def] walk_end pushed_def rejected_fields_def conflict_fields_def)

lemma sync_write:
  assumes "n \<le> 99" and "ctx_str c ''record_id'' = rid" and "ctx_float c ''target_version_seen'' = Fin seen"
  shows "pushed (if up_to_date (rt_world rt) rid seen then [(''synced'', GBool True)] else conflict_fields)
      (if up_to_date (rt_world rt) rid seen then gput rid (f64_add (Fin seen) (Fin 1)) (rt_world rt) else rt_world rt) rt
      (sync_from ''write'' sub h n c t rt)"
proof (cases "up_to_date (rt_world rt) rid seen")
  case True
  then obtain v where v: "map_of (rt_world rt) rid = Some v" "f64_eq v (Fin seen)" by (auto simp: up_to_date_def)
  then have "v = Fin seen" by (simp add: f64_eq_iff)
  then have act: "write_to_target c (rt_world rt) =
      (Output [(''written_version'', GFloat (f64_add (Fin seen) (Fin 1)))], gput rid (f64_add (Fin seen) (Fin 1)) (rt_world rt))"
    using v assms(2) by (simp add: write_to_target_def Let_def)
  have probe: "check_target_unchanged c (rt_world rt) = ((True, [], None), rt_world rt)"
    using v assms(2,3) by (simp add: checked_target)
  have "sync_from ''write'' sub h n c t rt = sync_from ''record_written'' sub h (n + 1)
      (gmerge c [(''written_version'', GFloat (f64_add (Fin seen) (Fin 1)))]) (t @ [''write''])
      (rt\<lparr>rt_world := gput rid (f64_add (Fin seen) (Fin 1)) (rt_world rt)\<rparr>)"
    by (rule at_healthy [where sb = meta_sandbox and probe = check_target_unchanged and c = c and rt = rt and w = "rt_world rt" and
        mode = "[]" and act = write_to_target, OF meta_steps(12) _ _ _ _ _ _ probe act]) (use assms(1) in simp_all)
  then show ?thesis
    using True sync_ends(3) [of "n + 1" "rt\<lparr>rt_world := gput rid (f64_add (Fin seen) (Fin 1)) (rt_world rt)\<rparr>"] assms(1)
    by (simp add: pushed_def)
next
  case False
  obtain mode where mode: "check_target_unchanged c (rt_world rt) = ((False, mode, None), rt_world rt)" "mode \<noteq> []"
    using False assms(2,3) by (cases "map_of (rt_world rt) rid") (auto simp: checked_target up_to_date_def)
  have "sync_from ''write'' sub h n c t rt = sync_from ''record_conflict'' sub h (n + 1)
      (gmerge c [(FailureReasonKey, GStr mode), (FailedStepKey, GStr ''write'')]) (t @ [''write'']) (rt\<lparr>rt_world := rt_world rt\<rparr>)"
    by (rule at_refused [where sb = meta_sandbox and probe = check_target_unchanged and c = c and rt = rt and w = "rt_world rt" and
        mode = mode and pid = "''hold_on_conflict''", OF meta_steps(12) _ _ _ _ _ _ mode])
      (use assms(1) in simp_all)
  then show ?thesis using False sync_ends(2) [of "n + 1" rt] assms(1) by (simp del: gmerge.simps)
qed

text \<open>
  C36. A push is a compare-and-set: a record is written, its version raised by one and reported as synced exactly when it has an
  identifier, the target has its row, and the row is at the version the caller saw; otherwise nothing of the target, the
  store or the log changes, and the run says which check refused it.
\<close>

theorem only_clean_records_are_written:
  assumes "meta_files read_file dec" and "meta_buildRuntime read_file dec = Ok (router, e)"
    and "clean \<longleftrightarrow> rid \<noteq> [] \<and> (\<exists>v. map_of (rt_world rt) rid = Some v \<and> f64_eq v (Fin seen))"
  shows "\<exists>result. Run h e ''record-sync.push'' (sync_record rid seen) rt =
      (Ok result, if clean then rt\<lparr>rt_world := gput rid (f64_add (Fin seen) (Fin 1)) (rt_world rt)\<rparr> else rt) \<and>
    map_of (wr_Output result) ''synced'' = Some (GBool clean) \<and>
    (\<not> clean \<longrightarrow> map_of (wr_Output result) ''outcome'' =
      Some (GStr (if rid = [] then ''rejected: no record_id'' else ''held: the pre-write check refused'')))"
proof -
  have e: "e = meta_engine" using meta_runtime [OF assms(1)] assms(2) by auto
  let ?c = "sync_record rid seen"
  have got: "ctx_get ?c ''record_id'' = GStr rid" "ctx_str ?c ''record_id'' = rid" "ctx_float ?c ''target_version_seen'' = Fin seen"
    by (simp_all add: sync_record_def ctx_get_def ctx_str_def ctx_float_def)
  have start: "Run h meta_engine ''record-sync.push'' ?c rt =
      sync_from ''validate'' (\<lambda>ref c' rt'. runFrom h meta_engine 1 ref [] c' rt') h 0 ?c [] rt"
    by (simp add: Run_flow)
  let ?fields = "if clean then [(''synced'', GBool True)] else if rid = [] then rejected_fields else conflict_fields"
  let ?w = "if clean then gput rid (f64_add (Fin seen) (Fin 1)) (rt_world rt) else rt_world rt"
  have "pushed ?fields ?w rt (Run h meta_engine ''record-sync.push'' ?c rt)"
  proof (cases "rid = []")
    case True
    define msg where "msg = requirement_not_met ''record_id'' (ctx_get ?c ''record_id'') ''neq'' (GStr [])"
    have act: "require_action ''record_id'' ''neq'' (GStr []) ?c (rt_world rt) = (Fails msg, rt_world rt)"
      unfolding msg_def by (rule require_stops, unfold got(1)) (simp add: equals_text True)
    have "Run h meta_engine ''record-sync.push'' ?c rt =
      sync_from ''record_rejected'' (\<lambda>ref c' rt'. runFrom h meta_engine 1 ref [] c' rt') h (0 + 1)
        (gmerge ?c [(FailureReasonKey, GStr msg), (FailedStepKey, GStr ''validate'')]) ([] @ [''validate'']) (rt\<lparr>rt_world := rt_world rt\<rparr>)"
      unfolding start by (rule at_fallback [OF meta_steps(11) _ _ _ act, where pid = "''reject_invalid''"]) simp_all
    then show ?thesis using True assms(3) sync_ends(1) [of "0 + 1" rt] by (simp del: gmerge.simps)
  next
    case False
    have act: "require_action ''record_id'' ''neq'' (GStr []) ?c (rt_world rt) = (Output [], rt_world rt)"
      by (rule require_passes) (simp add: got(1) equals_text False)
    have "Run h meta_engine ''record-sync.push'' ?c rt =
      sync_from ''write'' (\<lambda>ref c' rt'. runFrom h meta_engine 1 ref [] c' rt') h (0 + 1) (gmerge ?c []) ([] @ [''validate''])
        (rt\<lparr>rt_world := rt_world rt\<rparr>)"
      unfolding start by (rule at_output [OF meta_steps(11) _ _ _ act]) simp_all
    moreover have "clean \<longleftrightarrow> up_to_date (rt_world rt) rid seen" using assms(3) False by (simp add: up_to_date_def)
    ultimately show ?thesis
      using False sync_write [of "0 + 1" ?c rid seen rt _ h] got
      by (cases "up_to_date (rt_world rt) rid seen") (simp_all del: f64_add.simps)
  qed
  then obtain result where run: "Run h e ''record-sync.push'' ?c rt = (Ok result, rt\<lparr>rt_world := ?w\<rparr>)"
    and said: "\<And>k v. map_of ?fields k = Some v \<Longrightarrow> map_of (wr_Output result) k = Some v"
    unfolding pushed_def e by blast
  have "map_of (wr_Output result) ''synced'' = Some (GBool clean)"
    by (rule said) (simp add: rejected_fields_def conflict_fields_def)
  moreover have "\<not> clean \<Longrightarrow> map_of (wr_Output result) ''outcome'' =
      Some (GStr (if rid = [] then ''rejected: no record_id'' else ''held: the pre-write check refused''))"
    by (rule said) (simp add: rejected_fields_def conflict_fields_def)
  ultimately show ?thesis using run by (intro exI [of _ result]) simp
qed

lemma only_clean_records_are_written_witness:
  "\<exists>result. Run quiet_host meta_engine ''record-sync.push'' (sync_record ''row-1'' 7) meta_start =
      (Ok result, meta_start\<lparr>rt_world := gput ''row-1'' (f64_add (Fin 7) (Fin 1)) targetVersions\<rparr>) \<and>
    map_of (wr_Output result) ''synced'' = Some (GBool True)"
proof -
  obtain router where b: "meta_buildRuntime literal_disk literal_file = Ok (router, meta_engine)"
    using meta_runtime [OF literal_files] by blast
  have w: "rt_world meta_start = targetVersions" by (simp add: meta_start_def)
  have clean: "True \<longleftrightarrow> ''row-1'' \<noteq> [] \<and> (\<exists>v. map_of (rt_world meta_start) ''row-1'' = Some v \<and> f64_eq v (Fin 7))"
    by (simp add: w targetVersions_def)
  show ?thesis
    using only_clean_records_are_written [OF literal_files b clean, of quiet_host] by (simp add: w)
qed

section \<open>Changes\<close>

lemma deferred_change:
  assumes "newPointer h (rt_world rt) = (Inr p, w)"
  shows "\<exists>c. Run h meta_engine ''change-window.apply'' (change_ctx False) rt =
    (Ok \<lparr>wr_Output = c, wr_StatePointer = p, wr_Trace = [''check_window'', ''wait_for_window'']\<rparr>,
     rt\<lparr>rt_world := w, rt_store := gput p (held_at (window_flow :: versions workflow) p ''wait_for_window'' window_reason c [''check_window'', ''wait_for_window''])
       (rt_store rt)\<rparr>) \<and> map_of c ''applied'' = None"
proof -
  let ?c = "change_ctx False"
  define msg where "msg = requirement_not_met ''in_maintenance_window'' (ctx_get ?c ''in_maintenance_window'') ''eq'' (GBool True)"
  define c where "c = gmerge ?c [(FailureReasonKey, GStr msg), (FailedStepKey, GStr ''check_window'')]"
  have shut: "ctx_get ?c ''in_maintenance_window'' = GBool False" by (simp add: change_ctx_def ctx_get_def)
  have act: "require_action ''in_maintenance_window'' ''eq'' (GBool True) ?c (rt_world rt) = (Fails msg, rt_world rt)"
    unfolding msg_def by (rule require_stops) (simp add: shut equals_true)
  let ?sub = "\<lambda>ref c' rt'. runFrom h meta_engine 1 ref [] c' rt'"
  have "Run h meta_engine ''change-window.apply'' ?c rt = run_loop ?sub h meta_engine window_flow ''change-window.apply'' 0 0
      \<lparr>cur_step = ''check_window'', cur_ctx = ?c, cur_done = [], cur_trace = []\<rparr> rt"
    by (simp add: Run_flow)
  also have "\<dots> = run_loop ?sub h meta_engine window_flow ''change-window.apply'' 0 (0 + 1)
      \<lparr>cur_step = ''wait_for_window'', cur_ctx = c, cur_done = [], cur_trace = [] @ [''check_window'']\<rparr> (rt\<lparr>rt_world := rt_world rt\<rparr>)"
    unfolding c_def by (rule at_fallback [OF meta_steps(8) _ _ _ act, where pid = "''defer_to_window''"]) simp_all
  also have "\<dots> = (Ok \<lparr>wr_Output = c, wr_StatePointer = p, wr_Trace = ([] @ [''check_window'']) @ [''wait_for_window'']\<rparr>,
      (rt\<lparr>rt_world := rt_world rt\<rparr>)\<lparr>rt_world := w, rt_store := gput p (held_at (window_flow :: versions workflow) p ''wait_for_window'' window_reason c
        (([] @ [''check_window'']) @ [''wait_for_window''])) (rt_store (rt\<lparr>rt_world := rt_world rt\<rparr>))\<rparr>)"
    by (rule at_suspend [OF meta_steps(9) _ _ _ _ refl]) (use assms in simp_all)
  finally show ?thesis
    by (intro exI [of _ c]) (simp add: c_def change_ctx_def FailureReasonKey_def FailedStepKey_def del: gmerge.simps)
qed

text \<open>
  A deferred change is applied by whatever resumes it: the run goes on at \<open>apply\<close>, not at the check, so a resolution
  that says the window is still closed applies it too.
\<close>

lemma deferred_changes_ignore_the_window:
  assumes "map_of (rt_store rt) p = Some (held_at (window_flow :: versions workflow) p ''wait_for_window'' window_reason c t)"
  shows "\<exists>out. Resume h meta_engine p [(''in_maintenance_window'', GBool False)] rt =
      (Returns (\<lparr>wr_Output = out, wr_StatePointer = [], wr_Trace = t @ [''apply'']\<rparr>, None), rt\<lparr>rt_store := gdel p (rt_store rt)\<rparr>) \<and>
    map_of out ''applied'' = Some (GBool True) \<and> map_of out ''in_maintenance_window'' = Some (GBool False)"
proof -
  let ?s = "held_at (window_flow :: versions workflow) p ''wait_for_window'' window_reason c t" and ?r = "[(''in_maintenance_window'', GBool False)]"
  have check: "check_resume meta_engine MemoryStore p [] rt =
      (Inr (plain_leaf ''wait_for_window'' (\<lambda>c w. (Suspends window_reason [], w)) [] [] ''apply''), rt)"
    by (simp add: check_resume_def memory_defs assms authorize_def held_at_def meta_steps)
  have claim: "store_Consume MemoryStore p (rt_store rt) = (Inr ?s, gdel p (rt_store rt))"
    by (simp add: memory_defs assms)
  show ?thesis
    by (simp add: Resume_def ResumeAs_def check claim continue_claimed_def plain_leaf_def)
      (simp add: held_at_def runFrom.simps [of h _ 0] start_cursor_def at_output [OF meta_steps(10) _ _ _ set_action_def] walk_end
        memory_defs resume_ctx_def)
qed

end
