(* ===== verification/CryptoWatch.thy ===== *)
theory CryptoWatch
  imports NetWatch Floats HttpClient Walks
begin

text \<open>
  Market surveillance (\<open>examples/crypto_surveillance\<close>): quotes are read from a price service (\<open>feed.go\<close>) and screened
  against fixed thresholds by the workflow of \<open>manifests/crypto-surveillance.json\<close> (\<open>main.go\<close>). The service, what the JSON
  decoder makes of its answer, and the clock are parameters; an instant is a number of nanoseconds, and a quote's time one
  that \<open>time.Unix\<close> represents without wrapping.
\<close>

section \<open>The feed\<close>

record market_quote =
  mq_Asset :: string
  mq_USD :: float64
  mq_ChangePct24 :: float64
  mq_Volume24 :: float64
  mq_QuotedAt :: int

record raw_quote =
  rq_USD :: float64
  rq_ChangePct24 :: float64
  rq_Volume24 :: float64
  rq_UpdatedAt :: int

record market_response =
  mr_StatusCode :: int
  mr_Status :: string
  mr_Body :: string

record 'w feed =
  feed_Endpoint :: string
  feed_Client :: "string \<Rightarrow> 'w \<Rightarrow> (string + market_response) \<times> 'w"

definition defaultEndpoint :: string where
  "defaultEndpoint = ''https://api.coingecko.com/api/v3/simple/price''"

definition NewFeed :: "(string \<Rightarrow> 'w \<Rightarrow> (string + market_response) \<times> 'w) \<Rightarrow> 'w feed" where
  "NewFeed default_client = \<lparr>feed_Endpoint = defaultEndpoint, feed_Client = default_client\<rparr>"

text \<open>\<open>url.Values.Encode\<close>: the parameters in the order of their names, escaped.\<close>

definition upper_digit :: "nat \<Rightarrow> char" where
  "upper_digit n = ''0123456789ABCDEF'' ! n"

definition escape_byte :: "char \<Rightarrow> string" where
  "escape_byte c =
     (let n = of_char c :: nat in
      if 48 \<le> n \<and> n \<le> 57 \<or> 65 \<le> n \<and> n \<le> 90 \<or> 97 \<le> n \<and> n \<le> 122 \<or> c \<in> {CHR ''-'', CHR ''_'', CHR ''.'', CHR ''~''} then [c]
      else if c = CHR '' '' then ''+''
      else [CHR ''%'', upper_digit (n div 16), upper_digit (n mod 16)])"

definition QueryEscape :: "string \<Rightarrow> string" where
  "QueryEscape s = concat (map escape_byte s)"

definition quote_query :: "string list \<Rightarrow> string" where
  "quote_query assets =
     ''ids='' @ QueryEscape (str_join assets '','') @
     ''&include_24hr_change=true&include_24hr_vol=true&include_last_updated_at=true&vs_currencies=usd''"

definition quote_of :: "string \<Rightarrow> raw_quote \<Rightarrow> market_quote" where
  "quote_of asset v =
     \<lparr>mq_Asset = asset, mq_USD = rq_USD v, mq_ChangePct24 = rq_ChangePct24 v, mq_Volume24 = rq_Volume24 v,
      mq_QuotedAt = rq_UpdatedAt v * 1000000000\<rparr>"

definition Quotes :: "(string \<Rightarrow> string option) \<Rightarrow> (string \<Rightarrow> string + raw_quote gomap) \<Rightarrow> 'w feed \<Rightarrow> string list \<Rightarrow> 'w \<Rightarrow>
    (string + market_quote list) \<times> 'w" where
  "Quotes url_error dec f assets w =
     (let url = feed_Endpoint f @ ''?'' @ quote_query assets in
      case url_error url of
        Some err \<Rightarrow> (Inl (''building the quote request: '' @ err), w)
      | None \<Rightarrow>
          (case feed_Client f url w of
             (Inl err, w1) \<Rightarrow> (Inl (''reading the market: '' @ err), w1)
           | (Inr resp, w1) \<Rightarrow>
               (if mr_StatusCode resp \<noteq> 200 then Inl (''market data provider returned '' @ mr_Status resp)
                else case dec (mr_Body resp) of
                  Inl err \<Rightarrow> Inl (''decoding the quote response: '' @ err)
                | Inr raw \<Rightarrow> Inr (List.map_filter (\<lambda>asset. map_option (quote_of asset) (map_of raw asset)) assets), w1)))"

section \<open>Thresholds\<close>

definition materialMovePct :: float64 where "materialMovePct = Fin 2"

definition pegTolerancePct :: float64 where "pegTolerancePct = Fin (1 / 2)"

definition liquidityFloor :: float64 where "liquidityFloor = Fin 250000000"

definition maxQuoteAge :: nat where "maxQuoteAge = 15 * 60 * 1000000000"

definition stablecoins :: "string set" where
  "stablecoins = {''tether'', ''usd-coin'', ''dai''}"

definition watchlist :: "string list" where
  "watchlist = [''bitcoin'', ''ethereum'', ''solana'', ''dogecoin'', ''tether'', ''usd-coin'', ''chainlink'', ''litecoin'']"

fun f64_abs :: "float64 \<Rightarrow> float64" where
  "f64_abs NaN = NaN"
| "f64_abs (Inf _) = Inf False"
| "f64_abs (Fin x) = Fin \<bar>x\<bar>"

text \<open>\<open>Duration.Seconds\<close> and \<open>Time.Sub\<close>, which saturates.\<close>

definition Seconds :: "int \<Rightarrow> float64" where
  "Seconds d =
     (let s = sgn d * (\<bar>d\<bar> div 1000000000); n = d - s * 1000000000 in
      f64_add (f64_of_int s) (f64_div (f64_of_int n) (Fin 1000000000)))"

definition time_Sub :: "int \<Rightarrow> int \<Rightarrow> int" where
  "time_Sub t u = max (- (2 ^ 63)) (min (2 ^ 63 - 1) (t - u))"

section \<open>The probe and the actions\<close>

definition million :: float64 where "million = Fin 1000000"

definition assess_signal_quality :: "'w probe" where
  "assess_signal_quality c w =
     (let age = ctx_float c ''quote_age_seconds''; volume = ctx_float c ''volume_24h'' in
      (if f64_lt (Seconds (int maxQuoteAge)) age then
         (False, ''quote is '' @ fmt_f0 (f64_div age (Fin 60)) @ '' minutes old; the market has moved on'', None)
       else if f64_lt volume liquidityFloor then
         (False, ''24h volume is $'' @ fmt_f0 (f64_div volume million) @ ''M, below the $'' @ fmt_f0 (f64_div liquidityFloor million) @
            ''M floor '' @ em_dash @ '' a percentage move on a book this thin is noise'', None)
       else (True, [], None), w))"

definition direction_text :: "float64 \<Rightarrow> string" where
  "direction_text change = (if f64_lt change (Fin 0) then ''down'' else ''up'')"

definition peg_deviation :: "float64 \<Rightarrow> float64" where
  "peg_deviation price = f64_mul (f64_abs (f64_sub price (Fin 1))) (Fin 100)"

definition crypto_enrich :: "'w action" where
  "crypto_enrich c w =
     (let price = ctx_float c ''price_usd''; change = ctx_float c ''change_pct_24h'' in
      (Output [(''abs_change_pct'', GFloat (f64_abs change)), (''direction'', GStr (direction_text change)),
               (''peg_deviation_pct'', GFloat (peg_deviation price))], w))"

definition found :: "string \<Rightarrow> string \<Rightarrow> action_outcome" where
  "found finding detail = Output [(''detail'', GStr detail), (''finding'', GStr finding)]"

definition crypto_assess :: "'w action" where
  "crypto_assess c w =
     (if ctx_str c ''asset'' \<in> stablecoins then
        (let dev = ctx_float c ''peg_deviation_pct'' in
         if f64_le pegTolerancePct dev then found ''peg_deviation'' (fmt_fixed 2 dev @ ''% away from its 1.00 peg'')
         else found ''none'' (''holding peg ('' @ fmt_fixed 2 dev @ ''% off)''))
      else
        (let move = ctx_float c ''abs_change_pct'' in
         if f64_le materialMovePct move then
           found ''material_move'' (fmt_fixed 2 move @ ''% '' @ ctx_str c ''direction'' @ '' over 24h'')
         else found ''none'' (fmt_fixed 2 move @ ''% over 24h'')), w)"

definition raise_alert :: "'w action" where
  "raise_alert c w = (Output [(''raised'', GStr (fmt_v (ctx_get c ''finding'') @ '': '' @ fmt_v (ctx_get c ''detail'')))], w)"

definition crypto_hooks :: "'w hooks" where
  "crypto_hooks =
     [''crypto.enrich'' \<mapsto> crypto_enrich, ''crypto.assess'' \<mapsto> crypto_assess, ''crypto.raise_alert'' \<mapsto> raise_alert]"

section \<open>The manifest and the runtime\<close>

definition heldDisposition :: string where
  "heldDisposition = ''not flagged: the data is not good enough to act on''"

definition crypto_manifest :: manifest_file where
  "crypto_manifest =
     \<lparr>file_Name = ''crypto-surveillance'',
      file_Intents =
        [\<lparr>ispec_NodeID = ''crypto-surveillance.screen_market_data'',
          ispec_Examples = [''screen this market data point'', ''check this asset for anomalies'', ''surveillance sweep over quoted prices''],
          ispec_EntryWorkflowRef = ''crypto-surveillance.screen'', ispec_DeprecatedEntryStepRef = []\<rparr>],
      file_Policies =
        [\<lparr>pspec_PolicyID = ''nothing_material'', pspec_FallbackStepRef = ''note_quiet''\<rparr>,
         \<lparr>pspec_PolicyID = ''signal_quality_gate'', pspec_FallbackStepRef = ''hold_low_quality''\<rparr>],
      file_Workflows =
        [\<lparr>wspec_WorkflowID = ''crypto-surveillance.screen'', wspec_EntryStepID = ''enrich'',
          wspec_Steps =
            [(json_leaf ''enrich'' ''crypto.enrich'' []) \<lparr>sspec_OnSuccess := ''assess''\<rparr>,
             (json_leaf ''assess'' ''crypto.assess'' []) \<lparr>sspec_OnSuccess := ''gate''\<rparr>,
             (json_leaf ''gate'' ''std.require''
                [(''field'', GStr ''finding''), (''op'', GStr ''neq''), (''value'', GStr ''none'')])
               \<lparr>sspec_CircuitBreakerPolicyRef := ''nothing_material'', sspec_OnSuccess := ''raise''\<rparr>,
             (json_leaf ''raise'' ''crypto.raise_alert'' [])
               \<lparr>sspec_SandboxProbeRef := ''crypto.assess_signal_quality'', sspec_CircuitBreakerPolicyRef := ''signal_quality_gate'',
                sspec_OnSuccess := ''record''\<rparr>,
             json_leaf ''record'' ''std.set'' [(''fields'', GObj [(''disposition'', GStr ''flagged for review'')])],
             json_leaf ''note_quiet'' ''std.set'' [(''fields'', GObj [(''disposition'', GStr ''nothing material'')])],
             json_leaf ''hold_low_quality'' ''std.set'' [(''fields'', GObj [(''disposition'', GStr heldDisposition)])]]\<rparr>]\<rparr>"

definition crypto_sandbox :: "'w sandbox" where
  "crypto_sandbox = RegisterProbe NewSandbox ''crypto.assess_signal_quality'' assess_signal_quality"

definition crypto_buildRuntime :: "(string \<Rightarrow> string + string) \<Rightarrow> (string \<Rightarrow> string + manifest_file) \<Rightarrow>
    (string, 'w router \<times> ('w, 's) engine) res" where
  "crypto_buildRuntime read_file dec =
     example_runtime ''examples/manifests/crypto-surveillance.json'' read_file dec crypto_hooks (round64 (34 / 100))
       (NewEngine (Some (sandbox_Probe crypto_sandbox)))"

section \<open>Screening\<close>

definition quote_context :: "market_quote \<Rightarrow> int \<Rightarrow> ctx" where
  "quote_context q now =
     [(''asset'', GStr (mq_Asset q)), (''change_pct_24h'', GFloat (mq_ChangePct24 q)), (''price_usd'', GFloat (mq_USD q)),
      (''quote_age_seconds'', GFloat (Seconds (time_Sub now (mq_QuotedAt q)))), (''volume_24h'', GFloat (mq_Volume24 q))]"

definition trimPrice :: "float64 \<Rightarrow> string" where
  "trimPrice p = (if f64_le (Fin 1000) p then fmt_f0 p else if f64_le (Fin 1) p then fmt_fixed 2 p else fmt_fixed 4 p)"

definition quote_line :: "market_quote \<Rightarrow> ctx \<Rightarrow> string" where
  "quote_line q output =
     pad_right 10 (mq_Asset q) @ '' $'' @ pad_right 11 (trimPrice (mq_USD q)) @ '' '' @ fmt_v (ctx_get output ''disposition'') @
     (case map_of output ''raised'' of
        Some raised \<Rightarrow> ''  ['' @ fmt_v raised @ '']''
      | None \<Rightarrow> (case map_of output ''detail'' of Some detail \<Rightarrow> ''  ('' @ fmt_v detail @ '')'' | None \<Rightarrow> [])) @
     (if ctx_get output ''disposition'' = GStr heldDisposition then
        (case map_of output FailureReasonKey of
           Some (GStr why) \<Rightarrow> newline @ replicate 23 (CHR '' '') @ ''because: '' @ why
         | _ \<Rightarrow> [])
      else [])"

definition crypto_screen :: "'w host \<Rightarrow> ('w, 's) engine \<Rightarrow> string \<Rightarrow> market_quote \<Rightarrow> int \<Rightarrow> ('w, 's) rt \<Rightarrow>
    (string, string) res \<times> ('w, 's) rt" where
  "crypto_screen h e entry q now rt =
     (case Run h e entry (quote_context q now) rt of
        (Err err, rt1) \<Rightarrow> (Err (error_text err), rt1)
      | (Panic p, rt1) \<Rightarrow> (Panic p, rt1)
      | (Ok result, rt1) \<Rightarrow> (Ok (quote_line q (wr_Output result)), rt1))"

fun sweep :: "(nat \<Rightarrow> 'w host) \<Rightarrow> ('w, 's) engine \<Rightarrow> string \<Rightarrow> int \<Rightarrow> nat \<Rightarrow> market_quote list \<Rightarrow> ('w, 's) rt \<Rightarrow>
    string list returned \<times> ('w, 's) rt" where
  "sweep hs e entry now i [] rt = (Returns [], rt)"
| "sweep hs e entry now i (q # qs) rt =
     (case crypto_screen (hs i) e entry q now rt of
        (Panic p, rt1) \<Rightarrow> (Panicked p, rt1)
      | (Ok line, rt1) \<Rightarrow> print_then [line] (sweep hs e entry now (Suc i) qs rt1)
      | (Err err, rt1) \<Rightarrow>
          print_then [pad_right 10 (mq_Asset q) @ '' halted: '' @ err] (sweep hs e entry now (Suc i) qs rt1))"

definition rules_line :: string where
  "rules_line =
     ''Rules: move >= '' @ fmt_fixed 1 materialMovePct @ ''% '' @ middle_dot @ '' stablecoin peg +/- '' @ fmt_fixed 1 pegTolerancePct @ ''% '' @
     middle_dot @ '' liquidity floor $'' @ fmt_f0 (f64_div liquidityFloor million) @ ''M '' @ middle_dot @ '' quotes younger than '' @
     duration_String maxQuoteAge"

text \<open>\<open>stamp\<close> is what \<open>Format\<close> makes of the instant.\<close>

definition crypto_main :: "unicode \<Rightarrow> (nat \<Rightarrow> 'w host) \<Rightarrow> (string \<Rightarrow> string + string) \<Rightarrow> (string \<Rightarrow> string + manifest_file) \<Rightarrow>
    (string \<Rightarrow> 'w \<Rightarrow> (string + market_response) \<times> 'w) \<Rightarrow> (string \<Rightarrow> string option) \<Rightarrow> (string \<Rightarrow> string + raw_quote gomap) \<Rightarrow>
    int \<Rightarrow> (int \<Rightarrow> string) \<Rightarrow> 'w \<Rightarrow> (string, string list) res" where
  "crypto_main u hs read_file dec client url_error dec_quotes now stamp w =
     (case crypto_buildRuntime read_file dec of
        Err err \<Rightarrow> Err (''setup failed: '' @ err)
      | Panic p \<Rightarrow> Panic p
      | Ok (router, e) \<Rightarrow>
          (case Match u ''crypto-surveillance'' ''surveillance sweep over quoted prices'' router w of (m, router1, w1) \<Rightarrow>
             if \<not> match_Matched m then Err ''no surveillance intent matched''
             else
               (let head = [''== crypto market surveillance =='',
                      ''Fixed thresholds over live quotes. Anomaly flagging, not investment advice.'', rules_line, []] in
                case Quotes url_error dec_quotes (NewFeed client) watchlist w1 of
                  (Inl err, w2) \<Rightarrow>
                    Ok (head @ [''market data unavailable: '' @ err,
                      ''no sweep performed '' @ em_dash @ '' the engine is only as current as its feed''])
                | (Inr quotes, w2) \<Rightarrow>
                    (case sweep hs e (match_EntryWorkflowRef m) now 0 quotes \<lparr>rt_world = w2, rt_store = NewMemoryStore, rt_log = []\<rparr> of
                       (Panicked p, _) \<Rightarrow> Panic p
                     | (Returns ls, _) \<Rightarrow>
                         Ok (head @ [''swept '' @ digits_of (length quotes) @ '' assets at '' @ stamp now, []] @ ls)))))"

section \<open>What the program decides\<close>

text \<open>What surveillance says of a quote, on every branch of its rules.\<close>

section \<open>The loaded workflow\<close>

definition crypto_flow :: "'w workflow" where
  "crypto_flow =
     \<lparr>wf_WorkflowID = ''crypto-surveillance.screen'', wf_DomainID = ''crypto-surveillance'', wf_EntryStepID = ''enrich'',
      wf_Steps =
       [''enrich'' \<mapsto> LeafStep (plain_leaf ''enrich'' crypto_enrich [] [] ''assess''),
        ''assess'' \<mapsto> LeafStep (plain_leaf ''assess'' crypto_assess [] [] ''gate''),
        ''gate'' \<mapsto> LeafStep (plain_leaf ''gate'' (require_action ''finding'' ''neq'' (GStr ''none'')) [] ''nothing_material'' ''raise''),
        ''raise'' \<mapsto> LeafStep (plain_leaf ''raise'' raise_alert ''crypto.assess_signal_quality'' ''signal_quality_gate'' ''record''),
        ''record'' \<mapsto> LeafStep (plain_leaf ''record'' (set_action [(''disposition'', GStr ''flagged for review'')]) [] [] []),
        ''note_quiet'' \<mapsto> LeafStep (plain_leaf ''note_quiet'' (set_action [(''disposition'', GStr ''nothing material'')]) [] [] []),
        ''hold_low_quality'' \<mapsto> LeafStep (plain_leaf ''hold_low_quality'' (set_action [(''disposition'', GStr heldDisposition)]) [] [] [])]\<rparr>"

definition crypto_engine :: "('w, 's) engine" where
  "crypto_engine =
     \<lparr>eng_sandbox = Some (sandbox_Probe crypto_sandbox), eng_observer = None,
      eng_workflows = [''crypto-surveillance.screen'' \<mapsto> crypto_flow],
      eng_policies = [''nothing_material'' \<mapsto> \<lparr>pol_PolicyID = ''nothing_material'', pol_FallbackStepRef = ''note_quiet''\<rparr>,
        ''signal_quality_gate'' \<mapsto> \<lparr>pol_PolicyID = ''signal_quality_gate'', pol_FallbackStepRef = ''hold_low_quality''\<rparr>],
      eng_store = None, eng_authorizer = None, eng_maxSteps = DefaultMaxSteps, eng_maxDepth = DefaultMaxDepth\<rparr>"

lemma crypto_domain:
  "Load (Inr crypto_manifest) crypto_hooks Default =
     Ok \<lparr>dom_Name = ''crypto-surveillance'',
         dom_Intents = [\<lparr>node_NodeID = ''crypto-surveillance.screen_market_data'', node_DomainID = ''crypto-surveillance'',
           node_Examples = [''screen this market data point'', ''check this asset for anomalies'', ''surveillance sweep over quoted prices''],
           node_EntryWorkflowRef = ''crypto-surveillance.screen'', node_Metadata = []\<rparr>],
         dom_Workflows = [crypto_flow\<lparr>wf_DomainID := []\<rparr>],
         dom_Policies = [\<lparr>pol_PolicyID = ''nothing_material'', pol_FallbackStepRef = ''note_quiet''\<rparr>,
           \<lparr>pol_PolicyID = ''signal_quality_gate'', pol_FallbackStepRef = ''hold_low_quality''\<rparr>]\<rparr>"
  by (simp add: literal_load crypto_manifest_def crypto_flow_def crypto_hooks_def)

lemma crypto_runtime:
  assumes "read_file ''examples/manifests/crypto-surveillance.json'' = Inr data" and "dec data = Inr crypto_manifest"
  shows "\<exists>router. crypto_buildRuntime read_file dec = Ok (router, crypto_engine)"
  by (simp add: crypto_buildRuntime_def example_runtime_def assms crypto_domain RegisterDomain_def NewRegistry_def NewEngine_def
      RegisterWorkflow_def RegisterPolicy_def claim_workflow_def crypto_engine_def crypto_flow_def Let_def)

lemma crypto_steps:
  "wf_Steps crypto_flow ''enrich'' = Some (LeafStep (plain_leaf ''enrich'' crypto_enrich [] [] ''assess''))"
  "wf_Steps crypto_flow ''assess'' = Some (LeafStep (plain_leaf ''assess'' crypto_assess [] [] ''gate''))"
  "wf_Steps crypto_flow ''gate'' = Some (LeafStep (plain_leaf ''gate''
     (require_action ''finding'' ''neq'' (GStr ''none'')) [] ''nothing_material'' ''raise''))"
  "wf_Steps crypto_flow ''raise'' = Some (LeafStep (plain_leaf ''raise'' raise_alert
     ''crypto.assess_signal_quality'' ''signal_quality_gate'' ''record''))"
  "wf_Steps crypto_flow ''record'' = Some (LeafStep (plain_leaf ''record''
     (set_action [(''disposition'', GStr ''flagged for review'')]) [] [] []))"
  "wf_Steps crypto_flow ''note_quiet'' = Some (LeafStep (plain_leaf ''note_quiet''
     (set_action [(''disposition'', GStr ''nothing material'')]) [] [] []))"
  "wf_Steps crypto_flow ''hold_low_quality'' = Some (LeafStep (plain_leaf ''hold_low_quality''
     (set_action [(''disposition'', GStr heldDisposition)]) [] [] []))"
  by (simp_all add: crypto_flow_def)

lemma crypto_engine_parts [simp]:
  "eng_sandbox crypto_engine = Some (sandbox_Probe crypto_sandbox)" "eng_maxSteps crypto_engine = 10000" "eng_maxDepth crypto_engine = 64"
  "eng_workflows crypto_engine ''crypto-surveillance.screen'' = Some crypto_flow" "wf_EntryStepID crypto_flow = ''enrich''"
  "eng_policies crypto_engine ''nothing_material'' = Some \<lparr>pol_PolicyID = ''nothing_material'', pol_FallbackStepRef = ''note_quiet''\<rparr>"
  "eng_policies crypto_engine ''signal_quality_gate'' =
     Some \<lparr>pol_PolicyID = ''signal_quality_gate'', pol_FallbackStepRef = ''hold_low_quality''\<rparr>"
  "sb_probes crypto_sandbox ''crypto.assess_signal_quality'' = Some assess_signal_quality"
  by (simp_all add: crypto_engine_def crypto_flow_def DefaultMaxSteps_def DefaultMaxDepth_def crypto_sandbox_def RegisterProbe_def)

section \<open>From each step on\<close>

definition surveyed :: "string \<Rightarrow> bool \<Rightarrow> outcome \<Rightarrow> bool" where
  "surveyed disposition raised r \<longleftrightarrow>
     (\<exists>result. r = Ok result \<and> map_of (wr_Output result) ''disposition'' = Some (GStr disposition) \<and>
        (map_of (wr_Output result) ''raised'' \<noteq> None \<longleftrightarrow> raised))"

abbreviation (input) crypto_from :: "string \<Rightarrow> ('w, 's) runner \<Rightarrow> 'w host \<Rightarrow> int \<Rightarrow> ctx \<Rightarrow> string list \<Rightarrow> ('w, 's) rt \<Rightarrow> outcome" where
  "crypto_from sid sub h n c t rt \<equiv>
     fst (run_loop sub h crypto_engine crypto_flow ''crypto-surveillance.screen'' 0 n
       \<lparr>cur_step = sid, cur_ctx = c, cur_done = [], cur_trace = t\<rparr> rt)"

lemma crypto_ends:
  assumes "n \<le> 100" and "map_of c ''raised'' = None"
  shows "surveyed ''nothing material'' False (crypto_from ''note_quiet'' sub h n c t rt)"
    and "surveyed heldDisposition False (crypto_from ''hold_low_quality'' sub h n c t rt)"
proof -
  show "surveyed ''nothing material'' False (crypto_from ''note_quiet'' sub h n c t rt)"
    by (rule go_output [OF crypto_steps(6), where out = "[(''disposition'', GStr ''nothing material'')]"])
      (use assms in \<open>simp_all add: set_action_def go_end surveyed_def\<close>)
  show "surveyed heldDisposition False (crypto_from ''hold_low_quality'' sub h n c t rt)"
    by (rule go_output [OF crypto_steps(7), where out = "[(''disposition'', GStr heldDisposition)]"])
      (use assms in \<open>simp_all add: set_action_def go_end surveyed_def\<close>)
qed

lemma crypto_flagged:
  assumes "n \<le> 100" and "map_of c ''raised'' \<noteq> None"
  shows "surveyed ''flagged for review'' True (crypto_from ''record'' sub h n c t rt)"
  by (rule go_output [OF crypto_steps(5), where out = "[(''disposition'', GStr ''flagged for review'')]"])
    (use assms in \<open>simp_all add: set_action_def go_end surveyed_def\<close>)

text \<open>When a quote is good enough to act on, and when it is out of line.\<close>

definition good_data :: "float64 \<Rightarrow> float64 \<Rightarrow> bool" where
  "good_data age volume \<longleftrightarrow> \<not> f64_lt (Seconds (int maxQuoteAge)) age \<and> \<not> f64_lt volume liquidityFloor"

definition out_of_line :: "market_quote \<Rightarrow> bool" where
  "out_of_line q \<longleftrightarrow>
     (if mq_Asset q \<in> stablecoins then f64_le pegTolerancePct (peg_deviation (mq_USD q))
      else f64_le materialMovePct (f64_abs (mq_ChangePct24 q)))"

definition survey :: "market_quote \<Rightarrow> int \<Rightarrow> string" where
  "survey q now =
     (if \<not> out_of_line q then ''nothing material''
      else if good_data (Seconds (time_Sub now (mq_QuotedAt q))) (mq_Volume24 q) then ''flagged for review''
      else heldDisposition)"

lemma signal_verdict:
  "\<exists>mode. (good_data (ctx_float c ''quote_age_seconds'') (ctx_float c ''volume_24h'') \<longrightarrow> mode = []) \<and>
    (\<not> good_data (ctx_float c ''quote_age_seconds'') (ctx_float c ''volume_24h'') \<longrightarrow> mode \<noteq> []) \<and>
    (\<forall>w :: 'w. assess_signal_quality c w =
      ((good_data (ctx_float c ''quote_age_seconds'') (ctx_float c ''volume_24h''), mode, None), w))"
  by (cases "f64_lt (Seconds (int maxQuoteAge)) (ctx_float c ''quote_age_seconds'')";
      cases "f64_lt (ctx_float c ''volume_24h'') liquidityFloor")
    (simp_all add: assess_signal_quality_def good_data_def Let_def)

lemma from_raise_alert:
  assumes "n \<le> 99" and "map_of c ''raised'' = None"
    and "ok \<longleftrightarrow> good_data (ctx_float c ''quote_age_seconds'') (ctx_float c ''volume_24h'')"
    and "d = (if ok then ''flagged for review'' else heldDisposition)"
  shows "surveyed d ok (crypto_from ''raise'' sub h n c t (rt :: ('w, 's) rt))"
proof -
  obtain mode where mode: "ok \<longrightarrow> mode = []" "\<not> ok \<longrightarrow> mode \<noteq> []" "\<And>w :: 'w. assess_signal_quality c w = ((ok, mode, None), w)"
    using signal_verdict [of c] unfolding assms(3) by blast
  show ?thesis
  proof (cases ok)
    case True
    have "surveyed ''flagged for review'' True (crypto_from ''raise'' sub h n c t rt)"
    proof (rule go_healthy [OF crypto_steps(4), where mode = mode and probe = assess_signal_quality and sb = crypto_sandbox])
      show "\<And>w :: 'w. assess_signal_quality c w = ((True, mode, None), w)" using mode(3) True by simp
      show "\<And>w :: 'w. raise_alert c w =
          (Output [(''raised'', GStr (fmt_v (ctx_get c ''finding'') @ '': '' @ fmt_v (ctx_get c ''detail'')))], w)"
        by (simp add: raise_alert_def)
    qed (use assms(1) in \<open>simp_all add: crypto_flagged\<close>)
    with True assms(4) show ?thesis by simp
  next
    case False
    have "surveyed heldDisposition False (crypto_from ''raise'' sub h n c t rt)"
    proof (rule go_refused [OF crypto_steps(4), where mode = mode and probe = assess_signal_quality and sb = crypto_sandbox
          and f = "''hold_low_quality''" and pid = "''signal_quality_gate''"])
      show "\<And>w :: 'w. assess_signal_quality c w = ((False, mode, None), w)" using mode(3) False by simp
      show "mode \<noteq> []" using mode(2) False by simp
    qed (use assms(1,2) in \<open>simp_all add: crypto_ends diverted_lookup del: gmerge.simps map_of_gmerge\<close>)
    with False assms(4) show ?thesis by simp
  qed
qed

lemma from_crypto_gate:
  assumes "n \<le> 98" and "map_of c ''raised'' = None" and "map_of c ''finding'' = Some (GStr finding)"
    and "ok \<longleftrightarrow> good_data (ctx_float c ''quote_age_seconds'') (ctx_float c ''volume_24h'')"
    and "d = (if finding = ''none'' then ''nothing material'' else if ok then ''flagged for review'' else heldDisposition)"
    and "a \<longleftrightarrow> finding \<noteq> ''none'' \<and> ok"
  shows "surveyed d a (crypto_from ''gate'' sub h n c t (rt :: ('w, 's) rt))"
proof -
  have cmp: "compare (ctx_get c ''finding'') ''neq'' (GStr ''none'') = Ok (finding \<noteq> ''none'')"
    using assms(3) by (auto simp: compare_def ctx_get_def equals_res_def equals_def toFloat_def go_eq_def)
  show ?thesis
  proof (cases "finding = ''none''")
    case True
    define msg where "msg = requirement_not_met ''finding'' (ctx_get c ''finding'') ''neq'' (GStr ''none'')"
    have act: "require_action ''finding'' ''neq'' (GStr ''none'') c w = (Fails msg, w)" for w :: 'w
      by (simp add: require_action_def cmp True msg_def)
    have "surveyed ''nothing material'' False (crypto_from ''gate'' sub h n c t rt)"
      by (rule go_fallback [OF crypto_steps(3) _ _ act, where f = "''note_quiet''" and pid = "''nothing_material''"])
        (use assms(1,2) in \<open>simp_all add: crypto_ends diverted_lookup del: gmerge.simps map_of_gmerge\<close>)
    with True assms(5,6) show ?thesis by simp
  next
    case False
    have act: "require_action ''finding'' ''neq'' (GStr ''none'') c w = (Output [], w)" for w :: 'w
      by (simp add: require_action_def cmp False)
    have "surveyed (if ok then ''flagged for review'' else heldDisposition) ok (crypto_from ''gate'' sub h n c t rt)"
    proof (rule go_output [OF crypto_steps(3) _ _ act])
      show "surveyed (if ok then ''flagged for review'' else heldDisposition) ok
        (crypto_from ''raise'' sub h (n + 1) (gmerge c []) (t @ [''gate'']) rt')" for rt'
        unfolding gmerge.simps by (rule from_raise_alert) (use assms(1,2,4) in simp_all)
    qed (use assms(1) in simp_all)
    with False assms(5,6) show ?thesis by simp
  qed
qed

lemma assessed:
  assumes "ctx_str c ''asset'' = mq_Asset q" and "ctx_float c ''peg_deviation_pct'' = peg_deviation (mq_USD q)"
    and "ctx_float c ''abs_change_pct'' = f64_abs (mq_ChangePct24 q)"
  shows "\<exists>detail finding. (finding \<noteq> ''none'' \<longleftrightarrow> out_of_line q) \<and>
    (\<forall>w :: 'w. crypto_assess c w = (Output [(''detail'', GStr detail), (''finding'', GStr finding)], w))"
  using assms by (cases "mq_Asset q \<in> stablecoins"; cases "out_of_line q")
    (simp_all add: crypto_assess_def out_of_line_def found_def Let_def)

lemma crypto_run:
  "surveyed (survey q now) (survey q now = ''flagged for review'')
    (fst (Run h crypto_engine ''crypto-surveillance.screen'' (quote_context q now) (rt :: ('w, 's) rt)))"
proof (rule Run_from [OF crypto_engine_parts(4)])
  fix sub
  let ?c0 = "quote_context q now" and ?d = "survey q now" and ?f = "survey q now = ''flagged for review''"
  let ?out = "[(''abs_change_pct'', GFloat (f64_abs (mq_ChangePct24 q))), (''direction'', GStr (direction_text (mq_ChangePct24 q))),
    (''peg_deviation_pct'', GFloat (peg_deviation (mq_USD q)))]"
  have act: "crypto_enrich ?c0 w = (Output ?out, w)" for w :: 'w
    by (simp add: crypto_enrich_def quote_context_def ctx_float_def Let_def)
  define c where "c = gmerge ?c0 ?out"
  have look: "map_of c ''raised'' = None" "ctx_str c ''asset'' = mq_Asset q" "ctx_float c ''peg_deviation_pct'' = peg_deviation (mq_USD q)"
    "ctx_float c ''abs_change_pct'' = f64_abs (mq_ChangePct24 q)"
    "ctx_float c ''quote_age_seconds'' = Seconds (time_Sub now (mq_QuotedAt q))" "ctx_float c ''volume_24h'' = mq_Volume24 q"
    by (simp_all add: c_def ctx_str_def ctx_float_def quote_context_def del: gmerge.simps)
  obtain detail finding where finding: "finding \<noteq> ''none'' \<longleftrightarrow> out_of_line q"
      "\<And>w :: 'w. crypto_assess c w = (Output [(''detail'', GStr detail), (''finding'', GStr finding)], w)"
    using assessed [OF look(2-4)] by blast
  define c1 where "c1 = gmerge c [(''detail'', GStr detail), (''finding'', GStr finding)]"
  have look1: "map_of c1 ''raised'' = None" "map_of c1 ''finding'' = Some (GStr finding)"
    "ctx_float c1 ''quote_age_seconds'' = Seconds (time_Sub now (mq_QuotedAt q))" "ctx_float c1 ''volume_24h'' = mq_Volume24 q"
    using look(1,5,6) by (simp_all add: c1_def ctx_float_def del: gmerge.simps)
  define ok where "ok \<longleftrightarrow> good_data (ctx_float c1 ''quote_age_seconds'') (ctx_float c1 ''volume_24h'')"
  have d: "?d = (if finding = ''none'' then ''nothing material'' else if ok then ''flagged for review'' else heldDisposition)"
    using finding(1) by (auto simp: survey_def ok_def look1(3,4))
  have a: "?f \<longleftrightarrow> finding \<noteq> ''none'' \<and> ok"
    unfolding d by (simp add: heldDisposition_def)
  have gate: "surveyed ?d ?f (crypto_from ''gate'' sub h 2 c1 t rt')" for t and rt' :: "('w, 's) rt"
    by (rule from_crypto_gate [OF _ look1(1,2) ok_def d a]) simp
  have assess: "surveyed ?d ?f (crypto_from ''assess'' sub h 1 c t rt')" for t and rt' :: "('w, 's) rt"
  proof (rule go_output [OF crypto_steps(2) _ _ finding(2)])
    show "surveyed ?d ?f (crypto_from ''gate'' sub h (1 + 1) (gmerge c [(''detail'', GStr detail), (''finding'', GStr finding)])
        (t @ [''assess'']) rt'')" for rt''
      using gate unfolding c1_def by simp
  qed simp_all
  show "surveyed ?d ?f (crypto_from (wf_EntryStepID crypto_flow) sub h 0 ?c0 [] rt)"
    unfolding crypto_engine_parts(5)
  proof (rule go_output [OF crypto_steps(1) _ _ act])
    show "surveyed ?d ?f (crypto_from ''assess'' sub h (0 + 1) (gmerge ?c0 ?out) ([] @ [''enrich'']) rt')" for rt'
      using assess unfolding c_def by simp
  qed simp_all
qed simp

section \<open>Screening a quote\<close>

text \<open>
  A quote is screened to its end: it is flagged, and an alert raised, exactly when it is out of line by the rule of its
  kind and recent and liquid enough; out of line on bad data it is held, and anything else is noted as quiet.
\<close>

theorem quotes_are_screened:
  fixes rt :: "('w, 's) rt"
  assumes "read_file ''examples/manifests/crypto-surveillance.json'' = Inr data" and "dec data = Inr crypto_manifest"
    and "crypto_buildRuntime read_file dec = Ok (router, e)"
  shows "\<exists>output. fst (crypto_screen h e ''crypto-surveillance.screen'' q now rt) = Ok (quote_line q output) \<and>
    map_of output ''disposition'' = Some (GStr (survey q now)) \<and>
    (map_of output ''raised'' \<noteq> None \<longleftrightarrow> out_of_line q \<and> good_data (Seconds (time_Sub now (mq_QuotedAt q))) (mq_Volume24 q))"
proof -
  have "\<exists>router'. crypto_buildRuntime read_file dec = Ok (router', crypto_engine :: ('w, 's) engine)"
    by (rule crypto_runtime [where read_file = read_file and dec = dec, OF assms(1,2)])
  then have e: "e = crypto_engine" using assms(3) by auto
  obtain r rt1 where r: "Run h e ''crypto-surveillance.screen'' (quote_context q now) rt = (r, rt1)" by force
  have "surveyed (survey q now) (survey q now = ''flagged for review'') r"
    using crypto_run [of q now h rt] unfolding e [symmetric] r fst_conv .
  moreover have "survey q now = ''flagged for review'' \<longleftrightarrow>
      out_of_line q \<and> good_data (Seconds (time_Sub now (mq_QuotedAt q))) (mq_Volume24 q)"
    by (simp add: survey_def heldDisposition_def)
  ultimately obtain result where "r = Ok result" "map_of (wr_Output result) ''disposition'' = Some (GStr (survey q now))"
    "map_of (wr_Output result) ''raised'' \<noteq> None \<longleftrightarrow>
      out_of_line q \<and> good_data (Seconds (time_Sub now (mq_QuotedAt q))) (mq_Volume24 q)"
    unfolding surveyed_def by blast
  then show ?thesis by (intro exI [of _ "wr_Output result"]) (simp add: crypto_screen_def r)
qed

lemma quotes_are_screened_witness:
  "\<exists>output. fst (crypto_screen (in_order_host (\<lambda>n w. (Inl [], w))) crypto_engine ''crypto-surveillance.screen''
      \<lparr>mq_Asset = ''bitcoin'', mq_USD = Fin 60000, mq_ChangePct24 = Fin (- 4), mq_Volume24 = Fin 1000000000, mq_QuotedAt = 0\<rparr> 1000000000
      \<lparr>rt_world = (), rt_store = NewMemoryStore, rt_log = []\<rparr>) = Ok (quote_line
        \<lparr>mq_Asset = ''bitcoin'', mq_USD = Fin 60000, mq_ChangePct24 = Fin (- 4), mq_Volume24 = Fin 1000000000, mq_QuotedAt = 0\<rparr> output) \<and>
    map_of output ''disposition'' = Some (GStr ''flagged for review'')"
proof -
  let ?q = "\<lparr>mq_Asset = ''bitcoin'', mq_USD = Fin 60000, mq_ChangePct24 = Fin (- 4), mq_Volume24 = Fin 1000000000, mq_QuotedAt = 0\<rparr>"
  obtain router where b: "crypto_buildRuntime (\<lambda>_. Inr []) (\<lambda>_. Inr crypto_manifest) =
      Ok (router, crypto_engine :: (unit, memory_store) engine)"
    using crypto_runtime [where read_file = "\<lambda>_. Inr []" and dec = "\<lambda>_. Inr crypto_manifest", OF refl refl] by blast
  have age: "Seconds (time_Sub 1000000000 0) = Fin 1" "Seconds (int maxQuoteAge) = Fin 900"
    by (simp_all add: Seconds_def time_Sub_def maxQuoteAge_def f64_of_int_small round64_def ilog2_def bits_of.simps round_rat_def
        pow2_def Let_def)
  then have "good_data (Seconds (time_Sub 1000000000 0)) (Fin 1000000000)"
    by (simp add: good_data_def liquidityFloor_def)
  then have s: "survey ?q 1000000000 = ''flagged for review''"
    by (simp add: survey_def out_of_line_def stablecoins_def materialMovePct_def f64_le_def)
  show ?thesis
    using quotes_are_screened [where q = ?q and now = 1000000000 and h = "in_order_host (\<lambda>n w. (Inl [], w))" and
        rt = "\<lparr>rt_world = (), rt_store = NewMemoryStore, rt_log = []\<rparr>", OF refl refl b] unfolding s by blast
qed

end
