(* ===== verification/Spec2Isabelle.thy ===== *)
theory Spec2Isabelle
  imports Runaway ResumeFacts Validated Injector ReplayFacts Recovery MetricsFacts Bench PolicyFacts CatalogFacts
    HttpApiFacts DraftingFacts Services CliFacts PlaygroundFacts SiteFacts RuleChange CodeAuditFacts NetDetect
    NetWatch ApprovalFacts Quickstart SecMonitor MetaScenarios CryptoWatch
begin

text \<open>
  A verification development of CEE, an engine that runs declared workflows on behalf of an intent router: a
  query is matched to an intent, the intent names a workflow, and the workflow's steps run under a sandbox
  gate, circuit breakers, compensation, suspension and fan-out. Every Go package of the repository that
  carries logic is modelled, function by function under the names of the source; this header says where.

  \<^bold>\<open>The parts and how they meet.\<close>

  \<^item> \<^bold>\<open>Values.\<close> \<open>Prelude\<close>: Go maps as key-ordered association lists (\<open>gomap\<close>), results with a panic branch
    (\<open>res\<close>), strings as byte strings. \<open>GoValue\<close>: values of type \<open>any\<close>, \<open>reflect.DeepEqual\<close>, \<open>fmt\<close>'s \<open>%v\<close>; \<open>Utf8\<close>,
    \<open>Floats\<close>, \<open>Json\<close>, \<open>Paths\<close>, \<open>Net\<close>, \<open>HttpClient\<close>, \<open>SiteText\<close>: what the code uses of the standard library.
    \<open>Entities\<close> (\<open>entities/entities.go\<close>): the shapes the packages exchange.
  \<^item> \<^bold>\<open>Engine\<close> (\<open>execution/\<close>). \<open>ExecTypes\<close>: steps, policies, errors and their texts, the engine's fields.
    \<open>Compensate\<close> (\<open>compensate.go\<close>), \<open>Parallel\<close> (the join of \<open>parallel.go\<close>), \<open>Engine\<close> (\<open>run\<close>, \<open>runFrom\<close>, \<open>suspend\<close>,
    \<open>runParallel\<close>), \<open>Store\<close> (\<open>MemoryStore\<close> and the contract of a store), \<open>Resume\<close> (\<open>authorize.go\<close>, \<open>ResumeAs\<close>). One
    pass of the loop is one \<open>exec_\<close> function from a cursor to the next cursor or an outcome; state is threaded
    as a record of the world the actions act on, the store and the log of observed events (\<open>rt\<close>).
  \<^item> \<^bold>\<open>Declaration.\<close> \<open>Stdlib\<close> (\<open>stdlib/\<close>): the standard actions. \<open>Manifest\<close> and \<open>Validate\<close> (\<open>manifest/\<close>): loading
    and checking manifests, over the graph search of \<open>Graph\<close>. \<open>Router\<close> (\<open>intentrouter/\<close>) and \<open>Registry\<close>
    (\<open>registry/\<close>): from a query to a workflow; \<open>SandboxM\<close> (\<open>sandbox/\<close>): the probes.
  \<^item> \<^bold>\<open>Around a run.\<close> \<open>Injector\<close> (\<open>llminjector/\<close>): fields a model extracts, with their provenance. \<open>Replay\<close>
    (\<open>replay/\<close>): recording, playing back, comparing. \<open>Filestore\<close> (\<open>filestore/\<close>): parked runs on disk, a save as
    the script of its system calls. \<open>Metrics\<close> (\<open>scorecard/\<close>, \<open>diagnostics/\<close>): counters fed by the event log.
  \<^item> \<^bold>\<open>Tools.\<close> \<open>Bench\<close> (\<open>bench/\<close>), \<open>PolicyDiff\<close> (\<open>policydiff/\<close>), \<open>Catalog\<close> (\<open>catalog/\<close>), \<open>Drafting\<close> (\<open>draft/\<close>).
  \<^item> \<^bold>\<open>Outside.\<close> \<open>HttpApi\<close> (\<open>httpapi/\<close>): the handlers. \<open>LlmHttp\<close> (\<open>llmhttp/\<close>) and \<open>Services\<close> (\<open>embedhttp/\<close> and the
    three \<open>satellites/\<close>): clients of models, embeddings, rehearsal services, Docker and WebAssembly hooks.
    \<open>Cli\<close> (\<open>cmd/cee\<close>) and \<open>Playground\<close> (\<open>cmd/ceewasm\<close>): the two programs built on all of the above. \<open>Markdown\<close>,
    \<open>Blog\<close>, \<open>Board\<close>, \<open>Site\<close> (\<open>.github/site/\<close>): the generator of the web site, which reads what the tools print.
  \<^item> \<^bold>\<open>Programs\<close> (\<open>examples/\<close>). Each demonstration with its manifest, on the packages above: \<open>Quickstart\<close>,
    \<open>Approval\<close> (\<open>human_approval\<close>), \<open>SecMonitor\<close> (\<open>security_monitoring\<close>), \<open>NetDetect\<close> (\<open>network_detection\<close>),
    \<open>NetWatch\<close> (\<open>local_netwatch\<close>), \<open>CryptoWatch\<close> (\<open>crypto_surveillance\<close>), \<open>CodeAudit\<close> (\<open>code_audit\<close>),
    \<open>RuleChange\<close> (\<open>rule_change\<close>), \<open>MetaScenarios\<close> (\<open>meta_scenarios\<close>). \<open>Demo\<close> holds what they share. A manifest is the
    value its JSON file decodes to; what a program prints is a list of lines, and its exit with an error is \<open>Err\<close>.

  \<^bold>\<open>What the lemmas show.\<close>

  \<^item> \<open>EngineFacts\<close>, \<open>Simulation\<close>, \<open>Lockstep\<close>: the proof rules for runs, as locales: a relation kept by every
    primitive effect is kept by a run; two runs related step by step, or as long as a guard holds, have related
    results. Each is interpreted on the engine, several times over.
  \<^item> \<open>ProbeSafety\<close>: no action without its probe, counted in the log however the branches' calls interleave.
    \<open>Determinism\<close>: an engine without a store, with actions and probes that look at the context, does not depend on
    schedule and map order; no engine depends on its observer. \<open>Pipelines\<close>: a reference semantics for chains and
    the engine refining it; the saga, for a failure of any step at any point of a run of one workflow (\<open>reaches\<close>,
    \<open>breaks\<close>); suspension. \<open>Runaway\<close>: nesting cycles end in a structural error, step cycles in the step limit when
    their leaves neither suspend nor panic, and the actions of a run, compensations included, are bounded.
    \<open>Clean\<close> and \<open>Validated\<close>: what the validator accepts loads, does not run away, and no run of it, nested ones
    included, meets a missing step or workflow. \<open>Graph\<close>: the search finds exactly the cycles there are.
  \<^item> \<open>Store\<close>, \<open>FilestoreFacts\<close>, \<open>Recovery\<close>: one contract, met in memory and on disk: a parked run is claimed at
    most once per save, on disk under any faults of the system; a crash tears no save; claims are listed from
    \<open>minAge\<close> after the save on. \<open>ResumeFacts\<close>: what a resumption does and who may do it, for any store that meets
    the contract.
  \<^item> \<open>ReplayFacts\<close>, \<open>PolicyFacts\<close>: on the recording's schedule a replay makes the same observer calls and has the same
    outcome, and comparisons are exact. \<open>MetricsFacts\<close>
    and \<open>Bench\<close>: the numbers mean what they say.
  \<^item> \<open>HttpApiFacts\<close>, \<open>CatalogFacts\<close>, \<open>DraftingFacts\<close>, \<open>CliFacts\<close>, \<open>PlaygroundFacts\<close>: what each front lets through, to
    whom, and what it writes, also when a write fails half-way. \<open>JsonSafe\<close>, \<open>MarkdownFacts\<close>, \<open>BlogFacts\<close>, \<open>BoardFacts\<close>, \<open>SiteFacts\<close>: pages hold no
    markup but the generator's, presets stay in their script, the published board is the printed one.
  \<^item> \<open>Walks\<close>: rules that load a literal manifest and walk its steps, for the outcome alone and with the state. On
    them the theories of the programs prove, for all inputs, what each program decides: which findings block a merge, which hosts and addresses are contained, which connections and quotes are flagged, which records
    are written, how a parked claim is decided, which refunds a new rule flips.
  \<^item> \<open>Samples\<close> holds the small engines on which witnesses evaluate.

  \<^bold>\<open>Bounds and fuel.\<close> The engine needs no fuel: \<open>run_loop\<close> recurs on the steps left under the step ceiling and
  \<open>runFrom\<close> on the depth left under the nesting ceiling, the engine's own limits (\<open>SetLimits\<close>), so that every run
  ends. The validator's recursive closures take the number of unvisited nodes as fuel, which \<open>visit_fuel\<close> and
  \<open>walk_fuel\<close> prove enough. Printing the shortest decimal of a float tries at most seventeen digits, which is
  enough for 64 bits. Drafting recurs on the attempts left. All other loops are structural or end by a measure.

  \<^bold>\<open>Taken as given.\<close> Actions, probes, authorizers, observers, extractors, vectorizers and network services are
  functions over a world of any type. What \<open>encoding/json\<close> decodes from bytes, what the Unicode tables classify,
  the random bytes, the clock, the schedule of goroutines and the order in which Go ranges over a map are
  parameters; the theorems hold for all of them unless they say otherwise.

  \<^bold>\<open>Simplified.\<close> What the goroutines of a fan-out do to the world happens one goroutine after the other, in an
  order the host chooses (\<open>host_schedule\<close>); their calls of the observer, which they share, interleave in any way
  (\<open>host_turn\<close>, \<open>weave\<close>: \<open>every_interleaving\<close> of two sequences is one). HTTP requests and store operations are
  atomic and interleave as sequences. \<open>reflect.DeepEqual\<close>'s shortcut for one reference, nil maps and slices against empty ones (where no
  result depends on it), fused multiply-add and signed zeros are left out. Counters stay below \<open>2 ^ 63\<close>. Paths
  are lexical: symbolic links, and two spellings of one file on the catalog's disk, are not modelled, nor are
  glob metacharacters in the path of the file store; the multiplexer is modelled on clean paths. \<open>%q\<close> passes
  bytes from 128 on through, as it does for printable text. \<open>sort.Slice\<close> is a stable sort.

  \<^bold>\<open>Not modelled.\<close> The HTML templates of the web site and their execution (\<open>templates.go\<close>, \<open>html/template\<close>), which
  \<open>Site\<close> takes as functions of their data; the read timeout of \<open>cee serve\<close>; the lines the site generator prints
  at its end.
\<close>

end
